(* ===== verification/Prelude.thy ===== *)
theory Prelude
  imports Main
begin

text \<open>
  Shared vocabulary of the development: the JavaScript numbers and strings the sidecar
  computes with, the error-and-state shape of its asynchronous methods, and a small
  weakest-precondition calculus that every later theory uses to walk through a handler.

  A string is a list of 8-bit characters, read as UTF-16 code units below 256; the code
  modelled here compares, trims, splits and concatenates strings, and parses and prints
  decimal digits.  A number is an integer or one of the three non-finite doubles; the code
  modelled here only counts, adds milliseconds and compares, so fractions do not arise.
  Logging and metrics calls are left out everywhere.
\<close>

section \<open>Rule collections\<close>

named_theorems wp_rules \<open>weakest preconditions of the io combinators and of the operations\<close>
named_theorems js_rules \<open>evaluation of JavaScript number and string helpers\<close>

section \<open>Numbers\<close>

datatype jsnum = Num int | PosInf | NegInf | NaN

fun js_finite :: "jsnum \<Rightarrow> bool" where
  "js_finite (Num _) = True"
| "js_finite _ = False"

fun js_lt :: "jsnum \<Rightarrow> jsnum \<Rightarrow> bool" where
  "js_lt (Num a) (Num b) = (a < b)"
| "js_lt NaN _ = False"
| "js_lt _ NaN = False"
| "js_lt PosInf _ = False"
| "js_lt _ NegInf = False"
| "js_lt NegInf _ = True"
| "js_lt _ PosInf = True"

fun js_le :: "jsnum \<Rightarrow> jsnum \<Rightarrow> bool" where
  "js_le NaN _ = False"
| "js_le _ NaN = False"
| "js_le a b = (\<not> js_lt b a)"

fun js_add :: "jsnum \<Rightarrow> int \<Rightarrow> jsnum" where
  "js_add (Num a) b = Num (a + b)"
| "js_add x _ = x"

text \<open>\<open>a - x\<close> for a finite left operand: \<open>Date.now() - createdAt\<close>.\<close>

fun js_sub_from :: "int \<Rightarrow> jsnum \<Rightarrow> jsnum" where
  "js_sub_from a (Num b) = Num (a - b)"
| "js_sub_from a PosInf = NegInf"
| "js_sub_from a NegInf = PosInf"
| "js_sub_from a NaN = NaN"

lemma js_lt_Num [simp]: "js_lt (Num a) x \<longleftrightarrow> x = PosInf \<or> (\<exists>b. x = Num b \<and> a < b)"
  by (cases x) auto

lemma js_le_Num [simp]: "js_le (Num a) x \<longleftrightarrow> x = PosInf \<or> (\<exists>b. x = Num b \<and> a \<le> b)"
  by (cases x) auto

lemma js_add_finite [simp]: "js_finite (js_add x d) = js_finite x"
  by (cases x) auto

section \<open>Strings\<close>

definition js_space :: "char \<Rightarrow> bool" where
  "js_space c \<longleftrightarrow> (let n = of_char c :: nat in n = 32 \<or> n = 160 \<or> (9 \<le> n \<and> n \<le> 13))"

definition js_trim :: "string \<Rightarrow> string" where
  "js_trim s = rev (dropWhile js_space (rev (dropWhile js_space s)))"

definition starts_with :: "string \<Rightarrow> string \<Rightarrow> bool" where
  "starts_with s p \<longleftrightarrow> take (length p) s = p"

definition js_digit :: "char \<Rightarrow> bool" where
  "js_digit c \<longleftrightarrow> (let n = of_char c :: nat in 48 \<le> n \<and> n \<le> 57)"

definition digit_char :: "nat \<Rightarrow> char" where
  "digit_char d = char_of (48 + d)"

definition digit_val :: "char \<Rightarrow> nat" where
  "digit_val c = of_char c - 48"

fun show_nat :: "nat \<Rightarrow> string" where
  "show_nat n = (if n < 10 then [digit_char n] else show_nat (n div 10) @ [digit_char (n mod 10)])"

declare show_nat.simps [simp del]

definition digits_val :: "string \<Rightarrow> nat" where
  "digits_val s = foldl (\<lambda>a c. 10 * a + digit_val c) 0 s"

text \<open>\<open>Number.prototype.toString\<close> on an integer of magnitude below \<open>10\<^sup>2\<^sup>1\<close>.\<close>

definition show_int :: "int \<Rightarrow> string" where
  "show_int i = (if i < 0 then CHR ''-'' # show_nat (nat (- i)) else show_nat (nat i))"

fun show_num :: "jsnum \<Rightarrow> string" where
  "show_num (Num i) = show_int i"
| "show_num PosInf = ''Infinity''"
| "show_num NegInf = ''-Infinity''"
| "show_num NaN = ''NaN''"

text \<open>\<open>parseInt(s, 10)\<close>: leading white space, an optional sign, the longest run of digits.\<close>

definition parse_int :: "string \<Rightarrow> jsnum" where
  "parse_int s =
     (let t = dropWhile js_space s;
          neg = (t \<noteq> [] \<and> hd t = CHR ''-'');
          u = (if t \<noteq> [] \<and> (hd t = CHR ''-'' \<or> hd t = CHR ''+'') then tl t else t);
          ds = takeWhile js_digit u
      in if ds = [] then NaN
         else Num (if neg then - int (digits_val ds) else int (digits_val ds)))"

lemma of_char_digit_char [simp]: "d < 10 \<Longrightarrow> (of_char (digit_char d) :: nat) = 48 + d"
  by (simp add: digit_char_def)

lemma digit_char_facts [simp]:
  assumes "d < 10"
  shows "js_digit (digit_char d)" and "digit_val (digit_char d) = d" and "\<not> js_space (digit_char d)"
  using assms by (simp_all add: js_digit_def digit_val_def js_space_def Let_def)

lemma js_digit_sign [simp]: "\<not> js_digit CHR ''-''" "\<not> js_digit CHR ''+''"
  by (simp_all add: js_digit_def)

lemma digit_char_sign [simp]:
  assumes "d < 10"
  shows "digit_char d \<noteq> CHR ''-''" and "digit_char d \<noteq> CHR ''+''"
  using digit_char_facts(1) [OF assms] by auto

lemma show_nat_digits: "set (show_nat n) \<subseteq> digit_char ` {..<10}"
proof (induction n rule: show_nat.induct)
  case (1 n)
  then show ?case by (subst show_nat.simps) auto
qed

lemma show_nat_nonempty [simp]: "show_nat n \<noteq> []"
  by (subst show_nat.simps) simp

lemma show_nat_all_digits: "\<forall>c \<in> set (show_nat n). js_digit c \<and> \<not> js_space c \<and> c \<noteq> CHR ''-'' \<and> c \<noteq> CHR ''+''"
proof
  fix c assume "c \<in> set (show_nat n)"
  then obtain d where "d < 10" and "c = digit_char d" using show_nat_digits [of n] by blast
  then show "js_digit c \<and> \<not> js_space c \<and> c \<noteq> CHR ''-'' \<and> c \<noteq> CHR ''+''" by simp
qed

lemma digits_val_show_nat [js_rules]: "digits_val (show_nat n) = n"
proof (induction n rule: show_nat.induct)
  case (1 n)
  then show ?case by (subst show_nat.simps) (simp add: digits_val_def)
qed

lemma takeWhile_digits_show_nat [simp]: "takeWhile js_digit (show_nat n) = show_nat n"
  using show_nat_all_digits [of n] by (simp add: takeWhile_eq_all_conv)

lemma show_nat_hd: "\<not> js_space (hd (show_nat n))" "hd (show_nat n) \<noteq> CHR ''-''" "hd (show_nat n) \<noteq> CHR ''+''"
  using show_nat_all_digits [of n] hd_in_set [OF show_nat_nonempty] by auto

lemma dropWhile_space_show_nat [simp]: "dropWhile js_space (show_nat n) = show_nat n"
  by (cases "show_nat n") (use show_nat_hd [of n] in auto)

lemma parse_show_int [simp, js_rules]: "parse_int (show_int i) = Num i"
proof (cases "i < 0")
  case True
  have "\<not> js_space CHR ''-''" by (simp add: js_space_def)
  with True show ?thesis by (simp add: parse_int_def show_int_def Let_def digits_val_show_nat)
next
  case False
  then show ?thesis
    by (simp add: parse_int_def show_int_def Let_def digits_val_show_nat show_nat_hd)
qed

lemma show_int_nonempty [simp]: "show_int i \<noteq> []"
  by (simp add: show_int_def)

lemma js_trim_Nil [simp]: "js_trim [] = []"
  by (simp add: js_trim_def)

lemma dropWhile_hd_False: "t = [] \<or> \<not> p (hd t) \<Longrightarrow> dropWhile p t = t"
  by (cases t) auto

lemma hd_trim_right:
  assumes "rev (dropWhile p (rev t)) \<noteq> []"
  shows "hd (rev (dropWhile p (rev t))) = hd t"
proof -
  have "t = rev (dropWhile p (rev t)) @ rev (takeWhile p (rev t))"
    by (metis rev_append rev_rev_ident takeWhile_dropWhile_id)
  with assms show ?thesis by (metis hd_append2)
qed

lemma js_trim_idem [simp]: "js_trim (js_trim s) = js_trim s"
proof -
  let ?t = "dropWhile js_space s"
  let ?u = "rev (dropWhile js_space (rev ?t))"
  have "?u = [] \<or> \<not> js_space (hd ?u)"
  proof (cases "?u = []")
    case False
    then have "?t \<noteq> []" by (metis dropWhile.simps(1) rev.simps(1))
    then have "\<not> js_space (hd ?t)" by (rule hd_dropWhile)
    then show ?thesis using hd_trim_right [OF False] by simp
  qed simp
  then have d: "dropWhile js_space ?u = ?u" by (rule dropWhile_hd_False)
  have "js_trim (js_trim s) = rev (dropWhile js_space (rev ?u))"
    unfolding js_trim_def d ..
  also have "\<dots> = ?u" by (simp only: rev_rev_ident dropWhile_idem)
  finally show ?thesis unfolding js_trim_def .
qed

section \<open>Lists\<close>

lemma drop_append_drop: "\<exists>d. drop n (drop m xs @ ys) = drop d (xs @ ys)"
proof (intro exI)
  show "drop n (drop m xs @ ys) = drop (n + min m (length xs)) (xs @ ys)"
  proof (cases "m \<le> length xs")
    case True
    then have "drop m xs @ ys = drop m (xs @ ys)" by simp
    with True show ?thesis by (simp only: min_absorb1 drop_drop)
  qed simp
qed

section \<open>Asynchronous methods\<close>

text \<open>
  An \<open>async\<close> method reads and changes the state \<open>'w\<close> and either resolves with a value
  or rejects with an error \<open>'e\<close>: a message where the code does not look at the class of the
  error, a datatype where it does.  \<open>await\<close> is \<open>io_bind\<close>.
\<close>

type_synonym ('w, 'e, 'a) eio = "'w \<Rightarrow> ('e + 'a) \<times> 'w"
type_synonym ('w, 'a) io = "('w, string, 'a) eio"

definition io_return :: "'a \<Rightarrow> ('w, 'e, 'a) eio" where
  "io_return a w = (Inr a, w)"

definition io_throw :: "'e \<Rightarrow> ('w, 'e, 'a) eio" where
  "io_throw e w = (Inl e, w)"

definition io_bind :: "('w, 'e, 'a) eio \<Rightarrow> ('a \<Rightarrow> ('w, 'e, 'b) eio) \<Rightarrow> ('w, 'e, 'b) eio" where
  "io_bind m f w = (case m w of (Inl e, w') \<Rightarrow> (Inl e, w') | (Inr a, w') \<Rightarrow> f a w')"

definition io_then :: "('w, 'e, 'a) eio \<Rightarrow> ('w, 'e, 'b) eio \<Rightarrow> ('w, 'e, 'b) eio" where
  "io_then m n = io_bind m (\<lambda>_. n)"

definition io_catch :: "('w, 'e, 'a) eio \<Rightarrow> ('e \<Rightarrow> ('w, 'f, 'a) eio) \<Rightarrow> ('w, 'f, 'a) eio" where
  "io_catch m h w = (case m w of (Inl e, w') \<Rightarrow> h e w' | (Inr a, w') \<Rightarrow> (Inr a, w'))"

definition io_finally :: "('w, 'e, 'a) eio \<Rightarrow> ('w, 'e, unit) eio \<Rightarrow> ('w, 'e, 'a) eio" where
  "io_finally m f w =
     (case m w of (r, w') \<Rightarrow>
       (case f w' of (Inl e, w'') \<Rightarrow> (Inl e, w'') | (Inr _, w'') \<Rightarrow> (r, w'')))"

text \<open>
  A method with a mutable local variable runs over the state paired with that variable.
\<close>

definition io_lift :: "('w, 'e, 'a) eio \<Rightarrow> ('w \<times> 'l, 'e, 'a) eio" where
  "io_lift m s = (case m (fst s) of (r, w') \<Rightarrow> (r, (w', snd s)))"

definition io_local :: "'l \<Rightarrow> ('w \<times> 'l, 'e, unit) eio" where
  "io_local l s = (Inr (), (fst s, l))"

definition io_read_local :: "('w \<times> 'l, 'e, 'l) eio" where
  "io_read_local s = (Inr (snd s), s)"

definition io_with_local :: "'l \<Rightarrow> ('w \<times> 'l, 'e, 'a) eio \<Rightarrow> ('w, 'e, 'a) eio" where
  "io_with_local l m w = (case m (w, l) of (r, s) \<Rightarrow> (r, fst s))"

subsection \<open>Weakest preconditions\<close>

text \<open>
  \<open>wp m Q E w\<close>: run from \<open>w\<close>, the method either resolves in a state where \<open>Q\<close> holds of the
  value and the state, or rejects in one where \<open>E\<close> holds of the message and the state.
\<close>

definition wp :: "('w, 'e, 'a) eio \<Rightarrow> ('a \<Rightarrow> 'w \<Rightarrow> bool) \<Rightarrow> ('e \<Rightarrow> 'w \<Rightarrow> bool) \<Rightarrow> 'w \<Rightarrow> bool" where
  "wp m Q E w = (case m w of (Inl e, w') \<Rightarrow> E e w' | (Inr a, w') \<Rightarrow> Q a w')"

lemma wp_return [wp_rules]: "wp (io_return a) Q E w = Q a w"
  by (simp add: wp_def io_return_def)

lemma wp_throw [wp_rules]: "wp (io_throw e) Q E w = E e w"
  by (simp add: wp_def io_throw_def)

lemma wp_bind [wp_rules]: "wp (io_bind m f) Q E w = wp m (\<lambda>a. wp (f a) Q E) E w"
  by (auto simp: wp_def io_bind_def split: prod.splits sum.splits)

lemma wp_then [wp_rules]: "wp (io_then m n) Q E w = wp m (\<lambda>_. wp n Q E) E w"
  by (simp add: io_then_def wp_bind)

lemma wp_catch [wp_rules]: "wp (io_catch m h) Q E w = wp m Q (\<lambda>e. wp (h e) Q E) w"
  by (auto simp: wp_def io_catch_def split: prod.splits sum.splits)

lemma wp_finally [wp_rules]:
  "wp (io_finally m f) Q E w = wp m (\<lambda>a. wp f (\<lambda>_. Q a) E) (\<lambda>e. wp f (\<lambda>_. E e) E) w"
  by (auto simp: wp_def io_finally_def split: prod.splits sum.splits)

lemma wp_lift [wp_rules]:
  "wp (io_lift m) Q E s = wp m (\<lambda>a w. Q a (w, snd s)) (\<lambda>e w. E e (w, snd s)) (fst s)"
  by (auto simp: wp_def io_lift_def split: prod.splits sum.splits)

lemma wp_local [wp_rules]: "wp (io_local l) Q E s = Q () (fst s, l)"
  by (simp add: wp_def io_local_def)

lemma wp_read_local [wp_rules]: "wp io_read_local Q E s = Q (snd s) s"
  by (simp add: wp_def io_read_local_def)

lemma wp_with_local [wp_rules]:
  "wp (io_with_local l m) Q E w = wp m (\<lambda>a s. Q a (fst s)) (\<lambda>e s. E e (fst s)) (w, l)"
  by (auto simp: wp_def io_with_local_def split: prod.splits sum.splits)

lemma wp_if [wp_rules]: "wp (if b then m else n) Q E w = (if b then wp m Q E w else wp n Q E w)"
  by simp

lemma wp_let [wp_rules]: "wp (let x = t in m x) Q E w = (let x = t in wp (m x) Q E w)"
  by simp

lemma wp_case_option [wp_rules]:
  "wp (case x of None \<Rightarrow> m | Some a \<Rightarrow> n a) Q E w = (case x of None \<Rightarrow> wp m Q E w | Some a \<Rightarrow> wp (n a) Q E w)"
  by (simp split: option.split)

lemma wp_mono:
  assumes "wp m Q E w" and "\<And>a w'. Q a w' \<Longrightarrow> Q' a w'" and "\<And>e w'. E e w' \<Longrightarrow> E' e w'"
  shows "wp m Q' E' w"
  using assms by (auto simp: wp_def split: prod.splits sum.splits)

lemma wp_result: "wp m (\<lambda>_. P) (\<lambda>_. P) w \<longleftrightarrow> P (snd (m w))"
  by (auto simp: wp_def split: prod.splits sum.splits)

end
