(* ===== verification/Redis.thy ===== *)
theory Redis
  imports Prelude "HOL-Library.Product_Lexorder" "HOL-Library.List_Lexorder" "HOL-Library.Char_ord"
    "HOL-Library.Finite_Map"
begin

text \<open>
  The Redis server is a service the sidecar talks to, so it is a parameter: a record of
  commands over an abstract server state.  What the code relies on is the documented effect
  of each command it sends, stated once as the locale \<open>redis_server\<close> over a \<^emph>\<open>view\<close> of the
  server's key space.  The scripts of the sidecar are written against the record; every fact
  about them holds for any server that satisfies the locale.  \<open>ks_server\<close>, the key space used
  as its own server, shows that the contract can be met and is what the witnesses run on.

  Every key of the program holds one type of value for its whole life (the key prefixes are
  disjoint), so the view has one map per type.  Scores, counters and times are integers.
\<close>

section \<open>The key space\<close>

type_synonym fields = "(string \<times> string) list"

record keyspace =
  ks_now :: int
  ks_ttl :: "string \<Rightarrow> int option"
  ks_str :: "(string, string) fmap"
  ks_hash :: "string \<Rightarrow> string \<Rightarrow> string option"
  ks_zset :: "string \<Rightarrow> (string \<times> int) list"
  ks_stream :: "string \<Rightarrow> (string \<times> fields) list"
  ks_pel :: "string \<Rightarrow> (string \<times> string) list"

definition ks_live :: "string \<Rightarrow> keyspace \<Rightarrow> bool" where
  "ks_live k ks = (case ks_ttl ks k of None \<Rightarrow> True | Some t \<Rightarrow> ks_now ks < t)"

definition ks_purge :: "string \<Rightarrow> keyspace \<Rightarrow> keyspace" where
  "ks_purge k ks =
     (if ks_live k ks then ks
      else ks\<lparr>ks_ttl := (ks_ttl ks)(k := None), ks_str := fmdrop k (ks_str ks),
              ks_hash := (ks_hash ks)(k := (\<lambda>_. None)), ks_zset := (ks_zset ks)(k := []),
              ks_stream := (ks_stream ks)(k := [])\<rparr>)"

definition ks_get :: "string \<Rightarrow> keyspace \<Rightarrow> string option" where
  "ks_get k ks = (if ks_live k ks then fmlookup (ks_str ks) k else None)"

definition ks_hget :: "string \<Rightarrow> string \<Rightarrow> keyspace \<Rightarrow> string option" where
  "ks_hget k f ks = (if ks_live k ks then ks_hash ks k f else None)"

definition ks_zlist :: "string \<Rightarrow> keyspace \<Rightarrow> (string \<times> int) list" where
  "ks_zlist k ks = (if ks_live k ks then ks_zset ks k else [])"

definition ks_entries :: "string \<Rightarrow> keyspace \<Rightarrow> (string \<times> fields) list" where
  "ks_entries k ks = (if ks_live k ks then ks_stream ks k else [])"

definition ks_set :: "string \<Rightarrow> string \<Rightarrow> int option \<Rightarrow> keyspace \<Rightarrow> keyspace" where
  "ks_set k v px ks =
     ks\<lparr>ks_str := fmupd k v (ks_str ks), ks_ttl := (ks_ttl ks)(k := map_option ((+) (ks_now ks)) px)\<rparr>"

definition ks_del :: "string \<Rightarrow> keyspace \<Rightarrow> keyspace" where
  "ks_del k ks = ks\<lparr>ks_str := fmdrop k (ks_str ks), ks_hash := (ks_hash ks)(k := (\<lambda>_. None)),
     ks_ttl := (ks_ttl ks)(k := None)\<rparr>"

definition ks_counter :: "string \<Rightarrow> keyspace \<Rightarrow> int" where
  "ks_counter k ks =
     (case ks_get k ks of None \<Rightarrow> 0 | Some v \<Rightarrow> (case parse_int v of Num i \<Rightarrow> i | _ \<Rightarrow> 0))"

definition ks_incrby :: "string \<Rightarrow> int \<Rightarrow> keyspace \<Rightarrow> keyspace" where
  "ks_incrby k d ks =
     (let ks' = ks_purge k ks in ks'\<lparr>ks_str := fmupd k (show_int (ks_counter k ks + d)) (ks_str ks')\<rparr>)"

definition ks_expire :: "string \<Rightarrow> int \<Rightarrow> keyspace \<Rightarrow> keyspace" where
  "ks_expire k secs ks = ks\<lparr>ks_ttl := (ks_ttl ks)(k \<mapsto> ks_now ks + 1000 * secs)\<rparr>"

definition ks_hset :: "string \<Rightarrow> string \<Rightarrow> string \<Rightarrow> keyspace \<Rightarrow> keyspace" where
  "ks_hset k f v ks =
     (let ks' = ks_purge k ks in ks'\<lparr>ks_hash := (ks_hash ks')(k := (ks_hash ks' k)(f \<mapsto> v))\<rparr>)"

definition ks_hdel :: "string \<Rightarrow> string \<Rightarrow> keyspace \<Rightarrow> keyspace" where
  "ks_hdel k f ks =
     (let ks' = ks_purge k ks in ks'\<lparr>ks_hash := (ks_hash ks')(k := (ks_hash ks' k)(f := None))\<rparr>)"

definition zset_put :: "string \<Rightarrow> int \<Rightarrow> (string \<times> int) list \<Rightarrow> (string \<times> int) list" where
  "zset_put m sc zs = insort_key (\<lambda>(x, s). (s, x)) (m, sc) (filter (\<lambda>(x, _). x \<noteq> m) zs)"

definition ks_zadd :: "string \<Rightarrow> int \<Rightarrow> string \<Rightarrow> keyspace \<Rightarrow> keyspace" where
  "ks_zadd k sc m ks =
     (let ks' = ks_purge k ks in ks'\<lparr>ks_zset := (ks_zset ks')(k := zset_put m sc (ks_zset ks' k))\<rparr>)"

definition ks_zrem :: "string \<Rightarrow> string \<Rightarrow> keyspace \<Rightarrow> keyspace" where
  "ks_zrem k m ks =
     (let ks' = ks_purge k ks
      in ks'\<lparr>ks_zset := (ks_zset ks')(k := filter (\<lambda>(x, _). x \<noteq> m) (ks_zset ks' k))\<rparr>)"

definition ks_zrange :: "string \<Rightarrow> int \<Rightarrow> nat \<Rightarrow> keyspace \<Rightarrow> string list" where
  "ks_zrange k mx n ks = take n (map fst (filter (\<lambda>(_, sc). sc \<le> mx) (ks_zlist k ks)))"

definition ks_xadd :: "string \<Rightarrow> nat \<Rightarrow> string \<Rightarrow> fields \<Rightarrow> keyspace \<Rightarrow> keyspace" where
  "ks_xadd k drp i fs ks =
     (let ks' = ks_purge k ks in ks'\<lparr>ks_stream := (ks_stream ks')(k := drop drp (ks_stream ks' k @ [(i, fs)]))\<rparr>)"

definition ks_xack :: "string \<Rightarrow> string \<Rightarrow> string \<Rightarrow> keyspace \<Rightarrow> keyspace" where
  "ks_xack k g i ks =
     ks\<lparr>ks_pel := (ks_pel ks)(k := filter (\<lambda>x. x \<noteq> (g, i)) (ks_pel ks k))\<rparr>"

definition ks_tick :: "nat \<Rightarrow> keyspace \<Rightarrow> keyspace" where
  "ks_tick d ks = ks\<lparr>ks_now := ks_now ks + int d\<rparr>"

section \<open>Commands and their contract\<close>

text \<open>
  \<open>r_trim k n s\<close> is how many of the oldest entries the server drops when \<open>XADD k MAXLEN ~ n\<close>
  runs in state \<open>s\<close>: approximate trimming leaves that to the server, as long as at least \<open>n\<close>
  entries stay.  \<open>r_new_id\<close> is the identifier it generates for \<open>*\<close>.  \<open>r_tick\<close> is time passing.
\<close>

record 's redis =
  r_get :: "string \<Rightarrow> 's \<Rightarrow> string option"
  r_keys :: "string \<Rightarrow> 's \<Rightarrow> string list"
  r_set :: "string \<Rightarrow> string \<Rightarrow> 's \<Rightarrow> 's"
  r_set_px :: "string \<Rightarrow> string \<Rightarrow> int \<Rightarrow> 's \<Rightarrow> 's"
  r_del :: "string \<Rightarrow> 's \<Rightarrow> 's"
  r_incrby :: "string \<Rightarrow> int \<Rightarrow> 's \<Rightarrow> 's"
  r_counter :: "string \<Rightarrow> 's \<Rightarrow> int"
  r_expire :: "string \<Rightarrow> int \<Rightarrow> 's \<Rightarrow> 's"
  r_hget :: "string \<Rightarrow> string \<Rightarrow> 's \<Rightarrow> string option"
  r_hset :: "string \<Rightarrow> string \<Rightarrow> string \<Rightarrow> 's \<Rightarrow> 's"
  r_hdel :: "string \<Rightarrow> string \<Rightarrow> 's \<Rightarrow> 's"
  r_zadd :: "string \<Rightarrow> int \<Rightarrow> string \<Rightarrow> 's \<Rightarrow> 's"
  r_zrem :: "string \<Rightarrow> string \<Rightarrow> 's \<Rightarrow> 's"
  r_zrange :: "string \<Rightarrow> int \<Rightarrow> nat \<Rightarrow> 's \<Rightarrow> string list"
  r_xadd :: "string \<Rightarrow> nat \<Rightarrow> fields \<Rightarrow> 's \<Rightarrow> 's"
  r_new_id :: "string \<Rightarrow> 's \<Rightarrow> string"
  r_trim :: "string \<Rightarrow> nat \<Rightarrow> 's \<Rightarrow> nat"
  r_xack :: "string \<Rightarrow> string \<Rightarrow> string \<Rightarrow> 's \<Rightarrow> 's"
  r_tick :: "nat \<Rightarrow> 's \<Rightarrow> 's"

abbreviation r_exists :: "'s redis \<Rightarrow> string \<Rightarrow> 's \<Rightarrow> bool" where
  "r_exists R k s \<equiv> r_get R k s \<noteq> None"

named_theorems redis_view \<open>the documented effect of each Redis command on the view\<close>
named_theorems ks_rules \<open>reading the key space after a command\<close>

locale redis_server =
  fixes R :: "'s redis" and view :: "'s \<Rightarrow> keyspace"
  assumes get_view [redis_view]: "r_get R k s = ks_get k (view s)"
    and keys_view: "set (r_keys R p s) = {k. ks_get k (view s) \<noteq> None \<and> starts_with k p}"
    and keys_distinct: "distinct (r_keys R p s)"
    and set_view [redis_view]: "view (r_set R k v s) = ks_set k v None (view s)"
    and set_px_view [redis_view]: "view (r_set_px R k v px s) = ks_set k v (Some px) (view s)"
    and del_view [redis_view]: "view (r_del R k s) = ks_del k (view s)"
    and incrby_view [redis_view]: "view (r_incrby R k d s) = ks_incrby k d (view s)"
    and counter_view [redis_view]: "r_counter R k s = ks_counter k (view s)"
    and expire_view [redis_view]: "view (r_expire R k secs s) = ks_expire k secs (view s)"
    and hget_view [redis_view]: "r_hget R k f s = ks_hget k f (view s)"
    and hset_view [redis_view]: "view (r_hset R k f v s) = ks_hset k f v (view s)"
    and hdel_view [redis_view]: "view (r_hdel R k f s) = ks_hdel k f (view s)"
    and zadd_view [redis_view]: "view (r_zadd R k sc m s) = ks_zadd k sc m (view s)"
    and zrem_view [redis_view]: "view (r_zrem R k m s) = ks_zrem k m (view s)"
    and zrange_view [redis_view]: "r_zrange R k mx n s = ks_zrange k mx n (view s)"
    and xadd_view [redis_view]:
      "view (r_xadd R k n fs s) = ks_xadd k (r_trim R k n s) (r_new_id R k s) fs (view s)"
    and trim_bound: "r_trim R k n s \<le> Suc (length (ks_entries k (view s))) - n"
    and new_id_fresh: "r_new_id R k s \<notin> fst ` set (ks_entries k (view s))"
    and new_id_not_pending: "r_new_id R k s \<notin> snd ` set (ks_pel (view s) k)"
    and xack_view [redis_view]: "view (r_xack R k g i s) = ks_xack k g i (view s)"
    and tick_view [redis_view]: "view (r_tick R dt s) = ks_tick dt (view s)"

section \<open>Reading after writing\<close>

lemma ks_get_purge [ks_rules]: "ks_get k (ks_purge k' ks) = ks_get k ks"
  by (auto simp: ks_get_def ks_purge_def ks_live_def split: option.splits)

lemma ks_hget_purge [ks_rules]: "ks_hget k f (ks_purge k' ks) = ks_hget k f ks"
  by (auto simp: ks_hget_def ks_purge_def ks_live_def split: option.splits)

lemma ks_zlist_purge [ks_rules]: "ks_zlist k (ks_purge k' ks) = ks_zlist k ks"
  by (auto simp: ks_zlist_def ks_purge_def ks_live_def split: option.splits)

lemma ks_entries_purge [ks_rules]: "ks_entries k (ks_purge k' ks) = ks_entries k ks"
  by (auto simp: ks_entries_def ks_purge_def ks_live_def split: option.splits)

lemma ks_live_purge [ks_rules]: "ks_live k (ks_purge k' ks) \<longleftrightarrow> k = k' \<or> ks_live k ks"
  by (auto simp: ks_purge_def ks_live_def split: option.splits)

lemma ks_get_set [ks_rules]:
  "ks_get k (ks_set k' v px ks) =
     (if k = k' then (if px = None \<or> (\<exists>d>0. px = Some d) then Some v else None) else ks_get k ks)"
  by (auto simp: ks_get_def ks_set_def ks_live_def split: option.splits)

lemma ks_get_del [ks_rules]: "ks_get k (ks_del k' ks) = (if k = k' then None else ks_get k ks)"
  by (auto simp: ks_get_def ks_del_def ks_live_def split: option.splits)

lemma ks_get_incrby [ks_rules]:
  "ks_get k (ks_incrby k' d ks) = (if k = k' then Some (show_int (ks_counter k ks + d)) else ks_get k ks)"
  using ks_get_purge [of k k' ks] ks_live_purge [of k k' ks]
  by (auto simp: ks_get_def ks_incrby_def ks_live_def Let_def split: option.splits if_splits)

lemma ks_counter_incrby [ks_rules]:
  "ks_counter k (ks_incrby k' d ks) = (if k = k' then ks_counter k ks + d else ks_counter k ks)"
  by (simp add: ks_counter_def ks_get_incrby)

lemma ks_get_tick_mono: "ks_get k (ks_tick d ks) = Some v \<Longrightarrow> ks_get k ks = Some v"
  by (auto simp: ks_get_def ks_tick_def ks_live_def split: option.splits if_splits)


lemma ks_set_frame [ks_rules]:
  "k \<noteq> k' \<Longrightarrow> ks_hget k f (ks_set k' v px ks) = ks_hget k f ks"
  "k \<noteq> k' \<Longrightarrow> ks_zlist k (ks_set k' v px ks) = ks_zlist k ks"
  "k \<noteq> k' \<Longrightarrow> ks_entries k (ks_set k' v px ks) = ks_entries k ks"
  "ks_pel (ks_set k' v px ks) = ks_pel ks"
  by (auto simp: ks_set_def ks_hget_def ks_zlist_def ks_entries_def ks_live_def split: option.splits)

lemma ks_hset_frame [ks_rules]:
  "k \<noteq> k' \<Longrightarrow> ks_get k (ks_hset k' f v ks) = ks_get k ks"
  "ks_hget k g (ks_hset k' f v ks) = (if k = k' \<and> g = f then Some v else ks_hget k g ks)"
  "k \<noteq> k' \<Longrightarrow> ks_zlist k (ks_hset k' f v ks) = ks_zlist k ks"
  "k \<noteq> k' \<Longrightarrow> ks_entries k (ks_hset k' f v ks) = ks_entries k ks"
  "ks_pel (ks_hset k' f v ks) = ks_pel ks"
  by (auto simp: ks_hset_def ks_get_def ks_hget_def ks_zlist_def ks_entries_def ks_live_def
      ks_purge_def Let_def split: option.splits)

lemma ks_hdel_frame [ks_rules]:
  "k \<noteq> k' \<Longrightarrow> ks_get k (ks_hdel k' f ks) = ks_get k ks"
  "ks_hget k g (ks_hdel k' f ks) = (if k = k' \<and> g = f then None else ks_hget k g ks)"
  "k \<noteq> k' \<Longrightarrow> ks_zlist k (ks_hdel k' f ks) = ks_zlist k ks"
  "k \<noteq> k' \<Longrightarrow> ks_entries k (ks_hdel k' f ks) = ks_entries k ks"
  "ks_pel (ks_hdel k' f ks) = ks_pel ks"
  by (auto simp: ks_hdel_def ks_get_def ks_hget_def ks_zlist_def ks_entries_def ks_live_def
      ks_purge_def Let_def split: option.splits)

lemma ks_zadd_frame [ks_rules]:
  "k \<noteq> k' \<Longrightarrow> ks_get k (ks_zadd k' sc m ks) = ks_get k ks"
  "k \<noteq> k' \<Longrightarrow> ks_hget k f (ks_zadd k' sc m ks) = ks_hget k f ks"
  "ks_zlist k (ks_zadd k' sc m ks) = (if k = k' then zset_put m sc (ks_zlist k ks) else ks_zlist k ks)"
  "k \<noteq> k' \<Longrightarrow> ks_entries k (ks_zadd k' sc m ks) = ks_entries k ks"
  "ks_pel (ks_zadd k' sc m ks) = ks_pel ks"
  by (auto simp: ks_zadd_def ks_get_def ks_hget_def ks_zlist_def ks_entries_def ks_live_def
      ks_purge_def Let_def split: option.splits)

lemma ks_zrem_frame [ks_rules]:
  "k \<noteq> k' \<Longrightarrow> ks_get k (ks_zrem k' m ks) = ks_get k ks"
  "k \<noteq> k' \<Longrightarrow> ks_hget k f (ks_zrem k' m ks) = ks_hget k f ks"
  "ks_zlist k (ks_zrem k' m ks) =
     (if k = k' then filter (\<lambda>(x, _). x \<noteq> m) (ks_zlist k ks) else ks_zlist k ks)"
  "k \<noteq> k' \<Longrightarrow> ks_entries k (ks_zrem k' m ks) = ks_entries k ks"
  "ks_pel (ks_zrem k' m ks) = ks_pel ks"
  by (auto simp: ks_zrem_def ks_get_def ks_hget_def ks_zlist_def ks_entries_def ks_live_def
      ks_purge_def Let_def split: option.splits)

lemma ks_xadd_frame [ks_rules]:
  "k \<noteq> k' \<Longrightarrow> ks_get k (ks_xadd k' n i fs ks) = ks_get k ks"
  "k \<noteq> k' \<Longrightarrow> ks_hget k f (ks_xadd k' n i fs ks) = ks_hget k f ks"
  "k \<noteq> k' \<Longrightarrow> ks_zlist k (ks_xadd k' n i fs ks) = ks_zlist k ks"
  "ks_entries k (ks_xadd k' n i fs ks) =
     (if k = k' then drop n (ks_entries k ks @ [(i, fs)]) else ks_entries k ks)"
  "ks_pel (ks_xadd k' n i fs ks) = ks_pel ks"
  by (auto simp: ks_xadd_def ks_get_def ks_hget_def ks_zlist_def ks_entries_def ks_live_def
      ks_purge_def Let_def split: option.splits)

lemma ks_xack_frame [ks_rules]:
  "ks_get k (ks_xack k' g i ks) = ks_get k ks"
  "ks_hget k f (ks_xack k' g i ks) = ks_hget k f ks"
  "ks_zlist k (ks_xack k' g i ks) = ks_zlist k ks"
  "ks_entries k (ks_xack k' g i ks) = ks_entries k ks"
  "ks_pel (ks_xack k' g i ks) k =
     (if k = k' then filter (\<lambda>x. x \<noteq> (g, i)) (ks_pel ks k) else ks_pel ks k)"
  by (auto simp: ks_xack_def ks_get_def ks_hget_def ks_zlist_def ks_entries_def ks_live_def
      split: option.splits)

lemma ks_expire_frame [ks_rules]:
  "ks_get k (ks_expire k' secs ks) =
     (if k = k' then (if secs > 0 then fmlookup (ks_str ks) k else None) else ks_get k ks)"
  "k \<noteq> k' \<Longrightarrow> ks_hget k f (ks_expire k' secs ks) = ks_hget k f ks"
  "k \<noteq> k' \<Longrightarrow> ks_entries k (ks_expire k' secs ks) = ks_entries k ks"
  "ks_pel (ks_expire k' secs ks) = ks_pel ks"
  by (auto simp: ks_expire_def ks_get_def ks_hget_def ks_entries_def ks_live_def split: option.splits)

section \<open>Keys that stay\<close>

text \<open>\<open>key_lives r k\<close>: the text key \<open>k\<close> exists and does not expire within \<open>r\<close> milliseconds.\<close>

definition key_lives :: "nat \<Rightarrow> string \<Rightarrow> keyspace \<Rightarrow> bool" where
  "key_lives r k ks \<longleftrightarrow> k |\<in>| fmdom (ks_str ks) \<and>
     (case ks_ttl ks k of None \<Rightarrow> True | Some t \<Rightarrow> ks_now ks + int r < t)"

lemma key_lives_get: "ks_get k ks = None \<longleftrightarrow> \<not> key_lives 0 k ks"
  by (auto simp: ks_get_def ks_live_def key_lives_def fmlookup_dom_iff split: option.splits)

lemma key_lives_mono: "key_lives r k ks \<Longrightarrow> r' \<le> r \<Longrightarrow> key_lives r' k ks"
  by (auto simp: key_lives_def split: option.splits)

lemma key_lives_now: "key_lives r k ks \<Longrightarrow> key_lives 0 k ks"
  by (rule key_lives_mono) simp_all

lemma key_lives_set: "key_lives r k (ks_set k' v px ks) \<longleftrightarrow>
    (if k = k' then px = None \<or> (\<exists>p. px = Some p \<and> int r < p) else key_lives r k ks)"
  by (auto simp: key_lives_def ks_set_def split: option.splits)

lemma key_lives_del: "key_lives r k (ks_del k' ks) \<longleftrightarrow> k \<noteq> k' \<and> key_lives r k ks"
  by (auto simp: key_lives_def ks_del_def split: option.splits)

lemma key_lives_tick: "key_lives r k (ks_tick d ks) = key_lives (r + d) k ks"
  by (auto simp: key_lives_def ks_tick_def split: option.splits)

lemma ks_str_simps:
  "fmlookup (ks_str (ks_set k v px ks)) k' = (if k' = k then Some v else fmlookup (ks_str ks) k')"
  "fmlookup (ks_str (ks_del k ks)) k' = (if k' = k then None else fmlookup (ks_str ks) k')"
  "ks_str (ks_tick d ks) = ks_str ks"
  by (auto simp: ks_set_def ks_del_def ks_tick_def)

lemma key_lives_incrby: "key_lives r k (ks_incrby k' d ks) \<longleftrightarrow>
    (if k = k' then \<not> ks_live k ks \<or> (case ks_ttl ks k of None \<Rightarrow> True | Some t \<Rightarrow> ks_now ks + int r < t)
     else key_lives r k ks)"
  by (auto simp: key_lives_def ks_incrby_def ks_purge_def ks_live_def Let_def split: option.splits)

lemma key_lives_incrby_mono: "key_lives r k ks \<Longrightarrow> key_lives r k (ks_incrby k' d ks)"
  by (auto simp: key_lives_incrby) (auto simp: key_lives_def)

lemma key_lives_expire: "key_lives r k (ks_expire k' secs ks) \<longleftrightarrow>
    (if k = k' then k |\<in>| fmdom (ks_str ks) \<and> int r < 1000 * secs else key_lives r k ks)"
  by (auto simp: key_lives_def ks_expire_def split: option.splits)

lemma ks_get_tick: "key_lives d k ks \<Longrightarrow> ks_get k (ks_tick d ks) = ks_get k ks"
  by (auto simp: key_lives_def ks_get_def ks_live_def ks_tick_def split: option.splits)

lemma ks_counter_tick: "key_lives d k ks \<Longrightarrow> ks_counter k (ks_tick d ks) = ks_counter k ks"
  by (simp add: ks_counter_def ks_get_tick)

lemma ks_str_incrby: "k |\<in>| fmdom (ks_str (ks_incrby k d ks))"
  by (simp add: ks_incrby_def Let_def)

lemma ks_get_expire_same: "secs > 0 \<Longrightarrow> ks_live k ks \<Longrightarrow> ks_get k (ks_expire k secs ks) = ks_get k ks"
  by (simp add: ks_expire_def ks_get_def ks_live_def)

lemma ks_counter_expire: "secs > 0 \<Longrightarrow> ks_live k ks \<Longrightarrow> ks_counter k (ks_expire k secs ks) = ks_counter k ks"
  by (simp add: ks_counter_def ks_get_expire_same)

text \<open>The newest entry survives trimming, because at least \<open>n\<close> entries stay.\<close>

lemma drop_keeps_last:
  assumes "d \<le> Suc (length xs) - n" and "0 < n"
  shows "x \<in> set (drop d (xs @ [x]))"
proof -
  have "d \<le> length xs" using assms by simp
  then show ?thesis by simp
qed

section \<open>A key space that is its own server\<close>

definition fresh_id :: "string list \<Rightarrow> int \<Rightarrow> string" where
  "fresh_id used t = show_int t @ ''-'' @ replicate (Suc (sum_list (map length used))) CHR ''1''"

lemma fresh_id_fresh: "fresh_id used t \<notin> set used"
proof
  assume "fresh_id used t \<in> set used"
  then have "length (fresh_id used t) \<le> sum_list (map length used)"
    by (intro member_le_sum_list) auto
  then show False by (simp add: fresh_id_def)
qed

definition ks_new_id :: "string \<Rightarrow> keyspace \<Rightarrow> string" where
  "ks_new_id k ks = fresh_id (map fst (ks_entries k ks) @ map snd (ks_pel ks k)) (ks_now ks)"

definition ks_keys :: "string \<Rightarrow> keyspace \<Rightarrow> string list" where
  "ks_keys p ks =
     filter (\<lambda>k. ks_get k ks \<noteq> None \<and> starts_with k p) (sorted_list_of_fset (fmdom (ks_str ks)))"

definition ks_server :: "keyspace redis" where
  "ks_server =
     \<lparr>r_get = ks_get, r_keys = ks_keys, r_set = (\<lambda>k v. ks_set k v None),
      r_set_px = (\<lambda>k v px. ks_set k v (Some px)), r_del = ks_del, r_incrby = ks_incrby,
      r_counter = ks_counter, r_expire = ks_expire, r_hget = ks_hget, r_hset = ks_hset,
      r_hdel = ks_hdel, r_zadd = ks_zadd, r_zrem = ks_zrem, r_zrange = ks_zrange,
      r_xadd = (\<lambda>k n fs s. ks_xadd k 0 (ks_new_id k s) fs s),
      r_new_id = ks_new_id, r_trim = (\<lambda>_ _ _. 0), r_xack = ks_xack, r_tick = ks_tick\<rparr>"

definition empty_ks :: keyspace where
  "empty_ks = \<lparr>ks_now = 0, ks_ttl = (\<lambda>_. None), ks_str = fmempty, ks_hash = (\<lambda>_ _. None),
     ks_zset = (\<lambda>_. []), ks_stream = (\<lambda>_. []), ks_pel = (\<lambda>_. [])\<rparr>"

lemma ks_keys_set: "set (ks_keys p ks) = {k. ks_get k ks \<noteq> None \<and> starts_with k p}"
proof -
  have "k |\<in>| fmdom (ks_str ks)" if "ks_get k ks \<noteq> None" for k
    using that by (auto simp: ks_get_def fmlookup_dom_iff split: if_splits)
  then show ?thesis by (auto simp: ks_keys_def)
qed

interpretation kss: redis_server ks_server "\<lambda>ks. ks"
proof (unfold_locales, goal_cases)
  case (2 p s) then show ?case by (simp add: ks_server_def ks_keys_set)
next
  case (3 p s) then show ?case by (simp add: ks_server_def ks_keys_def sorted_list_of_fset.rep_eq)
next
  case (18 k s)
  have "ks_new_id k s \<notin> set (map fst (ks_entries k s) @ map snd (ks_pel s k))"
    unfolding ks_new_id_def by (rule fresh_id_fresh)
  then show ?case by (simp add: ks_server_def)
next
  case (19 k s)
  have "ks_new_id k s \<notin> set (map fst (ks_entries k s) @ map snd (ks_pel s k))"
    unfolding ks_new_id_def by (rule fresh_id_fresh)
  then show ?case by (simp add: ks_server_def)
qed (simp_all add: ks_server_def)

lemmas redis_server_ks_server = kss.redis_server_axioms

lemmas ks_eval =
  ks_server_def empty_ks_def ks_get_def ks_live_def ks_set_def ks_del_def ks_tick_def ks_purge_def
  ks_counter_def ks_incrby_def ks_expire_def ks_hget_def ks_hset_def ks_hdel_def ks_zadd_def ks_zrem_def
  ks_zrange_def ks_zlist_def ks_xadd_def ks_xack_def ks_entries_def zset_put_def Let_def

end
