(* ===== verification/Replay_Horizon.thy ===== *)
theory Replay_Horizon
  imports Prelude
begin

text \<open>
  \<open>fedify-sidecar/src/delivery/apdm-replay-horizon.ts\<close>: the time bounds that decide whether an
  outbox intent or an outbound message is too old to be delivered, and the parsing of the
  enqueue time out of a Redis Stream identifier.  All times are milliseconds.
\<close>

section \<open>Constants\<close>

definition APDM_AUTOMATIC_PRODUCER_REPLAY_MAX_MS :: int where
  "APDM_AUTOMATIC_PRODUCER_REPLAY_MAX_MS = 48 * 60 * 60 * 1000"

definition APDM_PRODUCER_PROCESSING_ALLOWANCE_MS :: int where
  "APDM_PRODUCER_PROCESSING_ALLOWANCE_MS = 24 * 60 * 60 * 1000"

definition APDM_OUTBOX_INTENT_MAX_AGE_MS :: int where
  "APDM_OUTBOX_INTENT_MAX_AGE_MS = 48 * 60 * 60 * 1000"

definition APDM_OUTBOUND_MESSAGE_MAX_RESIDENCE_MS :: int where
  "APDM_OUTBOUND_MESSAGE_MAX_RESIDENCE_MS = 48 * 60 * 60 * 1000"

definition APDM_COMPLETED_DELIVERY_MIN_RETENTION_MS :: int where
  "APDM_COMPLETED_DELIVERY_MIN_RETENTION_MS = 8 * 24 * 60 * 60 * 1000"

definition APDM_MAX_CLOCK_SKEW_MS :: int where
  "APDM_MAX_CLOCK_SKEW_MS = 5 * 60 * 1000"

definition APDM_MAX_AUTOMATIC_DUPLICATE_AGE_MS :: int where
  "APDM_MAX_AUTOMATIC_DUPLICATE_AGE_MS =
     APDM_AUTOMATIC_PRODUCER_REPLAY_MAX_MS + APDM_PRODUCER_PROCESSING_ALLOWANCE_MS
     + APDM_OUTBOX_INTENT_MAX_AGE_MS + APDM_OUTBOUND_MESSAGE_MAX_RESIDENCE_MS
     + 2 * APDM_MAX_CLOCK_SKEW_MS"

definition APDM_REPLAY_SAFETY_MARGIN_MS :: int where
  "APDM_REPLAY_SAFETY_MARGIN_MS =
     APDM_COMPLETED_DELIVERY_MIN_RETENTION_MS - APDM_MAX_AUTOMATIC_DUPLICATE_AGE_MS"

text \<open>The module throws while it is loaded unless the margin is positive.\<close>

definition replay_horizon_module :: "string + unit" where
  "replay_horizon_module =
     (if APDM_REPLAY_SAFETY_MARGIN_MS \<le> 0
      then Inl ''APDM replay horizons must remain below completed-delivery retention'' else Inr ())"

lemmas apdm_constants =
  APDM_AUTOMATIC_PRODUCER_REPLAY_MAX_MS_def APDM_PRODUCER_PROCESSING_ALLOWANCE_MS_def
  APDM_OUTBOX_INTENT_MAX_AGE_MS_def APDM_OUTBOUND_MESSAGE_MAX_RESIDENCE_MS_def
  APDM_COMPLETED_DELIVERY_MIN_RETENTION_MS_def APDM_MAX_CLOCK_SKEW_MS_def
  APDM_MAX_AUTOMATIC_DUPLICATE_AGE_MS_def APDM_REPLAY_SAFETY_MARGIN_MS_def

section \<open>Ages\<close>

definition MAX_SAFE_INTEGER :: int where
  "MAX_SAFE_INTEGER = 9007199254740991"

fun outboxIntentAgeMs :: "jsnum \<Rightarrow> int \<Rightarrow> int option" where
  "outboxIntentAgeMs (Num createdAt) nowMs =
     (if createdAt \<le> 0 then None
      else let age = nowMs - createdAt
           in if age < - APDM_MAX_CLOCK_SKEW_MS then None else Some (max 0 age))"
| "outboxIntentAgeMs _ _ = None"

text \<open>The pattern \<open>^(\d+)-(\d+)$\<close>: the two digit strings, or nothing.\<close>

definition match_stream_id :: "string \<Rightarrow> (string \<times> string) option" where
  "match_stream_id s =
     (let a = takeWhile js_digit s; r = dropWhile js_digit s
      in case r of [] \<Rightarrow> None
         | c # b \<Rightarrow> if a \<noteq> [] \<and> c = CHR ''-'' \<and> b \<noteq> [] \<and> list_all js_digit b then Some (a, b) else None)"

definition redisStreamMessageTimestampMs :: "string \<Rightarrow> int option" where
  "redisStreamMessageTimestampMs messageId =
     (case match_stream_id messageId of
        None \<Rightarrow> None
      | Some (a, b) \<Rightarrow>
          let timestamp = int (digits_val a); sequence = int (digits_val b)
          in if timestamp > MAX_SAFE_INTEGER \<or> timestamp \<le> 0 then None
             else if sequence > MAX_SAFE_INTEGER then None
             else Some timestamp)"

text \<open>The pattern \<open>^msg-\d+$\<close> of the in-process tests.\<close>

definition is_test_message_id :: "string \<Rightarrow> bool" where
  "is_test_message_id s \<longleftrightarrow> starts_with s ''msg-'' \<and> drop 4 s \<noteq> [] \<and> list_all js_digit (drop 4 s)"

definition outboundMessageResidenceMs :: "bool \<Rightarrow> string \<Rightarrow> int \<Rightarrow> jsnum" where
  "outboundMessageResidenceMs testEnv messageId nowMs =
     (if testEnv \<and> is_test_message_id messageId then Num 0
      else case redisStreamMessageTimestampMs messageId of
        None \<Rightarrow> PosInf
      | Some enqueuedAt \<Rightarrow>
          let age = nowMs - enqueuedAt
          in if age < - APDM_MAX_CLOCK_SKEW_MS then PosInf else Num (max 0 age))"

section \<open>Facts\<close>

lemma outboxIntentAgeMs_Some:
  "outboxIntentAgeMs c now = Some a \<longleftrightarrow>
     (\<exists>t. c = Num t \<and> 0 < t \<and> t \<le> now + APDM_MAX_CLOCK_SKEW_MS \<and> a = max 0 (now - t))"
  by (cases c) (auto simp: Let_def)

lemma match_stream_id_print:
  "match_stream_id (show_nat a @ ''-'' @ show_nat b) = Some (show_nat a, show_nat b)"
proof -
  have "takeWhile js_digit (show_nat a @ ''-'' @ show_nat b) = show_nat a"
    using show_nat_all_digits [of a] by (simp add: takeWhile_append)
  moreover have "dropWhile js_digit (show_nat a @ ''-'' @ show_nat b) = ''-'' @ show_nat b"
    using show_nat_all_digits [of a] by (simp add: dropWhile_append)
  moreover have "list_all js_digit (show_nat b)"
    using show_nat_all_digits [of b] by (simp add: list_all_iff)
  ultimately show ?thesis by (simp add: match_stream_id_def Let_def)
qed

lemma match_stream_id_parts:
  assumes "match_stream_id s = Some (a, b)"
  shows "s = a @ ''-'' @ b"
proof -
  have "s = takeWhile js_digit s @ dropWhile js_digit s" by simp
  with assms show ?thesis
    by (auto simp: match_stream_id_def Let_def simp del: takeWhile_dropWhile_id split: list.splits if_splits)
qed

end
