(* ===== verification/Delivery_Claims.thy ===== *)
theory Delivery_Claims
  imports Redis Replay_Horizon
begin

text \<open>
  \<open>fedify-sidecar/src/delivery/outbound-delivery-claims.ts\<close>: the Redis scripts behind the
  in-flight claims and the completed-delivery markers of outbound jobs, the one-time migration
  of the version 1 markers, and the contract \<open>claim_store\<close> that the TypeScript interface
  \<open>OutboundDeliveryClaimStore\<close> promises to its clients.
\<close>

section \<open>Keys and time to live\<close>

datatype claim_result = Claimed | Completed | InFlight

definition LEGACY_COMPLETED_KEY_PREFIX :: string where
  "LEGACY_COMPLETED_KEY_PREFIX = ''ap:delivery:completed:''"

definition COMPLETED_KEY_PREFIX :: string where
  "COMPLETED_KEY_PREFIX = ''ap:delivery:completed:v2:''"

definition COMPLETED_DELIVERY_CUTOVER_SENTINEL_KEY :: string where
  "COMPLETED_DELIVERY_CUTOVER_SENTINEL_KEY = ''ap:delivery:completed:v2:migration-complete''"

definition MIN_COMPLETED_DELIVERY_TTL_MS :: int where
  "MIN_COMPLETED_DELIVERY_TTL_MS = APDM_COMPLETED_DELIVERY_MIN_RETENTION_MS"

definition LEGACY_COMPLETED_DELIVERY_BLACKOUT_MS :: int where
  "LEGACY_COMPLETED_DELIVERY_BLACKOUT_MS =
     APDM_AUTOMATIC_PRODUCER_REPLAY_MAX_MS + 2 * APDM_MAX_CLOCK_SKEW_MS"

definition completedKey :: "string \<Rightarrow> string" where
  "completedKey jobId = COMPLETED_KEY_PREFIX @ jobId"

definition legacyCompletedKey :: "string \<Rightarrow> string" where
  "legacyCompletedKey jobId = LEGACY_COMPLETED_KEY_PREFIX @ jobId"

definition claimKey :: "string \<Rightarrow> string" where
  "claimKey jobId = ''ap:delivery:claim:'' @ jobId"

fun normalizeCompletedDeliveryTtlMs :: "jsnum \<Rightarrow> int" where
  "normalizeCompletedDeliveryTtlMs (Num ttlMs) = max MIN_COMPLETED_DELIVERY_TTL_MS ttlMs"
| "normalizeCompletedDeliveryTtlMs _ = max MIN_COMPLETED_DELIVERY_TTL_MS 0"

section \<open>Claim, complete, release\<close>

definition claim_script :: "'s redis \<Rightarrow> string \<Rightarrow> string \<Rightarrow> int \<Rightarrow> 's \<Rightarrow> claim_result \<times> 's" where
  "claim_script R jobId claimToken ttlMs s =
     (if r_exists R (completedKey jobId) s then (Completed, s)
      else if r_exists R (legacyCompletedKey jobId) s then
        (let s1 = (if \<not> r_exists R (completedKey jobId) s
                   then r_set_px R (completedKey jobId) ''v2'' MIN_COMPLETED_DELIVERY_TTL_MS s else s)
         in (Completed, r_del R (legacyCompletedKey jobId) s1))
      else if \<not> r_exists R (claimKey jobId) s then
        (Claimed, r_set_px R (claimKey jobId) claimToken (max 1000 ttlMs) s)
      else if r_exists R (completedKey jobId) s \<or> r_exists R (legacyCompletedKey jobId) s then
        (Completed, s)
      else (InFlight, s))"

definition complete_script :: "'s redis \<Rightarrow> string \<Rightarrow> string \<Rightarrow> jsnum \<Rightarrow> 's \<Rightarrow> 's" where
  "complete_script R jobId claimToken ttlMs s =
     (let s1 = r_set_px R (completedKey jobId) ''v2'' (normalizeCompletedDeliveryTtlMs ttlMs) s;
          s2 = r_del R (legacyCompletedKey jobId) s1
      in if r_get R (claimKey jobId) s2 = Some claimToken then r_del R (claimKey jobId) s2 else s2)"

definition release_script :: "'s redis \<Rightarrow> string \<Rightarrow> string \<Rightarrow> 's \<Rightarrow> 's" where
  "release_script R jobId claimToken s =
     (if r_get R (claimKey jobId) s = Some claimToken then r_del R (claimKey jobId) s else s)"

section \<open>Migration of version 1 markers\<close>

datatype cutover_mode = Maintenance | Fresh

datatype cutover_error =
    CutoverModeRequired
  | BlackoutStartInvalid
  | BlackoutTooShort
  | FreshRefused

text \<open>
  \<open>blackoutStartedAt\<close> is the value of \<open>Number(blackoutStartedAtRaw)\<close>; a fraction is as invalid
  as \<open>NaN\<close> here.
\<close>

definition validateCompletedDeliveryCutoverRequest ::
  "string option \<Rightarrow> jsnum \<Rightarrow> int \<Rightarrow> cutover_error + (cutover_mode \<times> int option)" where
  "validateCompletedDeliveryCutoverRequest modeRaw blackoutStartedAt nowMs =
     (if modeRaw = Some ''fresh'' then Inr (Fresh, None)
      else if modeRaw \<noteq> Some ''maintenance'' then Inl CutoverModeRequired
      else case blackoutStartedAt of
        Num t \<Rightarrow>
          if \<bar>t\<bar> > MAX_SAFE_INTEGER \<or> t \<le> 0 then Inl BlackoutStartInvalid
          else if nowMs - t \<le> LEGACY_COMPLETED_DELIVERY_BLACKOUT_MS then Inl BlackoutTooShort
          else Inr (Maintenance, Some t)
      | _ \<Rightarrow> Inl BlackoutStartInvalid)"

fun migrate_loop :: "'s redis \<Rightarrow> string list \<Rightarrow> nat \<Rightarrow> 's \<Rightarrow> nat \<times> 's" where
  "migrate_loop R [] migrated s = (migrated, s)"
| "migrate_loop R (legacyKey # keys) migrated s =
     (let v2Key = COMPLETED_KEY_PREFIX @ drop (length LEGACY_COMPLETED_KEY_PREFIX) legacyKey
      in if r_exists R legacyKey s then
           (let s1 = (if \<not> r_exists R v2Key s
                      then r_set_px R v2Key ''v2'' MIN_COMPLETED_DELIVERY_TTL_MS s else s)
            in migrate_loop R keys (Suc migrated) (r_del R legacyKey s1))
         else migrate_loop R keys migrated s)"

definition legacy_keys :: "'s redis \<Rightarrow> 's \<Rightarrow> string list" where
  "legacy_keys R s =
     filter (\<lambda>k. \<not> starts_with k COMPLETED_KEY_PREFIX) (r_keys R LEGACY_COMPLETED_KEY_PREFIX s)"

definition migrate_script :: "'s redis \<Rightarrow> cutover_mode \<Rightarrow> 's \<Rightarrow> (cutover_error + nat) \<times> 's" where
  "migrate_script R mode s =
     (if r_exists R COMPLETED_DELIVERY_CUTOVER_SENTINEL_KEY s then (Inr 0, s)
      else if mode = Fresh \<and> legacy_keys R s \<noteq> [] then (Inl FreshRefused, s)
      else let (migrated, s1) =
                 (if mode = Maintenance then migrate_loop R (legacy_keys R s) 0 s else (0, s))
           in (Inr migrated, r_set R COMPLETED_DELIVERY_CUTOVER_SENTINEL_KEY ''1'' s1))"

definition migrateLegacyCompletedDeliveryMarkers ::
  "'s redis \<Rightarrow> string option \<Rightarrow> jsnum \<Rightarrow> int \<Rightarrow> 's \<Rightarrow> (cutover_error + nat) \<times> 's" where
  "migrateLegacyCompletedDeliveryMarkers R modeRaw blackoutStartedAt nowMs s =
     (if r_exists R COMPLETED_DELIVERY_CUTOVER_SENTINEL_KEY s then (Inr 0, s)
      else case validateCompletedDeliveryCutoverRequest modeRaw blackoutStartedAt nowMs of
        Inl e \<Rightarrow> (Inl e, s)
      | Inr (mode, _) \<Rightarrow> migrate_script R mode s)"

section \<open>Runs of claim operations\<close>

text \<open>
  Operations of any number of workers, in the order the store serves them, with time passing
  between them.  The trace pairs each operation with its answer.
\<close>

datatype claim_op =
    OpClaim string string int
  | OpComplete string string jsnum
  | OpRelease string string
  | OpPass nat

fun op_job :: "claim_op \<Rightarrow> string option" where
  "op_job (OpClaim j _ _) = Some j"
| "op_job (OpComplete j _ _) = Some j"
| "op_job (OpRelease j _) = Some j"
| "op_job (OpPass _) = None"

fun op_time :: "claim_op \<Rightarrow> nat" where
  "op_time (OpPass d) = d"
| "op_time _ = 0"

text \<open>The operations by which the holder of token \<open>t\<close> gives its claim on \<open>j\<close> up.\<close>

fun op_gives_up :: "string \<Rightarrow> string \<Rightarrow> claim_op \<Rightarrow> bool" where
  "op_gives_up j t (OpComplete i u _) = (i = j \<and> u = t)"
| "op_gives_up j t (OpRelease i u) = (i = j \<and> u = t)"
| "op_gives_up _ _ _ = False"

fun store_step ::
  "(string \<Rightarrow> string \<Rightarrow> int \<Rightarrow> 's \<Rightarrow> claim_result \<times> 's) \<Rightarrow> (string \<Rightarrow> string \<Rightarrow> jsnum \<Rightarrow> 's \<Rightarrow> 's) \<Rightarrow>
   (string \<Rightarrow> string \<Rightarrow> 's \<Rightarrow> 's) \<Rightarrow> (nat \<Rightarrow> 's \<Rightarrow> 's) \<Rightarrow> claim_op \<Rightarrow> 's \<Rightarrow> claim_result option \<times> 's" where
  "store_step claim complete release pass (OpClaim j t ttl) s =
     (case claim j t ttl s of (r, s') \<Rightarrow> (Some r, s'))"
| "store_step claim complete release pass (OpComplete j t ttl) s = (None, complete j t ttl s)"
| "store_step claim complete release pass (OpRelease j t) s = (None, release j t s)"
| "store_step claim complete release pass (OpPass d) s = (None, pass d s)"

fun store_run ::
  "(claim_op \<Rightarrow> 's \<Rightarrow> claim_result option \<times> 's) \<Rightarrow> claim_op list \<Rightarrow> 's \<Rightarrow>
   (claim_op \<times> claim_result option) list \<times> 's" where
  "store_run step [] s = ([], s)"
| "store_run step (x # xs) s =
     (case step x s of (r, s1) \<Rightarrow> (case store_run step xs s1 of (tr, s2) \<Rightarrow> ((x, r) # tr, s2)))"

definition claim_step :: "'s redis \<Rightarrow> claim_op \<Rightarrow> 's \<Rightarrow> claim_result option \<times> 's" where
  "claim_step R = store_step (claim_script R) (complete_script R) (release_script R) (r_tick R)"

text \<open>Job identifiers whose version 1 key is not some version 2 key.\<close>

definition plain_job_id :: "string \<Rightarrow> bool" where
  "plain_job_id j \<longleftrightarrow> \<not> starts_with j ''v2:''"

definition plain_ops :: "claim_op list \<Rightarrow> bool" where
  "plain_ops xs \<longleftrightarrow> list_all (\<lambda>x. case op_job x of None \<Rightarrow> True | Some j \<Rightarrow> plain_job_id j) xs"

definition elapsed :: "claim_op list \<Rightarrow> nat" where
  "elapsed xs = sum_list (map op_time xs)"

section \<open>The contract of a claim store\<close>

text \<open>
  \<open>finished r j s\<close>: the delivery of job \<open>j\<close> is recorded as completed and stays so for \<open>r\<close> more
  milliseconds.  \<open>held r j t s\<close>: token \<open>t\<close> holds the claim on \<open>j\<close> and keeps it for \<open>r\<close> more
  milliseconds unless it is completed or released with that token.
\<close>

locale claim_store =
  fixes claim :: "string \<Rightarrow> string \<Rightarrow> int \<Rightarrow> 's \<Rightarrow> claim_result \<times> 's"
    and complete :: "string \<Rightarrow> string \<Rightarrow> jsnum \<Rightarrow> 's \<Rightarrow> 's"
    and release :: "string \<Rightarrow> string \<Rightarrow> 's \<Rightarrow> 's"
    and pass :: "nat \<Rightarrow> 's \<Rightarrow> 's"
    and finished :: "nat \<Rightarrow> string \<Rightarrow> 's \<Rightarrow> bool"
    and held :: "nat \<Rightarrow> string \<Rightarrow> string \<Rightarrow> 's \<Rightarrow> bool"
  assumes finished_mono: "finished r j s \<Longrightarrow> r' \<le> r \<Longrightarrow> finished r' j s"
    and held_mono: "held r j t s \<Longrightarrow> r' \<le> r \<Longrightarrow> held r' j t s"
    and claim_finished: "plain_job_id j \<Longrightarrow> finished 0 j s \<Longrightarrow> fst (claim j t ttl s) = Completed"
    and claim_busy: "plain_job_id j \<Longrightarrow> held 0 j t' s \<Longrightarrow> fst (claim j t ttl s) \<noteq> Claimed"
    and claim_new: "plain_job_id j \<Longrightarrow> fst (claim j t ttl s) = Claimed \<Longrightarrow> int r < max 1000 ttl \<Longrightarrow>
      held r j t (snd (claim j t ttl s))"
    and claim_keeps_finished: "plain_job_id j \<Longrightarrow> plain_job_id i \<Longrightarrow> finished r i s \<Longrightarrow>
      int r < APDM_COMPLETED_DELIVERY_MIN_RETENTION_MS \<Longrightarrow> finished r i (snd (claim j t ttl s))"
    and claim_keeps_held: "plain_job_id j \<Longrightarrow> held r i u s \<Longrightarrow> held r i u (snd (claim j t ttl s))"
    and complete_finished: "plain_job_id j \<Longrightarrow> int r < APDM_COMPLETED_DELIVERY_MIN_RETENTION_MS \<Longrightarrow>
      finished r j (complete j t n s)"
    and complete_keeps_finished: "plain_job_id j \<Longrightarrow> plain_job_id i \<Longrightarrow> finished r i s \<Longrightarrow>
      int r < APDM_COMPLETED_DELIVERY_MIN_RETENTION_MS \<Longrightarrow> finished r i (complete j t n s)"
    and complete_keeps_held: "plain_job_id j \<Longrightarrow> held r i u s \<Longrightarrow> \<not> (j = i \<and> t = u) \<Longrightarrow>
      held r i u (complete j t n s)"
    and release_keeps_finished: "finished r i s \<Longrightarrow> finished r i (release j t s)"
    and release_keeps_held: "held r i u s \<Longrightarrow> \<not> (j = i \<and> t = u) \<Longrightarrow> held r i u (release j t s)"
    and pass_finished: "finished r i (pass d s) = finished (r + d) i s"
    and pass_held: "held r i u (pass d s) = held (r + d) i u s"
begin

lemma step_keeps_finished:
  assumes "finished r j s" and "plain_job_id j" and "plain_ops [x]" and "op_time x \<le> r"
    and "int r < APDM_COMPLETED_DELIVERY_MIN_RETENTION_MS"
  shows "finished (r - op_time x) j (snd (store_step claim complete release pass x s))"
  using assms claim_keeps_finished complete_keeps_finished release_keeps_finished
  by (cases x) (auto simp: plain_ops_def pass_finished split: prod.splits, (metis snd_conv)+)

lemma step_keeps_held:
  assumes "held r j t s" and "plain_ops [x]" and "op_time x \<le> r" and "\<not> op_gives_up j t x"
  shows "held (r - op_time x) j t (snd (store_step claim complete release pass x s))"
  using assms claim_keeps_held complete_keeps_held release_keeps_held
  by (cases x) (auto simp: plain_ops_def pass_held split: prod.splits, (metis snd_conv)+)

lemma run_after_completion:
  assumes "finished r j s" and "plain_job_id j" and "plain_ops xs" and "elapsed xs \<le> r"
    and "int r < APDM_COMPLETED_DELIVERY_MIN_RETENTION_MS"
    and "(OpClaim j t ttl, res) \<in> set (fst (store_run (store_step claim complete release pass) xs s))"
  shows "res = Some Completed"
  using assms
proof (induction xs arbitrary: r s)
  case Nil
  then show ?case by simp
next
  case (Cons x xs)
  let ?step = "store_step claim complete release pass"
  let ?s1 = "snd (?step x s)"
  have x: "op_time x \<le> r" and rest: "elapsed xs \<le> r - op_time x"
    using Cons.prems(4) by (auto simp: elapsed_def)
  have px: "plain_ops [x]" and pxs: "plain_ops xs" using Cons.prems(3) by (auto simp: plain_ops_def)
  have f: "finished (r - op_time x) j ?s1"
    using step_keeps_finished [OF Cons.prems(1,2) px x Cons.prems(5)] .
  have now: "finished 0 j s" using finished_mono [OF Cons.prems(1)] by simp
  from Cons.prems(6) consider "(OpClaim j t ttl, res) = (x, fst (?step x s))"
    | "(OpClaim j t ttl, res) \<in> set (fst (store_run ?step xs ?s1))"
    by (auto split: prod.splits)
  then show ?case
  proof cases
    case 1
    then have "x = OpClaim j t ttl" and "res = fst (?step x s)" by auto
    then show ?thesis using claim_finished [OF Cons.prems(2) now, of t ttl] by (auto split: prod.splits)
  next
    case 2
    show ?thesis
      by (rule Cons.IH [OF f Cons.prems(2) pxs rest _ 2]) (use Cons.prems(5) in simp)
  qed
qed

lemma run_while_held:
  assumes "held r j t s" and "plain_job_id j" and "plain_ops xs" and "elapsed xs \<le> r"
    and "list_all (\<lambda>x. \<not> op_gives_up j t x) xs"
    and "(OpClaim j u ttl, res) \<in> set (fst (store_run (store_step claim complete release pass) xs s))"
  shows "res \<noteq> Some Claimed"
  using assms
proof (induction xs arbitrary: r s)
  case Nil
  then show ?case by simp
next
  case (Cons x xs)
  let ?step = "store_step claim complete release pass"
  let ?s1 = "snd (?step x s)"
  have x: "op_time x \<le> r" and rest: "elapsed xs \<le> r - op_time x"
    using Cons.prems(4) by (auto simp: elapsed_def)
  have px: "plain_ops [x]" and pxs: "plain_ops xs" using Cons.prems(3) by (auto simp: plain_ops_def)
  have nx: "\<not> op_gives_up j t x" and nxs: "list_all (\<lambda>x. \<not> op_gives_up j t x) xs"
    using Cons.prems(5) by auto
  have h: "held (r - op_time x) j t ?s1" using step_keeps_held [OF Cons.prems(1) px x nx] .
  have now: "held 0 j t s" using held_mono [OF Cons.prems(1)] by simp
  from Cons.prems(6) consider "(OpClaim j u ttl, res) = (x, fst (?step x s))"
    | "(OpClaim j u ttl, res) \<in> set (fst (store_run ?step xs ?s1))"
    by (auto split: prod.splits)
  then show ?case
  proof cases
    case 1
    then have "x = OpClaim j u ttl" and "res = fst (?step x s)" by auto
    then show ?thesis using claim_busy [OF Cons.prems(2) now, of u ttl] by (auto split: prod.splits)
  next
    case 2
    show ?thesis by (rule Cons.IH [OF h Cons.prems(2) pxs rest nxs 2])
  qed
qed

end

section \<open>The Redis scripts meet the contract\<close>

definition job_finished :: "nat \<Rightarrow> string \<Rightarrow> keyspace \<Rightarrow> bool" where
  "job_finished r j ks \<longleftrightarrow> key_lives r (completedKey j) ks \<or> key_lives r (legacyCompletedKey j) ks"

definition job_held :: "nat \<Rightarrow> string \<Rightarrow> string \<Rightarrow> keyspace \<Rightarrow> bool" where
  "job_held r j t ks \<longleftrightarrow> key_lives r (claimKey j) ks \<and> fmlookup (ks_str ks) (claimKey j) = Some t"

lemma job_held_get: "job_held 0 j t ks \<longleftrightarrow> ks_get (claimKey j) ks = Some t"
  by (auto simp: job_held_def ks_get_def ks_live_def key_lives_def fmlookup_dom_iff split: option.splits)

lemma store_keys_distinct [simp]:
  "completedKey i = completedKey j \<longleftrightarrow> i = j"
  "legacyCompletedKey i = legacyCompletedKey j \<longleftrightarrow> i = j"
  "claimKey i = claimKey j \<longleftrightarrow> i = j"
  "claimKey i \<noteq> completedKey j" "completedKey j \<noteq> claimKey i"
  "claimKey i \<noteq> legacyCompletedKey j" "legacyCompletedKey j \<noteq> claimKey i"
  by (simp_all add: completedKey_def legacyCompletedKey_def claimKey_def COMPLETED_KEY_PREFIX_def
      LEGACY_COMPLETED_KEY_PREFIX_def)

lemma plain_keys_distinct [simp]:
  "plain_job_id i \<Longrightarrow> completedKey j \<noteq> legacyCompletedKey i"
  "plain_job_id i \<Longrightarrow> legacyCompletedKey i \<noteq> completedKey j"
  by (auto simp: completedKey_def legacyCompletedKey_def COMPLETED_KEY_PREFIX_def
      LEGACY_COMPLETED_KEY_PREFIX_def plain_job_id_def starts_with_def)

lemma normalized_ttl_bound: "MIN_COMPLETED_DELIVERY_TTL_MS \<le> normalizeCompletedDeliveryTtlMs n"
  by (cases n) simp_all

lemmas claim_script_defs =
  claim_script_def complete_script_def release_script_def job_finished_def Let_def
  MIN_COMPLETED_DELIVERY_TTL_MS_def

lemmas key_rules = key_lives_set key_lives_del key_lives_tick key_lives_get ks_str_simps

sublocale redis_server \<subseteq> cs: claim_store "claim_script R" "complete_script R" "release_script R" "r_tick R"
  "\<lambda>r j s. job_finished r j (view s)" "\<lambda>r j t s. job_held r j t (view s)"
proof (unfold_locales, goal_cases)
  case (1 r j s r')
  then show ?case by (auto simp: job_finished_def intro: key_lives_mono)
next
  case (2 r j t s r')
  then show ?case by (auto simp: job_held_def intro: key_lives_mono)
next
  case (3 j s t ttl)
  then show ?case by (auto simp: claim_script_defs redis_view key_rules)
next
  case (4 j t' s t ttl)
  then show ?case by (auto simp: claim_script_defs redis_view job_held_def key_rules)
next
  case (5 j t ttl s r)
  then show ?case by (auto simp: claim_script_defs redis_view job_held_def key_rules split: if_splits)
next
  case (6 j i r s t ttl)
  then show ?case by (auto simp: claim_script_defs redis_view key_rules)
next
  case (7 j r i u s t ttl)
  then show ?case by (auto simp: claim_script_defs redis_view job_held_def key_rules dest: key_lives_now)
next
  case (8 j r t n s)
  then show ?case using normalized_ttl_bound [of n]
    by (auto simp: claim_script_defs redis_view key_rules)
next
  case (9 j i r s t n)
  then show ?case using normalized_ttl_bound [of n]
    by (auto simp: claim_script_defs redis_view key_rules)
next
  case (10 j r i u s t n)
  then show ?case
    by (auto simp: claim_script_defs redis_view job_held_def key_rules ks_get_def)
next
  case (11 r i s j t)
  then show ?case by (auto simp: claim_script_defs redis_view key_rules)
next
  case (12 r i u s j t)
  then show ?case by (auto simp: claim_script_defs redis_view job_held_def key_rules ks_get_def)
next
  case (13 r i d s)
  then show ?case by (simp add: job_finished_def redis_view key_rules)
next
  case (14 r i u d s)
  then show ?case by (simp add: job_held_def redis_view key_rules)
qed

section \<open>Migration\<close>

lemma starts_with_iff: "starts_with k p \<longleftrightarrow> (\<exists>r. k = p @ r)"
  by (auto simp: starts_with_def) (metis append_take_drop_id)

lemma legacy_key_shape:
  "starts_with k LEGACY_COMPLETED_KEY_PREFIX \<and> \<not> starts_with k COMPLETED_KEY_PREFIX \<longleftrightarrow>
   (\<exists>j. k = legacyCompletedKey j \<and> plain_job_id j)"
proof -
  have v2: "starts_with (legacyCompletedKey j) COMPLETED_KEY_PREFIX \<longleftrightarrow> \<not> plain_job_id j" for j
    by (auto simp: starts_with_iff legacyCompletedKey_def LEGACY_COMPLETED_KEY_PREFIX_def
        COMPLETED_KEY_PREFIX_def plain_job_id_def)
  have "starts_with k LEGACY_COMPLETED_KEY_PREFIX \<longleftrightarrow> (\<exists>j. k = legacyCompletedKey j)"
    by (simp add: starts_with_iff legacyCompletedKey_def)
  with v2 show ?thesis by metis
qed

lemma sentinel_completedKey: "COMPLETED_DELIVERY_CUTOVER_SENTINEL_KEY = completedKey ''migration-complete''"
  by (simp add: completedKey_def COMPLETED_KEY_PREFIX_def COMPLETED_DELIVERY_CUTOVER_SENTINEL_KEY_def)

lemma v2_key_of_legacy:
  "COMPLETED_KEY_PREFIX @ drop (length LEGACY_COMPLETED_KEY_PREFIX) (legacyCompletedKey j) = completedKey j"
  by (simp add: legacyCompletedKey_def completedKey_def)

lemma legacy_key_list:
  assumes "\<forall>k \<in> set ks. \<exists>j. k = legacyCompletedKey j \<and> plain_job_id j"
  obtains js where "ks = map legacyCompletedKey js" and "list_all plain_job_id js"
proof -
  from assms have "\<exists>js. ks = map legacyCompletedKey js \<and> list_all plain_job_id js"
  proof (induction ks)
    case (Cons k ks)
    then obtain js j where "ks = map legacyCompletedKey js" "list_all plain_job_id js"
      "k = legacyCompletedKey j" "plain_job_id j" by auto
    then have "k # ks = map legacyCompletedKey (j # js)" "list_all plain_job_id (j # js)" by auto
    then show ?case by (intro exI [of _ "j # js"] conjI)
  qed simp
  then show ?thesis using that by blast
qed

context redis_server
begin

lemma migrate_loop_legacy:
  assumes "list_all plain_job_id js" and "plain_job_id j"
  shows "key_lives r (legacyCompletedKey j) (view (snd (migrate_loop R (map legacyCompletedKey js) n s)))
    \<longleftrightarrow> j \<notin> set js \<and> key_lives r (legacyCompletedKey j) (view s)"
  using assms
proof (induction js arbitrary: n s)
  case (Cons i js)
  then show ?case
    by (auto simp: Let_def v2_key_of_legacy redis_view key_rules dest: key_lives_now)
qed simp

lemma migrate_loop_completed:
  assumes "list_all plain_job_id js" and "distinct js"
  shows "key_lives r (completedKey j) (view (snd (migrate_loop R (map legacyCompletedKey js) n s))) \<longleftrightarrow>
    key_lives r (completedKey j) (view s) \<or>
    (j \<in> set js \<and> key_lives 0 (legacyCompletedKey j) (view s) \<and> \<not> key_lives 0 (completedKey j) (view s)
      \<and> int r < MIN_COMPLETED_DELIVERY_TTL_MS)"
  using assms
proof (induction js arbitrary: n s)
  case (Cons i js)
  then show ?case
    by (auto simp: Let_def v2_key_of_legacy redis_view key_rules MIN_COMPLETED_DELIVERY_TTL_MS_def
        apdm_constants list_all_iff dest: key_lives_now)
qed simp

lemma migrate_loop_count:
  assumes "list_all plain_job_id js" and "distinct js"
    and "\<forall>j \<in> set js. key_lives 0 (legacyCompletedKey j) (view s)"
  shows "fst (migrate_loop R (map legacyCompletedKey js) n s) = n + length js"
  using assms
proof (induction js arbitrary: n s)
  case (Cons i js)
  let ?s1 = "if \<not> r_exists R (completedKey i) s
    then r_set_px R (completedKey i) ''v2'' MIN_COMPLETED_DELIVERY_TTL_MS s else s"
  have "\<forall>j \<in> set js. key_lives 0 (legacyCompletedKey j) (view (r_del R (legacyCompletedKey i) ?s1))"
    using Cons.prems by (auto simp: redis_view key_rules list_all_iff)
  from Cons.IH [OF _ _ this] Cons.prems show ?case
    by (auto simp: Let_def v2_key_of_legacy redis_view key_rules)
qed simp

lemma legacy_keys_jobs:
  obtains js where "legacy_keys R s = map legacyCompletedKey js" and "list_all plain_job_id js"
    and "distinct js" and "\<forall>j. plain_job_id j \<longrightarrow> (j \<in> set js \<longleftrightarrow> key_lives 0 (legacyCompletedKey j) (view s))"
proof -
  have mem: "k \<in> set (legacy_keys R s) \<longleftrightarrow>
      key_lives 0 k (view s) \<and> (\<exists>j. k = legacyCompletedKey j \<and> plain_job_id j)" for k
    using legacy_key_shape [of k] by (auto simp: legacy_keys_def keys_view key_lives_get)
  then obtain js where js: "legacy_keys R s = map legacyCompletedKey js" "list_all plain_job_id js"
    using legacy_key_list by metis
  moreover have "distinct js"
    using keys_distinct [of LEGACY_COMPLETED_KEY_PREFIX s] js(1)
    by (metis distinct_filter distinct_map legacy_keys_def)
  moreover have "j \<in> set js \<longleftrightarrow> key_lives 0 (legacyCompletedKey j) (view s)" if "plain_job_id j" for j
    using mem [of "legacyCompletedKey j"] js(1) that by auto
  ultimately show ?thesis using that by blast
qed

lemma migrated_markers:
  assumes "\<not> r_exists R COMPLETED_DELIVERY_CUTOVER_SENTINEL_KEY s"
    and "migrate_script R Maintenance s = (Inr n, s')" and "plain_job_id j"
  shows "\<not> key_lives 0 (legacyCompletedKey j) (view s')"
    and "job_finished 0 j (view s) \<Longrightarrow> job_finished 0 j (view s')"
    and "key_lives 0 (legacyCompletedKey j) (view s) \<Longrightarrow> \<not> key_lives 0 (completedKey j) (view s) \<Longrightarrow>
      int r < MIN_COMPLETED_DELIVERY_TTL_MS \<Longrightarrow> job_finished r j (view s')"
    and "r_exists R COMPLETED_DELIVERY_CUTOVER_SENTINEL_KEY s'"
proof -
  obtain js where js: "legacy_keys R s = map legacyCompletedKey js" "list_all plain_job_id js" "distinct js"
    "\<forall>j. plain_job_id j \<longrightarrow> (j \<in> set js \<longleftrightarrow> key_lives 0 (legacyCompletedKey j) (view s))"
    using legacy_keys_jobs [of s] by blast
  let ?l = "snd (migrate_loop R (map legacyCompletedKey js) 0 s)"
  have s': "s' = r_set R COMPLETED_DELIVERY_CUTOVER_SENTINEL_KEY ''1'' ?l"
    using assms(1,2) js(1) by (auto simp: migrate_script_def split: prod.splits)
  note rules = s' redis_view key_rules sentinel_completedKey migrate_loop_legacy [OF js(2) assms(3)]
    migrate_loop_completed [OF js(2,3)] js(4) [rule_format, OF assms(3)] job_finished_def assms(3)
  show "\<not> key_lives 0 (legacyCompletedKey j) (view s')" by (auto simp: rules)
  show "job_finished 0 j (view s) \<Longrightarrow> job_finished 0 j (view s')"
    by (auto simp: rules MIN_COMPLETED_DELIVERY_TTL_MS_def apdm_constants)
  show "key_lives 0 (legacyCompletedKey j) (view s) \<Longrightarrow> \<not> key_lives 0 (completedKey j) (view s) \<Longrightarrow>
      int r < MIN_COMPLETED_DELIVERY_TTL_MS \<Longrightarrow> job_finished r j (view s')"
    by (auto simp: rules)
  show "r_exists R COMPLETED_DELIVERY_CUTOVER_SENTINEL_KEY s'"
    by (auto simp: rules)
qed

end

context redis_server
begin

lemma scripts_exclusive:
  assumes "plain_job_id j" and "fst (claim_script R j t ttl s) = Claimed"
    and "plain_ops xs" and "int (elapsed xs) < max 1000 ttl"
    and "list_all (\<lambda>x. \<not> op_gives_up j t x) xs"
    and "(OpClaim j u n, res) \<in> set (fst (store_run (claim_step R) xs (snd (claim_script R j t ttl s))))"
  shows "res \<noteq> Some Claimed"
  using cs.run_while_held [OF cs.claim_new [OF assms(1,2,4)] assms(1,3) order_refl assms(5)] assms(6)
  by (simp add: claim_step_def)

lemma scripts_sticky:
  assumes "plain_job_id j" and "plain_ops xs"
    and "int (elapsed xs) < APDM_COMPLETED_DELIVERY_MIN_RETENTION_MS"
    and "(OpClaim j u n, res) \<in> set (fst (store_run (claim_step R) xs (complete_script R j t ttl s)))"
  shows "res = Some Completed"
  using cs.run_after_completion [OF cs.complete_finished [OF assms(1,3)] assms(1,2) order_refl assms(3)]
    assms(4) by (simp add: claim_step_def)

lemma script_collision:
  assumes "plain_job_id j" and "job_finished 0 j (view s)"
    and "\<not> key_lives 0 (legacyCompletedKey j) (view s)"
    and "\<not> key_lives 0 (completedKey (''v2:'' @ j)) (view s)"
    and "\<not> key_lives 0 (claimKey j) (view s)"
  shows "fst (claim_script R j t ttl (snd (claim_script R (''v2:'' @ j) t' ttl' s))) = Claimed"
proof -
  define i where "i = ''v2:'' @ j"
  have k: "legacyCompletedKey i = completedKey j"
    by (simp add: i_def legacyCompletedKey_def completedKey_def COMPLETED_KEY_PREFIX_def
        LEGACY_COMPLETED_KEY_PREFIX_def)
  have "i \<noteq> j" by (simp add: i_def)
  then show ?thesis using assms unfolding i_def [symmetric]
    by (auto simp: claim_script_def k redis_view key_rules job_finished_def Let_def)
qed

end

section \<open>Properties\<close>

text \<open>C1: Once a worker's claim on a job is granted, no other claim on that job is granted until
  that worker completes or releases it, for as long as the claim's time to live has not run out.
  Any number of other workers may claim, complete or release any jobs in between, with any tokens.\<close>
theorem claim_exclusive:
  assumes "redis_server R view" and "plain_job_id j"
    and "fst (claim_script R j t ttl s) = Claimed"
    and "plain_ops xs" and "int (elapsed xs) < max 1000 ttl"
    and "list_all (\<lambda>x. \<not> op_gives_up j t x) xs"
    and "(OpClaim j u n, res) \<in> set (fst (store_run (claim_step R) xs (snd (claim_script R j t ttl s))))"
  shows "res \<noteq> Some Claimed"
  by (rule redis_server.scripts_exclusive [OF assms])

theorem claim_exclusive_witness:
  "fst (claim_script ks_server ''a'' ''t1'' 5000 empty_ks) = Claimed \<and>
   fst (claim_step ks_server (OpClaim ''a'' ''t2'' 5000)
     (snd (claim_script ks_server ''a'' ''t1'' 5000 empty_ks))) \<noteq> Some Claimed"
proof -
  have c: "fst (claim_script ks_server ''a'' ''t1'' 5000 empty_ks) = Claimed"
    by (simp add: claim_script_def ks_eval)
  have p: "plain_job_id ''a''" "plain_ops [OpClaim ''a'' ''t2'' 5000]"
    by (simp_all add: plain_job_id_def plain_ops_def starts_with_def)
  show ?thesis
    using c claim_exclusive [OF redis_server_ks_server p(1) c p(2)]
    by (simp add: elapsed_def split: prod.splits)
qed



text \<open>The first start in maintenance mode moves every live version 1 marker to version 2: no
  version 1 marker is left, every job that counted as completed still does, a job known only by
  its version 1 marker is retained for eight more days, and the permanent sentinel is set, so a
  second start changes nothing and reports 0.\<close>
theorem migration_preserves_completion:
  assumes "redis_server R view"
    and "migrateLegacyCompletedDeliveryMarkers R (Some ''maintenance'') b now s = (Inr n, s')"
    and "\<not> r_exists R COMPLETED_DELIVERY_CUTOVER_SENTINEL_KEY s"
    and "plain_job_id j"
  shows "\<not> key_lives 0 (legacyCompletedKey j) (view s')
    \<and> (job_finished 0 j (view s) \<longrightarrow> job_finished 0 j (view s'))
    \<and> (key_lives 0 (legacyCompletedKey j) (view s) \<and> \<not> key_lives 0 (completedKey j) (view s)
        \<longrightarrow> job_finished (nat (MIN_COMPLETED_DELIVERY_TTL_MS - 1)) j (view s'))
    \<and> migrateLegacyCompletedDeliveryMarkers R m b' now' s' = (Inr 0, s')"
proof -
  have m: "migrate_script R Maintenance s = (Inr n, s')"
    using assms(2,3)
    by (auto simp: migrateLegacyCompletedDeliveryMarkers_def validateCompletedDeliveryCutoverRequest_def
        split: jsnum.splits if_splits)
  note mm = redis_server.migrated_markers [OF assms(1) assms(3) m assms(4)]
  have "int (nat (MIN_COMPLETED_DELIVERY_TTL_MS - 1)) < MIN_COMPLETED_DELIVERY_TTL_MS"
    by (simp add: MIN_COMPLETED_DELIVERY_TTL_MS_def apdm_constants)
  with mm show ?thesis by (simp add: migrateLegacyCompletedDeliveryMarkers_def)
qed

definition legacy_ks :: keyspace where
  "legacy_ks = ks_set (legacyCompletedKey ''a'') ''1'' (Some 86400000) empty_ks"

theorem migration_preserves_completion_witness:
  "job_finished 0 ''a'' legacy_ks \<and>
   (\<exists>n s'. migrateLegacyCompletedDeliveryMarkers ks_server (Some ''maintenance'') (Num 1) 200000000 legacy_ks
      = (Inr n, s') \<and> job_finished (nat (MIN_COMPLETED_DELIVERY_TTL_MS - 1)) ''a'' s')"
proof -
  have p: "plain_job_id ''a''" by (simp add: plain_job_id_def starts_with_def)
  have e: "\<not> r_exists ks_server COMPLETED_DELIVERY_CUTOVER_SENTINEL_KEY legacy_ks"
    by (simp add: legacy_ks_def ks_eval legacyCompletedKey_def LEGACY_COMPLETED_KEY_PREFIX_def
        COMPLETED_DELIVERY_CUTOVER_SENTINEL_KEY_def)
  obtain n s' where l: "migrate_loop ks_server (legacy_keys ks_server legacy_ks) 0 legacy_ks = (n, s')"
    by fastforce
  define s2 where "s2 = r_set ks_server COMPLETED_DELIVERY_CUTOVER_SENTINEL_KEY ''1'' s'"
  have m: "migrateLegacyCompletedDeliveryMarkers ks_server (Some ''maintenance'') (Num 1) 200000000
      legacy_ks = (Inr n, s2)"
    using e by (simp add: l s2_def migrateLegacyCompletedDeliveryMarkers_def migrate_script_def Let_def
        validateCompletedDeliveryCutoverRequest_def MAX_SAFE_INTEGER_def
        LEGACY_COMPLETED_DELIVERY_BLACKOUT_MS_def apdm_constants)
  have lv: "key_lives 0 (legacyCompletedKey ''a'') legacy_ks" "\<not> key_lives 0 (completedKey ''a'') legacy_ks"
    using p by (simp_all add: legacy_ks_def key_lives_set, simp add: key_lives_def empty_ks_def)
  show ?thesis
    using migration_preserves_completion [OF redis_server_ks_server m e p] m lv
    by (auto simp: job_finished_def)
qed

text \<open>A cutover request is accepted exactly when the operator declares a fresh deployment, or
  declares maintenance with a blackout start that is a positive safe integer and lies more than
  the producer's replay window plus two clock skews in the past.\<close>
theorem cutover_request_accepted:
  "(\<exists>r. validateCompletedDeliveryCutoverRequest m b now = Inr r) \<longleftrightarrow>
     m = Some ''fresh'' \<or>
     (m = Some ''maintenance'' \<and>
      (\<exists>t. b = Num t \<and> 0 < t \<and> t \<le> MAX_SAFE_INTEGER \<and> t + 173400000 < now))"
  by (cases b) (auto simp: validateCompletedDeliveryCutoverRequest_def
      LEGACY_COMPLETED_DELIVERY_BLACKOUT_MS_def apdm_constants)

text \<open>A fresh-deployment cutover is refused, and leaves Redis unchanged, exactly when some
  version 1 marker exists and the cutover has not been recorded before.\<close>
theorem fresh_cutover_refused:
  assumes "redis_server R view" and "\<not> r_exists R COMPLETED_DELIVERY_CUTOVER_SENTINEL_KEY s"
  shows "migrateLegacyCompletedDeliveryMarkers R (Some ''fresh'') b now s = (Inl FreshRefused, s) \<longleftrightarrow>
    (\<exists>j. plain_job_id j \<and> key_lives 0 (legacyCompletedKey j) (view s))"
proof -
  obtain js where js: "legacy_keys R s = map legacyCompletedKey js" "list_all plain_job_id js" "distinct js"
    "\<forall>j. plain_job_id j \<longrightarrow> (j \<in> set js \<longleftrightarrow> key_lives 0 (legacyCompletedKey j) (view s))"
    using redis_server.legacy_keys_jobs [OF assms(1), of s] by blast
  have "js \<noteq> [] \<longleftrightarrow> (\<exists>j. plain_job_id j \<and> key_lives 0 (legacyCompletedKey j) (view s))"
    using js(2,4) by (cases js) auto
  then show ?thesis
    using assms(2) js(1)
    by (auto simp: migrateLegacyCompletedDeliveryMarkers_def migrate_script_def
        validateCompletedDeliveryCutoverRequest_def)
qed

theorem fresh_cutover_refused_witness:
  "migrateLegacyCompletedDeliveryMarkers ks_server (Some ''fresh'') NaN 0 legacy_ks = (Inl FreshRefused, legacy_ks)"
proof -
  have e: "\<not> r_exists ks_server COMPLETED_DELIVERY_CUTOVER_SENTINEL_KEY legacy_ks"
    by (simp add: legacy_ks_def ks_eval legacyCompletedKey_def LEGACY_COMPLETED_KEY_PREFIX_def
        COMPLETED_DELIVERY_CUTOVER_SENTINEL_KEY_def)
  have "plain_job_id ''a'' \<and> key_lives 0 (legacyCompletedKey ''a'') legacy_ks"
    by (simp add: plain_job_id_def starts_with_def legacy_ks_def key_lives_set)
  with fresh_cutover_refused [OF redis_server_ks_server e, of NaN 0] show ?thesis by blast
qed

text \<open>The version 1 key of the job \<open>v2:j\<close> is the version 2 key of the job \<open>j\<close>: claiming the
  former removes the completion marker of the latter, whose next claim is then granted although
  it was delivered.\<close>
theorem version_prefix_collision:
  assumes "redis_server R view" and "plain_job_id j" and "job_finished 0 j (view s)"
    and "\<not> key_lives 0 (legacyCompletedKey j) (view s)"
    and "\<not> key_lives 0 (completedKey (''v2:'' @ j)) (view s)"
    and "\<not> key_lives 0 (claimKey j) (view s)"
  shows "fst (claim_script R j t ttl (snd (claim_script R (''v2:'' @ j) t' ttl' s))) = Claimed"
  by (rule redis_server.script_collision [OF assms])

theorem version_prefix_collision_witness:
  "fst (claim_script ks_server ''a'' ''t'' 5000 (snd (claim_script ks_server ''v2:a'' ''u'' 5000
     (complete_script ks_server ''a'' ''w'' NaN empty_ks)))) = Claimed"
proof -
  let ?s = "complete_script ks_server ''a'' ''w'' NaN empty_ks"
  have p: "plain_job_id ''a''" by (simp add: plain_job_id_def starts_with_def)
  have e: "\<not> key_lives 0 k empty_ks" for k by (simp add: key_lives_def empty_ks_def)
  have s: "?s = ks_del (legacyCompletedKey ''a'') (ks_set (completedKey ''a'') ''v2''
      (Some MIN_COMPLETED_DELIVERY_TTL_MS) empty_ks)"
    by (simp add: complete_script_def ks_eval completedKey_def claimKey_def COMPLETED_KEY_PREFIX_def
        legacyCompletedKey_def LEGACY_COMPLETED_KEY_PREFIX_def MIN_COMPLETED_DELIVERY_TTL_MS_def apdm_constants)
  have "job_finished 0 ''a'' ?s" "\<not> key_lives 0 (legacyCompletedKey ''a'') ?s"
    "\<not> key_lives 0 (completedKey (''v2:'' @ ''a'')) ?s" "\<not> key_lives 0 (claimKey ''a'') ?s"
    using p unfolding s job_finished_def
    by (simp_all add: key_lives_set key_lives_del e MIN_COMPLETED_DELIVERY_TTL_MS_def apdm_constants)
  from version_prefix_collision [OF redis_server_ks_server p this, of "''t''" 5000 "''u''" 5000]
  show ?thesis by simp
qed

end
