(* ===== verification/Payload_Codec.thy ===== *)
theory Payload_Codec
  imports Prelude
begin

text \<open>
  \<open>fedify-sidecar/src/queue/redis-stream-payload-codec.ts\<close>: the optional Brotli envelope around
  large stream payloads, and the byte-bounded cache of decoded envelopes.  Buffers, Brotli,
  SHA-256 and base64url belong to Node, so they are the parameter \<open>codec_lib\<close>; \<open>codec_lib_ok\<close>
  states their documented behaviour.
\<close>

section \<open>The library\<close>

record 'b codec_lib =
  bufferFrom :: "string \<Rightarrow> 'b"
  bufferToString :: "'b \<Rightarrow> string"
  byteLength :: "'b \<Rightarrow> nat"
  brotliCompress :: "nat \<Rightarrow> 'b \<Rightarrow> 'b"
  brotliDecompress :: "nat \<Rightarrow> 'b \<Rightarrow> string + 'b"
  sha256Hex :: "'b \<Rightarrow> string"
  toBase64url :: "'b \<Rightarrow> string"
  fromBase64url :: "string \<Rightarrow> 'b"

definition hex_digit :: "char \<Rightarrow> bool" where
  "hex_digit c \<longleftrightarrow> js_digit c \<or> c \<in> set ''abcdef''"

definition base64url_char :: "char \<Rightarrow> bool" where
  "base64url_char c \<longleftrightarrow>
     js_digit c \<or> c \<in> set ''abcdefghijklmnopqrstuvwxyzABCDEFGHIJKLMNOPQRSTUVWXYZ_-''"

text \<open>
  Text survives a round trip through a buffer; decompressing within the size limit undoes
  compressing; compressed data is never empty; a SHA-256 digest prints as 64 lower-case hex digits;
  unpadded base64url uses its alphabet, has the length of its encoding and is undone by decoding.
\<close>

definition codec_lib_ok :: "'b codec_lib \<Rightarrow> bool" where
  "codec_lib_ok L \<longleftrightarrow>
     (\<forall>v. bufferToString L (bufferFrom L v) = v) \<and>
     (\<forall>q b n. byteLength L b \<le> n \<longrightarrow> brotliDecompress L n (brotliCompress L q b) = Inr b) \<and>
     (\<forall>q b. 0 < byteLength L (brotliCompress L q b)) \<and>
     (\<forall>b. length (sha256Hex L b) = 64 \<and> list_all hex_digit (sha256Hex L b)) \<and>
     (\<forall>b. list_all base64url_char (toBase64url L b) \<and> fromBase64url L (toBase64url L b) = b \<and>
          length (toBase64url L b) = (4 * byteLength L b + 2) div 3)"

section \<open>Configuration, errors and state\<close>

definition REDIS_STREAM_PAYLOAD_ENVELOPE_PREFIX :: string where
  "REDIS_STREAM_PAYLOAD_ENVELOPE_PREFIX = ''apq1:br:''"

definition REDIS_STREAM_PAYLOAD_UNKNOWN_PREFIX :: string where
  "REDIS_STREAM_PAYLOAD_UNKNOWN_PREFIX = ''apq1:''"

record codec_config =
  writeEnabled :: bool
  minBytes :: nat
  maxCompressedBytes :: nat
  maxDecompressedBytes :: nat
  brotliQuality :: nat
  decodeCacheMaxBytes :: nat

record raw_codec_config =
  rawWriteEnabled :: bool
  rawMinBytes :: jsnum
  rawMaxCompressedBytes :: jsnum
  rawMaxDecompressedBytes :: jsnum
  rawBrotliQuality :: jsnum
  rawDecodeCacheMaxBytes :: jsnum

fun finitePositiveInteger :: "jsnum \<Rightarrow> nat \<Rightarrow> nat" where
  "finitePositiveInteger (Num v) fallback = (if v \<le> 0 then fallback else nat v)"
| "finitePositiveInteger _ fallback = fallback"

fun boundedBrotliQuality :: "jsnum \<Rightarrow> nat" where
  "boundedBrotliQuality (Num v) = nat (max 0 (min 11 v))"
| "boundedBrotliQuality _ = 0"

definition codec_constructor :: "raw_codec_config \<Rightarrow> codec_config" where
  "codec_constructor c =
     \<lparr>writeEnabled = rawWriteEnabled c,
      minBytes = finitePositiveInteger (rawMinBytes c) (4 * 1024),
      maxCompressedBytes = finitePositiveInteger (rawMaxCompressedBytes c) (16 * 1024 * 1024),
      maxDecompressedBytes = finitePositiveInteger (rawMaxDecompressedBytes c) (32 * 1024 * 1024),
      brotliQuality = boundedBrotliQuality (rawBrotliQuality c),
      decodeCacheMaxBytes = finitePositiveInteger (rawDecodeCacheMaxBytes c) (8 * 1024 * 1024)\<rparr>"

text \<open>\<open>createRedisStreamPayloadCodecFromEnv\<close>: \<open>env\<close> is \<open>process.env\<close>; an empty value counts as unset.\<close>

definition env_int :: "(string \<Rightarrow> string option) \<Rightarrow> string \<Rightarrow> nat \<Rightarrow> jsnum" where
  "env_int env key fallback =
     parse_int (case env key of None \<Rightarrow> show_nat fallback | Some v \<Rightarrow> if v = [] then show_nat fallback else v)"

definition createRedisStreamPayloadCodecFromEnv :: "(string \<Rightarrow> string option) \<Rightarrow> codec_config" where
  "createRedisStreamPayloadCodecFromEnv env = codec_constructor
     \<lparr>rawWriteEnabled = (env ''REDIS_STREAM_PAYLOAD_COMPRESSION_ENABLED'' = Some ''true''),
      rawMinBytes = env_int env ''REDIS_STREAM_PAYLOAD_COMPRESSION_MIN_BYTES'' (4 * 1024),
      rawMaxCompressedBytes = env_int env ''REDIS_STREAM_PAYLOAD_MAX_COMPRESSED_BYTES'' (16 * 1024 * 1024),
      rawMaxDecompressedBytes = env_int env ''REDIS_STREAM_PAYLOAD_MAX_DECOMPRESSED_BYTES'' (32 * 1024 * 1024),
      rawBrotliQuality = env_int env ''REDIS_STREAM_PAYLOAD_BROTLI_QUALITY'' 0,
      rawDecodeCacheMaxBytes = env_int env ''REDIS_STREAM_PAYLOAD_DECODE_CACHE_MAX_BYTES'' (8 * 1024 * 1024)\<rparr>"

datatype codec_error =
    UncompressedTooLarge
  | CompressedTooLarge
  | UnknownEnvelope
  | MalformedEnvelope
  | MalformedDigest
  | NotBase64url
  | NotCanonicalBase64url
  | DecompressionFailed string
  | DecompressedTooLarge
  | IntegrityFailed

fun codec_message :: "codec_config \<Rightarrow> codec_error \<Rightarrow> string" where
  "codec_message c UncompressedTooLarge =
     ''Redis Stream payload exceeds maximum uncompressed size of '' @ show_nat (maxDecompressedBytes c) @ '' bytes''"
| "codec_message c CompressedTooLarge =
     ''Redis Stream compressed payload exceeds maximum size of '' @ show_nat (maxCompressedBytes c) @ '' bytes''"
| "codec_message c UnknownEnvelope = ''Redis Stream payload uses an unknown compression envelope''"
| "codec_message c MalformedEnvelope = ''Redis Stream Brotli payload envelope is malformed''"
| "codec_message c MalformedDigest = ''Redis Stream Brotli payload digest is malformed''"
| "codec_message c NotBase64url = ''Redis Stream Brotli payload is not valid base64url''"
| "codec_message c NotCanonicalBase64url = ''Redis Stream Brotli payload is not canonical base64url''"
| "codec_message c (DecompressionFailed m) = ''Redis Stream Brotli payload could not be decompressed: '' @ m"
| "codec_message c DecompressedTooLarge =
     ''Redis Stream decompressed payload exceeds maximum size of '' @ show_nat (maxDecompressedBytes c) @ '' bytes''"
| "codec_message c IntegrityFailed = ''Redis Stream Brotli payload failed SHA-256 integrity verification''"

record encoded_payload =
  enc_value :: string
  enc_compressed :: bool
  enc_sourceBytes :: nat
  enc_storedBytes :: nat

text \<open>The decode cache is a \<open>Map\<close>: entries in insertion order, oldest first.\<close>

type_synonym cache_entry = "string \<times> (string \<times> nat)"

record codec_state =
  decodeCache :: "cache_entry list"
  decodeCacheBytes :: int

definition new_codec_state :: codec_state where
  "new_codec_state = \<lparr>decodeCache = [], decodeCacheBytes = 0\<rparr>"

section \<open>Encoding\<close>

definition make_envelope :: "'b codec_lib \<Rightarrow> 'b \<Rightarrow> 'b \<Rightarrow> string" where
  "make_envelope L source compressed =
     REDIS_STREAM_PAYLOAD_ENVELOPE_PREFIX @ sha256Hex L source @ '':'' @ toBase64url L compressed"

definition encode :: "'b codec_lib \<Rightarrow> codec_config \<Rightarrow> string \<Rightarrow> codec_error + encoded_payload" where
  "encode L c v =
     (let source = bufferFrom L v; sourceBytes = byteLength L source;
          plain = \<lparr>enc_value = v, enc_compressed = False, enc_sourceBytes = sourceBytes, enc_storedBytes = sourceBytes\<rparr>
      in if \<not> writeEnabled c \<or> sourceBytes < minBytes c then Inr plain
         else if sourceBytes > maxDecompressedBytes c then Inl UncompressedTooLarge
         else let compressed = brotliCompress L (brotliQuality c) source
              in if byteLength L compressed > maxCompressedBytes c then Inl CompressedTooLarge
                 else let encoded = make_envelope L source compressed;
                          storedBytes = byteLength L (bufferFrom L encoded)
                      in if storedBytes \<ge> sourceBytes then Inr plain
                         else Inr \<lparr>enc_value = encoded, enc_compressed = True,
                                   enc_sourceBytes = sourceBytes, enc_storedBytes = storedBytes\<rparr>)"

section \<open>Decoding\<close>

text \<open>The checks that come before the cache: the digest and the base64url text of an envelope.\<close>

definition parse_envelope :: "codec_config \<Rightarrow> string \<Rightarrow> codec_error + (string \<times> string)" where
  "parse_envelope c v =
     (if \<not> starts_with v REDIS_STREAM_PAYLOAD_ENVELOPE_PREFIX then Inl UnknownEnvelope
      else let envelope = drop (length REDIS_STREAM_PAYLOAD_ENVELOPE_PREFIX) v;
               expectedDigest = takeWhile (\<lambda>ch. ch \<noteq> CHR '':'') envelope;
               rest = dropWhile (\<lambda>ch. ch \<noteq> CHR '':'') envelope
           in if rest = [] \<or> expectedDigest = [] \<or> tl rest = [] then Inl MalformedEnvelope
              else if \<not> (length expectedDigest = 64 \<and> list_all hex_digit expectedDigest) then Inl MalformedDigest
              else if \<not> list_all base64url_char (tl rest) then Inl NotBase64url
              else if length (tl rest) > (maxCompressedBytes c * 4 + 2) div 3 + 2 then Inl CompressedTooLarge
              else Inr (expectedDigest, tl rest))"

text \<open>The work done on a cache miss: the decoded text and the size of the decompressed data.\<close>

definition decode_body :: "'b codec_lib \<Rightarrow> codec_config \<Rightarrow> string \<Rightarrow> string \<Rightarrow> codec_error + (string \<times> nat)" where
  "decode_body L c expectedDigest encoded =
     (let compressed = fromBase64url L encoded
      in if byteLength L compressed = 0 \<or> toBase64url L compressed \<noteq> encoded then Inl NotCanonicalBase64url
         else if byteLength L compressed > maxCompressedBytes c then Inl CompressedTooLarge
         else case brotliDecompress L (maxDecompressedBytes c) compressed of
           Inl message \<Rightarrow> Inl (DecompressionFailed message)
         | Inr decompressed \<Rightarrow>
             if byteLength L decompressed > maxDecompressedBytes c then Inl DecompressedTooLarge
             else if sha256Hex L decompressed \<noteq> expectedDigest then Inl IntegrityFailed
             else Inr (bufferToString L decompressed, byteLength L decompressed))"

definition cache_remove :: "string \<Rightarrow> cache_entry list \<Rightarrow> cache_entry list" where
  "cache_remove k m = filter (\<lambda>(k', _). k' \<noteq> k) m"

text \<open>Evict the oldest entries until \<open>bytes\<close> more fit.\<close>

fun cache_evict :: "nat \<Rightarrow> nat \<Rightarrow> cache_entry list \<Rightarrow> int \<Rightarrow> cache_entry list \<times> int" where
  "cache_evict bytes limit [] tot = ([], tot)"
| "cache_evict bytes limit ((k, (v, b)) # m) tot =
     (if tot + int bytes > int limit then cache_evict bytes limit m (tot - int b)
      else ((k, (v, b)) # m, tot))"

definition cacheDecoded :: "codec_config \<Rightarrow> string \<Rightarrow> string \<Rightarrow> nat \<Rightarrow> codec_state \<Rightarrow> codec_state" where
  "cacheDecoded c key v bytes st =
     (if bytes > decodeCacheMaxBytes c then st
      else let (m0, t0) =
                 (case map_of (decodeCache st) key of
                    Some (_, b) \<Rightarrow> (cache_remove key (decodeCache st), decodeCacheBytes st - int b)
                  | None \<Rightarrow> (decodeCache st, decodeCacheBytes st));
               (m1, t1) = cache_evict bytes (decodeCacheMaxBytes c) m0 t0
           in st\<lparr>decodeCache := m1 @ [(key, (v, bytes))], decodeCacheBytes := t1 + int bytes\<rparr>)"

definition decode ::
  "'b codec_lib \<Rightarrow> codec_config \<Rightarrow> string \<Rightarrow> codec_state \<Rightarrow> (codec_error + string) \<times> codec_state" where
  "decode L c v st =
     (if \<not> starts_with v REDIS_STREAM_PAYLOAD_UNKNOWN_PREFIX then (Inr v, st)
      else case parse_envelope c v of
        Inl e \<Rightarrow> (Inl e, st)
      | Inr (expectedDigest, encoded) \<Rightarrow>
          (case map_of (decodeCache st) v of
             Some cached \<Rightarrow>
               (Inr (fst cached), st\<lparr>decodeCache := cache_remove v (decodeCache st) @ [(v, cached)]\<rparr>)
           | None \<Rightarrow>
               (case decode_body L c expectedDigest encoded of
                  Inl e \<Rightarrow> (Inl e, st)
                | Inr (decoded, sz) \<Rightarrow>
                    (Inr decoded, cacheDecoded c v decoded (sz + byteLength L (bufferFrom L v)) st))))"

text \<open>Decoding without a cache.\<close>

definition decode_uncached :: "'b codec_lib \<Rightarrow> codec_config \<Rightarrow> string \<Rightarrow> codec_error + string" where
  "decode_uncached L c v = fst (decode L c v new_codec_state)"

section \<open>The cache invariant\<close>

definition cache_bytes :: "cache_entry list \<Rightarrow> int" where
  "cache_bytes m = sum_list (map (\<lambda>(_, (_, b)). int b) m)"

definition codec_inv :: "'b codec_lib \<Rightarrow> codec_config \<Rightarrow> codec_state \<Rightarrow> bool" where
  "codec_inv L c st \<longleftrightarrow>
     distinct (map fst (decodeCache st)) \<and>
     decodeCacheBytes st = cache_bytes (decodeCache st) \<and>
     decodeCacheBytes st \<le> int (decodeCacheMaxBytes c) \<and>
     (\<forall>(k, (v, b)) \<in> set (decodeCache st). decode_uncached L c k = Inr v)"

lemma cache_bytes_simps [simp]:
  "cache_bytes [] = 0"
  "cache_bytes ((k, (v, b)) # m) = int b + cache_bytes m"
  "cache_bytes (m @ n) = cache_bytes m + cache_bytes n"
  by (simp_all add: cache_bytes_def)

lemma cache_bytes_remove:
  "distinct (map fst m) \<Longrightarrow> map_of m k = Some (v, b) \<Longrightarrow> cache_bytes (cache_remove k m) = cache_bytes m - int b"
proof (induction m)
  case (Cons e m)
  obtain k' v' b' where e: "e = (k', (v', b'))" by (cases e) auto
  have "filter (\<lambda>(x, _). x \<noteq> k) m = m" if "k \<notin> fst ` set m"
    using that by (auto simp: filter_id_conv image_iff)
  with Cons e show ?case by (auto simp: cache_remove_def)
qed simp

lemma cache_remove_facts [simp]:
  "set (cache_remove k m) \<subseteq> set m"
  "distinct (map fst m) \<Longrightarrow> distinct (map fst (cache_remove k m))"
  "k \<notin> fst ` set (cache_remove k m)"
  by (auto simp: cache_remove_def distinct_map_filter)

lemma cache_evict_spec:
  assumes "cache_evict n limit m t = (m', t')" and "t = cache_bytes m"
  shows "t' = cache_bytes m'" and "set m' \<subseteq> set m" and "distinct (map fst m) \<Longrightarrow> distinct (map fst m')"
    and "n \<le> limit \<Longrightarrow> t' + int n \<le> int limit"
  using assms
proof (induction n limit m t rule: cache_evict.induct)
  case (1 n limit t)
  { case 1 then show ?case by simp next case 2 then show ?case by simp next case 3 then show ?case by simp
    next case 4 then show ?case by simp }
next
  case (2 n limit k v b m t)
  { case 1 with "2.IH"(1) show ?case by (auto split: if_splits)
    next case 2 with "2.IH"(2) show ?case by (auto split: if_splits)
    next case 3 with "2.IH"(3) show ?case by (auto split: if_splits)
    next case 4 with "2.IH"(4) show ?case by (auto split: if_splits) }
qed

lemma decode_uncached_eq:
  "decode_uncached L c v =
     (if \<not> starts_with v REDIS_STREAM_PAYLOAD_UNKNOWN_PREFIX then Inr v
      else case parse_envelope c v of
        Inl e \<Rightarrow> Inl e
      | Inr (d, enc) \<Rightarrow> (case decode_body L c d enc of Inl e \<Rightarrow> Inl e | Inr (x, _) \<Rightarrow> Inr x))"
  by (simp add: decode_uncached_def decode_def new_codec_state_def split: sum.splits prod.splits)

lemma codec_inv_lookup:
  "codec_inv L c st \<Longrightarrow> map_of (decodeCache st) v = Some (x, b) \<Longrightarrow> decode_uncached L c v = Inr x"
  by (auto simp: codec_inv_def dest!: map_of_SomeD)

lemma decode_transparent:
  "codec_inv L c st \<Longrightarrow> fst (decode L c v st) = decode_uncached L c v"
  using codec_inv_lookup [of L c st v]
  by (auto simp: decode_def decode_uncached_eq split: sum.splits prod.splits option.splits)

lemma cacheDecoded_inv:
  assumes "codec_inv L c st" and "decode_uncached L c v = Inr x"
  shows "codec_inv L c (cacheDecoded c v x n st)"
proof (cases "n \<le> decodeCacheMaxBytes c")
  case True
  define m0 where "m0 = (case map_of (decodeCache st) v of Some _ \<Rightarrow> cache_remove v (decodeCache st) | None \<Rightarrow> decodeCache st)"
  define t0 where "t0 = (case map_of (decodeCache st) v of Some (_, b) \<Rightarrow> decodeCacheBytes st - int b | None \<Rightarrow> decodeCacheBytes st)"
  obtain m1 t1 where e: "cache_evict n (decodeCacheMaxBytes c) m0 t0 = (m1, t1)" by fastforce
  have inv: "distinct (map fst (decodeCache st))" "decodeCacheBytes st = cache_bytes (decodeCache st)"
    "\<forall>(k, (v, b)) \<in> set (decodeCache st). decode_uncached L c k = Inr v"
    using assms(1) by (auto simp: codec_inv_def)
  note rm = cache_remove_facts [where k = v and m = "decodeCache st"]
  have "distinct (map fst m0) \<and> set m0 \<subseteq> set (decodeCache st) \<and> v \<notin> fst ` set m0 \<and> t0 = cache_bytes m0"
  proof (cases "map_of (decodeCache st) v")
    case None
    then have "m0 = decodeCache st" "t0 = decodeCacheBytes st" by (simp_all add: m0_def t0_def)
    moreover have "v \<notin> fst ` set (decodeCache st)" using None by (simp add: map_of_eq_None_iff)
    ultimately show ?thesis
      using inv(1,2) by simp
  next
    case (Some e)
    obtain x b where "e = (x, b)" by (cases e)
    then show ?thesis
      using Some inv(1,2) rm cache_bytes_remove [OF inv(1), of v x b] by (simp add: m0_def t0_def)
  qed
  then have m0: "distinct (map fst m0)" "set m0 \<subseteq> set (decodeCache st)" "v \<notin> fst ` set m0" "t0 = cache_bytes m0"
    by simp_all
  note ev = cache_evict_spec [OF e m0(4)]
  have st': "cacheDecoded c v x n st =
      st\<lparr>decodeCache := m1 @ [(v, (x, n))], decodeCacheBytes := t1 + int n\<rparr>"
    using True e by (auto simp: cacheDecoded_def m0_def t0_def split: option.splits)
  have sub: "set m1 \<subseteq> set (decodeCache st)" using ev(2) m0(2) by blast
  have "v \<notin> fst ` set m1" using ev(2) m0(3) by blast
  then have "distinct (map fst (m1 @ [(v, (x, n))]))" using ev(3) [OF m0(1)] by simp
  moreover have "t1 + int n = cache_bytes (m1 @ [(v, (x, n))])" using ev(1) by simp
  moreover have "t1 + int n \<le> int (decodeCacheMaxBytes c)" using ev(4) [OF True] .
  moreover have "\<forall>(k, (v, b)) \<in> set (m1 @ [(v, (x, n))]). decode_uncached L c k = Inr v"
    using sub inv(3) assms(2) by auto
  ultimately show ?thesis unfolding st' codec_inv_def by simp
next
  case False
  then show ?thesis using assms(1) by (simp add: cacheDecoded_def)
qed

lemma decode_inv:
  assumes "codec_inv L c st"
  shows "codec_inv L c (snd (decode L c v st))"
proof -
  have hit: "codec_inv L c (st\<lparr>decodeCache := cache_remove v (decodeCache st) @ [(v, e)]\<rparr>)"
    if "map_of (decodeCache st) v = Some e" for e
  proof -
    obtain x b where xb: "e = (x, b)" by (cases e)
    have inv: "distinct (map fst (decodeCache st))" "decodeCacheBytes st = cache_bytes (decodeCache st)"
      "decodeCacheBytes st \<le> int (decodeCacheMaxBytes c)"
      "\<forall>(k, (v, b)) \<in> set (decodeCache st). decode_uncached L c k = Inr v"
      using assms by (auto simp: codec_inv_def)
    note rm = cache_remove_facts [where k = v and m = "decodeCache st"]
    have "decode_uncached L c v = Inr x" using codec_inv_lookup [OF assms] that xb by simp
    moreover have "cache_bytes (cache_remove v (decodeCache st)) = cache_bytes (decodeCache st) - int b"
      using cache_bytes_remove [OF inv(1)] that xb by simp
    ultimately show ?thesis
      using inv rm(2) [OF inv(1)] rm(3) subsetD [OF rm(1)] unfolding codec_inv_def xb by auto
  qed
  show ?thesis
    using assms hit cacheDecoded_inv [OF assms]
    by (auto simp: decode_def decode_uncached_eq split: sum.splits prod.splits option.splits)
qed

lemma new_codec_state_inv: "codec_inv L c new_codec_state"
  by (simp add: codec_inv_def new_codec_state_def)

lemma takeWhile_colon:
  assumes "list_all hex_digit d"
  shows "takeWhile (\<lambda>ch. ch \<noteq> CHR '':'') (d @ '':'' @ e) = d"
    and "dropWhile (\<lambda>ch. ch \<noteq> CHR '':'') (d @ '':'' @ e) = '':'' @ e"
proof -
  have "\<not> hex_digit CHR '':''" by (simp add: hex_digit_def js_digit_def)
  with assms have "\<forall>ch \<in> set d. ch \<noteq> CHR '':''" by (auto simp: list_all_iff)
  then show "takeWhile (\<lambda>ch. ch \<noteq> CHR '':'') (d @ '':'' @ e) = d"
    and "dropWhile (\<lambda>ch. ch \<noteq> CHR '':'') (d @ '':'' @ e) = '':'' @ e"
    by (simp_all add: takeWhile_append dropWhile_append)
qed

lemma decode_envelope:
  assumes "codec_lib_ok L" and "byteLength L (brotliCompress L q b) \<le> maxCompressedBytes c"
    and "byteLength L b \<le> maxDecompressedBytes c"
  shows "decode_uncached L c (make_envelope L b (brotliCompress L q b)) = Inr (bufferToString L b)"
proof -
  let ?z = "brotliCompress L q b" and ?d = "sha256Hex L b"
  have d: "length ?d = 64" "list_all hex_digit ?d" and z: "0 < byteLength L ?z"
    and e: "list_all base64url_char (toBase64url L ?z)" "fromBase64url L (toBase64url L ?z) = ?z"
      "length (toBase64url L ?z) = (4 * byteLength L ?z + 2) div 3"
    and u: "brotliDecompress L (maxDecompressedBytes c) ?z = Inr b"
    using assms by (auto simp: codec_lib_ok_def)
  have ne: "toBase64url L ?z \<noteq> []" using e(3) z by auto
  have len: "(4 * byteLength L ?z + 2) div 3 \<le> (maxCompressedBytes c * 4 + 2) div 3"
    using assms(2) by (intro div_le_mono) simp
  have drop: "drop 8 (make_envelope L b ?z) = ?d @ '':'' @ toBase64url L ?z"
    by (simp add: make_envelope_def REDIS_STREAM_PAYLOAD_ENVELOPE_PREFIX_def)
  have p: "parse_envelope c (make_envelope L b ?z) = Inr (?d, toBase64url L ?z)"
    using d e(1,3) ne len takeWhile_colon [OF d(2), of "toBase64url L ?z"] drop
    by (auto simp: parse_envelope_def Let_def REDIS_STREAM_PAYLOAD_ENVELOPE_PREFIX_def
        make_envelope_def starts_with_def)
  have "decode_body L c ?d (toBase64url L ?z) = Inr (bufferToString L b, byteLength L b)"
    using z u e assms(2,3) by (simp add: decode_body_def Let_def)
  with p show ?thesis
    by (simp add: decode_uncached_eq make_envelope_def starts_with_def
        REDIS_STREAM_PAYLOAD_ENVELOPE_PREFIX_def REDIS_STREAM_PAYLOAD_UNKNOWN_PREFIX_def)
qed

lemma encode_decode:
  assumes "codec_lib_ok L" and "encode L c v = Inr e"
    and "\<not> starts_with v REDIS_STREAM_PAYLOAD_UNKNOWN_PREFIX"
  shows "decode_uncached L c (enc_value e) = Inr v"
proof (cases "enc_compressed e")
  case True
  let ?b = "bufferFrom L v"
  have "enc_value e = make_envelope L ?b (brotliCompress L (brotliQuality c) ?b)"
    and "byteLength L (brotliCompress L (brotliQuality c) ?b) \<le> maxCompressedBytes c"
    and "byteLength L ?b \<le> maxDecompressedBytes c"
    using assms(2) True by (auto simp: encode_def Let_def split: if_splits)
  moreover have "bufferToString L ?b = v" using assms(1) by (simp add: codec_lib_ok_def)
  ultimately show ?thesis using decode_envelope [OF assms(1)] by simp
next
  case False
  then have "enc_value e = v" using assms(2) by (auto simp: encode_def Let_def split: if_splits)
  with assms(3) show ?thesis by (simp add: decode_uncached_eq)
qed

section \<open>The codec as the queue calls it\<close>

text \<open>Its errors are exceptions, its state is the decode cache.\<close>

definition payload_decode :: "'b codec_lib \<Rightarrow> codec_config \<Rightarrow> string \<Rightarrow> (codec_state, string) io" where
  "payload_decode L cc v st =
     (case decode L cc v st of (Inl e, st') \<Rightarrow> (Inl (codec_message cc e), st') | (Inr t, st') \<Rightarrow> (Inr t, st'))"

definition payload_encode :: "'b codec_lib \<Rightarrow> codec_config \<Rightarrow> string \<Rightarrow> string + string" where
  "payload_encode L cc v = (case encode L cc v of Inl e \<Rightarrow> Inl (codec_message cc e) | Inr p \<Rightarrow> Inr (enc_value p))"

text \<open>
  What the queue relies on: text outside the reserved prefix that was encoded is decoded again, from
  every good state of the decoder; decoding keeps the state good, and its answer does not depend on
  which good state it starts from.
\<close>

definition unreserved :: "string \<Rightarrow> bool" where
  "unreserved v \<longleftrightarrow> \<not> starts_with v REDIS_STREAM_PAYLOAD_UNKNOWN_PREFIX"

locale payload_codec =
  fixes enc :: "string \<Rightarrow> string + string" and dec :: "string \<Rightarrow> ('w, string) io" and good :: "'w \<Rightarrow> bool"
  assumes dec_enc: "good st \<Longrightarrow> unreserved v \<Longrightarrow> enc v = Inr e \<Longrightarrow> fst (dec e st) = Inr v"
    and dec_good: "good st \<Longrightarrow> good (snd (dec v st))"
    and dec_same: "good st \<Longrightarrow> good st' \<Longrightarrow> fst (dec v st) = fst (dec v st')"

locale codec_library =
  fixes L :: "'b codec_lib"
  assumes lib_ok: "codec_lib_ok L"

sublocale codec_library \<subseteq> pc: payload_codec "payload_encode L cc" "payload_decode L cc" "codec_inv L cc"
proof (unfold_locales, goal_cases)
  case (1 st v e)
  then obtain p where p: "encode L cc v = Inr p" "e = enc_value p"
    by (auto simp: payload_encode_def split: sum.splits)
  have "fst (decode L cc e st) = Inr v"
    using decode_transparent [OF 1(1)] encode_decode [OF lib_ok p(1)] 1(2) p(2) by (simp add: unreserved_def)
  then show ?case by (auto simp: payload_decode_def split: sum.splits prod.splits)
next
  case (2 st v)
  then show ?case using decode_inv [OF 2, of v] by (auto simp: payload_decode_def split: sum.splits prod.splits)
next
  case (3 st st' v)
  then have "fst (decode L cc v st) = fst (decode L cc v st')" by (simp add: decode_transparent)
  then show ?case by (auto simp: payload_decode_def split: sum.splits prod.splits)
qed

section \<open>Properties\<close>

text \<open>Whatever the codec writes it reads back: decoding an encoded payload returns the payload,
  compressed or not, from any reachable state of the decode cache, provided the payload does not
  itself begin with the reserved prefix \<open>apq1:\<close>.\<close>
theorem codec_roundtrip:
  assumes "codec_lib_ok L" and "codec_inv L c st" and "encode L c v = Inr e"
    and "\<not> starts_with v REDIS_STREAM_PAYLOAD_UNKNOWN_PREFIX"
  shows "fst (decode L c (enc_value e) st) = Inr v"
  using decode_transparent [OF assms(2)] encode_decode [OF assms(1,3,4)] by simp

text \<open>Decoding never lets the cache change an answer: from any state reached by decoding, the
  answer is the one a cold cache gives, the cache's byte count is the sum of its entries, stays
  within the configured maximum, and holds no key twice.\<close>
theorem codec_cache_sound:
  assumes "codec_inv L c st"
  shows "fst (decode L c v st) = decode_uncached L c v \<and> codec_inv L c (snd (decode L c v st))"
  using decode_transparent [OF assms] decode_inv [OF assms] by blast

text \<open>An envelope is accepted only if its text has the announced SHA-256 digest and respects the
  size limits: a value that carries the envelope prefix and decodes comes from a buffer whose digest
  is the one in the envelope.\<close>
theorem envelope_integrity:
  assumes "codec_inv L c st" and "starts_with v REDIS_STREAM_PAYLOAD_UNKNOWN_PREFIX"
    and "fst (decode L c v st) = Inr x"
  shows "\<exists>b enc. v = REDIS_STREAM_PAYLOAD_ENVELOPE_PREFIX @ sha256Hex L b @ '':'' @ enc \<and>
    byteLength L b \<le> maxDecompressedBytes c \<and> bufferToString L b = x \<and>
    byteLength L (fromBase64url L enc) \<le> maxCompressedBytes c \<and>
    brotliDecompress L (maxDecompressedBytes c) (fromBase64url L enc) = Inr b"
proof -
  have d: "decode_uncached L c v = Inr x" using decode_transparent [OF assms(1)] assms(3) by simp
  then obtain dig enc where p: "parse_envelope c v = Inr (dig, enc)"
    using assms(2) by (auto simp: decode_uncached_eq split: sum.splits)
  let ?env = "drop (length REDIS_STREAM_PAYLOAD_ENVELOPE_PREFIX) v"
  have "dropWhile (\<lambda>ch. ch \<noteq> CHR '':'') ?env \<noteq> []"
    using p by (auto simp: parse_envelope_def Let_def split: if_splits)
  then have "dropWhile (\<lambda>ch. ch \<noteq> CHR '':'') ?env = CHR '':'' # tl (dropWhile (\<lambda>ch. ch \<noteq> CHR '':'') ?env)"
    using hd_dropWhile [of "\<lambda>ch. ch \<noteq> CHR '':''" ?env] by (metis list.collapse)
  then have "?env = dig @ '':'' @ enc"
    using p takeWhile_dropWhile_id [of "\<lambda>ch. ch \<noteq> CHR '':''" ?env]
    by (auto simp: parse_envelope_def Let_def simp del: takeWhile_dropWhile_id split: if_splits)
  moreover have "v = REDIS_STREAM_PAYLOAD_ENVELOPE_PREFIX @ ?env"
    using p by (auto simp: parse_envelope_def starts_with_def split: if_splits) (metis append_take_drop_id)
  ultimately have v: "v = REDIS_STREAM_PAYLOAD_ENVELOPE_PREFIX @ dig @ '':'' @ enc" by simp
  have "\<exists>n. decode_body L c dig enc = Inr (x, n)"
    using d p assms(2) by (auto simp: decode_uncached_eq split: sum.splits)
  then obtain b where "sha256Hex L b = dig" "byteLength L b \<le> maxDecompressedBytes c" "bufferToString L b = x"
    "byteLength L (fromBase64url L enc) \<le> maxCompressedBytes c"
    "brotliDecompress L (maxDecompressedBytes c) (fromBase64url L enc) = Inr b"
    by (auto simp: decode_body_def Let_def split: if_splits sum.splits)
  with v show ?thesis by blast
qed

section \<open>A library that meets the assumptions\<close>

text \<open>
  Buffers are strings that count three bytes per character; compression writes a run of \<open>a\<close> as
  its length and prefixes anything else with \<open>B\<close>; base64url spells each character with four.
\<close>

definition char_code :: "char \<Rightarrow> string" where
  "char_code c = (let n = of_char c :: nat in
     [digit_char (n div 100), digit_char ((n div 10) mod 10), digit_char (n mod 10), CHR ''A''])"

fun text_code :: "string \<Rightarrow> string" where
  "text_code [] = []"
| "text_code (c # s) = char_code c @ text_code s"

fun text_decode :: "string \<Rightarrow> string" where
  "text_decode (a # b # c # d # s) =
     char_of (100 * digit_val a + 10 * digit_val b + digit_val c) # text_decode s"
| "text_decode _ = []"

definition run_compress :: "string \<Rightarrow> string" where
  "run_compress b = (if b = replicate (length b) CHR ''a'' then CHR ''R'' # show_nat (length b) else CHR ''B'' # b)"

definition run_decompress :: "nat \<Rightarrow> string \<Rightarrow> string + string" where
  "run_decompress n z =
     (let b = (if z \<noteq> [] \<and> hd z = CHR ''R'' then replicate (digits_val (tl z)) CHR ''a'' else tl z)
      in if 3 * length b \<le> n then Inr b else Inl ''too large'')"

definition run_codec_lib :: "string codec_lib" where
  "run_codec_lib =
     \<lparr>bufferFrom = (\<lambda>v. v), bufferToString = (\<lambda>b. b), byteLength = (\<lambda>b. 3 * length b),
      brotliCompress = (\<lambda>_. run_compress), brotliDecompress = run_decompress,
      sha256Hex = (\<lambda>_. replicate 64 CHR ''0''), toBase64url = text_code, fromBase64url = text_decode\<rparr>"

lemma text_code_facts:
  "text_decode (text_code s) = s" "length (text_code s) = 4 * length s" "list_all base64url_char (text_code s)"
proof (induction s)
  case (Cons c s)
  have b: "(of_char c :: nat) < 256" using nat_of_char_less_256 by simp
  then have d: "(of_char c :: nat) div 100 < 10" by linarith
  have e: "100 * (n div 100) + 10 * (n div 10 mod 10) + n mod 10 = n" for n :: nat
  proof -
    have "n div 100 = n div 10 div 10" using div_mult2_eq [of n 10 10] by simp
    then show ?thesis using div_mult_mod_eq [of n 10] div_mult_mod_eq [of "n div 10" 10] by linarith
  qed
  { case 1 show ?case using Cons(1) d e by (simp add: char_code_def Let_def)
    next case 2 show ?case using Cons(2) by (simp add: char_code_def Let_def)
    next case 3 show ?case using Cons(3) d by (simp add: char_code_def Let_def base64url_char_def) }
qed simp_all

lemma run_codec_lib_ok: "codec_lib_ok run_codec_lib"
proof -
  have "hex_digit CHR ''0''" by (simp add: hex_digit_def js_digit_def)
  then have "list_all hex_digit (replicate 64 CHR ''0'')" by (simp add: list_all_iff)
  moreover have "run_decompress n (run_compress b) = Inr b" if "3 * length b \<le> n" for n b
    using that by (auto simp: run_decompress_def run_compress_def digits_val_show_nat Let_def)
  moreover have "(4 * (3 * k) + 2) div 3 = 4 * k" for k :: nat by presburger
  ultimately show ?thesis
    by (auto simp: codec_lib_ok_def run_codec_lib_def text_code_facts run_compress_def)
qed

interpretation run_codec: codec_library run_codec_lib
  by (unfold_locales) (rule run_codec_lib_ok)

definition sample_config :: codec_config where
  "sample_config = codec_constructor
     \<lparr>rawWriteEnabled = True, rawMinBytes = Num 100, rawMaxCompressedBytes = NaN,
      rawMaxDecompressedBytes = NaN, rawBrotliQuality = Num 40, rawDecodeCacheMaxBytes = NaN\<rparr>"

lemma sample_encode:
  "encode run_codec_lib sample_config (replicate 200 CHR ''a'') =
     Inr \<lparr>enc_value = make_envelope run_codec_lib (replicate 200 CHR ''a'') (CHR ''R'' # show_nat 200),
          enc_compressed = True, enc_sourceBytes = 600, enc_storedBytes = 267\<rparr>"
proof -
  have n: "length (show_nat 200) = 3" by (simp add: show_nat.simps)
  then show ?thesis
    by (simp add: encode_def sample_config_def codec_constructor_def run_codec_lib_def run_compress_def
        make_envelope_def REDIS_STREAM_PAYLOAD_ENVELOPE_PREFIX_def text_code_facts Let_def
        del: text_code.simps)
qed

theorem codec_roundtrip_witness:
  "\<exists>e. encode run_codec_lib sample_config (replicate 200 CHR ''a'') = Inr e \<and> enc_compressed e \<and>
    fst (decode run_codec_lib sample_config (enc_value e) new_codec_state) = Inr (replicate 200 CHR ''a'')"
proof -
  have "\<not> starts_with (replicate 200 CHR ''a'') REDIS_STREAM_PAYLOAD_UNKNOWN_PREFIX"
    by (simp add: starts_with_def REDIS_STREAM_PAYLOAD_UNKNOWN_PREFIX_def numeral_eq_Suc)
  from codec_roundtrip [OF run_codec_lib_ok new_codec_state_inv sample_encode this] sample_encode
  show ?thesis by simp
qed

theorem codec_cache_sound_witness:
  "codec_inv run_codec_lib sample_config (snd (decode run_codec_lib sample_config ''apq1:x'' new_codec_state))"
  using codec_cache_sound [OF new_codec_state_inv] by blast

theorem envelope_integrity_witness:
  "\<exists>v b enc. fst (decode run_codec_lib sample_config v new_codec_state) = Inr (replicate 200 CHR ''a'') \<and>
    v = REDIS_STREAM_PAYLOAD_ENVELOPE_PREFIX @ sha256Hex run_codec_lib b @ '':'' @ enc"
proof -
  let ?v = "make_envelope run_codec_lib (replicate 200 CHR ''a'') (CHR ''R'' # show_nat 200)"
  have "\<not> starts_with (replicate 200 CHR ''a'') REDIS_STREAM_PAYLOAD_UNKNOWN_PREFIX"
    by (simp add: starts_with_def REDIS_STREAM_PAYLOAD_UNKNOWN_PREFIX_def numeral_eq_Suc)
  then have d: "fst (decode run_codec_lib sample_config ?v new_codec_state) = Inr (replicate 200 CHR ''a'')"
    using encode_decode [OF run_codec_lib_ok sample_encode] by (simp add: decode_uncached_def)
  have p: "starts_with ?v REDIS_STREAM_PAYLOAD_UNKNOWN_PREFIX"
    by (simp add: make_envelope_def starts_with_def REDIS_STREAM_PAYLOAD_ENVELOPE_PREFIX_def
        REDIS_STREAM_PAYLOAD_UNKNOWN_PREFIX_def)
  from envelope_integrity [OF new_codec_state_inv p d] d show ?thesis by blast
qed

end
