(* ===== verification/Json.thy ===== *)
theory Json
  imports Prelude
begin

text \<open>
  The JSON of the JavaScript standard library, as far as the sidecar uses it: \<open>JSON.stringify\<close>
  and \<open>JSON.parse\<close> on the values it stores in Redis, the spread of one object into another, and
  field access.  A number with a fraction or an exponent is kept as its text (\<open>JFrac\<close>), since the
  code computes with integers only.  The round trip \<open>json_parse_stringify\<close> is proved here once
  and carries the queue's round trips.
\<close>

section \<open>Values\<close>

datatype json =
    JNull
  | JBool bool
  | JNum int
  | JFrac string
  | JStr string
  | JArr "json list"
  | JObj "(string \<times> json) list"

text \<open>A number in an object literal: the non-finite ones print as \<open>null\<close>.\<close>

fun json_num :: "jsnum \<Rightarrow> json" where
  "json_num (Num i) = JNum i"
| "json_num _ = JNull"

fun json_get :: "string \<Rightarrow> json \<Rightarrow> json option" where
  "json_get k (JObj kvs) = map_of kvs k"
| "json_get _ _ = None"

text \<open>Assignment to a property keeps the place of an existing key.\<close>

fun json_put_fields :: "string \<Rightarrow> json \<Rightarrow> (string \<times> json) list \<Rightarrow> (string \<times> json) list" where
  "json_put_fields k v [] = [(k, v)]"
| "json_put_fields k v ((k', v') # kvs) = (if k' = k then (k, v) # kvs else (k', v') # json_put_fields k v kvs)"

text \<open>\<open>{...o, k: v}\<close>; anything but an object spreads to nothing here.\<close>

fun json_put :: "string \<Rightarrow> json \<Rightarrow> json \<Rightarrow> json" where
  "json_put k v (JObj kvs) = JObj (json_put_fields k v kvs)"
| "json_put k v _ = JObj [(k, v)]"

lemma map_of_json_put_fields [js_rules]:
  "map_of (json_put_fields k v kvs) k' = (if k' = k then Some v else map_of kvs k')"
  by (induction kvs) auto

lemma json_get_put [js_rules]:
  "json_get k' (json_put k v j) =
     (if k' = k then Some v else case j of JObj kvs \<Rightarrow> map_of kvs k' | _ \<Rightarrow> None)"
  by (cases j) (auto simp: map_of_json_put_fields)

section \<open>Printing\<close>

definition hex_char :: "nat \<Rightarrow> char" where
  "hex_char d = (if d < 10 then char_of (48 + d) else char_of (87 + d))"

definition json_escape :: "char \<Rightarrow> string" where
  "json_escape c =
     (let n = of_char c :: nat in
      if n = 34 then [CHR 0x5C, CHR 0x22]
      else if n = 92 then [CHR 0x5C, CHR 0x5C]
      else if n = 8 then CHR 0x5C # ''b''
      else if n = 9 then CHR 0x5C # ''t''
      else if n = 10 then CHR 0x5C # ''n''
      else if n = 12 then CHR 0x5C # ''f''
      else if n = 13 then CHR 0x5C # ''r''
      else if n < 32 then CHR 0x5C # ''u00'' @ [hex_char (n div 16), hex_char (n mod 16)]
      else [c])"

definition json_quote :: "string \<Rightarrow> string" where
  "json_quote s = [CHR 0x22] @ concat (map json_escape s) @ [CHR 0x22]"

fun json_join :: "string list \<Rightarrow> string" where
  "json_join [] = []"
| "json_join [x] = x"
| "json_join (x # y # xs) = x @ '','' @ json_join (y # xs)"

fun json_stringify :: "json \<Rightarrow> string" where
  "json_stringify JNull = ''null''"
| "json_stringify (JBool b) = (if b then ''true'' else ''false'')"
| "json_stringify (JNum i) = show_int i"
| "json_stringify (JFrac t) = t"
| "json_stringify (JStr s) = json_quote s"
| "json_stringify (JArr xs) = ''['' @ json_join (map json_stringify xs) @ '']''"
| "json_stringify (JObj kvs) =
     ''{'' @ json_join (map (\<lambda>(k, v). json_quote k @ '':'' @ json_stringify v) kvs) @ ''}''"

section \<open>Parsing\<close>

definition json_space :: "char \<Rightarrow> bool" where
  "json_space c \<longleftrightarrow> (let n = of_char c :: nat in n = 32 \<or> n = 9 \<or> n = 10 \<or> n = 13)"

definition skip_ws :: "string \<Rightarrow> string" where
  "skip_ws s = dropWhile json_space s"

definition hex_val :: "char \<Rightarrow> nat option" where
  "hex_val c = (let n = of_char c :: nat in
     if 48 \<le> n \<and> n \<le> 57 then Some (n - 48)
     else if 97 \<le> n \<and> n \<le> 102 then Some (n - 87)
     else if 65 \<le> n \<and> n \<le> 70 then Some (n - 55) else None)"

text \<open>A \<open>\u\<close> escape above \<open>\u00ff\<close> lies outside the characters of the model.\<close>

definition hex_unit :: "char \<Rightarrow> char \<Rightarrow> char \<Rightarrow> char \<Rightarrow> char option" where
  "hex_unit a b c d = (case (hex_val a, hex_val b, hex_val c, hex_val d) of
     (Some 0, Some 0, Some x, Some y) \<Rightarrow> Some (char_of (16 * x + y)) | _ \<Rightarrow> None)"

definition simple_escape :: "char \<Rightarrow> char option" where
  "simple_escape e = (let n = of_char e :: nat in
     if n = 34 \<or> n = 92 \<or> n = 47 then Some e
     else if e = CHR ''b'' then Some (char_of (8 :: nat)) else if e = CHR ''t'' then Some (char_of (9 :: nat))
     else if e = CHR ''n'' then Some (char_of (10 :: nat)) else if e = CHR ''f'' then Some (char_of (12 :: nat))
     else if e = CHR ''r'' then Some (char_of (13 :: nat)) else None)"

fun parse_chars :: "string \<Rightarrow> (string \<times> string) option" where
  "parse_chars [] = None"
| "parse_chars (c # s) =
     (if c = CHR 0x22 then Some ([], s)
      else if c = CHR 0x5C then
        (case s of
           [] \<Rightarrow> None
         | e # r \<Rightarrow>
             if e = CHR ''u'' then
               (case r of
                  h1 # h2 # h3 # h4 # r' \<Rightarrow>
                    (case hex_unit h1 h2 h3 h4 of
                       None \<Rightarrow> None
                     | Some u \<Rightarrow> map_option (\<lambda>(t, q). (u # t, q)) (parse_chars r'))
                | _ \<Rightarrow> None)
             else (case simple_escape e of
                     None \<Rightarrow> None
                   | Some u \<Rightarrow> map_option (\<lambda>(t, q). (u # t, q)) (parse_chars r)))
      else if (of_char c :: nat) < 32 then None
      else map_option (\<lambda>(t, q). (c # t, q)) (parse_chars s))"

definition number_char :: "char \<Rightarrow> bool" where
  "number_char c \<longleftrightarrow> js_digit c \<or> c \<in> set ''+-.eE''"

text \<open>The grammar \<open>-? (0 | [1-9] digits) (. digits)? ([eE] [+-]? digits)?\<close> of a number's text.\<close>

definition int_part_ok :: "string \<Rightarrow> bool" where
  "int_part_ok ds \<longleftrightarrow> ds \<noteq> [] \<and> (hd ds = CHR ''0'' \<longrightarrow> length ds = 1)"

definition exp_part_ok :: "string \<Rightarrow> bool" where
  "exp_part_ok s \<longleftrightarrow> s = [] \<or>
     (hd s \<in> set ''eE'' \<and>
      (let r = (if tl s \<noteq> [] \<and> hd (tl s) \<in> set ''+-'' then tl (tl s) else tl s)
       in r \<noteq> [] \<and> list_all js_digit r))"

definition frac_part_ok :: "string \<Rightarrow> bool" where
  "frac_part_ok s \<longleftrightarrow>
     (if s \<noteq> [] \<and> hd s = CHR ''.'' then
        takeWhile js_digit (tl s) \<noteq> [] \<and> exp_part_ok (dropWhile js_digit (tl s))
      else exp_part_ok s)"

definition parse_number :: "string \<Rightarrow> (json \<times> string) option" where
  "parse_number s =
     (let txt = takeWhile number_char s; rest = dropWhile number_char s;
          neg = (txt \<noteq> [] \<and> hd txt = CHR ''-'');
          u = (if neg then tl txt else txt);
          ds = takeWhile js_digit u; fr = dropWhile js_digit u
      in if \<not> int_part_ok ds \<or> \<not> frac_part_ok fr then None
         else if fr \<noteq> [] then Some (JFrac txt, rest)
         else Some (JNum (if neg then - int (digits_val ds) else int (digits_val ds)), rest))"

fun parse_value :: "nat \<Rightarrow> string \<Rightarrow> (json \<times> string) option"
  and parse_elems :: "nat \<Rightarrow> string \<Rightarrow> (json list \<times> string) option"
  and parse_members :: "nat \<Rightarrow> string \<Rightarrow> ((string \<times> json) list \<times> string) option" where
  "parse_value 0 s = None"
| "parse_value (Suc n) s =
     (case skip_ws s of
        [] \<Rightarrow> None
      | c # r \<Rightarrow>
          if c = CHR 0x22 then map_option (\<lambda>(t, q). (JStr t, q)) (parse_chars r)
          else if c = CHR ''['' then
            (if starts_with (skip_ws r) '']'' then Some (JArr [], tl (skip_ws r))
             else map_option (\<lambda>(xs, q). (JArr xs, q)) (parse_elems n r))
          else if c = CHR ''{'' then
            (if starts_with (skip_ws r) ''}'' then Some (JObj [], tl (skip_ws r))
             else map_option (\<lambda>(kvs, q). (JObj kvs, q)) (parse_members n r))
          else if starts_with (c # r) ''null'' then Some (JNull, drop 4 (c # r))
          else if starts_with (c # r) ''true'' then Some (JBool True, drop 4 (c # r))
          else if starts_with (c # r) ''false'' then Some (JBool False, drop 5 (c # r))
          else parse_number (c # r))"
| "parse_elems 0 s = None"
| "parse_elems (Suc n) s =
     (case parse_value n s of
        None \<Rightarrow> None
      | Some (v, r) \<Rightarrow>
          (case skip_ws r of
             [] \<Rightarrow> None
           | c # q \<Rightarrow>
               if c = CHR '','' then map_option (\<lambda>(vs, q'). (v # vs, q')) (parse_elems n q)
               else if c = CHR '']'' then Some ([v], q) else None))"
| "parse_members 0 s = None"
| "parse_members (Suc n) s =
     (case skip_ws s of
        [] \<Rightarrow> None
      | c # r \<Rightarrow>
          if c \<noteq> CHR 0x22 then None
          else (case parse_chars r of
                  None \<Rightarrow> None
                | Some (k, r1) \<Rightarrow>
                    (case skip_ws r1 of
                       [] \<Rightarrow> None
                     | c1 # r2 \<Rightarrow>
                         if c1 \<noteq> CHR '':'' then None
                         else (case parse_value n r2 of
                                 None \<Rightarrow> None
                               | Some (v, r3) \<Rightarrow>
                                   (case skip_ws r3 of
                                      [] \<Rightarrow> None
                                    | c3 # q \<Rightarrow>
                                        if c3 = CHR '','' then
                                          map_option (\<lambda>(kvs, q'). ((k, v) # kvs, q')) (parse_members n q)
                                        else if c3 = CHR ''}'' then Some ([(k, v)], q) else None)))))"

text \<open>
  Every second level of recursion consumes a character, so twice the length of the text is fuel
  enough.  A repeated key of a parsed object keeps its last value.
\<close>

fun last_wins :: "(string \<times> json) list \<Rightarrow> (string \<times> json) list" where
  "last_wins [] = []"
| "last_wins ((k, v) # kvs) = (if k \<in> fst ` set kvs then last_wins kvs else (k, v) # last_wins kvs)"

fun json_normal :: "json \<Rightarrow> json" where
  "json_normal (JArr xs) = JArr (map json_normal xs)"
| "json_normal (JObj kvs) = JObj (last_wins (map (\<lambda>(k, v). (k, json_normal v)) kvs))"
| "json_normal j = j"

definition json_parse :: "string \<Rightarrow> json option" where
  "json_parse s =
     (case parse_value (2 * length s + 2) s of
        None \<Rightarrow> None
      | Some (v, r) \<Rightarrow> if skip_ws r = [] then Some (json_normal v) else None)"

section \<open>Round trip\<close>

text \<open>Values without fractional literals and without repeated keys.\<close>

fun json_plain :: "json \<Rightarrow> bool" where
  "json_plain (JFrac _) = False"
| "json_plain (JArr xs) = list_all json_plain xs"
| "json_plain (JObj kvs) = (distinct (map fst kvs) \<and> list_all (\<lambda>(_, v). json_plain v) kvs)"
| "json_plain _ = True"

lemma char_of_nat_code: "(of_char c :: nat) = n \<Longrightarrow> c = char_of n"
  by (metis char_of_char)

lemma json_escape_cases:
  obtains (short) e where "json_escape c = [CHR 0x5C, e]" "e \<noteq> CHR ''u''" "simple_escape e = Some c"
  | (unit) n where "n < 32" "c = char_of n" "json_escape c = CHR 0x5C # ''u00'' @ [hex_char (n div 16), hex_char (n mod 16)]"
  | (plain) "json_escape c = [c]" "c \<noteq> CHR 0x22" "c \<noteq> CHR 0x5C" "\<not> (of_char c :: nat) < 32"
proof -
  define n where "n = (of_char c :: nat)"
  have c: "c = char_of n" by (simp add: n_def)
  consider "n = 34" | "n = 92" | "n = 8" | "n = 9" | "n = 10" | "n = 12" | "n = 13"
    | "n < 32" "n \<notin> {8, 9, 10, 12, 13}" | "\<not> n < 32" "n \<noteq> 34" "n \<noteq> 92" by fastforce
  then show thesis
  proof cases
    case 1
    then have "(of_char c :: nat) = of_char (CHR 0x22)" by (simp add: n_def [symmetric])
    then have "c = CHR 0x22" by (simp only: of_char_eq_iff)
    then show thesis using short [of "CHR 0x22"] by (simp add: json_escape_def simple_escape_def)
  next
    case 2
    then have "(of_char c :: nat) = of_char (CHR 0x5C)" by (simp add: n_def [symmetric])
    then have "c = CHR 0x5C" by (simp only: of_char_eq_iff)
    then show thesis using short [of "CHR 0x5C"] by (simp add: json_escape_def simple_escape_def)
  next
    case 8
    then show thesis
      using unit [of n] c by (auto simp: json_escape_def n_def [symmetric] Let_def)
  next
    case 9
    then have "c \<noteq> CHR 0x22" "c \<noteq> CHR 0x5C" by (auto simp: n_def)
    with 9 show thesis using plain by (auto simp: json_escape_def n_def [symmetric] Let_def)
  qed (use short in \<open>auto simp: c json_escape_def simple_escape_def Let_def\<close>)
qed

lemma hex_val_hex_char: "d < 16 \<Longrightarrow> hex_val (hex_char d) = Some d"
  by (auto simp: hex_val_def hex_char_def Let_def)

lemma hex_unit_code: "n < 32 \<Longrightarrow> hex_unit CHR ''0'' CHR ''0'' (hex_char (n div 16)) (hex_char (n mod 16)) = Some (char_of n)"
  by (simp add: hex_unit_def hex_val_hex_char, simp add: hex_val_def)

lemma parse_chars_escape:
  "parse_chars (json_escape c @ t) = map_option (\<lambda>(u, q). (c # u, q)) (parse_chars t)"
proof (cases c rule: json_escape_cases)
  case (unit n)
  then show ?thesis using hex_unit_code [of n] by simp
qed simp_all

lemma parse_chars_quote:
  "parse_chars (concat (map json_escape s) @ CHR 0x22 # rest) = Some (s, rest)"
  by (induction s) (simp_all add: parse_chars_escape)

lemma js_digit_number_char: "js_digit c \<Longrightarrow> number_char c"
  by (simp add: number_char_def)

lemma show_nat_leading: "hd (show_nat n) = CHR ''0'' \<Longrightarrow> n = 0"
proof (induction n rule: show_nat.induct)
  case (1 n)
  have zero: "digit_char d = CHR ''0'' \<Longrightarrow> d = 0" if "d < 10" for d
    using of_char_digit_char [OF that] by simp
  show ?case
  proof (cases "n < 10")
    case True
    then show ?thesis using 1(2) zero by (simp add: show_nat.simps [of n])
  next
    case False
    then have "hd (show_nat n) = hd (show_nat (n div 10))" by (simp add: show_nat.simps [of n])
    with 1 False have "n div 10 = 0" by simp
    with False show ?thesis by simp
  qed
qed

lemma int_part_show_nat: "int_part_ok (show_nat n)"
  using show_nat_leading [of n] by (auto simp: int_part_ok_def show_nat.simps [of 0])

definition ends_number :: "string \<Rightarrow> bool" where
  "ends_number rest \<longleftrightarrow> rest = [] \<or> \<not> number_char (hd rest)"

lemma takeWhile_number:
  assumes "\<forall>c \<in> set t. number_char c" and "ends_number rest"
  shows "takeWhile number_char (t @ rest) = t" and "dropWhile number_char (t @ rest) = rest"
  using assms by (cases rest; auto simp: ends_number_def takeWhile_append dropWhile_append)+

lemma parse_number_show_int:
  assumes "ends_number rest"
  shows "parse_number (show_int i @ rest) = Some (JNum i, rest)"
proof -
  have d: "\<forall>c \<in> set (show_nat n). number_char c" for n
    using show_nat_all_digits [of n] by (auto intro: js_digit_number_char)
  have m: "number_char CHR ''-''" by (simp add: number_char_def)
  have "\<forall>c \<in> set (show_int i). number_char c" using d m by (simp add: show_int_def)
  note t = takeWhile_number [OF this assms]
  have dw: "dropWhile js_digit (show_nat n) = []" for n
    using show_nat_all_digits [of n] by (simp add: dropWhile_eq_Nil_conv)
  have e: "frac_part_ok []" by (simp add: frac_part_ok_def exp_part_ok_def)
  show ?thesis
  proof (cases "i < 0")
    case True
    then show ?thesis using t e int_part_show_nat
      by (simp add: parse_number_def Let_def show_int_def digits_val_show_nat dw)
  next
    case False
    then show ?thesis using t e int_part_show_nat
      by (simp add: parse_number_def Let_def show_int_def digits_val_show_nat show_nat_hd dw)
  qed
qed

lemma js_digit_other:
  "js_digit c \<Longrightarrow> c \<noteq> CHR 0x22 \<and> c \<noteq> CHR ''['' \<and> c \<noteq> CHR ''{'' \<and> c \<noteq> CHR '']'' \<and> c \<noteq> CHR ''}''
    \<and> c \<noteq> CHR ''n'' \<and> c \<noteq> CHR ''t'' \<and> c \<noteq> CHR ''f'' \<and> \<not> json_space c"
  by (auto simp: js_digit_def json_space_def Let_def)

lemma show_int_head:
  assumes "show_int i = c # r"
  shows "c = CHR ''-'' \<or> js_digit c"
proof (cases "i < 0")
  case False
  then have "c \<in> set (show_nat (nat i))" using assms by (simp add: show_int_def)
  with show_nat_all_digits show ?thesis by blast
qed (use assms in \<open>simp add: show_int_def\<close>)

lemma json_space_punct [simp]:
  "\<not> json_space CHR '',''" "\<not> json_space CHR ''[''" "\<not> json_space CHR '']''" "\<not> json_space CHR ''{''"
  "\<not> json_space CHR ''}''" "\<not> json_space CHR '':''" "\<not> json_space CHR 0x22" "\<not> json_space CHR ''n''"
  "\<not> json_space CHR ''t''" "\<not> json_space CHR ''f''" "\<not> json_space CHR ''-''"
  by (simp_all add: json_space_def)

lemma skip_ws_Cons [simp]: "\<not> json_space c \<Longrightarrow> skip_ws (c # s) = c # s"
  by (simp add: skip_ws_def)

lemma ends_number_punct [simp]: "ends_number (CHR '','' # s)" "ends_number (CHR '']'' # s)" "ends_number (CHR ''}'' # s)" "ends_number []"
  by (simp_all add: ends_number_def number_char_def js_digit_def)

lemma stringify_head:
  assumes "json_plain j"
  obtains c r where "json_stringify j = c # r" "\<not> json_space c" "c \<noteq> CHR '']''"
proof (cases j)
  case (JNum i)
  obtain c r where cr: "show_int i = c # r" by (cases "show_int i") auto
  then show thesis using that [of c r] show_int_head [OF cr] js_digit_other [of c] JNum by auto
next
  case (JBool b)
  then show thesis using that by (cases b) auto
qed (use assms that in \<open>auto simp: json_quote_def split: if_splits\<close>)

lemma parse_value_num:
  assumes "ends_number rest"
  shows "parse_value (Suc n) (show_int i @ rest) = Some (JNum i, rest)"
proof -
  obtain c r where cr: "show_int i = c # r" by (cases "show_int i") auto
  from show_int_head [OF cr] js_digit_other [of c]
  have "c \<noteq> CHR 0x22 \<and> c \<noteq> CHR ''['' \<and> c \<noteq> CHR ''{'' \<and> c \<noteq> CHR ''n'' \<and> c \<noteq> CHR ''t'' \<and> c \<noteq> CHR ''f'' \<and> \<not> json_space c"
    by auto
  then show ?thesis using parse_number_show_int [OF assms, of i] by (simp add: cr starts_with_def)
qed

definition value_ok :: "json \<Rightarrow> bool" where
  "value_ok j \<longleftrightarrow> (\<forall>n rest. 2 * length (json_stringify j) \<le> n \<longrightarrow> ends_number rest \<longrightarrow>
     parse_value n (json_stringify j @ rest) = Some (j, rest))"

lemma stringify_length: "json_plain j \<Longrightarrow> 0 < length (json_stringify j)"
  by (rule stringify_head) auto

lemma parse_elems_join:
  assumes "xs \<noteq> []" and "\<forall>x \<in> set xs. json_plain x \<and> value_ok x"
    and "2 * length (json_join (map json_stringify xs)) + 1 \<le> n"
  shows "parse_elems n (json_join (map json_stringify xs) @ CHR '']'' # rest) = Some (xs, rest)"
  using assms
proof (induction xs arbitrary: n)
  case (Cons x xs)
  then obtain m where n: "n = Suc m" by (cases n) auto
  have x: "parse_value m (json_stringify x @ r) = Some (x, r)"
    if "2 * length (json_stringify x) \<le> m" and "ends_number r" for r
    using Cons.prems(2) that by (simp add: value_ok_def)
  show ?case
  proof (cases xs)
    case Nil
    then show ?thesis using Cons.prems(3) x [of "CHR '']'' # rest"] n by simp
  next
    case (Cons y ys)
    then have "parse_elems m (json_join (map json_stringify xs) @ CHR '']'' # rest) = Some (xs, rest)"
      by (intro Cons.IH) (use Cons.prems n in auto)
    then show ?thesis using Cons.prems(3) x n Cons by simp
  qed
qed simp

definition member_text :: "string \<times> json \<Rightarrow> string" where
  "member_text kv = json_quote (fst kv) @ '':'' @ json_stringify (snd kv)"

lemma stringify_JObj: "json_stringify (JObj kvs) = ''{'' @ json_join (map member_text kvs) @ ''}''"
  by (simp add: member_text_def [abs_def] case_prod_unfold)

lemma parse_members_join:
  assumes "kvs \<noteq> []" and "\<forall>kv \<in> set kvs. value_ok (snd kv)"
    and "2 * length (json_join (map member_text kvs)) + 1 \<le> n"
  shows "parse_members n (json_join (map member_text kvs) @ CHR ''}'' # rest) = Some (kvs, rest)"
  using assms
proof (induction kvs arbitrary: n)
  case (Cons kv kvs)
  then obtain m where n: "n = Suc m" by (cases n) auto
  have x: "parse_value m (json_stringify (snd kv) @ r) = Some (snd kv, r)"
    if "2 * length (json_stringify (snd kv)) \<le> m" and "ends_number r" for r
    using Cons.prems(2) that by (simp add: value_ok_def)
  have mt: "member_text kv = CHR 0x22 # concat (map json_escape (fst kv)) @ CHR 0x22 # CHR '':'' # json_stringify (snd kv)"
    by (simp add: member_text_def json_quote_def)
  show ?case
  proof (cases "kvs = []")
    case True
    then show ?thesis using Cons.prems(3) x [of "CHR ''}'' # rest"] n
      by (simp add: mt parse_chars_quote)
  next
    case False
    then have j: "json_join (map member_text (kv # kvs)) = member_text kv @ CHR '','' # json_join (map member_text kvs)"
      by (cases kvs) auto
    have "parse_members m (json_join (map member_text kvs) @ CHR ''}'' # rest) = Some (kvs, rest)"
      by (rule Cons.IH) (use False Cons.prems n j in auto)
    then show ?thesis using Cons.prems(3) x unfolding n j
      by (simp add: mt parse_chars_quote)
  qed
qed simp

lemma value_okI:
  assumes "json_plain j"
    and "\<And>n rest. 2 * length (json_stringify j) \<le> Suc n \<Longrightarrow> ends_number rest \<Longrightarrow>
      parse_value (Suc n) (json_stringify j @ rest) = Some (j, rest)"
  shows "value_ok j"
  unfolding value_ok_def
proof (intro allI impI)
  fix n rest
  assume n: "2 * length (json_stringify j) \<le> n" and r: "ends_number rest"
  from n stringify_length [OF assms(1)] obtain m where "n = Suc m" by (cases n) auto
  with n r assms(2) show "parse_value n (json_stringify j @ rest) = Some (j, rest)" by simp
qed

lemma value_ok_JArr:
  assumes "json_plain (JArr xs)" and "\<forall>x \<in> set xs. value_ok x"
  shows "value_ok (JArr xs)"
proof (rule value_okI [OF assms(1)])
  fix n rest assume n: "2 * length (json_stringify (JArr xs)) \<le> Suc n"
  have ok: "\<forall>x \<in> set xs. json_plain x \<and> value_ok x" using assms by (auto simp: list_all_iff)
  show "parse_value (Suc n) (json_stringify (JArr xs) @ rest) = Some (JArr xs, rest)"
  proof (cases xs)
    case (Cons x ys)
    with ok obtain c r where "json_stringify x = c # r" "\<not> json_space c" "c \<noteq> CHR '']''"
      by (auto elim: stringify_head)
    then have h: "\<exists>r'. json_join (map json_stringify xs) = c # r' \<and> \<not> json_space c \<and> c \<noteq> CHR '']''"
      using Cons by (cases ys) auto
    have "xs \<noteq> []" using Cons by simp
    from parse_elems_join [OF this ok, of n rest] n h show ?thesis by (auto simp: starts_with_def)
  qed (simp add: starts_with_def)
qed

lemma value_ok_JObj:
  assumes "json_plain (JObj kvs)" and "\<forall>kv \<in> set kvs. value_ok (snd kv)"
  shows "value_ok (JObj kvs)"
proof (rule value_okI [OF assms(1)])
  fix n rest assume n: "2 * length (json_stringify (JObj kvs)) \<le> Suc n"
  show "parse_value (Suc n) (json_stringify (JObj kvs) @ rest) = Some (JObj kvs, rest)"
  proof (cases kvs)
    case (Cons kv ys)
    then have h: "\<exists>r'. json_join (map member_text kvs) = CHR 0x22 # r'"
      by (cases ys) (auto simp: member_text_def json_quote_def)
    have "kvs \<noteq> []" using Cons by simp
    from parse_members_join [OF this assms(2), of n rest] n h
    show ?thesis unfolding stringify_JObj by (auto simp: starts_with_def)
  qed (simp add: starts_with_def)
qed

lemma value_ok_all: "json_plain j \<Longrightarrow> value_ok j"
proof (induction j)
  case (JArr xs)
  then show ?case by (intro value_ok_JArr) (auto simp: list_all_iff)
next
  case (JObj kvs)
  then show ?case by (intro value_ok_JObj) (fastforce simp: list_all_iff)+
next
  case (JNum i)
  then show ?case by (intro value_okI) (simp_all add: parse_value_num del: parse_value.simps)
next
  case (JStr s)
  then show ?case by (intro value_okI) (simp_all add: json_quote_def parse_chars_quote)
qed (auto intro!: value_okI simp: starts_with_def)

lemma last_wins_distinct: "distinct (map fst kvs) \<Longrightarrow> last_wins kvs = kvs"
  by (induction kvs rule: last_wins.induct) auto

lemma json_normal_plain: "json_plain j \<Longrightarrow> json_normal j = j"
proof (induction j)
  case (JArr xs)
  then show ?case by (auto simp: list_all_iff intro: map_idI)
next
  case (JObj kvs)
  then have "map (\<lambda>(k, v). (k, json_normal v)) kvs = kvs"
    by (intro map_idI) (fastforce simp: list_all_iff)
  with JObj last_wins_distinct show ?case by simp
qed simp_all

lemma json_parse_stringify [js_rules]:
  assumes "json_plain j"
  shows "json_parse (json_stringify j) = Some j"
proof -
  let ?t = "json_stringify j"
  have "parse_value (2 * length ?t + 2) (?t @ []) = Some (j, [])"
    using value_ok_all [OF assms] unfolding value_ok_def by (metis ends_number_punct(4) le_add1)
  then show ?thesis
    unfolding json_parse_def append_Nil2 by (simp add: json_normal_plain [OF assms] skip_ws_def)
qed

end
