(* ===== verification/Queue_Core.thy ===== *)
theory Queue_Core
  imports Redis Payload_Codec Json
begin

text \<open>
  \<open>fedify-sidecar/src/queue/sidecar-redis-queue-core.ts\<close>: the durable work queue.  Jobs are
  written to Redis Streams as flat lists of text fields and read back; this theory models the
  job types, both directions of the serialisation, the stream and dead-letter operations, the
  idempotency keys, the per-domain rate limit and concurrency slots, the exactly-once fan-out
  script of an outbox intent, and one round of each consumer loop.

  The queue object is a \<open>queue_config\<close> (its keys and limits and the \<open>isConnected\<close> flag) together
  with the payload codec's state; every operation takes the Redis commands \<open>R\<close> and runs over the
  server state.  \<open>Date.now()\<close> and \<open>crypto.randomUUID()\<close> are arguments.
\<close>

section \<open>Configuration\<close>

datatype stream_type = Inbound | Outbound | Outbox_intent | Origin_reconcile

record queue_config =
  inboundStreamKey :: string
  outboundStreamKey :: string
  outboxIntentStreamKey :: string
  originReconcileStreamKey :: string
  inboundDlqStreamKey :: string
  outboundDlqStreamKey :: string
  outboxIntentDlqStreamKey :: string
  originReconcileDlqStreamKey :: string
  maxDlqLength :: nat
  consumerGroup :: string
  claimIdleTimeMs :: int
  maxStreamLength :: nat
  readBatchCount :: int
  claimBatchCount :: int
  isConnected :: bool

definition normalizeQueueBatchCount :: "jsnum option \<Rightarrow> string option \<Rightarrow> int \<Rightarrow> int" where
  "normalizeQueueBatchCount configured fromEnv fallback =
     (case configured of
        Some (Num c) \<Rightarrow> max 1 (min 250 c)
      | _ \<Rightarrow>
          (case fromEnv of
             Some t \<Rightarrow> if t = [] then fallback
                       else (case parse_int t of
                               Num p \<Rightarrow> if p > 0 then max 1 (min 250 p) else fallback
                             | _ \<Rightarrow> fallback)
           | None \<Rightarrow> fallback))"

record queue_overrides =
  o_inboundStreamKey :: "string option"
  o_outboundStreamKey :: "string option"
  o_outboxIntentStreamKey :: "string option"
  o_originReconcileStreamKey :: "string option"
  o_inboundDlqStreamKey :: "string option"
  o_outboundDlqStreamKey :: "string option"
  o_outboxIntentDlqStreamKey :: "string option"
  o_originReconcileDlqStreamKey :: "string option"
  o_maxDlqLength :: "nat option"
  o_consumerGroup :: "string option"
  o_claimIdleTimeMs :: "int option"
  o_maxStreamLength :: "nat option"
  o_readBatchCount :: "jsnum option"
  o_claimBatchCount :: "jsnum option"

definition or_else :: "'a option \<Rightarrow> 'a \<Rightarrow> 'a" where
  "or_else x d = (case x of None \<Rightarrow> d | Some a \<Rightarrow> a)"

definition queue_constructor :: "(string \<Rightarrow> string option) \<Rightarrow> queue_overrides \<Rightarrow> queue_config" where
  "queue_constructor env c =
     \<lparr>inboundStreamKey = or_else (o_inboundStreamKey c) ''ap:queue:inbound:v1'',
      outboundStreamKey = or_else (o_outboundStreamKey c) ''ap:queue:outbound:v1'',
      outboxIntentStreamKey = or_else (o_outboxIntentStreamKey c) ''ap:queue:outbox-intent:v1'',
      originReconcileStreamKey = or_else (o_originReconcileStreamKey c) ''ap:queue:origin-reconcile:v1'',
      inboundDlqStreamKey = or_else (o_inboundDlqStreamKey c) ''ap:queue:dlq:inbound:v1'',
      outboundDlqStreamKey = or_else (o_outboundDlqStreamKey c) ''ap:queue:dlq:outbound:v1'',
      outboxIntentDlqStreamKey = or_else (o_outboxIntentDlqStreamKey c) ''ap:queue:dlq:outbox-intent:v1'',
      originReconcileDlqStreamKey = or_else (o_originReconcileDlqStreamKey c) ''ap:queue:dlq:origin-reconcile:v1'',
      maxDlqLength = or_else (o_maxDlqLength c) 10000,
      consumerGroup = or_else (o_consumerGroup c) ''sidecar-workers'',
      claimIdleTimeMs = or_else (o_claimIdleTimeMs c) 60000,
      maxStreamLength = or_else (o_maxStreamLength c) 100000,
      readBatchCount = normalizeQueueBatchCount (o_readBatchCount c) (env ''QUEUE_READ_BATCH_COUNT'') 10,
      claimBatchCount = normalizeQueueBatchCount (o_claimBatchCount c) (env ''QUEUE_CLAIM_BATCH_COUNT'') 10,
      isConnected = False\<rparr>"

fun stream_key :: "queue_config \<Rightarrow> stream_type \<Rightarrow> string" where
  "stream_key c Inbound = inboundStreamKey c"
| "stream_key c Outbound = outboundStreamKey c"
| "stream_key c Outbox_intent = outboxIntentStreamKey c"
| "stream_key c Origin_reconcile = originReconcileStreamKey c"

fun dlq_key :: "queue_config \<Rightarrow> stream_type \<Rightarrow> string" where
  "dlq_key c Inbound = inboundDlqStreamKey c"
| "dlq_key c Outbound = outboundDlqStreamKey c"
| "dlq_key c Outbox_intent = outboxIntentDlqStreamKey c"
| "dlq_key c Origin_reconcile = originReconcileDlqStreamKey c"

fun type_name :: "stream_type \<Rightarrow> string" where
  "type_name Inbound = ''inbound''"
| "type_name Outbound = ''outbound''"
| "type_name Outbox_intent = ''outbox_intent''"
| "type_name Origin_reconcile = ''origin_reconcile''"

section \<open>Job types\<close>

text \<open>
  \<open>meta\<close>, \<open>headers\<close>, \<open>targets\<close>, \<open>bridgeHints\<close> and \<open>verification\<close> come out of \<open>JSON.parse\<close> unchecked (or
  only partly checked), so they are JSON values here; \<open>undefined\<close> is \<open>None\<close>.
\<close>

record InboundEnvelope =
  ie_envelopeId :: string
  ie_method :: string
  ie_path :: string
  ie_headers :: json
  ie_body :: string
  ie_remoteIp :: string
  ie_receivedAt :: jsnum
  ie_attempt :: jsnum
  ie_notBeforeMs :: jsnum
  ie_verification :: "json option"

record OutboundJob =
  jobId :: string
  activityId :: string
  actorUri :: string
  activity :: string
  targetInbox :: string
  targetDomain :: string
  attempt :: jsnum
  maxAttempts :: jsnum
  notBeforeMs :: jsnum
  deferCount :: "jsnum option"
  lastError :: "string option"
  meta :: "json option"

record OutboxIntent =
  oi_intentId :: string
  oi_activityId :: string
  oi_actorUri :: string
  oi_activity :: string
  oi_targets :: "json list"
  oi_createdAt :: jsnum
  oi_attempt :: jsnum
  oi_maxAttempts :: jsnum
  oi_notBeforeMs :: jsnum
  oi_lastError :: "string option"
  oi_meta :: "json option"
  oi_bridgeHints :: "json option"

record OutboxIntentState =
  eventLogPublishedAt :: "jsnum option"
  outboundEnqueuedAt :: "jsnum option"
  completedAt :: "jsnum option"
  jobCount :: "jsnum option"

record OriginReconciliationJob =
  or_jobId :: string
  or_originObjectUrl :: string
  or_canonicalObjectId :: "string option"
  or_actorUriHint :: "string option"
  or_reason :: string
  or_createdAt :: jsnum
  or_attempt :: jsnum
  or_maxAttempts :: jsnum
  or_notBeforeMs :: jsnum
  or_windowExpiresAt :: jsnum
  or_lastFingerprint :: "string option"
  or_unchangedSuccesses :: jsnum
  or_notFoundCount :: jsnum
  or_lastError :: "string option"

section \<open>Fields\<close>

fun json_truthy :: "json \<Rightarrow> bool" where
  "json_truthy JNull = False"
| "json_truthy (JBool b) = b"
| "json_truthy (JNum i) = (i \<noteq> 0)"
| "json_truthy (JFrac t) \<longleftrightarrow>
     list_ex (\<lambda>ch. js_digit ch \<and> ch \<noteq> CHR ''0'') (takeWhile (\<lambda>ch. ch \<noteq> CHR ''e'' \<and> ch \<noteq> CHR ''E'') t)"
| "json_truthy (JStr s) = (s \<noteq> [])"
| "json_truthy _ = True"

text \<open>\<open>x ? JSON.stringify(x) : ""\<close> and \<open>fields[k] || d\<close>, \<open>fields[k] || undefined\<close>,
  \<open>fields[k] ? JSON.parse(fields[k]) : undefined\<close>.\<close>

definition json_field_text :: "json option \<Rightarrow> string" where
  "json_field_text x = (case x of None \<Rightarrow> [] | Some j \<Rightarrow> if json_truthy j then json_stringify j else [])"

definition field_or :: "fields \<Rightarrow> string \<Rightarrow> string \<Rightarrow> string" where
  "field_or fs k d = (case map_of fs k of None \<Rightarrow> d | Some v \<Rightarrow> if v = [] then d else v)"

definition field_opt :: "fields \<Rightarrow> string \<Rightarrow> string option" where
  "field_opt fs k = (case map_of fs k of None \<Rightarrow> None | Some v \<Rightarrow> if v = [] then None else Some v)"

definition json_parse_io :: "string \<Rightarrow> ('w, json) io" where
  "json_parse_io s = (case json_parse s of None \<Rightarrow> io_throw ''Unexpected token in JSON'' | Some j \<Rightarrow> io_return j)"

definition json_field :: "fields \<Rightarrow> string \<Rightarrow> ('w, json option) io" where
  "json_field fs k =
     (case field_opt fs k of
        None \<Rightarrow> io_return None
      | Some v \<Rightarrow> io_bind (json_parse_io v) (\<lambda>j. io_return (Some j)))"

definition requireField :: "fields \<Rightarrow> string \<Rightarrow> string \<Rightarrow> ('w, string) io" where
  "requireField fs key messageId =
     (case map_of fs key of
        None \<Rightarrow> io_throw (''Stream message '' @ messageId @ '' missing required field '' @ key)
      | Some v \<Rightarrow> io_return v)"

definition requireInt :: "fields \<Rightarrow> string \<Rightarrow> string \<Rightarrow> ('w, jsnum) io" where
  "requireInt fs key messageId = io_bind (requireField fs key messageId) (\<lambda>v. io_return (parse_int v))"

section \<open>Serialisation\<close>

definition serializeOutboundJob :: "OutboundJob \<Rightarrow> string \<Rightarrow> fields" where
  "serializeOutboundJob job encodedActivity =
     [(''jobId'', jobId job),
      (''activityId'', activityId job),
      (''actorUri'', actorUri job),
      (''activity'', encodedActivity),
      (''targetInbox'', targetInbox job),
      (''targetDomain'', targetDomain job),
      (''attempt'', show_num (attempt job)),
      (''maxAttempts'', show_num (maxAttempts job)),
      (''notBeforeMs'', show_num (notBeforeMs job)),
      (''deferCount'', show_num (or_else (deferCount job) (Num 0))),
      (''lastError'', or_else (lastError job) []),
      (''meta'', json_field_text (meta job))]"

definition deserializeOutboundJob ::
  "(string \<Rightarrow> ('w, string) io) \<Rightarrow> string \<Rightarrow> fields \<Rightarrow> ('w, OutboundJob) io" where
  "deserializeOutboundJob dec messageId fs =
     io_bind (requireField fs ''jobId'' messageId) (\<lambda>jid.
     io_bind (requireField fs ''activityId'' messageId) (\<lambda>aid.
     io_bind (requireField fs ''actorUri'' messageId) (\<lambda>actor.
     io_bind (requireField fs ''activity'' messageId) (\<lambda>rawActivity.
     io_bind (dec rawActivity) (\<lambda>act.
     io_bind (requireField fs ''targetInbox'' messageId) (\<lambda>inbox.
     io_bind (requireField fs ''targetDomain'' messageId) (\<lambda>domain.
     io_bind (requireInt fs ''attempt'' messageId) (\<lambda>att.
     io_bind (requireInt fs ''maxAttempts'' messageId) (\<lambda>maxAtt.
     io_bind (requireInt fs ''notBeforeMs'' messageId) (\<lambda>nbf.
     io_bind (json_field fs ''meta'') (\<lambda>m.
     io_return
       \<lparr>jobId = jid, activityId = aid, actorUri = actor, activity = act, targetInbox = inbox,
        targetDomain = domain, attempt = att, maxAttempts = maxAtt, notBeforeMs = nbf,
        deferCount = Some (parse_int (field_or fs ''deferCount'' ''0'')),
        lastError = field_opt fs ''lastError'', meta = m\<rparr>)))))))))))"

definition serializeOutboxIntent :: "(string \<Rightarrow> string + string) \<Rightarrow> OutboxIntent \<Rightarrow> string + fields" where
  "serializeOutboxIntent enc intent =
     (case enc (oi_activity intent) of
        Inl e \<Rightarrow> Inl e
      | Inr encodedActivity \<Rightarrow>
          (case enc (json_stringify (JArr (oi_targets intent))) of
             Inl e \<Rightarrow> Inl e
           | Inr encodedTargets \<Rightarrow> Inr
               [(''intentId'', oi_intentId intent),
                (''activityId'', oi_activityId intent),
                (''actorUri'', oi_actorUri intent),
                (''activity'', encodedActivity),
                (''targets'', encodedTargets),
                (''createdAt'', show_num (oi_createdAt intent)),
                (''attempt'', show_num (oi_attempt intent)),
                (''maxAttempts'', show_num (oi_maxAttempts intent)),
                (''notBeforeMs'', show_num (oi_notBeforeMs intent)),
                (''lastError'', or_else (oi_lastError intent) []),
                (''meta'', json_field_text (oi_meta intent)),
                (''bridgeHints'', json_field_text (oi_bridgeHints intent))]))"

definition parse_targets :: "string \<Rightarrow> string \<Rightarrow> ('w, json list) io" where
  "parse_targets messageId rawTargets =
     io_bind (json_parse_io rawTargets) (\<lambda>j.
       case j of JArr xs \<Rightarrow> io_return xs
       | _ \<Rightarrow> io_throw (''Stream message '' @ messageId @ '' has invalid outbox intent targets''))"

definition deserializeOutboxIntent ::
  "(string \<Rightarrow> ('w, string) io) \<Rightarrow> string \<Rightarrow> fields \<Rightarrow> ('w, OutboxIntent) io" where
  "deserializeOutboxIntent dec messageId fs =
     io_bind (requireField fs ''targets'' messageId) (\<lambda>encodedTargets.
     io_bind (dec encodedTargets) (\<lambda>rawTargets.
     io_bind (parse_targets messageId rawTargets) (\<lambda>targets.
     io_bind (requireField fs ''intentId'' messageId) (\<lambda>iid.
     io_bind (requireField fs ''activityId'' messageId) (\<lambda>aid.
     io_bind (requireField fs ''actorUri'' messageId) (\<lambda>actor.
     io_bind (requireField fs ''activity'' messageId) (\<lambda>rawActivity.
     io_bind (dec rawActivity) (\<lambda>act.
     io_bind (requireInt fs ''createdAt'' messageId) (\<lambda>created.
     io_bind (requireInt fs ''attempt'' messageId) (\<lambda>att.
     io_bind (requireInt fs ''maxAttempts'' messageId) (\<lambda>maxAtt.
     io_bind (requireInt fs ''notBeforeMs'' messageId) (\<lambda>nbf.
     io_bind (json_field fs ''meta'') (\<lambda>m.
     io_bind (json_field fs ''bridgeHints'') (\<lambda>hints.
     io_return
       \<lparr>oi_intentId = iid, oi_activityId = aid, oi_actorUri = actor, oi_activity = act,
        oi_targets = targets, oi_createdAt = created, oi_attempt = att, oi_maxAttempts = maxAtt,
        oi_notBeforeMs = nbf, oi_lastError = field_opt fs ''lastError'', oi_meta = m,
        oi_bridgeHints = hints\<rparr>))))))))))))))"

definition serializeOriginReconciliationJob :: "OriginReconciliationJob \<Rightarrow> fields" where
  "serializeOriginReconciliationJob job =
     [(''jobId'', or_jobId job),
      (''originObjectUrl'', or_originObjectUrl job),
      (''canonicalObjectId'', or_else (or_canonicalObjectId job) []),
      (''actorUriHint'', or_else (or_actorUriHint job) []),
      (''reason'', or_reason job),
      (''createdAt'', show_num (or_createdAt job)),
      (''attempt'', show_num (or_attempt job)),
      (''maxAttempts'', show_num (or_maxAttempts job)),
      (''notBeforeMs'', show_num (or_notBeforeMs job)),
      (''windowExpiresAt'', show_num (or_windowExpiresAt job)),
      (''lastFingerprint'', or_else (or_lastFingerprint job) []),
      (''unchangedSuccesses'', show_num (or_unchangedSuccesses job)),
      (''notFoundCount'', show_num (or_notFoundCount job)),
      (''lastError'', or_else (or_lastError job) [])]"

definition deserializeOriginReconciliationJob :: "string \<Rightarrow> fields \<Rightarrow> ('w, OriginReconciliationJob) io" where
  "deserializeOriginReconciliationJob messageId fs =
     io_bind (requireField fs ''jobId'' messageId) (\<lambda>jid.
     io_bind (requireField fs ''originObjectUrl'' messageId) (\<lambda>url.
     io_bind (requireField fs ''reason'' messageId) (\<lambda>reason.
     io_bind (requireInt fs ''createdAt'' messageId) (\<lambda>created.
     io_bind (requireInt fs ''attempt'' messageId) (\<lambda>att.
     io_bind (requireInt fs ''maxAttempts'' messageId) (\<lambda>maxAtt.
     io_bind (requireInt fs ''notBeforeMs'' messageId) (\<lambda>nbf.
     io_bind (requireInt fs ''windowExpiresAt'' messageId) (\<lambda>win.
     io_return
       \<lparr>or_jobId = jid, or_originObjectUrl = url,
        or_canonicalObjectId = field_opt fs ''canonicalObjectId'',
        or_actorUriHint = field_opt fs ''actorUriHint'', or_reason = reason,
        or_createdAt = created, or_attempt = att, or_maxAttempts = maxAtt, or_notBeforeMs = nbf,
        or_windowExpiresAt = win, or_lastFingerprint = field_opt fs ''lastFingerprint'',
        or_unchangedSuccesses = parse_int (field_or fs ''unchangedSuccesses'' ''0''),
        or_notFoundCount = parse_int (field_or fs ''notFoundCount'' ''0''),
        or_lastError = field_opt fs ''lastError''\<rparr>))))))))"

definition serializeInboundEnvelope :: "InboundEnvelope \<Rightarrow> fields" where
  "serializeInboundEnvelope e =
     [(''envelopeId'', ie_envelopeId e),
      (''method'', ie_method e),
      (''path'', ie_path e),
      (''headers'', json_stringify (ie_headers e)),
      (''body'', ie_body e),
      (''remoteIp'', ie_remoteIp e),
      (''receivedAt'', show_num (ie_receivedAt e)),
      (''attempt'', show_num (ie_attempt e)),
      (''notBeforeMs'', show_num (ie_notBeforeMs e)),
      (''verification'', json_field_text (ie_verification e))]"

fun json_is_number :: "json \<Rightarrow> bool" where
  "json_is_number (JNum _) = True"
| "json_is_number (JFrac _) = True"
| "json_is_number _ = False"

fun json_is_string :: "json \<Rightarrow> bool" where
  "json_is_string (JStr _) = True"
| "json_is_string _ = False"

text \<open>Malformed verification metadata counts as absent: the native signature check then runs.\<close>

definition parseInboundVerification :: "string option \<Rightarrow> json option" where
  "parseInboundVerification raw =
     (case raw of
        None \<Rightarrow> None
      | Some t \<Rightarrow>
          if t = [] then None
          else (case json_parse t of
                  None \<Rightarrow> None
                | Some j \<Rightarrow>
                    if json_get ''source'' j \<noteq> Some (JStr ''fedify-v2'')
                      \<or> (case json_get ''actorUri'' j of None \<Rightarrow> True | Some v \<Rightarrow> \<not> json_is_string v)
                      \<or> (case json_get ''verifiedAt'' j of None \<Rightarrow> True | Some v \<Rightarrow> \<not> json_is_number v)
                    then None else Some j))"

definition deserializeInboundEnvelope :: "string \<Rightarrow> fields \<Rightarrow> ('w, InboundEnvelope) io" where
  "deserializeInboundEnvelope messageId fs =
     io_bind (requireField fs ''envelopeId'' messageId) (\<lambda>eid.
     io_bind (requireField fs ''method'' messageId) (\<lambda>mth.
     io_bind (requireField fs ''path'' messageId) (\<lambda>pth.
     io_bind (requireField fs ''headers'' messageId) (\<lambda>rawHeaders.
     io_bind (json_parse_io rawHeaders) (\<lambda>headers.
     io_bind (requireField fs ''body'' messageId) (\<lambda>bdy.
     io_bind (requireField fs ''remoteIp'' messageId) (\<lambda>ip.
     io_bind (requireInt fs ''receivedAt'' messageId) (\<lambda>received.
     io_return
       \<lparr>ie_envelopeId = eid, ie_method = mth, ie_path = pth, ie_headers = headers, ie_body = bdy,
        ie_remoteIp = ip, ie_receivedAt = received,
        ie_attempt = parse_int (field_or fs ''attempt'' ''0''),
        ie_notBeforeMs = parse_int (field_or fs ''notBeforeMs'' ''0''),
        ie_verification = parseInboundVerification (map_of fs ''verification'')\<rparr>))))))))"

section \<open>Objects as JSON\<close>

text \<open>\<open>JSON.stringify\<close> leaves out a property that is \<open>undefined\<close>.\<close>

definition json_opt :: "string \<Rightarrow> json option \<Rightarrow> (string \<times> json) list" where
  "json_opt k x = (case x of None \<Rightarrow> [] | Some j \<Rightarrow> [(k, j)])"

definition outbound_job_json :: "OutboundJob \<Rightarrow> json" where
  "outbound_job_json job = JObj
     ([(''jobId'', JStr (jobId job)), (''activityId'', JStr (activityId job)),
       (''actorUri'', JStr (actorUri job)), (''activity'', JStr (activity job)),
       (''targetInbox'', JStr (targetInbox job)), (''targetDomain'', JStr (targetDomain job)),
       (''attempt'', json_num (attempt job)), (''maxAttempts'', json_num (maxAttempts job)),
       (''notBeforeMs'', json_num (notBeforeMs job))]
      @ json_opt ''deferCount'' (map_option json_num (deferCount job))
      @ json_opt ''lastError'' (map_option JStr (lastError job))
      @ json_opt ''meta'' (meta job))"

definition outbox_intent_json :: "OutboxIntent \<Rightarrow> json" where
  "outbox_intent_json i = JObj
     ([(''intentId'', JStr (oi_intentId i)), (''activityId'', JStr (oi_activityId i)),
       (''actorUri'', JStr (oi_actorUri i)), (''activity'', JStr (oi_activity i)),
       (''targets'', JArr (oi_targets i)), (''createdAt'', json_num (oi_createdAt i)),
       (''attempt'', json_num (oi_attempt i)), (''maxAttempts'', json_num (oi_maxAttempts i)),
       (''notBeforeMs'', json_num (oi_notBeforeMs i))]
      @ json_opt ''lastError'' (map_option JStr (oi_lastError i))
      @ json_opt ''meta'' (oi_meta i) @ json_opt ''bridgeHints'' (oi_bridgeHints i))"

definition inbound_envelope_json :: "InboundEnvelope \<Rightarrow> json" where
  "inbound_envelope_json e = JObj
     ([(''envelopeId'', JStr (ie_envelopeId e)), (''method'', JStr (ie_method e)),
       (''path'', JStr (ie_path e)), (''headers'', ie_headers e), (''body'', JStr (ie_body e)),
       (''remoteIp'', JStr (ie_remoteIp e)), (''receivedAt'', json_num (ie_receivedAt e)),
       (''attempt'', json_num (ie_attempt e)), (''notBeforeMs'', json_num (ie_notBeforeMs e))]
      @ json_opt ''verification'' (ie_verification e))"

definition origin_job_json :: "OriginReconciliationJob \<Rightarrow> json" where
  "origin_job_json j = JObj
     ([(''jobId'', JStr (or_jobId j)), (''originObjectUrl'', JStr (or_originObjectUrl j))]
      @ json_opt ''canonicalObjectId'' (map_option JStr (or_canonicalObjectId j))
      @ json_opt ''actorUriHint'' (map_option JStr (or_actorUriHint j))
      @ [(''reason'', JStr (or_reason j)), (''createdAt'', json_num (or_createdAt j)),
         (''attempt'', json_num (or_attempt j)), (''maxAttempts'', json_num (or_maxAttempts j)),
         (''notBeforeMs'', json_num (or_notBeforeMs j)), (''windowExpiresAt'', json_num (or_windowExpiresAt j))]
      @ json_opt ''lastFingerprint'' (map_option JStr (or_lastFingerprint j))
      @ [(''unchangedSuccesses'', json_num (or_unchangedSuccesses j)),
         (''notFoundCount'', json_num (or_notFoundCount j))]
      @ json_opt ''lastError'' (map_option JStr (or_lastError j)))"

datatype dlq_data =
    DlqInbound InboundEnvelope
  | DlqOutbound OutboundJob
  | DlqIntent OutboxIntent
  | DlqOrigin OriginReconciliationJob

fun dlq_type :: "dlq_data \<Rightarrow> stream_type" where
  "dlq_type (DlqInbound _) = Inbound"
| "dlq_type (DlqOutbound _) = Outbound"
| "dlq_type (DlqIntent _) = Outbox_intent"
| "dlq_type (DlqOrigin _) = Origin_reconcile"

fun dlq_id :: "dlq_data \<Rightarrow> string" where
  "dlq_id (DlqInbound e) = ie_envelopeId e"
| "dlq_id (DlqOutbound j) = jobId j"
| "dlq_id (DlqIntent i) = oi_intentId i"
| "dlq_id (DlqOrigin j) = or_jobId j"

fun dlq_json :: "dlq_data \<Rightarrow> json" where
  "dlq_json (DlqInbound e) = inbound_envelope_json e"
| "dlq_json (DlqOutbound j) = outbound_job_json j"
| "dlq_json (DlqIntent i) = outbox_intent_json i"
| "dlq_json (DlqOrigin j) = origin_job_json j"

section \<open>Stream operations\<close>

definition connected :: "queue_config \<Rightarrow> ('s, 'a) io \<Rightarrow> ('s, 'a) io" where
  "connected c m = (if isConnected c then m else io_throw ''Queue not connected'')"

definition xadd_io :: "'s redis \<Rightarrow> string \<Rightarrow> nat \<Rightarrow> fields \<Rightarrow> ('s, string) io" where
  "xadd_io R key limit fs s = (Inr (r_new_id R key s), r_xadd R key limit fs s)"

fun xadd_all :: "'s redis \<Rightarrow> string \<Rightarrow> nat \<Rightarrow> fields list \<Rightarrow> 's \<Rightarrow> string list \<times> 's" where
  "xadd_all R key limit [] s = ([], s)"
| "xadd_all R key limit (fs # fss) s =
     (case xadd_all R key limit fss (r_xadd R key limit fs s) of
        (ids, s') \<Rightarrow> (r_new_id R key s # ids, s'))"

definition enqueueInbound :: "'s redis \<Rightarrow> queue_config \<Rightarrow> InboundEnvelope \<Rightarrow> ('s, unit) io" where
  "enqueueInbound R c envelope =
     connected c (io_bind (xadd_io R (inboundStreamKey c) (maxStreamLength c) (serializeInboundEnvelope envelope))
       (\<lambda>_. io_return ()))"

text \<open>Each distinct activity text is encoded once; the cache is an association list.\<close>

definition encodeActivityCached ::
  "(string \<Rightarrow> string + string) \<Rightarrow> string \<Rightarrow> (string \<times> string) list \<Rightarrow> string + (string \<times> (string \<times> string) list)" where
  "encodeActivityCached enc text cache =
     (case map_of cache text of
        Some existing \<Rightarrow> Inr (existing, cache)
      | None \<Rightarrow>
          (case enc text of
             Inl e \<Rightarrow> Inl e
           | Inr encoded \<Rightarrow> Inr (encoded, (text, encoded) # cache)))"

fun serialize_jobs ::
  "(string \<Rightarrow> string + string) \<Rightarrow> OutboundJob list \<Rightarrow> (string \<times> string) list \<Rightarrow>
   string + (fields list \<times> (string \<times> string) list)" where
  "serialize_jobs enc [] cache = Inr ([], cache)"
| "serialize_jobs enc (job # jobs) cache =
     (case encodeActivityCached enc (activity job) cache of
        Inl e \<Rightarrow> Inl e
      | Inr (encoded, cache1) \<Rightarrow>
          (case serialize_jobs enc jobs cache1 of
             Inl e \<Rightarrow> Inl e
           | Inr (fss, cache2) \<Rightarrow> Inr (serializeOutboundJob job encoded # fss, cache2)))"

text \<open>
  Chunks of 250 jobs are serialised and sent one \<open>MULTI\<close> at a time: an activity that cannot be
  encoded aborts its chunk before anything of it is sent, but leaves the earlier chunks sent.
\<close>

definition OUTBOUND_CHUNK_SIZE :: nat where
  "OUTBOUND_CHUNK_SIZE = 250"

function enqueue_chunks ::
  "'s redis \<Rightarrow> (string \<Rightarrow> string + string) \<Rightarrow> queue_config \<Rightarrow> OutboundJob list \<Rightarrow>
   (string \<times> string) list \<Rightarrow> string list \<Rightarrow> ('s, string list) io" where
  "enqueue_chunks R enc c jobs cache messageIds s =
     (if jobs = [] then (Inr messageIds, s)
      else case serialize_jobs enc (take OUTBOUND_CHUNK_SIZE jobs) cache of
        Inl e \<Rightarrow> (Inl e, s)
      | Inr (fss, cache') \<Rightarrow>
          (case xadd_all R (outboundStreamKey c) (maxStreamLength c) fss s of
             (ids, s') \<Rightarrow>
               enqueue_chunks R enc c (drop OUTBOUND_CHUNK_SIZE jobs) cache' (messageIds @ ids) s'))"
  by pat_completeness auto
termination
  by (relation "measure (\<lambda>(R, enc, c, jobs, cache, ids, s). length jobs)") (auto simp: OUTBOUND_CHUNK_SIZE_def)

declare enqueue_chunks.simps [simp del]

definition core_enqueueOutboundBatch ::
  "'s redis \<Rightarrow> (string \<Rightarrow> string + string) \<Rightarrow> queue_config \<Rightarrow> OutboundJob list \<Rightarrow> ('s, string list) io" where
  "core_enqueueOutboundBatch R enc c jobs =
     connected c (if jobs = [] then io_return [] else enqueue_chunks R enc c jobs [] [])"

definition core_enqueueOutbound ::
  "'s redis \<Rightarrow> (string \<Rightarrow> string + string) \<Rightarrow> queue_config \<Rightarrow> OutboundJob \<Rightarrow> ('s, unit) io" where
  "core_enqueueOutbound R enc c job = io_bind (core_enqueueOutboundBatch R enc c [job]) (\<lambda>_. io_return ())"

definition enqueueOutboxIntent ::
  "'s redis \<Rightarrow> (string \<Rightarrow> string + string) \<Rightarrow> queue_config \<Rightarrow> OutboxIntent \<Rightarrow> ('s, string) io" where
  "enqueueOutboxIntent R enc c intent =
     connected c (case serializeOutboxIntent enc intent of
        Inl e \<Rightarrow> io_throw e
      | Inr fs \<Rightarrow> xadd_io R (outboxIntentStreamKey c) (maxStreamLength c) fs)"

definition enqueueOriginReconciliation ::
  "'s redis \<Rightarrow> queue_config \<Rightarrow> OriginReconciliationJob \<Rightarrow> ('s, string) io" where
  "enqueueOriginReconciliation R c job =
     connected c (xadd_io R (originReconcileStreamKey c) (maxStreamLength c) (serializeOriginReconciliationJob job))"

definition ack :: "'s redis \<Rightarrow> queue_config \<Rightarrow> stream_type \<Rightarrow> string \<Rightarrow> ('s, unit) io" where
  "ack R c t messageId =
     connected c (\<lambda>s. (Inr (), r_xack R (stream_key c t) (consumerGroup c) messageId s))"

definition moveToDlq :: "'s redis \<Rightarrow> queue_config \<Rightarrow> dlq_data \<Rightarrow> string \<Rightarrow> int \<Rightarrow> ('s, unit) io" where
  "moveToDlq R c dat reason nowMs =
     connected c (io_bind
       (xadd_io R (dlq_key c (dlq_type dat)) (maxDlqLength c)
          [(''type'', type_name (dlq_type dat)),
           (''id'', dlq_id dat),
           (''reason'', reason),
           (''timestamp'', show_int nowMs),
           (''data'', json_stringify (dlq_json dat))])
       (\<lambda>_. io_return ()))"

section \<open>Consumer rounds\<close>

text \<open>
  What the client library returns for \<open>XAUTOCLAIM\<close>: arrays of two, objects with an id and a
  message, anything else.
\<close>

datatype claimed_entry =
    EntryPair string fields
  | EntryObject "string option" "fields option"
  | EntryOther

fun normalizeClaimedMessages :: "claimed_entry list option \<Rightarrow> (string \<times> fields) list" where
  "normalizeClaimedMessages None = []"
| "normalizeClaimedMessages (Some []) = []"
| "normalizeClaimedMessages (Some (EntryPair i fs # es)) = (i, fs) # normalizeClaimedMessages (Some es)"
| "normalizeClaimedMessages (Some (EntryObject (Some i) (Some fs) # es)) = (i, fs) # normalizeClaimedMessages (Some es)"
| "normalizeClaimedMessages (Some (_ # es)) = normalizeClaimedMessages (Some es)"

datatype stream_read =
    StreamPair string "(string \<times> fields) list"
  | StreamObject "string option" "claimed_entry list option"
  | StreamOther

fun normalizeStreamRead :: "stream_read list option \<Rightarrow> (string \<times> (string \<times> fields) list) list" where
  "normalizeStreamRead None = []"
| "normalizeStreamRead (Some []) = []"
| "normalizeStreamRead (Some (StreamPair n ms # ss)) = (n, ms) # normalizeStreamRead (Some ss)"
| "normalizeStreamRead (Some (StreamObject (Some n) ms # ss)) =
     (n, normalizeClaimedMessages ms) # normalizeStreamRead (Some ss)"
| "normalizeStreamRead (Some (_ # ss)) = normalizeStreamRead (Some ss)"

text \<open>
  One pass of the \<open>while\<close> loop over the claimed and the newly read messages, as the list of values
  it yields.  \<open>consumeOutbound\<close> and \<open>consumeOutboxIntents\<close> catch the error of each message;
  in \<open>consumeInbound\<close> and \<open>consumeOriginReconciliation\<close> the first error ends the pass.
\<close>

fun round_lenient :: "(string \<Rightarrow> fields \<Rightarrow> ('w, 'j) io) \<Rightarrow> (string \<times> fields) list \<Rightarrow> 'w \<Rightarrow> (string \<times> 'j) list \<times> 'w" where
  "round_lenient deser [] st = ([], st)"
| "round_lenient deser ((i, fs) # ms) st =
     (case deser i fs st of
        (Inl _, st') \<Rightarrow> round_lenient deser ms st'
      | (Inr j, st') \<Rightarrow> (case round_lenient deser ms st' of (ys, st'') \<Rightarrow> ((i, j) # ys, st'')))"

fun round_strict :: "(string \<Rightarrow> fields \<Rightarrow> string + 'j) \<Rightarrow> (string \<times> fields) list \<Rightarrow> (string \<times> 'j) list \<times> bool" where
  "round_strict deser [] = ([], True)"
| "round_strict deser ((i, fs) # ms) =
     (case deser i fs of
        Inl _ \<Rightarrow> ([], False)
      | Inr j \<Rightarrow> (case round_strict deser ms of (ys, ok) \<Rightarrow> ((i, j) # ys, ok)))"

definition stream_messages :: "stream_read list option \<Rightarrow> (string \<times> fields) list" where
  "stream_messages messages = concat (map snd (normalizeStreamRead messages))"

definition core_consumeOutbound_round ::
  "(string \<Rightarrow> ('w, string) io) \<Rightarrow> claimed_entry list option \<Rightarrow> stream_read list option \<Rightarrow> 'w \<Rightarrow>
   (string \<times> OutboundJob) list \<times> 'w" where
  "core_consumeOutbound_round dec pending messages st =
     (case round_lenient (deserializeOutboundJob dec) (normalizeClaimedMessages pending) st of
        (ys, st1) \<Rightarrow>
          (case round_lenient (deserializeOutboundJob dec) (stream_messages messages) st1 of
             (zs, st2) \<Rightarrow> (ys @ zs, st2)))"

definition consumeOutboxIntents_round ::
  "(string \<Rightarrow> ('w, string) io) \<Rightarrow> claimed_entry list option \<Rightarrow> stream_read list option \<Rightarrow> 'w \<Rightarrow>
   (string \<times> OutboxIntent) list \<times> 'w" where
  "consumeOutboxIntents_round dec pending messages st =
     (case round_lenient (deserializeOutboxIntent dec) (normalizeClaimedMessages pending) st of
        (ys, st1) \<Rightarrow>
          (case round_lenient (deserializeOutboxIntent dec) (stream_messages messages) st1 of
             (zs, st2) \<Rightarrow> (ys @ zs, st2)))"

definition strict_round ::
  "(string \<Rightarrow> fields \<Rightarrow> string + 'j) \<Rightarrow> claimed_entry list option \<Rightarrow> stream_read list option \<Rightarrow> (string \<times> 'j) list" where
  "strict_round deser pending messages =
     (case round_strict deser (normalizeClaimedMessages pending) of
        (ys, ok) \<Rightarrow> if ok then ys @ fst (round_strict deser (stream_messages messages)) else ys)"

definition consumeInbound_round ::
  "claimed_entry list option \<Rightarrow> stream_read list option \<Rightarrow> (string \<times> InboundEnvelope) list" where
  "consumeInbound_round = strict_round (\<lambda>i fs. fst (deserializeInboundEnvelope i fs ()))"

definition consumeOriginReconciliation_round ::
  "claimed_entry list option \<Rightarrow> stream_read list option \<Rightarrow> (string \<times> OriginReconciliationJob) list" where
  "consumeOriginReconciliation_round = strict_round (\<lambda>i fs. fst (deserializeOriginReconciliationJob i fs ()))"

section \<open>Idempotency, reconciliation claims, actor cache\<close>

definition set_nx :: "'s redis \<Rightarrow> string \<Rightarrow> string \<Rightarrow> int \<Rightarrow> ('s, bool) io" where
  "set_nx R key v ttlSeconds s =
     (if r_exists R key s then (Inr False, s) else (Inr True, r_set_px R key v (1000 * ttlSeconds) s))"

definition idempotencyKey :: "string \<Rightarrow> string" where
  "idempotencyKey j = ''ap:idempotency:outbound:'' @ j"

definition checkIdempotency :: "'s redis \<Rightarrow> queue_config \<Rightarrow> OutboundJob \<Rightarrow> ('s, bool) io" where
  "checkIdempotency R c job = connected c (set_nx R (idempotencyKey (jobId job)) ''1'' 86400)"

definition clearIdempotency :: "'s redis \<Rightarrow> queue_config \<Rightarrow> OutboundJob \<Rightarrow> ('s, unit) io" where
  "clearIdempotency R c job = connected c (\<lambda>s. (Inr (), r_del R (idempotencyKey (jobId job)) s))"

text \<open>\<open>uri\<close> is \<open>encodeURIComponent\<close>.\<close>

definition claimOriginReconciliation ::
  "'s redis \<Rightarrow> (string \<Rightarrow> string) \<Rightarrow> queue_config \<Rightarrow> string \<Rightarrow> int \<Rightarrow> ('s, bool) io" where
  "claimOriginReconciliation R uri c originObjectUrl ttlSeconds =
     connected c (set_nx R (''ap:origin-reconcile:claim:'' @ uri originObjectUrl) ''1'' ttlSeconds)"

definition markOriginReconciliationApplied ::
  "'s redis \<Rightarrow> (string \<Rightarrow> string) \<Rightarrow> queue_config \<Rightarrow> string \<Rightarrow> string \<Rightarrow> int \<Rightarrow> ('s, bool) io" where
  "markOriginReconciliationApplied R uri c objectKey fingerprint ttlSeconds =
     connected c (set_nx R (''ap:origin-reconcile:apply:'' @ uri objectKey @ '':'' @ fingerprint) ''1'' ttlSeconds)"

definition cacheActorDoc :: "'s redis \<Rightarrow> queue_config \<Rightarrow> string \<Rightarrow> json \<Rightarrow> int \<Rightarrow> ('s, unit) io" where
  "cacheActorDoc R c actorUri' document ttlSeconds =
     connected c (\<lambda>s. (Inr (), r_set_px R (''ap:actor:'' @ actorUri') (json_stringify document) (1000 * ttlSeconds) s))"

definition getCachedActorDoc :: "'s redis \<Rightarrow> queue_config \<Rightarrow> string \<Rightarrow> ('s, json option) io" where
  "getCachedActorDoc R c actorUri' =
     connected c (\<lambda>s. (case r_get R (''ap:actor:'' @ actorUri') s of
        None \<Rightarrow> (Inr None, s)
      | Some raw \<Rightarrow> if raw = [] then (Inr None, s)
                    else io_bind (json_parse_io raw) (\<lambda>j. io_return (Some j)) s))"

section \<open>Domain control\<close>

definition blockedKey :: "string \<Rightarrow> string" where
  "blockedKey domain = ''ap:domain:blocked:'' @ domain"

definition isDomainBlocked :: "'s redis \<Rightarrow> queue_config \<Rightarrow> string \<Rightarrow> ('s, bool) io" where
  "isDomainBlocked R c domain = connected c (\<lambda>s. (Inr (r_exists R (blockedKey domain) s), s))"

definition blockDomain :: "'s redis \<Rightarrow> queue_config \<Rightarrow> string \<Rightarrow> int \<Rightarrow> ('s, unit) io" where
  "blockDomain R c domain ttlSeconds =
     connected c (\<lambda>s. (Inr (), r_set_px R (blockedKey domain) ''1'' (1000 * ttlSeconds) s))"

definition unblockDomain :: "'s redis \<Rightarrow> queue_config \<Rightarrow> string \<Rightarrow> ('s, unit) io" where
  "unblockDomain R c domain = connected c (\<lambda>s. (Inr (), r_del R (blockedKey domain) s))"

definition rateKey :: "string \<Rightarrow> string" where
  "rateKey domain = ''ap:ratelimit:'' @ domain"

definition rate_script :: "'s redis \<Rightarrow> string \<Rightarrow> int \<Rightarrow> 's \<Rightarrow> int \<times> 's" where
  "rate_script R key windowSeconds s =
     (let s1 = r_incrby R key 1 s; current = r_counter R key s1
      in (current, if current = 1 then r_expire R key windowSeconds s1 else s1))"

definition checkDomainRateLimit :: "'s redis \<Rightarrow> queue_config \<Rightarrow> string \<Rightarrow> int \<Rightarrow> int \<Rightarrow> ('s, bool) io" where
  "checkDomainRateLimit R c domain limit windowSeconds =
     connected c (\<lambda>s. (case rate_script R (rateKey domain) windowSeconds s of
        (current, s') \<Rightarrow> (Inr (current \<le> limit), s')))"

definition slotsKey :: "string \<Rightarrow> string" where
  "slotsKey domain = ''ap:domain:slots:'' @ domain"

definition slot_script :: "'s redis \<Rightarrow> string \<Rightarrow> int \<Rightarrow> 's \<Rightarrow> int \<times> 's" where
  "slot_script R key maxConcurrent s =
     (let s1 = r_incrby R key 1 s;
          current = r_counter R key s1;
          s2 = (if current = 1 then r_expire R key 3600 s1 else s1)
      in if current > maxConcurrent then (0, r_incrby R key (- 1) s2) else (1, s2))"

definition acquireDomainSlot :: "'s redis \<Rightarrow> queue_config \<Rightarrow> string \<Rightarrow> int \<Rightarrow> ('s, bool) io" where
  "acquireDomainSlot R c domain maxConcurrent =
     connected c (\<lambda>s. (case slot_script R (slotsKey domain) maxConcurrent s of (r, s') \<Rightarrow> (Inr (r = 1), s')))"

definition releaseDomainSlot :: "'s redis \<Rightarrow> queue_config \<Rightarrow> string \<Rightarrow> ('s, unit) io" where
  "releaseDomainSlot R c domain = connected c (\<lambda>s. (Inr (), r_incrby R (slotsKey domain) (- 1) s))"

section \<open>Outbox intent state and fan-out\<close>

definition outboxIntentStateKey :: "string \<Rightarrow> string" where
  "outboxIntentStateKey intentId = ''ap:outbox-intent:state:'' @ intentId"

definition INTENT_STATE_TTL_SECONDS :: int where
  "INTENT_STATE_TTL_SECONDS = 60 * 60 * 24 * 7"

definition hash_int :: "'s redis \<Rightarrow> string \<Rightarrow> string \<Rightarrow> 's \<Rightarrow> jsnum option" where
  "hash_int R key f s =
     (case r_hget R key f s of None \<Rightarrow> None | Some v \<Rightarrow> if v = [] then None else Some (parse_int v))"

definition getOutboxIntentState :: "'s redis \<Rightarrow> queue_config \<Rightarrow> string \<Rightarrow> ('s, OutboxIntentState) io" where
  "getOutboxIntentState R c intentId =
     connected c (\<lambda>s. (let k = outboxIntentStateKey intentId in
       (Inr \<lparr>eventLogPublishedAt = hash_int R k ''eventLogPublishedAt'' s,
             outboundEnqueuedAt = hash_int R k ''outboundEnqueuedAt'' s,
             completedAt = hash_int R k ''completedAt'' s,
             jobCount = hash_int R k ''jobCount'' s\<rparr>, s)))"

definition markOutboxIntentEventLogPublished :: "'s redis \<Rightarrow> queue_config \<Rightarrow> string \<Rightarrow> int \<Rightarrow> ('s, unit) io" where
  "markOutboxIntentEventLogPublished R c intentId publishedAt =
     connected c (\<lambda>s. (let k = outboxIntentStateKey intentId in
       (Inr (), r_expire R k INTENT_STATE_TTL_SECONDS
          (r_hset R k ''eventLogPublishedAt'' (show_int publishedAt) s))))"

definition markOutboxIntentCompleted :: "'s redis \<Rightarrow> queue_config \<Rightarrow> string \<Rightarrow> int \<Rightarrow> ('s, unit) io" where
  "markOutboxIntentCompleted R c intentId completed =
     connected c (\<lambda>s. (let k = outboxIntentStateKey intentId in
       (Inr (), r_expire R k INTENT_STATE_TTL_SECONDS
          (r_hset R k ''completedAt'' (show_int completed) s))))"

definition fanout_script ::
  "'s redis \<Rightarrow> string \<Rightarrow> string \<Rightarrow> nat \<Rightarrow> string \<Rightarrow> fields list \<Rightarrow> 's \<Rightarrow> (bool \<times> string) \<times> 's" where
  "fanout_script R stateKey outKey limit nowText fss s =
     (if r_hget R stateKey ''outboundEnqueuedAt'' s \<noteq> None then
        ((False, or_else (r_hget R stateKey ''jobCount'' s) (show_nat (length fss))), s)
      else
        (let s1 = snd (xadd_all R outKey limit fss s);
             s2 = r_hset R stateKey ''jobCount'' (show_nat (length fss))
                    (r_hset R stateKey ''outboundEnqueuedAt'' nowText s1)
         in ((True, show_nat (length fss)), r_expire R stateKey 604800 s2)))"

definition enqueueOutboundBatchForIntent ::
  "'s redis \<Rightarrow> (string \<Rightarrow> string + string) \<Rightarrow> queue_config \<Rightarrow> string \<Rightarrow> OutboundJob list \<Rightarrow> int \<Rightarrow>
   ('s, bool \<times> jsnum) io" where
  "enqueueOutboundBatchForIntent R enc c intentId jobs nowMs =
     connected c (\<lambda>s. let stateKey = outboxIntentStateKey intentId in
       if jobs = [] then
         (Inr (True, Num 0),
          r_expire R stateKey INTENT_STATE_TTL_SECONDS
            (r_hset R stateKey ''jobCount'' ''0'' (r_hset R stateKey ''outboundEnqueuedAt'' (show_int nowMs) s)))
       else
         (case serialize_jobs enc jobs [] of
            Inl e \<Rightarrow> (Inl e, s)
          | Inr (fss, _) \<Rightarrow>
              (case fanout_script R stateKey (outboundStreamKey c) (maxStreamLength c) (show_int nowMs) fss s of
                 ((enqueued, count), s') \<Rightarrow> (Inr (enqueued, parse_int count), s'))))"

section \<open>Factories\<close>

definition createInboundEnvelope ::
  "string \<Rightarrow> int \<Rightarrow> string \<Rightarrow> string \<Rightarrow> json \<Rightarrow> string \<Rightarrow> string \<Rightarrow> json option \<Rightarrow> InboundEnvelope" where
  "createInboundEnvelope uuid nowMs mth pth headers bdy ip verification =
     \<lparr>ie_envelopeId = uuid, ie_method = mth, ie_path = pth, ie_headers = headers, ie_body = bdy,
      ie_remoteIp = ip, ie_receivedAt = Num nowMs, ie_attempt = Num 0, ie_notBeforeMs = Num 0,
      ie_verification = verification\<rparr>"

definition createVerifiedInboundEnvelope ::
  "string \<Rightarrow> int \<Rightarrow> string \<Rightarrow> string \<Rightarrow> string \<Rightarrow> string \<Rightarrow> jsnum option \<Rightarrow> json option \<Rightarrow> InboundEnvelope" where
  "createVerifiedInboundEnvelope uuid nowMs pth bdy ip verifiedActorUri verifiedAt headers =
     createInboundEnvelope uuid nowMs ''POST'' pth (or_else headers (JObj [])) bdy ip
       (Some (JObj [(''source'', JStr ''fedify-v2''), (''actorUri'', JStr verifiedActorUri),
                    (''verifiedAt'', json_num (or_else verifiedAt (Num nowMs)))]))"

definition createOutboxIntent ::
  "(string \<Rightarrow> string option) \<Rightarrow> string \<Rightarrow> int \<Rightarrow> string option \<Rightarrow> string \<Rightarrow> string \<Rightarrow> string \<Rightarrow> json list \<Rightarrow>
   json option \<Rightarrow> json option \<Rightarrow> OutboxIntent" where
  "createOutboxIntent env uuid nowMs intentId aid actor act targets m hints =
     \<lparr>oi_intentId = or_else intentId uuid, oi_activityId = aid, oi_actorUri = actor, oi_activity = act,
      oi_targets = targets, oi_createdAt = Num nowMs, oi_attempt = Num 0,
      oi_maxAttempts = env_int env ''OUTBOX_INTENT_MAX_ATTEMPTS'' 8, oi_notBeforeMs = Num 0,
      oi_lastError = None, oi_meta = m, oi_bridgeHints = hints\<rparr>"

fun backoffMs :: "jsnum \<Rightarrow> int" where
  "backoffMs n =
     (if js_le n (Num 2) then 60 * 1000
      else if js_le n (Num 4) then 5 * 60 * 1000
      else if js_le n (Num 6) then 30 * 60 * 1000
      else 2 * 60 * 60 * 1000)"

section \<open>Reading back what was written\<close>

lemma parse_show_num: "x \<noteq> PosInf \<Longrightarrow> x \<noteq> NegInf \<Longrightarrow> parse_int (show_num x) = x"
proof (cases x)
  case NaN
  then show ?thesis by (simp add: parse_int_def js_space_def js_digit_def)
qed simp_all

lemma show_num_nonempty [simp]: "show_num x \<noteq> []"
  by (cases x) auto

text \<open>Finite (or \<open>NaN\<close>) counters and JSON values that survive \<open>x ? JSON.stringify(x) : ""\<close>.\<close>

definition stored_num :: "jsnum \<Rightarrow> bool" where
  "stored_num x \<longleftrightarrow> x \<noteq> PosInf \<and> x \<noteq> NegInf"

definition stored_json :: "json option \<Rightarrow> bool" where
  "stored_json x \<longleftrightarrow> (case x of None \<Rightarrow> True | Some j \<Rightarrow> json_plain j \<and> json_truthy j)"

lemma stored_num_text: "stored_num x \<Longrightarrow> parse_int (show_num x) = x"
  by (simp add: stored_num_def parse_show_num)

lemma json_stringify_nonempty: "json_plain j \<Longrightarrow> json_stringify j \<noteq> []"
  using stringify_length by fastforce

lemma stored_json_text:
  assumes "stored_json x" and "map_of fs k = Some (json_field_text x)"
  shows "json_field fs k w = (Inr x, w)"
  using assms json_parse_stringify json_stringify_nonempty
  by (auto simp: json_field_def field_opt_def stored_json_def json_field_text_def json_parse_io_def
      io_return_def io_bind_def split: option.splits)

definition text_opt :: "string option \<Rightarrow> string option" where
  "text_opt x = (if x = Some [] then None else x)"

lemma field_opt_text: "map_of fs k = Some (or_else x []) \<Longrightarrow> field_opt fs k = text_opt x"
  by (auto simp: field_opt_def text_opt_def or_else_def split: option.splits)

lemma field_or_text: "map_of fs k = Some v \<Longrightarrow> v \<noteq> [] \<Longrightarrow> field_or fs k d = v"
  by (simp add: field_or_def)

definition stored_job :: "OutboundJob \<Rightarrow> OutboundJob" where
  "stored_job job = job\<lparr>deferCount := Some (or_else (deferCount job) (Num 0)), lastError := text_opt (lastError job)\<rparr>"

definition writable_job :: "OutboundJob \<Rightarrow> bool" where
  "writable_job job \<longleftrightarrow> stored_num (attempt job) \<and> stored_num (maxAttempts job) \<and> stored_num (notBeforeMs job)
     \<and> stored_num (or_else (deferCount job) (Num 0)) \<and> stored_json (meta job)"

definition stored_intent :: "OutboxIntent \<Rightarrow> OutboxIntent" where
  "stored_intent i = i\<lparr>oi_lastError := text_opt (oi_lastError i)\<rparr>"

definition writable_intent :: "OutboxIntent \<Rightarrow> bool" where
  "writable_intent i \<longleftrightarrow> stored_num (oi_createdAt i) \<and> stored_num (oi_attempt i) \<and> stored_num (oi_maxAttempts i)
     \<and> stored_num (oi_notBeforeMs i) \<and> stored_json (oi_meta i) \<and> stored_json (oi_bridgeHints i)
     \<and> list_all json_plain (oi_targets i)"

definition stored_origin :: "OriginReconciliationJob \<Rightarrow> OriginReconciliationJob" where
  "stored_origin j = j\<lparr>or_canonicalObjectId := text_opt (or_canonicalObjectId j),
     or_actorUriHint := text_opt (or_actorUriHint j), or_lastFingerprint := text_opt (or_lastFingerprint j),
     or_lastError := text_opt (or_lastError j)\<rparr>"

definition writable_origin :: "OriginReconciliationJob \<Rightarrow> bool" where
  "writable_origin j \<longleftrightarrow> list_all stored_num
     [or_createdAt j, or_attempt j, or_maxAttempts j, or_notBeforeMs j, or_windowExpiresAt j,
      or_unchangedSuccesses j, or_notFoundCount j]"

definition writable_inbound :: "InboundEnvelope \<Rightarrow> bool" where
  "writable_inbound e \<longleftrightarrow> list_all stored_num [ie_receivedAt e, ie_attempt e, ie_notBeforeMs e]
     \<and> json_plain (ie_headers e)
     \<and> (case ie_verification e of None \<Rightarrow> True
        | Some j \<Rightarrow> json_plain j \<and> json_truthy j \<and> parseInboundVerification (Some (json_stringify j)) = Some j)"

lemma require_present [simp]:
  "map_of fs k = Some v \<Longrightarrow> requireField fs k i w = (Inr v, w)"
  "map_of fs k = Some v \<Longrightarrow> requireInt fs k i w = (Inr (parse_int v), w)"
  by (simp_all add: requireField_def requireInt_def io_return_def io_bind_def)

lemma outbound_read_back:
  assumes "writable_job job" and "dec e st = (Inr (activity job), st')"
  shows "deserializeOutboundJob dec i (serializeOutboundJob job e) st = (Inr (stored_job job), st')"
proof -
  define fs where "fs = serializeOutboundJob job e"
  have fs: "map_of fs ''jobId'' = Some (jobId job)"
    "map_of fs ''activityId'' = Some (activityId job)"
    "map_of fs ''actorUri'' = Some (actorUri job)"
    "map_of fs ''activity'' = Some (e)"
    "map_of fs ''targetInbox'' = Some (targetInbox job)"
    "map_of fs ''targetDomain'' = Some (targetDomain job)"
    "map_of fs ''attempt'' = Some (show_num (attempt job))"
    "map_of fs ''maxAttempts'' = Some (show_num (maxAttempts job))"
    "map_of fs ''notBeforeMs'' = Some (show_num (notBeforeMs job))"
    "map_of fs ''deferCount'' = Some (show_num (or_else (deferCount job) (Num 0)))"
    "map_of fs ''lastError'' = Some (or_else (lastError job) [])"
    "map_of fs ''meta'' = Some (json_field_text (meta job))"
    by (simp_all add: fs_def serializeOutboundJob_def)
  have m: "stored_json (meta job)" using assms(1) by (simp add: writable_job_def)
  show ?thesis
    using assms unfolding fs_def [symmetric]
    by (simp add: stored_json_text [OF m fs(12)] deserializeOutboundJob_def fs field_opt_text field_or_text io_bind_def io_return_def
        stored_job_def writable_job_def stored_num_text)
qed

lemma intent_read_back:
  assumes "writable_intent i" and "serializeOutboxIntent enc i = Inr fs"
    and "\<And>v e st. enc v = Inr e \<Longrightarrow> v = oi_activity i \<or> v = json_stringify (JArr (oi_targets i)) \<Longrightarrow>
      P st \<Longrightarrow> fst (dec e st) = Inr v \<and> P (snd (dec e st))"
    and "P st"
  shows "fst (deserializeOutboxIntent dec k fs st) = Inr (stored_intent i)"
proof -
  define tt where "tt = json_stringify (JArr (oi_targets i))"
  obtain a t where at: "enc (oi_activity i) = Inr a" "enc tt = Inr t"
    using assms(2) unfolding serializeOutboxIntent_def tt_def [symmetric] by (auto split: sum.splits)
  have fs: "map_of fs ''intentId'' = Some (oi_intentId i)" "map_of fs ''activityId'' = Some (oi_activityId i)"
    "map_of fs ''actorUri'' = Some (oi_actorUri i)" "map_of fs ''activity'' = Some a"
    "map_of fs ''targets'' = Some t" "map_of fs ''createdAt'' = Some (show_num (oi_createdAt i))"
    "map_of fs ''attempt'' = Some (show_num (oi_attempt i))"
    "map_of fs ''maxAttempts'' = Some (show_num (oi_maxAttempts i))"
    "map_of fs ''notBeforeMs'' = Some (show_num (oi_notBeforeMs i))"
    "map_of fs ''lastError'' = Some (or_else (oi_lastError i) [])"
    "map_of fs ''meta'' = Some (json_field_text (oi_meta i))"
    "map_of fs ''bridgeHints'' = Some (json_field_text (oi_bridgeHints i))"
    using assms(2) unfolding serializeOutboxIntent_def tt_def [symmetric] by (auto simp: at)
  have w: "stored_json (oi_meta i)" "stored_json (oi_bridgeHints i)" "list_all json_plain (oi_targets i)"
    using assms(1) by (simp_all add: writable_intent_def)
  obtain s1 where s1: "dec t st = (Inr tt, s1)" "P s1"
    using assms(3) [OF at(2) disjI2 [OF tt_def] assms(4)] by (metis prod.collapse)
  obtain s2 where s2: "dec a s1 = (Inr (oi_activity i), s2)" "P s2"
    using assms(3) [OF at(1) disjI1 [OF refl] s1(2)] by (metis prod.collapse)
  have p: "parse_targets k tt w = (Inr (oi_targets i), w)" for w
    using json_parse_stringify [of "JArr (oi_targets i)"] w(3)
    unfolding tt_def [symmetric] by (simp add: parse_targets_def json_parse_io_def io_bind_def io_return_def)
  show ?thesis
    using assms(1)
    by (simp add: stored_json_text [OF w(1) fs(11)] stored_json_text [OF w(2) fs(12)] deserializeOutboxIntent_def fs s1 s2 p io_bind_def io_return_def field_opt_text
        stored_intent_def writable_intent_def stored_num_text)
qed

lemma origin_read_back:
  assumes "writable_origin j"
  shows "fst (deserializeOriginReconciliationJob k (serializeOriginReconciliationJob j) w) = Inr (stored_origin j)"
proof -
  define fs where "fs = serializeOriginReconciliationJob j"
  have fs: "map_of fs ''jobId'' = Some (or_jobId j)"
    "map_of fs ''originObjectUrl'' = Some (or_originObjectUrl j)"
    "map_of fs ''canonicalObjectId'' = Some (or_else (or_canonicalObjectId j) [])"
    "map_of fs ''actorUriHint'' = Some (or_else (or_actorUriHint j) [])"
    "map_of fs ''reason'' = Some (or_reason j)"
    "map_of fs ''createdAt'' = Some (show_num (or_createdAt j))"
    "map_of fs ''attempt'' = Some (show_num (or_attempt j))"
    "map_of fs ''maxAttempts'' = Some (show_num (or_maxAttempts j))"
    "map_of fs ''notBeforeMs'' = Some (show_num (or_notBeforeMs j))"
    "map_of fs ''windowExpiresAt'' = Some (show_num (or_windowExpiresAt j))"
    "map_of fs ''lastFingerprint'' = Some (or_else (or_lastFingerprint j) [])"
    "map_of fs ''unchangedSuccesses'' = Some (show_num (or_unchangedSuccesses j))"
    "map_of fs ''notFoundCount'' = Some (show_num (or_notFoundCount j))"
    "map_of fs ''lastError'' = Some (or_else (or_lastError j) [])"
    by (simp_all add: fs_def serializeOriginReconciliationJob_def)
  show ?thesis
    using assms unfolding fs_def [symmetric]
    by (simp add: deserializeOriginReconciliationJob_def fs field_opt_text field_or_text io_bind_def io_return_def
        stored_origin_def writable_origin_def stored_num_text)
qed

lemma inbound_read_back:
  assumes "writable_inbound e"
  shows "fst (deserializeInboundEnvelope k (serializeInboundEnvelope e) w) = Inr e"
proof -
  define fs where "fs = serializeInboundEnvelope e"
  have fs: "map_of fs ''envelopeId'' = Some (ie_envelopeId e)"
    "map_of fs ''method'' = Some (ie_method e)"
    "map_of fs ''path'' = Some (ie_path e)"
    "map_of fs ''headers'' = Some (json_stringify (ie_headers e))"
    "map_of fs ''body'' = Some (ie_body e)"
    "map_of fs ''remoteIp'' = Some (ie_remoteIp e)"
    "map_of fs ''receivedAt'' = Some (show_num (ie_receivedAt e))"
    "map_of fs ''attempt'' = Some (show_num (ie_attempt e))"
    "map_of fs ''notBeforeMs'' = Some (show_num (ie_notBeforeMs e))"
    "map_of fs ''verification'' = Some (json_field_text (ie_verification e))"
    by (simp_all add: fs_def serializeInboundEnvelope_def)
  have h: "json_parse_io (json_stringify (ie_headers e)) w = (Inr (ie_headers e), w)" for w
    using assms json_parse_stringify by (simp add: json_parse_io_def writable_inbound_def io_return_def)
  have v: "parseInboundVerification (map_of fs ''verification'') = ie_verification e"
  proof (cases "ie_verification e")
    case None
    then show ?thesis by (simp add: fs json_field_text_def parseInboundVerification_def)
  next
    case (Some j)
    then show ?thesis using assms by (simp add: fs json_field_text_def writable_inbound_def)
  qed
  show ?thesis
    using assms unfolding fs_def [symmetric]
    by (simp add: deserializeInboundEnvelope_def fs field_or_text io_bind_def io_return_def h
        v [unfolded fs(10)] writable_inbound_def stored_num_text)
qed

section \<open>What reaches the stream\<close>

context redis_server
begin

lemma xadd_all_entries:
  assumes "xadd_all R key limit fss s = (ids, s')"
  shows "length ids = length fss \<and>
    (\<exists>d. ks_entries key (view s') = drop d (ks_entries key (view s) @ zip ids fss)) \<and>
    min limit (length (ks_entries key (view s)) + length fss) \<le> length (ks_entries key (view s'))"
  using assms
proof (induction fss arbitrary: s ids)
  case Nil
  then show ?case by (auto intro: exI [of _ 0])
next
  case (Cons fs fss)
  let ?s1 = "r_xadd R key limit fs s" and ?i = "r_new_id R key s" and ?E = "ks_entries key (view s)"
  obtain ids' where rest: "xadd_all R key limit fss ?s1 = (ids', s')" and ids: "ids = ?i # ids'"
    using Cons.prems by (auto split: prod.splits)
  let ?t = "r_trim R key limit s"
  have e1: "ks_entries key (view ?s1) = drop ?t (?E @ [(?i, fs)])"
    by (simp add: redis_view ks_rules)
  have keep: "min limit (Suc (length ?E)) \<le> Suc (length ?E) - ?t"
    using trim_bound [of key limit s] by simp
  obtain d where d: "ks_entries key (view s') = drop d (drop ?t (?E @ [(?i, fs)]) @ zip ids' fss)"
    and len: "length ids' = length fss"
    and min: "min limit (length (drop ?t (?E @ [(?i, fs)])) + length fss) \<le> length (ks_entries key (view s'))"
    using Cons.IH [OF rest] unfolding e1 by blast
  obtain d' where "ks_entries key (view s') = drop d' ((?E @ [(?i, fs)]) @ zip ids' fss)"
    using d drop_append_drop [of d ?t "?E @ [(?i, fs)]" "zip ids' fss"] by metis
  then have "ks_entries key (view s') = drop d' (?E @ zip ids (fs # fss))" using ids by simp
  moreover have "min limit (length ?E + length (fs # fss)) \<le> length (ks_entries key (view s'))"
    using min keep by simp
  ultimately show ?case using len ids by auto
qed

lemma xadd_all_frame:
  assumes "xadd_all R key limit fss s = (ids, s')"
  shows "k \<noteq> key \<Longrightarrow> ks_get k (view s') = ks_get k (view s)"
    and "k \<noteq> key \<Longrightarrow> ks_hget k f (view s') = ks_hget k f (view s)"
    and "k \<noteq> key \<Longrightarrow> ks_zlist k (view s') = ks_zlist k (view s)"
    and "k \<noteq> key \<Longrightarrow> ks_entries k (view s') = ks_entries k (view s)"
    and "ks_pel (view s') = ks_pel (view s)"
  using assms
proof (induction fss arbitrary: s ids)
  case (Cons fs fss)
  { case 1 with Cons.IH(1) show ?case by (auto simp: redis_view ks_rules split: prod.splits)
    next case 2 with Cons.IH(2) show ?case by (auto simp: redis_view ks_rules split: prod.splits)
    next case 3 with Cons.IH(3) show ?case by (auto simp: redis_view ks_rules split: prod.splits)
    next case 4 with Cons.IH(4) show ?case by (auto simp: redis_view ks_rules split: prod.splits)
    next case 5 with Cons.IH(5) show ?case by (auto simp: redis_view ks_rules split: prod.splits) }
qed auto

end

definition cache_ok :: "(string \<Rightarrow> string + string) \<Rightarrow> (string \<times> string) list \<Rightarrow> bool" where
  "cache_ok enc cache \<longleftrightarrow> (\<forall>(k, v) \<in> set cache. enc k = Inr v)"

definition written_as :: "(string \<Rightarrow> string + string) \<Rightarrow> fields \<Rightarrow> OutboundJob \<Rightarrow> bool" where
  "written_as enc fs job \<longleftrightarrow> (\<exists>e. enc (activity job) = Inr e \<and> fs = serializeOutboundJob job e)"

lemma encodeActivityCached_ok:
  assumes "encodeActivityCached enc text cache = Inr (e, cache')" and "cache_ok enc cache"
  shows "enc text = Inr e \<and> cache_ok enc cache'"
  using assms by (auto simp: encodeActivityCached_def cache_ok_def dest!: map_of_SomeD
      split: option.splits sum.splits)

lemma serialize_jobs_ok:
  assumes "serialize_jobs enc jobs cache = Inr (fss, cache')" and "cache_ok enc cache"
  shows "list_all2 (written_as enc) fss jobs \<and> cache_ok enc cache'"
  using assms
proof (induction jobs arbitrary: cache fss)
  case (Cons job jobs)
  from Cons.prems(1) obtain e c1 fss' where e: "encodeActivityCached enc (activity job) cache = Inr (e, c1)"
    and r: "serialize_jobs enc jobs c1 = Inr (fss', cache')" and f: "fss = serializeOutboundJob job e # fss'"
    by (auto split: sum.splits)
  from encodeActivityCached_ok [OF e Cons.prems(2)] Cons.IH [OF r] f show ?case
    by (auto simp: written_as_def)
qed simp

lemma serialize_jobs_total:
  assumes "\<forall>job \<in> set jobs. \<exists>e. enc (activity job) = Inr e" and "cache_ok enc cache"
  shows "\<exists>r. serialize_jobs enc jobs cache = Inr r"
  using assms
proof (induction jobs arbitrary: cache)
  case (Cons job jobs)
  then obtain e where e: "enc (activity job) = Inr e" by auto
  then have "\<exists>x c1. encodeActivityCached enc (activity job) cache = Inr (x, c1)"
    by (auto simp: encodeActivityCached_def split: option.splits)
  then obtain x c1 where x: "encodeActivityCached enc (activity job) cache = Inr (x, c1)" by blast
  then have "cache_ok enc c1" using encodeActivityCached_ok Cons.prems(2) by blast
  with Cons.IH [of c1] Cons.prems(1) x show ?case by (auto split: prod.splits)
qed simp

context redis_server
begin

lemma enqueue_chunks_entries:
  assumes "enqueue_chunks R enc c jobs cache ids0 s = (Inr ids, s')" and "cache_ok enc cache"
  shows "\<exists>new fss. ids = ids0 @ new \<and> length new = length jobs \<and> list_all2 (written_as enc) fss jobs \<and>
    (\<exists>d. ks_entries (outboundStreamKey c) (view s') = drop d (ks_entries (outboundStreamKey c) (view s) @ zip new fss)) \<and>
    min (maxStreamLength c) (length (ks_entries (outboundStreamKey c) (view s)) + length jobs)
      \<le> length (ks_entries (outboundStreamKey c) (view s'))"
  using assms
proof (induction "length jobs" arbitrary: jobs cache ids0 s rule: less_induct)
  case less
  let ?k = "outboundStreamKey c" and ?n = OUTBOUND_CHUNK_SIZE
  show ?case
  proof (cases "jobs = []")
    case True
    then have "ids = ids0 @ []" "s' = s" using less.prems(1) by (simp_all add: enqueue_chunks.simps [of _ _ _ "[]"])
    then show ?thesis using True by (intro exI [of _ "[]"] conjI exI [of _ 0]) auto
  next
    case False
    obtain fss1 cache' where ser: "serialize_jobs enc (take ?n jobs) cache = Inr (fss1, cache')"
      using less.prems(1) False by (auto simp: enqueue_chunks.simps [of _ _ _ jobs] split: sum.splits)
    obtain ids1 s1 where add: "xadd_all R ?k (maxStreamLength c) fss1 s = (ids1, s1)" by fastforce
    have rest: "enqueue_chunks R enc c (drop ?n jobs) cache' (ids0 @ ids1) s1 = (Inr ids, s')"
      using less.prems(1) False ser add by (simp add: enqueue_chunks.simps [of _ _ _ jobs])
    note ok = serialize_jobs_ok [OF ser less.prems(2)]
    note x = xadd_all_entries [OF add]
    have lt: "length (drop ?n jobs) < length jobs" using False by (simp add: OUTBOUND_CHUNK_SIZE_def)
    obtain new2 fss2 d2 where n2: "ids = (ids0 @ ids1) @ new2" "length new2 = length (drop ?n jobs)"
      "list_all2 (written_as enc) fss2 (drop ?n jobs)"
      "ks_entries ?k (view s') = drop d2 (ks_entries ?k (view s1) @ zip new2 fss2)"
      "min (maxStreamLength c) (length (ks_entries ?k (view s1)) + length (drop ?n jobs)) \<le> length (ks_entries ?k (view s'))"
      using less.hyps [OF lt rest] ok by blast
    obtain d1 where d1: "ks_entries ?k (view s1) = drop d1 (ks_entries ?k (view s) @ zip ids1 fss1)"
      using x by blast
    obtain d where d: "ks_entries ?k (view s') = drop d ((ks_entries ?k (view s) @ zip ids1 fss1) @ zip new2 fss2)"
      using n2(4) d1 drop_append_drop by metis
    have l1: "length fss1 = length (take ?n jobs)" using ok list_all2_lengthD by blast
    have "list_all2 (written_as enc) (fss1 @ fss2) (take ?n jobs @ drop ?n jobs)"
      using ok n2(3) by (intro list_all2_appendI) auto
    moreover have "zip (ids1 @ new2) (fss1 @ fss2) = zip ids1 fss1 @ zip new2 fss2"
      using x by (simp add: zip_append)
    moreover have "length (ids1 @ new2) = length jobs" using x l1 n2(2) by simp
    moreover have "min (maxStreamLength c) (length (ks_entries ?k (view s)) + length jobs) \<le> length (ks_entries ?k (view s'))"
    proof -
      have "min (maxStreamLength c) (length (ks_entries ?k (view s)) + length fss1) \<le> length (ks_entries ?k (view s1))"
        using x by blast
      moreover have "length jobs = length fss1 + length (drop ?n jobs)" using l1 by simp
      ultimately show ?thesis using n2(5) by linarith
    qed
    moreover have "ids = ids0 @ (ids1 @ new2)" using n2(1) by simp
    moreover have "\<exists>d. ks_entries ?k (view s') = drop d (ks_entries ?k (view s) @ zip (ids1 @ new2) (fss1 @ fss2))"
      using d calculation(2) by auto
    ultimately show ?thesis unfolding append_take_drop_id by blast
  qed
qed

end

end
