(* ===== verification/Delayed_Queue.thy ===== *)
theory Delayed_Queue
  imports Queue_Core Replay_Horizon
begin

text \<open>
  \<open>fedify-sidecar/src/queue/sidecar-redis-queue.ts\<close>: the wrapper that keeps future-dated outbound
  jobs out of the trimmed ready stream, in a sorted set of due times plus a hash of payloads, and
  the Lua scripts that store, park and promote them.  The scripts run inside Redis with its
  \<open>cjson\<close> library, which is the parameter \<open>lua_lib\<close>.
\<close>

section \<open>Lua values\<close>

text \<open>
  \<open>cj_decode\<close> is \<open>cjson.decode\<close>, with the table it builds read as a JSON value (an empty table is
  \<open>JObj []\<close>, \<open>cjson.null\<close> is \<open>JNull\<close>); \<open>cj_encode\<close> is \<open>cjson.encode\<close>; \<open>lua_text\<close> is what
  \<open>tostring\<close> gives for a value other than a string, a boolean or an integer below \<open>10\<^sup>1\<^sup>4\<close>.
\<close>

record lua_lib =
  cj_decode :: "string \<Rightarrow> json option"
  cj_encode :: "json \<Rightarrow> string"
  lua_text :: "json \<Rightarrow> string"

text \<open>
  A value after a trip through a Lua table: keys may change their order, and an empty array has
  become an empty object, because Lua does not tell them apart.
\<close>

inductive lua_same :: "json \<Rightarrow> json \<Rightarrow> bool" where
  null: "lua_same JNull JNull"
| bool: "lua_same (JBool b) (JBool b)"
| num: "lua_same (JNum i) (JNum i)"
| str: "lua_same (JStr s) (JStr s)"
| arr: "list_all2 lua_same xs ys \<Longrightarrow> xs \<noteq> [] \<Longrightarrow> lua_same (JArr xs) (JArr ys)"
| empty: "lua_same (JArr []) (JObj [])"
| obj: "(\<forall>k. rel_option lua_same (map_of a k) (map_of b k)) \<Longrightarrow> lua_same (JObj a) (JObj b)"
monos list.rel_mono option.rel_mono

inductive_cases lua_same_strE [elim!]: "lua_same (JStr s) t"
inductive_cases lua_same_numE [elim!]: "lua_same (JNum i) t"
inductive_cases lua_same_objE: "lua_same (JObj a) t"
inductive_cases lua_same_arrE: "lua_same (JArr xs) t"

text \<open>Integers that Lua's doubles print without an exponent.\<close>

fun json_small :: "json \<Rightarrow> bool" where
  "json_small (JNum i) = (\<bar>i\<bar> < 10 ^ 14)"
| "json_small (JArr xs) = list_all json_small xs"
| "json_small (JObj kvs) = list_all (\<lambda>(_, v). json_small v) kvs"
| "json_small _ = True"

definition lua_lib_ok :: "lua_lib \<Rightarrow> bool" where
  "lua_lib_ok U \<longleftrightarrow>
     (\<forall>j. json_plain j \<longrightarrow> json_small j \<longrightarrow>
        (\<exists>t. cj_decode U (json_stringify j) = Some t \<and> lua_same j t \<and> json_plain t \<and> json_small t)) \<and>
     (\<forall>t. json_plain t \<longrightarrow> json_small t \<longrightarrow>
        (\<exists>x. json_parse (cj_encode U t) = Some x \<and> lua_same t x))"

fun lua_falsy :: "json option \<Rightarrow> bool" where
  "lua_falsy None = True"
| "lua_falsy (Some (JBool b)) = (\<not> b)"
| "lua_falsy _ = False"

text \<open>Indexing a number, a boolean or \<open>cjson.null\<close> is an error; indexing a string finds nothing.\<close>

fun lua_indexable :: "json \<Rightarrow> bool" where
  "lua_indexable (JObj _) = True"
| "lua_indexable (JArr _) = True"
| "lua_indexable (JStr _) = True"
| "lua_indexable _ = False"

definition lua_or :: "json option \<Rightarrow> json \<Rightarrow> json" where
  "lua_or x d = (if lua_falsy x then d else the x)"

definition lua_integer_text :: "string \<Rightarrow> bool" where
  "lua_integer_text t \<longleftrightarrow> (let u = (if t \<noteq> [] \<and> hd t = CHR ''-'' then tl t else t) in u \<noteq> [] \<and> list_all js_digit u)"

fun lua_tonumber :: "json option \<Rightarrow> jsnum option" where
  "lua_tonumber (Some (JNum i)) = Some (Num i)"
| "lua_tonumber (Some (JStr t)) = (if lua_integer_text t then Some (parse_int t) else None)"
| "lua_tonumber _ = None"

fun lua_tostring :: "lua_lib \<Rightarrow> json \<Rightarrow> string" where
  "lua_tostring U (JStr s) = s"
| "lua_tostring U (JNum i) = (if \<bar>i\<bar> < 10 ^ 14 then show_int i else lua_text U (JNum i))"
| "lua_tostring U (JBool b) = (if b then ''true'' else ''false'')"
| "lua_tostring U j = lua_text U j"

text \<open>An argument of \<open>redis.call\<close> must be a string or a number.\<close>

fun lua_arg :: "lua_lib \<Rightarrow> json option \<Rightarrow> string option" where
  "lua_arg U (Some (JStr s)) = Some s"
| "lua_arg U (Some (JNum i)) = Some (lua_tostring U (JNum i))"
| "lua_arg U _ = None"

definition js_eq :: "jsnum \<Rightarrow> jsnum \<Rightarrow> bool" where
  "js_eq a b \<longleftrightarrow> a \<noteq> NaN \<and> a = b"

section \<open>The store of delayed work\<close>

text \<open>
  The part of the scripts that both delayed stores share: a later attempt wins, and for the same
  attempt the later deadline.  The scripts receive \<open>String(attempt)\<close> and \<open>String(notBeforeMs)\<close>,
  which \<open>tonumber\<close> reads back as the same numbers.
\<close>

record delay_keys =
  scheduleKey :: string
  payloadKey :: string
  readyKey :: string

definition delayed_rank :: "lua_lib \<Rightarrow> string \<Rightarrow> string + (jsnum \<times> jsnum) option" where
  "delayed_rank U existing =
     (let decoded = cj_decode U existing in
      if lua_falsy decoded then Inr None
      else if \<not> lua_indexable (the decoded) then Inl ''ERR attempt to index a non-table value''
      else Inr (Some (or_else (lua_tonumber (json_get ''attempt'' (the decoded))) (Num 0),
                      or_else (lua_tonumber (json_get ''notBeforeMs'' (the decoded))) (Num 0))))"

definition rank_keeps :: "jsnum \<times> jsnum \<Rightarrow> jsnum \<times> jsnum \<Rightarrow> bool" where
  "rank_keeps old new \<longleftrightarrow>
     js_lt (fst new) (fst old) \<or> (js_eq (fst old) (fst new) \<and> js_le (snd new) (snd old))"

definition delayed_put ::
  "lua_lib \<Rightarrow> 's redis \<Rightarrow> delay_keys \<Rightarrow> string \<Rightarrow> jsnum \<Rightarrow> string \<Rightarrow> jsnum \<Rightarrow> ('s, bool) io" where
  "delayed_put U R K i nbf payload att s =
     (let old = (case r_hget R (payloadKey K) i s of None \<Rightarrow> Inr None | Some existing \<Rightarrow> delayed_rank U existing)
      in case old of
        Inl e \<Rightarrow> (Inl e, s)
      | Inr rank \<Rightarrow>
          (if (case rank of None \<Rightarrow> False | Some r \<Rightarrow> rank_keeps r (att, nbf)) then (Inr False, s)
           else let s1 = r_hset R (payloadKey K) i payload s
                in case nbf of
                  Num t \<Rightarrow> (Inr True, r_zadd R (scheduleKey K) t i s1)
                | _ \<Rightarrow> (Inl ''ERR value is not a valid float'', s1)))"

section \<open>Queue wrapper\<close>

definition DELAYED_OUTBOUND_MIN_DELAY_MS :: int where "DELAYED_OUTBOUND_MIN_DELAY_MS = 2000"
definition DELAYED_OUTBOUND_PROMOTION_BATCH_SIZE :: nat where "DELAYED_OUTBOUND_PROMOTION_BATCH_SIZE = 100"
definition DELAYED_OUTBOUND_PARK_RETRY_MS :: int where "DELAYED_OUTBOUND_PARK_RETRY_MS = 1000"
definition DELAYED_OUTBOUND_PARK_MAX_RETRY_MS :: int where "DELAYED_OUTBOUND_PARK_MAX_RETRY_MS = 30000"

text \<open>\<open>delayedRedis\<close>: no client (the in-process tests), a closed one, or an open one.\<close>

datatype client = NoClient | ClosedClient | OpenClient

record delayed_queue =
  core :: queue_config
  delayedRedis :: client
  delayedPromotionRunning :: bool

definition outbound_delay_keys :: "delayed_queue \<Rightarrow> delay_keys" where
  "outbound_delay_keys q =
     \<lparr>scheduleKey = outboundStreamKey (core q) @ '':delayed:v1'',
      payloadKey = outboundStreamKey (core q) @ '':delayed-payload:v1'',
      readyKey = outboundStreamKey (core q)\<rparr>"

definition stripUnverifiedSyntheticVerification :: "InboundEnvelope \<Rightarrow> InboundEnvelope" where
  "stripUnverifiedSyntheticVerification envelope =
     (let isOriginReconciliation = json_get ''x-origin-reconciliation'' (ie_headers envelope) = Some (JStr ''true'');
          isRepliesBackfill =
            (case json_get ''x-backfill-source'' (ie_headers envelope) of Some (JStr t) \<Rightarrow> t \<noteq> [] | _ \<Rightarrow> False);
          isBenchmark = json_get ''x-sidecar-benchmark'' (ie_headers envelope) = Some (JStr ''1'')
      in if (\<not> isOriginReconciliation \<and> \<not> isRepliesBackfill \<and> \<not> isBenchmark) \<or> ie_verification envelope = None
         then envelope else envelope\<lparr>ie_verification := None\<rparr>)"

definition wrapped_enqueueInbound :: "'s redis \<Rightarrow> delayed_queue \<Rightarrow> InboundEnvelope \<Rightarrow> ('s, unit) io" where
  "wrapped_enqueueInbound R q envelope = enqueueInbound R (core q) (stripUnverifiedSyntheticVerification envelope)"

text \<open>\<open>job.meta?.apdmFirstQueuedAtMs\<close> when it is a finite positive number.\<close>

definition first_queued_at :: "OutboundJob \<Rightarrow> int option" where
  "first_queued_at job =
     (case meta job of
        Some m \<Rightarrow> (case json_get ''apdmFirstQueuedAtMs'' m of
                     Some (JNum t) \<Rightarrow> if t > 0 then Some t else None | _ \<Rightarrow> None)
      | None \<Rightarrow> None)"

definition ensureFirstQueuedAt :: "OutboundJob \<Rightarrow> int \<Rightarrow> OutboundJob" where
  "ensureFirstQueuedAt job fallbackMs =
     (if first_queued_at job \<noteq> None then job
      else job\<lparr>meta := Some (json_put ''apdmFirstQueuedAtMs'' (JNum fallbackMs) (or_else (meta job) (JObj [])))\<rparr>)"

fun due_later :: "jsnum \<Rightarrow> int \<Rightarrow> bool" where
  "due_later (Num t) nowMs = (t > 0 \<and> t - nowMs > DELAYED_OUTBOUND_MIN_DELAY_MS)"
| "due_later PosInf _ = True"
| "due_later _ _ = False"

definition storeDelayedOutbound :: "lua_lib \<Rightarrow> 's redis \<Rightarrow> delayed_queue \<Rightarrow> OutboundJob \<Rightarrow> ('s, unit) io" where
  "storeDelayedOutbound U R q job =
     (if delayedRedis q \<noteq> OpenClient then io_throw ''Delayed outbound Redis client is not connected''
      else io_bind (delayed_put U R (outbound_delay_keys q) (jobId job) (notBeforeMs job)
                      (json_stringify (outbound_job_json job)) (attempt job))
             (\<lambda>_. io_return ()))"

definition parkDelayedOutbound :: "lua_lib \<Rightarrow> 's redis \<Rightarrow> delayed_queue \<Rightarrow> string \<Rightarrow> OutboundJob \<Rightarrow> ('s, unit) io" where
  "parkDelayedOutbound U R q messageId job =
     (if delayedRedis q \<noteq> OpenClient then io_throw ''Delayed outbound Redis client is not connected''
      else io_bind (delayed_put U R (outbound_delay_keys q) (jobId job) (notBeforeMs job)
                      (json_stringify (outbound_job_json job)) (attempt job))
             (\<lambda>_ s. (Inr (), r_xack R (outboundStreamKey (core q)) (consumerGroup (core q)) messageId s)))"

fun store_all :: "lua_lib \<Rightarrow> 's redis \<Rightarrow> delayed_queue \<Rightarrow> OutboundJob list \<Rightarrow> ('s, string list) io" where
  "store_all U R q [] = io_return []"
| "store_all U R q (job # jobs) =
     io_bind (storeDelayedOutbound U R q job) (\<lambda>_.
     io_bind (store_all U R q jobs) (\<lambda>ids. io_return ((''delayed:'' @ jobId job) # ids)))"

definition enqueueOutboundBatch ::
  "lua_lib \<Rightarrow> 's redis \<Rightarrow> (string \<Rightarrow> string + string) \<Rightarrow> delayed_queue \<Rightarrow> OutboundJob list \<Rightarrow> int \<Rightarrow> ('s, string list) io" where
  "enqueueOutboundBatch U R enc q jobs nowMs =
     (if jobs = [] then io_return []
      else let stamped = map (\<lambda>job. ensureFirstQueuedAt job nowMs) jobs;
               later = (\<lambda>job. delayedRedis q \<noteq> NoClient \<and> due_later (notBeforeMs job) nowMs);
               immediate = filter (\<lambda>job. \<not> later job) stamped;
               delayed = filter later stamped
           in io_bind (if immediate \<noteq> [] then core_enqueueOutboundBatch R enc (core q) immediate else io_return [])
                (\<lambda>ids. io_bind (store_all U R q delayed) (\<lambda>ids'. io_return (ids @ ids'))))"

definition enqueueOutbound ::
  "lua_lib \<Rightarrow> 's redis \<Rightarrow> (string \<Rightarrow> string + string) \<Rightarrow> delayed_queue \<Rightarrow> OutboundJob \<Rightarrow> int \<Rightarrow> ('s, unit) io" where
  "enqueueOutbound U R enc q job nowMs = io_bind (enqueueOutboundBatch U R enc q [job] nowMs) (\<lambda>_. io_return ())"

section \<open>Promotion\<close>

text \<open>The fields of the ready entry, or nothing when some argument of \<open>XADD\<close> is not text.\<close>

definition promoted_fields :: "lua_lib \<Rightarrow> json \<Rightarrow> fields option" where
  "promoted_fields U job =
     (case (lua_arg U (json_get ''jobId'' job), lua_arg U (json_get ''activityId'' job),
            lua_arg U (json_get ''actorUri'' job), lua_arg U (json_get ''activity'' job),
            lua_arg U (json_get ''targetInbox'' job), lua_arg U (json_get ''targetDomain'' job),
            lua_arg U (Some (lua_or (json_get ''lastError'' job) (JStr [])))) of
        (Some jid, Some aid, Some actor, Some act, Some inbox, Some domain, Some err) \<Rightarrow>
          Some [(''jobId'', jid), (''activityId'', aid), (''actorUri'', actor), (''activity'', act),
                (''targetInbox'', inbox), (''targetDomain'', domain),
                (''attempt'', lua_tostring U (lua_or (json_get ''attempt'' job) (JNum 0))),
                (''maxAttempts'', lua_tostring U (lua_or (json_get ''maxAttempts'' job) (JNum 0))),
                (''notBeforeMs'', lua_tostring U (lua_or (json_get ''notBeforeMs'' job) (JNum 0))),
                (''deferCount'', lua_tostring U (lua_or (json_get ''deferCount'' job) (JNum 0))),
                (''lastError'', err),
                (''meta'', case json_get ''meta'' job of None \<Rightarrow> [] | Some m \<Rightarrow> cj_encode U m)]
      | _ \<Rightarrow> None)"

fun promote_outbound_loop ::
  "lua_lib \<Rightarrow> 's redis \<Rightarrow> delay_keys \<Rightarrow> nat \<Rightarrow> string list \<Rightarrow> nat \<Rightarrow> ('s, nat) io" where
  "promote_outbound_loop U R K limit [] promoted s = (Inr promoted, s)"
| "promote_outbound_loop U R K limit (i # ids) promoted s =
     (case r_hget R (payloadKey K) i s of
        None \<Rightarrow>
          promote_outbound_loop U R K limit ids promoted
            (r_hdel R (payloadKey K) i (r_zrem R (scheduleKey K) i s))
      | Some payload \<Rightarrow>
          (let job = cj_decode U payload in
           if lua_falsy job then (Inl (''invalid delayed outbound payload for '' @ i), s)
           else if \<not> lua_indexable (the job) then (Inl ''ERR attempt to index a non-table value'', s)
           else case promoted_fields U (the job) of
             None \<Rightarrow> (Inl ''ERR command arguments must be strings or integers'', s)
           | Some fs \<Rightarrow>
               promote_outbound_loop U R K limit ids (Suc promoted)
                 (r_hdel R (payloadKey K) i
                   (r_zrem R (scheduleKey K) i (r_xadd R (readyKey K) limit fs s)))))"

definition promoteDueOutbound :: "lua_lib \<Rightarrow> 's redis \<Rightarrow> delayed_queue \<Rightarrow> int \<Rightarrow> ('s, nat) io" where
  "promoteDueOutbound U R q nowMs s =
     (if delayedRedis q \<noteq> OpenClient \<or> delayedPromotionRunning q then (Inr 0, s)
      else let K = outbound_delay_keys q
           in promote_outbound_loop U R K (maxStreamLength (core q))
                (r_zrange R (scheduleKey K) nowMs DELAYED_OUTBOUND_PROMOTION_BATCH_SIZE s) 0 s)"

section \<open>Consuming\<close>

text \<open>
  What \<open>consumeOutbound\<close> does with one entry of the ready stream depends on the clock and on whether
  Redis answers.  The environment decides both from the history so far; the history is the list of
  events, oldest first.
\<close>

datatype dq_event =
    DqRead int
  | DqPark string OutboundJob
  | DqParkFailed
  | DqDlq OutboundJob
  | DqDlqFailed
  | DqAck string
  | DqAckFailed
  | DqSleep int

record dq_env =
  dq_now :: "dq_event list \<Rightarrow> int"
  dq_park_ok :: "dq_event list \<Rightarrow> bool"
  dq_dlq_ok :: "dq_event list \<Rightarrow> bool"
  dq_ack_ok :: "dq_event list \<Rightarrow> bool"

datatype admitted = Yield string OutboundJob | Skip | OutOfFuel

definition residence_of :: "OutboundJob \<Rightarrow> int \<Rightarrow> int option" where
  "residence_of job nowMs =
     (case meta job of
        None \<Rightarrow> None
      | Some m \<Rightarrow> (case json_get ''apdmFirstQueuedAtMs'' m of
                     Some (JNum t) \<Rightarrow> outboxIntentAgeMs (Num t) nowMs | _ \<Rightarrow> None))"

definition residence_expired :: "int option \<Rightarrow> bool" where
  "residence_expired r = (case r of None \<Rightarrow> True | Some ms \<Rightarrow> ms > APDM_OUTBOUND_MESSAGE_MAX_RESIDENCE_MS)"

definition expired_reason :: string where
  "expired_reason = ''Outbound message exceeded the '' @ show_int APDM_OUTBOUND_MESSAGE_MAX_RESIDENCE_MS
     @ '' ms APDM queue residence limit''"

definition expired_parking_reason :: string where
  "expired_parking_reason = expired_reason @ '' while retrying delayed parking''"

text \<open>\<open>while (!dlqPersisted)\<close>: with a doubling pause between the attempts.\<close>

fun dlq_retry :: "nat \<Rightarrow> dq_env \<Rightarrow> OutboundJob \<Rightarrow> int \<Rightarrow> dq_event list \<Rightarrow> bool \<times> dq_event list" where
  "dlq_retry 0 E job dlqRetryDelayMs tr = (False, tr)"
| "dlq_retry (Suc n) E job dlqRetryDelayMs tr =
     (if dq_dlq_ok E tr then (True, tr @ [DqDlq job])
      else dlq_retry n E job (min (dlqRetryDelayMs * 2) DELAYED_OUTBOUND_PARK_MAX_RETRY_MS)
             (tr @ [DqDlqFailed, DqSleep dlqRetryDelayMs]))"

definition ack_event :: "dq_env \<Rightarrow> string \<Rightarrow> dq_event list \<Rightarrow> dq_event list" where
  "ack_event E messageId tr = tr @ [if dq_ack_ok E tr then DqAck messageId else DqAckFailed]"

text \<open>The remaining delay, when the job has to wait longer than the minimum.\<close>

definition must_wait :: "OutboundJob \<Rightarrow> int \<Rightarrow> bool" where
  "must_wait job nowMs =
     (case notBeforeMs job of Num t \<Rightarrow> t - nowMs > DELAYED_OUTBOUND_MIN_DELAY_MS | PosInf \<Rightarrow> True | _ \<Rightarrow> False)"

text \<open>\<open>while (remainingDelayMs > DELAYED_OUTBOUND_MIN_DELAY_MS)\<close>, entered with the clock just read.\<close>

fun park_loop ::
  "nat \<Rightarrow> dq_env \<Rightarrow> string \<Rightarrow> OutboundJob \<Rightarrow> int \<Rightarrow> int \<Rightarrow> dq_event list \<Rightarrow> admitted \<times> dq_event list" where
  "park_loop 0 E messageId job retryDelayMs nowMs tr = (OutOfFuel, tr)"
| "park_loop (Suc n) E messageId job retryDelayMs nowMs tr =
     (if \<not> must_wait job nowMs then (Yield messageId job, tr)
      else if dq_park_ok E tr then (Skip, tr @ [DqPark messageId job])
      else let tr1 = tr @ [DqParkFailed, DqSleep retryDelayMs];
               now1 = dq_now E tr1; tr2 = tr1 @ [DqRead now1]
           in if residence_expired (residence_of job now1) then
                (case dlq_retry (Suc n) E (job\<lparr>lastError := Some expired_parking_reason\<rparr>) DELAYED_OUTBOUND_PARK_RETRY_MS tr2 of
                   (ok, tr3) \<Rightarrow> if ok then (Skip, ack_event E messageId tr3) else (OutOfFuel, tr3))
              else let now2 = dq_now E tr2
                   in park_loop n E messageId job (min (retryDelayMs * 2) DELAYED_OUTBOUND_PARK_MAX_RETRY_MS) now2
                        (tr2 @ [DqRead now2]))"

definition consume_entry ::
  "nat \<Rightarrow> dq_env \<Rightarrow> delayed_queue \<Rightarrow> string \<Rightarrow> OutboundJob \<Rightarrow> dq_event list \<Rightarrow> admitted \<times> dq_event list" where
  "consume_entry fuel E q messageId entryJob tr =
     (case redisStreamMessageTimestampMs messageId of
        None \<Rightarrow> (Yield messageId entryJob, tr)
      | Some streamTimestamp \<Rightarrow>
          let job = ensureFirstQueuedAt entryJob streamTimestamp;
              now1 = dq_now E tr; tr1 = tr @ [DqRead now1]
          in if residence_expired (residence_of job now1) then
               (if dq_dlq_ok E tr1
                then (Skip, ack_event E messageId (tr1 @ [DqDlq (job\<lparr>lastError := Some expired_reason\<rparr>)]))
                else (Skip, tr1 @ [DqDlqFailed]))
             else let now2 = dq_now E tr1; tr2 = tr1 @ [DqRead now2]
                  in if delayedRedis q \<noteq> NoClient \<and> js_lt (Num 0) (notBeforeMs job) \<and> must_wait job now2
                     then park_loop fuel E messageId job DELAYED_OUTBOUND_PARK_RETRY_MS now2 tr2
                     else (Yield messageId job, tr2))"

section \<open>Lua facts\<close>

lemma lua_same_trans: "lua_same a b \<Longrightarrow> lua_same b c \<Longrightarrow> lua_same a c"
proof (induction arbitrary: c rule: lua_same.induct)
  case (arr xs ys)
  from arr.prems arr.hyps arr.IH obtain zs where c: "c = JArr zs" "list_all2 lua_same ys zs"
    by (auto elim!: lua_same_arrE dest: list_all2_lengthD)
  have "list_all2 lua_same xs zs"
    using arr.IH c(2) by (auto simp: list_all2_conv_all_nth)
  with c(1) arr.hyps show ?case by (auto intro: lua_same.arr)
next
  case empty
  then obtain b where c: "c = JObj b" "\<forall>k. map_of b k = None" by (auto elim!: lua_same_objE)
  then have "map_of b = Map.empty" by (simp add: fun_eq_iff)
  then have "b = []" by simp
  with c(1) show ?case by (simp add: lua_same.empty)
next
  case (obj a b)
  from obj.prems obtain d where c: "c = JObj d" "\<forall>k. rel_option lua_same (map_of b k) (map_of d k)"
    by (auto elim: lua_same_objE)
  have "rel_option lua_same (map_of a k) (map_of d k)" for k
  proof (cases "map_of a k")
    case None
    then have "map_of b k = None" using obj.IH [rule_format, of k] by (cases "map_of b k") auto
    then show ?thesis using c(2) [rule_format, of k] None by simp
  next
    case (Some x)
    then obtain y where y: "map_of b k = Some y" "\<And>z. lua_same y z \<Longrightarrow> lua_same x z"
      using obj.IH [rule_format, of k] by (auto simp: option_rel_Some1)
    then show ?thesis using c(2) [rule_format, of k] Some by (auto simp: option_rel_Some1)
  qed
  with c(1) show ?case by (auto intro: lua_same.obj)
qed auto

lemma lua_same_get:
  assumes "lua_same (JObj kvs) t"
  obtains b where "t = JObj b" and "\<And>k. rel_option lua_same (map_of kvs k) (map_of b k)"
  using assms by (auto elim: lua_same_objE)

text \<open>Jobs the delayed store can hold: finite, printable counters and a plain object.\<close>

definition finite_num :: "jsnum \<Rightarrow> bool" where
  "finite_num x \<longleftrightarrow> (case x of Num i \<Rightarrow> \<bar>i\<bar> < 10 ^ 14 | _ \<Rightarrow> False)"

definition delayable :: "OutboundJob \<Rightarrow> bool" where
  "delayable job \<longleftrightarrow> finite_num (attempt job) \<and> finite_num (maxAttempts job) \<and> finite_num (notBeforeMs job)
     \<and> (case deferCount job of None \<Rightarrow> True | Some d \<Rightarrow> finite_num d)
     \<and> (case meta job of None \<Rightarrow> True | Some m \<Rightarrow> json_plain m \<and> json_small m)"

definition num_of :: "jsnum \<Rightarrow> int" where
  "num_of x = (case x of Num i \<Rightarrow> i | _ \<Rightarrow> 0)"

lemma finite_numD: "finite_num x \<Longrightarrow> x = Num (num_of x) \<and> \<bar>num_of x\<bar> < 10 ^ 14"
  by (cases x) (auto simp: finite_num_def num_of_def)

lemma finite_num_json: "finite_num x \<Longrightarrow> json_num x = JNum (num_of x)"
  using finite_numD [of x] by (metis json_num.simps(1))

definition job_rank :: "OutboundJob \<Rightarrow> int \<times> int" where
  "job_rank job = (num_of (attempt job), num_of (notBeforeMs job))"

lemma delayable_json: "delayable job \<Longrightarrow> json_plain (outbound_job_json job) \<and> json_small (outbound_job_json job)"
  using finite_numD by (auto simp: delayable_def outbound_job_json_def json_opt_def finite_num_json split: option.splits)

lemma json_get_plain:
  "json_get k j = Some v \<Longrightarrow> json_plain j \<Longrightarrow> json_plain v"
  "json_get k j = Some v \<Longrightarrow> json_small j \<Longrightarrow> json_small v"
  by (cases j; auto simp: list_all_iff dest!: map_of_SomeD)+

lemma decoded_job:
  assumes "lua_lib_ok U" and "delayable job"
  obtains t where "cj_decode U (json_stringify (outbound_job_json job)) = Some t" and "lua_indexable t"
    and "\<not> lua_falsy (Some t)" and "json_plain t" and "json_small t"
    and "json_get ''jobId'' t = Some (JStr (jobId job))" "json_get ''activityId'' t = Some (JStr (activityId job))"
    and "json_get ''actorUri'' t = Some (JStr (actorUri job))" "json_get ''activity'' t = Some (JStr (activity job))"
    and "json_get ''targetInbox'' t = Some (JStr (targetInbox job))"
    and "json_get ''targetDomain'' t = Some (JStr (targetDomain job))"
    and "json_get ''attempt'' t = Some (JNum (num_of (attempt job)))"
    and "json_get ''maxAttempts'' t = Some (JNum (num_of (maxAttempts job)))"
    and "json_get ''notBeforeMs'' t = Some (JNum (num_of (notBeforeMs job)))"
    and "json_get ''deferCount'' t = map_option (\<lambda>d. JNum (num_of d)) (deferCount job)"
    and "json_get ''lastError'' t = map_option JStr (lastError job)"
    and "rel_option lua_same (meta job) (json_get ''meta'' t)"
proof -
  from assms(1) delayable_json [OF assms(2)] obtain t where
    t: "cj_decode U (json_stringify (outbound_job_json job)) = Some t" "lua_same (outbound_job_json job) t"
      "json_plain t" "json_small t"
    unfolding lua_lib_ok_def by blast
  define kvs where "kvs = (case outbound_job_json job of JObj kvs \<Rightarrow> kvs | _ \<Rightarrow> [])"
  have kvs: "outbound_job_json job = JObj kvs" by (simp add: kvs_def outbound_job_json_def)
  obtain b where b: "t = JObj b" "\<And>k. rel_option lua_same (map_of kvs k) (map_of b k)"
    using lua_same_get t(2) kvs by metis
  have d: "finite_num (attempt job)" "finite_num (maxAttempts job)" "finite_num (notBeforeMs job)"
    "\<And>x. deferCount job = Some x \<Longrightarrow> finite_num x"
    using assms(2) by (auto simp: delayable_def)
  have m: "map_of kvs ''jobId'' = Some (JStr (jobId job))" "map_of kvs ''activityId'' = Some (JStr (activityId job))"
    "map_of kvs ''actorUri'' = Some (JStr (actorUri job))" "map_of kvs ''activity'' = Some (JStr (activity job))"
    "map_of kvs ''targetInbox'' = Some (JStr (targetInbox job))"
    "map_of kvs ''targetDomain'' = Some (JStr (targetDomain job))"
    "map_of kvs ''attempt'' = Some (JNum (num_of (attempt job)))"
    "map_of kvs ''maxAttempts'' = Some (JNum (num_of (maxAttempts job)))"
    "map_of kvs ''notBeforeMs'' = Some (JNum (num_of (notBeforeMs job)))"
    "map_of kvs ''deferCount'' = map_option (\<lambda>d. JNum (num_of d)) (deferCount job)"
    "map_of kvs ''lastError'' = map_option JStr (lastError job)"
    "map_of kvs ''meta'' = meta job"
    using d by (auto simp: kvs_def outbound_job_json_def json_opt_def finite_num_json split: option.splits)
  have str: "json_get k t = Some (JStr x)" if "map_of kvs k = Some (JStr x)" for k x
    using b(2) [of k] that by (auto simp: b(1) option_rel_Some1)
  have num: "json_get k t = Some (JNum x)" if "map_of kvs k = Some (JNum x)" for k x
    using b(2) [of k] that by (auto simp: b(1) option_rel_Some1)
  have df: "json_get ''deferCount'' t = map_option (\<lambda>d. JNum (num_of d)) (deferCount job)"
    using b(2) [of "''deferCount''"] by (cases "deferCount job") (auto simp: b(1) m option_rel_Some1)
  have le: "json_get ''lastError'' t = map_option JStr (lastError job)"
    using b(2) [of "''lastError''"] by (cases "lastError job") (auto simp: b(1) m option_rel_Some1)
  have me: "rel_option lua_same (meta job) (json_get ''meta'' t)"
    using b(2) [of "''meta''"] by (simp add: b(1) m)
  show thesis
    by (rule that [OF t(1) _ _ t(3,4) m(1-6) [THEN str] m(7-9) [THEN num] df le me]) (simp_all add: b(1))
qed

lemma delayed_rank_job:
  assumes "lua_lib_ok U" and "delayable job"
  shows "delayed_rank U (json_stringify (outbound_job_json job)) =
    Inr (Some (Num (fst (job_rank job)), Num (snd (job_rank job))))"
  by (rule decoded_job [OF assms]) (simp add: delayed_rank_def job_rank_def or_else_def Let_def)

section \<open>The contract of a delayed store\<close>

text \<open>
  Entries are ranked by attempt, then by deadline.  Storing an entry keeps the better rank, so the
  outcome of any number of stores, by any number of workers, does not depend on their order.
\<close>

definition better_rank :: "(int \<times> int) option \<Rightarrow> int \<times> int \<Rightarrow> (int \<times> int) option" where
  "better_rank old r = Some (case old of None \<Rightarrow> r | Some q \<Rightarrow> max q r)"

locale delay_store =
  fixes put :: "'e \<Rightarrow> 's \<Rightarrow> 's" and entry_id :: "'e \<Rightarrow> string" and rank_of :: "'e \<Rightarrow> int \<times> int"
    and good :: "'e \<Rightarrow> bool" and inv :: "'s \<Rightarrow> bool" and rank_at :: "string \<Rightarrow> 's \<Rightarrow> (int \<times> int) option"
  assumes put_inv: "good e \<Longrightarrow> inv s \<Longrightarrow> inv (put e s)"
    and put_rank: "good e \<Longrightarrow> inv s \<Longrightarrow> rank_at (entry_id e) (put e s) = better_rank (rank_at (entry_id e) s) (rank_of e)"
    and put_other: "good e \<Longrightarrow> inv s \<Longrightarrow> i \<noteq> entry_id e \<Longrightarrow> rank_at i (put e s) = rank_at i s"
begin

lemma fold_inv: "\<forall>e \<in> set es. good e \<Longrightarrow> inv s \<Longrightarrow> inv (fold put es s)"
  by (induction es arbitrary: s) (auto intro: put_inv)

lemma fold_rank:
  assumes "\<forall>e \<in> set es. good e" and "inv s"
  shows "rank_at i (fold put es s) =
    fold (\<lambda>e old. better_rank old (rank_of e)) (filter (\<lambda>e. entry_id e = i) es) (rank_at i s)"
  using assms
proof (induction es arbitrary: s)
  case (Cons e es)
  then show ?case using put_rank [of e s] put_other [of e s i] put_inv [of e s] by auto
qed simp

end

lemma fold_better_rank:
  "fold (\<lambda>e old. better_rank old (f e)) es old =
     (if es = [] then old else Some (Max (f ` set es \<union> set_option old)))"
proof (induction es arbitrary: old)
  case (Cons e es)
  have s: "set_option (better_rank old (f e)) = {case old of None \<Rightarrow> f e | Some q \<Rightarrow> max q (f e)}"
    by (simp add: better_rank_def)
  show ?case
  proof (cases "es = []")
    case True
    then show ?thesis by (cases old) (auto simp: better_rank_def max.commute)
  next
    case False
    have "Max (f ` set es \<union> {case old of None \<Rightarrow> f e | Some q \<Rightarrow> max q (f e)}) = Max (f ` set (e # es) \<union> set_option old)"
    proof (cases old)
      case None
      then show ?thesis by (simp add: insert_commute)
    next
      case (Some q)
      have "Max (f ` set es \<union> {max q (f e)}) = max (max q (f e)) (Max (f ` set es))"
        using False by simp
      also have "\<dots> = Max (insert q (insert (f e) (f ` set es)))" using False by (simp add: max.assoc)
      finally show ?thesis using Some by (simp add: insert_commute)
    qed
    with Cons.IH [of "better_rank old (f e)"] False show ?thesis by (simp add: s)
  qed
qed simp

section \<open>The scripts meet the contract\<close>

definition delay_keys_ok :: "delay_keys \<Rightarrow> bool" where
  "delay_keys_ok K \<longleftrightarrow> distinct [scheduleKey K, payloadKey K, readyKey K]"

definition delayed_rank_at :: "lua_lib \<Rightarrow> delay_keys \<Rightarrow> string \<Rightarrow> keyspace \<Rightarrow> (int \<times> int) option" where
  "delayed_rank_at U K i ks =
     (case ks_hget (payloadKey K) i ks of
        None \<Rightarrow> None
      | Some p \<Rightarrow> (case delayed_rank U p of Inr (Some (Num a, Num b)) \<Rightarrow> Some (a, b) | _ \<Rightarrow> None))"

text \<open>
  The schedule and the payloads agree: an id is scheduled, once, exactly when it has a payload, that
  of an entry with this id and this due time.
\<close>

definition delay_inv ::
  "('e \<Rightarrow> string) \<Rightarrow> ('e \<Rightarrow> int \<times> int) \<Rightarrow> ('e \<Rightarrow> string) \<Rightarrow> ('e \<Rightarrow> bool) \<Rightarrow> delay_keys \<Rightarrow> keyspace \<Rightarrow> bool" where
  "delay_inv entry_id rank_of text_of good K ks \<longleftrightarrow>
     distinct (map fst (ks_zlist (scheduleKey K) ks)) \<and>
     (\<forall>i. case ks_hget (payloadKey K) i ks of
            None \<Rightarrow> i \<notin> fst ` set (ks_zlist (scheduleKey K) ks)
          | Some p \<Rightarrow> \<exists>e. good e \<and> entry_id e = i \<and> p = text_of e \<and>
                         (i, snd (rank_of e)) \<in> set (ks_zlist (scheduleKey K) ks))"

lemma delay_inv_at:
  assumes "delay_inv entry_id rank_of text_of good K ks"
  shows "case ks_hget (payloadKey K) i ks of
      None \<Rightarrow> i \<notin> fst ` set (ks_zlist (scheduleKey K) ks)
    | Some p \<Rightarrow> \<exists>e. good e \<and> entry_id e = i \<and> p = text_of e \<and>
                   (i, snd (rank_of e)) \<in> set (ks_zlist (scheduleKey K) ks)"
  using assms by (simp add: delay_inv_def)

lemma set_zset_put: "set (zset_put m sc zs) = insert (m, sc) {x \<in> set zs. fst x \<noteq> m}"
  by (auto simp: zset_put_def set_insort_key)

lemma distinct_zset_put:
  assumes "distinct (map fst zs)"
  shows "distinct (map fst (zset_put m sc zs))"
proof -
  have f: "distinct (map fst (insort_key k x ys)) \<longleftrightarrow> fst x \<notin> fst ` set ys \<and> distinct (map fst ys)"
    for k :: "string \<times> int \<Rightarrow> int \<times> string" and x ys
    by (induction ys) (auto simp: set_insort_key)
  show ?thesis using assms by (auto simp: zset_put_def f distinct_map_filter case_prod_unfold)
qed

locale delay_scripts = redis_server R view for R :: "'s redis" and view +
  fixes U :: lua_lib and K :: delay_keys and entry_id :: "'e \<Rightarrow> string" and rank_of :: "'e \<Rightarrow> int \<times> int"
    and text_of :: "'e \<Rightarrow> string" and good :: "'e \<Rightarrow> bool"
  assumes text_rank: "good e \<Longrightarrow>
      delayed_rank U (text_of e) = Inr (Some (Num (fst (rank_of e)), Num (snd (rank_of e))))"
    and keys_ok: "delay_keys_ok K"
begin

lemma keys_neq:
  "scheduleKey K \<noteq> payloadKey K" "payloadKey K \<noteq> scheduleKey K" "scheduleKey K \<noteq> readyKey K"
  "readyKey K \<noteq> scheduleKey K" "payloadKey K \<noteq> readyKey K" "readyKey K \<noteq> payloadKey K"
  using keys_ok by (auto simp: delay_keys_ok_def)

definition put where
  "put e s = delayed_put U R K (entry_id e) (Num (snd (rank_of e))) (text_of e) (Num (fst (rank_of e))) s"

abbreviation inv where
  "inv s \<equiv> delay_inv entry_id rank_of text_of good K (view s)"

lemma rank_at_inv:
  assumes "inv s" and "r_hget R (payloadKey K) i s = Some p"
  obtains e where "good e" "entry_id e = i" "p = text_of e" "delayed_rank_at U K i (view s) = Some (rank_of e)"
    "(i, snd (rank_of e)) \<in> set (ks_zlist (scheduleKey K) (view s))"
    "delayed_rank U p = Inr (Some (Num (fst (rank_of e)), Num (snd (rank_of e))))"
proof -
  obtain e where e: "good e" "entry_id e = i" "p = text_of e"
    "(i, snd (rank_of e)) \<in> set (ks_zlist (scheduleKey K) (view s))"
  proof -
    have "ks_hget (payloadKey K) i (view s) = Some p" using assms(2) by (simp add: redis_view)
    with delay_inv_at [OF assms(1), of i] that show thesis by auto
  qed
  with assms(2) text_rank [OF e(1)] show thesis
    by (intro that [of e]) (simp_all add: delayed_rank_at_def redis_view)
qed

lemma put_cases:
  assumes "good e" and "inv s"
  shows "put e s =
    (if (\<exists>q. delayed_rank_at U K (entry_id e) (view s) = Some q \<and> rank_of e \<le> q) then (Inr False, s)
     else (Inr True, r_zadd R (scheduleKey K) (snd (rank_of e)) (entry_id e)
            (r_hset R (payloadKey K) (entry_id e) (text_of e) s)))"
proof (cases "r_hget R (payloadKey K) (entry_id e) s")
  case None
  then show ?thesis by (simp add: put_def delayed_put_def delayed_rank_at_def redis_view)
next
  case (Some p)
  obtain e' where e': "delayed_rank_at U K (entry_id e) (view s) = Some (rank_of e')"
    "delayed_rank U p = Inr (Some (Num (fst (rank_of e')), Num (snd (rank_of e'))))"
    using rank_at_inv [OF assms(2) Some] by metis
  have "rank_keeps (Num (fst (rank_of e')), Num (snd (rank_of e'))) (Num (fst (rank_of e)), Num (snd (rank_of e)))
      \<longleftrightarrow> rank_of e \<le> rank_of e'"
    by (auto simp: rank_keeps_def js_eq_def less_eq_prod_def)
  with Some e' show ?thesis by (simp add: put_def delayed_put_def Let_def)
qed

lemma put_view:
  assumes "good e" and "inv s" and "\<not> (\<exists>q. delayed_rank_at U K (entry_id e) (view s) = Some q \<and> rank_of e \<le> q)"
  shows "ks_hget (payloadKey K) i (view (snd (put e s))) =
      (if i = entry_id e then Some (text_of e) else ks_hget (payloadKey K) i (view s))"
    and "ks_zlist (scheduleKey K) (view (snd (put e s))) =
      zset_put (entry_id e) (snd (rank_of e)) (ks_zlist (scheduleKey K) (view s))"
proof -
  have p: "snd (put e s) = r_zadd R (scheduleKey K) (snd (rank_of e)) (entry_id e)
      (r_hset R (payloadKey K) (entry_id e) (text_of e) s)"
    by (simp only: put_cases [OF assms(1,2)] assms(3) if_False snd_conv)
  show "ks_hget (payloadKey K) i (view (snd (put e s))) =
      (if i = entry_id e then Some (text_of e) else ks_hget (payloadKey K) i (view s))"
    and "ks_zlist (scheduleKey K) (view (snd (put e s))) =
      zset_put (entry_id e) (snd (rank_of e)) (ks_zlist (scheduleKey K) (view s))"
    using keys_neq by (simp_all add: p redis_view ks_rules)
qed

end

sublocale delay_scripts \<subseteq> ds: delay_store "\<lambda>e s. snd (put e s)" entry_id rank_of good inv
  "\<lambda>i s. delayed_rank_at U K i (view s)"
proof (unfold_locales, goal_cases)
  case (1 e s)
  show ?case
  proof (cases "\<exists>q. delayed_rank_at U K (entry_id e) (view s) = Some q \<and> rank_of e \<le> q")
    case True
    then show ?thesis using 1 by (auto simp: put_cases)
  next
    case False
    note v = put_view [OF 1 False]
    have "distinct (map fst (ks_zlist (scheduleKey K) (view s)))" using 1(2) by (simp add: delay_inv_def)
    moreover have "case ks_hget (payloadKey K) i (view (snd (put e s))) of
        None \<Rightarrow> i \<notin> fst ` set (ks_zlist (scheduleKey K) (view (snd (put e s))))
      | Some p \<Rightarrow> \<exists>e'. good e' \<and> entry_id e' = i \<and> p = text_of e' \<and>
                     (i, snd (rank_of e')) \<in> set (ks_zlist (scheduleKey K) (view (snd (put e s))))" for i
      using delay_inv_at [OF 1(2), of i] 1(1) unfolding v
      by (cases "i = entry_id e") (auto simp: set_zset_put split: option.splits)
    ultimately show ?thesis
      unfolding delay_inv_def v(2) using distinct_zset_put by (simp add: v)
  qed
next
  case (2 e s)
  show ?case
  proof (cases "\<exists>q. delayed_rank_at U K (entry_id e) (view s) = Some q \<and> rank_of e \<le> q")
    case True
    then show ?thesis using 2 by (auto simp: put_cases better_rank_def max_def)
  next
    case False
    then have "delayed_rank_at U K (entry_id e) (view (snd (put e s))) = Some (rank_of e)"
      using 2 text_rank by (simp add: delayed_rank_at_def put_view)
    with False show ?thesis by (auto simp: better_rank_def max_def split: option.split)
  qed
next
  case (3 e s i)
  show ?case
  proof (cases "\<exists>q. delayed_rank_at U K (entry_id e) (view s) = Some q \<and> rank_of e \<le> q")
    case True
    then show ?thesis using 3 by (auto simp: put_cases)
  next
    case False
    then show ?thesis using 3 by (simp add: delayed_rank_at_def put_view)
  qed
qed

context delay_scripts
begin

lemmas put_keeps_inv = ds.put_inv
lemmas put_keeps_rank = ds.put_rank
lemmas puts_keep_inv = ds.fold_inv
lemmas puts_rank = ds.fold_rank [unfolded fold_better_rank]

end

section \<open>Promotion of outbound jobs\<close>

definition job_text :: "OutboundJob \<Rightarrow> string" where
  "job_text job = json_stringify (outbound_job_json job)"

abbreviation job_inv :: "delay_keys \<Rightarrow> keyspace \<Rightarrow> bool" where
  "job_inv \<equiv> delay_inv jobId job_rank job_text delayable"

lemma lua_arg_str [simp]: "lua_arg U (Some (JStr t)) = Some t"
  by simp

definition job_promoted :: "lua_lib \<Rightarrow> fields \<Rightarrow> OutboundJob \<Rightarrow> bool" where
  "job_promoted U fs job \<longleftrightarrow>
     (\<exists>t. cj_decode U (job_text job) = Some t \<and> lua_indexable t \<and> \<not> lua_falsy (Some t) \<and> promoted_fields U t = Some fs)"

lemma promoted_fields_job:
  assumes "lua_lib_ok U" and "delayable job"
  obtains fs where "job_promoted U fs job"
    "map_of fs ''jobId'' = Some (jobId job)" "map_of fs ''activityId'' = Some (activityId job)"
    "map_of fs ''actorUri'' = Some (actorUri job)" "map_of fs ''activity'' = Some (activity job)"
    "map_of fs ''targetInbox'' = Some (targetInbox job)" "map_of fs ''targetDomain'' = Some (targetDomain job)"
    "map_of fs ''attempt'' = Some (show_num (attempt job))"
    "map_of fs ''maxAttempts'' = Some (show_num (maxAttempts job))"
    "map_of fs ''notBeforeMs'' = Some (show_num (notBeforeMs job))"
    "map_of fs ''deferCount'' = Some (show_num (or_else (deferCount job) (Num 0)))"
    "map_of fs ''lastError'' = Some (or_else (lastError job) [])"
    "\<exists>m. json_field fs ''meta'' (w :: 'w) = (Inr m, w) \<and> rel_option lua_same (meta job) m"
proof -
  obtain t where t: "cj_decode U (job_text job) = Some t" "lua_indexable t" "\<not> lua_falsy (Some t)"
      "json_plain t" "json_small t"
    and g: "json_get ''jobId'' t = Some (JStr (jobId job))" "json_get ''activityId'' t = Some (JStr (activityId job))"
      "json_get ''actorUri'' t = Some (JStr (actorUri job))" "json_get ''activity'' t = Some (JStr (activity job))"
      "json_get ''targetInbox'' t = Some (JStr (targetInbox job))"
      "json_get ''targetDomain'' t = Some (JStr (targetDomain job))"
      "json_get ''attempt'' t = Some (JNum (num_of (attempt job)))"
      "json_get ''maxAttempts'' t = Some (JNum (num_of (maxAttempts job)))"
      "json_get ''notBeforeMs'' t = Some (JNum (num_of (notBeforeMs job)))"
      "json_get ''deferCount'' t = map_option (\<lambda>d. JNum (num_of d)) (deferCount job)"
      "json_get ''lastError'' t = map_option JStr (lastError job)"
    and m: "rel_option lua_same (meta job) (json_get ''meta'' t)"
    using decoded_job [OF assms] unfolding job_text_def by metis
  have fin: "finite_num (attempt job)" "finite_num (maxAttempts job)" "finite_num (notBeforeMs job)"
    "\<And>x. deferCount job = Some x \<Longrightarrow> finite_num x"
    using assms(2) by (auto simp: delayable_def)
  have n: "lua_tostring U (JNum (num_of x)) = show_num x" if "finite_num x" for x
    using finite_numD [OF that] by (metis lua_tostring.simps(2) show_num.simps(1))
  have d: "lua_tostring U (lua_or (json_get ''deferCount'' t) (JNum 0)) = show_num (or_else (deferCount job) (Num 0))"
    using n [OF fin(4)] by (cases "deferCount job") (auto simp: g lua_or_def or_else_def)
  have e: "lua_arg U (Some (lua_or (json_get ''lastError'' t) (JStr []))) = Some (or_else (lastError job) [])"
    by (cases "lastError job") (auto simp: g lua_or_def or_else_def)
  obtain fs where fs: "promoted_fields U t = Some fs"
    and f: "map_of fs ''jobId'' = Some (jobId job)" "map_of fs ''activityId'' = Some (activityId job)"
    "map_of fs ''actorUri'' = Some (actorUri job)" "map_of fs ''activity'' = Some (activity job)"
    "map_of fs ''targetInbox'' = Some (targetInbox job)" "map_of fs ''targetDomain'' = Some (targetDomain job)"
    "map_of fs ''attempt'' = Some (show_num (attempt job))"
    "map_of fs ''maxAttempts'' = Some (show_num (maxAttempts job))"
    "map_of fs ''notBeforeMs'' = Some (show_num (notBeforeMs job))"
    "map_of fs ''deferCount'' = Some (show_num (or_else (deferCount job) (Num 0)))"
    "map_of fs ''lastError'' = Some (or_else (lastError job) [])"
    "map_of fs ''meta'' = Some (case json_get ''meta'' t of None \<Rightarrow> [] | Some m \<Rightarrow> cj_encode U m)"
    using d e n fin by (auto simp: promoted_fields_def g lua_or_def)
  have me: "\<exists>m. json_field fs ''meta'' w = (Inr m, w) \<and> rel_option lua_same (meta job) m"
  proof (cases "meta job")
    case None
    then have "json_get ''meta'' t = None" using m by (cases "json_get ''meta'' t") auto
    then show ?thesis using f(12) None by (simp add: json_field_def field_opt_def io_return_def)
  next
    case (Some a)
    then obtain b where b: "json_get ''meta'' t = Some b" "lua_same a b" using m by (auto simp: option_rel_Some1)
    have "json_plain b" "json_small b" using json_get_plain [OF b(1)] t(4,5) by simp_all
    with assms(1) obtain x where x: "json_parse (cj_encode U b) = Some x" "lua_same b x"
      unfolding lua_lib_ok_def by blast
    have ne: "cj_encode U b \<noteq> []" using x(1) by (auto simp: json_parse_def skip_ws_def)
    then have "json_field fs ''meta'' w = (Inr (Some x), w)"
      using f(12) b(1) x(1) by (simp add: json_field_def field_opt_def json_parse_io_def io_bind_def io_return_def)
    then show ?thesis using lua_same_trans [OF b(2) x(2)] Some by auto
  qed
  have "job_promoted U fs job" using t fs by (auto simp: job_promoted_def)
  from this f(1-11) me show thesis by (rule that)
qed

lemma job_promoted_unique: "job_promoted U fs job \<Longrightarrow> job_promoted U fs' job \<Longrightarrow> fs = fs'"
  by (auto simp: job_promoted_def)

lemma plain_payload: "unreserved v \<Longrightarrow> payload_decode L cc v st = (Inr v, st)"
  by (simp add: payload_decode_def decode_def unreserved_def)

lemma promoted_read_back:
  assumes "lua_lib_ok U" and "delayable job" and "unreserved (activity job)" and "job_promoted U fs job"
  shows "\<exists>m. deserializeOutboundJob (payload_decode L cc) k fs st = (Inr ((stored_job job)\<lparr>meta := m\<rparr>), st) \<and>
    rel_option lua_same (meta job) m"
proof -
  obtain fs' where p: "job_promoted U fs' job"
    and f: "map_of fs' ''jobId'' = Some (jobId job)" "map_of fs' ''activityId'' = Some (activityId job)"
    "map_of fs' ''actorUri'' = Some (actorUri job)" "map_of fs' ''activity'' = Some (activity job)"
    "map_of fs' ''targetInbox'' = Some (targetInbox job)" "map_of fs' ''targetDomain'' = Some (targetDomain job)"
    "map_of fs' ''attempt'' = Some (show_num (attempt job))"
    "map_of fs' ''maxAttempts'' = Some (show_num (maxAttempts job))"
    "map_of fs' ''notBeforeMs'' = Some (show_num (notBeforeMs job))"
    "map_of fs' ''deferCount'' = Some (show_num (or_else (deferCount job) (Num 0)))"
    "map_of fs' ''lastError'' = Some (or_else (lastError job) [])"
    "\<exists>m. json_field fs' ''meta'' st = (Inr m, st) \<and> rel_option lua_same (meta job) m"
    by (rule promoted_fields_job [OF assms(1,2)])
  then obtain m where m: "json_field fs' ''meta'' st = (Inr m, st)" "rel_option lua_same (meta job) m" by blast
  have num: "stored_num x" if "finite_num x" for x using that by (cases x) (auto simp: finite_num_def stored_num_def)
  have n: "stored_num (attempt job)" "stored_num (maxAttempts job)" "stored_num (notBeforeMs job)"
    "stored_num (or_else (deferCount job) (Num 0))"
    using assms(2) num by (auto simp: delayable_def or_else_def stored_num_def split: option.splits)
  have "fs = fs'" using job_promoted_unique [OF assms(4) p] .
  then show ?thesis
    using m n by (intro exI [of _ m]) (simp add: deserializeOutboundJob_def f field_opt_text field_or_text
        plain_payload [OF assms(3)] io_bind_def io_return_def stored_job_def stored_num_text)
qed

context redis_server
begin

lemma promote_loop:
  assumes "lua_lib_ok U" and "delay_keys_ok K" and "distinct ids"
    and "\<forall>i \<in> set ids. \<exists>job. delayable job \<and> jobId job = i \<and> ks_hget (payloadKey K) i (view s) = Some (job_text job)"
    and "promote_outbound_loop U R K limit ids n s = (r, s')"
  shows "r = Inr (n + length ids) \<and>
    (\<exists>mids fss d. length mids = length ids \<and>
      ks_entries (readyKey K) (view s') = drop d (ks_entries (readyKey K) (view s) @ zip mids fss) \<and>
      list_all2 (\<lambda>fs i. \<exists>job. delayable job \<and> jobId job = i \<and>
        ks_hget (payloadKey K) i (view s) = Some (job_text job) \<and> job_promoted U fs job) fss ids) \<and>
    (\<forall>i. ks_hget (payloadKey K) i (view s') = (if i \<in> set ids then None else ks_hget (payloadKey K) i (view s))) \<and>
    ks_zlist (scheduleKey K) (view s') = filter (\<lambda>(x, _). x \<notin> set ids) (ks_zlist (scheduleKey K) (view s)) \<and>
    ks_pel (view s') = ks_pel (view s)"
  using assms(3-5)
proof (induction ids arbitrary: n s)
  case Nil
  then show ?case by (auto intro!: exI [of _ "[]"] exI [of _ 0])
next
  case (Cons i ids)
  have neq: "scheduleKey K \<noteq> payloadKey K" "payloadKey K \<noteq> scheduleKey K" "scheduleKey K \<noteq> readyKey K"
    "readyKey K \<noteq> scheduleKey K" "payloadKey K \<noteq> readyKey K" "readyKey K \<noteq> payloadKey K"
    using assms(2) by (auto simp: delay_keys_ok_def)
  obtain job where job: "delayable job" "jobId job = i" "ks_hget (payloadKey K) i (view s) = Some (job_text job)"
    using Cons.prems(2) by auto
  obtain fs where p: "job_promoted U fs job" by (rule promoted_fields_job [OF assms(1) job(1)])
  let ?s1 = "r_hdel R (payloadKey K) i (r_zrem R (scheduleKey K) i (r_xadd R (readyKey K) limit fs s))"
  let ?mid = "r_new_id R (readyKey K) s" and ?E = "ks_entries (readyKey K) (view s)"
  have run: "promote_outbound_loop U R K limit ids (Suc n) ?s1 = (r, s')"
    using Cons.prems(3) job(3) p by (auto simp: job_promoted_def redis_view Let_def)
  have h: "ks_hget (payloadKey K) j (view ?s1) = (if j = i then None else ks_hget (payloadKey K) j (view s))" for j
    using neq by (simp add: redis_view ks_rules)
  have z: "ks_zlist (scheduleKey K) (view ?s1) = filter (\<lambda>(x, _). x \<noteq> i) (ks_zlist (scheduleKey K) (view s))"
    using neq by (simp add: redis_view ks_rules)
  have e: "ks_entries (readyKey K) (view ?s1) = drop (r_trim R (readyKey K) limit s) (?E @ [(?mid, fs)])"
    using neq by (simp add: redis_view ks_rules)
  have pel: "ks_pel (view ?s1) = ks_pel (view s)" by (simp add: redis_view ks_rules)
  have "\<forall>j \<in> set ids. \<exists>job. delayable job \<and> jobId job = j \<and> ks_hget (payloadKey K) j (view ?s1) = Some (job_text job)"
    using Cons.prems(1,2) h by auto
  note IH = Cons.IH [OF _ this run]
  then have r: "r = Inr (Suc n + length ids)"
    and h': "\<forall>j. ks_hget (payloadKey K) j (view s') = (if j \<in> set ids then None else ks_hget (payloadKey K) j (view ?s1))"
    and z': "ks_zlist (scheduleKey K) (view s') = filter (\<lambda>(x, _). x \<notin> set ids) (ks_zlist (scheduleKey K) (view ?s1))"
    and pel': "ks_pel (view s') = ks_pel (view ?s1)"
    using Cons.prems(1) by auto
  obtain mids fss d where f: "length mids = length ids"
    "ks_entries (readyKey K) (view s') = drop d (drop (r_trim R (readyKey K) limit s) (?E @ [(?mid, fs)]) @ zip mids fss)"
    "list_all2 (\<lambda>fs j. \<exists>job. delayable job \<and> jobId job = j \<and>
        ks_hget (payloadKey K) j (view ?s1) = Some (job_text job) \<and> job_promoted U fs job) fss ids"
    using IH Cons.prems(1) unfolding e by auto
  obtain d' where "ks_entries (readyKey K) (view s') = drop d' ((?E @ [(?mid, fs)]) @ zip mids fss)"
    using f(2) drop_append_drop by metis
  then have ent: "ks_entries (readyKey K) (view s') = drop d' (?E @ zip (?mid # mids) (fs # fss))" by simp
  have "list_all2 (\<lambda>fs j. \<exists>job. delayable job \<and> jobId job = j \<and>
      ks_hget (payloadKey K) j (view s) = Some (job_text job) \<and> job_promoted U fs job) fss ids"
    by (rule list.rel_mono_strong [OF f(3)]) (auto simp: h split: if_splits)
  then have l2: "list_all2 (\<lambda>fs j. \<exists>job. delayable job \<and> jobId job = j \<and>
      ks_hget (payloadKey K) j (view s) = Some (job_text job) \<and> job_promoted U fs job) (fs # fss) (i # ids)"
    using job p by auto
  have ex: "\<exists>mids fss d. length mids = length (i # ids) \<and>
      ks_entries (readyKey K) (view s') = drop d (?E @ zip mids fss) \<and>
      list_all2 (\<lambda>fs j. \<exists>job. delayable job \<and> jobId job = j \<and>
        ks_hget (payloadKey K) j (view s) = Some (job_text job) \<and> job_promoted U fs job) fss (i # ids)"
  proof (intro exI conjI)
    show "length (?mid # mids) = length (i # ids)" using f(1) by simp
  qed (rule ent, rule l2)
  have "ks_zlist (scheduleKey K) (view s') = filter (\<lambda>(x, _). x \<notin> set (i # ids)) (ks_zlist (scheduleKey K) (view s))"
    by (auto simp: z z' intro: filter_cong)
  moreover have "ks_hget (payloadKey K) j (view s') = (if j \<in> set (i # ids) then None else ks_hget (payloadKey K) j (view s))" for j
    by (simp add: h h')
  moreover have "r = Inr (n + length (i # ids))" using r by simp
  moreover have "ks_pel (view s') = ks_pel (view s)" using pel pel' by simp
  ultimately show ?case using ex by blast
qed

end

section \<open>A Lua library that meets the assumptions\<close>

fun lua_norm :: "json \<Rightarrow> json" where
  "lua_norm (JArr xs) = (if xs = [] then JObj [] else JArr (map lua_norm xs))"
| "lua_norm (JObj kvs) = JObj (map (\<lambda>(k, v). (k, lua_norm v)) kvs)"
| "lua_norm j = j"

definition sample_lua :: lua_lib where
  "sample_lua = \<lparr>cj_decode = (\<lambda>s. map_option lua_norm (json_parse s)),
     cj_encode = (\<lambda>t. json_stringify (lua_norm t)), lua_text = (\<lambda>_. ''userdata'')\<rparr>"

lemma map_of_map_value: "map_of (map (\<lambda>(k, v). (k, f v)) kvs) k = map_option f (map_of kvs k)"
  by (induction kvs) auto

lemma lua_norm_facts:
  "json_plain j \<Longrightarrow> lua_same j (lua_norm j)"
  "json_plain j \<Longrightarrow> json_plain (lua_norm j)"
  "json_small j \<Longrightarrow> json_small (lua_norm j)"
proof (induction j)
  case (JArr xs)
  { case 1 then show ?case using JArr.IH(1)
      by (auto simp: list_all_iff list_all2_conv_all_nth intro!: lua_same.arr lua_same.empty)
    next case 2 then show ?case using JArr.IH(2) by (auto simp: list_all_iff)
    next case 3 then show ?case using JArr.IH(3) by (auto simp: list_all_iff) }
next
  case (JObj kvs)
  { case 1
    have "lua_same v (lua_norm v)" if "(k, v) \<in> set kvs" for k v
      using JObj.IH(1) [OF that, of v] 1 that by (fastforce simp: list_all_iff)
    then have "rel_option lua_same (map_of kvs k) (map_of (map (\<lambda>(k, v). (k, lua_norm v)) kvs) k)" for k
      by (cases "map_of kvs k") (auto simp: map_of_map_value dest: map_of_SomeD)
    then show ?case by (auto intro: lua_same.obj)
    next case 2 then show ?case using JObj.IH(2) by (fastforce simp: list_all_iff case_prod_unfold comp_def)
    next case 3 then show ?case using JObj.IH(3) by (fastforce simp: list_all_iff) }
qed (auto intro: lua_same.intros)

lemma sample_lua_ok: "lua_lib_ok sample_lua"
  using lua_norm_facts json_parse_stringify by (fastforce simp: lua_lib_ok_def sample_lua_def)

section \<open>Facts about consuming\<close>

fun acked_safely :: "bool \<Rightarrow> dq_event list \<Rightarrow> bool" where
  "acked_safely d [] = True"
| "acked_safely d (DqDlq j # es) = acked_safely True es"
| "acked_safely d (DqAck m # es) = (d \<and> acked_safely d es)"
| "acked_safely d (_ # es) = acked_safely d es"

fun loud :: "dq_event \<Rightarrow> bool" where
  "loud (DqAck _) = True"
| "loud (DqDlq _) = True"
| "loud (DqPark _ _) = True"
| "loud _ = False"

abbreviation quiet :: "dq_event list \<Rightarrow> bool" where
  "quiet es \<equiv> list_all (\<lambda>e. \<not> loud e) es"

lemma acked_safely_append:
  "acked_safely d (xs @ ys) \<longleftrightarrow> acked_safely d xs \<and> acked_safely (d \<or> (\<exists>j. DqDlq j \<in> set xs)) ys"
proof (induction xs arbitrary: d)
  case (Cons x xs)
  have "acked_safely True ys \<longleftrightarrow> acked_safely (d \<or> (\<exists>j. j = x4 \<or> DqDlq j \<in> set xs)) ys" for x4
    by (rule arg_cong [where f = "\<lambda>b. acked_safely b ys"]) auto
  with Cons show ?case by (cases x) auto
qed simp

lemma quiet_safe: "quiet es \<Longrightarrow> acked_safely d es"
proof (induction es)
  case (Cons e es)
  then show ?case by (cases e) auto
qed simp

lemma dlq_retry_events:
  assumes "dlq_retry n E job d tr = (ok, tr')"
  obtains new where "tr' = tr @ new" "ok \<Longrightarrow> \<exists>pre. new = pre @ [DqDlq job] \<and> quiet pre" "\<not> ok \<Longrightarrow> quiet new"
proof -
  have "\<exists>new. tr' = tr @ new \<and> (ok \<longrightarrow> (\<exists>pre. new = pre @ [DqDlq job] \<and> quiet pre)) \<and> (\<not> ok \<longrightarrow> quiet new)"
    using assms
  proof (induction n arbitrary: d tr)
    case (Suc n)
    show ?case
    proof (cases "dq_dlq_ok E tr")
      case True
      then show ?thesis using Suc.prems by auto
    next
      case False
      let ?f = "[DqDlqFailed, DqSleep d]"
      obtain new where "tr' = (tr @ ?f) @ new" "ok \<longrightarrow> (\<exists>pre. new = pre @ [DqDlq job] \<and> quiet pre)" "\<not> ok \<longrightarrow> quiet new"
        using Suc.IH Suc.prems False by fastforce
      then show ?thesis by (intro exI [of _ "?f @ new"]) (auto intro: exI [of _ "DqDlqFailed # DqSleep d # _"])
    qed
  qed simp
  with that show thesis by blast
qed

text \<open>What one entry may leave behind, for each outcome.\<close>

fun entry_outcome :: "string \<Rightarrow> admitted \<Rightarrow> dq_event list \<Rightarrow> bool" where
  "entry_outcome m (Yield m' j) es = (m' = m \<and> quiet es)"
| "entry_outcome m Skip es =
     (acked_safely False es \<and>
      ((\<exists>j pre. es = pre @ [DqPark m j] \<and> quiet pre) \<or> (\<exists>j. DqDlq j \<in> set es) \<or> quiet es))"
| "entry_outcome m OutOfFuel es = quiet es"

lemma quiet_no_dlq: "quiet xs \<Longrightarrow> DqDlq j \<notin> set xs"
  by (auto simp: list_all_iff)

lemma entry_outcome_prepend:
  assumes "quiet xs" and "entry_outcome m r es"
  shows "entry_outcome m r (xs @ es)"
proof (cases r)
  case Skip
  have "acked_safely False (xs @ es)"
    using assms Skip quiet_safe [OF assms(1)] quiet_no_dlq [OF assms(1)] by (simp add: acked_safely_append)
  moreover consider j pre where "es = pre @ [DqPark m j]" "quiet pre" | j where "DqDlq j \<in> set es" | "quiet es"
    using assms(2) Skip by auto
  then have "(\<exists>j pre. xs @ es = pre @ [DqPark m j] \<and> quiet pre) \<or> (\<exists>j. DqDlq j \<in> set (xs @ es)) \<or> quiet (xs @ es)"
  proof cases
    case 1
    then have "xs @ es = (xs @ pre) @ [DqPark m j]" "quiet (xs @ pre)" using assms(1) by auto
    then show ?thesis by blast
  qed (use assms(1) in auto)
  ultimately show ?thesis using Skip by simp
qed (use assms in auto)

lemma ack_event_outcome:
  assumes "new = pre @ [DqDlq job]" and "quiet pre"
  shows "\<exists>es. ack_event E m (tr @ new) = tr @ es \<and> entry_outcome m Skip es"
  using assms quiet_safe [OF assms(2)]
  by (intro exI [of _ "new @ [if dq_ack_ok E (tr @ new) then DqAck m else DqAckFailed]"])
     (auto simp: ack_event_def acked_safely_append)

lemma park_loop_events:
  assumes "park_loop n E m job d now tr = (r, tr')"
  shows "\<exists>es. tr' = tr @ es \<and> entry_outcome m r es \<and>
    (\<forall>m' j. r = Yield m' j \<longrightarrow> j = job \<and> (\<exists>t. \<not> must_wait job t \<and> (t = now \<or> DqRead t \<in> set es)))"
  using assms
proof (induction n arbitrary: d now tr)
  case (Suc n)
  let ?tr1 = "tr @ [DqParkFailed, DqSleep d]"
  let ?now1 = "dq_now E ?tr1"
  let ?tr2 = "?tr1 @ [DqRead ?now1]"
  consider "\<not> must_wait job now" | "must_wait job now" "dq_park_ok E tr"
    | "must_wait job now" "\<not> dq_park_ok E tr" "residence_expired (residence_of job ?now1)"
    | "must_wait job now" "\<not> dq_park_ok E tr" "\<not> residence_expired (residence_of job ?now1)" by blast
  then show ?case
  proof cases
    case 1
    then show ?thesis using Suc.prems by auto
  next
    case 2
    then show ?thesis using Suc.prems by (auto intro!: exI [of _ "[DqPark m job]"])
  next
    case 3
    obtain ok tr3 where dl: "dlq_retry (Suc n) E (job\<lparr>lastError := Some expired_parking_reason\<rparr>)
        DELAYED_OUTBOUND_PARK_RETRY_MS ?tr2 = (ok, tr3)" by fastforce
    have q: "quiet [DqParkFailed, DqSleep d, DqRead ?now1]" by simp
    obtain new where new: "tr3 = ?tr2 @ new" "ok \<Longrightarrow> \<exists>pre. new = pre @ [DqDlq (job\<lparr>lastError := Some expired_parking_reason\<rparr>)] \<and> quiet pre"
      "\<not> ok \<Longrightarrow> quiet new" using dlq_retry_events [OF dl] by metis
    have e: "(r, tr') = (if ok then (Skip, ack_event E m tr3) else (OutOfFuel, tr3))"
      using Suc.prems 3 dl by (simp add: Let_def del: dlq_retry.simps)
    show ?thesis
    proof (cases ok)
      case True
      obtain es where es: "ack_event E m (?tr2 @ new) = ?tr2 @ es" "entry_outcome m Skip es"
        using new(2) [OF True] ack_event_outcome by metis
      then have "tr' = tr @ ([DqParkFailed, DqSleep d, DqRead ?now1] @ es)" "r = Skip" using e True new(1) by auto
      then show ?thesis using entry_outcome_prepend [OF q es(2)] by blast
    next
      case False
      then have "tr' = tr @ ([DqParkFailed, DqSleep d, DqRead ?now1] @ new)" "r = OutOfFuel" using e new(1) by auto
      moreover have "entry_outcome m OutOfFuel ([DqParkFailed, DqSleep d, DqRead ?now1] @ new)"
        using q new(3) [OF False] by simp
      ultimately show ?thesis by blast
    qed
  next
    case 4
    let ?now2 = "dq_now E ?tr2"
    have q: "quiet [DqParkFailed, DqSleep d, DqRead ?now1, DqRead ?now2]" by simp
    have "park_loop n E m job (min (d * 2) DELAYED_OUTBOUND_PARK_MAX_RETRY_MS) ?now2 (?tr2 @ [DqRead ?now2]) = (r, tr')"
      using Suc.prems 4 by (simp add: Let_def)
    from Suc.IH [OF this] obtain es where es: "tr' = (?tr2 @ [DqRead ?now2]) @ es" "entry_outcome m r es"
      "\<forall>m' j. r = Yield m' j \<longrightarrow> j = job \<and> (\<exists>t. \<not> must_wait job t \<and> (t = ?now2 \<or> DqRead t \<in> set es))" by blast
    have "tr' = tr @ ([DqParkFailed, DqSleep d, DqRead ?now1, DqRead ?now2] @ es)" using es(1) by simp
    moreover have "DqRead ?now2 \<in> set ([DqParkFailed, DqSleep d, DqRead ?now1, DqRead ?now2] @ es)" by simp
    ultimately show ?thesis
      using entry_outcome_prepend [OF q es(2)] es(3) by (intro exI conjI) (assumption, assumption, auto)
  qed
qed simp

text \<open>The loops end when the clock moves at least as far as the process sleeps and Redis does not
  refuse the dead letter for ever.\<close>

fun slept :: "dq_event list \<Rightarrow> int" where
  "slept [] = 0"
| "slept (DqSleep d # es) = d + slept es"
| "slept (_ # es) = slept es"

definition dlq_failures :: "dq_event list \<Rightarrow> nat" where
  "dlq_failures es = length (filter (\<lambda>e. e = DqDlqFailed) es)"

lemma slept_append [simp]: "slept (xs @ ys) = slept xs + slept ys"
  by (induction xs rule: slept.induct) auto

lemma dlq_failures_append [simp]:
  "dlq_failures (xs @ ys) = dlq_failures xs + dlq_failures ys"
  "dlq_failures [] = 0" "dlq_failures (e # es) = (if e = DqDlqFailed then Suc (dlq_failures es) else dlq_failures es)"
  by (simp_all add: dlq_failures_def)

lemma dlq_retry_ends:
  assumes "\<forall>tr. N \<le> dlq_failures tr \<longrightarrow> dq_dlq_ok E tr" and "N \<le> dlq_failures tr + k" and "k < n"
  shows "fst (dlq_retry n E job d tr)"
  using assms(2,3)
proof (induction n arbitrary: k d tr)
  case (Suc n)
  show ?case
  proof (cases k)
    case 0
    then show ?thesis using assms(1) Suc.prems by simp
  next
    case (Suc k')
    then show ?thesis
      using Suc.IH [of "tr @ [DqDlqFailed, DqSleep d]" k'] Suc.prems by auto
  qed
qed simp

lemma park_loop_ends:
  assumes "\<forall>tr. t0 + slept tr \<le> dq_now E tr" and "\<forall>tr. N \<le> dlq_failures tr \<longrightarrow> dq_dlq_ok E tr"
    and "notBeforeMs job = Num t" and "1000 \<le> d" and "t0 + slept tr \<le> now" and "t \<le> t0 + slept tr + 1000 * int k"
    and "N + k < n"
  shows "fst (park_loop n E m job d now tr) \<noteq> OutOfFuel"
  using assms(4-)
proof (induction n arbitrary: k d now tr)
  case (Suc n)
  let ?tr1 = "tr @ [DqParkFailed, DqSleep d]"
  let ?now1 = "dq_now E ?tr1"
  let ?tr2 = "?tr1 @ [DqRead ?now1]"
  let ?now2 = "dq_now E ?tr2"
  show ?case
  proof (cases "must_wait job now \<and> \<not> dq_park_ok E tr")
    case True
    then have "2000 < t - now" by (simp add: must_wait_def assms(3) DELAYED_OUTBOUND_MIN_DELAY_MS_def)
    then have k: "0 < k" using Suc.prems(2,3) by (cases k) auto
    show ?thesis
    proof (cases "residence_expired (residence_of job ?now1)")
      case ex: True
      have "fst (dlq_retry (Suc n) E (job\<lparr>lastError := Some expired_parking_reason\<rparr>) DELAYED_OUTBOUND_PARK_RETRY_MS ?tr2)"
        by (rule dlq_retry_ends [OF assms(2), of _ N]) (use Suc.prems(4) in auto)
      then show ?thesis using True ex by (auto simp: Let_def split: prod.splits simp del: dlq_retry.simps)
    next
      case False
      have "fst (park_loop n E m job (min (d * 2) DELAYED_OUTBOUND_PARK_MAX_RETRY_MS) ?now2 (?tr2 @ [DqRead ?now2])) \<noteq> OutOfFuel"
      proof (rule Suc.IH [where k = "k - 1"])
        show "t0 + slept (?tr2 @ [DqRead ?now2]) \<le> ?now2"
          using assms(1) [rule_format, of ?tr2] by simp
        show "t \<le> t0 + slept (?tr2 @ [DqRead ?now2]) + 1000 * int (k - 1)"
          using Suc.prems(1,3) k by (simp add: of_nat_diff)
      qed (use Suc.prems(1,4) k in \<open>auto simp: DELAYED_OUTBOUND_PARK_MAX_RETRY_MS_def\<close>)
      then show ?thesis using True False by (simp add: Let_def)
    qed
  qed auto
qed simp

section \<open>Reading the stamp\<close>

lemma first_queued_same:
  assumes "rel_option lua_same (meta job) m"
  shows "first_queued_at (job\<lparr>meta := m\<rparr>) = first_queued_at job"
proof (cases "meta job")
  case None
  then show ?thesis using assms by (cases m) (auto simp: first_queued_at_def)
next
  case (Some a)
  then obtain b where b: "m = Some b" "lua_same a b" using assms by (auto simp: option_rel_Some1)
  have "(case json_get ''apdmFirstQueuedAtMs'' b of Some (JNum t) \<Rightarrow> if t > 0 then Some t else None | _ \<Rightarrow> None) =
      (case json_get ''apdmFirstQueuedAtMs'' a of Some (JNum t) \<Rightarrow> if t > 0 then Some t else None | _ \<Rightarrow> None)"
  proof (cases a)
    case (JObj kvs)
    with b(2) obtain c where c: "b = JObj c" "\<And>k. rel_option lua_same (map_of kvs k) (map_of c k)"
      by (auto elim: lua_same_get)
    from c(2) [of "''apdmFirstQueuedAtMs''"] show ?thesis
      by (cases "map_of kvs ''apdmFirstQueuedAtMs''"; cases "map_of c ''apdmFirstQueuedAtMs''")
         (auto simp: JObj c(1) elim: lua_same.cases)
  qed (use b(2) in \<open>auto elim: lua_same.cases\<close>)
  with Some b(1) show ?thesis by (simp add: first_queued_at_def)
qed

lemma first_queued_stored: "first_queued_at (stored_job job) = first_queued_at job"
  by (simp add: first_queued_at_def stored_job_def)

lemma first_queued_ensure:
  "0 < t \<Longrightarrow> first_queued_at (ensureFirstQueuedAt job t) = Some (case first_queued_at job of None \<Rightarrow> t | Some f \<Rightarrow> f)"
  by (auto simp: ensureFirstQueuedAt_def first_queued_at_def json_get_put or_else_def split: option.splits json.splits)

end
