(* ===== verification/Queue_Properties.thy ===== *)
theory Queue_Properties
  imports Queue_Core
begin

text \<open>
  What the work queue of \<open>sidecar-redis-queue-core.ts\<close> guarantees: jobs read back as they were
  written, batches reach the stream complete and in order, an intent fans out once, the domain
  limits hold, and how each consumer loop deals with a malformed message.
\<close>

section \<open>Results of connected operations\<close>

lemma connected_run [wp_rules]: "isConnected c \<Longrightarrow> connected c m s = m s"
  by (simp add: connected_def)

lemma not_connected: "\<not> isConnected c \<Longrightarrow> connected c m s = (Inl ''Queue not connected'', s)"
  by (simp add: connected_def io_throw_def)

section \<open>Counters with a time to live\<close>

text \<open>\<open>counter_at n r k\<close>: the counter \<open>k\<close> reads \<open>n\<close> and does not expire within \<open>r\<close> milliseconds.\<close>

definition counter_at :: "int \<Rightarrow> nat \<Rightarrow> string \<Rightarrow> keyspace \<Rightarrow> bool" where
  "counter_at n r k ks \<longleftrightarrow> ks_counter k ks = n \<and> key_lives r k ks"

lemma ks_counter_absent: "ks_get k ks = None \<Longrightarrow> ks_counter k ks = 0"
  by (simp add: ks_counter_def)

lemma counter_at_incrby: "counter_at n r k ks \<Longrightarrow> counter_at (n + d) r k (ks_incrby k d ks)"
  by (simp add: counter_at_def ks_counter_incrby key_lives_incrby_mono)

lemma counter_at_tick: "counter_at n (r + d) k ks \<Longrightarrow> counter_at n r k (ks_tick d ks)"
  using key_lives_mono [of "r + d" k ks d] by (simp add: counter_at_def ks_counter_tick key_lives_tick)

lemma ks_live_incrby: "ks_live k (ks_incrby k d ks)"
  by (auto simp: ks_incrby_def ks_purge_def ks_live_def Let_def split: option.splits)

lemma counter_at_expire:
  assumes "ks_counter k ks = n" and "int r < 1000 * secs"
  shows "counter_at (n + d) r k (ks_expire k secs (ks_incrby k d ks))"
  using assms by (simp add: counter_at_def ks_counter_expire ks_live_incrby ks_counter_incrby
      key_lives_expire ks_str_incrby)

subsection \<open>The rate limit\<close>

datatype rate_op = RateCheck | RatePass nat

fun rate_time :: "rate_op \<Rightarrow> nat" where
  "rate_time (RatePass d) = d"
| "rate_time RateCheck = 0"

text \<open>The answers to the checks of one domain, in order, with time passing in between.\<close>

fun rate_run ::
  "'s redis \<Rightarrow> queue_config \<Rightarrow> string \<Rightarrow> int \<Rightarrow> int \<Rightarrow> rate_op list \<Rightarrow> 's \<Rightarrow> (string + bool) list" where
  "rate_run R c domain limit window [] s = []"
| "rate_run R c domain limit window (RateCheck # xs) s =
     (case checkDomainRateLimit R c domain limit window s of
        (r, s') \<Rightarrow> r # rate_run R c domain limit window xs s')"
| "rate_run R c domain limit window (RatePass d # xs) s = rate_run R c domain limit window xs (r_tick R d s)"

definition rate_elapsed :: "rate_op list \<Rightarrow> nat" where
  "rate_elapsed xs = sum_list (map rate_time xs)"

definition rate_checks :: "rate_op list \<Rightarrow> nat" where
  "rate_checks xs = length (filter (\<lambda>x. x = RateCheck) xs)"

context redis_server
begin

lemma rate_run_from:
  assumes "isConnected c" and "int r < 1000 * window" and "rate_elapsed xs \<le> r"
    and "(n = 0 \<and> ks_get (rateKey domain) (view s) = None) \<or> (0 < n \<and> counter_at (int n) r (rateKey domain) (view s))"
  shows "rate_run R c domain limit window xs s =
    map (\<lambda>i. Inr (int (n + i + 1) \<le> limit)) [0..<rate_checks xs]"
  using assms
proof (induction xs arbitrary: n r s)
  case Nil
  then show ?case by (simp add: rate_checks_def)
next
  case (Cons x xs)
  let ?k = "rateKey domain"
  show ?case
  proof (cases x)
    case RateCheck
    let ?s1 = "r_incrby R ?k 1 s"
    let ?s2 = "if n = 0 then r_expire R ?k window ?s1 else ?s1"
    have cnt: "ks_counter ?k (view s) = int n"
      using Cons.prems(4) by (auto simp: ks_counter_absent counter_at_def)
    have run: "checkDomainRateLimit R c domain limit window s = (Inr (int (n + 1) \<le> limit), ?s2)"
      using Cons.prems(1) cnt
      by (simp add: checkDomainRateLimit_def connected_run rate_script_def Let_def redis_view ks_rules add.commute)
    have "counter_at (int (n + 1)) r ?k (view ?s2)"
    proof (cases "n = 0")
      case True
      then show ?thesis
        using counter_at_expire [OF cnt Cons.prems(2), of 1] by (simp add: redis_view)
    next
      case False
      then show ?thesis
        using Cons.prems(4) counter_at_incrby [of "int n" r ?k "view s" 1] by (simp add: redis_view add.commute)
    qed
    moreover have "rate_elapsed xs \<le> r" using Cons.prems(3) RateCheck by (simp add: rate_elapsed_def)
    ultimately have rest: "rate_run R c domain limit window xs ?s2 =
        map (\<lambda>i. Inr (int (Suc n + i + 1) \<le> limit)) [0..<rate_checks xs]"
      using Cons.IH [OF Cons.prems(1,2), of "Suc n" ?s2] by simp
    have "[0..<Suc (rate_checks xs)] = 0 # map Suc [0..<rate_checks xs]"
      by (simp only: map_Suc_upt upt_conv_Cons zero_less_Suc)
    then have eq: "map (\<lambda>i. Inr (int (n + i + 1) \<le> limit)) [0..<rate_checks (x # xs)] =
        Inr (int (n + 1) \<le> limit) # map (\<lambda>i. Inr (int (Suc n + i + 1) \<le> limit)) [0..<rate_checks xs]"
      using RateCheck by (simp add: rate_checks_def)
    show ?thesis using eq unfolding RateCheck rate_run.simps run prod.case rest by (rule sym)
  next
    case (RatePass d)
    have le: "d \<le> r" "rate_elapsed xs \<le> r - d" and small: "int (r - d) < 1000 * window"
      using Cons.prems(2,3) RatePass by (simp_all add: rate_elapsed_def)
    have "(n = 0 \<and> ks_get ?k (view (r_tick R d s)) = None) \<or> (0 < n \<and> counter_at (int n) (r - d) ?k (view (r_tick R d s)))"
      using Cons.prems(4) counter_at_tick [of "int n" "r - d" d ?k "view s"] le(1) ks_get_tick_mono [of ?k d "view s"]
      by (cases "ks_get ?k (ks_tick d (view s))") (auto simp: redis_view)
    from Cons.IH [OF Cons.prems(1) small le(2) this] show ?thesis
      using RatePass by (simp add: rate_checks_def)
  qed
qed

end

subsection \<open>Concurrency slots\<close>

datatype slot_op = SlotAcquire | SlotRelease | SlotPass nat

fun slot_time :: "slot_op \<Rightarrow> nat" where
  "slot_time (SlotPass d) = d"
| "slot_time _ = 0"

definition slot_elapsed :: "slot_op list \<Rightarrow> nat" where
  "slot_elapsed xs = sum_list (map slot_time xs)"

text \<open>
  Workers acquire and release the slots of one domain; a worker without a slot does not release
  one.  The run lists, for each acquisition, the number of slots held before it and its answer.
\<close>

fun slot_run ::
  "'s redis \<Rightarrow> queue_config \<Rightarrow> string \<Rightarrow> int \<Rightarrow> slot_op list \<Rightarrow> nat \<Rightarrow> 's \<Rightarrow> (nat \<times> (string + bool)) list" where
  "slot_run R c domain limit [] held s = []"
| "slot_run R c domain limit (SlotAcquire # xs) held s =
     (case acquireDomainSlot R c domain limit s of
        (r, s') \<Rightarrow> (held, r) # slot_run R c domain limit xs (if r = Inr True then Suc held else held) s')"
| "slot_run R c domain limit (SlotRelease # xs) held s =
     (if held = 0 then slot_run R c domain limit xs held s
      else slot_run R c domain limit xs (held - 1) (snd (releaseDomainSlot R c domain s)))"
| "slot_run R c domain limit (SlotPass d # xs) held s = slot_run R c domain limit xs held (r_tick R d s)"

definition slots_ok :: "nat \<Rightarrow> nat \<Rightarrow> string \<Rightarrow> keyspace \<Rightarrow> bool" where
  "slots_ok held r k ks \<longleftrightarrow> (held = 0 \<and> ks_get k ks = None) \<or> counter_at (int held) r k ks"

context redis_server
begin

lemma acquire_slot:
  assumes "isConnected c" and "slots_ok held r (slotsKey domain) (view s)" and "r < 3600000"
  shows "fst (acquireDomainSlot R c domain limit s) = Inr (int held < limit) \<and>
    slots_ok (if int held < limit then Suc held else held) r (slotsKey domain)
      (view (snd (acquireDomainSlot R c domain limit s)))"
proof -
  let ?k = "slotsKey domain"
  let ?s1 = "r_incrby R ?k 1 s"
  let ?s2 = "if held = 0 then r_expire R ?k 3600 ?s1 else ?s1"
  have cnt: "ks_counter ?k (view s) = int held"
    using assms(2) by (auto simp: slots_ok_def ks_counter_absent counter_at_def)
  have two: "counter_at (int held + 1) r ?k (view ?s2)"
    using assms(2,3) counter_at_expire [OF cnt, of r 3600 1] counter_at_incrby [of "int held" r ?k "view s" 1]
    by (auto simp: slots_ok_def redis_view)
  have run: "acquireDomainSlot R c domain limit s =
      (if int held < limit then (Inr True, ?s2) else (Inr False, r_incrby R ?k (- 1) ?s2))"
    using assms(1) cnt
    by (auto simp: acquireDomainSlot_def connected_run slot_script_def Let_def redis_view ks_rules)
  show ?thesis
    using two counter_at_incrby [OF two, of "- 1"] unfolding run
    by (auto simp: slots_ok_def redis_view add.commute)
qed

lemma release_slot:
  assumes "isConnected c" and "slots_ok held r (slotsKey domain) (view s)" and "0 < held"
  shows "slots_ok (held - 1) r (slotsKey domain) (view (snd (releaseDomainSlot R c domain s)))"
  using assms counter_at_incrby [of "int held" r "slotsKey domain" "view s" "- 1"]
  by (auto simp: slots_ok_def releaseDomainSlot_def connected_run redis_view of_nat_diff)

lemma slots_pass:
  assumes "slots_ok held r k (view s)" and "d \<le> r"
  shows "slots_ok held (r - d) k (view (r_tick R d s))"
  using assms counter_at_tick [of "int held" "r - d" d k "view s"] ks_get_tick_mono [of k d "view s"]
  by (cases "ks_get k (ks_tick d (view s))") (auto simp: slots_ok_def redis_view)

lemma slot_run_exact:
  assumes "isConnected c" and "slots_ok held r (slotsKey domain) (view s)" and "slot_elapsed xs \<le> r" and "r < 3600000"
    and "(h, a) \<in> set (slot_run R c domain limit xs held s)"
  shows "a = Inr (int h < limit)"
  using assms
proof (induction xs arbitrary: held r s)
  case (Cons x xs)
  show ?case
  proof (cases x)
    case SlotAcquire
    obtain r1 s1 where a: "acquireDomainSlot R c domain limit s = (r1, s1)" by fastforce
    note acq = acquire_slot [OF Cons.prems(1,2,4), of limit, unfolded a fst_conv snd_conv]
    have e: "slot_elapsed xs \<le> r" using Cons.prems(3) SlotAcquire by (simp add: slot_elapsed_def)
    from Cons.prems(5) SlotAcquire a consider "(h, a) = (held, r1)"
      | "(h, a) \<in> set (slot_run R c domain limit xs (if r1 = Inr True then Suc held else held) s1)" by auto
    then show ?thesis
      using acq Cons.IH [OF Cons.prems(1) _ e Cons.prems(4)] by cases (auto split: if_splits)
  next
    case SlotRelease
    then show ?thesis
      using Cons.prems Cons.IH release_slot [OF Cons.prems(1,2)]
      by (auto simp: slot_elapsed_def split: if_splits)
  next
    case (SlotPass d)
    then have e: "d \<le> r" "slot_elapsed xs \<le> r - d" using Cons.prems(3) by (simp_all add: slot_elapsed_def)
    then show ?thesis
      using Cons.IH [OF Cons.prems(1) slots_pass [OF Cons.prems(2) e(1)] e(2)] Cons.prems(4,5) SlotPass by simp
  qed
qed simp

lemma slot_lease:
  assumes "isConnected c" and "ks_get (slotsKey domain) (view s) = None"
  shows "fst (acquireDomainSlot R c domain 1 s) = Inr True"
    and "fst (acquireDomainSlot R c domain 1 (r_tick R 3600000 (snd (acquireDomainSlot R c domain 1 s)))) = Inr True"
proof -
  let ?k = "slotsKey domain" and ?s1 = "snd (acquireDomainSlot R c domain 1 s)"
  have a: "slots_ok 0 r ?k (view s)" for r using assms(2) by (simp add: slots_ok_def)
  show "fst (acquireDomainSlot R c domain 1 s) = Inr True"
    using acquire_slot [OF assms(1) a, of 0 1] by simp
  have "view ?s1 = ks_expire ?k 3600 (ks_incrby ?k 1 (view s))"
    using assms by (simp add: acquireDomainSlot_def connected_run slot_script_def Let_def redis_view ks_rules ks_counter_absent)
  then have "\<not> key_lives 0 ?k (view (r_tick R 3600000 ?s1))"
    by (simp add: redis_view key_lives_tick key_lives_expire)
  then have "slots_ok 0 0 ?k (view (r_tick R 3600000 ?s1))"
    by (simp add: slots_ok_def key_lives_get)
  from acquire_slot [OF assms(1) this, of 1]
  show "fst (acquireDomainSlot R c domain 1 (r_tick R 3600000 ?s1)) = Inr True" by simp
qed

end

section \<open>Fan-out of an intent\<close>

lemma parse_show_nat [simp]: "parse_int (show_nat n) = Num (int n)"
  using parse_show_int [of "int n"] by (simp add: show_int_def)

lemma ks_live_hset: "ks_live k (ks_hset k f v ks)"
  by (auto simp: ks_hset_def ks_purge_def ks_live_def Let_def split: option.splits)

lemma ks_hget_expire_tick:
  assumes "ks_live k ks" and "int d < 1000 * secs"
  shows "ks_hget k f (ks_tick d (ks_expire k secs ks)) = ks_hget k f ks"
  using assms by (simp add: ks_hget_def ks_live_def ks_tick_def ks_expire_def)

context redis_server
begin

lemma fanout_first:
  assumes "isConnected c" and "jobs \<noteq> []"
    and "enqueueOutboundBatchForIntent R enc c iid jobs now s = (Inr (True, n), s')"
  obtains fss ids s1 where "list_all2 (written_as enc) fss jobs"
    and "xadd_all R (outboundStreamKey c) (maxStreamLength c) fss s = (ids, s1)"
    and "n = Num (int (length jobs))"
    and "s' = r_expire R (outboxIntentStateKey iid) 604800
      (r_hset R (outboxIntentStateKey iid) ''jobCount'' (show_nat (length jobs))
        (r_hset R (outboxIntentStateKey iid) ''outboundEnqueuedAt'' (show_int now) s1))"
proof -
  obtain fss cache where ser: "serialize_jobs enc jobs [] = Inr (fss, cache)"
    using assms by (auto simp: enqueueOutboundBatchForIntent_def connected_run Let_def split: sum.splits)
  have ok: "list_all2 (written_as enc) fss jobs"
    using serialize_jobs_ok [OF ser] by (simp add: cache_ok_def)
  then have l: "length fss = length jobs" by (rule list_all2_lengthD)
  obtain ids s1 where add: "xadd_all R (outboundStreamKey c) (maxStreamLength c) fss s = (ids, s1)" by fastforce
  show thesis
    by (rule that [OF ok add]; use assms ser add l in
      \<open>auto simp: enqueueOutboundBatchForIntent_def connected_run Let_def fanout_script_def split: if_splits\<close>)
qed

lemma fanout_again:
  assumes "isConnected c" and "jobs \<noteq> []"
    and "enqueueOutboundBatchForIntent R enc c iid jobs now s = (Inr (True, n), s')"
    and "d < 604800000" and "jobs' \<noteq> []"
    and "enqueueOutboundBatchForIntent R enc c iid jobs' now' (r_tick R d s') = (Inr (b, m), s'')"
  shows "\<not> b \<and> m = n \<and> s'' = r_tick R d s'"
proof -
  let ?k = "outboxIntentStateKey iid"
  obtain fss ids s1 where f: "list_all2 (written_as enc) fss jobs"
    "xadd_all R (outboundStreamKey c) (maxStreamLength c) fss s = (ids, s1)" "n = Num (int (length jobs))"
    "s' = r_expire R ?k 604800 (r_hset R ?k ''jobCount'' (show_nat (length jobs))
        (r_hset R ?k ''outboundEnqueuedAt'' (show_int now) s1))"
    using fanout_first [OF assms(1-3)] by metis
  have h: "r_hget R ?k ''outboundEnqueuedAt'' (r_tick R d s') = Some (show_int now)"
    "r_hget R ?k ''jobCount'' (r_tick R d s') = Some (show_nat (length jobs))"
    using assms(4) by (simp_all add: f(4) redis_view ks_hget_expire_tick ks_live_hset ks_rules)
  show ?thesis
    using assms(1,5,6) h f(3)
    by (auto simp: enqueueOutboundBatchForIntent_def connected_run Let_def fanout_script_def or_else_def
        split: sum.splits)
qed

lemma fanout_entries:
  assumes "isConnected c" and "jobs \<noteq> []" and "outboxIntentStateKey iid \<noteq> outboundStreamKey c"
    and "enqueueOutboundBatchForIntent R enc c iid jobs now s = (Inr (True, n), s')"
  shows "\<exists>ids fss d. length ids = length jobs \<and> list_all2 (written_as enc) fss jobs \<and>
    ks_entries (outboundStreamKey c) (view s') = drop d (ks_entries (outboundStreamKey c) (view s) @ zip ids fss)"
proof -
  obtain fss ids s1 where f: "list_all2 (written_as enc) fss jobs"
    "xadd_all R (outboundStreamKey c) (maxStreamLength c) fss s = (ids, s1)"
    "s' = r_expire R (outboxIntentStateKey iid) 604800
      (r_hset R (outboxIntentStateKey iid) ''jobCount'' (show_nat (length jobs))
        (r_hset R (outboxIntentStateKey iid) ''outboundEnqueuedAt'' (show_int now) s1))"
    using fanout_first [OF assms(1,2,4)] by metis
  have e: "ks_entries (outboundStreamKey c) (view s') = ks_entries (outboundStreamKey c) (view s1)"
    using assms(3) by (simp add: f(3) redis_view ks_rules)
  have "length ids = length jobs" using xadd_all_entries [OF f(2)] list_all2_lengthD [OF f(1)] by simp
  then show ?thesis unfolding e using f(1) xadd_all_entries [OF f(2)] by blast
qed

lemma set_nx_once:
  assumes "set_nx R k v ttl s = (Inr True, s')" and "int d < 1000 * ttl"
  shows "fst (set_nx R k v' ttl' (r_tick R d s')) = Inr False"
proof -
  have "key_lives d k (view s')"
    using assms by (auto simp: set_nx_def redis_view key_lives_set split: if_splits)
  then have "key_lives 0 k (view (r_tick R d s'))" by (simp add: redis_view key_lives_tick)
  then have "ks_get k (view (r_tick R d s')) \<noteq> None" by (simp only: key_lives_get not_not)
  then show ?thesis by (auto simp: set_nx_def redis_view)
qed

end

section \<open>Consumer rounds\<close>

context payload_codec
begin

text \<open>Methods whose answer does not depend on the decoder's state, and which keep that state good.\<close>

definition stable :: "('w, 'a) io \<Rightarrow> bool" where
  "stable m \<longleftrightarrow> (\<forall>st st'. good st \<longrightarrow> good st' \<longrightarrow>
     (\<exists>r u u'. m st = (r, u) \<and> m st' = (r, u') \<and> good u \<and> good u'))"

lemma stableE:
  assumes "stable m" and "good st" and "good st'"
  obtains r u u' where "m st = (r, u)" "m st' = (r, u')" "good u" "good u'"
  using assms unfolding stable_def by blast

lemma stable_dec: "stable (dec v)"
  unfolding stable_def by (metis dec_good dec_same prod.collapse)

lemma stable_return: "stable (io_return a)" and stable_throw: "stable (io_throw e)"
  by (simp_all add: stable_def io_return_def io_throw_def)

lemma stable_bind:
  assumes "stable m" and "\<And>a. stable (f a)"
  shows "stable (io_bind m f)"
  unfolding stable_def
proof (intro allI impI)
  fix st st' assume g: "good st" "good st'"
  obtain r u u' where m: "m st = (r, u)" "m st' = (r, u')" "good u" "good u'"
    by (rule stableE [OF assms(1) g])
  show "\<exists>r u u'. io_bind m f st = (r, u) \<and> io_bind m f st' = (r, u') \<and> good u \<and> good u'"
  proof (cases r)
    case (Inl e)
    then show ?thesis using m by (simp add: io_bind_def)
  next
    case (Inr a)
    obtain r2 v v' where "f a u = (r2, v)" "f a u' = (r2, v')" "good v" "good v'"
      by (rule stableE [OF assms(2) m(3,4)])
    then show ?thesis using Inr m by (simp add: io_bind_def)
  qed
qed

lemma stable_fields:
  "stable (requireField fs k i)" "stable (requireInt fs k i)" "stable (json_parse_io t)" "stable (json_field fs k)"
  "stable (parse_targets i t)"
  by (auto simp: requireField_def requireInt_def json_parse_io_def json_field_def parse_targets_def
      intro!: stable_bind stable_return stable_throw split: option.split json.split)

lemma stable_deserialize:
  "stable (deserializeOutboundJob dec i fs)" "stable (deserializeOutboxIntent dec i fs)"
  unfolding deserializeOutboundJob_def deserializeOutboxIntent_def
  by (intro stable_bind stable_dec stable_return stable_fields)+

text \<open>What a message yields, judged from a fixed good state.\<close>

lemma round_lenient_yields:
  assumes "\<And>i fs. stable (deser i fs)" and "good st" and "good st0"
  shows "fst (round_lenient deser ms st) =
      List.map_filter (\<lambda>(i, fs). case fst (deser i fs st0) of Inl _ \<Rightarrow> None | Inr j \<Rightarrow> Some (i, j)) ms
    \<and> good (snd (round_lenient deser ms st))"
  using assms(2)
proof (induction ms arbitrary: st)
  case Nil
  then show ?case by simp
next
  case (Cons m ms)
  obtain i fs where m: "m = (i, fs)" by fastforce
  obtain r u where d: "deser i fs st = (r, u)" by fastforce
  have "fst (deser i fs st0) = r" "good u"
    using stableE [OF assms(1) Cons.prems assms(3), of i fs] d by (metis fst_conv, metis prod.inject)
  with Cons.IH [of u] show ?case
    by (auto simp: m d List.map_filter_simps split: sum.splits prod.splits)
qed

lemma two_rounds:
  assumes "\<And>i fs. stable (deser i fs)" and "good st" and "good st0"
  shows "fst (case round_lenient deser ms st of (ys, st1) \<Rightarrow>
      (case round_lenient deser ns st1 of (zs, st2) \<Rightarrow> (ys @ zs, st2))) =
    List.map_filter (\<lambda>(i, fs). case fst (deser i fs st0) of Inl _ \<Rightarrow> None | Inr j \<Rightarrow> Some (i, j)) (ms @ ns)"
proof -
  obtain ys st1 zs st2 where r: "round_lenient deser ms st = (ys, st1)" "round_lenient deser ns st1 = (zs, st2)"
    by fastforce
  have g: "good st1" using round_lenient_yields [where deser = deser and ms = ms, OF assms] r(1) by simp
  from round_lenient_yields [where deser = deser and ms = ms, OF assms] round_lenient_yields [where deser = deser and ms = ns, OF assms(1) g assms(3)] r
  show ?thesis by (simp add: List.map_filter_def)
qed

end

section \<open>Reading back through the codec\<close>

context codec_library
begin

lemma read_back_outbound:
  assumes "written_as (payload_encode L cc) fs job" and "writable_job job" and "unreserved (activity job)"
    and "codec_inv L cc st"
  shows "fst (deserializeOutboundJob (payload_decode L cc) i fs st) = Inr (stored_job job)"
proof -
  obtain e where e: "payload_encode L cc (activity job) = Inr e" "fs = serializeOutboundJob job e"
    using assms(1) by (auto simp: written_as_def)
  have "fst (payload_decode L cc e st) = Inr (activity job)"
    by (rule pc.dec_enc [OF assms(4,3) e(1)])
  then show ?thesis using outbound_read_back [OF assms(2)] e(2) by (metis fst_conv prod.collapse)
qed

lemma read_back_intent:
  assumes "serializeOutboxIntent (payload_encode L cc) i = Inr fs" and "writable_intent i"
    and "unreserved (oi_activity i)" and "codec_inv L cc st"
  shows "fst (deserializeOutboxIntent (payload_decode L cc) k fs st) = Inr (stored_intent i)"
proof (rule intent_read_back [OF assms(2,1), where P = "codec_inv L cc"])
  fix v e st
  assume v: "payload_encode L cc v = Inr e" "v = oi_activity i \<or> v = json_stringify (JArr (oi_targets i))"
    and st: "codec_inv L cc st"
  have "unreserved v" using v(2) assms(3)
    by (auto simp: unreserved_def starts_with_def REDIS_STREAM_PAYLOAD_UNKNOWN_PREFIX_def)
  then show "fst (payload_decode L cc e st) = Inr v \<and> codec_inv L cc (snd (payload_decode L cc e st))"
    using pc.dec_enc [OF st _ v(1)] pc.dec_good [OF st] by blast
qed (rule assms(4))

end

context codec_library
begin

lemmas outbound_yields =
  pc.two_rounds [where deser = "deserializeOutboundJob (payload_decode L cc)" for cc,
    OF pc.stable_deserialize(1) _ new_codec_state_inv]
lemmas intent_yields =
  pc.two_rounds [where deser = "deserializeOutboxIntent (payload_decode L cc)" for cc,
    OF pc.stable_deserialize(2) _ new_codec_state_inv]

end

lemma round_strict_stops:
  assumes "\<exists>e. deser i fs = Inl e"
  shows "fst (round_strict deser (ms @ (i, fs) # rest)) = fst (round_strict deser ms) \<and>
    \<not> snd (round_strict deser (ms @ (i, fs) # rest))"
  using assms by (induction ms) (auto split: sum.splits prod.splits)

lemma strict_round_cut:
  assumes "\<exists>e. deser i bad = Inl e" and "normalizeClaimedMessages pending = ms @ (i, bad) # rest"
  shows "strict_round deser pending messages = strict_round deser (Some (map (\<lambda>(i, fs). EntryPair i fs) ms)) None"
proof -
  have n: "normalizeClaimedMessages (Some (map (\<lambda>(i, fs). EntryPair i fs) ms)) = ms"
    by (induction ms) auto
  have z: "stream_messages None = []" by (simp add: stream_messages_def)
  show ?thesis
    using round_strict_stops [of deser i bad ms rest] assms by (auto simp: strict_round_def n z split: prod.splits)
qed

section \<open>Properties\<close>

text \<open>C25: A batch of outbound jobs that is accepted reaches the outbound stream complete and in
  order, with one message id per job, and every entry reads back as the job that was written (absent
  counters become 0, an empty last error becomes absent), from any state of the decode cache; MAXLEN
  trimming drops only the oldest entries and leaves at least \<open>maxStreamLength\<close> of them.\<close>
theorem outbound_batch_durable:
  assumes "redis_server R view" and "codec_lib_ok L" and "isConnected c"
    and "\<forall>job \<in> set jobs. writable_job job \<and> unreserved (activity job)"
    and "core_enqueueOutboundBatch R (payload_encode L cc) c jobs s = (Inr ids, s')"
  shows "length ids = length jobs \<and>
    (\<exists>fss d. ks_entries (outboundStreamKey c) (view s') =
        drop d (ks_entries (outboundStreamKey c) (view s) @ zip ids fss) \<and>
      list_all2 (\<lambda>fs job. \<forall>i st. codec_inv L cc st \<longrightarrow>
        fst (deserializeOutboundJob (payload_decode L cc) i fs st) = Inr (stored_job job)) fss jobs) \<and>
    min (maxStreamLength c) (length (ks_entries (outboundStreamKey c) (view s)) + length jobs)
      \<le> length (ks_entries (outboundStreamKey c) (view s'))"
proof -
  have chunks: "enqueue_chunks R (payload_encode L cc) c jobs [] [] s = (Inr ids, s')"
    using assms(3,5) by (auto simp: core_enqueueOutboundBatch_def connected_run io_return_def
        enqueue_chunks.simps [of _ _ _ "[]"] split: if_splits)
  obtain new fss d where e: "ids = [] @ new" "length new = length jobs"
    "list_all2 (written_as (payload_encode L cc)) fss jobs"
    "ks_entries (outboundStreamKey c) (view s') = drop d (ks_entries (outboundStreamKey c) (view s) @ zip new fss)"
    "min (maxStreamLength c) (length (ks_entries (outboundStreamKey c) (view s)) + length jobs)
      \<le> length (ks_entries (outboundStreamKey c) (view s'))"
    using redis_server.enqueue_chunks_entries [OF assms(1) chunks] by (auto simp: cache_ok_def)
  have "list_all2 (\<lambda>fs job. \<forall>i st. codec_inv L cc st \<longrightarrow>
      fst (deserializeOutboundJob (payload_decode L cc) i fs st) = Inr (stored_job job)) fss jobs"
    using e(3) codec_library.read_back_outbound [OF codec_library.intro [OF assms(2)]] assms(4)
    by (auto simp: list_all2_conv_all_nth)
  moreover have "ids = new" using e(1) by simp
  ultimately show ?thesis using e(2,4,5) by blast
qed

definition sample_queue :: queue_config where
  "sample_queue = (queue_constructor (\<lambda>_. None)
     \<lparr>o_inboundStreamKey = None, o_outboundStreamKey = None, o_outboxIntentStreamKey = None,
      o_originReconcileStreamKey = None, o_inboundDlqStreamKey = None, o_outboundDlqStreamKey = None,
      o_outboxIntentDlqStreamKey = None, o_originReconcileDlqStreamKey = None, o_maxDlqLength = None,
      o_consumerGroup = None, o_claimIdleTimeMs = None, o_maxStreamLength = Some 2,
      o_readBatchCount = None, o_claimBatchCount = None\<rparr>)\<lparr>isConnected := True\<rparr>"

definition sample_job :: OutboundJob where
  "sample_job = \<lparr>jobId = ''j1'', activityId = ''a1'', actorUri = ''https://a'', activity = replicate 200 CHR ''a'',
     targetInbox = ''https://b/inbox'', targetDomain = ''b'', attempt = Num 0, maxAttempts = Num 8,
     notBeforeMs = Num 0, deferCount = None, lastError = Some [],
     meta = Some (JObj [(''isPublicActivity'', JBool True)])\<rparr>"

lemma sample_facts:
  "isConnected sample_queue" "maxStreamLength sample_queue = 2"
  "outboundStreamKey sample_queue = ''ap:queue:outbound:v1''"
  "writable_job sample_job"
  by (simp_all add: sample_queue_def queue_constructor_def or_else_def sample_job_def writable_job_def
      stored_num_def stored_json_def)

lemma sample_activity: "activity sample_job = replicate 200 CHR ''a''" "unreserved (activity sample_job)"
proof -
  show a: "activity sample_job = replicate 200 CHR ''a''" by (simp add: sample_job_def)
  show "unreserved (activity sample_job)"
    by (simp add: a unreserved_def starts_with_def REDIS_STREAM_PAYLOAD_UNKNOWN_PREFIX_def numeral_eq_Suc)
qed

theorem outbound_batch_durable_witness:
  "\<exists>ids s'. core_enqueueOutboundBatch ks_server (payload_encode run_codec_lib sample_config) sample_queue
      [sample_job, sample_job] empty_ks = (Inr ids, s') \<and> length ids = 2 \<and>
    2 \<le> length (ks_entries ''ap:queue:outbound:v1'' s')"
proof -
  have "\<exists>e. payload_encode run_codec_lib sample_config (activity sample_job) = Inr e"
    using sample_encode by (simp add: payload_encode_def sample_activity(1))
  then have "\<exists>r. serialize_jobs (payload_encode run_codec_lib sample_config) [sample_job, sample_job] [] = Inr r"
    by (intro serialize_jobs_total) (simp_all add: cache_ok_def)
  then obtain fss cache where s: "serialize_jobs (payload_encode run_codec_lib sample_config)
      [sample_job, sample_job] [] = Inr (fss, cache)" by auto
  obtain ids s' where x: "xadd_all ks_server ''ap:queue:outbound:v1'' 2 fss empty_ks = (ids, s')" by fastforce
  have r: "core_enqueueOutboundBatch ks_server (payload_encode run_codec_lib sample_config) sample_queue
      [sample_job, sample_job] empty_ks = (Inr ids, s')"
    using s x by (simp add: core_enqueueOutboundBatch_def connected_run sample_facts OUTBOUND_CHUNK_SIZE_def
        enqueue_chunks.simps)
  from outbound_batch_durable [OF redis_server_ks_server run_codec_lib_ok sample_facts(1) _ r] r
  show ?thesis by (auto simp: sample_facts sample_activity(2))
qed

text \<open>An outbox intent that is enqueued reads back as it was written: its targets, metadata and
  bridge hints as the same JSON values, its counters as the same numbers (an empty last error
  becomes absent), through the codec and from any state of the decode cache.\<close>
theorem outbox_intent_roundtrip:
  assumes "codec_lib_ok L" and "codec_inv L cc st" and "writable_intent i" and "unreserved (oi_activity i)"
    and "serializeOutboxIntent (payload_encode L cc) i = Inr fs"
  shows "fst (deserializeOutboxIntent (payload_decode L cc) messageId fs st) = Inr (stored_intent i)"
  by (rule codec_library.read_back_intent [OF codec_library.intro [OF assms(1)] assms(5,3,4,2)])

definition sample_intent :: OutboxIntent where
  "sample_intent = \<lparr>oi_intentId = ''i1'', oi_activityId = ''a1'', oi_actorUri = ''https://a'', oi_activity = ''{}'',
     oi_targets = [JObj [(''deliveryUrl'', JStr ''https://b/inbox''), (''targetDomain'', JStr ''b'')]],
     oi_createdAt = Num 1000, oi_attempt = Num 1, oi_maxAttempts = Num 8, oi_notBeforeMs = Num 2000,
     oi_lastError = Some ''x'', oi_meta = Some (JObj [(''isPublicActivity'', JBool True)]), oi_bridgeHints = None\<rparr>"

lemma sample_intent_facts: "writable_intent sample_intent" "unreserved (oi_activity sample_intent)"
  by (simp_all add: sample_intent_def writable_intent_def stored_num_def stored_json_def unreserved_def
      starts_with_def REDIS_STREAM_PAYLOAD_UNKNOWN_PREFIX_def)

theorem outbox_intent_roundtrip_witness:
  "\<exists>fs. serializeOutboxIntent (payload_encode run_codec_lib (sample_config\<lparr>writeEnabled := False\<rparr>)) sample_intent = Inr fs \<and>
    fst (deserializeOutboxIntent (payload_decode run_codec_lib (sample_config\<lparr>writeEnabled := False\<rparr>)) ''1-0'' fs new_codec_state)
      = Inr sample_intent"
proof -
  let ?cc = "sample_config\<lparr>writeEnabled := False\<rparr>"
  have e: "payload_encode run_codec_lib ?cc v = Inr v" for v by (simp add: payload_encode_def encode_def Let_def)
  obtain fs where fs: "serializeOutboxIntent (payload_encode run_codec_lib ?cc) sample_intent = Inr fs"
    by (auto simp: serializeOutboxIntent_def e)
  have "stored_intent sample_intent = sample_intent"
    by (simp add: stored_intent_def sample_intent_def text_opt_def)
  with outbox_intent_roundtrip [OF run_codec_lib_ok new_codec_state_inv sample_intent_facts fs] fs
  show ?thesis by auto
qed

text \<open>Inbound envelopes and origin-reconciliation jobs read back as they were written; the
  verification record of an envelope survives exactly when it is a well-formed \<open>fedify-v2\<close> record.\<close>
theorem inbound_and_origin_roundtrip:
  "(writable_inbound e \<longrightarrow> fst (deserializeInboundEnvelope i (serializeInboundEnvelope e) u) = Inr e) \<and>
   (writable_origin j \<longrightarrow>
      fst (deserializeOriginReconciliationJob i (serializeOriginReconciliationJob j) u) = Inr (stored_origin j)) \<and>
   (parseInboundVerification raw = Some v \<longrightarrow>
      json_get ''source'' v = Some (JStr ''fedify-v2'') \<and> (\<exists>a. json_get ''actorUri'' v = Some (JStr a)))"
proof -
  have "json_get ''source'' v = Some (JStr ''fedify-v2'') \<and> (\<exists>a. json_get ''actorUri'' v = Some (JStr a))"
    if p: "parseInboundVerification raw = Some v"
  proof -
    obtain x where x: "json_get ''actorUri'' v = Some x" "json_is_string x" "json_get ''source'' v = Some (JStr ''fedify-v2'')"
      using p by (auto simp: parseInboundVerification_def split: option.splits if_splits)
    then show ?thesis by (cases x) auto
  qed
  then show ?thesis by (simp add: inbound_read_back origin_read_back)
qed

definition sample_envelope :: InboundEnvelope where
  "sample_envelope = createVerifiedInboundEnvelope ''u'' 1000 ''/inbox'' ''{}'' ''10.0.0.1'' ''https://a'' None None"

theorem inbound_and_origin_roundtrip_witness:
  "fst (deserializeInboundEnvelope ''1-0'' (serializeInboundEnvelope sample_envelope) ()) = Inr sample_envelope"
proof -
  let ?v = "JObj [(''source'', JStr ''fedify-v2''), (''actorUri'', JStr ''https://a''), (''verifiedAt'', JNum 1000)]"
  have v: "ie_verification sample_envelope = Some ?v"
    by (simp add: sample_envelope_def createVerifiedInboundEnvelope_def createInboundEnvelope_def or_else_def)
  have "json_plain ?v" by simp
  then have "parseInboundVerification (Some (json_stringify ?v)) = Some ?v"
    using json_parse_stringify [of ?v] json_stringify_nonempty [of ?v]
    by (simp add: parseInboundVerification_def del: json_stringify.simps)
  then have "writable_inbound sample_envelope"
    unfolding writable_inbound_def v
    by (simp add: sample_envelope_def createVerifiedInboundEnvelope_def createInboundEnvelope_def or_else_def
        stored_num_def del: json_stringify.simps)
  then show ?thesis using inbound_and_origin_roundtrip [where e = sample_envelope and u = "()"] by blast
qed

text \<open>The fan-out of an intent happens once: a successful fan-out appends exactly the intent's
  jobs, in order, and records their number; for seven days every further fan-out of the same intent,
  with whatever jobs, leaves Redis as it is and reports that number.\<close>
theorem fanout_exactly_once:
  assumes "redis_server R view" and "isConnected c" and "jobs \<noteq> []"
    and "outboxIntentStateKey intentId \<noteq> outboundStreamKey c"
    and "enqueueOutboundBatchForIntent R enc c intentId jobs now s = (Inr (True, n), s')"
    and "d < 604800000" and "jobs' \<noteq> []"
    and "enqueueOutboundBatchForIntent R enc c intentId jobs' now' (r_tick R d s') = (Inr (b, m), s'')"
  shows "(\<exists>ids fss k. length ids = length jobs \<and> list_all2 (written_as enc) fss jobs \<and>
      ks_entries (outboundStreamKey c) (view s') = drop k (ks_entries (outboundStreamKey c) (view s) @ zip ids fss)) \<and>
    b = False \<and> m = n \<and> s'' = r_tick R d s'"
  using redis_server.fanout_entries [OF assms(1-5)] redis_server.fanout_again [OF assms(1-3,5-8)] by blast

theorem fanout_exactly_once_witness:
  "\<exists>n s' m s''. enqueueOutboundBatchForIntent ks_server Inr sample_queue ''i'' [sample_job] 5 empty_ks = (Inr (True, n), s') \<and>
    enqueueOutboundBatchForIntent ks_server Inr sample_queue ''i'' [sample_job] 7 (r_tick ks_server 60000 s') = (Inr (False, m), s'')
    \<and> m = n"
proof -
  let ?ser = "serialize_jobs Inr [sample_job] []"
  obtain fss cache where s: "?ser = Inr (fss, cache)"
    using serialize_jobs_total [of "[sample_job]" Inr "[]"] by (auto simp: cache_ok_def)
  have run: "\<exists>b n s'. enqueueOutboundBatchForIntent ks_server Inr sample_queue ''i'' [sample_job] now ks = (Inr (b, n), s')"
    for now ks
    using s by (auto simp: enqueueOutboundBatchForIntent_def connected_run sample_facts Let_def split: prod.splits)
  have "r_hget ks_server (outboxIntentStateKey ''i'') ''outboundEnqueuedAt'' empty_ks = None"
    by (simp add: ks_eval)
  then obtain n s' where a: "enqueueOutboundBatchForIntent ks_server Inr sample_queue ''i'' [sample_job] 5 empty_ks = (Inr (True, n), s')"
    using s by (auto simp: enqueueOutboundBatchForIntent_def connected_run sample_facts Let_def fanout_script_def split: prod.splits)
  obtain b m s'' where c: "enqueueOutboundBatchForIntent ks_server Inr sample_queue ''i'' [sample_job] 7
      (r_tick ks_server 60000 s') = (Inr (b, m), s'')" using run by blast
  have k: "outboxIntentStateKey ''i'' \<noteq> outboundStreamKey sample_queue"
    by (simp add: outboxIntentStateKey_def sample_facts)
  from fanout_exactly_once [OF redis_server_ks_server sample_facts(1) _ k a _ _ c] a c show ?thesis by auto
qed

text \<open>Within one window of a domain's rate limit the first \<open>limit\<close> checks are granted and every
  later one is refused, however the checks are spread over the window.\<close>
theorem rate_limit_exact:
  assumes "redis_server R view" and "isConnected c" and "r_get R (rateKey domain) s = None"
    and "int (rate_elapsed xs) < 1000 * window"
  shows "rate_run R c domain limit window xs s = map (\<lambda>i. Inr (int (i + 1) \<le> limit)) [0..<rate_checks xs]"
  using redis_server.rate_run_from [OF assms(1,2,4) order_refl, of 0 domain s limit] assms(3)
    redis_server.get_view [OF assms(1)] by simp

theorem rate_limit_exact_witness:
  "rate_run ks_server sample_queue ''b'' 1 60 [RateCheck, RatePass 1000, RateCheck] empty_ks = [Inr True, Inr False]"
proof -
  have "r_get ks_server (rateKey ''b'') empty_ks = None" by (simp add: ks_eval)
  then have "rate_run ks_server sample_queue ''b'' 1 60 [RateCheck, RatePass 1000, RateCheck] empty_ks =
      map (\<lambda>i. Inr (int (i + 1) \<le> 1)) [0..<rate_checks [RateCheck, RatePass 1000, RateCheck]]"
    by (intro rate_limit_exact [OF redis_server_ks_server sample_facts(1)]) (simp_all add: rate_elapsed_def)
  then show ?thesis by (simp add: rate_checks_def upt_rec numeral_2_eq_2)
qed

text \<open>The slots of a domain bound its concurrency: in every interleaving of acquisitions and
  releases that lasts less than the hour the counter is kept, an acquisition is granted exactly when
  fewer than \<open>limit\<close> slots are held.\<close>
theorem domain_slots_exact:
  assumes "redis_server R view" and "isConnected c" and "r_get R (slotsKey domain) s = None"
    and "slot_elapsed xs < 3600000"
    and "(held, a) \<in> set (slot_run R c domain limit xs 0 s)"
  shows "a = Inr (int held < limit)"
proof -
  have "slots_ok 0 (slot_elapsed xs) (slotsKey domain) (view s)"
    using assms(3) redis_server.get_view [OF assms(1)] by (simp add: slots_ok_def)
  from redis_server.slot_run_exact [OF assms(1,2) this order_refl assms(4,5)] show ?thesis .
qed

theorem domain_slots_exact_witness:
  "fst (acquireDomainSlot ks_server sample_queue ''b'' 1
     (snd (acquireDomainSlot ks_server sample_queue ''b'' 1 empty_ks))) = Inr False"
proof -
  have k: "r_get ks_server (slotsKey ''b'') empty_ks = None" by (simp add: ks_eval)
  note ex = domain_slots_exact [OF redis_server_ks_server sample_facts(1) k, of "[SlotAcquire, SlotAcquire]" _ _ 1]
  obtain r1 s1 r2 s2 where a: "acquireDomainSlot ks_server sample_queue ''b'' 1 empty_ks = (r1, s1)"
    "acquireDomainSlot ks_server sample_queue ''b'' 1 s1 = (r2, s2)" by fastforce
  have "r1 = Inr True" using ex [of 0 r1] a by (simp add: slot_elapsed_def)
  then have "r2 = Inr False" using ex [of 1 r2] a by (simp add: slot_elapsed_def)
  then show ?thesis using a by simp
qed

text \<open>The hour is a hard limit: a slot held for an hour is handed out a second time, although its
  holder has not released it, so two deliveries run where one is allowed.\<close>
theorem domain_slot_lease_expires:
  assumes "redis_server R view" and "isConnected c" and "r_get R (slotsKey domain) s = None"
  shows "fst (acquireDomainSlot R c domain 1 s) = Inr True \<and>
    fst (acquireDomainSlot R c domain 1 (r_tick R 3600000 (snd (acquireDomainSlot R c domain 1 s)))) = Inr True"
  using redis_server.slot_lease [OF assms(1,2), of domain s] assms(3) redis_server.get_view [OF assms(1)] by simp

theorem domain_slot_lease_expires_witness:
  "fst (acquireDomainSlot ks_server sample_queue ''b'' 1 (ks_tick 3600000
     (snd (acquireDomainSlot ks_server sample_queue ''b'' 1 empty_ks)))) = Inr True"
proof -
  have k: "r_get ks_server (slotsKey ''b'') empty_ks = None" by (simp add: ks_eval)
  have "r_tick ks_server = ks_tick" by (simp add: ks_server_def)
  with domain_slot_lease_expires [OF redis_server_ks_server sample_facts(1) k] show ?thesis by simp
qed

text \<open>A malformed outbound job or outbox intent in a batch costs only itself: one round of the
  consumer yields, in order, every claimed and every new message that parses, and the answer does
  not depend on what the decode cache holds.\<close>
theorem consume_skips_malformed:
  assumes "codec_lib_ok L" and "codec_inv L cc st"
  shows "fst (core_consumeOutbound_round (payload_decode L cc) pending messages st) =
      List.map_filter (\<lambda>(i, fs). case fst (deserializeOutboundJob (payload_decode L cc) i fs new_codec_state) of
          Inl _ \<Rightarrow> None | Inr job \<Rightarrow> Some (i, job))
        (normalizeClaimedMessages pending @ stream_messages messages)
    \<and> fst (consumeOutboxIntents_round (payload_decode L cc) pending messages st) =
      List.map_filter (\<lambda>(i, fs). case fst (deserializeOutboxIntent (payload_decode L cc) i fs new_codec_state) of
          Inl _ \<Rightarrow> None | Inr intent \<Rightarrow> Some (i, intent))
        (normalizeClaimedMessages pending @ stream_messages messages)"
proof -
  have l: "codec_library L" using assms(1) by (rule codec_library.intro)
  show ?thesis
    using codec_library.outbound_yields [OF l assms(2)] codec_library.intent_yields [OF l assms(2)]
    by (simp add: core_consumeOutbound_round_def consumeOutboxIntents_round_def)
qed

theorem consume_skips_malformed_witness:
  "fst (core_consumeOutbound_round (payload_decode run_codec_lib sample_config) (Some [EntryPair ''1-0'' [], EntryOther])
     None new_codec_state) = []"
proof -
  have "stream_messages None = []" by (simp add: stream_messages_def)
  then show ?thesis
    using consume_skips_malformed [OF run_codec_lib_ok new_codec_state_inv,
        of sample_config "Some [EntryPair ''1-0'' [], EntryOther]" None]
    by (simp add: List.map_filter_simps deserializeOutboundJob_def requireField_def io_bind_def io_throw_def)
qed

text \<open>The inbound and origin-reconciliation consumers are less careful: nothing behind the first
  malformed claimed message is yielded, neither the rest of the claimed batch nor any new message,
  and since the malformed message stays pending the next round meets it again.\<close>
theorem strict_round_blocks:
  "((\<exists>e. fst (deserializeInboundEnvelope i bad ()) = Inl e) \<longrightarrow>
      normalizeClaimedMessages pending = ms @ (i, bad) # rest \<longrightarrow>
      consumeInbound_round pending messages = consumeInbound_round (Some (map (\<lambda>(i, fs). EntryPair i fs) ms)) None)
   \<and> ((\<exists>e. fst (deserializeOriginReconciliationJob i bad ()) = Inl e) \<longrightarrow>
      normalizeClaimedMessages pending = ms @ (i, bad) # rest \<longrightarrow>
      consumeOriginReconciliation_round pending messages =
        consumeOriginReconciliation_round (Some (map (\<lambda>(i, fs). EntryPair i fs) ms)) None)"
  unfolding consumeInbound_round_def consumeOriginReconciliation_round_def
  by (intro conjI impI) (rule strict_round_cut; assumption)+

theorem strict_round_blocks_witness:
  "consumeInbound_round (Some [EntryPair ''1-0'' [], EntryPair ''2-0'' (serializeInboundEnvelope sample_envelope)]) None = []"
proof -
  have "\<exists>e. fst (deserializeInboundEnvelope ''1-0'' [] ()) = Inl e"
    by (simp add: deserializeInboundEnvelope_def requireField_def io_bind_def io_throw_def)
  moreover have "normalizeClaimedMessages (Some [EntryPair ''1-0'' [], EntryPair ''2-0'' (serializeInboundEnvelope sample_envelope)])
      = [] @ (''1-0'', []) # [(''2-0'', serializeInboundEnvelope sample_envelope)]" by simp
  ultimately have "consumeInbound_round (Some [EntryPair ''1-0'' [], EntryPair ''2-0'' (serializeInboundEnvelope sample_envelope)]) None
      = consumeInbound_round (Some (map (\<lambda>(i, fs). EntryPair i fs) [])) None"
    using strict_round_blocks by blast
  then show ?thesis by (simp add: consumeInbound_round_def strict_round_def stream_messages_def)
qed

text \<open>Moving a message to a dead-letter queue keeps it whole: the newest entry of the queue of its
  type names its id and the reason, its data parses back to the message, and no other stream, and
  no pending message, is touched.\<close>
theorem dlq_keeps_message:
  assumes "redis_server R view" and "isConnected c" and "0 < maxDlqLength c" and "json_plain (dlq_json dat)"
  shows "\<exists>s'. moveToDlq R c dat reason now s = (Inr (), s') \<and>
    (\<exists>i fs. (i, fs) \<in> set (ks_entries (dlq_key c (dlq_type dat)) (view s')) \<and>
      i \<notin> fst ` set (ks_entries (dlq_key c (dlq_type dat)) (view s)) \<and>
      map_of fs ''id'' = Some (dlq_id dat) \<and> map_of fs ''reason'' = Some reason \<and>
      (\<exists>t. map_of fs ''data'' = Some t \<and> json_parse t = Some (dlq_json dat))) \<and>
    (\<forall>k. k \<noteq> dlq_key c (dlq_type dat) \<longrightarrow> ks_entries k (view s') = ks_entries k (view s)) \<and>
    ks_pel (view s') = ks_pel (view s)"
proof -
  let ?k = "dlq_key c (dlq_type dat)" and ?i = "r_new_id R (dlq_key c (dlq_type dat)) s"
  define fs where "fs = [(''type'', type_name (dlq_type dat)), (''id'', dlq_id dat), (''reason'', reason),
    (''timestamp'', show_int now), (''data'', json_stringify (dlq_json dat))]"
  have m: "moveToDlq R c dat reason now s = (Inr (), r_xadd R ?k (maxDlqLength c) fs s)"
    using assms(2) by (simp add: moveToDlq_def connected_run xadd_io_def io_bind_def io_return_def fs_def)
  have v: "view (r_xadd R ?k (maxDlqLength c) fs s) =
      ks_xadd ?k (r_trim R ?k (maxDlqLength c) s) ?i fs (view s)"
    by (rule redis_server.xadd_view [OF assms(1)])
  have "(?i, fs) \<in> set (drop (r_trim R ?k (maxDlqLength c) s) (ks_entries ?k (view s) @ [(?i, fs)]))"
    using redis_server.trim_bound [OF assms(1)] assms(3) by (rule drop_keeps_last)
  moreover have "?i \<notin> fst ` set (ks_entries ?k (view s))"
    by (rule redis_server.new_id_fresh [OF assms(1)])
  moreover have "map_of fs ''id'' = Some (dlq_id dat)" "map_of fs ''reason'' = Some reason"
    "map_of fs ''data'' = Some (json_stringify (dlq_json dat))" by (simp_all add: fs_def)
  ultimately show ?thesis
    unfolding m using v json_parse_stringify [OF assms(4)] by (auto simp: ks_rules)
qed

theorem dlq_keeps_message_witness:
  "\<exists>s' i fs. moveToDlq ks_server sample_queue (DlqIntent sample_intent) ''bad'' 5 empty_ks = (Inr (), s') \<and>
    (i, fs) \<in> set (ks_entries ''ap:queue:dlq:outbox-intent:v1'' s') \<and> map_of fs ''id'' = Some ''i1''"
proof -
  have k: "dlq_key sample_queue (dlq_type (DlqIntent sample_intent)) = ''ap:queue:dlq:outbox-intent:v1''"
    and m: "0 < maxDlqLength sample_queue"
    by (simp_all add: sample_queue_def queue_constructor_def or_else_def)
  have p: "json_plain (dlq_json (DlqIntent sample_intent))"
    by (simp add: outbox_intent_json_def sample_intent_def json_opt_def)
  have i: "dlq_id (DlqIntent sample_intent) = ''i1''" by (simp add: sample_intent_def)
  from dlq_keeps_message [OF redis_server_ks_server sample_facts(1) m p, of "''bad''" 5 empty_ks]
  show ?thesis unfolding k i by blast
qed

text \<open>The idempotency key of a job is granted once a day: after a granted check every further
  check for that job id is refused for 86400 seconds, and granted again as soon as the key is
  cleared.\<close>
theorem idempotency_once:
  assumes "redis_server R view" and "isConnected c" and "checkIdempotency R c job s = (Inr True, s')"
    and "jobId job' = jobId job" and "d < 86400000"
  shows "fst (checkIdempotency R c job' (r_tick R d s')) = Inr False \<and>
    fst (checkIdempotency R c job' (snd (clearIdempotency R c job (r_tick R d s')))) = Inr True"
proof -
  have "set_nx R (idempotencyKey (jobId job)) ''1'' 86400 s = (Inr True, s')"
    using assms(2,3) by (simp add: checkIdempotency_def connected_run)
  then have "fst (set_nx R (idempotencyKey (jobId job)) ''1'' 86400 (r_tick R d s')) = Inr False"
    by (rule redis_server.set_nx_once [OF assms(1)]) (use assms(5) in simp)
  moreover have "r_get R k (r_del R k u) = None" for k u
    by (simp add: redis_server.get_view [OF assms(1)] redis_server.del_view [OF assms(1)] ks_get_del)
  ultimately show ?thesis
    using assms(2,4) by (simp add: checkIdempotency_def clearIdempotency_def connected_run set_nx_def)
qed

theorem idempotency_once_witness:
  "fst (checkIdempotency ks_server sample_queue sample_job
     (ks_tick 1000 (snd (checkIdempotency ks_server sample_queue sample_job empty_ks)))) = Inr False"
proof -
  have "checkIdempotency ks_server sample_queue sample_job empty_ks =
      (Inr True, snd (checkIdempotency ks_server sample_queue sample_job empty_ks))"
    by (simp add: checkIdempotency_def connected_run sample_facts set_nx_def ks_eval)
  from idempotency_once [OF redis_server_ks_server sample_facts(1) this refl, of 1000]
  show ?thesis by (simp add: ks_server_def)
qed

end
