(* ===== verification/Delayed_Properties.thy ===== *)
theory Delayed_Properties
  imports Delayed_Queue Queue_Properties
begin

text \<open>
  What the delayed outbound store of \<open>sidecar-redis-queue.ts\<close> guarantees: which record wins, that
  promotion neither loses nor duplicates work, what a corrupt record does, that parking is atomic,
  and that consuming never acknowledges an entry whose job is not safe elsewhere.
\<close>

section \<open>The keys of the outbound store\<close>

lemma outbound_delay_keys_ok: "delay_keys_ok (outbound_delay_keys q)"
  by (simp add: delay_keys_ok_def outbound_delay_keys_def)

lemma outbound_scripts:
  assumes "redis_server R view" and "lua_lib_ok U"
  shows "delay_scripts R view U (outbound_delay_keys q) job_rank job_text delayable"
  using assms delayed_rank_job outbound_delay_keys_ok
  by (intro delay_scripts.intro delay_scripts_axioms.intro) (simp_all add: job_text_def)

lemma outbound_put:
  assumes "redis_server R view" and "lua_lib_ok U" and "delayable job"
  shows "delayed_put U R (outbound_delay_keys q) (jobId job) (notBeforeMs job) (json_stringify (outbound_job_json job)) (attempt job) s =
    delay_scripts.put R U (outbound_delay_keys q) jobId job_rank job_text job s"
proof -
  have "notBeforeMs job = Num (snd (job_rank job))" "attempt job = Num (fst (job_rank job))"
    using assms(3) finite_numD by (auto simp: delayable_def job_rank_def)
  then show ?thesis
    by (simp add: delay_scripts.put_def [OF outbound_scripts [OF assms(1,2)]] job_text_def)
qed

lemma store_outbound_run:
  assumes "redis_server R view" and "lua_lib_ok U" and "delayedRedis q = OpenClient" and "delayable job"
    and "job_inv (outbound_delay_keys q) (view s)"
  shows "storeDelayedOutbound U R q job s =
    (Inr (), snd (delay_scripts.put R U (outbound_delay_keys q) jobId job_rank job_text job s))"
  using assms(3) delay_scripts.put_cases [OF outbound_scripts [OF assms(1,2)] assms(4,5)]
  by (auto simp: storeDelayedOutbound_def io_bind_def io_return_def outbound_put [OF assms(1,2,4)])

definition store_many :: "lua_lib \<Rightarrow> 's redis \<Rightarrow> delayed_queue \<Rightarrow> OutboundJob list \<Rightarrow> 's \<Rightarrow> 's" where
  "store_many U R q jobs s = fold (\<lambda>job s. snd (storeDelayedOutbound U R q job s)) jobs s"

lemma store_many_put:
  assumes "redis_server R view" and "lua_lib_ok U" and "delayedRedis q = OpenClient"
    and "\<forall>job \<in> set jobs. delayable job" and "job_inv (outbound_delay_keys q) (view s)"
  shows "store_many U R q jobs s =
    fold (\<lambda>job s. snd (delay_scripts.put R U (outbound_delay_keys q) jobId job_rank job_text job s)) jobs s"
  using assms(4,5)
proof (induction jobs arbitrary: s)
  case (Cons job jobs)
  let ?put = "delay_scripts.put R U (outbound_delay_keys q) jobId job_rank job_text"
  have "job_inv (outbound_delay_keys q) (view (snd (?put job s)))"
    using delay_scripts.put_keeps_inv [OF outbound_scripts [OF assms(1,2)]] Cons.prems by simp
  with Cons show ?case
    using store_outbound_run [OF assms(1-3) _ Cons.prems(2), of job] by (simp add: store_many_def)
qed (simp add: store_many_def)

section \<open>Promotion\<close>

lemma zrange_prefix: "set (ks_zrange k now n ks) \<subseteq> {i. \<exists>sc. (i, sc) \<in> set (ks_zlist k ks) \<and> sc \<le> now}"
proof
  fix i assume "i \<in> set (ks_zrange k now n ks)"
  then have "i \<in> set (map fst (filter (\<lambda>(_, sc). sc \<le> now) (ks_zlist k ks)))"
    unfolding ks_zrange_def by (rule in_set_takeD)
  then show "i \<in> {i. \<exists>sc. (i, sc) \<in> set (ks_zlist k ks) \<and> sc \<le> now}" by auto
qed

lemma zrange_distinct: "distinct (map fst (ks_zlist k ks)) \<Longrightarrow> distinct (ks_zrange k now n ks)"
  by (simp add: ks_zrange_def distinct_map_filter)

text \<open>The jobs the store holds for the ids that are due.\<close>

lemma due_payloads:
  assumes "job_inv K ks"
  shows "distinct (ks_zrange (scheduleKey K) now n ks) \<and>
    (\<forall>i \<in> set (ks_zrange (scheduleKey K) now n ks).
       \<exists>job. delayable job \<and> jobId job = i \<and> ks_hget (payloadKey K) i ks = Some (job_text job) \<and>
         snd (job_rank job) \<le> now)"
proof -
  have d: "distinct (map fst (ks_zlist (scheduleKey K) ks))" using assms by (simp add: delay_inv_def)
  have "\<exists>job. delayable job \<and> jobId job = i \<and> ks_hget (payloadKey K) i ks = Some (job_text job) \<and> snd (job_rank job) \<le> now"
    if "i \<in> set (ks_zrange (scheduleKey K) now n ks)" for i
  proof -
    from that zrange_prefix have "\<exists>sc. (i, sc) \<in> set (ks_zlist (scheduleKey K) ks) \<and> sc \<le> now" by blast
    then obtain sc where sc: "(i, sc) \<in> set (ks_zlist (scheduleKey K) ks)" "sc \<le> now" by blast
    then have "i \<in> fst ` set (ks_zlist (scheduleKey K) ks)" by force
    then obtain job where j: "delayable job" "jobId job = i" "ks_hget (payloadKey K) i ks = Some (job_text job)"
      "(i, snd (job_rank job)) \<in> set (ks_zlist (scheduleKey K) ks)"
      using delay_inv_at [OF assms, of i] by (auto split: option.splits)
    then have "snd (job_rank job) = sc" using sc(1) d by (metis eq_key_imp_eq_value)
    with j sc(2) show ?thesis by blast
  qed
  then show ?thesis using zrange_distinct [OF d] by blast
qed

lemma inv_after_removal:
  assumes "delay_inv entry_id rank_of text_of good K ks"
    and "\<forall>i. ks_hget (payloadKey K) i ks' = (if i \<in> I then None else ks_hget (payloadKey K) i ks)"
    and "ks_zlist (scheduleKey K) ks' = filter (\<lambda>(x, _). x \<notin> I) (ks_zlist (scheduleKey K) ks)"
  shows "delay_inv entry_id rank_of text_of good K ks'"
proof -
  have "case ks_hget (payloadKey K) i ks' of
      None \<Rightarrow> i \<notin> fst ` set (ks_zlist (scheduleKey K) ks')
    | Some p \<Rightarrow> \<exists>e. good e \<and> entry_id e = i \<and> p = text_of e \<and>
                   (i, snd (rank_of e)) \<in> set (ks_zlist (scheduleKey K) ks')" for i
    using delay_inv_at [OF assms(1), of i] by (auto simp: assms(2,3) split: option.splits)
  moreover have "distinct (map fst (ks_zlist (scheduleKey K) ks'))"
    using assms(1) by (simp add: delay_inv_def assms(3) distinct_map_filter case_prod_unfold)
  ultimately show ?thesis by (simp add: delay_inv_def)
qed

section \<open>Properties\<close>


definition sample_dq :: delayed_queue where
  "sample_dq = \<lparr>core = sample_queue, delayedRedis = OpenClient, delayedPromotionRunning = False\<rparr>"

definition later_job :: OutboundJob where
  "later_job = \<lparr>jobId = ''j1'', activityId = ''a1'', actorUri = ''https://a'', activity = ''{}'',
     targetInbox = ''https://b/inbox'', targetDomain = ''b'', attempt = Num 1, maxAttempts = Num 8,
     notBeforeMs = Num 5000, deferCount = None, lastError = None,
     meta = Some (JObj [(''apdmFirstQueuedAtMs'', JNum 1000)])\<rparr>"

lemma sample_dq_facts:
  "delayedRedis sample_dq = OpenClient" "\<not> delayedPromotionRunning sample_dq" "isConnected (core sample_dq)"
  "outboundStreamKey (core sample_dq) = ''ap:queue:outbound:v1''" "delayable later_job" "jobId later_job = ''j1''"
  "job_rank later_job = (1, 5000)"
  by (simp_all add: sample_dq_def sample_facts later_job_def delayable_def finite_num_def job_rank_def num_of_def)

interpretation outbound: delay_scripts ks_server "\<lambda>ks. ks" sample_lua "outbound_delay_keys sample_dq" jobId job_rank job_text delayable
  by (rule outbound_scripts [OF redis_server_ks_server sample_lua_ok])

lemma empty_job_inv: "job_inv K empty_ks"
  by (simp add: delay_inv_def empty_ks_def ks_zlist_def ks_hget_def)

definition later_ks :: keyspace where
  "later_ks = snd (storeDelayedOutbound sample_lua ks_server sample_dq later_job empty_ks)"

lemma later_ks_facts:
  "job_inv (outbound_delay_keys sample_dq) later_ks"
  "r_zrange ks_server (scheduleKey (outbound_delay_keys sample_dq)) now n later_ks =
    (if 5000 \<le> now \<and> 0 < n then [''j1''] else [])"
  "ks_zlist (scheduleKey (outbound_delay_keys sample_dq)) later_ks = [(''j1'', 5000)]"
proof -
  let ?K = "outbound_delay_keys sample_dq"
  have e: "later_ks = snd (outbound.put later_job empty_ks)"
    unfolding later_ks_def
    using store_outbound_run [OF redis_server_ks_server sample_lua_ok sample_dq_facts(1,5) empty_job_inv] by simp
  show "job_inv ?K later_ks"
    unfolding e by (rule outbound.put_keeps_inv [OF sample_dq_facts(5) empty_job_inv])
  have "delayed_rank_at sample_lua ?K (jobId later_job) empty_ks = None"
    by (simp add: delayed_rank_at_def ks_hget_def empty_ks_def)
  then have z: "ks_zlist (scheduleKey ?K) later_ks = zset_put (jobId later_job) (snd (job_rank later_job)) []"
    unfolding e by (subst outbound.put_view(2) [OF sample_dq_facts(5) empty_job_inv])
      (simp_all add: ks_zlist_def empty_ks_def)
  then show "r_zrange ks_server (scheduleKey ?K) now n later_ks = (if 5000 \<le> now \<and> 0 < n then [''j1''] else [])"
    by (simp add: ks_server_def ks_zrange_def zset_put_def sample_dq_facts)
  show "ks_zlist (scheduleKey ?K) later_ks = [(''j1'', 5000)]" using z by (simp add: zset_put_def sample_dq_facts)
qed


lemma first_due_stays:
  assumes "sorted (map snd zs)" and "map fst (filter (\<lambda>(_, sc). sc \<le> now) zs) = i # rest" and "now \<le> later"
  shows "\<exists>js. map fst (filter (\<lambda>(_, sc). sc \<le> later) zs) = i # js"
proof (cases zs)
  case (Cons z ys)
  have "snd z \<le> now"
  proof (rule ccontr)
    assume "\<not> snd z \<le> now"
    then have "filter (\<lambda>(_, sc). sc \<le> now) zs = []"
      using assms(1) Cons by (fastforce simp: filter_empty_conv)
    with assms(2) show False by simp
  qed
  then show ?thesis using assms(2,3) Cons by (auto simp: case_prod_unfold)
qed (use assms in simp)

text \<open>A corrupt record stops the promotion for good: when the payload of the earliest due job does
  not decode, the promotion fails and moves nothing, now and at every later time, so every job due
  after it waits behind it.\<close>
theorem corrupt_record_blocks_promotion:
  assumes "redis_server R view" and "delayedRedis q = OpenClient" and "\<not> delayedPromotionRunning q"
    and "sorted (map snd (ks_zlist (scheduleKey (outbound_delay_keys q)) (view s)))"
    and "r_zrange R (scheduleKey (outbound_delay_keys q)) now DELAYED_OUTBOUND_PROMOTION_BATCH_SIZE s = i # ids"
    and "r_hget R (payloadKey (outbound_delay_keys q)) i s = Some payload" and "cj_decode U payload = None"
    and "now \<le> later"
  shows "promoteDueOutbound U R q later s = (Inl (''invalid delayed outbound payload for '' @ i), s)"
proof -
  let ?z = "ks_zlist (scheduleKey (outbound_delay_keys q)) (view s)"
  have n: "DELAYED_OUTBOUND_PROMOTION_BATCH_SIZE = Suc 99" by (simp add: DELAYED_OUTBOUND_PROMOTION_BATCH_SIZE_def)
  have zr: "r_zrange R (scheduleKey (outbound_delay_keys q)) t m s = take m (map fst (filter (\<lambda>(_, sc). sc \<le> t) ?z))" for t m
    by (simp add: redis_server.zrange_view [OF assms(1)] ks_zrange_def)
  obtain rest where "map fst (filter (\<lambda>(_, sc). sc \<le> now) ?z) = i # rest"
    using assms(5) unfolding zr n by (cases "map fst (filter (\<lambda>(_, sc). sc \<le> now) ?z)") auto
  from first_due_stays [OF assms(4) this assms(8)] obtain js
    where "map fst (filter (\<lambda>(_, sc). sc \<le> later) ?z) = i # js" ..
  then have "r_zrange R (scheduleKey (outbound_delay_keys q)) later DELAYED_OUTBOUND_PROMOTION_BATCH_SIZE s = i # take 99 js"
    unfolding zr n by simp
  with assms(2,3,6,7) show ?thesis by (simp add: promoteDueOutbound_def Let_def)
qed

definition corrupt_ks :: keyspace where
  "corrupt_ks = ks_zadd (scheduleKey (outbound_delay_keys sample_dq)) 4000 ''j0''
     (ks_hset (payloadKey (outbound_delay_keys sample_dq)) ''j0'' ''{'' later_ks)"

theorem corrupt_record_blocks_promotion_witness:
  "promoteDueOutbound sample_lua ks_server sample_dq 999000 corrupt_ks =
    (Inl ''invalid delayed outbound payload for j0'', corrupt_ks)"
proof -
  let ?K = "outbound_delay_keys sample_dq"
  note z = later_ks_facts(3)
  have k: "scheduleKey ?K \<noteq> payloadKey ?K" "payloadKey ?K \<noteq> scheduleKey ?K"
    by (simp_all add: outbound_delay_keys_def)
  have zc: "ks_zlist (scheduleKey ?K) corrupt_ks = [(''j0'', 4000), (''j1'', 5000)]"
    using k by (simp add: corrupt_ks_def ks_rules z zset_put_def)
  have h: "r_hget ks_server (payloadKey ?K) ''j0'' corrupt_ks = Some ''{''"
    using k by (simp add: corrupt_ks_def ks_server_def ks_rules)
  have d: "cj_decode sample_lua ''{'' = None" by (simp add: sample_lua_def json_parse_def skip_ws_def starts_with_def numeral_eq_Suc)
  have zr: "r_zrange ks_server (scheduleKey ?K) 6000 DELAYED_OUTBOUND_PROMOTION_BATCH_SIZE corrupt_ks = [''j0'', ''j1'']"
    by (simp add: ks_server_def ks_zrange_def zc DELAYED_OUTBOUND_PROMOTION_BATCH_SIZE_def)
  show ?thesis
    using corrupt_record_blocks_promotion [OF redis_server_ks_server sample_dq_facts(1,2) _ zr h d, of 999000] by (simp add: zc)
qed

text \<open>The best record wins, in whatever order records are stored: after any number of stores, by
  any workers, the record of a job has the highest attempt stored or already present and, among
  equal attempts, the latest due time; jobs that were not stored keep their record, and the schedule
  and the payloads still agree.\<close>
theorem delayed_store_keeps_best:
  assumes "redis_server R view" and "lua_lib_ok U" and "delayedRedis q = OpenClient"
    and "\<forall>job \<in> set jobs. delayable job" and "job_inv (outbound_delay_keys q) (view s)"
  shows "job_inv (outbound_delay_keys q) (view (store_many U R q jobs s)) \<and>
    delayed_rank_at U (outbound_delay_keys q) i (view (store_many U R q jobs s)) =
      (let mine = filter (\<lambda>job. jobId job = i) jobs; old = delayed_rank_at U (outbound_delay_keys q) i (view s)
       in if mine = [] then old else Some (Max (job_rank ` set mine \<union> set_option old)))"
proof -
  note sc = outbound_scripts [OF assms(1,2), of q]
  show ?thesis
    unfolding store_many_put [OF assms] Let_def
    using delay_scripts.puts_keep_inv [OF sc assms(4,5)] delay_scripts.puts_rank [OF sc assms(4,5), of i] by simp
qed

theorem delayed_store_keeps_best_witness:
  "delayed_rank_at sample_lua (outbound_delay_keys sample_dq) ''j1''
     (store_many sample_lua ks_server sample_dq [later_job\<lparr>attempt := Num 2\<rparr>, later_job] empty_ks) = Some (2, 5000)"
proof -
  have d: "\<forall>job \<in> set [later_job\<lparr>attempt := Num 2\<rparr>, later_job]. delayable job"
    by (simp add: later_job_def delayable_def finite_num_def)
  have r: "delayed_rank_at sample_lua (outbound_delay_keys sample_dq) ''j1'' empty_ks = None"
    by (simp add: delayed_rank_at_def ks_hget_def empty_ks_def)
  have k: "jobId (later_job\<lparr>attempt := Num 2\<rparr>) = ''j1''" "job_rank (later_job\<lparr>attempt := Num 2\<rparr>) = (2, 5000)"
    by (simp_all add: later_job_def job_rank_def num_of_def)
  show ?thesis
    using delayed_store_keeps_best [OF redis_server_ks_server sample_lua_ok sample_dq_facts(1) d empty_job_inv, of "''j1''"]
    by (simp add: r k sample_dq_facts Let_def max_def less_eq_prod_def)
qed

text \<open>Parking is one step: the pending stream entry is acknowledged only together with a delayed
  record of the job at least as good as the parked one, and no other pending entry is touched; so a
  crash cannot lose the job.\<close>
theorem parking_is_atomic:
  assumes "redis_server R view" and "lua_lib_ok U" and "delayedRedis q = OpenClient" and "delayable job"
    and "job_inv (outbound_delay_keys q) (view s)" and "parkDelayedOutbound U R q messageId job s = (r, s')"
  shows "r = Inr () \<and>
    (\<exists>best. delayed_rank_at U (outbound_delay_keys q) (jobId job) (view s') = Some best \<and> job_rank job \<le> best) \<and>
    ks_pel (view s') (outboundStreamKey (core q)) =
      filter (\<lambda>x. x \<noteq> (consumerGroup (core q), messageId)) (ks_pel (view s) (outboundStreamKey (core q)))"
proof -
  let ?K = "outbound_delay_keys q"
  let ?put = "delay_scripts.put R U ?K jobId job_rank job_text"
  note sc = outbound_scripts [OF assms(1,2), of q]
  obtain b where p: "?put job s = (Inr b, snd (?put job s))"
    using delay_scripts.put_cases [OF sc assms(4,5)] by (auto split: if_splits)
  have s': "r = Inr ()" "s' = r_xack R (outboundStreamKey (core q)) (consumerGroup (core q)) messageId (snd (?put job s))"
    using assms(3,6) p by (auto simp: parkDelayedOutbound_def io_bind_def outbound_put [OF assms(1,2,4)] split: prod.splits)
  have v: "view s' = ks_xack (outboundStreamKey (core q)) (consumerGroup (core q)) messageId (view (snd (?put job s)))"
    unfolding s'(2) by (rule redis_server.xack_view [OF assms(1)])
  have pel: "ks_pel (view (snd (?put job s))) = ks_pel (view s)"
    using delay_scripts.put_cases [OF sc assms(4,5)]
    by (auto simp: redis_server.zadd_view [OF assms(1)] redis_server.hset_view [OF assms(1)] ks_rules)
  have rank: "delayed_rank_at U ?K (jobId job) (view s') = delayed_rank_at U ?K (jobId job) (view (snd (?put job s)))"
    by (simp add: delayed_rank_at_def v ks_rules)
  have "delayed_rank_at U ?K (jobId job) (view (snd (?put job s))) =
      better_rank (delayed_rank_at U ?K (jobId job) (view s)) (job_rank job)"
    using delay_scripts.put_keeps_rank [OF sc assms(4,5)] .
  then have "\<exists>best. delayed_rank_at U ?K (jobId job) (view s') = Some best \<and> job_rank job \<le> best"
    unfolding rank by (auto simp: better_rank_def split: option.splits)
  then show ?thesis using s'(1) by (simp add: v ks_rules pel)
qed

theorem parking_is_atomic_witness:
  "\<exists>s' best. parkDelayedOutbound sample_lua ks_server sample_dq ''1-0'' later_job empty_ks = (Inr (), s') \<and>
    delayed_rank_at sample_lua (outbound_delay_keys sample_dq) ''j1'' s' = Some best \<and> (1, 5000) \<le> best"
proof -
  obtain r s' where p: "parkDelayedOutbound sample_lua ks_server sample_dq ''1-0'' later_job empty_ks = (r, s')" by fastforce
  from parking_is_atomic [OF redis_server_ks_server sample_lua_ok sample_dq_facts(1,5) empty_job_inv p] p
  show ?thesis by (auto simp: sample_dq_facts(6,7))
qed

text \<open>The first-queued stamp is written once and never moved: stamping a job that has a positive
  stamp leaves the job as it is, stamping any other job stores the given time, and the stamp
  survives writing the job to a stream and reading it back.\<close>
theorem first_queued_stamp_stable:
  assumes "codec_lib_ok L" and "codec_inv L cc st" and "0 < t" and "writable_job (ensureFirstQueuedAt job t)"
    and "unreserved (activity job)" and "payload_encode L cc (activity job) = Inr e"
  shows "\<exists>job'. fst (deserializeOutboundJob (payload_decode L cc) i (serializeOutboundJob (ensureFirstQueuedAt job t) e) st) = Inr job' \<and>
    first_queued_at job' = Some (case first_queued_at job of None \<Rightarrow> t | Some f \<Rightarrow> f) \<and>
    ensureFirstQueuedAt job' t' = job'"
proof -
  let ?j = "ensureFirstQueuedAt job t"
  have a: "activity ?j = activity job" by (simp add: ensureFirstQueuedAt_def)
  then have w: "written_as (payload_encode L cc) (serializeOutboundJob ?j e) ?j"
    using assms(6) by (auto simp: written_as_def)
  have "fst (deserializeOutboundJob (payload_decode L cc) i (serializeOutboundJob ?j e) st) = Inr (stored_job ?j)"
    by (rule codec_library.read_back_outbound [OF codec_library.intro [OF assms(1)] w assms(4) _ assms(2)])
      (use a assms(5) in simp)
  moreover have f: "first_queued_at (stored_job ?j) = Some (case first_queued_at job of None \<Rightarrow> t | Some f \<Rightarrow> f)"
    using first_queued_ensure [OF assms(3), of job] by (simp add: first_queued_stored)
  moreover have "ensureFirstQueuedAt (stored_job ?j) t' = stored_job ?j"
    using f by (simp add: ensureFirstQueuedAt_def)
  ultimately show ?thesis by blast
qed

theorem first_queued_stamp_stable_witness:
  "\<exists>e job'. fst (deserializeOutboundJob (payload_decode run_codec_lib sample_config) ''1-0''
      (serializeOutboundJob (ensureFirstQueuedAt sample_job 77) e) new_codec_state) = Inr job' \<and> first_queued_at job' = Some 77"
proof -
  obtain e where e: "payload_encode run_codec_lib sample_config (activity sample_job) = Inr e"
    using sample_encode by (auto simp: payload_encode_def sample_activity(1))
  have n: "first_queued_at sample_job = None" by (simp add: first_queued_at_def sample_job_def)
  have "writable_job (ensureFirstQueuedAt sample_job 77)"
    by (simp add: ensureFirstQueuedAt_def n sample_job_def writable_job_def stored_num_def stored_json_def or_else_def)
  from first_queued_stamp_stable [OF run_codec_lib_ok new_codec_state_inv _ this sample_activity(2) e, of "''1-0''" 0] n
  show ?thesis by auto
qed

lemma strip_cases:
  "stripUnverifiedSyntheticVerification e =
    (if json_get ''x-origin-reconciliation'' (ie_headers e) = Some (JStr ''true'') \<or>
        (\<exists>t. json_get ''x-backfill-source'' (ie_headers e) = Some (JStr t) \<and> t \<noteq> []) \<or>
        json_get ''x-sidecar-benchmark'' (ie_headers e) = Some (JStr ''1'')
     then e\<lparr>ie_verification := None\<rparr> else e)"
proof -
  have b: "(case x of Some (JStr t) \<Rightarrow> t \<noteq> [] | _ \<Rightarrow> False) \<longleftrightarrow> (\<exists>t. x = Some (JStr t) \<and> t \<noteq> [])" for x
    by (auto split: option.splits json.splits)
  show ?thesis
    by (cases "ie_verification e = None"; cases e) (auto simp: stripUnverifiedSyntheticVerification_def Let_def b)
qed

text \<open>A synthetic envelope never reaches the inbound stream with a verification record: an
  envelope with one of the reconciliation, backfill or benchmark headers reads back without one, and
  any other envelope reads back unchanged.\<close>
theorem synthetic_verification_stripped:
  assumes "writable_inbound envelope"
  shows "\<exists>envelope'. fst (deserializeInboundEnvelope i (serializeInboundEnvelope (stripUnverifiedSyntheticVerification envelope)) u) = Inr envelope' \<and>
    (if json_get ''x-origin-reconciliation'' (ie_headers envelope) = Some (JStr ''true'') \<or>
        (\<exists>t. json_get ''x-backfill-source'' (ie_headers envelope) = Some (JStr t) \<and> t \<noteq> []) \<or>
        json_get ''x-sidecar-benchmark'' (ie_headers envelope) = Some (JStr ''1'')
     then envelope' = envelope\<lparr>ie_verification := None\<rparr> else envelope' = envelope)"
proof -
  have "writable_inbound (envelope\<lparr>ie_verification := None\<rparr>)" using assms by (simp add: writable_inbound_def)
  note rb = inbound_read_back [OF this, of i u] inbound_read_back [OF assms, of i u]
  show ?thesis unfolding strip_cases using rb by auto
qed

theorem synthetic_verification_stripped_witness:
  "\<exists>envelope'. fst (deserializeInboundEnvelope ''1-0'' (serializeInboundEnvelope (stripUnverifiedSyntheticVerification
      (createInboundEnvelope ''u'' 1 ''POST'' ''/inbox'' (JObj [(''x-sidecar-benchmark'', JStr ''1'')]) ''{}'' ''10.0.0.1'' None))) ())
      = Inr envelope' \<and> ie_verification envelope' = None"
proof -
  let ?e = "createInboundEnvelope ''u'' 1 ''POST'' ''/inbox'' (JObj [(''x-sidecar-benchmark'', JStr ''1'')]) ''{}'' ''10.0.0.1'' None"
  have "writable_inbound ?e" by (simp add: writable_inbound_def createInboundEnvelope_def stored_num_def)
  from synthetic_verification_stripped [OF this, of "''1-0''" "()"]
  show ?thesis by (auto simp: createInboundEnvelope_def split: if_splits)
qed

text \<open>Consuming an entry of the ready stream is safe in every environment: the entry is
  acknowledged only after its job has been written to the dead-letter queue (parking acknowledges by
  itself); an entry that is dropped was parked, dead-lettered or left pending; and an entry that is
  handed to the worker was neither, carries its first-queued stamp, is within its residence limit and
  is not due later than the minimum delay.\<close>
theorem consuming_is_safe:
  assumes "consume_entry fuel E q messageId job [] = (r, tr)"
  shows "entry_outcome messageId r tr \<and>
    (\<forall>m j. r = Yield m j \<longrightarrow>
      (case redisStreamMessageTimestampMs messageId of
         None \<Rightarrow> j = job
       | Some ts \<Rightarrow> j = ensureFirstQueuedAt job ts \<and>
           (\<exists>t. DqRead t \<in> set tr \<and> \<not> residence_expired (residence_of j t)) \<and>
           (delayedRedis q = NoClient \<or> \<not> js_lt (Num 0) (notBeforeMs j) \<or>
             (\<exists>t. DqRead t \<in> set tr \<and> \<not> must_wait j t))))"
proof (cases "redisStreamMessageTimestampMs messageId")
  case None
  then show ?thesis using assms by (auto simp: consume_entry_def)
next
  case (Some ts)
  let ?j = "ensureFirstQueuedAt job ts"
  let ?now1 = "dq_now E []"
  let ?now2 = "dq_now E [DqRead ?now1]"
  show ?thesis
  proof (cases "residence_expired (residence_of ?j ?now1)")
    case True
    show ?thesis
    proof (cases "dq_dlq_ok E [DqRead ?now1]")
      case ok: True
      then have "r = Skip" "tr = ack_event E messageId [DqRead ?now1, DqDlq (?j\<lparr>lastError := Some expired_reason\<rparr>)]"
        using assms Some True by (auto simp: consume_entry_def Let_def)
      then show ?thesis by (auto simp: ack_event_def)
    next
      case False
      then have "r = Skip" "tr = [DqRead ?now1, DqDlqFailed]"
        using assms Some True by (auto simp: consume_entry_def Let_def)
      then show ?thesis by auto
    qed
  next
    case fresh: False
    show ?thesis
    proof (cases "delayedRedis q \<noteq> NoClient \<and> js_lt (Num 0) (notBeforeMs ?j) \<and> must_wait ?j ?now2")
      case True
      then have "park_loop fuel E messageId ?j DELAYED_OUTBOUND_PARK_RETRY_MS ?now2 [DqRead ?now1, DqRead ?now2] = (r, tr)"
        using assms Some fresh by (simp add: consume_entry_def Let_def)
      from park_loop_events [OF this] obtain es where es: "tr = [DqRead ?now1, DqRead ?now2] @ es" "entry_outcome messageId r es"
        "\<forall>m' j. r = Yield m' j \<longrightarrow> j = ?j \<and> (\<exists>t. \<not> must_wait ?j t \<and> (t = ?now2 \<or> DqRead t \<in> set es))" by blast
      have "entry_outcome messageId r tr" unfolding es(1) by (rule entry_outcome_prepend [OF _ es(2)]) simp
      then show ?thesis using es(1,3) fresh Some by auto
    next
      case False
      then have "r = Yield messageId ?j" "tr = [DqRead ?now1, DqRead ?now2]"
        using assms unfolding consume_entry_def Some option.case Let_def append.simps
          if_not_P [OF fresh] if_not_P [OF False] by simp_all
      then show ?thesis using False fresh Some by auto
    qed
  qed
qed

definition calm_env :: dq_env where
  "calm_env = \<lparr>dq_now = (\<lambda>tr. 6000 + slept tr), dq_park_ok = (\<lambda>_. True), dq_dlq_ok = (\<lambda>_. True), dq_ack_ok = (\<lambda>_. True)\<rparr>"

theorem consuming_is_safe_witness:
  "\<exists>r tr. consume_entry 9 calm_env sample_dq ''5000-0'' later_job [] = (r, tr) \<and> entry_outcome ''5000-0'' r tr"
proof -
  obtain r tr where c: "consume_entry 9 calm_env sample_dq ''5000-0'' later_job [] = (r, tr)" by fastforce
  from consuming_is_safe [OF c] c show ?thesis by blast
qed

text \<open>C36: Consuming an entry ends: when the clock advances at least by what the process sleeps and the
  dead-letter write is refused at most \<open>N\<close> times, a number of rounds bounded by \<open>N\<close> and by the job's
  remaining delay in seconds is enough, however often parking fails.\<close>
theorem consuming_ends:
  assumes "\<forall>tr. t0 + slept tr \<le> dq_now E tr" and "\<forall>tr. N \<le> dlq_failures tr \<longrightarrow> dq_dlq_ok E tr"
    and "notBeforeMs job = Num t" and "t \<le> t0 + 1000 * int k" and "N + k < fuel"
  shows "fst (consume_entry fuel E q messageId job []) \<noteq> OutOfFuel"
proof (cases "redisStreamMessageTimestampMs messageId")
  case None
  then show ?thesis by (simp add: consume_entry_def)
next
  case (Some ts)
  let ?j = "ensureFirstQueuedAt job ts"
  have n: "notBeforeMs ?j = Num t" using assms(3) by (simp add: ensureFirstQueuedAt_def)
  have "fst (park_loop fuel E messageId ?j DELAYED_OUTBOUND_PARK_RETRY_MS (dq_now E [DqRead a]) [DqRead a, DqRead b]) \<noteq> OutOfFuel" for a b
    by (rule park_loop_ends [OF assms(1,2) n _ _ _ assms(5)])
      (use assms(1) [rule_format, of "[DqRead a]"] assms(4) in \<open>simp_all add: DELAYED_OUTBOUND_PARK_RETRY_MS_def\<close>)
  then show ?thesis by (simp add: consume_entry_def Some Let_def)
qed

theorem consuming_ends_witness:
  "fst (consume_entry 9 (calm_env\<lparr>dq_park_ok := (\<lambda>_. False)\<rparr>) sample_dq ''5000-0'' (later_job\<lparr>notBeforeMs := Num 13000\<rparr>) []) \<noteq> OutOfFuel"
proof -
  have a: "\<forall>tr. 6000 + slept tr \<le> dq_now (calm_env\<lparr>dq_park_ok := (\<lambda>_. False)\<rparr>) tr"
    "\<forall>tr. 0 \<le> dlq_failures tr \<longrightarrow> dq_dlq_ok (calm_env\<lparr>dq_park_ok := (\<lambda>_. False)\<rparr>) tr"
    "notBeforeMs (later_job\<lparr>notBeforeMs := Num 13000\<rparr>) = Num 13000"
    by (simp_all add: calm_env_def)
  show ?thesis by (rule consuming_ends [OF a, of 7]) simp_all
qed

end
