(* ===== verification/Egress_Policy.thy ===== *)
theory Egress_Policy
  imports Redis
begin

text \<open>
  \<open>fedify-sidecar/src/security/activitypub-egress-policy.ts\<close>: which addresses an ActivityPub
  request may reach.  A target is parsed, resolved, checked and then requested through a dispatcher
  that is pinned to the checked address, so that a second resolution cannot change it.

  \<open>new URL\<close> (the WHATWG parser) and the DNS resolver are parameters; \<open>isIP\<close> of \<open>node:net\<close> is
  modelled.  The dispatcher cache is part of the state, read and written through
  \<open>net_cache\<close> and \<open>net_set_cache\<close>.  A dispatcher is the target it is pinned to.
\<close>

section \<open>Text helpers\<close>

fun js_split :: "char \<Rightarrow> string \<Rightarrow> string list" where
  "js_split c [] = [[]]"
| "js_split c (x # xs) =
     (if x = c then [] # js_split c xs
      else case js_split c xs of [] \<Rightarrow> [[x]] | p # ps \<Rightarrow> (x # p) # ps)"

definition lower_char :: "char \<Rightarrow> char" where
  "lower_char c = (let n = of_char c :: nat in if 65 \<le> n \<and> n \<le> 90 then char_of (n + 32) else c)"

definition js_lower :: "string \<Rightarrow> string" where
  "js_lower s = map lower_char s"

definition hex_value :: "char \<Rightarrow> nat option" where
  "hex_value c = (let n = of_char c :: nat in
     if 48 \<le> n \<and> n \<le> 57 then Some (n - 48)
     else if 65 \<le> n \<and> n \<le> 70 then Some (n - 55)
     else if 97 \<le> n \<and> n \<le> 102 then Some (n - 87) else None)"

fun hex_prefix :: "nat \<Rightarrow> string \<Rightarrow> nat" where
  "hex_prefix acc [] = acc"
| "hex_prefix acc (c # cs) = (case hex_value c of None \<Rightarrow> acc | Some d \<Rightarrow> hex_prefix (16 * acc + d) cs)"

text \<open>\<open>Number.parseInt(s, 16)\<close> of a text without spaces, sign or \<open>0x\<close>: a group of an IPv6 address.\<close>

definition parse_hex_group :: "string \<Rightarrow> nat option" where
  "parse_hex_group s = (case s of [] \<Rightarrow> None | c # _ \<Rightarrow> if hex_value c = None then None else Some (hex_prefix 0 s))"

section \<open>\<open>isIP\<close>\<close>

definition ip4_segment :: "string \<Rightarrow> bool" where
  "ip4_segment p \<longleftrightarrow> p \<noteq> [] \<and> list_all js_digit p \<and> digits_val p \<le> 255 \<and> (hd p = CHR ''0'' \<longrightarrow> length p = 1)"

definition is_ip4 :: "string \<Rightarrow> bool" where
  "is_ip4 s \<longleftrightarrow> length (js_split (CHR ''.'') s) = 4 \<and> list_all ip4_segment (js_split (CHR ''.'') s)"

definition ip6_group :: "string \<Rightarrow> bool" where
  "ip6_group g \<longleftrightarrow> g \<noteq> [] \<and> length g \<le> 4 \<and> list_all (\<lambda>c. hex_value c \<noteq> None) g"

text \<open>The number of 16-bit groups in a part of the address; only its last piece may be dotted.\<close>

fun ip6_groups :: "bool \<Rightarrow> string list \<Rightarrow> nat option" where
  "ip6_groups dotted [] = Some 0"
| "ip6_groups dotted [g] = (if ip6_group g then Some 1 else if dotted \<and> is_ip4 g then Some 2 else None)"
| "ip6_groups dotted (g # gs) = (if ip6_group g then map_option Suc (ip6_groups dotted gs) else None)"

fun split_double_colon :: "string \<Rightarrow> (string \<times> string) option" where
  "split_double_colon (a # b # s) =
     (if a = CHR '':'' \<and> b = CHR '':'' then Some ([], s)
      else map_option (\<lambda>(l, r). (a # l, r)) (split_double_colon (b # s)))"
| "split_double_colon _ = None"

definition colon_parts :: "string \<Rightarrow> string list" where
  "colon_parts s = (if s = [] then [] else js_split (CHR '':'') s)"

definition zone_char :: "char \<Rightarrow> bool" where
  "zone_char c \<longleftrightarrow> (let n = of_char c :: nat in
     js_digit c \<or> (65 \<le> n \<and> n \<le> 90) \<or> (97 \<le> n \<and> n \<le> 122) \<or> n = 45 \<or> n = 46 \<or> n = 58)"

definition is_ip6 :: "string \<Rightarrow> bool" where
  "is_ip6 s \<longleftrightarrow>
     (let body = takeWhile (\<lambda>c. c \<noteq> CHR ''%'') s; zone = dropWhile (\<lambda>c. c \<noteq> CHR ''%'') s
      in (zone = [] \<or> (tl zone \<noteq> [] \<and> list_all zone_char (tl zone))) \<and>
         (case split_double_colon body of
            None \<Rightarrow> body \<noteq> [] \<and> ip6_groups True (colon_parts body) = Some 8
          | Some (l, r) \<Rightarrow>
              (case (ip6_groups False (colon_parts l), ip6_groups True (colon_parts r)) of
                 (Some m, Some n) \<Rightarrow> m + n \<le> 7 | _ \<Rightarrow> False)))"

definition isIP :: "string \<Rightarrow> nat" where
  "isIP s = (if is_ip4 s then 4 else if is_ip6 s then 6 else 0)"

section \<open>Addresses\<close>

datatype js_error = UnsafeTarget string | ResidenceExpired string | OtherError string

fun error_message :: "js_error \<Rightarrow> string" where
  "error_message (UnsafeTarget t) = t"
| "error_message (ResidenceExpired t) = t"
| "error_message (OtherError t) = t"

fun isUnsafeActivityPubTargetError :: "js_error \<Rightarrow> bool" where
  "isUnsafeActivityPubTargetError (UnsafeTarget _) = True"
| "isUnsafeActivityPubTargetError (ResidenceExpired _) = True"
| "isUnsafeActivityPubTargetError (OtherError _) = False"

definition ip4_octet :: "string \<Rightarrow> int option" where
  "ip4_octet part =
     (case parse_int part of
        Num v \<Rightarrow> if part \<noteq> [] \<and> list_all js_digit part \<and> 0 \<le> v \<and> v \<le> 255 then Some v else None
      | _ \<Rightarrow> None)"

definition parseIpv4 :: "string \<Rightarrow> int list option" where
  "parseIpv4 address =
     (let parts = js_split (CHR ''.'') address; octets = map ip4_octet parts
      in if length parts \<noteq> 4 \<or> None \<in> set octets then None else Some (map the octets))"

definition normalizeUrlHostname :: "string \<Rightarrow> string" where
  "normalizeUrlHostname hostname =
     (let normalized = js_lower (js_trim hostname)
      in if normalized \<noteq> [] \<and> hd normalized = CHR ''['' \<and> last normalized = CHR '']''
         then butlast (tl normalized) else normalized)"

definition forbidden_octets :: "int \<Rightarrow> int \<Rightarrow> int \<Rightarrow> bool" where
  "forbidden_octets a b c \<longleftrightarrow>
     a = 0 \<or> a = 10 \<or> (a = 100 \<and> b \<ge> 64 \<and> b \<le> 127) \<or> a = 127 \<or> (a = 169 \<and> b = 254) \<or>
     (a = 172 \<and> b \<ge> 16 \<and> b \<le> 31) \<or> (a = 192 \<and> b = 0 \<and> c = 0) \<or> (a = 192 \<and> b = 0 \<and> c = 2) \<or>
     (a = 192 \<and> b = 88 \<and> c = 99) \<or> (a = 192 \<and> b = 168) \<or> (a = 198 \<and> (b = 18 \<or> b = 19)) \<or>
     (a = 198 \<and> b = 51 \<and> c = 100) \<or> (a = 203 \<and> b = 0 \<and> c = 113) \<or> a \<ge> 224"

text \<open>\<open>Number.parseInt(parts[i] || "0", 16)\<close>; \<open>None\<close> is \<open>NaN\<close>, with which every comparison is false.\<close>

definition ip6_part :: "string list \<Rightarrow> nat \<Rightarrow> nat option" where
  "ip6_part parts i = parse_hex_group (if i < length parts \<and> parts ! i \<noteq> [] then parts ! i else ''0'')"

definition forbidden_groups :: "nat option \<Rightarrow> nat option \<Rightarrow> bool" where
  "forbidden_groups f s =
     (case f of None \<Rightarrow> False
      | Some first \<Rightarrow>
          first < 0x2000 \<or> first > 0x3fff \<or>
          (first = 0x2001 \<and> (case s of None \<Rightarrow> False | Some second \<Rightarrow> second \<le> 0x01ff)) \<or>
          (first = 0x2001 \<and> s = Some 0x0db8) \<or> first = 0x2002 \<or> first = 0x3ffe \<or> first = 0x3fff)"

definition isForbiddenActivityPubAddress :: "string \<Rightarrow> bool" where
  "isForbiddenActivityPubAddress address =
     (let version = isIP address
      in if version = 4 then
           (case parseIpv4 address of
              None \<Rightarrow> True
            | Some octets \<Rightarrow> forbidden_octets (octets ! 0) (octets ! 1) (octets ! 2))
         else if version = 6 then
           (let normalized = js_lower address; parts = js_split (CHR '':'') normalized
            in starts_with normalized ''::'' \<or> forbidden_groups (ip6_part parts 0) (ip6_part parts 1))
         else True)"

definition isLoopbackAddress :: "string \<Rightarrow> bool" where
  "isLoopbackAddress address =
     (if address = ''::1'' then True
      else if isIP address \<noteq> 4 then False
      else case parseIpv4 address of None \<Rightarrow> False | Some octets \<Rightarrow> octets ! 0 = 127)"

definition isExplicitLoopbackHost :: "string \<Rightarrow> bool" where
  "isExplicitLoopbackHost hostname =
     (let normalized = normalizeUrlHostname hostname
      in if normalized = ''localhost'' \<or> normalized = ''::1'' then True
         else if isIP normalized \<noteq> 4 then False
         else case parseIpv4 normalized of None \<Rightarrow> False | Some octets \<Rightarrow> octets ! 0 = 127)"

definition isInteropPrivateAddress :: "string \<Rightarrow> bool" where
  "isInteropPrivateAddress address =
     (let version = isIP address
      in if version = 4 then
           (case parseIpv4 address of
              None \<Rightarrow> False
            | Some octets \<Rightarrow>
                (let a = octets ! 0; b = octets ! 1
                 in a = 10 \<or> (a = 172 \<and> b \<ge> 16 \<and> b \<le> 31) \<or> (a = 192 \<and> b = 168)))
         else if version = 6 then
           (case ip6_part (js_split (CHR '':'') (js_lower address)) 0 of
              None \<Rightarrow> False | Some first \<Rightarrow> first \<ge> 0xfc00 \<and> first \<le> 0xfdff)
         else False)"

section \<open>Targets\<close>

record url =
  u_protocol :: string
  u_username :: string
  u_password :: string
  u_hash :: string
  u_hostname :: string
  u_host :: string
  u_origin :: string
  u_pathname :: string
  u_search :: string

type_synonym url_lib = "string \<Rightarrow> url option"

record resolved_address =
  ra_address :: string
  ra_family :: nat

record egress_options =
  allowLoopbackHttp :: bool
  interopPrivateHostnames :: "string list option"

record target =
  t_url :: url
  t_address :: string
  t_family :: nat
  t_hostname :: string

definition dns_results :: "(string \<times> nat) list \<Rightarrow> resolved_address list" where
  "dns_results results =
     map (\<lambda>(a, fam). \<lparr>ra_address = a, ra_family = fam\<rparr>) (filter (\<lambda>(a, fam). fam = 4 \<or> fam = 6) results)"

definition check_target :: "egress_options \<Rightarrow> url \<Rightarrow> string \<Rightarrow> resolved_address list \<Rightarrow> js_error + target" where
  "check_target options u hostname addresses =
     (if addresses = [] then Inl (OtherError ''ActivityPub egress target resolved to no addresses'')
      else
        let loopbackException =
              allowLoopbackHttp options \<and> u_protocol u = ''http:'' \<and> isExplicitLoopbackHost hostname \<and>
              list_all (\<lambda>entry. isLoopbackAddress (ra_address entry)) addresses;
            interopPrivateException =
              u_protocol u = ''https:'' \<and>
              (case interopPrivateHostnames options of None \<Rightarrow> False | Some hs \<Rightarrow> hostname \<in> set hs) \<and>
              list_all (\<lambda>entry. isInteropPrivateAddress (ra_address entry)) addresses;
            unsafe = find (\<lambda>entry. isForbiddenActivityPubAddress (ra_address entry)) addresses
        in if unsafe \<noteq> None \<and> \<not> loopbackException \<and> \<not> interopPrivateException
           then Inl (UnsafeTarget (''ActivityPub egress target resolved to forbidden address '' @ ra_address (the unsafe)))
           else if u_protocol u = ''http:'' \<and> \<not> loopbackException
           then Inl (UnsafeTarget ''Plain HTTP ActivityPub egress is restricted to explicitly enabled literal loopback targets'')
           else Inr \<lparr>t_url = u, t_address = ra_address (hd addresses), t_family = ra_family (hd addresses),
                     t_hostname = hostname\<rparr>)"

definition validateActivityPubTarget ::
  "url_lib \<Rightarrow> (string \<Rightarrow> ('w, js_error, resolved_address list) eio) \<Rightarrow> egress_options \<Rightarrow> string \<Rightarrow> ('w, js_error, target) eio" where
  "validateActivityPubTarget parse resolver options value =
     (case parse value of
        None \<Rightarrow> io_throw (UnsafeTarget ''ActivityPub egress target is not a valid URL'')
      | Some u \<Rightarrow>
          if u_username u \<noteq> [] \<or> u_password u \<noteq> []
          then io_throw (UnsafeTarget ''ActivityPub egress target must not contain credentials'')
          else if u_hash u \<noteq> []
          then io_throw (UnsafeTarget ''ActivityPub egress target must not contain a fragment'')
          else if u_protocol u \<noteq> ''https:'' \<and> u_protocol u \<noteq> ''http:''
          then io_throw (UnsafeTarget ''ActivityPub egress target must use HTTP(S)'')
          else let hostname = normalizeUrlHostname (u_hostname u); literalFamily = isIP hostname
               in if hostname = []
                  then io_throw (UnsafeTarget ''ActivityPub egress target must contain a hostname'')
                  else io_bind
                    (if literalFamily = 4 \<or> literalFamily = 6
                     then io_return [\<lparr>ra_address = hostname, ra_family = literalFamily\<rparr>]
                     else resolver hostname)
                    (\<lambda>addresses. case check_target options u hostname addresses of
                       Inl e \<Rightarrow> io_throw e | Inr t \<Rightarrow> io_return t))"

section \<open>Dispatchers\<close>

datatype lookup_answer = LookupError js_error | AllAddresses "resolved_address list" | OneAddress string nat

definition createPinnedLookup :: "target \<Rightarrow> string \<Rightarrow> bool \<Rightarrow> lookup_answer" where
  "createPinnedLookup t hostname wants_all =
     (if normalizeUrlHostname hostname \<noteq> t_hostname t
      then LookupError (UnsafeTarget ''ActivityPub egress dispatcher hostname mismatch'')
      else if wants_all then AllAddresses [\<lparr>ra_address = t_address t, ra_family = t_family t\<rparr>]
      else OneAddress (t_address t) (t_family t))"

definition DISPATCHER_TTL_MS :: int where "DISPATCHER_TTL_MS = 60000"
definition MAX_DISPATCHERS :: nat where "MAX_DISPATCHERS = 128"

text \<open>The cache, oldest entry first: key, pinned target and expiry.\<close>

type_synonym dispatcher_cache = "(string \<times> target \<times> int) list"

definition dispatcher_key :: "target \<Rightarrow> string" where
  "dispatcher_key t = u_origin (t_url t) @ ''|'' @ t_address t @ ''|'' @ show_nat (t_family t)"

text \<open>The eviction loop; \<open>n\<close> is the size of the whole cache when the loop reaches the entry.\<close>

fun evict_dispatchers :: "int \<Rightarrow> nat \<Rightarrow> dispatcher_cache \<Rightarrow> dispatcher_cache" where
  "evict_dispatchers now n [] = []"
| "evict_dispatchers now n ((k, d, expiresAt) # es) =
     (if expiresAt \<le> now \<or> n \<ge> MAX_DISPATCHERS
      then (if n - 1 < MAX_DISPATCHERS then es else evict_dispatchers now (n - 1) es)
      else (k, d, expiresAt) # evict_dispatchers now n es)"

definition getPinnedDispatcher :: "target \<Rightarrow> int \<Rightarrow> dispatcher_cache \<Rightarrow> target \<times> dispatcher_cache" where
  "getPinnedDispatcher t now cache =
     (let key = dispatcher_key t; existing = map_of cache key
      in case existing of
           Some (d, expiresAt) \<Rightarrow>
             if expiresAt > now then (d, cache)
             else (let rest = filter (\<lambda>e. fst e \<noteq> key) cache
                   in (t, evict_dispatchers now (length rest) rest @ [(key, t, now + DISPATCHER_TTL_MS)]))
         | None \<Rightarrow> (t, evict_dispatchers now (length cache) cache @ [(key, t, now + DISPATCHER_TTL_MS)]))"

definition interopPrivateHostnamesFromEnvironment :: "(string \<Rightarrow> string option) \<Rightarrow> string list option" where
  "interopPrivateHostnamesFromEnvironment env =
     (if env ''NODE_ENV'' \<noteq> Some ''development'' \<or> env ''AP_INTEROP_ENABLE_MEDIA_FIXTURES'' \<noteq> Some ''true'' then None
      else case env ''APDM_INTEROP_PRIVATE_HOSTS'' of
        None \<Rightarrow> None
      | Some configured \<Rightarrow>
          if configured = [] then None
          else Some (filter (\<lambda>v. v \<noteq> []) (map (\<lambda>v. js_lower (js_trim v)) (js_split (CHR '','') configured))))"

definition loopbackHttpAllowedFromEnvironment :: "(string \<Rightarrow> string option) \<Rightarrow> bool" where
  "loopbackHttpAllowedFromEnvironment env =
     (if env ''NODE_ENV'' = Some ''test'' then True
      else env ''NODE_ENV'' = Some ''development'' \<and> env ''APDM_ALLOW_LOOPBACK_HTTP'' = Some ''true'')"

record ('w, 'q, 'r) net =
  net_parse :: url_lib
  net_env :: "string \<Rightarrow> string option"
  net_lookup :: "string \<Rightarrow> ('w, js_error, (string \<times> nat) list) eio"
  net_now :: "('w, js_error, int) eio"
  net_cache :: "'w \<Rightarrow> dispatcher_cache"
  net_set_cache :: "dispatcher_cache \<Rightarrow> 'w \<Rightarrow> 'w"
  net_request :: "url \<Rightarrow> target \<Rightarrow> 'q \<Rightarrow> ('w, js_error, 'r) eio"

definition environment_options :: "(string \<Rightarrow> string option) \<Rightarrow> egress_options" where
  "environment_options env =
     \<lparr>allowLoopbackHttp = loopbackHttpAllowedFromEnvironment env,
      interopPrivateHostnames = interopPrivateHostnamesFromEnvironment env\<rparr>"

definition defaultLookup :: "('w, 'q, 'r) net \<Rightarrow> string \<Rightarrow> ('w, js_error, resolved_address list) eio" where
  "defaultLookup N hostname = io_bind (net_lookup N hostname) (\<lambda>results. io_return (dns_results results))"

definition pinned_dispatcher :: "('w, 'q, 'r) net \<Rightarrow> target \<Rightarrow> ('w, js_error, target) eio" where
  "pinned_dispatcher N t =
     io_bind (net_now N) (\<lambda>now w.
       case getPinnedDispatcher t now (net_cache N w) of (d, cache) \<Rightarrow> (Inr d, net_set_cache N cache w))"

definition secureActivityPubRequest ::
  "('w, 'q, 'r) net \<Rightarrow> string \<Rightarrow> 'q \<Rightarrow> ('w, js_error, unit) eio \<Rightarrow> ('w, js_error, 'r) eio" where
  "secureActivityPubRequest N value options assertExternalPostAllowed =
     io_bind (validateActivityPubTarget (net_parse N) (defaultLookup N) (environment_options (net_env N)) value) (\<lambda>t.
     io_bind (pinned_dispatcher N t) (\<lambda>dispatcher.
     io_then assertExternalPostAllowed
       (net_request N (t_url t) dispatcher options)))"

section \<open>Facts\<close>

text \<open>A production configuration: neither of the two exceptions can apply.\<close>

definition production_env :: "(string \<Rightarrow> string option) \<Rightarrow> bool" where
  "production_env env \<longleftrightarrow> env ''NODE_ENV'' \<noteq> Some ''test'' \<and> env ''NODE_ENV'' \<noteq> Some ''development''"

lemma production_options:
  "production_env env \<Longrightarrow> environment_options env = \<lparr>allowLoopbackHttp = False, interopPrivateHostnames = None\<rparr>"
  by (simp add: production_env_def environment_options_def loopbackHttpAllowedFromEnvironment_def
        interopPrivateHostnamesFromEnvironment_def)

definition public_target :: "target \<Rightarrow> bool" where
  "public_target t \<longleftrightarrow>
     u_protocol (t_url t) = ''https:'' \<and> u_username (t_url t) = [] \<and> u_password (t_url t) = [] \<and>
     u_hash (t_url t) = [] \<and> \<not> isForbiddenActivityPubAddress (t_address t)"

lemma check_target_public:
  assumes "check_target \<lparr>allowLoopbackHttp = False, interopPrivateHostnames = None\<rparr> u h as = Inr t"
  shows "t_url t = u \<and> u_protocol u \<noteq> ''http:'' \<and> \<not> isForbiddenActivityPubAddress (t_address t) \<and>
    t_address t \<in> ra_address ` set as \<and> t_hostname t = h \<and>
    (\<forall>a \<in> set as. \<not> isForbiddenActivityPubAddress (ra_address a))"
proof -
  from assms have ne: "as \<noteq> []" and f: "find (\<lambda>entry. isForbiddenActivityPubAddress (ra_address entry)) as = None"
    and h: "u_protocol u \<noteq> ''http:''"
    and t: "t = \<lparr>t_url = u, t_address = ra_address (hd as), t_family = ra_family (hd as), t_hostname = h\<rparr>"
    by (auto simp: check_target_def Let_def split: if_splits)
  from f have "\<forall>a \<in> set as. \<not> isForbiddenActivityPubAddress (ra_address a)" by (auto simp: find_None_iff)
  with ne h t show ?thesis by auto
qed

lemma validate_public:
  assumes "validateActivityPubTarget parse resolver \<lparr>allowLoopbackHttp = False, interopPrivateHostnames = None\<rparr> value w = (Inr t, w')"
  shows "public_target t \<and> parse value = Some (t_url t) \<and> t_hostname t = normalizeUrlHostname (u_hostname (t_url t))"
  using assms
  by (auto simp: validateActivityPubTarget_def io_throw_def io_return_def io_bind_def Let_def public_target_def
      dest!: check_target_public split: option.splits if_splits sum.splits prod.splits)

lemma js_split_chars: "\<Union> (set ` set (js_split c s)) = set s - {c}"
proof (induction s)
  case (Cons x s)
  show ?case
  proof (cases "js_split c s")
    case Nil
    with Cons show ?thesis by auto
  next
    case (Cons p ps)
    with \<open>\<Union> (set ` set (js_split c s)) = set s - {c}\<close> have "set p \<union> \<Union> (set ` set ps) = set s - {c}" by simp
    then have "x = c \<Longrightarrow> ?thesis" using Cons by simp
    moreover have "x \<noteq> c \<Longrightarrow> ?thesis"
      using Cons \<open>set p \<union> _ = _\<close> by (simp add: insert_Diff_if Un_insert_left)
    ultimately show ?thesis by blast
  qed
qed simp

lemma js_split_member: "x \<in> set s \<Longrightarrow> x \<noteq> c \<Longrightarrow> \<exists>p \<in> set (js_split c s). x \<in> set p"
  using js_split_chars [of c s] by blast

lemma is_ip4_chars:
  assumes "is_ip4 s" and "x \<in> set s"
  shows "js_digit x \<or> x = CHR ''.''"
proof (cases "x = CHR ''.''")
  case False
  from js_split_member [OF assms(2) False] obtain p where p: "p \<in> set (js_split (CHR ''.'') s)" "x \<in> set p" by blast
  from p(1) assms(1) have "list_all js_digit p" by (simp add: is_ip4_def ip4_segment_def list_all_iff)
  with p(2) show ?thesis by (simp add: list_all_iff)
qed simp

lemma ip6_groups_chars:
  "ip6_groups d gs \<noteq> None \<Longrightarrow> g \<in> set gs \<Longrightarrow> ip6_group g \<or> is_ip4 g"
  by (induction d gs rule: ip6_groups.induct) (auto split: if_splits)

lemma split_double_colon_parts: "split_double_colon s = Some (l, r) \<Longrightarrow> s = l @ ''::'' @ r"
  by (induction s arbitrary: l r rule: split_double_colon.induct) (auto split: if_splits)

definition address_char :: "char \<Rightarrow> bool" where
  "address_char x \<longleftrightarrow> x \<noteq> CHR ''|''"

lemma bar_not_hex: "hex_value (CHR ''|'') = None" by (simp add: hex_value_def)
lemma bar_not_digit: "\<not> js_digit (CHR ''|'')" by (simp add: js_digit_def)
lemma bar_not_zone: "\<not> zone_char (CHR ''|'')" by (simp add: zone_char_def js_digit_def)

lemma colon_parts_no_bar:
  assumes "ip6_groups d (colon_parts s) \<noteq> None"
  shows "CHR ''|'' \<notin> set s"
proof
  assume bar: "CHR ''|'' \<in> set s"
  then have "colon_parts s = js_split (CHR '':'') s" by (auto simp: colon_parts_def)
  with js_split_member [OF bar, of "CHR '':''"] obtain g where g: "g \<in> set (colon_parts s)" "CHR ''|'' \<in> set g"
    by auto
  from ip6_groups_chars [OF assms g(1)] g(2) show False
    by (auto simp: ip6_group_def list_all_iff bar_not_hex bar_not_digit dest: is_ip4_chars)
qed

lemma isIP_no_bar:
  assumes "isIP s \<noteq> 0"
  shows "CHR ''|'' \<notin> set s"
proof (cases "is_ip4 s")
  case True
  then show ?thesis using is_ip4_chars [OF True, of "CHR ''|''"] by (auto simp: bar_not_digit)
next
  case False
  with assms have six: "is_ip6 s" by (simp add: isIP_def split: if_splits)
  define body zone where bz: "body = takeWhile (\<lambda>c. c \<noteq> CHR ''%'') s" "zone = dropWhile (\<lambda>c. c \<noteq> CHR ''%'') s"
  have s: "s = body @ zone" by (simp add: bz)
  have "CHR ''|'' \<notin> set zone"
  proof (cases zone)
    case (Cons z zs)
    have "hd zone = CHR ''%''" using hd_dropWhile [of "\<lambda>c. c \<noteq> CHR ''%''" s] Cons unfolding bz by fastforce
    moreover have "zone = [] \<or> tl zone \<noteq> [] \<and> list_all zone_char (tl zone)"
      using six unfolding is_ip6_def Let_def bz by (rule conjunct1)
    ultimately show ?thesis unfolding Cons using bar_not_zone by (auto simp: list_all_iff)
  qed simp
  moreover have "CHR ''|'' \<notin> set body"
  proof (cases "split_double_colon body")
    case None
    then have "ip6_groups True (colon_parts body) \<noteq> None" using six bz by (simp add: is_ip6_def Let_def)
    then show ?thesis by (rule colon_parts_no_bar)
  next
    case (Some lr)
    then obtain l r where lr: "split_double_colon body = Some (l, r)" by (cases lr) auto
    then have "ip6_groups False (colon_parts l) \<noteq> None \<and> ip6_groups True (colon_parts r) \<noteq> None"
      using six bz by (auto simp: is_ip6_def Let_def split: option.splits)
    then have "CHR ''|'' \<notin> set l" "CHR ''|'' \<notin> set r" using colon_parts_no_bar by blast+
    then show ?thesis using split_double_colon_parts [OF lr] by simp
  qed
  ultimately show ?thesis by (simp add: s)
qed

lemma public_no_bar: "\<not> isForbiddenActivityPubAddress a \<Longrightarrow> CHR ''|'' \<notin> set a"
  by (rule isIP_no_bar) (rule notI, simp add: isForbiddenActivityPubAddress_def)

lemma split_at_last:
  "x @ c # y = x' @ c # y' \<Longrightarrow> c \<notin> set y \<Longrightarrow> c \<notin> set y' \<Longrightarrow> x = x' \<and> y = y'"
  by (auto simp: append_eq_append_conv2 Cons_eq_append_conv append_eq_Cons_conv)

lemma dispatcher_key_inject:
  assumes "dispatcher_key t = dispatcher_key d" and "CHR ''|'' \<notin> set (t_address t)" and "CHR ''|'' \<notin> set (t_address d)"
  shows "u_origin (t_url t) = u_origin (t_url d) \<and> t_address t = t_address d \<and> t_family t = t_family d"
proof -
  have d: "CHR ''|'' \<notin> set (show_nat n)" for n using show_nat_all_digits [of n] bar_not_digit by (auto simp: list_all_iff)
  from assms(1) have "(u_origin (t_url t) @ CHR ''|'' # t_address t) @ CHR ''|'' # show_nat (t_family t) =
    (u_origin (t_url d) @ CHR ''|'' # t_address d) @ CHR ''|'' # show_nat (t_family d)"
    by (simp add: dispatcher_key_def)
  from split_at_last [OF this d d] have *: "u_origin (t_url t) @ CHR ''|'' # t_address t = u_origin (t_url d) @ CHR ''|'' # t_address d"
    "show_nat (t_family t) = show_nat (t_family d)" by auto
  from *(2) have "digits_val (show_nat (t_family t)) = digits_val (show_nat (t_family d))" by simp
  then have "t_family t = t_family d" by (simp add: digits_val_show_nat)
  with split_at_last [OF *(1) assms(2,3)] show ?thesis by simp
qed

subsection \<open>The dispatcher cache\<close>

definition cache_inv :: "dispatcher_cache \<Rightarrow> bool" where
  "cache_inv cache \<longleftrightarrow> distinct (map fst cache) \<and> length cache \<le> MAX_DISPATCHERS \<and>
     (\<forall>(k, d, e) \<in> set cache. k = dispatcher_key d \<and> public_target d)"

lemma evict_subset: "set (evict_dispatchers now n es) \<subseteq> set es"
  by (induction now n es rule: evict_dispatchers.induct) auto

lemma evict_distinct: "distinct (map fst es) \<Longrightarrow> distinct (map fst (evict_dispatchers now n es))"
proof (induction now n es rule: evict_dispatchers.induct)
  case (2 now n k d expiresAt es)
  have "fst ` set (evict_dispatchers now n es) \<subseteq> fst ` set es" using evict_subset [of now n es] by blast
  with 2 show ?case by auto
qed simp

lemma evict_length: "length (evict_dispatchers now n es) \<le> length es"
  by (induction now n es rule: evict_dispatchers.induct) auto

lemma evict_size: "length es \<le> MAX_DISPATCHERS \<Longrightarrow> length (evict_dispatchers now (length es) es) < MAX_DISPATCHERS"
proof (cases "length es = MAX_DISPATCHERS")
  case True
  then obtain k d e es' where "es = (k, d, e) # es'" "length es' < MAX_DISPATCHERS"
    by (cases es) (auto simp: MAX_DISPATCHERS_def)
  with True show ?thesis by simp
next
  case False
  then show "length es \<le> MAX_DISPATCHERS \<Longrightarrow> ?thesis" using evict_length [of now "length es" es] by simp
qed

lemma pinned_inv:
  assumes "cache_inv cache" and "public_target t" and "getPinnedDispatcher t now cache = (d, cache')"
  shows "cache_inv cache' \<and> public_target d \<and> u_origin (t_url d) = u_origin (t_url t) \<and>
    t_address d = t_address t \<and> t_family d = t_family t"
proof -
  let ?k = "dispatcher_key t"
  have added: "cache_inv (evict_dispatchers now (length es) es @ [(?k, t, now + DISPATCHER_TTL_MS)])"
    if "es = filter (\<lambda>e. fst e \<noteq> ?k) cache" for es
  proof -
    have "distinct (map fst es)" "length es \<le> MAX_DISPATCHERS" "?k \<notin> fst ` set es" "set es \<subseteq> set cache"
      using assms(1) that by (auto simp: cache_inv_def distinct_map inj_on_def intro: order_trans [OF length_filter_le])
    note es = this
    let ?ev = "evict_dispatchers now (length es) es"
    have sub: "set ?ev \<subseteq> set cache" using evict_subset [of now "length es" es] es(4) by blast
    have "?k \<notin> fst ` set ?ev" using evict_subset [of now "length es" es] es(3) by blast
    then have "distinct (map fst (?ev @ [(?k, t, now + DISPATCHER_TTL_MS)]))"
      using evict_distinct [OF es(1), of now "length es"] by simp
    moreover have "length (?ev @ [(?k, t, now + DISPATCHER_TTL_MS)]) \<le> MAX_DISPATCHERS"
      using evict_size [OF es(2), of now] by simp
    moreover have "\<forall>(k, d, e) \<in> set (?ev @ [(?k, t, now + DISPATCHER_TTL_MS)]). k = dispatcher_key d \<and> public_target d"
      using assms(1,2) sub unfolding cache_inv_def by auto
    ultimately show ?thesis unfolding cache_inv_def by blast
  qed
  show ?thesis
  proof (cases "map_of cache ?k")
    case None
    then have "filter (\<lambda>e. fst e \<noteq> ?k) cache = cache" by (force simp: map_of_eq_None_iff filter_id_conv)
    with None assms(2,3) added [of cache] show ?thesis by (auto simp: getPinnedDispatcher_def Let_def)
  next
    case (Some de)
    obtain d0 e where de: "de = (d0, e)" by (cases de)
    with Some have mem: "(?k, d0, e) \<in> set cache" by (auto dest: map_of_SomeD)
    then have k: "?k = dispatcher_key d0" and p: "public_target d0" using assms(1) by (auto simp: cache_inv_def)
    have *: "u_origin (t_url d0) = u_origin (t_url t) \<and> t_address d0 = t_address t \<and> t_family d0 = t_family t"
      using dispatcher_key_inject [OF k] p assms(2) public_no_bar by (auto simp: public_target_def)
    show ?thesis
    proof (cases "e > now")
      case True
      with Some de assms(1,3) p * show ?thesis by (auto simp: getPinnedDispatcher_def Let_def)
    next
      case False
      with Some de assms(2,3) added [OF refl] show ?thesis by (auto simp: getPinnedDispatcher_def Let_def)
    qed
  qed
qed

end
