(* ===== verification/Egress_Properties.thy ===== *)
theory Egress_Properties
  imports Egress_Policy "HOL-Library.Word"
begin

text \<open>
  What the egress policy guarantees: the IPv4 test is membership in the registry's reserved blocks,
  and in production no request leaves the process except over TLS to a public address, through a
  dispatcher pinned to the address that was checked.
\<close>

section \<open>Reserved blocks\<close>

text \<open>
  The reserved IPv4 ranges in the notation of the registry, as blocks of 32-bit words: an address
  lies in \<open>(base, len)\<close> when its first \<open>len\<close> bits are those of \<open>base\<close>.
\<close>

definition ip_value :: "nat \<Rightarrow> nat \<Rightarrow> nat \<Rightarrow> nat \<Rightarrow> nat" where
  "ip_value a b c d = ((a * 256 + b) * 256 + c) * 256 + d"

definition ip_word :: "nat \<Rightarrow> nat \<Rightarrow> nat \<Rightarrow> nat \<Rightarrow> 32 word" where
  "ip_word a b c d = of_nat (ip_value a b c d)"

definition in_block :: "32 word \<Rightarrow> 32 word \<times> nat \<Rightarrow> bool" where
  "in_block x blk = (case blk of (base, len) \<Rightarrow> drop_bit (32 - len) x = drop_bit (32 - len) base)"

definition reserved_blocks :: "(32 word \<times> nat) list" where
  "reserved_blocks =
     [(ip_word 0 0 0 0, 8), (ip_word 10 0 0 0, 8), (ip_word 100 64 0 0, 10), (ip_word 127 0 0 0, 8),
      (ip_word 169 254 0 0, 16), (ip_word 172 16 0 0, 12), (ip_word 192 0 0 0, 24), (ip_word 192 0 2 0, 24),
      (ip_word 192 88 99 0, 24), (ip_word 192 168 0 0, 16), (ip_word 198 18 0 0, 15), (ip_word 198 51 100 0, 24),
      (ip_word 203 0 113 0, 24), (ip_word 224 0 0 0, 3)]"

definition dotted :: "nat \<Rightarrow> nat \<Rightarrow> nat \<Rightarrow> nat \<Rightarrow> string" where
  "dotted a b c d = show_nat a @ ''.'' @ show_nat b @ ''.'' @ show_nat c @ ''.'' @ show_nat d"

lemma unat_ip_word:
  assumes "a < 256" "b < 256" "c < 256" "d < 256"
  shows "unat (ip_word a b c d) = ip_value a b c d"
proof -
  have "ip_value a b c d < 2 ^ 32" using assms by (simp add: ip_value_def)
  then show ?thesis unfolding ip_word_def by (simp add: unat_of_nat take_bit_eq_mod)
qed

lemma block_range:
  assumes "a < 256" "b < 256" "c < 256" "d < 256" "x < 256" "y < 256" "z < 256"
    and "ip_value x y z 0 = q * 2 ^ (32 - len)"
  shows "in_block (ip_word a b c d) (ip_word x y z 0, len) \<longleftrightarrow>
    ip_value x y z 0 \<le> ip_value a b c d \<and> ip_value a b c d < ip_value x y z 0 + 2 ^ (32 - len)"
proof -
  let ?k = "2 ^ (32 - len) :: nat" let ?v = "ip_value a b c d"
  have "in_block (ip_word a b c d) (ip_word x y z 0, len) \<longleftrightarrow> ?v div ?k = q"
    unfolding in_block_def prod.case word_unat_eq_iff unat_drop_bit_eq
    using assms(1-7) by (simp add: drop_bit_eq_div unat_ip_word assms(8))
  also have "\<dots> \<longleftrightarrow> q * ?k \<le> ?v \<and> ?v < q * ?k + ?k"
  proof
    assume q: "?v div ?k = q"
    have "?v = ?v div ?k * ?k + ?v mod ?k" by (rule div_mult_mod_eq [symmetric])
    moreover have "?v mod ?k < ?k" by simp
    ultimately have "?v = q * ?k + ?v mod ?k" "?v mod ?k < ?k" unfolding q .
    then show "q * ?k \<le> ?v \<and> ?v < q * ?k + ?k" by linarith
  qed (auto intro: div_nat_eqI simp: algebra_simps)
  finally show ?thesis using assms(8) by simp
qed

lemma octet_range:
  fixes a x r u n N :: nat
  assumes "r < N" and "u + n \<le> N"
  shows "x * N + u \<le> a * N + r \<and> a * N + r < x * N + u + n \<longleftrightarrow> a = x \<and> u \<le> r \<and> r < u + n"
proof (cases a x rule: linorder_cases)
  case less
  then have "Suc a * N \<le> x * N" by (intro mult_le_mono1) simp
  with assms less show ?thesis by simp
next
  case greater
  then have "Suc x * N \<le> a * N" by (intro mult_le_mono1) simp
  with assms greater show ?thesis by simp
qed auto

lemma block_octets:
  assumes "a < 256" "b < 256" "c < 256" "d < 256" "x < 256" "y < 256" "z < 256"
    and "ip_value x y z 0 = q * 2 ^ (32 - len)" and "(y * 256 + z) * 256 + 2 ^ (32 - len) \<le> 2 ^ 24"
  shows "in_block (ip_word a b c d) (ip_word x y z 0, len) \<longleftrightarrow>
    a = x \<and> (y * 256 + z) * 256 \<le> (b * 256 + c) * 256 + d \<and> (b * 256 + c) * 256 + d < (y * 256 + z) * 256 + 2 ^ (32 - len)"
proof -
  have v: "ip_value u v w t = u * 2 ^ 24 + ((v * 256 + w) * 256 + t)" for u v w t by (simp add: ip_value_def)
  have "(b * 256 + c) * 256 + d < 2 ^ 24" using assms(2-4) by simp
  then show ?thesis
    unfolding block_range [OF assms(1-8)] v
    using octet_range [of "(b * 256 + c) * 256 + d" "2 ^ 24" "(y * 256 + z) * 256" "2 ^ (32 - len)" x a] assms(9) by simp
qed

lemma block_24:
  assumes "a < 256" "b < 256" "c < 256" "d < 256" "x < 256" "y < 256" "z < 256"
  shows "in_block (ip_word a b c d) (ip_word x y z 0, 24) \<longleftrightarrow> a = x \<and> b = y \<and> c = z"
proof -
  have "(y * 256 + z) * 256 \<le> (b * 256 + c) * 256 + d \<and> (b * 256 + c) * 256 + d < (y * 256 + z) * 256 + 256 \<longleftrightarrow>
      b = y \<and> z * 256 \<le> c * 256 + d \<and> c * 256 + d < z * 256 + 256"
    using octet_range [of "c * 256 + d" "2 ^ 16" "z * 256" 256 y b] assms by (simp add: algebra_simps)
  also have "\<dots> \<longleftrightarrow> b = y \<and> c = z"
    using octet_range [of d 256 0 256 z c] assms by simp
  finally show ?thesis
    using block_octets [OF assms, of "(x * 256 + y) * 256 + z" 24] assms by (simp add: ip_value_def)
qed

lemma reserved_ranges:
  assumes "a < 256" "b < 256" "c < 256" "d < 256"
  shows "(\<exists>blk \<in> set reserved_blocks. in_block (ip_word a b c d) blk) \<longleftrightarrow> forbidden_octets (int a) (int b) (int c)"
proof -
  note br = block_octets [OF assms]
  have b0: "in_block (ip_word a b c d) (ip_word 0 0 0 0, 8) \<longleftrightarrow> a = 0"
    using assms br [of 0 0 0 "0" 8] by (auto simp: ip_value_def)
  have b1: "in_block (ip_word a b c d) (ip_word 10 0 0 0, 8) \<longleftrightarrow> a = 10"
    using assms br [of 10 0 0 "10" 8] by (auto simp: ip_value_def)
  have b2: "in_block (ip_word a b c d) (ip_word 100 64 0 0, 10) \<longleftrightarrow> a = 100 \<and> 64 \<le> b \<and> b \<le> 127"
    using assms br [of 100 64 0 "401" 10] by (auto simp: ip_value_def)
  have b3: "in_block (ip_word a b c d) (ip_word 127 0 0 0, 8) \<longleftrightarrow> a = 127"
    using assms br [of 127 0 0 "127" 8] by (auto simp: ip_value_def)
  have b4: "in_block (ip_word a b c d) (ip_word 169 254 0 0, 16) \<longleftrightarrow> a = 169 \<and> b = 254"
    using assms br [of 169 254 0 "43518" 16] by (auto simp: ip_value_def)
  have b5: "in_block (ip_word a b c d) (ip_word 172 16 0 0, 12) \<longleftrightarrow> a = 172 \<and> 16 \<le> b \<and> b \<le> 31"
    using assms br [of 172 16 0 "2753" 12] by (auto simp: ip_value_def)
  have b6: "in_block (ip_word a b c d) (ip_word 192 0 0 0, 24) \<longleftrightarrow> a = 192 \<and> b = 0 \<and> c = 0"
    using assms by (simp add: block_24)
  have b7: "in_block (ip_word a b c d) (ip_word 192 0 2 0, 24) \<longleftrightarrow> a = 192 \<and> b = 0 \<and> c = 2"
    using assms by (simp add: block_24)
  have b8: "in_block (ip_word a b c d) (ip_word 192 88 99 0, 24) \<longleftrightarrow> a = 192 \<and> b = 88 \<and> c = 99"
    using assms by (simp add: block_24)
  have b9: "in_block (ip_word a b c d) (ip_word 192 168 0 0, 16) \<longleftrightarrow> a = 192 \<and> b = 168"
    using assms br [of 192 168 0 "49320" 16] by (auto simp: ip_value_def)
  have b10: "in_block (ip_word a b c d) (ip_word 198 18 0 0, 15) \<longleftrightarrow> a = 198 \<and> (b = 18 \<or> b = 19)"
    using assms br [of 198 18 0 "25353" 15] by (auto simp: ip_value_def)
  have b11: "in_block (ip_word a b c d) (ip_word 198 51 100 0, 24) \<longleftrightarrow> a = 198 \<and> b = 51 \<and> c = 100"
    using assms by (simp add: block_24)
  have b12: "in_block (ip_word a b c d) (ip_word 203 0 113 0, 24) \<longleftrightarrow> a = 203 \<and> b = 0 \<and> c = 113"
    using assms by (simp add: block_24)
  have b13: "in_block (ip_word a b c d) (ip_word 224 0 0 0, 3) \<longleftrightarrow> 224 \<le> a"
  proof -
    have "in_block (ip_word a b c d) (ip_word 224 0 0 0, 3) \<longleftrightarrow>
        ip_value 224 0 0 0 \<le> ip_value a b c d \<and> ip_value a b c d < ip_value 224 0 0 0 + 2 ^ (32 - 3)"
      by (rule block_range [OF assms, where q = 7]) (simp_all add: ip_value_def)
    moreover have "ip_value a b c d < ip_value 224 0 0 0 + 2 ^ (32 - 3)" using assms by (simp add: ip_value_def)
    moreover have "ip_value 224 0 0 0 \<le> ip_value a b c d \<longleftrightarrow> 224 \<le> a"
    proof
      show "224 \<le> a \<Longrightarrow> ip_value 224 0 0 0 \<le> ip_value a b c d" by (simp add: ip_value_def)
      show "ip_value 224 0 0 0 \<le> ip_value a b c d \<Longrightarrow> 224 \<le> a"
        using assms by (rule_tac ccontr) (simp add: ip_value_def)
    qed
    ultimately show ?thesis by blast
  qed
  have o: "int n = numeral k \<longleftrightarrow> n = numeral k" "int n \<ge> numeral k \<longleftrightarrow> numeral k \<le> n" "int n \<le> numeral k \<longleftrightarrow> n \<le> numeral k"
    "int n = 0 \<longleftrightarrow> n = 0" for n k
    using of_nat_le_iff [of "numeral k" n, where 'a = int] of_nat_le_iff [of n "numeral k", where 'a = int]
    by (simp_all only: int_eq_iff_numeral of_nat_numeral of_nat_eq_0_iff)
  have bex: "(\<exists>x \<in> set (y # ys). P x) \<longleftrightarrow> P y \<or> (\<exists>x \<in> set ys. P x)" "(\<exists>x \<in> set []. P x) \<longleftrightarrow> False" for y ys and P :: "32 word \<times> nat \<Rightarrow> bool"
    by auto
  show ?thesis
    unfolding reserved_blocks_def forbidden_octets_def o bex b0 b1 b2 b3 b4 b5 b6 b7 b8 b9 b10 b11 b12 b13 by argo
qed

section \<open>Dotted addresses\<close>

lemma js_split_plain: "c \<notin> set p \<Longrightarrow> js_split c p = [p]"
  by (induction p) auto

lemma js_split_append: "c \<notin> set p \<Longrightarrow> js_split c (p @ c # s) = p # js_split c s"
  by (induction p) auto

lemma dot_not_shown: "CHR ''.'' \<notin> set (show_nat n)"
proof
  assume "CHR ''.'' \<in> set (show_nat n)"
  with show_nat_all_digits [of n] have "js_digit (CHR ''.'')" by blast
  then show False by (simp add: js_digit_def)
qed

lemma js_split_dotted: "js_split (CHR ''.'') (dotted a b c d) = [show_nat a, show_nat b, show_nat c, show_nat d]"
proof -
  have "dotted a b c d = show_nat a @ CHR ''.'' # (show_nat b @ CHR ''.'' # (show_nat c @ CHR ''.'' # show_nat d))"
    by (simp add: dotted_def)
  then show ?thesis by (simp only: js_split_append [OF dot_not_shown] js_split_plain [OF dot_not_shown])
qed

lemma show_nat_no_zero: "0 < n \<Longrightarrow> hd (show_nat n) \<noteq> CHR ''0''"
proof (induction n rule: show_nat.induct)
  case (1 n)
  show ?case
  proof (cases "n < 10")
    case True
    have "digit_char n \<noteq> CHR ''0''"
    proof
      assume "digit_char n = CHR ''0''"
      then have "(of_char (digit_char n) :: nat) = of_char (CHR ''0'')" by simp
      with True 1(2) show False by (simp add: digit_char_def)
    qed
    with True show ?thesis by (subst show_nat.simps) simp
  next
    case False
    then have "hd (show_nat n) = hd (show_nat (n div 10))" by (subst show_nat.simps) simp
    with 1(1) [OF False] False show ?thesis by simp
  qed
qed

lemma ip4_segment_shown:
  assumes "a < 256"
  shows "ip4_segment (show_nat a)"
proof -
  have "list_all js_digit (show_nat a)" using show_nat_all_digits [of a] unfolding list_all_iff by blast
  moreover have "hd (show_nat a) = CHR ''0'' \<longrightarrow> length (show_nat a) = 1"
  proof (cases "a = 0")
    case True
    then show ?thesis by (subst show_nat.simps) simp
  next
    case False
    then show ?thesis using show_nat_no_zero [of a] by simp
  qed
  ultimately show ?thesis using assms by (simp add: ip4_segment_def digits_val_show_nat)
qed

lemma dotted_ip4: "a < 256 \<Longrightarrow> b < 256 \<Longrightarrow> c < 256 \<Longrightarrow> d < 256 \<Longrightarrow> isIP (dotted a b c d) = 4"
  by (simp add: isIP_def is_ip4_def js_split_dotted ip4_segment_shown)

lemma ip4_octet_shown:
  assumes "a < 256"
  shows "ip4_octet (show_nat a) = Some (int a)"
proof -
  have "parse_int (show_nat a) = Num (int a)" using parse_show_int [of "int a"] by (simp add: show_int_def)
  moreover have "list_all js_digit (show_nat a)" using show_nat_all_digits [of a] unfolding list_all_iff by blast
  ultimately show ?thesis using assms by (simp add: ip4_octet_def)
qed

lemma parse_dotted:
  "a < 256 \<Longrightarrow> b < 256 \<Longrightarrow> c < 256 \<Longrightarrow> d < 256 \<Longrightarrow> parseIpv4 (dotted a b c d) = Some [int a, int b, int c, int d]"
  by (simp add: parseIpv4_def js_split_dotted ip4_octet_shown Let_def)

section \<open>Requests\<close>

text \<open>
  A connection is allowed when the URL asks for TLS without credentials or fragment, and the dispatcher
  was pinned for the same origin to an address that is not forbidden.
\<close>

definition allowed_connection :: "url \<Rightarrow> target \<Rightarrow> bool" where
  "allowed_connection u d \<longleftrightarrow>
     u_protocol u = ''https:'' \<and> u_username u = [] \<and> u_password u = [] \<and> u_hash u = [] \<and>
     u_origin (t_url d) = u_origin u \<and> public_target d"

text \<open>
  What the egress policy relies on: only \<open>getPinnedDispatcher\<close> writes the dispatcher cache, and the
  configuration is a production one.
\<close>

lemma validate_keeps:
  assumes "\<And>h. f (snd (resolver h w)) = f w" and "validateActivityPubTarget parse resolver options v w = (r, w')"
  shows "f w' = f w"
proof (cases "parse v")
  case None
  with assms(2) show ?thesis by (simp add: validateActivityPubTarget_def io_throw_def)
next
  case (Some u)
  let ?h = "normalizeUrlHostname (u_hostname u)"
  obtain ra w1 where "resolver ?h w = (ra, w1)" by (cases "resolver ?h w")
  then show ?thesis using Some assms(2) assms(1) [of ?h]
    by (cases ra) (auto simp: validateActivityPubTarget_def io_throw_def io_return_def io_bind_def Let_def
        split: if_splits sum.splits)
qed

locale egress_net =
  fixes N :: "('w, 'q, 'r) net"
  assumes production: "production_env (net_env N)"
    and lookup_keeps: "net_cache N (snd (net_lookup N h w)) = net_cache N w"
    and now_keeps: "net_cache N (snd (net_now N w)) = net_cache N w"
    and request_keeps: "net_cache N (snd (net_request N u d q w)) = net_cache N w"
    and set_cache: "net_cache N (net_set_cache N c w) = c"
begin

abbreviation good where "good w \<equiv> cache_inv (net_cache N w)"

lemma validated:
  assumes "good w"
    and "validateActivityPubTarget (net_parse N) (defaultLookup N) (environment_options (net_env N)) v w = (r, w')"
  shows "good w' \<and> (\<forall>t. r = Inr t \<longrightarrow> public_target t \<and> net_parse N v = Some (t_url t))"
proof -
  have "net_cache N (snd (defaultLookup N h w)) = net_cache N w" for h
    using lookup_keeps [of h w] by (cases "net_lookup N h w"; cases "fst (net_lookup N h w)") (simp_all add: defaultLookup_def io_bind_def io_return_def)
  then have "net_cache N w' = net_cache N w" using validate_keeps [OF _ assms(2)] by blast
  moreover have "public_target t \<and> net_parse N v = Some (t_url t)" if "r = Inr t" for t
    using validate_public [OF assms(2) [unfolded production_options [OF production] that]] by simp
  ultimately show ?thesis using assms(1) by simp
qed

lemma dispatched:
  assumes "good w" and "public_target t" and "pinned_dispatcher N t w = (r, w')"
  shows "good w' \<and> (\<forall>d. r = Inr d \<longrightarrow> allowed_connection (t_url t) d \<and> t_address d = t_address t)"
proof -
  obtain rn w1 where n: "net_now N w = (rn, w1)" by (cases "net_now N w")
  then have g: "good w1" using now_keeps [of w] assms(1) by simp
  show ?thesis
  proof (cases rn)
    case (Inl e)
    with n g assms(3) show ?thesis by (auto simp: pinned_dispatcher_def io_bind_def)
  next
    case (Inr now)
    obtain d c where c: "getPinnedDispatcher t now (net_cache N w1) = (d, c)"
      by (cases "getPinnedDispatcher t now (net_cache N w1)")
    with n Inr assms(3) have r: "r = Inr d" "w' = net_set_cache N c w1"
      by (auto simp: pinned_dispatcher_def io_bind_def)
    from pinned_inv [OF g assms(2) c] assms(2) show ?thesis
      unfolding r set_cache by (auto simp: allowed_connection_def public_target_def)
  qed
qed

lemma request_guarded:
  assumes "good w" and "\<And>x. net_cache N (snd (check x)) = net_cache N x"
  shows "secureActivityPubRequest N v q check w =
      secureActivityPubRequest
        (N\<lparr>net_request := \<lambda>u d q. if allowed_connection u d then net_request N u d q else other u d q\<rparr>) v q check w
    \<and> good (snd (secureActivityPubRequest N v q check w))"
proof -
  let ?N = "N\<lparr>net_request := \<lambda>u d q. if allowed_connection u d then net_request N u d q else other u d q\<rparr>"
  have same: "defaultLookup ?N = defaultLookup N" "pinned_dispatcher ?N = pinned_dispatcher N"
    by (simp_all add: fun_eq_iff defaultLookup_def pinned_dispatcher_def)
  obtain rv w1 where v: "validateActivityPubTarget (net_parse N) (defaultLookup N) (environment_options (net_env N)) v w = (rv, w1)"
    by (cases "validateActivityPubTarget (net_parse N) (defaultLookup N) (environment_options (net_env N)) v w")
  note vv = validated [OF assms(1) v]
  show ?thesis
  proof (cases rv)
    case (Inl e)
    with v vv same show ?thesis by (simp add: secureActivityPubRequest_def io_bind_def)
  next
    case (Inr t)
    obtain rd w2 where d: "pinned_dispatcher N t w1 = (rd, w2)" by (cases "pinned_dispatcher N t w1")
    from Inr vv have "good w1" "public_target t" by auto
    note dd = dispatched [OF this d]
    show ?thesis
    proof (cases rd)
      case (Inl e)
      with v d dd Inr same show ?thesis by (simp add: secureActivityPubRequest_def io_bind_def)
    next
      case dr: (Inr dsp)
      obtain rc w3 where c: "check w2 = (rc, w3)" by (cases "check w2")
      then have "good w3" using assms(2) [of w2] dd by simp
      then have "good (snd (net_request N u dsp q w3))" for u using request_keeps by simp
      with v d dd Inr dr c same \<open>good w3\<close> show ?thesis
        by (cases rc) (auto simp: secureActivityPubRequest_def io_bind_def io_then_def)
    qed
  qed
qed

end

section \<open>Properties\<close>

text \<open>C22: The IPv4 part of the egress policy is the registry's list: a dotted address is forbidden exactly
  when, read as a 32-bit word, it lies in one of the fourteen reserved blocks (this-host, private,
  shared, loopback, link-local, protocol, documentation, relay, benchmarking, multicast and above).\<close>
theorem forbidden_iff_reserved:
  assumes "a < 256" and "b < 256" and "c < 256" and "d < 256"
  shows "isForbiddenActivityPubAddress (dotted a b c d) \<longleftrightarrow>
    (\<exists>blk \<in> set reserved_blocks. in_block (ip_word a b c d) blk)"
  unfolding reserved_ranges [OF assms]
  using assms by (simp add: isForbiddenActivityPubAddress_def dotted_ip4 parse_dotted)

theorem forbidden_iff_reserved_witness:
  "isForbiddenActivityPubAddress (dotted 172 31 255 255) = True \<and> isForbiddenActivityPubAddress (dotted 172 32 0 0) = False"
proof -
  have "in_block (ip_word 172 31 255 255) (ip_word 172 16 0 0, 12)"
    using block_octets [of 172 31 255 255 172 16 0 2753 12] by (simp add: ip_value_def)
  then have "\<exists>blk \<in> set reserved_blocks. in_block (ip_word 172 31 255 255) blk"
    unfolding reserved_blocks_def by (simp add: bex_simps del: bex_simps)
  moreover have "\<not> (\<exists>blk \<in> set reserved_blocks. in_block (ip_word 172 32 0 0) blk)"
    by (subst reserved_ranges) (simp_all add: forbidden_octets_def)
  ultimately show ?thesis
    using forbidden_iff_reserved [of 172 31 255 255] forbidden_iff_reserved [of 172 32 0 0] by simp
qed

text \<open>C21: In production no request leaves the process except over TLS to a public address: replacing the
  network by one that behaves arbitrarily on any other connection (plain HTTP, credentials, a fragment,
  a dispatcher pinned to a forbidden address or to another origin) changes nothing; and the dispatcher
  cache keeps at most 128 entries, each under the key of the public target it is pinned to.\<close>
theorem request_reaches_public_only:
  assumes "egress_net N" and "\<forall>x. net_cache N (snd (check x)) = net_cache N x" and "cache_inv (net_cache N w)"
  shows "secureActivityPubRequest N v q check w =
      secureActivityPubRequest
        (N\<lparr>net_request := \<lambda>u d q. if allowed_connection u d then net_request N u d q else other u d q\<rparr>) v q check w
    \<and> cache_inv (net_cache N (snd (secureActivityPubRequest N v q check w)))"
  using egress_net.request_guarded [OF assms(1,3)] assms(2) by blast

definition sample_url :: url where
  "sample_url = \<lparr>u_protocol = ''https:'', u_username = [], u_password = [], u_hash = [],
     u_hostname = ''a.example'', u_host = ''a.example'', u_origin = ''https://a.example'', u_pathname = ''/'', u_search = []\<rparr>"

definition sample_net :: "(dispatcher_cache, unit, nat) net" where
  "sample_net = \<lparr>net_parse = (\<lambda>_. Some sample_url), net_env = (\<lambda>_. None),
     net_lookup = (\<lambda>h. io_return [(''93.184.216.34'', 4)]), net_now = io_return 0,
     net_cache = (\<lambda>w. w), net_set_cache = (\<lambda>c w. c), net_request = (\<lambda>u d q. io_return 202)\<rparr>"

interpretation sample: egress_net sample_net
  by unfold_locales (simp_all add: sample_net_def production_env_def io_return_def)

lemma sample_cache: "net_cache sample_net = (\<lambda>w. w)"
  by (simp add: sample_net_def)

theorem request_reaches_public_only_witness:
  "fst (secureActivityPubRequest sample_net ''https://a.example/inbox'' () (io_return ()) []) = Inr 202
    \<and> secureActivityPubRequest sample_net ''https://a.example/inbox'' () (io_return ()) [] =
      secureActivityPubRequest
        (sample_net\<lparr>net_request := \<lambda>u d q. if allowed_connection u d then net_request sample_net u d q else io_throw (OtherError [])\<rparr>)
        ''https://a.example/inbox'' () (io_return ()) []
    \<and> cache_inv (snd (secureActivityPubRequest sample_net ''https://a.example/inbox'' () (io_return ()) []))"
proof
  show "fst (secureActivityPubRequest sample_net ''https://a.example/inbox'' () (io_return ()) []) = Inr 202"
    by code_simp
  have "\<forall>x. net_cache sample_net (snd (io_return () x)) = net_cache sample_net x" by (simp add: io_return_def)
  moreover have "cache_inv (net_cache sample_net [])" by (simp add: sample_cache cache_inv_def)
  ultimately show "secureActivityPubRequest sample_net ''https://a.example/inbox'' () (io_return ()) [] =
      secureActivityPubRequest
        (sample_net\<lparr>net_request := \<lambda>u d q. if allowed_connection u d then net_request sample_net u d q else io_throw (OtherError [])\<rparr>)
        ''https://a.example/inbox'' () (io_return ()) []
    \<and> cache_inv (snd (secureActivityPubRequest sample_net ''https://a.example/inbox'' () (io_return ()) []))"
    using request_reaches_public_only [OF sample.egress_net_axioms, of "io_return ()" "[]" "''https://a.example/inbox''" "()"
        "\<lambda>u d q. io_throw (OtherError [])"] unfolding sample_cache by blast
qed

end
