(* ===== verification/Outbound_Worker.thy ===== *)
theory Outbound_Worker
  imports Delivery_Claims Delayed_Queue Egress_Policy
begin

text \<open>
  \<open>fedify-sidecar/src/delivery/outbound-worker.ts\<close>: what happens to one outbound job, from the moment
  the queue yields it until it is acknowledged, put back or left pending, with every error path.

  The queue, the claim store, the signing service, the runtime adapter and the network are the
  services of \<open>services\<close>; each call may change the service state \<open>'s\<close> and may reject.  The worker's own
  state is \<open>world\<close>: the service state, the number of active jobs, the local variable \<open>claimHeld\<close>, and
  a trace of the calls with their outcomes, newest first, which the code does not read.
  Logging and metrics are left out.
\<close>

section \<open>Text that reaches the logs\<close>

definition MAX_RETRY_AFTER_MS :: int where "MAX_RETRY_AFTER_MS = 60 * 60 * 1000"
definition MAX_ERROR_TEXT_LENGTH :: nat where "MAX_ERROR_TEXT_LENGTH = 512"
definition MAX_RESPONSE_BODY_LOG_LENGTH :: nat where "MAX_RESPONSE_BODY_LOG_LENGTH = 2048"
definition MAX_RESPONSE_BODY_READ_BYTES :: nat where "MAX_RESPONSE_BODY_READ_BYTES = 8 * 1024"
definition MAX_INLINE_NOT_BEFORE_WAIT_MS :: int where "MAX_INLINE_NOT_BEFORE_WAIT_MS = 2000"

text \<open>\<open>/\s+/g\<close> replaced by one blank.\<close>

fun collapse_from :: "bool \<Rightarrow> string \<Rightarrow> string" where
  "collapse_from inside [] = []"
| "collapse_from inside (c # cs) =
     (if js_space c then (if inside then collapse_from True cs else CHR '' '' # collapse_from True cs)
      else c # collapse_from False cs)"

definition collapse_space :: "string \<Rightarrow> string" where
  "collapse_space s = collapse_from False s"

text \<open>\<open>/Bearer\s+[A-Za-z0-9._~+\/-]+=*/gi\<close>: what is left behind the match at the start of the text, if there is one.\<close>

definition token_char :: "char \<Rightarrow> bool" where
  "token_char c \<longleftrightarrow> (let n = of_char c :: nat in
     (48 \<le> n \<and> n \<le> 57) \<or> (65 \<le> n \<and> n \<le> 90) \<or> (97 \<le> n \<and> n \<le> 122) \<or>
     n = 46 \<or> n = 95 \<or> n = 126 \<or> n = 43 \<or> n = 47 \<or> n = 45)"

definition bearer_rest :: "string \<Rightarrow> string option" where
  "bearer_rest s =
     (let r = drop 6 s; t = dropWhile js_space r
      in if js_lower (take 6 s) = ''bearer'' \<and> r \<noteq> [] \<and> js_space (hd r) \<and> t \<noteq> [] \<and> token_char (hd t)
         then Some (dropWhile (\<lambda>c. c = CHR ''='') (dropWhile token_char t)) else None)"

lemma bearer_rest_shorter:
  assumes "bearer_rest s = Some r"
  shows "length r < length s"
proof -
  have "drop 6 s \<noteq> []" and r: "r = dropWhile (\<lambda>c. c = CHR ''='') (dropWhile token_char (dropWhile js_space (drop 6 s)))"
    using assms by (auto simp: bearer_rest_def Let_def split: if_splits)
  have "length r \<le> length (drop 6 s)"
    unfolding r by (meson length_dropWhile_le order_trans)
  with \<open>drop 6 s \<noteq> []\<close> show ?thesis by simp
qed

function redact_bearer :: "string \<Rightarrow> string" where
  "redact_bearer s =
     (case s of [] \<Rightarrow> []
      | c # cs \<Rightarrow> (case bearer_rest s of
                    Some r \<Rightarrow> ''Bearer [redacted]'' @ redact_bearer r
                  | None \<Rightarrow> c # redact_bearer cs))"
  by pat_completeness auto
termination
  by (relation "measure length") (auto dest: bearer_rest_shorter)

declare redact_bearer.simps [simp del]

definition sanitizeErrorText :: "string \<Rightarrow> string" where
  "sanitizeErrorText t = take MAX_ERROR_TEXT_LENGTH (redact_bearer (js_trim (collapse_space t)))"

definition control_char :: "char \<Rightarrow> bool" where
  "control_char c \<longleftrightarrow> (let n = of_char c :: nat in n \<le> 8 \<or> n = 11 \<or> n = 12 \<or> (14 \<le> n \<and> n \<le> 31))"

definition sanitizeResponseBodySnippet :: "string \<Rightarrow> string option" where
  "sanitizeResponseBodySnippet v =
     (let compact = js_trim (filter (\<lambda>c. \<not> control_char c) v)
      in if compact = [] then None else Some (take MAX_RESPONSE_BODY_LOG_LENGTH compact))"

section \<open>Responses\<close>

text \<open>
  A response body is the list of its chunks and the error the stream ends with, if any.  The result
  is the text read and whether the rest of the body was destroyed.
\<close>

fun read_chunks :: "nat \<Rightarrow> string list \<Rightarrow> js_error option \<Rightarrow> string \<Rightarrow> js_error + (string \<times> bool)" where
  "read_chunks maxBytes [] failure got = (case failure of None \<Rightarrow> Inr (got, False) | Some e \<Rightarrow> Inl e)"
| "read_chunks maxBytes (chunk # chunks) failure got =
     (let remaining = maxBytes - length got
      in if remaining = 0 then Inr (got, True)
         else if length chunk > remaining then Inr (got @ take remaining chunk, True)
         else read_chunks maxBytes chunks failure (got @ chunk))"

definition readBoundedResponseBody ::
  "(string list \<times> js_error option) option \<Rightarrow> nat \<Rightarrow> js_error + (string \<times> bool)" where
  "readBoundedResponseBody body maxBytes =
     (case body of
        None \<Rightarrow> Inr ([], False)
      | Some (chunks, failure) \<Rightarrow>
          if maxBytes = 0 then Inr ([], True) else read_chunks maxBytes chunks failure [])"

definition parseRetryAfterMs :: "(string \<Rightarrow> int option) \<Rightarrow> string option \<Rightarrow> int \<Rightarrow> int option" where
  "parseRetryAfterMs date_parse retryAfterHeader nowMs =
     (case retryAfterHeader of
        None \<Rightarrow> None
      | Some h \<Rightarrow>
          if h = [] then None
          else (case parse_int h of
                  Num asSeconds \<Rightarrow>
                    if asSeconds \<ge> 0 then Some (min (asSeconds * 1000) MAX_RETRY_AFTER_MS)
                    else map_option (\<lambda>asDateMs. min (max 0 (asDateMs - nowMs)) MAX_RETRY_AFTER_MS) (date_parse h)
                | _ \<Rightarrow> map_option (\<lambda>asDateMs. min (max 0 (asDateMs - nowMs)) MAX_RETRY_AFTER_MS) (date_parse h)))"

definition isSafeTargetInboxUrl :: "url_lib \<Rightarrow> string \<Rightarrow> bool" where
  "isSafeTargetInboxUrl parse inbox =
     (case parse inbox of
        None \<Rightarrow> False
      | Some parsed \<Rightarrow>
          if u_username parsed \<noteq> [] \<or> u_password parsed \<noteq> [] then False
          else let protocol = js_lower (u_protocol parsed); host = js_lower (u_hostname parsed)
               in if protocol = ''https:'' then True
                  else if protocol \<noteq> ''http:'' then False
                  else if host = ''localhost'' \<or> host = ''::1'' then True
                  else isIP host = 4 \<and> starts_with host ''127.'')"

section \<open>Follower-addressed activities\<close>

text \<open>\<open>federation/fep8fcf/FollowersSyncOutboundEligibility.ts\<close>\<close>

definition MAX_ACTIVITY_JSON_BYTES :: nat where "MAX_ACTIVITY_JSON_BYTES = 2 * 1024 * 1024"
definition MAX_RECIPIENTS :: nat where "MAX_RECIPIENTS = 10000"

fun normalizeRecipientValues :: "json option \<Rightarrow> string list" where
  "normalizeRecipientValues (Some (JStr s)) = [s]"
| "normalizeRecipientValues (Some (JArr vs)) =
     (if length vs > MAX_RECIPIENTS then [] else List.map_filter (\<lambda>v. case v of JStr s \<Rightarrow> Some s | _ \<Rightarrow> None) vs)"
| "normalizeRecipientValues _ = []"

definition without_slash :: "string \<Rightarrow> string" where
  "without_slash s = (if s \<noteq> [] \<and> last s = CHR ''/'' then butlast s else s)"

definition isFollowersAddressedActivity :: "string \<Rightarrow> string \<Rightarrow> bool" where
  "isFollowersAddressedActivity activityBody actor =
     (if length activityBody > MAX_ACTIVITY_JSON_BYTES then False
      else case json_parse activityBody of
        Some (JObj fs) \<Rightarrow>
          (without_slash actor @ ''/followers'')
            \<in> set (concat (map (\<lambda>k. normalizeRecipientValues (json_get k (JObj fs)))
                              [''to'', ''cc'', ''bto'', ''bcc'', ''audience'']))
      | _ \<Rightarrow> False)"

text \<open>\<open>extractActorIdentifier\<close> of \<open>PartialFollowersDigest.ts\<close>\<close>

definition extractActorIdentifier :: "url_lib \<Rightarrow> string \<Rightarrow> string \<Rightarrow> string option" where
  "extractActorIdentifier parse actor domain =
     (case parse actor of
        None \<Rightarrow> None
      | Some u \<Rightarrow>
          if u_hostname u \<noteq> domain then None
          else let i = drop 7 (u_pathname u)
               in if starts_with (u_pathname u) ''/users/'' \<and> i \<noteq> [] \<and>
                     list_all (\<lambda>c. c \<noteq> CHR ''/'' \<and> c \<noteq> CHR ''?'' \<and> c \<noteq> CHR ''#'') i
                  then Some i else None)"

section \<open>Services and configuration\<close>

record http_request =
  rq_headers :: "(string \<times> string) list"
  rq_body :: string
  rq_timeout :: int

datatype header_value = HeaderText string | HeaderList "string list"

record http_response =
  rs_status :: int
  rs_retry_after :: "header_value option"
  rs_body :: "(string list \<times> js_error option) option"

record sign_headers =
  sh_date :: string
  sh_digest :: "string option"
  sh_signature :: string

datatype sign_result = Signed sign_headers | SignError string string bool

record delivery_result =
  dr_success :: bool
  dr_statusCode :: "int option"
  dr_error :: "string option"
  dr_responseBody :: "string option"
  dr_retryAfterMs :: "int option"
  dr_permanent :: bool

datatype hook = OnOutboundDelivered "int option" | OnOutboundPermanentFailure "int option" string "string option" jsnum

text \<open>
  \<open>SignError code message retryable\<close>.  A runtime adapter may take over the delivery; it is given
  \<open>assertExternalPostAllowed\<close> and the signing callback, whose errors it sees as \<open>code\<close>, \<open>message\<close> and \<open>permanent\<close>.
\<close>

record 's adapter =
  ad_enabled :: bool
  ad_deliverOutbound :: "(OutboundJob \<Rightarrow> ('s, js_error, unit) eio \<Rightarrow>
     (string \<Rightarrow> string \<Rightarrow> string \<Rightarrow> string \<Rightarrow> ('s, js_error, (string \<times> string \<times> bool) + sign_headers) eio) \<Rightarrow>
     ('s, js_error, delivery_result) eio) option"
  ad_hook :: "(hook \<Rightarrow> OutboundJob \<Rightarrow> ('s, js_error, unit) eio) option"

definition NoopFederationRuntimeAdapter :: "'s adapter" where
  "NoopFederationRuntimeAdapter = \<lparr>ad_enabled = False, ad_deliverOutbound = None, ad_hook = None\<rparr>"

record 's services =
  sv_now :: "'s \<Rightarrow> int \<times> 's"
  sv_uuid :: "'s \<Rightarrow> string \<times> 's"
  sv_random_below :: "int \<Rightarrow> 's \<Rightarrow> int \<times> 's"
  sv_sleep :: "int \<Rightarrow> 's \<Rightarrow> 's"
  sv_claim :: "string \<Rightarrow> string \<Rightarrow> int \<Rightarrow> ('s, js_error, claim_result) eio"
  sv_complete :: "string \<Rightarrow> string \<Rightarrow> int \<Rightarrow> ('s, js_error, unit) eio"
  sv_release :: "string \<Rightarrow> string \<Rightarrow> ('s, js_error, unit) eio"
  sv_isDomainBlocked :: "string \<Rightarrow> ('s, js_error, bool) eio"
  sv_checkDomainRateLimit :: "string \<Rightarrow> ('s, js_error, bool) eio"
  sv_acquireDomainSlot :: "string \<Rightarrow> int \<Rightarrow> ('s, js_error, bool) eio"
  sv_releaseDomainSlot :: "string \<Rightarrow> ('s, js_error, unit) eio"
  sv_moveToDlq :: "OutboundJob \<Rightarrow> string \<Rightarrow> ('s, js_error, unit) eio"
  sv_enqueueOutbound :: "OutboundJob \<Rightarrow> ('s, js_error, unit) eio"
  sv_ack :: "string \<Rightarrow> ('s, js_error, unit) eio"
  sv_signOne :: "string \<Rightarrow> string \<Rightarrow> string \<Rightarrow> string \<Rightarrow> ('s, js_error, sign_result) eio"
  sv_buildSenderHeader :: "(string \<Rightarrow> string \<Rightarrow> string \<Rightarrow> ('s, js_error, string option) eio) option"
  sv_net :: "('s, http_request, http_response) net"
  sv_date_parse :: "string \<Rightarrow> int option"
  sv_adapter :: "'s adapter"

record gate_result =
  g_allowed :: bool
  g_reasonCode :: "string option"
  g_message :: "string option"

record worker_options =
  wo_concurrency :: int
  wo_maxConcurrentPerDomain :: int
  wo_requestTimeoutMs :: int
  wo_userAgent :: string
  wo_notReadyMaxRequeues :: "int option"
  wo_notReadyMinDelayMs :: "int option"
  wo_notReadyJitterMs :: "int option"
  wo_queueTelemetryIntervalMs :: "int option"
  wo_heapWarnMb :: "int option"
  wo_deliveryClaimTtlMs :: "int option"
  wo_deliveryCompletedTtlMs :: "int option"
  wo_capabilityGate :: "(string \<Rightarrow> gate_result) option"
  wo_fedifyRuntimeIntegrationEnabled :: bool
  wo_domain :: "string option"

record worker_config =
  concurrency :: int
  maxConcurrentPerDomain :: int
  requestTimeoutMs :: int
  userAgent :: string
  notReadyMaxRequeues :: int
  notReadyMinDelayMs :: int
  notReadyJitterMs :: int
  queueTelemetryIntervalMs :: int
  heapWarnMb :: int
  deliveryClaimTtlMs :: int
  deliveryCompletedTtlMs :: int
  capabilityGate :: "(string \<Rightarrow> gate_result) option"
  fedifyRuntimeIntegrationEnabled :: bool
  worker_domain :: "string option"
  test_env :: bool

definition worker_constructor :: "(string \<Rightarrow> string option) \<Rightarrow> worker_options \<Rightarrow> worker_config" where
  "worker_constructor env c =
     \<lparr>concurrency = wo_concurrency c, maxConcurrentPerDomain = wo_maxConcurrentPerDomain c,
      requestTimeoutMs = wo_requestTimeoutMs c, userAgent = wo_userAgent c,
      notReadyMaxRequeues = or_else (wo_notReadyMaxRequeues c) 32,
      notReadyMinDelayMs = or_else (wo_notReadyMinDelayMs c) 500,
      notReadyJitterMs = or_else (wo_notReadyJitterMs c) 250,
      queueTelemetryIntervalMs = or_else (wo_queueTelemetryIntervalMs c) 15000,
      heapWarnMb = or_else (wo_heapWarnMb c) 1024,
      deliveryClaimTtlMs = or_else (wo_deliveryClaimTtlMs c) (max 120000 (wo_requestTimeoutMs c * 2 + 30000)),
      deliveryCompletedTtlMs = or_else (wo_deliveryCompletedTtlMs c) (24 * 60 * 60 * 1000),
      capabilityGate = wo_capabilityGate c,
      fedifyRuntimeIntegrationEnabled = wo_fedifyRuntimeIntegrationEnabled c,
      worker_domain = wo_domain c, test_env = (env ''NODE_ENV'' = Some ''test'')\<rparr>"

definition worker_adapter :: "worker_config \<Rightarrow> 's services \<Rightarrow> 's adapter" where
  "worker_adapter C S =
     (if fedifyRuntimeIntegrationEnabled C then sv_adapter S else NoopFederationRuntimeAdapter)"

definition setConcurrency :: "int \<Rightarrow> worker_config \<Rightarrow> worker_config" where
  "setConcurrency n C = (if max 1 n = concurrency C then C else C\<lparr>concurrency := max 1 n\<rparr>)"

definition setMaxConcurrentPerDomain :: "int \<Rightarrow> worker_config \<Rightarrow> worker_config" where
  "setMaxConcurrentPerDomain n C =
     (if max 1 n = maxConcurrentPerDomain C then C else C\<lparr>maxConcurrentPerDomain := max 1 n\<rparr>)"

definition parsePositiveIntEnv :: "(string \<Rightarrow> string option) \<Rightarrow> string \<Rightarrow> int \<Rightarrow> int" where
  "parsePositiveIntEnv env name fallback =
     (case env name of
        None \<Rightarrow> fallback
      | Some raw \<Rightarrow> if raw = [] then fallback
                    else (case parse_int raw of Num p \<Rightarrow> if p > 0 then p else fallback | _ \<Rightarrow> fallback))"

definition parseNonNegativeIntEnv :: "(string \<Rightarrow> string option) \<Rightarrow> string \<Rightarrow> int \<Rightarrow> int" where
  "parseNonNegativeIntEnv env name fallback =
     (case env name of
        None \<Rightarrow> fallback
      | Some raw \<Rightarrow> if raw = [] then fallback
                    else (case parse_int raw of Num p \<Rightarrow> if p \<ge> 0 then p else fallback | _ \<Rightarrow> fallback))"

definition createOutboundWorker :: "(string \<Rightarrow> string option) \<Rightarrow> (worker_options \<Rightarrow> worker_options) \<Rightarrow> worker_config" where
  "createOutboundWorker env overrides =
     worker_constructor env (overrides
       \<lparr>wo_concurrency = parsePositiveIntEnv env ''OUTBOUND_CONCURRENCY'' 64,
        wo_maxConcurrentPerDomain = parsePositiveIntEnv env ''MAX_CONCURRENT_PER_DOMAIN'' 10,
        wo_requestTimeoutMs = parsePositiveIntEnv env ''REQUEST_TIMEOUT_MS'' 30000,
        wo_userAgent = (case env ''USER_AGENT'' of None \<Rightarrow> ''Fedify-Sidecar/1.0 (ActivityPods)''
                        | Some u \<Rightarrow> if u = [] then ''Fedify-Sidecar/1.0 (ActivityPods)'' else u),
        wo_notReadyMaxRequeues = Some (parsePositiveIntEnv env ''OUTBOUND_NOT_READY_MAX_REQUEUES'' 32),
        wo_notReadyMinDelayMs = Some (parsePositiveIntEnv env ''OUTBOUND_NOT_READY_MIN_DELAY_MS'' 500),
        wo_notReadyJitterMs = Some (parseNonNegativeIntEnv env ''OUTBOUND_NOT_READY_JITTER_MS'' 250),
        wo_queueTelemetryIntervalMs = Some (parsePositiveIntEnv env ''OUTBOUND_TELEMETRY_INTERVAL_MS'' 15000),
        wo_heapWarnMb = Some (parsePositiveIntEnv env ''OUTBOUND_HEAP_WARN_MB'' 1024),
        wo_deliveryClaimTtlMs = Some (parsePositiveIntEnv env ''OUTBOUND_DELIVERY_CLAIM_TTL_MS'' 120000),
        wo_deliveryCompletedTtlMs = Some (parsePositiveIntEnv env ''OUTBOUND_DELIVERY_COMPLETED_TTL_MS'' 86400000),
        wo_capabilityGate = None,
        wo_fedifyRuntimeIntegrationEnabled = (env ''ENABLE_FEDIFY_RUNTIME_INTEGRATION'' = Some ''true''),
        wo_domain = env ''DOMAIN''\<rparr>)"

section \<open>Calls\<close>

datatype delivery_event =
    EvTime int
  | EvClaim "claim_result option"
  | EvBlocked "bool option"
  | EvRate "bool option"
  | EvSlot "bool option"
  | EvPost bool
  | EvAdapter bool
  | EvComplete bool
  | EvRelease bool
  | EvDlq OutboundJob string bool
  | EvEnqueue OutboundJob bool
  | EvAck bool
  | EvSlotRelease bool

record 's world =
  srv :: 's
  trace :: "delivery_event list"
  activeJobs :: int
  claimHeld :: bool

fun answered :: "js_error + 'a \<Rightarrow> 'a option" where
  "answered (Inl _) = None"
| "answered (Inr a) = Some a"

fun succeeded :: "js_error + 'a \<Rightarrow> bool" where
  "succeeded (Inl _) = False"
| "succeeded (Inr _) = True"

text \<open>A call that leaves an event in the trace, and one that does not.\<close>

definition called :: "(js_error + 'a \<Rightarrow> delivery_event) \<Rightarrow> ('s, js_error, 'a) eio \<Rightarrow> ('s world, js_error, 'a) eio" where
  "called ev m w = (case m (srv w) of (r, s) \<Rightarrow> (r, w\<lparr>srv := s, trace := ev r # trace w\<rparr>))"

definition silent :: "('s, js_error, 'a) eio \<Rightarrow> ('s world, js_error, 'a) eio" where
  "silent m w = (case m (srv w) of (r, s) \<Rightarrow> (r, w\<lparr>srv := s\<rparr>))"

definition total_io :: "('s \<Rightarrow> 'a \<times> 's) \<Rightarrow> ('s, js_error, 'a) eio" where
  "total_io f s = (case f s of (a, s') \<Rightarrow> (Inr a, s'))"

definition set_held :: "bool \<Rightarrow> ('s world, js_error, unit) eio" where
  "set_held b w = (Inr (), w\<lparr>claimHeld := b\<rparr>)"

definition add_active :: "int \<Rightarrow> ('s world, js_error, unit) eio" where
  "add_active d w = (Inr (), w\<lparr>activeJobs := activeJobs w + d\<rparr>)"

definition clock :: "'s services \<Rightarrow> ('s world, js_error, int) eio" where
  "clock S = called (\<lambda>r. EvTime (case r of Inl _ \<Rightarrow> 0 | Inr t \<Rightarrow> t)) (total_io (sv_now S))"

definition do_claim where
  "do_claim S C j token = called (\<lambda>r. EvClaim (answered r)) (sv_claim S (jobId j) token (deliveryClaimTtlMs C))"

definition do_complete where
  "do_complete S C j token = called (\<lambda>r. EvComplete (succeeded r)) (sv_complete S (jobId j) token (deliveryCompletedTtlMs C))"

definition do_release where
  "do_release S j token = called (\<lambda>r. EvRelease (succeeded r)) (sv_release S (jobId j) token)"

definition do_dlq :: "'s services \<Rightarrow> OutboundJob \<Rightarrow> string \<Rightarrow> ('s world, js_error, unit) eio" where
  "do_dlq S j reason = called (\<lambda>r. EvDlq j reason (succeeded r)) (sv_moveToDlq S j reason)"

definition do_enqueue :: "'s services \<Rightarrow> OutboundJob \<Rightarrow> ('s world, js_error, unit) eio" where
  "do_enqueue S j = called (\<lambda>r. EvEnqueue j (succeeded r)) (sv_enqueueOutbound S j)"

definition do_ack :: "'s services \<Rightarrow> string \<Rightarrow> ('s world, js_error, unit) eio" where
  "do_ack S messageId = called (\<lambda>r. EvAck (succeeded r)) (sv_ack S messageId)"

definition release_and_forget where
  "release_and_forget S j token = io_then (do_release S j token) (set_held False)"

section \<open>Residence\<close>

text \<open>\<open>job.meta?.apdmFirstQueuedAtMs\<close> when it is a number.\<close>

definition stamped :: "OutboundJob \<Rightarrow> int option" where
  "stamped j =
     (case meta j of
        None \<Rightarrow> None
      | Some m \<Rightarrow> (case json_get ''apdmFirstQueuedAtMs'' m of Some (JNum t) \<Rightarrow> Some t | _ \<Rightarrow> None))"

definition queueResidenceMs :: "worker_config \<Rightarrow> string \<Rightarrow> OutboundJob \<Rightarrow> int \<Rightarrow> int option" where
  "queueResidenceMs C messageId j nowMs =
     (case stamped j of
        Some t \<Rightarrow> outboxIntentAgeMs (Num t) nowMs
      | None \<Rightarrow> if test_env C \<and> is_test_message_id messageId then Some 0 else None)"

definition postResidenceMs :: "worker_config \<Rightarrow> OutboundJob \<Rightarrow> int \<Rightarrow> int option" where
  "postResidenceMs C j nowMs =
     (case stamped j of
        Some t \<Rightarrow> outboxIntentAgeMs (Num t) nowMs
      | None \<Rightarrow>
          (let absent = (case meta j of None \<Rightarrow> True
                         | Some m \<Rightarrow> json_get ''apdmFirstQueuedAtMs'' m \<in> {None, Some JNull})
           in if test_env C \<and> absent then Some 0 else None))"

definition residence_reason :: "string \<Rightarrow> int option \<Rightarrow> string" where
  "residence_reason suffix r =
     (case r of
        None \<Rightarrow> ''Outbound message is missing a valid preserved first-enqueue timestamp'' @ suffix
      | Some _ \<Rightarrow> expired_reason @ suffix)"

definition assertExternalPostAllowed :: "'s services \<Rightarrow> worker_config \<Rightarrow> OutboundJob \<Rightarrow> ('s world, js_error, unit) eio" where
  "assertExternalPostAllowed S C j =
     io_bind (clock S) (\<lambda>nowMs.
       let residenceMs = postResidenceMs C j nowMs
       in if residence_expired residenceMs
          then io_throw (ResidenceExpired (residence_reason '' at external POST boundary'' residenceMs))
          else io_return ())"

text \<open>The same check for a runtime adapter, which works below the trace.\<close>

definition adapter_guard :: "'s services \<Rightarrow> worker_config \<Rightarrow> OutboundJob \<Rightarrow> ('s, js_error, unit) eio" where
  "adapter_guard S C j =
     io_bind (total_io (sv_now S)) (\<lambda>nowMs.
       let residenceMs = postResidenceMs C j nowMs
       in if residence_expired residenceMs
          then io_throw (ResidenceExpired (residence_reason '' at external POST boundary'' residenceMs))
          else io_return ())"

section \<open>Delivery\<close>

definition worker_net :: "'s services \<Rightarrow> ('s world, http_request, http_response) net" where
  "worker_net S =
     \<lparr>net_parse = net_parse (sv_net S), net_env = net_env (sv_net S),
      net_lookup = (\<lambda>h. silent (net_lookup (sv_net S) h)),
      net_now = silent (net_now (sv_net S)),
      net_cache = (\<lambda>w. net_cache (sv_net S) (srv w)),
      net_set_cache = (\<lambda>c w. w\<lparr>srv := net_set_cache (sv_net S) c (srv w)\<rparr>),
      net_request = (\<lambda>u d q. called (\<lambda>r. EvPost (succeeded r)) (net_request (sv_net S) u d q))\<rparr>"

definition sign_for_adapter ::
  "'s services \<Rightarrow> string \<Rightarrow> string \<Rightarrow> string \<Rightarrow> string \<Rightarrow> ('s, js_error, (string \<times> string \<times> bool) + sign_headers) eio" where
  "sign_for_adapter S actor method targetUrl body =
     io_bind (sv_signOne S actor method targetUrl body) (\<lambda>r.
       io_return (case r of
         Signed h \<Rightarrow> Inr h
       | SignError code message retryable \<Rightarrow> Inl (code, message, \<not> retryable)))"

definition failure :: "string \<Rightarrow> bool \<Rightarrow> delivery_result" where
  "failure e permanent =
     \<lparr>dr_success = False, dr_statusCode = None, dr_error = Some e, dr_responseBody = None,
      dr_retryAfterMs = None, dr_permanent = permanent\<rparr>"

definition status_permanent :: "int \<Rightarrow> bool" where
  "status_permanent statusCode \<longleftrightarrow> statusCode \<ge> 400 \<and> statusCode < 500 \<and> statusCode \<noteq> 408 \<and> statusCode \<noteq> 429"

definition status_result :: "int \<Rightarrow> string option \<Rightarrow> int option \<Rightarrow> delivery_result" where
  "status_result statusCode responseBody retryAfterMs =
     (if statusCode \<ge> 200 \<and> statusCode < 300 then
        \<lparr>dr_success = True, dr_statusCode = Some statusCode, dr_error = None, dr_responseBody = None,
         dr_retryAfterMs = None, dr_permanent = False\<rparr>
      else if status_permanent statusCode then
        \<lparr>dr_success = False, dr_statusCode = Some statusCode, dr_error = Some (''HTTP '' @ show_int statusCode),
         dr_responseBody = responseBody, dr_retryAfterMs = None, dr_permanent = True\<rparr>
      else
        \<lparr>dr_success = False, dr_statusCode = Some statusCode, dr_error = Some (''HTTP '' @ show_int statusCode),
         dr_responseBody = responseBody, dr_retryAfterMs = retryAfterMs, dr_permanent = False\<rparr>)"

fun retry_after_header :: "header_value option \<Rightarrow> string option" where
  "retry_after_header None = None"
| "retry_after_header (Some (HeaderText t)) = Some t"
| "retry_after_header (Some (HeaderList [])) = None"
| "retry_after_header (Some (HeaderList (t # ts))) = Some t"

definition sync_header :: "'s services \<Rightarrow> worker_config \<Rightarrow> OutboundJob \<Rightarrow> ('s world, js_error, string option) eio" where
  "sync_header S C j =
     (case (sv_buildSenderHeader S, worker_domain C) of
        (Some build, Some domain) \<Rightarrow>
          if domain \<noteq> [] \<and> isFollowersAddressedActivity (activity j) (actorUri j)
          then (case extractActorIdentifier (net_parse (sv_net S)) (actorUri j) domain of
                  Some i \<Rightarrow> io_catch (silent (build i (without_slash (actorUri j) @ ''/followers'') (targetInbox j)))
                              (\<lambda>_. io_return None)
                | None \<Rightarrow> io_return None)
          else io_return None
      | _ \<Rightarrow> io_return None)"

definition post_headers :: "worker_config \<Rightarrow> string \<Rightarrow> sign_headers \<Rightarrow> string option \<Rightarrow> (string \<times> string) list" where
  "post_headers C host h sync =
     [(''content-type'', ''application/activity+json''),
      (''accept'', ''application/activity+json, application/ld+json''),
      (''user-agent'', userAgent C), (''date'', sh_date h), (''signature'', sh_signature h), (''host'', host)]
     @ (case sh_digest h of Some d \<Rightarrow> if d = [] then [] else [(''digest'', d)] | None \<Rightarrow> [])
     @ (case sync of Some v \<Rightarrow> if v = [] then [] else [(''collection-synchronization'', v)] | None \<Rightarrow> [])"

definition deliver_signed :: "'s services \<Rightarrow> worker_config \<Rightarrow> OutboundJob \<Rightarrow> sign_headers \<Rightarrow> ('s world, js_error, delivery_result) eio" where
  "deliver_signed S C j h =
     io_bind (sync_header S C j) (\<lambda>sync.
     io_then (assertExternalPostAllowed S C j) (
     io_bind (secureActivityPubRequest (worker_net S) (targetInbox j)
                \<lparr>rq_headers = post_headers C (case net_parse (sv_net S) (targetInbox j) of None \<Rightarrow> [] | Some u \<Rightarrow> u_host u) h sync,
                 rq_body = activity j, rq_timeout = requestTimeoutMs C\<rparr>
                (assertExternalPostAllowed S C j)) (\<lambda>response.
     io_bind (silent (total_io (sv_now S))) (\<lambda>nowMs.
       let retryAfterMs = parseRetryAfterMs (sv_date_parse S) (retry_after_header (rs_retry_after response)) nowMs
       in case readBoundedResponseBody (rs_body response) MAX_RESPONSE_BODY_READ_BYTES of
            Inl e \<Rightarrow> io_throw e
          | Inr (text, _) \<Rightarrow>
              io_return (status_result (rs_status response) (sanitizeResponseBodySnippet text) retryAfterMs)))))"

definition delivery_failure :: "js_error \<Rightarrow> ('s world, js_error, delivery_result) eio" where
  "delivery_failure err =
     (case err of
        ResidenceExpired m \<Rightarrow> io_throw (ResidenceExpired m)
      | _ \<Rightarrow> (let unsafeTarget = isUnsafeActivityPubTargetError err
              in io_return (failure ((if unsafeTarget then ''Unsafe target'' else ''Network error'') @ '': ''
                                     @ sanitizeErrorText (error_message err)) unsafeTarget)))"

definition deliver :: "'s services \<Rightarrow> worker_config \<Rightarrow> OutboundJob \<Rightarrow> ('s world, js_error, delivery_result) eio" where
  "deliver S C j =
     (if \<not> isSafeTargetInboxUrl (net_parse (sv_net S)) (targetInbox j)
      then io_return (failure (''Unsafe target inbox URL rejected: '' @ targetInbox j) True)
      else case (ad_enabled (worker_adapter C S), ad_deliverOutbound (worker_adapter C S)) of
        (True, Some deliverOutbound) \<Rightarrow>
          called (\<lambda>r. EvAdapter (succeeded r)) (deliverOutbound j (adapter_guard S C j) (sign_for_adapter S))
      | _ \<Rightarrow>
          io_bind (silent (sv_signOne S (actorUri j) ''POST'' (targetInbox j) (activity j))) (\<lambda>signResult.
            case signResult of
              SignError code message retryable \<Rightarrow>
                io_return (failure (''Signing failed: '' @ code @ '' - '' @ message) (\<not> retryable))
            | Signed h \<Rightarrow> io_catch (deliver_signed S C j h) delivery_failure))"

definition callAdapter :: "'s services \<Rightarrow> worker_config \<Rightarrow> hook \<Rightarrow> OutboundJob \<Rightarrow> ('s world, js_error, unit) eio" where
  "callAdapter S C h j =
     (if \<not> ad_enabled (worker_adapter C S) then io_return ()
      else case ad_hook (worker_adapter C S) of
        None \<Rightarrow> io_return ()
      | Some fn \<Rightarrow> io_catch (silent (fn h j)) (\<lambda>_. io_return ()))"

section \<open>Processing\<close>

definition deferOrParkJob :: "'s services \<Rightarrow> worker_config \<Rightarrow> OutboundJob \<Rightarrow> string \<Rightarrow> int \<Rightarrow> ('s world, js_error, unit) eio" where
  "deferOrParkJob S C j reason baseDelayMs =
     (let nextDeferCount = js_add (or_else (deferCount j) (Num 0)) 1
      in if js_lt (Num (notReadyMaxRequeues C)) nextDeferCount
         then do_dlq S (j\<lparr>deferCount := Some nextDeferCount,
                          lastError := Some (''Deferred too many times ('' @ reason @ '')'')\<rparr>)
                (''Deferred requeue limit exceeded: '' @ reason)
         else io_bind (if notReadyJitterMs C > 0 then silent (total_io (sv_random_below S (notReadyJitterMs C))) else io_return 0) (\<lambda>jitterMs.
              io_bind (clock S) (\<lambda>nowMs.
                do_enqueue S (j\<lparr>deferCount := Some nextDeferCount,
                                notBeforeMs := Num (nowMs + (max baseDelayMs (notReadyMinDelayMs C) + jitterMs)),
                                lastError := Some (''Deferred ('' @ reason @ '')'')\<rparr>))))"

definition dlq_and_ack :: "'s services \<Rightarrow> OutboundJob \<Rightarrow> string \<Rightarrow> string \<Rightarrow> ('s world, js_error, unit) eio" where
  "dlq_and_ack S j reason messageId = io_then (do_dlq S j reason) (do_ack S messageId)"

text \<open>After a successful delivery.\<close>

definition delivered :: "'s services \<Rightarrow> worker_config \<Rightarrow> string \<Rightarrow> OutboundJob \<Rightarrow> string \<Rightarrow> delivery_result \<Rightarrow> ('s world, js_error, unit) eio" where
  "delivered S C messageId j token result =
     io_bind (io_catch (io_then (do_complete S C j token) (io_then (set_held False) (io_return True)))
                       (\<lambda>_. io_return False)) (\<lambda>recorded.
       if \<not> recorded then io_return ()
       else io_then (do_ack S messageId) (callAdapter S C (OnOutboundDelivered (dr_statusCode result)) j))"

definition permanent_failure :: "'s services \<Rightarrow> worker_config \<Rightarrow> string \<Rightarrow> OutboundJob \<Rightarrow> string \<Rightarrow> delivery_result \<Rightarrow> ('s world, js_error, unit) eio" where
  "permanent_failure S C messageId j token result =
     (let text = (case dr_error result of Some e \<Rightarrow> if e = [] then ''Permanent failure'' else e | None \<Rightarrow> ''Permanent failure'')
      in io_then (release_and_forget S j token)
        (io_then (dlq_and_ack S j text messageId)
           (callAdapter S C (OnOutboundPermanentFailure (dr_statusCode result) text (dr_responseBody result) (js_add (attempt j) 1)) j)))"

definition transient_failure :: "'s services \<Rightarrow> worker_config \<Rightarrow> string \<Rightarrow> OutboundJob \<Rightarrow> string \<Rightarrow> delivery_result \<Rightarrow> ('s world, js_error, unit) eio" where
  "transient_failure S C messageId j token result =
     io_then (release_and_forget S j token)
       (let nextAttempt = js_add (attempt j) 1
        in if js_le (maxAttempts j) nextAttempt
           then io_then (dlq_and_ack S (j\<lparr>lastError := dr_error result\<rparr>) ''Max attempts exceeded'' messageId)
                  (callAdapter S C (OnOutboundPermanentFailure (dr_statusCode result)
                     (case dr_error result of Some e \<Rightarrow> if e = [] then ''Max attempts exceeded'' else e | None \<Rightarrow> ''Max attempts exceeded'')
                     (dr_responseBody result) nextAttempt) j)
           else let delay = (case dr_retryAfterMs result of
                               Some ms \<Rightarrow> max (backoffMs nextAttempt) ms | None \<Rightarrow> backoffMs nextAttempt)
                in io_bind (clock S) (\<lambda>nowMs.
                   io_then (do_enqueue S (j\<lparr>attempt := nextAttempt, notBeforeMs := Num (nowMs + delay),
                                           lastError := dr_error result\<rparr>))
                           (do_ack S messageId)))"

text \<open>With the claim and the slot held.\<close>

definition attempt_delivery :: "'s services \<Rightarrow> worker_config \<Rightarrow> string \<Rightarrow> OutboundJob \<Rightarrow> string \<Rightarrow> ('s world, js_error, unit) eio" where
  "attempt_delivery S C messageId j token =
     io_bind (clock S) (\<lambda>nowMs.
       let finalQueueResidenceMs = queueResidenceMs C messageId j nowMs;
           reason = residence_reason '' immediately before delivery'' finalQueueResidenceMs
       in if residence_expired finalQueueResidenceMs
          then io_then (release_and_forget S j token) (dlq_and_ack S (j\<lparr>lastError := Some reason\<rparr>) reason messageId)
          else io_bind (deliver S C j) (\<lambda>result.
            if dr_success result then delivered S C messageId j token result
            else if dr_permanent result then permanent_failure S C messageId j token result
            else transient_failure S C messageId j token result))"

text \<open>With the claim held.\<close>

definition claimed_job :: "'s services \<Rightarrow> worker_config \<Rightarrow> string \<Rightarrow> OutboundJob \<Rightarrow> string \<Rightarrow> ('s world, js_error, unit) eio" where
  "claimed_job S C messageId j token =
     io_bind (called (\<lambda>r. EvBlocked (answered r)) (sv_isDomainBlocked S (targetDomain j))) (\<lambda>blocked.
     if blocked then
       io_then (release_and_forget S j token) (dlq_and_ack S j ''Domain blocked'' messageId)
     else io_bind (called (\<lambda>r. EvRate (answered r)) (sv_checkDomainRateLimit S (targetDomain j))) (\<lambda>within.
     if \<not> within then
       io_then (release_and_forget S j token)
         (io_then (deferOrParkJob S C j ''domain_rate_limited'' 5000) (do_ack S messageId))
     else io_bind (called (\<lambda>r. EvSlot (answered r)) (sv_acquireDomainSlot S (targetDomain j) (maxConcurrentPerDomain C))) (\<lambda>slot.
     if \<not> slot then
       io_then (release_and_forget S j token)
         (io_then (deferOrParkJob S C j ''domain_concurrency_limit'' 1000) (do_ack S messageId))
     else io_finally (attempt_delivery S C messageId j token)
            (called (\<lambda>r. EvSlotRelease (succeeded r)) (sv_releaseDomainSlot S (targetDomain j))))))"

text \<open>
  \<open>job.notBeforeMs > 0 && Date.now() < job.notBeforeMs\<close>: whether to go on, after a short wait, or to
  leave the entry pending.
\<close>

definition wait_until_due :: "'s services \<Rightarrow> OutboundJob \<Rightarrow> ('s world, js_error, bool) eio" where
  "wait_until_due S j =
     (if \<not> js_lt (Num 0) (notBeforeMs j) then io_return True
      else io_bind (clock S) (\<lambda>now1.
        if \<not> js_lt (Num now1) (notBeforeMs j) then io_return True
        else io_bind (clock S) (\<lambda>now2.
          case notBeforeMs j of
            Num t \<Rightarrow>
              (let remainingDelayMs = max 0 (t - now2)
               in if remainingDelayMs > MAX_INLINE_NOT_BEFORE_WAIT_MS then io_return False
                  else io_then (silent (\<lambda>s. (Inr (), sv_sleep S remainingDelayMs s))) (io_return True))
          | _ \<Rightarrow> io_return False)))"

definition claim_and_deliver :: "'s services \<Rightarrow> worker_config \<Rightarrow> string \<Rightarrow> OutboundJob \<Rightarrow> string \<Rightarrow> ('s world, js_error, unit) eio" where
  "claim_and_deliver S C messageId j token =
     io_bind (do_claim S C j token) (\<lambda>claimState.
       case claimState of
         Completed \<Rightarrow> do_ack S messageId
       | InFlight \<Rightarrow> io_then (deferOrParkJob S C j ''delivery_claim_in_flight'' (deliveryClaimTtlMs C)) (do_ack S messageId)
       | Claimed \<Rightarrow> io_then (set_held True) (claimed_job S C messageId j token))"

definition gate_reason :: "gate_result \<Rightarrow> string" where
  "gate_reason g =
     (let code = (case g_reasonCode g of Some r \<Rightarrow> if r = [] then ''feature_disabled'' else r | None \<Rightarrow> ''feature_disabled'')
      in case g_message g of Some m \<Rightarrow> if m = [] then ''Capability denied: '' @ code else m | None \<Rightarrow> ''Capability denied: '' @ code)"

definition job_body :: "'s services \<Rightarrow> worker_config \<Rightarrow> string \<Rightarrow> OutboundJob \<Rightarrow> int \<Rightarrow> string \<Rightarrow> ('s world, js_error, unit) eio" where
  "job_body S C messageId j deliveryStartedAt token =
     (let residenceMs = queueResidenceMs C messageId j deliveryStartedAt; reason = residence_reason [] residenceMs
      in if residence_expired residenceMs
         then dlq_and_ack S (j\<lparr>lastError := Some reason\<rparr>) reason messageId
         else case (case capabilityGate C of None \<Rightarrow> None | Some gate \<Rightarrow> Some (gate ''ap.federation.egress'')) of
           Some g \<Rightarrow>
             (if \<not> g_allowed g then dlq_and_ack S j (gate_reason g) messageId
              else io_bind (wait_until_due S j) (\<lambda>go.
                if go then claim_and_deliver S C messageId j token else io_return ()))
         | None \<Rightarrow> io_bind (wait_until_due S j) (\<lambda>go.
             if go then claim_and_deliver S C messageId j token else io_return ()))"

definition release_if_held :: "'s services \<Rightarrow> OutboundJob \<Rightarrow> string \<Rightarrow> ('s world, js_error, unit) eio" where
  "release_if_held S j token w =
     (if claimHeld w
      then io_then (io_catch (do_release S j token) (\<lambda>_. io_return ())) (set_held False) w
      else io_return () w)"

definition job_failed :: "'s services \<Rightarrow> string \<Rightarrow> OutboundJob \<Rightarrow> string \<Rightarrow> js_error \<Rightarrow> ('s world, js_error, unit) eio" where
  "job_failed S messageId j token err =
     (let sanitized = sanitizeErrorText (error_message err)
      in io_then (release_if_held S j token)
           (dlq_and_ack S (j\<lparr>lastError := Some sanitized\<rparr>) (''Worker processing error: '' @ sanitized) messageId))"

definition processJob :: "'s services \<Rightarrow> worker_config \<Rightarrow> string \<Rightarrow> OutboundJob \<Rightarrow> ('s world, js_error, unit) eio" where
  "processJob S C messageId j =
     io_then (add_active 1)
       (io_bind (clock S) (\<lambda>deliveryStartedAt.
        io_bind (silent (total_io (sv_uuid S))) (\<lambda>token.
        io_then (set_held False)
          (io_finally
             (io_catch (job_body S C messageId j deliveryStartedAt token) (job_failed S messageId j token))
             (add_active (- 1))))))"

end
