(* ===== verification/Worker_Text.thy ===== *)
theory Worker_Text
  imports Outbound_Worker
begin

text \<open>
  What may reach the logs and the dead-letter queue: error texts are redacted and bounded, response
  bodies and \<open>Retry-After\<close> headers of remote servers are bounded.
\<close>

section \<open>Redaction\<close>

definition bearer_at :: "string \<Rightarrow> bool" where
  "bearer_at s \<longleftrightarrow> bearer_rest s \<noteq> None"

lemma bearer_at_iff:
  "bearer_at s \<longleftrightarrow> js_lower (take 6 s) = ''bearer'' \<and> drop 6 s \<noteq> [] \<and> js_space (hd (drop 6 s)) \<and>
    dropWhile js_space (drop 6 s) \<noteq> [] \<and> token_char (hd (dropWhile js_space (drop 6 s)))"
  by (simp add: bearer_at_def bearer_rest_def Let_def)

lemma js_lower_Cons [simp]: "js_lower (c # s) = lower_char c # js_lower s"
  by (simp add: js_lower_def)

lemma js_lower_Nil [simp]: "js_lower [] = []"
  by (simp add: js_lower_def)

lemma js_lower_append: "js_lower (s @ t) = js_lower s @ js_lower t"
  by (simp add: js_lower_def)

lemma length_js_lower [simp]: "length (js_lower s) = length s"
  by (simp add: js_lower_def)

lemma bearer_at_hd: "bearer_at (c # s) \<Longrightarrow> lower_char c = CHR ''b''"
  by (simp add: bearer_at_iff)

lemma bearer_at_Nil [simp]: "\<not> bearer_at []"
  by (simp add: bearer_at_iff)

lemma bearer_at_append:
  assumes "bearer_at s"
  shows "bearer_at (s @ u)"
proof -
  have d: "drop 6 s \<noteq> []" and k: "js_lower (take 6 s) = ''bearer''" "js_space (hd (drop 6 s))"
    and t: "dropWhile js_space (drop 6 s) \<noteq> []" "token_char (hd (dropWhile js_space (drop 6 s)))"
    using assms by (auto simp: bearer_at_iff)
  then have l: "6 < length s" by simp
  have "\<exists>x \<in> set (drop 6 s). \<not> js_space x" using t(1) by (auto simp: dropWhile_eq_Nil_conv)
  then have "dropWhile js_space (drop 6 s @ u) = dropWhile js_space (drop 6 s) @ u" by (auto intro: dropWhile_append1)
  with d k t l show ?thesis by (simp add: bearer_at_iff)
qed

definition b_char :: "char \<Rightarrow> bool" where
  "b_char c \<longleftrightarrow> lower_char c = CHR ''b''"

lemma redact_plain: "\<forall>c \<in> set u. \<not> b_char c \<Longrightarrow> redact_bearer (u @ v) = u @ redact_bearer v"
proof (induction u)
  case (Cons c u)
  then have "\<not> bearer_at (c # u @ v)" using bearer_at_hd [of c "u @ v"] by (auto simp: b_char_def)
  then have "bearer_rest (c # u @ v) = None" unfolding bearer_at_def by blast
  with Cons show ?case by (simp add: redact_bearer.simps [of "c # u @ v"])
qed simp

lemma redact_Nil [simp]: "redact_bearer [] = []"
  by (simp add: redact_bearer.simps)

lemma b_char_B: "b_char (CHR ''B'')"
  unfolding b_char_def by code_simp

lemma redact_b: "b_char c \<Longrightarrow> \<exists>d ds. redact_bearer (c # v) = d # ds \<and> b_char d"
  using b_char_B by (auto simp: redact_bearer.simps [of "c # v"] split: option.split)

lemma b_char_token:
  assumes "b_char c"
  shows "token_char c" and "\<not> js_space c"
proof -
  have "of_char (lower_char c) = (98 :: nat)" using assms by (simp add: b_char_def)
  then have "of_char c = (66 :: nat) \<or> of_char c = (98 :: nat)"
    by (auto simp: lower_char_def Let_def split: if_splits)
  then show "token_char c" "\<not> js_space c" by (auto simp: token_char_def js_space_def Let_def)
qed

lemma redact_reflects:
  assumes "bearer_at (c # redact_bearer cs)"
  shows "bearer_at (c # cs)"
proof -
  define u v where uv: "u = takeWhile (\<lambda>x. \<not> b_char x) cs" "v = dropWhile (\<lambda>x. \<not> b_char x) cs"
  have cs: "cs = u @ v" by (simp add: uv)
  have "\<forall>x \<in> set u. \<not> b_char x" using set_takeWhileD uv(1) by metis
  then have r: "redact_bearer cs = u @ redact_bearer v" by (simp add: cs redact_plain)
  have vb: "v = [] \<or> (\<exists>d ds e es. v = d # ds \<and> redact_bearer v = e # es \<and> b_char d \<and> b_char e)"
  proof (cases v)
    case (Cons d ds)
    have "b_char d" using hd_dropWhile [of "\<lambda>x. \<not> b_char x" cs] Cons unfolding uv(2) [symmetric] by simp
    with Cons redact_b show ?thesis by blast
  qed simp
  have six: "js_lower (take 5 (u @ redact_bearer v)) = ''earer''" and rest: "drop 5 (u @ redact_bearer v) \<noteq> []"
    "js_space (hd (drop 5 (u @ redact_bearer v)))"
    using assms by (auto simp: bearer_at_iff r)
  have len: "5 \<le> length u"
  proof (rule ccontr)
    assume "\<not> 5 \<le> length u"
    then have n: "length u < 5" by simp
    show False
      using vb
    proof
      assume "v = []"
      with rest(1) n show False by simp
    next
      assume "\<exists>d ds e es. v = d # ds \<and> redact_bearer v = e # es \<and> b_char d \<and> b_char e"
      then obtain e es where e: "redact_bearer v = e # es" "b_char e" by blast
      have "js_lower (take 5 (u @ redact_bearer v)) ! length u = lower_char e"
        using n by (simp add: js_lower_def e(1) nth_append)
      then have "''earer'' ! length u = CHR ''b''" using six e(2) by (simp add: b_char_def)
      moreover have "length u = 0 \<or> length u = 1 \<or> length u = 2 \<or> length u = 3 \<or> length u = 4"
        using n by linarith
      ultimately show False by auto
    qed
  qed
  have sp: "drop 5 u \<noteq> []"
  proof
    assume "drop 5 u = []"
    with len have d: "drop 5 (u @ redact_bearer v) = redact_bearer v" by simp
    with rest vb b_char_token(2) show False by auto
  qed
  have t5: "take 5 (u @ v) = take 5 (u @ redact_bearer v)" using len by simp
  have ds: "dropWhile js_space (drop 5 u @ x) =
      (if \<forall>y \<in> set (drop 5 u). js_space y then dropWhile js_space x else dropWhile js_space (drop 5 u) @ x)" for x
    by (auto simp: dropWhile_append)
  have "token_char (hd (dropWhile js_space (drop 5 (u @ v)))) \<and> dropWhile js_space (drop 5 (u @ v)) \<noteq> []"
  proof (cases "\<forall>y \<in> set (drop 5 u). js_space y")
    case True
    have "dropWhile js_space (drop 5 (u @ redact_bearer v)) \<noteq> []" using assms by (auto simp: bearer_at_iff r)
    with True len have "redact_bearer v \<noteq> []" by (auto simp: ds)
    then have "v \<noteq> []" by auto
    with vb obtain d dss where "v = d # dss" "b_char d" by blast
    with True len b_char_token show ?thesis by (simp add: ds)
  next
    case False
    then have ne: "dropWhile js_space (drop 5 u) \<noteq> []" by (auto simp: dropWhile_eq_Nil_conv)
    have "dropWhile js_space (drop 5 (u @ x)) = dropWhile js_space (drop 5 u) @ x" for x
      using ds [of x] False len by simp
    with ne assms show ?thesis by (simp add: bearer_at_iff r)
  qed
  moreover have "hd (drop 5 (u @ v)) = hd (drop 5 (u @ redact_bearer v))" "drop 5 (u @ v) \<noteq> []" using sp len by auto
  ultimately show ?thesis using assms rest six t5 by (auto simp: bearer_at_iff r cs)
qed

definition bearer_free :: "string \<Rightarrow> bool" where
  "bearer_free s \<longleftrightarrow> (\<forall>p t. s = p @ t \<longrightarrow> \<not> bearer_at t)"

lemma bearer_free_Cons: "bearer_free (c # s) \<longleftrightarrow> \<not> bearer_at (c # s) \<and> bearer_free s"
  by (auto simp: bearer_free_def Cons_eq_append_conv)

lemma not_bearer_at_const: "\<not> bearer_at (''Bearer [redacted]'' @ x)"
  by (simp add: bearer_at_iff js_space_def token_char_def)

lemma bearer_free_const: "bearer_free x \<Longrightarrow> bearer_free (''Bearer [redacted]'' @ x)"
  using not_bearer_at_const [of x] by (simp add: bearer_free_Cons) (auto dest!: bearer_at_hd simp: lower_char_def)

lemma redact_bearer_free: "bearer_free (redact_bearer s)"
proof (induction s rule: redact_bearer.induct)
  case (1 s)
  show ?case
  proof (cases s)
    case Nil
    then show ?thesis by (simp add: bearer_free_def)
  next
    case (Cons c cs)
    show ?thesis
    proof (cases "bearer_rest s")
      case None
      then have "\<not> bearer_at (c # cs)" using Cons by (simp add: bearer_at_def)
      then have "\<not> bearer_at (c # redact_bearer cs)" using redact_reflects by blast
      moreover have "bearer_free (redact_bearer cs)" using 1(1) [OF Cons None] .
      moreover have "redact_bearer s = c # redact_bearer cs"
        using None unfolding Cons by (simp add: redact_bearer.simps [of "c # cs"])
      ultimately show ?thesis by (simp add: bearer_free_Cons)
    next
      case (Some r)
      have "redact_bearer s = ''Bearer [redacted]'' @ redact_bearer r"
        using Some unfolding Cons by (subst redact_bearer.simps) (simp only: list.case option.case)
      then show ?thesis using bearer_free_const [OF 1(2) [OF Cons Some]] by simp
    qed
  qed
qed

lemma bearer_free_take: "bearer_free s \<Longrightarrow> bearer_free (take n s)"
  unfolding bearer_free_def
proof (intro allI impI notI)
  fix p t
  assume s: "\<forall>p t. s = p @ t \<longrightarrow> \<not> bearer_at t" and t: "take n s = p @ t" "bearer_at t"
  have "s = p @ (t @ drop n s)" using t(1) by (metis append_assoc append_take_drop_id)
  with s bearer_at_append [OF t(2)] show False by blast
qed

text \<open>No error text that goes to a log or to the dead-letter queue contains a bearer token (in no place of
  it does \<open>Bearer\<close> stand before a token, in any case, with any white space), and none is longer than 512.\<close>
theorem sanitized_text_bearer_free:
  "bearer_free (sanitizeErrorText t) \<and> length (sanitizeErrorText t) \<le> 512"
  by (simp add: sanitizeErrorText_def MAX_ERROR_TEXT_LENGTH_def bearer_free_take redact_bearer_free)

section \<open>Bounds on what a remote server sends\<close>

lemma read_chunks_prefix:
  "read_chunks n chunks err got = Inr (t, d) \<Longrightarrow> length got \<le> n \<Longrightarrow>
    t = take n (got @ concat chunks) \<and> (\<not> d \<longrightarrow> err = None)"
proof (induction n chunks err got rule: read_chunks.induct)
  case (1 n err got)
  then show ?case by (auto split: option.splits)
next
  case (2 n chunk chunks err got)
  consider "length got = n" | "length got < n" "length chunk > n - length got" | "length got < n" "length chunk \<le> n - length got"
    using 2(3) by linarith
  then show ?case
  proof cases
    case 1
    with 2 show ?thesis by auto
  next
    case 2
    with \<open>read_chunks n (chunk # chunks) err got = Inr (t, d)\<close> show ?thesis by auto
  next
    case 3
    have "t = take n ((got @ chunk) @ concat chunks) \<and> (\<not> d \<longrightarrow> err = None)"
      by (rule "2.IH" [OF refl]) (use 2(2) 3 in auto)
    then show ?thesis by simp
  qed
qed

text \<open>Whatever a remote server sends, what is read of its response body is the first \<open>maxBytes\<close> bytes of it,
  and the wait it asks for in \<open>Retry-After\<close> is used only between 0 and one hour.\<close>
theorem response_bounds:
  "(\<forall>chunks err t d. readBoundedResponseBody (Some (chunks, err)) n = Inr (t, d) \<longrightarrow>
      t = take n (concat chunks) \<and> (err \<noteq> None \<longrightarrow> d)) \<and>
   (\<forall>h ms. parseRetryAfterMs date_parse h now = Some ms \<longrightarrow> 0 \<le> ms \<and> ms \<le> 3600000)"
  using read_chunks_prefix [of n _ _ "[]"]
  by (auto simp: readBoundedResponseBody_def parseRetryAfterMs_def MAX_RETRY_AFTER_MS_def
        split: if_splits option.splits jsnum.splits)

end
