(* ===== verification/Delivery_Protocol.thy ===== *)
theory Delivery_Protocol
  imports Outbound_Worker
begin

text \<open>
  What the outbound worker promises about one job, as a state machine over the calls it makes: when it
  may claim, post, record, release, requeue, dead-letter and acknowledge.  \<open>Worker_Properties\<close> shows
  that every run of \<open>processJob\<close> follows it, whatever the services answer.
\<close>

section \<open>The state machine\<close>

datatype claim_phase = Unclaimed | Held | Given_up | Recorded | Unrecorded
datatype slot_phase = No_slot | Has_slot | Slot_back

record progress =
  now_read :: "int option"
  claim_of :: claim_phase
  slot_of :: slot_phase
  allowed :: bool
  posted :: bool
  durable :: bool
  acked :: bool

definition start :: progress where
  "start = \<lparr>now_read = None, claim_of = Unclaimed, slot_of = No_slot, allowed = False, posted = False,
            durable = False, acked = False\<rparr>"

text \<open>The same work, whatever its counters and its last error.\<close>

definition same_work :: "OutboundJob \<Rightarrow> OutboundJob \<Rightarrow> bool" where
  "same_work i j \<longleftrightarrow>
     jobId i = jobId j \<and> activityId i = activityId j \<and> actorUri i = actorUri j \<and> activity i = activity j \<and>
     targetInbox i = targetInbox j \<and> targetDomain i = targetDomain j \<and> maxAttempts i = maxAttempts j \<and> meta i = meta j"

text \<open>A retry after an attempt, and a deferral that does not use one up, both due later than \<open>now\<close>.\<close>

definition retry_of :: "OutboundJob \<Rightarrow> int \<Rightarrow> OutboundJob \<Rightarrow> bool" where
  "retry_of j now i \<longleftrightarrow>
     same_work i j \<and> attempt i = js_add (attempt j) 1 \<and> \<not> js_le (maxAttempts j) (attempt i) \<and>
     deferCount i = deferCount j \<and> (\<exists>d. notBeforeMs i = Num (now + d) \<and> backoffMs (attempt i) \<le> d)"

definition deferral_of :: "worker_config \<Rightarrow> OutboundJob \<Rightarrow> int \<Rightarrow> OutboundJob \<Rightarrow> bool" where
  "deferral_of C j now i \<longleftrightarrow>
     same_work i j \<and> attempt i = attempt j \<and>
     deferCount i = Some (js_add (or_else (deferCount j) (Num 0)) 1) \<and>
     \<not> js_lt (Num (notReadyMaxRequeues C)) (js_add (or_else (deferCount j) (Num 0)) 1) \<and>
     (\<exists>d. notBeforeMs i = Num (now + d))"

inductive delivery_step :: "worker_config \<Rightarrow> OutboundJob \<Rightarrow> progress \<Rightarrow> delivery_event \<Rightarrow> progress \<Rightarrow> bool"
  for C j where
  time: "delivery_step C j s (EvTime t) (s\<lparr>now_read := Some t\<rparr>)"
| claimed: "claim_of s = Unclaimed \<Longrightarrow> \<not> durable s \<Longrightarrow>
    delivery_step C j s (EvClaim (Some Claimed)) (s\<lparr>claim_of := Held\<rparr>)"
| completed: "claim_of s = Unclaimed \<Longrightarrow> delivery_step C j s (EvClaim (Some Completed)) (s\<lparr>durable := True\<rparr>)"
| in_flight: "claim_of s = Unclaimed \<Longrightarrow> delivery_step C j s (EvClaim (Some InFlight)) s"
| claim_failed: "claim_of s = Unclaimed \<Longrightarrow> delivery_step C j s (EvClaim None) s"
| not_blocked: "claim_of s = Held \<Longrightarrow> delivery_step C j s (EvBlocked (Some False)) (s\<lparr>allowed := True\<rparr>)"
| blocked: "claim_of s = Held \<Longrightarrow> b \<noteq> Some False \<Longrightarrow> delivery_step C j s (EvBlocked b) s"
| rate: "claim_of s = Held \<Longrightarrow> delivery_step C j s (EvRate b) s"
| slot: "claim_of s = Held \<Longrightarrow> slot_of s = No_slot \<Longrightarrow>
    delivery_step C j s (EvSlot (Some True)) (s\<lparr>slot_of := Has_slot\<rparr>)"
| no_slot: "claim_of s = Held \<Longrightarrow> b \<noteq> Some True \<Longrightarrow> delivery_step C j s (EvSlot b) s"
| post: "claim_of s = Held \<Longrightarrow> slot_of s = Has_slot \<Longrightarrow> allowed s \<Longrightarrow> \<not> posted s \<Longrightarrow>
    now_read s = Some t \<Longrightarrow> \<not> residence_expired (postResidenceMs C j t) \<Longrightarrow>
    delivery_step C j s (EvPost ok) (s\<lparr>posted := True\<rparr>)"
| adapter: "claim_of s = Held \<Longrightarrow> slot_of s = Has_slot \<Longrightarrow> allowed s \<Longrightarrow> \<not> posted s \<Longrightarrow>
    delivery_step C j s (EvAdapter ok) (s\<lparr>posted := True\<rparr>)"
| recorded: "claim_of s = Held \<Longrightarrow> posted s \<Longrightarrow>
    delivery_step C j s (EvComplete True) (s\<lparr>claim_of := Recorded, durable := True\<rparr>)"
| unrecorded: "claim_of s = Held \<Longrightarrow> posted s \<Longrightarrow> delivery_step C j s (EvComplete False) (s\<lparr>claim_of := Unrecorded\<rparr>)"
| release: "claim_of s \<in> {Held, Given_up, Unrecorded} \<Longrightarrow> delivery_step C j s (EvRelease ok) (s\<lparr>claim_of := Given_up\<rparr>)"
| slot_back: "slot_of s = Has_slot \<Longrightarrow> delivery_step C j s (EvSlotRelease ok) (s\<lparr>slot_of := Slot_back\<rparr>)"
| dead_letter: "claim_of s \<notin> {Held, Unrecorded} \<Longrightarrow> same_work i j \<Longrightarrow> attempt i = attempt j \<Longrightarrow>
    delivery_step C j s (EvDlq i reason ok) (s\<lparr>durable := durable s \<or> ok\<rparr>)"
| requeue: "claim_of s \<in> {Unclaimed, Given_up} \<Longrightarrow> \<not> durable s \<Longrightarrow> now_read s = Some t \<Longrightarrow>
    retry_of j t i \<or> deferral_of C j t i \<Longrightarrow>
    delivery_step C j s (EvEnqueue i ok) (s\<lparr>durable := durable s \<or> ok\<rparr>)"
| ack: "durable s \<Longrightarrow> delivery_step C j s (EvAck ok) (s\<lparr>acked := True\<rparr>)"

inductive_simps delivery_step_simps [simp]:
  "delivery_step C j s (EvTime t) s'"
  "delivery_step C j s (EvClaim r) s'"
  "delivery_step C j s (EvBlocked r) s'"
  "delivery_step C j s (EvRate r) s'"
  "delivery_step C j s (EvSlot r) s'"
  "delivery_step C j s (EvPost ok) s'"
  "delivery_step C j s (EvAdapter ok) s'"
  "delivery_step C j s (EvComplete ok) s'"
  "delivery_step C j s (EvRelease ok) s'"
  "delivery_step C j s (EvSlotRelease ok) s'"
  "delivery_step C j s (EvDlq i reason ok) s'"
  "delivery_step C j s (EvEnqueue i ok) s'"
  "delivery_step C j s (EvAck ok) s'"

text \<open>The states a trace (newest event first) can lead to.\<close>

inductive follows :: "worker_config \<Rightarrow> OutboundJob \<Rightarrow> delivery_event list \<Rightarrow> progress \<Rightarrow> bool"
  for C j where
  nothing: "follows C j [] start"
| event: "follows C j es s \<Longrightarrow> delivery_step C j s e s' \<Longrightarrow> follows C j (e # es) s'"

inductive_cases follows_ConsE: "follows C j (e # es) v"
inductive_cases follows_NilE: "follows C j [] v"

end
