(* ===== verification/Worker_Sample.thy ===== *)
theory Worker_Sample
  imports Outbound_Worker
begin

text \<open>
  A small deployment on which the worker can be run: every service answers, the remote server answers
  with a given status, and the slot can be given a store that fails when the slot is released.
\<close>

definition sample_inbox_url :: url where
  "sample_inbox_url = \<lparr>u_protocol = ''https:'', u_username = [], u_password = [], u_hash = [],
     u_hostname = ''b.example'', u_host = ''b.example'', u_origin = ''https://b.example'', u_pathname = ''/inbox'', u_search = []\<rparr>"

definition sample_services_at ::
  "('s \<Rightarrow> dispatcher_cache) \<Rightarrow> (dispatcher_cache \<Rightarrow> 's \<Rightarrow> 's) \<Rightarrow> int \<Rightarrow> bool \<Rightarrow> 's services" where
  "sample_services_at cache set_cache status broken =
     \<lparr>sv_now = (\<lambda>s. (1000, s)), sv_uuid = (\<lambda>s. (''t'', s)), sv_random_below = (\<lambda>n s. (0, s)), sv_sleep = (\<lambda>t s. s),
      sv_claim = (\<lambda>i t n. io_return Claimed), sv_complete = (\<lambda>i t n. io_return ()), sv_release = (\<lambda>i t. io_return ()),
      sv_isDomainBlocked = (\<lambda>d. io_return False), sv_checkDomainRateLimit = (\<lambda>d. io_return True),
      sv_acquireDomainSlot = (\<lambda>d n. io_return True),
      sv_releaseDomainSlot = (\<lambda>d. if broken then io_throw (OtherError ''down'') else io_return ()),
      sv_moveToDlq = (\<lambda>j r. io_return ()), sv_enqueueOutbound = (\<lambda>j. io_return ()), sv_ack = (\<lambda>m. io_return ()),
      sv_signOne = (\<lambda>a m u b. io_return (Signed \<lparr>sh_date = ''d'', sh_digest = Some ''g'', sh_signature = ''s''\<rparr>)),
      sv_buildSenderHeader = None,
      sv_net = \<lparr>net_parse = (\<lambda>_. Some sample_inbox_url), net_env = (\<lambda>_. None),
        net_lookup = (\<lambda>h. io_return [(''93.184.216.34'', 4)]), net_now = io_return 1000,
        net_cache = cache, net_set_cache = set_cache,
        net_request = (\<lambda>u d q. io_return \<lparr>rs_status = status, rs_retry_after = None, rs_body = None\<rparr>)\<rparr>,
      sv_date_parse = (\<lambda>_. None), sv_adapter = NoopFederationRuntimeAdapter\<rparr>"

definition sample_services :: "int \<Rightarrow> bool \<Rightarrow> dispatcher_cache services" where
  "sample_services = sample_services_at (\<lambda>w. w) (\<lambda>c w. c)"

definition outbound_config :: worker_config where
  "outbound_config =
     \<lparr>concurrency = 64, maxConcurrentPerDomain = 10, requestTimeoutMs = 30000, userAgent = ''Fedify-Sidecar/1.0 (ActivityPods)'',
      notReadyMaxRequeues = 32, notReadyMinDelayMs = 500, notReadyJitterMs = 250, queueTelemetryIntervalMs = 15000,
      heapWarnMb = 1024, deliveryClaimTtlMs = 120000, deliveryCompletedTtlMs = 86400000, capabilityGate = None,
      fedifyRuntimeIntegrationEnabled = False, worker_domain = None, test_env = False\<rparr>"

lemma outbound_config_default: "createOutboundWorker (\<lambda>_. None) (\<lambda>overrides. overrides) = outbound_config"
  by (simp add: createOutboundWorker_def outbound_config_def worker_constructor_def or_else_def
        parsePositiveIntEnv_def parseNonNegativeIntEnv_def)

definition outbound_sample :: OutboundJob where
  "outbound_sample = \<lparr>jobId = ''j1'', activityId = ''a1'', actorUri = ''https://a.example/users/u'', activity = ''{}'',
     targetInbox = ''https://b.example/inbox'', targetDomain = ''b.example'', attempt = Num 0, maxAttempts = Num 8,
     notBeforeMs = Num 0, deferCount = None, lastError = None,
     meta = Some (JObj [(''apdmFirstQueuedAtMs'', JNum 900)])\<rparr>"

definition sample_world :: "dispatcher_cache world" where
  "sample_world = \<lparr>srv = [], trace = [], activeJobs = 0, claimHeld = False\<rparr>"

definition sample_run :: "int \<Rightarrow> bool \<Rightarrow> (js_error + unit) \<times> dispatcher_cache world" where
  "sample_run status broken = processJob (sample_services status broken) outbound_config ''1-0'' outbound_sample sample_world"

fun is_time :: "delivery_event \<Rightarrow> bool" where
  "is_time (EvTime _) = True"
| "is_time _ = False"

definition acts :: "delivery_event list \<Rightarrow> delivery_event list" where
  "acts es = filter (\<lambda>e. \<not> is_time e) es"

definition retried_sample :: OutboundJob where
  "retried_sample = outbound_sample\<lparr>attempt := Num 1, notBeforeMs := Num (1000 + backoffMs (Num 1)), lastError := Some ''HTTP 503''\<rparr>"

lemma evaluated_202:
  "map_prod (\<lambda>r. r) trace (sample_run 202 False) = (Inr (),
    [EvSlotRelease True, EvAck True, EvComplete True, EvPost True, EvTime 1000, EvTime 1000, EvTime 1000,
     EvSlot (Some True), EvRate (Some True), EvBlocked (Some False), EvClaim (Some Claimed), EvTime 1000])"
  by code_simp

lemma evaluated_503:
  "map_prod (\<lambda>r. r) trace (sample_run 503 False) = (Inr (),
    [EvSlotRelease True, EvAck True, EvEnqueue retried_sample True, EvTime 1000, EvRelease True, EvPost True,
     EvTime 1000, EvTime 1000, EvTime 1000, EvSlot (Some True), EvRate (Some True), EvBlocked (Some False),
     EvClaim (Some Claimed), EvTime 1000])"
  by code_simp

lemmas run_202 = evaluated_202 [THEN arg_cong [of _ _ fst], unfolded fst_map_prod fst_conv]
  evaluated_202 [THEN arg_cong [of _ _ snd], unfolded snd_map_prod snd_conv]

lemmas run_503 = evaluated_503 [THEN arg_cong [of _ _ fst], unfolded fst_map_prod fst_conv]
  evaluated_503 [THEN arg_cong [of _ _ snd], unfolded snd_map_prod snd_conv]

end
