(* ===== verification/Worker_Properties.thy ===== *)
theory Worker_Properties
  imports Delivery_Protocol Worker_Sample
begin

text \<open>
  The outbound worker follows the protocol of \<open>Delivery_Protocol\<close>, and what this means for a job.
\<close>

section \<open>Following the protocol\<close>

text \<open>
  \<open>ok C j m Q E s h\<close>: from any world whose trace leads to \<open>s\<close> and whose \<open>claimHeld\<close> is \<open>h\<close>, the method
  follows the protocol, and ends in a state and a \<open>claimHeld\<close> that satisfy \<open>Q\<close> when it resolves and
  \<open>E\<close> when it rejects.  It leaves the number of active jobs as it is.
\<close>

named_theorems ok_rules \<open>following the protocol, construct by construct\<close>

definition reaches :: "worker_config \<Rightarrow> OutboundJob \<Rightarrow> int \<Rightarrow> (progress \<Rightarrow> bool \<Rightarrow> bool) \<Rightarrow> 's world \<Rightarrow> bool" where
  "reaches C j n P w \<longleftrightarrow> activeJobs w = n \<and> (\<exists>s. follows C j (trace w) s \<and> P s (claimHeld w))"

definition ok ::
  "worker_config \<Rightarrow> OutboundJob \<Rightarrow> ('s world, js_error, 'a) eio \<Rightarrow> ('a \<Rightarrow> progress \<Rightarrow> bool \<Rightarrow> bool) \<Rightarrow>
   (progress \<Rightarrow> bool \<Rightarrow> bool) \<Rightarrow> progress \<Rightarrow> bool \<Rightarrow> bool" where
  "ok C j m Q E s h \<longleftrightarrow>
     (\<forall>w. follows C j (trace w) s \<longrightarrow> claimHeld w = h \<longrightarrow>
        wp m (\<lambda>a. reaches C j (activeJobs w) (Q a)) (\<lambda>e. reaches C j (activeJobs w) E) w)"

lemma okD:
  "ok C j m Q E s h \<Longrightarrow> follows C j (trace w) s \<Longrightarrow> claimHeld w = h \<Longrightarrow> activeJobs w = n \<Longrightarrow>
    wp m (\<lambda>a. reaches C j n (Q a)) (\<lambda>e. reaches C j n E) w"
  by (auto simp: ok_def)

lemma okI:
  assumes "\<And>w. follows C j (trace w) s \<Longrightarrow> claimHeld w = h \<Longrightarrow>
    wp m (\<lambda>a. reaches C j (activeJobs w) (Q a)) (\<lambda>e. reaches C j (activeJobs w) E) w"
  shows "ok C j m Q E s h"
  using assms by (simp add: ok_def)

lemma reachesI: "activeJobs w = n \<Longrightarrow> follows C j (trace w) s \<Longrightarrow> P s (claimHeld w) \<Longrightarrow> reaches C j n P w"
  by (auto simp: reaches_def)

lemma ok_return [ok_rules]: "Q a s h \<Longrightarrow> ok C j (io_return a) Q E s h"
  by (rule okI) (auto simp: wp_return intro: reachesI)

lemma ok_throw [ok_rules]: "E s h \<Longrightarrow> ok C j (io_throw e) Q E s h"
  by (rule okI) (auto simp: wp_throw intro: reachesI)

lemma ok_mono:
  assumes "ok C j m Q E s h" and "\<And>a s h. Q a s h \<Longrightarrow> Q' a s h" and "\<And>s h. E s h \<Longrightarrow> E' s h"
  shows "ok C j m Q' E' s h"
  by (rule okI, rule wp_mono [OF okD [OF assms(1)]]) (use assms(2,3) in \<open>auto simp: reaches_def\<close>)

lemma ok_bind [ok_rules]:
  assumes "ok C j m (\<lambda>a. ok C j (f a) Q E) E s h"
  shows "ok C j (io_bind m f) Q E s h"
  by (rule okI, unfold wp_bind, rule wp_mono [OF okD [OF assms]]) (auto simp: reaches_def [of _ _ _ "ok C j _ _ _"] dest: okD)

lemma ok_then [ok_rules]: "ok C j m (\<lambda>_. ok C j n Q E) E s h \<Longrightarrow> ok C j (io_then m n) Q E s h"
  unfolding io_then_def by (rule ok_bind)

lemma ok_catch [ok_rules]:
  assumes "ok C j m Q (\<lambda>s h. \<forall>e. ok C j (f e) Q E s h) s h"
  shows "ok C j (io_catch m f) Q E s h"
  by (rule okI, unfold wp_catch, rule wp_mono [OF okD [OF assms]])
     (auto simp: reaches_def [of _ _ _ "\<lambda>s h. \<forall>e. ok C j (f e) Q E s h"] dest: okD)

lemma ok_finally [ok_rules]:
  assumes "ok C j m (\<lambda>a. ok C j f (\<lambda>_. Q a) E) (ok C j f (\<lambda>_. E) E) s h"
  shows "ok C j (io_finally m f) Q E s h"
  by (rule okI, unfold wp_finally, rule wp_mono [OF okD [OF assms]])
     (auto simp: reaches_def [of _ _ _ "ok C j _ _ _"] dest: okD)

lemma ok_if [ok_rules]: "(b \<Longrightarrow> ok C j m Q E s h) \<Longrightarrow> (\<not> b \<Longrightarrow> ok C j n Q E s h) \<Longrightarrow> ok C j (if b then m else n) Q E s h"
  by simp

lemma ok_called [ok_rules]:
  assumes "\<And>e. \<exists>s'. delivery_step C j s (ev (Inl e)) s' \<and> E s' h"
    and "\<And>a. \<exists>s'. delivery_step C j s (ev (Inr a)) s' \<and> Q a s' h"
  shows "ok C j (called ev m) Q E s h"
proof (rule okI)
  fix w :: "'b world"
  assume w: "follows C j (trace w) s" "claimHeld w = h"
  obtain r v where r: "m (srv w) = (r, v)" by (cases "m (srv w)")
  show "wp (called ev m) (\<lambda>a. reaches C j (activeJobs w) (Q a)) (\<lambda>e. reaches C j (activeJobs w) E) w"
  proof (cases r)
    case (Inl e)
    obtain s' where "delivery_step C j s (ev (Inl e)) s'" "E s' h" using assms(1) by blast
    with w r Inl show ?thesis by (auto simp: wp_def called_def reaches_def intro: follows.event)
  next
    case (Inr a)
    obtain s' where "delivery_step C j s (ev (Inr a)) s'" "Q a s' h" using assms(2) by blast
    with w r Inr show ?thesis by (auto simp: wp_def called_def reaches_def intro: follows.event)
  qed
qed

lemma ok_silent [ok_rules]: "E s h \<Longrightarrow> (\<And>a. Q a s h) \<Longrightarrow> ok C j (silent m) Q E s h"
  by (rule okI) (auto simp: wp_def silent_def reaches_def split: prod.splits sum.splits)

lemma ok_silent_total [ok_rules]: "(\<And>a. Q a s h) \<Longrightarrow> ok C j (silent (total_io f)) Q E s h"
  by (rule okI) (auto simp: wp_def silent_def total_io_def reaches_def split: prod.splits sum.splits)

lemma ok_clock [ok_rules]:
  assumes "\<And>t. Q t (s\<lparr>now_read := Some t\<rparr>) h"
  shows "ok C j (clock S) Q E s h"
proof (rule okI)
  fix w :: "'a world"
  assume w: "follows C j (trace w) s" "claimHeld w = h"
  have "follows C j (EvTime t # trace w) (s\<lparr>now_read := Some t\<rparr>)" for t
    by (rule follows.event [OF w(1)]) simp
  with assms w show "wp (clock S) (\<lambda>a. reaches C j (activeJobs w) (Q a)) (\<lambda>e. reaches C j (activeJobs w) E) w"
    by (cases "sv_now S (srv w)") (auto simp: wp_def clock_def called_def total_io_def reaches_def)
qed

lemma ok_set_held [ok_rules]: "Q () s b \<Longrightarrow> ok C j (set_held b) Q E s h"
  by (rule okI) (auto simp: wp_def set_held_def reaches_def)

lemma ok_release_if_held:
  assumes "\<not> h \<Longrightarrow> Q () s False"
    and "h \<Longrightarrow> claim_of s \<in> {Held, Given_up, Unrecorded} \<and> Q () (s\<lparr>claim_of := Given_up\<rparr>) False"
  shows "ok C j (release_if_held S j token) Q E s h"
proof (cases h)
  case True
  have "ok C j (io_then (io_catch (do_release S j token) (\<lambda>_. io_return ())) (set_held False)) Q E s h"
    unfolding do_release_def
    by (rule ok_then ok_catch ok_called)+ (use True assms(2) in \<open>auto intro!: ok_return ok_set_held\<close>)
  with True show ?thesis unfolding ok_def by (auto simp: release_if_held_def wp_def)
next
  case False
  with assms(1) show ?thesis
    by (intro okI) (auto simp: release_if_held_def wp_def io_return_def reaches_def)
qed

section \<open>The phases of a job\<close>

text \<open>What \<open>claimHeld\<close> knows of the claim, and where a phase may end, with the slot \<open>p\<close>.\<close>

definition held_ok :: "progress \<Rightarrow> bool \<Rightarrow> bool" where
  "held_ok s h \<longleftrightarrow> (claim_of s \<in> {Held, Unrecorded} \<longrightarrow> h) \<and> (h \<longrightarrow> claim_of s \<in> {Held, Given_up, Unrecorded})"

definition finished :: "slot_phase set \<Rightarrow> progress \<Rightarrow> bool \<Rightarrow> bool" where
  "finished p s h \<longleftrightarrow> held_ok s h \<and> claim_of s \<noteq> Held \<and> slot_of s \<in> p \<and> (acked s \<longleftrightarrow> durable s)"

definition broken :: "slot_phase set \<Rightarrow> progress \<Rightarrow> bool \<Rightarrow> bool" where
  "broken p s h \<longleftrightarrow> held_ok s h \<and> slot_of s \<in> p"

definition working :: "slot_phase \<Rightarrow> progress \<Rightarrow> bool \<Rightarrow> bool" where
  "working p s h \<longleftrightarrow> h \<and> claim_of s = Held \<and> slot_of s = p \<and> \<not> durable s \<and> \<not> acked s"

lemmas phase_defs = held_ok_def finished_def broken_def working_def

lemma same_work_updates [simp]:
  "same_work j j"
  "same_work (j\<lparr>lastError := e\<rparr>) j"
  "same_work (j\<lparr>deferCount := d, lastError := e\<rparr>) j"
  "same_work (j\<lparr>deferCount := d, notBeforeMs := n, lastError := e\<rparr>) j"
  "same_work (j\<lparr>notBeforeMs := n, deferCount := d, lastError := e\<rparr>) j"
  "same_work (j\<lparr>attempt := a, notBeforeMs := n, lastError := e\<rparr>) j"
  by (simp_all add: same_work_def)

text \<open>The claim has been given up, or was never taken, and nothing has been decided yet.\<close>

definition undecided :: "slot_phase \<Rightarrow> progress \<Rightarrow> bool \<Rightarrow> bool" where
  "undecided p s h \<longleftrightarrow> \<not> h \<and> claim_of s \<in> {Unclaimed, Given_up} \<and> slot_of s = p \<and> \<not> durable s \<and> \<not> acked s"

lemma ok_release_and_forget:
  assumes "working p s h" and "\<And>s h. undecided p s h \<Longrightarrow> ok C j n Q (broken {p}) s h"
  shows "ok C j (io_then (release_and_forget S j token) n) Q (broken {p}) s h"
proof -
  from assms(1) have u: "undecided p (s\<lparr>claim_of := Given_up\<rparr>) False" "broken {p} (s\<lparr>claim_of := Given_up\<rparr>) h"
    and s: "claim_of s = Held"
    by (auto simp: phase_defs undecided_def)
  have "ok C j (do_release S j token) (\<lambda>_. ok C j (set_held False) (\<lambda>_. ok C j n Q (broken {p})) (broken {p})) (broken {p}) s h"
    unfolding do_release_def
    by (rule ok_called; rule exI [of _ "s\<lparr>claim_of := Given_up\<rparr>"]; simp add: s u ok_set_held assms(2))
  then show ?thesis unfolding release_and_forget_def by (intro ok_then)
qed

lemma ok_dlq_and_ack:
  assumes "undecided p s h" and "same_work i j" and "attempt i = attempt j"
  shows "ok C j (dlq_and_ack S i reason messageId) (\<lambda>_. finished {p}) (broken {p}) s h"
  unfolding dlq_and_ack_def do_dlq_def do_ack_def
  using assms by (auto intro!: ok_then ok_called simp: phase_defs undecided_def)

lemma ok_defer:
  assumes "undecided p s h"
  shows "ok C j (io_then (deferOrParkJob S C j reason base) (do_ack S messageId)) (\<lambda>_. finished {p}) (broken {p}) s h"
  unfolding deferOrParkJob_def do_dlq_def do_ack_def do_enqueue_def Let_def
  using assms
  by (auto intro!: ok_then ok_bind ok_if ok_called ok_silent_total ok_return ok_clock
      simp: phase_defs undecided_def deferral_of_def)

lemma ok_callAdapter:
  assumes "P s h"
  shows "ok C j (callAdapter S C hk i) (\<lambda>_. P) E s h"
  unfolding callAdapter_def using assms
  by (auto intro!: ok_if ok_return ok_catch ok_silent split: option.split)

section \<open>Delivering\<close>

text \<open>Ready to post, and after the attempt.\<close>

definition ready :: "progress \<Rightarrow> bool \<Rightarrow> bool" where
  "ready s h \<longleftrightarrow> working Has_slot s h \<and> allowed s \<and> \<not> posted s"

lemma ready_stable [simp]: "ready (s\<lparr>now_read := t\<rparr>) h = ready s h"
  by (simp add: ready_def working_def)

lemma working_stable [simp]: "working p (s\<lparr>now_read := t\<rparr>) h = working p s h"
  "working p (s\<lparr>posted := b\<rparr>) h = working p s h"
  by (simp_all add: working_def)

lemma ready_working: "ready s h \<Longrightarrow> working Has_slot s h"
  by (simp add: ready_def)

lemma ok_validate:
  assumes "P s h"
  shows "ok C j (validateActivityPubTarget parse (defaultLookup (worker_net S)) options v) (\<lambda>_. P) P s h"
  unfolding validateActivityPubTarget_def defaultLookup_def worker_net_def Let_def
  using assms
  by (auto intro!: ok_if ok_throw ok_bind ok_return ok_silent split: option.split sum.split)

lemma ok_pinned:
  assumes "P s h"
  shows "ok C j (pinned_dispatcher (worker_net S) t) (\<lambda>_. P) P s h"
proof (rule okI)
  fix w :: "'a world"
  assume "follows C j (trace w) s" "claimHeld w = h"
  with assms show "wp (pinned_dispatcher (worker_net S) t) (\<lambda>a. reaches C j (activeJobs w) P) (\<lambda>e. reaches C j (activeJobs w) P) w"
    by (auto simp: pinned_dispatcher_def wp_def io_bind_def worker_net_def silent_def reaches_def split: prod.splits sum.splits)
qed

lemma ok_assert:
  assumes "ready s h"
    and "\<And>t. \<not> residence_expired (postResidenceMs C j t) \<Longrightarrow> Q () (s\<lparr>now_read := Some t\<rparr>) h"
  shows "ok C j (assertExternalPostAllowed S C j) Q ready s h"
  unfolding assertExternalPostAllowed_def Let_def
  using assms by (auto intro!: ok_bind ok_clock ok_if ok_throw ok_return)

lemma ok_request:
  assumes "ready s h"
  shows "ok C j (secureActivityPubRequest (worker_net S) v q (assertExternalPostAllowed S C j))
    (\<lambda>_ s h. working Has_slot s h \<and> posted s) (working Has_slot) s h"
proof -
  have post: "ok C j (net_request (worker_net S) u d q) (\<lambda>_ s h. working Has_slot s h \<and> posted s) (working Has_slot) (s\<lparr>now_read := Some t\<rparr>) h"
    if "ready s h" "\<not> residence_expired (postResidenceMs C j t)" for u d s h t
    unfolding worker_net_def using that
    by (auto intro!: ok_called simp: ready_def working_def)
  have check: "ok C j (io_then (assertExternalPostAllowed S C j) (net_request (worker_net S) u d q))
      (\<lambda>_ s h. working Has_slot s h \<and> posted s) (working Has_slot) s h" if "ready s h" for u d s h
  proof (rule ok_then, rule ok_mono)
    show "ok C j (assertExternalPostAllowed S C j)
      (\<lambda>_. ok C j (net_request (worker_net S) u d q) (\<lambda>_ s h. working Has_slot s h \<and> posted s) (working Has_slot)) ready s h"
      by (rule ok_assert [OF that]) (rule post [OF that])
  qed (auto intro: ready_working)
  have r: "ready s h \<Longrightarrow> ok C j (pinned_dispatcher (worker_net S) t)
      (\<lambda>d. ok C j (io_then (assertExternalPostAllowed S C j) (net_request (worker_net S) (t_url t) d q))
        (\<lambda>_ s h. working Has_slot s h \<and> posted s) (working Has_slot)) (working Has_slot) s h" for s h t
    by (rule ok_mono [OF ok_pinned [of ready]]) (auto intro: check ready_working)
  show ?thesis
    unfolding secureActivityPubRequest_def
    by (rule ok_bind, rule ok_mono [OF ok_validate [of ready, OF assms]]) (auto intro!: ok_bind r ready_working)
qed

lemma status_result_facts: "dr_success (status_result c b r) \<Longrightarrow> 200 \<le> c \<and> c < 300"
  by (simp add: status_result_def split: if_splits)

lemma ok_sync_header:
  assumes "P s h"
  shows "ok C j (sync_header S C j) (\<lambda>_. P) E s h"
  unfolding sync_header_def using assms
  by (auto intro!: ok_if ok_return ok_catch ok_silent split: option.split)

lemma ok_deliver_signed:
  assumes "ready s h"
  shows "ok C j (deliver_signed S C j sh) (\<lambda>r s h. working Has_slot s h \<and> posted s) (working Has_slot) s h"
proof -
  have tail: "ok C j (case readBoundedResponseBody b n of Inl e \<Rightarrow> io_throw e | Inr (t, x) \<Rightarrow> io_return (f t))
      (\<lambda>r s h. working Has_slot s h \<and> posted s) (working Has_slot) s h"
    if "working Has_slot s h" "posted s" for b n f s h
    using that by (auto intro!: ok_throw ok_return split: sum.split prod.split)
  have "ok C j (assertExternalPostAllowed S C j) (\<lambda>_. ready) (working Has_slot) s h" if "ready s h" for s h
    by (rule ok_mono [OF ok_assert [OF that, where Q = "\<lambda>_. ready"]]) (use that in \<open>auto intro: ready_working\<close>)
  note assertion = this
  show ?thesis
    unfolding deliver_signed_def Let_def
    apply (rule ok_bind, rule ok_mono [OF ok_sync_header [of ready, OF assms]])
     apply (rule ok_then, rule ok_mono [OF assertion], assumption)
      apply (rule ok_bind, rule ok_mono [OF ok_request], assumption)
       apply (auto intro!: ok_bind ok_silent_total tail)
    done
qed

lemma failure_fails [simp]: "dr_success (failure e p) = False"
  by (simp add: failure_def)

lemma ok_deliver:
  assumes "ready s h"
  shows "ok C j (deliver S C j) (\<lambda>r s h. working Has_slot s h \<and> (dr_success r \<longrightarrow> posted s)) (broken {Has_slot}) s h"
proof -
  have wb: "working Has_slot s h \<Longrightarrow> broken {Has_slot} s h" for s h by (simp add: phase_defs)
  have fail: "ok C j (delivery_failure e) (\<lambda>r s h. working Has_slot s h \<and> (dr_success r \<longrightarrow> posted s)) (broken {Has_slot}) s h"
    if "working Has_slot s h" for e s h
    using that wb by (cases e) (auto intro!: ok_throw ok_return simp: delivery_failure_def Let_def)
  have signed: "ok C j (io_catch (deliver_signed S C j sh) delivery_failure)
      (\<lambda>r s h. working Has_slot s h \<and> (dr_success r \<longrightarrow> posted s)) (broken {Has_slot}) s h" for sh
    by (rule ok_catch, rule ok_mono [OF ok_deliver_signed [OF assms]]) (auto intro: fail)
  have adapter: "ok C j (called (\<lambda>r. EvAdapter (succeeded r)) m)
      (\<lambda>r s h. working Has_slot s h \<and> (dr_success r \<longrightarrow> posted s)) (broken {Has_slot}) s h" for m
    using assms by (auto intro!: ok_called simp: ready_def phase_defs)
  have sign: "ok C j (io_bind (silent m) (\<lambda>signResult.
            case signResult of
              SignError code message retryable \<Rightarrow>
                io_return (failure (f code message) (\<not> retryable))
            | Signed h \<Rightarrow> io_catch (deliver_signed S C j h) delivery_failure))
      (\<lambda>r s h. working Has_slot s h \<and> (dr_success r \<longrightarrow> posted s)) (broken {Has_slot}) s h" for m f
    using assms ready_working [OF assms]
    by (auto intro!: ok_bind ok_silent signed ok_return wb split: sign_result.split)
  show ?thesis
    unfolding deliver_def using ready_working [OF assms]
    by (auto intro!: ok_if ok_return adapter sign split: option.split bool.split)
qed

section \<open>From the claim to the end\<close>

lemma ok_delivered:
  assumes "working Has_slot s h" and "posted s"
  shows "ok C j (delivered S C messageId j token r) (\<lambda>_. finished {Has_slot}) (broken {Has_slot}) s h"
  unfolding delivered_def do_complete_def do_ack_def
  using assms
  by (auto intro!: ok_bind ok_catch ok_then ok_called ok_set_held ok_return ok_callAdapter simp: phase_defs)

lemma ok_permanent:
  assumes "working Has_slot s h"
  shows "ok C j (permanent_failure S C messageId j token r) (\<lambda>_. finished {Has_slot}) (broken {Has_slot}) s h"
  unfolding permanent_failure_def Let_def
  by (rule ok_release_and_forget [OF assms], rule ok_then, rule ok_mono [OF ok_dlq_and_ack])
     (auto intro: ok_callAdapter)

lemma ok_transient:
  assumes "working Has_slot s h"
  shows "ok C j (transient_failure S C messageId j token r) (\<lambda>_. finished {Has_slot}) (broken {Has_slot}) s h"
  unfolding transient_failure_def
proof (rule ok_release_and_forget [OF assms])
  fix s h
  assume u: "undecided Has_slot s h"
  have dead: "ok C j (io_then (dlq_and_ack S (j\<lparr>lastError := dr_error r\<rparr>) reason messageId) (callAdapter S C hk j))
      (\<lambda>_. finished {Has_slot}) (broken {Has_slot}) s h" for reason hk
    by (rule ok_then, rule ok_mono [OF ok_dlq_and_ack [OF u]]) (auto intro: ok_callAdapter)
  have again: "ok C j (io_bind (clock S) (\<lambda>nowMs.
                   io_then (do_enqueue S (j\<lparr>attempt := js_add (attempt j) 1, notBeforeMs := Num (nowMs + d),
                                           lastError := dr_error r\<rparr>))
                           (do_ack S messageId))) (\<lambda>_. finished {Has_slot}) (broken {Has_slot}) s h"
    if "\<not> js_le (maxAttempts j) (js_add (attempt j) 1)" "backoffMs (js_add (attempt j) 1) \<le> d" for d
    unfolding do_enqueue_def do_ack_def
    using u that by (auto intro!: ok_bind ok_clock ok_then ok_called simp: phase_defs undecided_def retry_of_def simp del: backoffMs.simps)
  show "ok C j (let nextAttempt = js_add (attempt j) 1
        in if js_le (maxAttempts j) nextAttempt
           then io_then (dlq_and_ack S (j\<lparr>lastError := dr_error r\<rparr>) ''Max attempts exceeded'' messageId)
                  (callAdapter S C (OnOutboundPermanentFailure (dr_statusCode r)
                     (case dr_error r of Some e \<Rightarrow> if e = [] then ''Max attempts exceeded'' else e | None \<Rightarrow> ''Max attempts exceeded'')
                     (dr_responseBody r) nextAttempt) j)
           else let delay = (case dr_retryAfterMs r of
                               Some ms \<Rightarrow> max (backoffMs nextAttempt) ms | None \<Rightarrow> backoffMs nextAttempt)
                in io_bind (clock S) (\<lambda>nowMs.
                   io_then (do_enqueue S (j\<lparr>attempt := nextAttempt, notBeforeMs := Num (nowMs + delay),
                                           lastError := dr_error r\<rparr>))
                           (do_ack S messageId)))
     (\<lambda>_. finished {Has_slot}) (broken {Has_slot}) s h"
    unfolding Let_def by (intro ok_if dead again) (auto split: option.split simp del: backoffMs.simps)
qed

lemma ok_attempt_delivery:
  assumes "ready s h"
  shows "ok C j (attempt_delivery S C messageId j token) (\<lambda>_. finished {Has_slot}) (broken {Has_slot}) s h"
proof -
  have expired: "ok C j (io_then (release_and_forget S j token) (dlq_and_ack S (j\<lparr>lastError := e\<rparr>) reason messageId))
      (\<lambda>_. finished {Has_slot}) (broken {Has_slot}) s h" if "ready s h" for e reason s h
    by (rule ok_release_and_forget [OF ready_working [OF that]]) (auto intro: ok_dlq_and_ack)
  have go: "ok C j (io_bind (deliver S C j) (\<lambda>result.
            if dr_success result then delivered S C messageId j token result
            else if dr_permanent result then permanent_failure S C messageId j token result
            else transient_failure S C messageId j token result))
      (\<lambda>_. finished {Has_slot}) (broken {Has_slot}) s h" if "ready s h" for s h
    by (rule ok_bind, rule ok_mono [OF ok_deliver [OF that]]) (auto intro!: ok_if ok_delivered ok_permanent ok_transient)
  show ?thesis
    unfolding attempt_delivery_def Let_def
    using assms by (auto intro!: ok_bind ok_clock ok_if expired go)
qed

lemma ok_slot_release:
  assumes "Q (s\<lparr>slot_of := Slot_back\<rparr>) h" and "E (s\<lparr>slot_of := Slot_back\<rparr>) h" and "slot_of s = Has_slot"
  shows "ok C j (called (\<lambda>r. EvSlotRelease (succeeded r)) m) (\<lambda>_. Q) E s h"
  using assms by (auto intro!: ok_called)

lemma ok_claimed_job:
  assumes "working No_slot s h" and "\<not> posted s"
  shows "ok C j (claimed_job S C messageId j token) (\<lambda>_. finished {No_slot, Slot_back}) (broken {No_slot, Slot_back}) s h"
proof -
  let ?F = "\<lambda>_::unit. finished {No_slot, Slot_back}" let ?B = "broken {No_slot, Slot_back}"
  have weaken: "ok C j m ?F ?B s h" if "ok C j m (\<lambda>_. finished {No_slot}) (broken {No_slot}) s h" for m :: "('a world, js_error, unit) eio" and s h
    by (rule ok_mono [OF that]) (auto simp: phase_defs)
  have refuse: "ok C j (io_then (release_and_forget S j token) n) ?F ?B s h"
    if "working No_slot s h" "\<And>s h. undecided No_slot s h \<Longrightarrow> ok C j n (\<lambda>_. finished {No_slot}) (broken {No_slot}) s h" for n s h
    by (rule weaken, rule ok_release_and_forget [OF that])
  have final: "ok C j (io_finally (attempt_delivery S C messageId j token)
            (called (\<lambda>r. EvSlotRelease (succeeded r)) m)) ?F ?B s h" if "ready s h" for m s h
    by (rule ok_finally, rule ok_mono [OF ok_attempt_delivery [OF that]])
       (auto intro!: ok_slot_release [where Q = "finished {No_slot, Slot_back}"] ok_slot_release [where Q = ?B] simp: phase_defs)
  show ?thesis
    unfolding claimed_job_def
    apply (rule ok_bind, rule ok_called)
    subgoal using assms by (auto simp: phase_defs)
    subgoal for b
      apply (cases b)
      subgoal
        apply (rule exI [of _ s])
        using assms by (auto simp: working_def intro!: ok_if refuse ok_dlq_and_ack)
      subgoal
        apply (rule exI [of _ "s\<lparr>allowed := True\<rparr>"])
        using assms
        by (auto simp: phase_defs undecided_def ready_def intro!: ok_if ok_bind ok_called refuse ok_defer final)
      done
    done
qed

text \<open>Before the claim, and at the end of the \<open>try\<close> block.\<close>

definition fresh :: "progress \<Rightarrow> bool \<Rightarrow> bool" where
  "fresh s h \<longleftrightarrow> undecided No_slot s h \<and> claim_of s = Unclaimed \<and> \<not> posted s"

lemma fresh_stable [simp]: "fresh (s\<lparr>now_read := t\<rparr>) h = fresh s h"
  by (simp add: fresh_def undecided_def)

definition done_ok :: "progress \<Rightarrow> bool \<Rightarrow> bool" where
  "done_ok = finished {No_slot, Slot_back}"

definition done_bad :: "progress \<Rightarrow> bool \<Rightarrow> bool" where
  "done_bad = broken {No_slot, Slot_back}"

lemma ok_finish:
  "ok C j m (\<lambda>_. finished {No_slot}) (broken {No_slot}) s h \<Longrightarrow> ok C j m (\<lambda>_. done_ok) done_bad s h"
  by (erule ok_mono) (auto simp: phase_defs done_ok_def done_bad_def)

lemma fresh_undecided: "fresh s h \<Longrightarrow> undecided No_slot s h"
  by (simp add: fresh_def)

lemma fresh_done: "fresh s h \<Longrightarrow> done_ok s h" "fresh s h \<Longrightarrow> done_bad s h"
  by (auto simp: fresh_def undecided_def done_ok_def done_bad_def phase_defs)

lemma ok_claim:
  assumes "fresh s h"
  shows "ok C j (claim_and_deliver S C messageId j token) (\<lambda>_. done_ok) done_bad s h"
proof -
  have acked: "ok C j (do_ack S messageId) (\<lambda>_. done_ok) done_bad (s\<lparr>durable := True\<rparr>) h"
    unfolding do_ack_def using assms
    by (auto intro!: ok_called simp: fresh_def undecided_def done_ok_def done_bad_def phase_defs)
  have work: "ok C j (io_then (set_held True) (claimed_job S C messageId j token)) (\<lambda>_. done_ok) done_bad (s\<lparr>claim_of := Held\<rparr>) h"
    unfolding done_ok_def done_bad_def using assms
    by (intro ok_then ok_set_held ok_claimed_job) (auto simp: fresh_def undecided_def phase_defs)
  have s: "claim_of s = Unclaimed" "\<not> durable s" using assms by (auto simp: fresh_def undecided_def)
  show ?thesis
    unfolding claim_and_deliver_def do_claim_def
  proof (rule ok_bind, rule ok_called)
    fix e :: js_error
    show "\<exists>s'. delivery_step C j s (EvClaim (answered (Inl e :: js_error + claim_result))) s' \<and> done_bad s' h"
      using s fresh_done(2) [OF assms] by auto
  next
    fix r
    show "\<exists>s'. delivery_step C j s (EvClaim (answered (Inr r))) s' \<and>
        ok C j (case r of Claimed \<Rightarrow> io_then (set_held True) (claimed_job S C messageId j token)
          | Completed \<Rightarrow> do_ack S messageId
          | InFlight \<Rightarrow> io_then (deferOrParkJob S C j ''delivery_claim_in_flight'' (deliveryClaimTtlMs C)) (do_ack S messageId))
          (\<lambda>_. done_ok) done_bad s' h"
      using s acked work ok_finish [OF ok_defer [OF fresh_undecided [OF assms]]] by (cases r) auto
  qed
qed

lemma ok_wait:
  assumes "fresh s h"
  shows "ok C j (wait_until_due S j) (\<lambda>_. fresh) fresh s h"
  unfolding wait_until_due_def Let_def using assms
  by (auto intro!: ok_if ok_bind ok_then ok_return ok_clock ok_silent split: jsnum.split)

lemma ok_job_body:
  assumes "fresh s h"
  shows "ok C j (job_body S C messageId j t0 token) (\<lambda>_. done_ok) done_bad s h"
proof -
  have dead: "same_work i j \<Longrightarrow> attempt i = attempt j \<Longrightarrow> ok C j (dlq_and_ack S i reason messageId) (\<lambda>_. done_ok) done_bad s h" for i reason
    by (rule ok_finish [OF ok_dlq_and_ack [OF fresh_undecided [OF assms]]])
  have go: "ok C j (io_bind (wait_until_due S j) (\<lambda>go.
             if go then claim_and_deliver S C messageId j token else io_return ())) (\<lambda>_. done_ok) done_bad s h"
    by (rule ok_bind, rule ok_mono [OF ok_wait [OF assms]])
       (auto intro!: ok_if ok_claim ok_return fresh_done)
  show ?thesis
    unfolding job_body_def Let_def
    by (auto intro!: ok_if dead go split: option.split)
qed

text \<open>The \<open>catch\<close> block gives a held claim up before it writes the dead letter.\<close>

lemma ok_job_failed:
  assumes "done_bad s h"
  shows "ok C j (job_failed S messageId j token e) (\<lambda>_. done_ok) (\<lambda>s h. done_bad s h \<and> claim_of s \<noteq> Held) s h"
proof -
  have dead: "ok C j (dlq_and_ack S (j\<lparr>lastError := le\<rparr>) reason messageId)
      (\<lambda>_. done_ok) (\<lambda>s h. done_bad s h \<and> claim_of s \<noteq> Held) s False"
    if "done_bad s False" for s reason le
    unfolding dlq_and_ack_def do_dlq_def do_ack_def using that
    by (auto intro!: ok_then ok_called simp: done_ok_def done_bad_def phase_defs)
  show ?thesis
    unfolding job_failed_def Let_def
  proof (rule ok_then, rule ok_release_if_held)
    assume "\<not> h"
    with assms have "done_bad s False" by simp
    then show "ok C j (dlq_and_ack S (j\<lparr>lastError := Some (sanitizeErrorText (error_message e))\<rparr>)
        (''Worker processing error: '' @ sanitizeErrorText (error_message e)) messageId)
      (\<lambda>_. done_ok) (\<lambda>s h. done_bad s h \<and> claim_of s \<noteq> Held) s False" by (rule dead)
  next
    assume h
    with assms have "claim_of s \<in> {Held, Given_up, Unrecorded}" "done_bad (s\<lparr>claim_of := Given_up\<rparr>) False"
      by (auto simp: done_bad_def phase_defs)
    with dead show "claim_of s \<in> {Held, Given_up, Unrecorded} \<and>
      ok C j (dlq_and_ack S (j\<lparr>lastError := Some (sanitizeErrorText (error_message e))\<rparr>)
        (''Worker processing error: '' @ sanitizeErrorText (error_message e)) messageId)
      (\<lambda>_. done_ok) (\<lambda>s h. done_bad s h \<and> claim_of s \<noteq> Held) (s\<lparr>claim_of := Given_up\<rparr>) False" by blast
  qed
qed

lemma ok_try:
  assumes "fresh s h"
  shows "ok C j (io_catch (job_body S C messageId j t0 token) (job_failed S messageId j token))
    (\<lambda>_. done_ok) (\<lambda>s h. done_bad s h \<and> claim_of s \<noteq> Held) s h"
  by (rule ok_catch, rule ok_mono [OF ok_job_body [OF assms]]) (auto intro: ok_job_failed)

lemma okD_reaches:
  assumes "reaches C j n P w" and "\<And>s h. P s h \<Longrightarrow> ok C j m Q E s h"
  shows "wp m (\<lambda>a. reaches C j n (Q a)) (\<lambda>_. reaches C j n E) w"
  using assms okD unfolding reaches_def by blast

lemma wp_add_active:
  assumes "reaches C j n P w"
  shows "wp (add_active d) (\<lambda>_. reaches C j (n + d) P) E w"
  using assms by (auto simp: wp_def add_active_def reaches_def)

lemma processJob_reaches:
  assumes "trace w = []"
  shows "wp (processJob S C messageId j)
    (\<lambda>_. reaches C j (activeJobs w) done_ok)
    (\<lambda>_. reaches C j (activeJobs w) (\<lambda>s h. done_bad s h \<and> claim_of s \<noteq> Held)) w"
proof -
  let ?n = "activeJobs w + 1"
  let ?E = "\<lambda>_. reaches C j (activeJobs w) (\<lambda>s h. done_bad s h \<and> claim_of s \<noteq> Held)"
  have "fresh start False" by (simp add: start_def fresh_def undecided_def)
  with assms have init: "reaches C j (activeJobs w) (\<lambda>s _. fresh s False) w"
    unfolding reaches_def using follows.nothing by fastforce
  have restore: "wp (add_active (- 1)) (\<lambda>_. reaches C j (activeJobs w) P) E w'" if "reaches C j ?n P w'" for P w' and E :: "js_error \<Rightarrow> 'a world \<Rightarrow> bool"
    using wp_add_active [OF that, of "- 1" E] by simp
  have body: "wp (io_finally (io_catch (job_body S C messageId j t token) (job_failed S messageId j token)) (add_active (- 1)))
      (\<lambda>_. reaches C j (activeJobs w) done_ok) ?E w'" if "reaches C j ?n fresh w'" for t token w'
    unfolding wp_finally by (rule wp_mono [OF okD_reaches [OF that ok_try]]) (auto intro: restore)
  have held: "wp (set_held False) (\<lambda>_. reaches C j ?n fresh) E w'"
    if "reaches C j ?n (\<lambda>s _. fresh s False) w'" for w' and E :: "js_error \<Rightarrow> 'a world \<Rightarrow> bool"
    using that by (auto simp: wp_def set_held_def reaches_def)
  have uuid: "wp (silent (total_io (sv_uuid S))) (\<lambda>_. reaches C j ?n (\<lambda>s _. fresh s False)) ?E w'"
    if "reaches C j ?n (\<lambda>s _. fresh s False) w'" for w'
    by (rule wp_mono [OF okD_reaches [OF that, where Q = "\<lambda>_ s _. fresh s False" and E = "\<lambda>_ _. False"]])
       (auto intro: ok_silent_total simp: reaches_def)
  have time: "wp (clock S) (\<lambda>_. reaches C j ?n (\<lambda>s _. fresh s False)) ?E w'"
    if "reaches C j ?n (\<lambda>s _. fresh s False) w'" for w'
    by (rule wp_mono [OF okD_reaches [OF that, where Q = "\<lambda>_ s _. fresh s False" and E = "\<lambda>_ _. False"]])
       (auto intro: ok_clock simp: reaches_def)
  show ?thesis
    unfolding processJob_def wp_then wp_bind
    by (rule wp_mono [OF wp_add_active [OF init]], rule wp_mono [OF time], assumption, rule wp_mono [OF uuid], assumption,
        rule wp_mono [OF held], assumption, erule body) auto
qed

section \<open>What a trace that follows the protocol looks like\<close>

definition durable_in :: "delivery_event list \<Rightarrow> bool" where
  "durable_in es \<longleftrightarrow>
     (\<exists>i r. EvDlq i r True \<in> set es) \<or> (\<exists>i. EvEnqueue i True \<in> set es) \<or> EvComplete True \<in> set es \<or>
     EvClaim (Some Completed) \<in> set es"

fun is_post :: "delivery_event \<Rightarrow> bool" where
  "is_post (EvPost _) = True"
| "is_post (EvAdapter _) = True"
| "is_post _ = False"

fun gives_up :: "delivery_event \<Rightarrow> bool" where
  "gives_up (EvRelease _) = True"
| "gives_up (EvComplete _) = True"
| "gives_up _ = False"

fun is_slot_release :: "delivery_event \<Rightarrow> bool" where
  "is_slot_release (EvSlotRelease _) = True"
| "is_slot_release _ = False"

definition slots_taken :: "delivery_event list \<Rightarrow> nat" where
  "slots_taken es = length (filter (\<lambda>e. e = EvSlot (Some True)) es)"

definition slots_returned :: "delivery_event list \<Rightarrow> nat" where
  "slots_returned es = length (filter is_slot_release es)"

lemma follows_Cons: "follows C j (e # ys) s \<Longrightarrow> \<exists>u v. follows C j ys u \<and> delivery_step C j u e v"
  by (erule follows_ConsE) (intro exI conjI)

lemma follows_split: "follows C j (xs @ e # ys) s \<Longrightarrow> \<exists>u v. follows C j ys u \<and> delivery_step C j u e v"
proof (induction xs arbitrary: s)
  case Nil
  then show ?case using follows_Cons [of C j e ys s] by simp
next
  case (Cons x xs)
  from Cons.prems have "\<exists>u. follows C j (xs @ e # ys) u" using follows_Cons by fastforce
  with Cons.IH show ?case by blast
qed

lemma follows_durable: "follows C j es s \<Longrightarrow> durable s = durable_in es"
proof (induction rule: follows.induct)
  case (event es s e s')
  from event.hyps(2) event.IH show ?case
    by (cases e rule: delivery_event.exhaust) (auto simp: durable_in_def)
qed (simp add: start_def durable_in_def)

lemma follows_claim:
  "follows C j es s \<Longrightarrow>
    (claim_of s = Unclaimed \<longrightarrow> EvClaim (Some Claimed) \<notin> set es \<and> filter gives_up es = []) \<and>
    (claim_of s = Held \<longrightarrow> EvClaim (Some Claimed) \<in> set es \<and> filter gives_up es = []) \<and>
    (claim_of s \<in> {Given_up, Recorded, Unrecorded} \<longrightarrow> filter gives_up es \<noteq> [])"
proof (induction rule: follows.induct)
  case (event es s e s')
  from event.hyps(2) event.IH show ?case by (cases e rule: delivery_event.exhaust) auto
qed (simp add: start_def)

lemma follows_slot:
  "follows C j es s \<Longrightarrow>
    slots_taken es = (if slot_of s = No_slot then 0 else 1) \<and> slots_returned es = (if slot_of s = Slot_back then 1 else 0)"
proof (induction rule: follows.induct)
  case (event es s e s')
  from event.hyps(2) event.IH show ?case
    by (cases e rule: delivery_event.exhaust) (auto simp: slots_taken_def slots_returned_def)
qed (simp add: start_def slots_taken_def slots_returned_def)

lemma follows_posts: "follows C j es s \<Longrightarrow> length (filter is_post es) = (if posted s then 1 else 0)"
proof (induction rule: follows.induct)
  case (event es s e s')
  from event.hyps(2) event.IH show ?case by (cases e rule: delivery_event.exhaust) auto
qed (simp add: start_def)

lemma follows_seen:
  "follows C j es s \<Longrightarrow> (allowed s \<longrightarrow> EvBlocked (Some False) \<in> set es) \<and> (now_read s = Some t \<longrightarrow> EvTime t \<in> set es)"
proof (induction rule: follows.induct)
  case (event es s e s')
  from event.hyps(2) event.IH show ?case by (cases e rule: delivery_event.exhaust) auto
qed (simp add: start_def)

lemma processJob_trace:
  assumes "trace w = []"
  obtains s where "follows C j (trace (snd (processJob S C messageId j w))) s" and "claim_of s \<noteq> Held"
    and "slot_of s \<noteq> Has_slot" and "fst (processJob S C messageId j w) = Inr () \<longrightarrow> acked s = durable s"
    and "activeJobs (snd (processJob S C messageId j w)) = activeJobs w"
proof -
  obtain r w' where r: "processJob S C messageId j w = (r, w')" by (cases "processJob S C messageId j w")
  from processJob_reaches [OF assms, of S C messageId j] r show ?thesis
    by (cases r) (auto intro: that simp: wp_def reaches_def done_ok_def done_bad_def phase_defs)
qed

section \<open>Properties\<close>







text \<open>No claim and no slot leaks: in every run a granted claim is given back or completed (the call is
  made, whether or not it succeeds), and as many slots are returned as were taken.\<close>
theorem claim_and_slot_returned:
  assumes "trace w = []" and "processJob S C messageId j w = (r, w')"
  shows "(EvClaim (Some Claimed) \<in> set (trace w') \<longrightarrow> filter gives_up (trace w') \<noteq> []) \<and>
    slots_returned (trace w') = slots_taken (trace w')"
proof -
  obtain s where f: "follows C j (trace w') s" and s: "claim_of s \<noteq> Held" "slot_of s \<noteq> Has_slot"
    using processJob_trace [OF assms(1), of C j S messageId] assms(2) by (metis snd_conv)
  then show ?thesis using follows_claim [OF f] follows_slot [OF f] by (cases "claim_of s"; cases "slot_of s") auto
qed

theorem claim_and_slot_returned_witness:
  "EvClaim (Some Claimed) \<in> set (trace (snd (sample_run 202 False))) \<and>
    filter gives_up (trace (snd (sample_run 202 False))) \<noteq> [] \<and>
    slots_returned (trace (snd (sample_run 202 False))) = slots_taken (trace (snd (sample_run 202 False)))"
  using claim_and_slot_returned [of sample_world "sample_services 202 False" outbound_config "''1-0''" outbound_sample
      "fst (sample_run 202 False)" "snd (sample_run 202 False)"] run_202
  by (auto simp: sample_world_def sample_run_def)

text \<open>How often a job can still be put back, when its counters are numbers.\<close>

fun counted :: "OutboundJob \<Rightarrow> bool" where
  "counted j = (case (attempt j, maxAttempts j, or_else (deferCount j) (Num 0)) of (Num _, Num _, Num _) \<Rightarrow> True | _ \<Rightarrow> False)"

definition requeues_left :: "worker_config \<Rightarrow> OutboundJob \<Rightarrow> nat" where
  "requeues_left C j =
     (case (attempt j, maxAttempts j, or_else (deferCount j) (Num 0)) of
        (Num a, Num m, Num d) \<Rightarrow> nat (m - a) + nat (notReadyMaxRequeues C - d) | _ \<Rightarrow> 0)"

lemma retry_decreases: "counted j \<Longrightarrow> retry_of j t i \<Longrightarrow> counted i \<and> requeues_left C i < requeues_left C j"
  by (auto simp: retry_of_def same_work_def requeues_left_def split: jsnum.splits)

lemma deferral_decreases: "counted j \<Longrightarrow> deferral_of C j t i \<Longrightarrow> counted i \<and> requeues_left C i < requeues_left C j"
  by (auto simp: deferral_of_def same_work_def requeues_left_def or_else_def split: jsnum.splits option.splits)

text \<open>A job is not put back for ever: whenever a run puts a job back, whether as a retry or as a
  deferral, the job it stores is the same work with its counters still numbers and strictly fewer
  requeues left, so a chain of requeues is no longer than the job's remaining attempts and deferrals;
  a retry is due no earlier than the backoff of its attempt after a clock reading of the run.\<close>
theorem requeues_decrease:
  assumes "trace w = []" and "processJob S C messageId j w = (r, w')" and "EvEnqueue i b \<in> set (trace w')" and "counted j"
  shows "counted i \<and> requeues_left C i < requeues_left C j \<and> same_work i j \<and>
    (attempt i \<noteq> attempt j \<longrightarrow>
      (\<exists>t d. EvTime t \<in> set (trace w') \<and> notBeforeMs i = Num (t + d) \<and> backoffMs (attempt i) \<le> d))"
proof -
  obtain xs ys where tr: "trace w' = xs @ EvEnqueue i b # ys" using assms(3) split_list by metis
  obtain s where f: "follows C j (xs @ EvEnqueue i b # ys) s"
    using processJob_trace [OF assms(1), of C j S messageId] assms(2) tr by (metis snd_conv)
  obtain u v where u: "follows C j ys u" "delivery_step C j u (EvEnqueue i b) v" using follows_split [OF f] by blast
  then obtain t where t: "now_read u = Some t" and rd: "retry_of j t i \<or> deferral_of C j t i" by auto
  have "EvTime t \<in> set (trace w')" using follows_seen [OF u(1)] t tr by auto
  moreover have "counted i \<and> requeues_left C i < requeues_left C j"
    using rd retry_decreases [OF assms(4)] deferral_decreases [OF assms(4)] by blast
  moreover have "same_work i j" "attempt i \<noteq> attempt j \<longrightarrow> (\<exists>d. notBeforeMs i = Num (t + d) \<and> backoffMs (attempt i) \<le> d)"
    using rd unfolding retry_of_def deferral_of_def by blast+
  ultimately show ?thesis by blast
qed

theorem requeues_decrease_witness:
  "EvEnqueue retried_sample True \<in> set (trace (snd (sample_run 503 False))) \<and> counted outbound_sample \<and>
    requeues_left outbound_config retried_sample < requeues_left outbound_config outbound_sample"
  using requeues_decrease [of sample_world "sample_services 503 False" outbound_config "''1-0''" outbound_sample
      "fst (sample_run 503 False)" "snd (sample_run 503 False)" retried_sample True] run_503
  by (auto simp: sample_world_def sample_run_def outbound_sample_def or_else_def)

end
