(* ===== verification/Worker_Liveness.thy ===== *)
theory Worker_Liveness
  imports Worker_Properties Worker_Text
begin

text \<open>
  What a run does when the services cooperate: the job is posted, recorded and acknowledged.  And what
  it does when only the last call of such a run fails.
\<close>

section \<open>Runs that go through\<close>

text \<open>
  \<open>emits C m Q es\<close>: from every world the method resolves, with a value in \<open>Q\<close>, and the calls it makes, clock
  readings aside, are \<open>es\<close> (newest first).
\<close>

definition emits :: "('s world, js_error, 'a) eio \<Rightarrow> ('a \<Rightarrow> bool) \<Rightarrow> delivery_event list \<Rightarrow> bool" where
  "emits m Q es \<longleftrightarrow> (\<forall>w. \<exists>a w'. m w = (Inr a, w') \<and> Q a \<and> acts (trace w') = es @ acts (trace w))"

named_theorems emits_rules \<open>runs that go through, construct by construct\<close>

lemma emits_return [emits_rules]: "Q a \<Longrightarrow> emits (io_return a) Q []"
  by (simp add: emits_def io_return_def)

lemma emits_bind:
  assumes "emits m Q es" and "\<And>a. Q a \<Longrightarrow> emits (f a) R fs"
  shows "emits (io_bind m f) R (fs @ es)"
  unfolding emits_def
proof
  fix w
  obtain a w1 where 1: "m w = (Inr a, w1)" "Q a" "acts (trace w1) = es @ acts (trace w)"
    using assms(1) unfolding emits_def by blast
  obtain b w2 where "f a w1 = (Inr b, w2)" "R b" "acts (trace w2) = fs @ acts (trace w1)"
    using assms(2) [OF 1(2)] unfolding emits_def by blast
  with 1 show "\<exists>b w2. io_bind m f w = (Inr b, w2) \<and> R b \<and> acts (trace w2) = (fs @ es) @ acts (trace w)"
    by (simp add: io_bind_def)
qed

lemma emits_then: "emits m (\<lambda>_. True) es \<Longrightarrow> emits n R fs \<Longrightarrow> emits (io_then m n) R (fs @ es)"
  unfolding io_then_def by (rule emits_bind)

lemma emits_step: "emits m Q es \<Longrightarrow> (\<And>a. Q a \<Longrightarrow> emits (f a) R fs) \<Longrightarrow> gs = fs @ es \<Longrightarrow> emits (io_bind m f) R gs"
  using emits_bind by blast

lemma emits_catch: "emits m Q es \<Longrightarrow> emits (io_catch m h) Q es"
  unfolding emits_def io_catch_def by (metis (mono_tags, lifting) case_prod_conv sum.case(2))

lemma emits_finally:
  assumes "emits m Q es" and "emits f (\<lambda>_. True) fs"
  shows "emits (io_finally m f) Q (fs @ es)"
  unfolding emits_def
proof
  fix w
  obtain a w1 where 1: "m w = (Inr a, w1)" "Q a" "acts (trace w1) = es @ acts (trace w)"
    using assms(1) unfolding emits_def by blast
  obtain b w2 where "f w1 = (Inr b, w2)" "acts (trace w2) = fs @ acts (trace w1)"
    using assms(2) unfolding emits_def by blast
  with 1 show "\<exists>b w2. io_finally m f w = (Inr b, w2) \<and> Q b \<and> acts (trace w2) = (fs @ es) @ acts (trace w)"
    by (simp add: io_finally_def)
qed

lemma emits_mono: "emits m Q es \<Longrightarrow> (\<And>a. Q a \<Longrightarrow> R a) \<Longrightarrow> emits m R es"
  by (fastforce simp: emits_def)

text \<open>Services that answer.\<close>

definition answers :: "('s, js_error, 'a) eio \<Rightarrow> ('a \<Rightarrow> bool) \<Rightarrow> bool" where
  "answers m Q \<longleftrightarrow> (\<forall>s. \<exists>a s'. m s = (Inr a, s') \<and> Q a)"

lemma emits_silent: "answers m Q \<Longrightarrow> emits (silent m) Q []"
proof (unfold emits_def, intro allI)
  fix w :: "'a world"
  assume "answers m Q"
  then obtain a s where "m (srv w) = (Inr a, s)" "Q a" unfolding answers_def by blast
  then show "\<exists>a w'. silent m w = (Inr a, w') \<and> Q a \<and> acts (trace w') = [] @ acts (trace w)" by (simp add: silent_def)
qed

lemma emits_called:
  assumes "answers m (\<lambda>a. Q a \<and> ev (Inr a) = e)" and "\<not> is_time e"
  shows "emits (called ev m) Q [e]"
  unfolding emits_def
proof
  fix w :: "'a world"
  obtain a s where "m (srv w) = (Inr a, s)" "Q a" "ev (Inr a) = e" using assms(1) unfolding answers_def by blast
  with assms(2) show "\<exists>a w'. called ev m w = (Inr a, w') \<and> Q a \<and> acts (trace w') = [e] @ acts (trace w)"
    by (simp add: called_def acts_def)
qed

definition clock_in :: "'s services \<Rightarrow> (int \<Rightarrow> bool) \<Rightarrow> bool" where
  "clock_in S P \<longleftrightarrow> (\<forall>s. P (fst (sv_now S s)))"

lemma emits_clock:
  assumes "clock_in S P"
  shows "emits (clock S) P []"
proof (unfold emits_def, intro allI)
  fix w :: "'a world"
  have "P (fst (sv_now S (srv w)))" using assms by (simp add: clock_in_def)
  then show "\<exists>a w'. clock S w = (Inr a, w') \<and> P a \<and> acts (trace w') = [] @ acts (trace w)"
    by (cases "sv_now S (srv w)") (simp add: clock_def called_def total_io_def acts_def)
qed

lemma emits_total: "emits (silent (total_io f)) (\<lambda>_. True) []"
  by (auto simp: emits_def silent_def total_io_def split: prod.splits)

lemma emits_held: "emits (set_held b) (\<lambda>_. True) []"
  by (simp add: emits_def set_held_def)

lemma emits_active: "emits (add_active d) (\<lambda>_. True) []"
  by (simp add: emits_def add_active_def)

text \<open>
  Services that cooperate on one job: it is within its residence limit and due whenever the clock is
  read, the claim, the domain checks and the slot are granted, the signature is produced, the address
  resolves to a target the egress policy accepts, and the server answers with a 2xx status.
\<close>

definition cooperative :: "'s services \<Rightarrow> worker_config \<Rightarrow> OutboundJob \<Rightarrow> bool" where
  "cooperative S C j \<longleftrightarrow>
     clock_in S (\<lambda>now. \<not> residence_expired (postResidenceMs C j now) \<and> stamped j \<noteq> None \<and> \<not> js_lt (Num now) (notBeforeMs j)) \<and>
     (case capabilityGate C of None \<Rightarrow> True | Some gate \<Rightarrow> g_allowed (gate ''ap.federation.egress'')) \<and>
     (\<forall>t n. answers (sv_claim S (jobId j) t n) (\<lambda>r. r = Claimed)) \<and>
     answers (sv_isDomainBlocked S (targetDomain j)) (\<lambda>b. \<not> b) \<and>
     answers (sv_checkDomainRateLimit S (targetDomain j)) (\<lambda>b. b) \<and>
     (\<forall>n. answers (sv_acquireDomainSlot S (targetDomain j) n) (\<lambda>b. b)) \<and>
     (\<forall>t n. answers (sv_complete S (jobId j) t n) (\<lambda>_. True)) \<and>
     \<not> ad_enabled (worker_adapter C S) \<and>
     isSafeTargetInboxUrl (net_parse (sv_net S)) (targetInbox j) \<and>
     answers (sv_signOne S (actorUri j) ''POST'' (targetInbox j) (activity j)) (\<lambda>r. \<exists>h. r = Signed h) \<and>
     (\<forall>build i c t. sv_buildSenderHeader S = Some build \<longrightarrow> answers (build i c t) (\<lambda>_. True)) \<and>
     (\<exists>u. net_parse (sv_net S) (targetInbox j) = Some u \<and> u_protocol u = ''https:'' \<and> u_username u = [] \<and> u_password u = [] \<and> u_hash u = [] \<and>
        normalizeUrlHostname (u_hostname u) \<noteq> [] \<and> isIP (normalizeUrlHostname (u_hostname u)) = 0 \<and>
        answers (net_lookup (sv_net S) (normalizeUrlHostname (u_hostname u)))
          (\<lambda>as. dns_results as \<noteq> [] \<and> list_all (\<lambda>a. \<not> isForbiddenActivityPubAddress (ra_address a)) (dns_results as)) \<and>
        (\<forall>d q. answers (net_request (sv_net S) u d q)
           (\<lambda>rs. 200 \<le> rs_status rs \<and> rs_status rs < 300 \<and> (\<exists>chunks. rs_body rs \<in> {None, Some (chunks, None)})))) \<and>
     answers (net_now (sv_net S)) (\<lambda>_. True)"

text \<open>The part of the services that acknowledge and give the slot back.\<close>

definition acks_and_frees :: "'s services \<Rightarrow> string \<Rightarrow> OutboundJob \<Rightarrow> bool" where
  "acks_and_frees S messageId j \<longleftrightarrow>
     answers (sv_ack S messageId) (\<lambda>_. True) \<and> answers (sv_releaseDomainSlot S (targetDomain j)) (\<lambda>_. True)"

lemma stamped_residence:
  "stamped j \<noteq> None \<Longrightarrow> queueResidenceMs C m j now = postResidenceMs C j now"
  by (auto simp: queueResidenceMs_def postResidenceMs_def split: option.splits)

lemma emits_validate:
  assumes "net_parse (sv_net S) v = Some u" and "u_protocol u = ''https:''" and "u_username u = []" "u_password u = []" "u_hash u = []"
    and "normalizeUrlHostname (u_hostname u) \<noteq> []" and "isIP (normalizeUrlHostname (u_hostname u)) = 0"
    and l: "answers (net_lookup (sv_net S) (normalizeUrlHostname (u_hostname u)))
          (\<lambda>as. dns_results as \<noteq> [] \<and> list_all (\<lambda>a. \<not> isForbiddenActivityPubAddress (ra_address a)) (dns_results as))"
  shows "emits (validateActivityPubTarget (net_parse (worker_net S)) (defaultLookup (worker_net S)) opts v) (\<lambda>t. t_url t = u) []"
proof -
  let ?h = "normalizeUrlHostname (u_hostname u)"
  let ?ok = "\<lambda>as. as \<noteq> [] \<and> list_all (\<lambda>a. \<not> isForbiddenActivityPubAddress (ra_address a)) as"
  have "emits (net_lookup (worker_net S) ?h) (\<lambda>as. ?ok (dns_results as)) []"
    unfolding worker_net_def by simp (rule emits_silent [OF l])
  from emits_bind [OF this, of "\<lambda>as. io_return (dns_results as)" ?ok "[]"]
  have lookup: "emits (defaultLookup (worker_net S) ?h) ?ok []" unfolding defaultLookup_def by (simp add: emits_return)
  have check: "emits (case check_target opts u ?h as of Inl e \<Rightarrow> io_throw e | Inr t \<Rightarrow> io_return t) (\<lambda>t. t_url t = u) []"
    if "?ok as" for as
  proof -
    have "find (\<lambda>a. isForbiddenActivityPubAddress (ra_address a)) as = None"
      using that by (auto simp: find_None_iff list_all_iff)
    with that assms(2) show ?thesis by (simp add: check_target_def Let_def emits_return)
  qed
  have p: "net_parse (worker_net S) = net_parse (sv_net S)" by (simp add: worker_net_def)
  show ?thesis
    using emits_bind [OF lookup check] assms(1-7) by (simp add: validateActivityPubTarget_def p Let_def)
qed

lemma emits_request:
  assumes "clock_in S (\<lambda>now. \<not> residence_expired (postResidenceMs C j now))"
    and v: "emits (validateActivityPubTarget (net_parse (worker_net S)) (defaultLookup (worker_net S))
        (environment_options (net_env (worker_net S))) (targetInbox j)) (\<lambda>t. t_url t = u) []"
    and r: "\<And>d q. answers (net_request (sv_net S) u d q) P" and n: "answers (net_now (sv_net S)) (\<lambda>_. True)"
  shows "emits (secureActivityPubRequest (worker_net S) (targetInbox j) q (assertExternalPostAllowed S C j)) P [EvPost True]"
    and "emits (assertExternalPostAllowed S C j) (\<lambda>_. True) []"
proof -
  have d: "emits (pinned_dispatcher (worker_net S) t) (\<lambda>_. True) []" for t
  proof (unfold emits_def, intro allI)
    fix w :: "'a world"
    obtain now s where "net_now (sv_net S) (srv w) = (Inr now, s)" using n unfolding answers_def by blast
    then show "\<exists>a w'. pinned_dispatcher (worker_net S) t w = (Inr a, w') \<and> True \<and> acts (trace w') = [] @ acts (trace w)"
      by (cases "getPinnedDispatcher t now (net_cache (sv_net S) s)")
         (simp add: pinned_dispatcher_def io_bind_def worker_net_def silent_def)
  qed
  show a: "emits (assertExternalPostAllowed S C j) (\<lambda>_. True) []"
    unfolding assertExternalPostAllowed_def
    by (rule emits_bind [OF emits_clock [OF assms(1)], where fs = "[]", simplified]) (simp add: emits_return Let_def)
  have q: "emits (net_request (worker_net S) u d q) P [EvPost True]" for d
    unfolding worker_net_def by simp (rule emits_called, use r in \<open>auto simp: answers_def\<close>)
  have tail: "emits (io_bind (pinned_dispatcher (worker_net S) t) (\<lambda>d. io_then (assertExternalPostAllowed S C j)
      (net_request (worker_net S) (t_url t) d q))) P [EvPost True]" if "t_url t = u" for t
    using emits_bind [OF d emits_then [OF a q]] that by simp
  show "emits (secureActivityPubRequest (worker_net S) (targetInbox j) q (assertExternalPostAllowed S C j)) P [EvPost True]"
    using emits_bind [OF v tail] by (simp add: secureActivityPubRequest_def)
qed

lemma emits_sync:
  assumes "\<And>build i c t. sv_buildSenderHeader S = Some build \<Longrightarrow> answers (build i c t) (\<lambda>_. True)"
  shows "emits (sync_header S C j) (\<lambda>_. True) []"
  unfolding sync_header_def
  by (auto split: option.split intro!: emits_return emits_catch emits_silent assms)

lemma emits_deliver_signed:
  assumes "clock_in S (\<lambda>now. \<not> residence_expired (postResidenceMs C j now))"
    and v: "emits (validateActivityPubTarget (net_parse (worker_net S)) (defaultLookup (worker_net S))
        (environment_options (net_env (worker_net S))) (targetInbox j)) (\<lambda>t. t_url t = u) []"
    and r: "\<And>d q. answers (net_request (sv_net S) u d q) (\<lambda>rs. 200 \<le> rs_status rs \<and> rs_status rs < 300 \<and>
        (\<exists>chunks. rs_body rs \<in> {None, Some (chunks, None)}))"
    and n: "answers (net_now (sv_net S)) (\<lambda>_. True)"
    and "\<And>build i c t. sv_buildSenderHeader S = Some build \<Longrightarrow> answers (build i c t) (\<lambda>_. True)"
  shows "emits (deliver_signed S C j h) dr_success [EvPost True]"
proof -
  note rq = emits_request [OF assms(1) v r n]
  have read: "\<exists>t d. readBoundedResponseBody b MAX_RESPONSE_BODY_READ_BYTES = Inr (t, d)"
    if "b \<in> {None, Some (chunks, None)}" for b chunks
  proof -
    have "\<not> isl (read_chunks n chunks None got)" for n got
      by (induction n chunks "None :: js_error option" got rule: read_chunks.induct) (simp_all add: Let_def)
    then have "\<exists>r. read_chunks n chunks None got = Inr r" for n got by (metis sum.collapse(2))
    with that show ?thesis by (auto simp: readBoundedResponseBody_def)
  qed
  have fin: "emits (case readBoundedResponseBody (rs_body rs) MAX_RESPONSE_BODY_READ_BYTES of
        Inl e \<Rightarrow> io_throw e
      | Inr (text, _) \<Rightarrow> io_return (status_result (rs_status rs) (sanitizeResponseBodySnippet text) ms)) dr_success []"
    if "200 \<le> rs_status rs \<and> rs_status rs < 300 \<and> (\<exists>chunks. rs_body rs \<in> {None, Some (chunks, None)})" for rs ms
    using that read [of "rs_body rs"] by (auto simp: emits_return status_result_def)
  have tail: "emits (io_bind (silent (total_io (sv_now S))) (\<lambda>nowMs.
      let ms = parseRetryAfterMs (sv_date_parse S) (retry_after_header (rs_retry_after rs)) nowMs
      in case readBoundedResponseBody (rs_body rs) MAX_RESPONSE_BODY_READ_BYTES of
            Inl e \<Rightarrow> io_throw e
          | Inr (text, _) \<Rightarrow> io_return (status_result (rs_status rs) (sanitizeResponseBodySnippet text) ms))) dr_success []"
    if "200 \<le> rs_status rs \<and> rs_status rs < 300 \<and> (\<exists>chunks. rs_body rs \<in> {None, Some (chunks, None)})" for rs
    using emits_bind [OF emits_total fin [OF that], of "sv_now S"] by (simp add: Let_def)
  have sync: "emits (sync_header S C j) (\<lambda>_. True) []" by (rule emits_sync) (rule assms(5))
  show ?thesis
    unfolding deliver_signed_def
    using emits_bind [OF sync emits_then [OF rq(2) emits_bind [OF rq(1) tail]]] by simp
qed

lemma emits_deliver:
  assumes "cooperative S C j"
  shows "emits (deliver S C j) dr_success [EvPost True]"
proof -
  note c = assms [unfolded cooperative_def]
  obtain u where u: "net_parse (sv_net S) (targetInbox j) = Some u" "u_protocol u = ''https:''" "u_username u = []"
      "u_password u = []" "u_hash u = []" "normalizeUrlHostname (u_hostname u) \<noteq> []"
      "isIP (normalizeUrlHostname (u_hostname u)) = 0"
      "answers (net_lookup (sv_net S) (normalizeUrlHostname (u_hostname u)))
          (\<lambda>as. dns_results as \<noteq> [] \<and> list_all (\<lambda>a. \<not> isForbiddenActivityPubAddress (ra_address a)) (dns_results as))"
    and r: "\<And>d q. answers (net_request (sv_net S) u d q)
           (\<lambda>rs. 200 \<le> rs_status rs \<and> rs_status rs < 300 \<and> (\<exists>chunks. rs_body rs \<in> {None, Some (chunks, None)}))"
    using c by blast
  have k: "clock_in S (\<lambda>now. \<not> residence_expired (postResidenceMs C j now))" using c by (auto simp: clock_in_def)
  have signed: "emits (io_catch (deliver_signed S C j h) delivery_failure) dr_success [EvPost True]" for h
    by (rule emits_catch, rule emits_deliver_signed [OF k emits_validate [OF u] r]) (use c in blast)+
  have sign: "emits (silent (sv_signOne S (actorUri j) ''POST'' (targetInbox j) (activity j))) (\<lambda>r. \<exists>h. r = Signed h) []"
    by (rule emits_silent) (use c in blast)
  have "isSafeTargetInboxUrl (net_parse (sv_net S)) (targetInbox j) = True" "ad_enabled (worker_adapter C S) = False" using c by blast+
  then have "deliver S C j = io_bind (silent (sv_signOne S (actorUri j) ''POST'' (targetInbox j) (activity j))) (\<lambda>signResult.
      case signResult of
        SignError code message retryable \<Rightarrow> io_return (failure (''Signing failed: '' @ code @ '' - '' @ message) (\<not> retryable))
      | Signed h \<Rightarrow> io_catch (deliver_signed S C j h) delivery_failure)"
    unfolding deliver_def by (simp only: not_True_eq_False if_False prod.case bool.case)
  then show ?thesis by (simp only:) (rule emits_step [OF sign, where fs = "[EvPost True]"], use signed in auto)
qed

lemma emits_events:
  assumes "cooperative S C j"
  shows "emits (do_claim S C j t) (\<lambda>r. r = Claimed) [EvClaim (Some Claimed)]"
    and "emits (called (\<lambda>r. EvBlocked (answered r)) (sv_isDomainBlocked S (targetDomain j))) (\<lambda>b. \<not> b) [EvBlocked (Some False)]"
    and "emits (called (\<lambda>r. EvRate (answered r)) (sv_checkDomainRateLimit S (targetDomain j))) (\<lambda>b. b) [EvRate (Some True)]"
    and "emits (called (\<lambda>r. EvSlot (answered r)) (sv_acquireDomainSlot S (targetDomain j) n)) (\<lambda>b. b) [EvSlot (Some True)]"
    and "emits (do_complete S C j t) (\<lambda>_. True) [EvComplete True]"
  using assms unfolding cooperative_def do_claim_def do_complete_def
  by - (rule emits_called; simp add: answers_def)+

lemma emits_hook: "\<not> ad_enabled (worker_adapter C S) \<Longrightarrow> emits (callAdapter S C h j) (\<lambda>_. True) []"
  by (simp add: callAdapter_def emits_return)

text \<open>With the claim and the slot held, as far as the acknowledgement.\<close>

lemma emits_attempt:
  assumes c: "cooperative S C j" and a: "answers (sv_ack S m) (\<lambda>_. True)"
  shows "emits (attempt_delivery S C m j t) (\<lambda>_. True) [EvAck True, EvComplete True, EvPost True]"
proof -
  have off: "\<not> ad_enabled (worker_adapter C S)" using c by (simp add: cooperative_def)
  have ack: "emits (do_ack S m) (\<lambda>_. True) [EvAck True]"
    unfolding do_ack_def by (rule emits_called) (use a in \<open>auto simp: answers_def\<close>)
  have recd: "emits (io_catch (io_then (do_complete S C j t) (io_then (set_held False) (io_return True))) (\<lambda>_. io_return False))
      (\<lambda>b. b) [EvComplete True]"
    using emits_catch [OF emits_then [OF emits_events(5) [OF c] emits_then [OF emits_held emits_return [of "\<lambda>b. b" True]]]]
    by simp
  have del: "emits (delivered S C m j t result) (\<lambda>_. True) [EvAck True, EvComplete True]" for result
    unfolding delivered_def
    by (rule emits_step [OF recd, where fs = "[EvAck True]"]) (use emits_then [OF ack emits_hook [OF off]] in simp_all)
  have k: "clock_in S (\<lambda>now. \<not> residence_expired (queueResidenceMs C m j now))"
    using c by (auto simp: cooperative_def clock_in_def stamped_residence)
  show ?thesis
    unfolding attempt_delivery_def Let_def
    by (rule emits_step [OF emits_clock [OF k], where fs = "[EvAck True, EvComplete True, EvPost True]"], simp,
        rule emits_step [OF emits_deliver [OF c], where fs = "[EvAck True, EvComplete True]"]) (use del in simp_all)
qed

lemma emits_claimed:
  assumes c: "cooperative S C j" and a: "acks_and_frees S m j"
  shows "emits (claimed_job S C m j t) (\<lambda>_. True)
    [EvSlotRelease True, EvAck True, EvComplete True, EvPost True, EvSlot (Some True), EvRate (Some True), EvBlocked (Some False)]"
proof -
  have free: "emits (called (\<lambda>r. EvSlotRelease (succeeded r)) (sv_releaseDomainSlot S (targetDomain j))) (\<lambda>_. True) [EvSlotRelease True]"
    by (rule emits_called) (use a in \<open>auto simp: acks_and_frees_def answers_def\<close>)
  have att: "emits (attempt_delivery S C m j t) (\<lambda>_. True) [EvAck True, EvComplete True, EvPost True]"
    by (rule emits_attempt [OF c]) (use a in \<open>simp add: acks_and_frees_def\<close>)
  show ?thesis
    unfolding claimed_job_def
    by (rule emits_step [OF emits_events(2) [OF c], where fs = "[EvSlotRelease True, EvAck True, EvComplete True, EvPost True,
          EvSlot (Some True), EvRate (Some True)]"], simp,
        rule emits_step [OF emits_events(3) [OF c], where fs = "[EvSlotRelease True, EvAck True, EvComplete True, EvPost True,
          EvSlot (Some True)]"], simp,
        rule emits_step [OF emits_events(4) [OF c], where fs = "[EvSlotRelease True, EvAck True, EvComplete True, EvPost True]"])
       (use emits_finally [OF att free] in simp_all)
qed

lemma sample_cooperative: "cooperative (sample_services 202 b) outbound_config outbound_sample"
proof -
  have ip: "isForbiddenActivityPubAddress ''93.184.216.34'' = False" and nip: "isIP ''b.example'' = 0"
    and nrm: "normalizeUrlHostname ''b.example'' = ''b.example''"
    by code_simp+
  have res: "postResidenceMs outbound_config outbound_sample 1000 = Some 100" "stamped outbound_sample = Some 900"
    by code_simp+
  have job: "notBeforeMs outbound_sample = Num 0" "targetInbox outbound_sample = ''https://b.example/inbox''"
    and cfg: "capabilityGate outbound_config = None" "fedifyRuntimeIntegrationEnabled outbound_config = False"
    by (simp_all add: outbound_sample_def outbound_config_def)
  have safe: "isSafeTargetInboxUrl (\<lambda>_. Some sample_inbox_url) ''https://b.example/inbox''"
    by (simp add: isSafeTargetInboxUrl_def sample_inbox_url_def js_lower_def lower_char_def)
  show ?thesis
    unfolding cooperative_def
    by (intro conjI allI exI [of _ sample_inbox_url])
       (auto simp: answers_def io_return_def clock_in_def sample_services_def sample_services_at_def res job cfg residence_expired_def
          APDM_OUTBOUND_MESSAGE_MAX_RESIDENCE_MS_def worker_adapter_def NoopFederationRuntimeAdapter_def
          safe [unfolded sample_inbox_url_def] sample_inbox_url_def ip nip nrm dns_results_def)
qed

text \<open>C18: When the services cooperate on a job (granted claim, domain allowed, slot free, signature, public
  target, 2xx answer, store and stream answering) a run resolves, and its calls are exactly the claim, the three domain
  checks, one POST, the record of the delivery, the acknowledgement and the return of the slot, in this order.\<close>
theorem cooperative_job_delivered:
  assumes "cooperative S C j" and "acks_and_frees S messageId j"
  shows "\<exists>w'. processJob S C messageId j w = (Inr (), w') \<and>
    acts (trace w') = [EvSlotRelease True, EvAck True, EvComplete True, EvPost True, EvSlot (Some True), EvRate (Some True),
      EvBlocked (Some False), EvClaim (Some Claimed)] @ acts (trace w)"
proof -
  let ?es = "[EvSlotRelease True, EvAck True, EvComplete True, EvPost True, EvSlot (Some True), EvRate (Some True),
      EvBlocked (Some False)]"
  have due: "clock_in S (\<lambda>now. \<not> js_lt (Num now) (notBeforeMs j))"
    and k: "clock_in S (\<lambda>now. \<not> residence_expired (queueResidenceMs C messageId j now))"
    using assms(1) by (auto simp: cooperative_def clock_in_def stamped_residence)
  have wait: "emits (wait_until_due S j) (\<lambda>go. go) []"
    unfolding wait_until_due_def
    by (auto intro!: emits_return emits_step [OF emits_clock [OF due], where fs = "[]"])
  have claim: "emits (claim_and_deliver S C messageId j token) (\<lambda>_. True) (?es @ [EvClaim (Some Claimed)])" for token
    unfolding claim_and_deliver_def
    by (rule emits_step [OF emits_events(1) [OF assms(1)]])
       (use emits_then [OF emits_held emits_claimed [OF assms]] in simp_all)
  have go: "emits (io_bind (wait_until_due S j) (\<lambda>go. if go then claim_and_deliver S C messageId j token else io_return ()))
      (\<lambda>_. True) (?es @ [EvClaim (Some Claimed)])" for token
    by (rule emits_step [OF wait, where fs = "?es @ [EvClaim (Some Claimed)]"]) (use claim in simp_all)
  have body: "emits (job_body S C messageId j now token) (\<lambda>_. True) (?es @ [EvClaim (Some Claimed)])"
    if "\<not> residence_expired (queueResidenceMs C messageId j now)" for now token
    using that go assms(1) by (auto simp: job_body_def Let_def cooperative_def split: option.splits)
  have "emits (processJob S C messageId j) (\<lambda>_. True) (?es @ [EvClaim (Some Claimed)])"
    unfolding processJob_def
    by (rule emits_then [OF emits_active emits_step, where fs = "?es @ [EvClaim (Some Claimed)]", simplified append_Nil2],
        rule emits_clock [OF k], rule emits_step [OF emits_total, where fs = "?es @ [EvClaim (Some Claimed)]"])
       (use emits_then [OF emits_held emits_finally [OF emits_catch [OF body] emits_active]] in simp_all)
  then show ?thesis by (auto simp: emits_def)
qed


theorem cooperative_job_delivered_witness:
  "cooperative (sample_services 202 False) outbound_config outbound_sample \<and>
   (\<exists>w'. processJob (sample_services 202 False) outbound_config ''1-0'' outbound_sample sample_world = (Inr (), w') \<and>
     length (filter is_post (trace w')) = 1)"
proof -
  have c: "cooperative (sample_services 202 False) outbound_config outbound_sample" by (rule sample_cooperative)
  have a: "acks_and_frees (sample_services 202 False) ''1-0'' outbound_sample"
    by (simp add: acks_and_frees_def answers_def sample_services_def sample_services_at_def io_return_def)
  obtain w' where w: "processJob (sample_services 202 False) outbound_config ''1-0'' outbound_sample sample_world = (Inr (), w')"
    "acts (trace w') = [EvSlotRelease True, EvAck True, EvComplete True, EvPost True, EvSlot (Some True), EvRate (Some True),
      EvBlocked (Some False), EvClaim (Some Claimed)] @ acts (trace sample_world)"
    using cooperative_job_delivered [OF c a, of sample_world] by blast
  have f: "filter is_post es = filter is_post (acts es)" for es
    by (induction es) (auto simp: acts_def elim!: is_post.elims)
  have "filter is_post (trace w') = [EvPost True]"
    unfolding f [of "trace w'"] w(2) by (simp add: sample_world_def acts_def)
  with w(1) c show ?thesis by simp
qed

section \<open>When the slot cannot be given back\<close>

definition rejects :: "('s, js_error, 'a) eio \<Rightarrow> js_error \<Rightarrow> bool" where
  "rejects m e \<longleftrightarrow> (\<forall>s. \<exists>s'. m s = (Inl e, s'))"

text \<open>\<open>fails C m e es\<close>: from every world the method rejects with \<open>e\<close>, having made the calls \<open>es\<close>.\<close>

definition fails :: "('s world, js_error, 'a) eio \<Rightarrow> js_error \<Rightarrow> delivery_event list \<Rightarrow> bool" where
  "fails m e es \<longleftrightarrow> (\<forall>w. \<exists>w'. m w = (Inl e, w') \<and> acts (trace w') = es @ acts (trace w))"

lemma fails_step:
  assumes "emits m Q es" and "\<And>a. Q a \<Longrightarrow> fails (f a) e fs" and "gs = fs @ es"
  shows "fails (io_bind m f) e gs"
  unfolding fails_def
proof
  fix w
  obtain a w1 where 1: "m w = (Inr a, w1)" "Q a" "acts (trace w1) = es @ acts (trace w)"
    using assms(1) unfolding emits_def by blast
  obtain w2 where "f a w1 = (Inl e, w2)" "acts (trace w2) = fs @ acts (trace w1)"
    using assms(2) [OF 1(2)] unfolding fails_def by blast
  with 1 assms(3) show "\<exists>w2. io_bind m f w = (Inl e, w2) \<and> acts (trace w2) = gs @ acts (trace w)"
    by (simp add: io_bind_def)
qed

lemma fails_finally:
  assumes "emits m Q es" and "fails f e fs"
  shows "fails (io_finally m f) e (fs @ es)"
  unfolding fails_def
proof
  fix w
  obtain a w1 where 1: "m w = (Inr a, w1)" "acts (trace w1) = es @ acts (trace w)"
    using assms(1) unfolding emits_def by blast
  obtain w2 where "f w1 = (Inl e, w2)" "acts (trace w2) = fs @ acts (trace w1)"
    using assms(2) unfolding fails_def by blast
  with 1 show "\<exists>w2. io_finally m f w = (Inl e, w2) \<and> acts (trace w2) = (fs @ es) @ acts (trace w)"
    by (simp add: io_finally_def)
qed

text \<open>The handler of such a rejection dead-letters the job and acknowledges its entry.\<close>

lemma job_failed_dead_letters:
  assumes "answers (sv_ack S m) (\<lambda>_. True)" and "\<And>i r. answers (sv_moveToDlq S i r) (\<lambda>_. True)"
  shows "\<exists>w' es. job_failed S m j t e w = (Inr (), w') \<and>
    acts (trace w') = EvAck True # EvDlq (j\<lparr>lastError := Some (sanitizeErrorText (error_message e))\<rparr>)
      (''Worker processing error: '' @ sanitizeErrorText (error_message e)) True # es @ acts (trace w)"
proof -
  have ack: "emits (do_ack S m) (\<lambda>_. True) [EvAck True]"
    unfolding do_ack_def by (rule emits_called) (use assms in \<open>auto simp: answers_def\<close>)
  have dlq: "emits (do_dlq S i r) (\<lambda>_. True) [EvDlq i r True]" for i r
    unfolding do_dlq_def by (rule emits_called) (use assms in \<open>auto simp: answers_def\<close>)
  have both: "emits (dlq_and_ack S i r m) (\<lambda>_. True) [EvAck True, EvDlq i r True]" for i r
    unfolding dlq_and_ack_def using emits_then [OF dlq ack] by simp
  have rel: "\<exists>w1 es. release_if_held S j t w = (Inr (), w1) \<and> acts (trace w1) = es @ acts (trace w)"
  proof (cases "claimHeld w")
    case True
    obtain r s where r: "sv_release S (jobId j) t (srv w) = (r, s)" by (cases "sv_release S (jobId j) t (srv w)")
    have "acts (EvRelease b # trace w) = [EvRelease b] @ acts (trace w)" for b by (simp add: acts_def)
    with True r show ?thesis
      by (cases r) (auto simp: release_if_held_def io_then_def io_bind_def io_catch_def do_release_def called_def
          set_held_def io_return_def)
  qed (simp add: release_if_held_def io_return_def)
  then obtain w1 es where 1: "release_if_held S j t w = (Inr (), w1)" "acts (trace w1) = es @ acts (trace w)" by blast
  obtain w2 where "dlq_and_ack S (j\<lparr>lastError := Some (sanitizeErrorText (error_message e))\<rparr>)
      (''Worker processing error: '' @ sanitizeErrorText (error_message e)) m w1 = (Inr (), w2)"
    "acts (trace w2) = [EvAck True, EvDlq (j\<lparr>lastError := Some (sanitizeErrorText (error_message e))\<rparr>)
      (''Worker processing error: '' @ sanitizeErrorText (error_message e)) True] @ acts (trace w1)"
    using both unfolding emits_def by (metis old.unit.exhaust)
  with 1 show ?thesis unfolding job_failed_def Let_def io_then_def io_bind_def by auto
qed

lemma body_fails:
  assumes c: "cooperative S C j" and a: "answers (sv_ack S m) (\<lambda>_. True)"
    and r: "rejects (sv_releaseDomainSlot S (targetDomain j)) e"
    and now: "\<not> residence_expired (queueResidenceMs C m j now)"
  shows "fails (job_body S C m j now t) e ([EvSlotRelease False, EvAck True, EvComplete True, EvPost True, EvSlot (Some True),
    EvRate (Some True), EvBlocked (Some False)] @ [EvClaim (Some Claimed)])" (is "fails _ _ (?es @ [EvClaim (Some Claimed)])")
proof -
  have free: "fails (called (\<lambda>r. EvSlotRelease (succeeded r)) (sv_releaseDomainSlot S (targetDomain j))) e [EvSlotRelease False]"
    unfolding fails_def
  proof
    fix w :: "'a world"
    obtain s' where "sv_releaseDomainSlot S (targetDomain j) (srv w) = (Inl e, s')" using r unfolding rejects_def by blast
    then show "\<exists>w'. called (\<lambda>r. EvSlotRelease (succeeded r)) (sv_releaseDomainSlot S (targetDomain j)) w = (Inl e, w') \<and>
        acts (trace w') = [EvSlotRelease False] @ acts (trace w)"
      by (simp add: called_def acts_def)
  qed
  have slot: "fails (io_finally (attempt_delivery S C m j t)
      (called (\<lambda>r. EvSlotRelease (succeeded r)) (sv_releaseDomainSlot S (targetDomain j)))) e
      [EvSlotRelease False, EvAck True, EvComplete True, EvPost True]"
    using fails_finally [OF emits_attempt [OF c a] free] by simp
  have claimed: "fails (claimed_job S C m j t) e ?es"
    unfolding claimed_job_def
    by (rule fails_step [OF emits_events(2) [OF c], where fs = "[EvSlotRelease False, EvAck True, EvComplete True, EvPost True,
          EvSlot (Some True), EvRate (Some True)]"], simp,
        rule fails_step [OF emits_events(3) [OF c], where fs = "[EvSlotRelease False, EvAck True, EvComplete True, EvPost True,
          EvSlot (Some True)]"], simp,
        rule fails_step [OF emits_events(4) [OF c], where fs = "[EvSlotRelease False, EvAck True, EvComplete True, EvPost True]"])
       (use slot in simp_all)
  have due: "clock_in S (\<lambda>now. \<not> js_lt (Num now) (notBeforeMs j))"
    using c by (auto simp: cooperative_def clock_in_def)
  have wait: "emits (wait_until_due S j) (\<lambda>go. go) []"
    unfolding wait_until_due_def
    by (auto intro!: emits_return emits_step [OF emits_clock [OF due], where fs = "[]"])
  have claim: "fails (claim_and_deliver S C m j t) e (?es @ [EvClaim (Some Claimed)])"
    unfolding claim_and_deliver_def
    by (rule fails_step [OF emits_events(1) [OF c], where fs = ?es])
       (use fails_step [OF emits_held claimed, folded io_then_def] in simp_all)
  have go: "fails (io_bind (wait_until_due S j) (\<lambda>go. if go then claim_and_deliver S C m j t else io_return ())) e
      (?es @ [EvClaim (Some Claimed)])"
    by (rule fails_step [OF wait, where fs = "?es @ [EvClaim (Some Claimed)]"]) (use claim in simp_all)
  then have "fails (job_body S C m j now t) e (?es @ [EvClaim (Some Claimed)])"
    using now c by (auto simp: job_body_def Let_def cooperative_def split: option.splits)
  then show ?thesis by simp
qed

text \<open>A job that has been delivered can end in the dead-letter queue all the same: when everything goes
  through, the delivery is recorded and the entry acknowledged, but the slot cannot be given back, the
  rejection is handled as a processing error, and the delivered job is dead-lettered and its entry acknowledged again.\<close>
theorem delivered_job_dead_lettered:
  assumes "cooperative S C j" and "answers (sv_ack S messageId) (\<lambda>_. True)" and "\<forall>i reason. answers (sv_moveToDlq S i reason) (\<lambda>_. True)"
    and "rejects (sv_releaseDomainSlot S (targetDomain j)) e"
  shows "\<exists>w' es. processJob S C messageId j w = (Inr (), w') \<and>
    acts (trace w') = EvAck True # EvDlq (j\<lparr>lastError := Some (sanitizeErrorText (error_message e))\<rparr>)
      (''Worker processing error: '' @ sanitizeErrorText (error_message e)) True #
      es @ [EvSlotRelease False, EvAck True, EvComplete True, EvPost True, EvSlot (Some True),
        EvRate (Some True), EvBlocked (Some False), EvClaim (Some Claimed)] @ acts (trace w)"
proof -
  have k: "clock_in S (\<lambda>now. \<not> residence_expired (queueResidenceMs C messageId j now))"
    using assms(1) by (auto simp: cooperative_def clock_in_def stamped_residence)
  obtain w1 where 1: "add_active 1 w = (Inr (), w1)" "acts (trace w1) = acts (trace w)"
    by (simp add: add_active_def)
  obtain now w2 where 2: "clock S w1 = (Inr now, w2)" "\<not> residence_expired (queueResidenceMs C messageId j now)"
      "acts (trace w2) = acts (trace w1)"
    using emits_clock [OF k] unfolding emits_def by (metis append_Nil)
  obtain t w3 where 3: "silent (total_io (sv_uuid S)) w2 = (Inr t, w3)" "acts (trace w3) = acts (trace w2)"
    using emits_total [of "sv_uuid S"] unfolding emits_def by (metis append_Nil)
  obtain w4 where 4: "set_held False w3 = (Inr (), w4)" "acts (trace w4) = acts (trace w3)"
    by (simp add: set_held_def)
  obtain w5 where 5: "job_body S C messageId j now t w4 = (Inl e, w5)" "acts (trace w5) = [EvSlotRelease False, EvAck True,
      EvComplete True, EvPost True, EvSlot (Some True), EvRate (Some True), EvBlocked (Some False), EvClaim (Some Claimed)] @ acts (trace w4)"
    using body_fails [OF assms(1,2,4) 2(2), of t, unfolded fails_def append_Cons append_Nil, THEN spec [of _ w4]]
    by (auto simp only: append_Cons append_Nil)
  obtain w6 es where 6: "job_failed S messageId j t e w5 = (Inr (), w6)"
    "acts (trace w6) = EvAck True # EvDlq (j\<lparr>lastError := Some (sanitizeErrorText (error_message e))\<rparr>)
      (''Worker processing error: '' @ sanitizeErrorText (error_message e)) True # es @ acts (trace w5)"
    using job_failed_dead_letters [OF assms(2)] assms(3) by blast
  obtain w7 where 7: "add_active (- 1) w6 = (Inr (), w7)" "acts (trace w7) = acts (trace w6)"
    by (simp add: add_active_def)
  have "processJob S C messageId j w = (Inr (), w7)"
    by (simp only: processJob_def io_then_def io_bind_def io_finally_def io_catch_def 1(1) 2(1) 3(1) 4(1) 5(1) 6(1) 7(1)
        prod.case sum.case)
  moreover have "acts (trace w7) = EvAck True # EvDlq (j\<lparr>lastError := Some (sanitizeErrorText (error_message e))\<rparr>)
      (''Worker processing error: '' @ sanitizeErrorText (error_message e)) True #
      es @ [EvSlotRelease False, EvAck True, EvComplete True, EvPost True, EvSlot (Some True),
        EvRate (Some True), EvBlocked (Some False), EvClaim (Some Claimed)] @ acts (trace w)"
    unfolding 7(2) 6(2) 5(2) 4(2) 3(2) 2(3) 1(2) ..
  ultimately show ?thesis by blast
qed

theorem delivered_job_dead_lettered_witness:
  "\<exists>w' es. processJob (sample_services 202 True) outbound_config ''1-0'' outbound_sample sample_world = (Inr (), w') \<and>
    acts (trace w') = EvAck True # EvDlq (outbound_sample\<lparr>lastError := Some (sanitizeErrorText ''down'')\<rparr>)
      (''Worker processing error: '' @ sanitizeErrorText ''down'') True #
      es @ [EvSlotRelease False, EvAck True, EvComplete True, EvPost True, EvSlot (Some True),
        EvRate (Some True), EvBlocked (Some False), EvClaim (Some Claimed)]"
proof -
  have "answers (sv_ack (sample_services 202 True) ''1-0'') (\<lambda>_. True)"
    "\<forall>i reason. answers (sv_moveToDlq (sample_services 202 True) i reason) (\<lambda>_. True)"
    "rejects (sv_releaseDomainSlot (sample_services 202 True) (targetDomain outbound_sample)) (OtherError ''down'')"
    by (simp_all add: answers_def rejects_def sample_services_def sample_services_at_def io_return_def io_throw_def)
  from delivered_job_dead_lettered [OF sample_cooperative this, of sample_world]
  show ?thesis by (simp add: sample_world_def acts_def)
qed

end
