(* ===== verification/Worker_Invariants.thy ===== *)
theory Worker_Invariants
  imports Worker_Liveness
begin

text \<open>
  What every run of the outbound worker leaves alone: a predicate on the state of the services that
  each of their calls keeps is kept by the run, and so is one that also speaks of the trace.
\<close>

section \<open>Invariants of a run\<close>

text \<open>\<open>maintains I m\<close>: the method keeps \<open>I\<close>, a predicate on the worker's whole state, however it ends.\<close>

definition maintains :: "('w \<Rightarrow> bool) \<Rightarrow> ('w, 'e, 'a) eio \<Rightarrow> bool" where
  "maintains I m \<longleftrightarrow> (\<forall>w. I w \<longrightarrow> I (snd (m w)))"

named_theorems keep_rules \<open>maintaining an invariant, construct by construct\<close>

lemma maintainsD: "maintains I m \<Longrightarrow> I w \<Longrightarrow> m w = (r, w') \<Longrightarrow> I w'"
  by (auto simp: maintains_def dest: spec [of _ w])

lemma maintains_return [keep_rules]: "maintains I (io_return a)"
  by (simp add: maintains_def io_return_def)

lemma maintains_throw [keep_rules]: "maintains I (io_throw e)"
  by (simp add: maintains_def io_throw_def)

lemma maintains_bind [keep_rules]: "maintains I m \<Longrightarrow> (\<And>a. maintains I (f a)) \<Longrightarrow> maintains I (io_bind m f)"
  unfolding maintains_def io_bind_def by (auto split: prod.splits sum.splits; metis snd_conv)

lemma maintains_then [keep_rules]: "maintains I m \<Longrightarrow> maintains I n \<Longrightarrow> maintains I (io_then m n)"
  unfolding io_then_def by (rule maintains_bind)

lemma maintains_catch [keep_rules]: "maintains I m \<Longrightarrow> (\<And>e. maintains I (h e)) \<Longrightarrow> maintains I (io_catch m h)"
  unfolding maintains_def io_catch_def by (auto split: prod.splits sum.splits; metis snd_conv)

lemma maintains_finally [keep_rules]: "maintains I m \<Longrightarrow> maintains I f \<Longrightarrow> maintains I (io_finally m f)"
  unfolding maintains_def io_finally_def by (auto split: prod.splits sum.splits; metis snd_conv)

lemma maintains_if [keep_rules]: "(b \<Longrightarrow> maintains I m) \<Longrightarrow> (\<not> b \<Longrightarrow> maintains I n) \<Longrightarrow> maintains I (if b then m else n)"
  by simp

section \<open>Equal runs\<close>

text \<open>\<open>same I m n\<close>: from every state with \<open>I\<close> the two methods do the same, and keep \<open>I\<close>.\<close>

definition same :: "('w \<Rightarrow> bool) \<Rightarrow> ('w, 'e, 'a) eio \<Rightarrow> ('w, 'e, 'a) eio \<Rightarrow> bool" where
  "same I m n \<longleftrightarrow> (\<forall>w. I w \<longrightarrow> m w = n w \<and> I (snd (m w)))"

named_theorems same_rules \<open>equal runs, construct by construct\<close>

lemma same_refl: "maintains I m \<Longrightarrow> same I m m"
  by (simp add: same_def maintains_def)

lemma same_return [same_rules]: "same I (io_return a) (io_return a)"
  by (simp add: same_def io_return_def)

lemma same_throw [same_rules]: "same I (io_throw e) (io_throw e)"
  by (simp add: same_def io_throw_def)

lemma sameD: "same I m n \<Longrightarrow> I w \<Longrightarrow> m w = (r, w') \<Longrightarrow> n w = (r, w') \<and> I w'"
  by (auto simp: same_def dest: spec [of _ w])

lemma same_bind [same_rules]:
  assumes "same I m n" and "\<And>a. same I (f a) (g a)"
  shows "same I (io_bind m f) (io_bind n g)"
  unfolding same_def
proof (intro allI impI)
  fix w assume w: "I w"
  obtain r w' where r: "m w = (r, w')" by (rule prod.exhaust)
  note n = sameD [OF assms(1) w r]
  show "io_bind m f w = io_bind n g w \<and> I (snd (io_bind m f w))"
  proof (cases r)
    case (Inl e)
    with r n show ?thesis by (simp add: io_bind_def)
  next
    case (Inr a)
    have "f a w' = g a w'" "I (snd (g a w'))" using assms(2) [of a] n unfolding same_def by metis+
    with Inr r n show ?thesis by (simp add: io_bind_def)
  qed
qed

lemma same_then [same_rules]: "same I m n \<Longrightarrow> same I f g \<Longrightarrow> same I (io_then m f) (io_then n g)"
  unfolding io_then_def by (rule same_bind)

lemma same_catch [same_rules]:
  assumes "same I m n" and "\<And>e. same I (f e) (g e)"
  shows "same I (io_catch m f) (io_catch n g)"
  unfolding same_def
proof (intro allI impI)
  fix w assume w: "I w"
  obtain r w' where r: "m w = (r, w')" by (rule prod.exhaust)
  note n = sameD [OF assms(1) w r]
  show "io_catch m f w = io_catch n g w \<and> I (snd (io_catch m f w))"
  proof (cases r)
    case (Inl e)
    have "f e w' = g e w'" "I (snd (g e w'))" using assms(2) [of e] n unfolding same_def by metis+
    with Inl r n show ?thesis by (simp add: io_catch_def)
  next
    case (Inr a)
    with r n show ?thesis by (simp add: io_catch_def)
  qed
qed

lemma same_finally [same_rules]:
  assumes "same I m n" and "same I f g"
  shows "same I (io_finally m f) (io_finally n g)"
  unfolding same_def
proof (intro allI impI)
  fix w assume w: "I w"
  obtain r w' where r: "m w = (r, w')" by (rule prod.exhaust)
  note n = sameD [OF assms(1) w r]
  obtain x w'' where x: "f w' = (x, w'')" by (rule prod.exhaust)
  with r n sameD [OF assms(2) conjunct2 [OF n] x] show "io_finally m f w = io_finally n g w \<and> I (snd (io_finally m f w))"
    by (cases x) (simp_all add: io_finally_def)
qed

lemma same_if [same_rules]: "(b \<Longrightarrow> same I m n) \<Longrightarrow> (\<not> b \<Longrightarrow> same I f g) \<Longrightarrow> same I (if b then m else f) (if b then n else g)"
  by simp

section \<open>Services\<close>

text \<open>Services that keep a predicate on their own state.\<close>

definition keeps :: "('s \<Rightarrow> bool) \<Rightarrow> ('s, js_error, 'a) eio \<Rightarrow> bool" where
  "keeps P m \<longleftrightarrow> (\<forall>s. P s \<longrightarrow> P (snd (m s)))"

definition calls_keep :: "('s \<Rightarrow> bool) \<Rightarrow> 's services \<Rightarrow> bool" where
  "calls_keep P S \<longleftrightarrow>
     keeps P (total_io (sv_now S)) \<and> keeps P (total_io (sv_uuid S)) \<and> (\<forall>n. keeps P (total_io (sv_random_below S n))) \<and>
     (\<forall>t s. P s \<longrightarrow> P (sv_sleep S t s)) \<and>
     (\<forall>d. keeps P (sv_isDomainBlocked S d)) \<and> (\<forall>d. keeps P (sv_checkDomainRateLimit S d)) \<and>
     (\<forall>d n. keeps P (sv_acquireDomainSlot S d n)) \<and> (\<forall>d. keeps P (sv_releaseDomainSlot S d)) \<and>
     (\<forall>j r. keeps P (sv_moveToDlq S j r)) \<and> (\<forall>j. keeps P (sv_enqueueOutbound S j)) \<and> (\<forall>m. keeps P (sv_ack S m)) \<and>
     (\<forall>a m u b. keeps P (sv_signOne S a m u b)) \<and>
     (\<forall>build i c t. sv_buildSenderHeader S = Some build \<longrightarrow> keeps P (build i c t)) \<and>
     (\<forall>h. keeps P (net_lookup (sv_net S) h)) \<and> keeps P (net_now (sv_net S)) \<and>
     (\<forall>u d q. keeps P (net_request (sv_net S) u d q)) \<and>
     (\<forall>f j g sg. ad_deliverOutbound (sv_adapter S) = Some f \<longrightarrow> keeps P (f j g sg)) \<and>
     (\<forall>f h j. ad_hook (sv_adapter S) = Some f \<longrightarrow> keeps P (f h j))"

definition services_keep :: "('s \<Rightarrow> bool) \<Rightarrow> 's services \<Rightarrow> bool" where
  "services_keep P S \<longleftrightarrow> calls_keep P S \<and> (\<forall>c s. P s \<longrightarrow> P (net_set_cache (sv_net S) c s))"

text \<open>
  An invariant of the world that says of the trace only what the claim and completion events do to it.
\<close>

definition insensitive :: "('s world \<Rightarrow> bool) \<Rightarrow> ('s \<Rightarrow> bool) \<Rightarrow> bool" where
  "insensitive I P \<longleftrightarrow>
     (\<forall>w s. I w \<longrightarrow> (P (srv w) \<longrightarrow> P s) \<longrightarrow> I (w\<lparr>srv := s\<rparr>)) \<and>
     (\<forall>w e. I w \<longrightarrow> (\<forall>r. e \<noteq> EvClaim r) \<longrightarrow> e \<noteq> EvComplete True \<longrightarrow> I (w\<lparr>trace := e # trace w\<rparr>)) \<and>
     (\<forall>w b. I w \<longrightarrow> I (w\<lparr>claimHeld := b\<rparr>)) \<and> (\<forall>w n. I w \<longrightarrow> I (w\<lparr>activeJobs := n\<rparr>))"

lemma maintains_silent:
  assumes "insensitive I P" and "keeps P m"
  shows "maintains I (silent m)"
  unfolding maintains_def
proof (intro allI impI)
  fix w assume "I w"
  moreover have "P (srv w) \<longrightarrow> P (snd (m (srv w)))" using assms(2) by (simp add: keeps_def)
  ultimately show "I (snd (silent m w))"
    using assms(1) by (auto simp: insensitive_def silent_def split: prod.split)
qed

lemma maintains_called:
  assumes "insensitive I P" and "keeps P m" and "\<And>r. (\<forall>c. ev r \<noteq> EvClaim c) \<and> ev r \<noteq> EvComplete True"
  shows "maintains I (called ev m)"
  unfolding maintains_def
proof (intro allI impI)
  fix w assume w: "I w"
  obtain r s where m: "m (srv w) = (r, s)" by (cases "m (srv w)")
  have "P (srv w) \<longrightarrow> P s" using assms(2) m by (auto simp: keeps_def dest: spec [of _ "srv w"])
  with w assms(1) have 1: "I (w\<lparr>srv := s\<rparr>)" by (simp add: insensitive_def)
  have "I x \<longrightarrow> (\<forall>c. e \<noteq> EvClaim c) \<longrightarrow> e \<noteq> EvComplete True \<longrightarrow> I (x\<lparr>trace := e # trace x\<rparr>)" for x e
    using assms(1) unfolding insensitive_def by (elim conjE allE)
  from this [of "w\<lparr>srv := s\<rparr>" "ev r"] 1 assms(3) [of r]
  have "I ((w\<lparr>srv := s\<rparr>)\<lparr>trace := ev r # trace (w\<lparr>srv := s\<rparr>)\<rparr>)" by simp
  then show "I (snd (called ev m w))" by (simp add: called_def m)
qed

lemma calls_keepD:
  assumes "calls_keep P S"
  shows "keeps P (total_io (sv_now S))" "keeps P (total_io (sv_uuid S))" "keeps P (total_io (sv_random_below S n))"
    "keeps P (\<lambda>s. (Inr (), sv_sleep S t s))"
    "keeps P (sv_isDomainBlocked S d)" "keeps P (sv_checkDomainRateLimit S d)"
    "keeps P (sv_acquireDomainSlot S d k)" "keeps P (sv_releaseDomainSlot S d)"
    "keeps P (sv_moveToDlq S j r)" "keeps P (sv_enqueueOutbound S j)" "keeps P (sv_ack S m)" "keeps P (sv_signOne S a me u b)"
    "sv_buildSenderHeader S = Some build \<Longrightarrow> keeps P (build i c g)"
    "keeps P (net_lookup (sv_net S) h)" "keeps P (net_now (sv_net S))"
    "keeps P (net_request (sv_net S) ur td q)"
    "ad_deliverOutbound (sv_adapter S) = Some f \<Longrightarrow> keeps P (f j gu sg)"
    "ad_hook (sv_adapter S) = Some fh \<Longrightarrow> keeps P (fh hk j)"
  using assms unfolding calls_keep_def by (simp_all add: keeps_def)

lemma maintains_clock: "insensitive I P \<Longrightarrow> calls_keep P S \<Longrightarrow> maintains I (clock S)"
  unfolding clock_def by (rule maintains_called) (auto intro: calls_keepD)

lemma maintains_held: "insensitive I P \<Longrightarrow> maintains I (set_held b)"
  by (simp add: maintains_def set_held_def insensitive_def)

lemma maintains_active: "insensitive I P \<Longrightarrow> maintains I (add_active d)"
  by (simp add: maintains_def add_active_def insensitive_def)

lemma maintains_assert: "insensitive I P \<Longrightarrow> calls_keep P S \<Longrightarrow> maintains I (assertExternalPostAllowed S C j)"
  unfolding assertExternalPostAllowed_def by (auto intro!: keep_rules maintains_clock simp: Let_def)

lemma maintains_request:
  assumes "insensitive I P" and "services_keep P S"
  shows "maintains I (secureActivityPubRequest (worker_net S) v q (assertExternalPostAllowed S C j))"
proof -
  have ck: "calls_keep P S" using assms(2) by (simp add: services_keep_def)
  have l: "maintains I (defaultLookup (worker_net S) h)" for h
    unfolding defaultLookup_def worker_net_def
    by (auto intro!: keep_rules maintains_silent [OF assms(1)] calls_keepD [OF ck])
  have "maintains I (validateActivityPubTarget p (defaultLookup (worker_net S)) opts v)" for p opts
    unfolding validateActivityPubTarget_def Let_def
    by (auto intro!: keep_rules l split: option.split sum.split)
  moreover have "maintains I (pinned_dispatcher (worker_net S) t)" for t
  proof -
    have n: "maintains I (net_now (worker_net S))"
      unfolding worker_net_def by (auto intro!: maintains_silent [OF assms(1)] calls_keepD [OF ck])
    have set: "I (net_set_cache (worker_net S) c w)" if "I w" for c w
    proof -
      have "P (srv w) \<longrightarrow> P (net_set_cache (sv_net S) c (srv w))" using assms(2) by (simp add: services_keep_def)
      with that assms(1) show ?thesis by (auto simp: insensitive_def worker_net_def)
    qed
    have "maintains I (\<lambda>w. case getPinnedDispatcher t now (net_cache (worker_net S) w) of
        (d, cache) \<Rightarrow> (Inr d, net_set_cache (worker_net S) cache w))" for now
      by (auto simp: maintains_def set split: prod.split)
    with n show ?thesis unfolding pinned_dispatcher_def by (intro keep_rules)
  qed
  moreover have "maintains I (net_request (worker_net S) u d q)" for u d
    unfolding worker_net_def by (auto intro!: maintains_called [OF assms(1)] calls_keepD [OF ck])
  ultimately show ?thesis
    unfolding secureActivityPubRequest_def by (auto intro!: keep_rules maintains_assert [OF assms(1) ck])
qed

section \<open>The same services on another network\<close>

definition on_net :: "('s, http_request, http_response) net \<Rightarrow> 's services \<Rightarrow> 's services" where
  "on_net N S = S\<lparr>sv_net := N\<rparr>"

lemma on_net_simps:
  "sv_now (on_net N S) = sv_now S" "sv_uuid (on_net N S) = sv_uuid S" "sv_random_below (on_net N S) = sv_random_below S"
  "sv_sleep (on_net N S) = sv_sleep S" "sv_claim (on_net N S) = sv_claim S" "sv_complete (on_net N S) = sv_complete S"
  "sv_release (on_net N S) = sv_release S" "sv_isDomainBlocked (on_net N S) = sv_isDomainBlocked S"
  "sv_checkDomainRateLimit (on_net N S) = sv_checkDomainRateLimit S" "sv_acquireDomainSlot (on_net N S) = sv_acquireDomainSlot S"
  "sv_releaseDomainSlot (on_net N S) = sv_releaseDomainSlot S" "sv_moveToDlq (on_net N S) = sv_moveToDlq S"
  "sv_enqueueOutbound (on_net N S) = sv_enqueueOutbound S" "sv_ack (on_net N S) = sv_ack S" "sv_signOne (on_net N S) = sv_signOne S"
  "sv_buildSenderHeader (on_net N S) = sv_buildSenderHeader S" "sv_date_parse (on_net N S) = sv_date_parse S"
  "sv_adapter (on_net N S) = sv_adapter S" "sv_net (on_net N S) = N"
  by (simp_all add: on_net_def)

named_theorems on_net_rules \<open>what does not depend on the network\<close>

lemma on_net_clock [on_net_rules]: "clock (on_net N S) = clock S"
  unfolding clock_def on_net_simps ..

lemma on_net_do_claim [on_net_rules]: "do_claim (on_net N S) C j t = do_claim S C j t"
  unfolding do_claim_def on_net_simps ..

lemma on_net_do_complete [on_net_rules]: "do_complete (on_net N S) C j t = do_complete S C j t"
  unfolding do_complete_def on_net_simps ..

lemma on_net_do_release [on_net_rules]: "do_release (on_net N S) j t = do_release S j t"
  unfolding do_release_def on_net_simps ..

lemma on_net_do_dlq [on_net_rules]: "do_dlq (on_net N S) j r = do_dlq S j r"
  unfolding do_dlq_def on_net_simps ..

lemma on_net_do_enqueue [on_net_rules]: "do_enqueue (on_net N S) j = do_enqueue S j"
  unfolding do_enqueue_def on_net_simps ..

lemma on_net_do_ack [on_net_rules]: "do_ack (on_net N S) m = do_ack S m"
  unfolding do_ack_def on_net_simps ..

lemma on_net_worker_adapter [on_net_rules]: "worker_adapter C (on_net N S) = worker_adapter C S"
  unfolding worker_adapter_def on_net_simps ..

lemma on_net_assertExternalPostAllowed [on_net_rules]: "assertExternalPostAllowed (on_net N S) C j = assertExternalPostAllowed S C j"
  unfolding assertExternalPostAllowed_def on_net_simps on_net_rules ..

lemma on_net_adapter_guard [on_net_rules]: "adapter_guard (on_net N S) C j = adapter_guard S C j"
  unfolding adapter_guard_def on_net_simps on_net_rules ..

lemma on_net_callAdapter [on_net_rules]: "callAdapter (on_net N S) C h j = callAdapter S C h j"
  unfolding callAdapter_def on_net_simps on_net_rules ..

lemma on_net_release_and_forget [on_net_rules]: "release_and_forget (on_net N S) j t = release_and_forget S j t"
  unfolding release_and_forget_def on_net_simps on_net_rules ..

lemma on_net_dlq_and_ack [on_net_rules]: "dlq_and_ack (on_net N S) x r m = dlq_and_ack S x r m"
  unfolding dlq_and_ack_def on_net_simps on_net_rules ..

lemma on_net_deferOrParkJob [on_net_rules]: "deferOrParkJob (on_net N S) C j r d = deferOrParkJob S C j r d"
  unfolding deferOrParkJob_def on_net_simps on_net_rules ..

lemma on_net_delivered [on_net_rules]: "delivered (on_net N S) C m j t x = delivered S C m j t x"
  unfolding delivered_def on_net_simps on_net_rules ..

lemma on_net_permanent_failure [on_net_rules]: "permanent_failure (on_net N S) C m j t x = permanent_failure S C m j t x"
  unfolding permanent_failure_def on_net_simps on_net_rules ..

lemma on_net_transient_failure [on_net_rules]: "transient_failure (on_net N S) C m j t x = transient_failure S C m j t x"
  unfolding transient_failure_def on_net_simps on_net_rules ..

lemma on_net_wait_until_due [on_net_rules]: "wait_until_due (on_net N S) j = wait_until_due S j"
  unfolding wait_until_due_def on_net_simps on_net_rules ..

lemma on_net_release_if_held [on_net_rules]: "release_if_held (on_net N S) j t w = release_if_held S j t w"
  unfolding release_if_held_def on_net_simps on_net_rules ..

lemma on_net_job_failed [on_net_rules]: "job_failed (on_net N S) m j t err = job_failed S m j t err"
  unfolding job_failed_def on_net_simps on_net_rules ..

lemma on_net_sign_for_adapter [on_net_rules]: "sign_for_adapter (on_net N S) a b c d = sign_for_adapter S a b c d"
  unfolding sign_for_adapter_def on_net_simps on_net_rules ..

lemma on_net_sync_header:
  assumes "net_parse N = net_parse (sv_net S)"
  shows "sync_header (on_net N S) C j = sync_header S C j"
  unfolding sync_header_def on_net_simps assms ..

section \<open>Runs on two networks\<close>

text \<open>
  If requests behave alike on two networks, whole runs do.  With the same network twice, this says
  what a run keeps.
\<close>

lemma same_deliver:
  assumes i: "insensitive I P" and k: "calls_keep P S" and parse: "net_parse N = net_parse (sv_net S)"
    and rq: "\<And>q. same I (secureActivityPubRequest (worker_net S) (targetInbox j) q (assertExternalPostAllowed S C j))
      (secureActivityPubRequest (worker_net (on_net N S)) (targetInbox j) q (assertExternalPostAllowed S C j))"
  shows "same I (deliver S C j) (deliver (on_net N S) C j)"
proof -
  note sv = calls_keepD [OF k]
  note silent = maintains_silent [OF i]
  note sync = on_net_sync_header [OF parse]
  have "same I (deliver_signed S C j h) (deliver_signed (on_net N S) C j h)" for h
  proof -
    have "maintains I (sync_header S C j)"
      unfolding sync_header_def by (auto intro!: keep_rules silent sv split: option.split)
    then show ?thesis
      unfolding deliver_signed_def on_net_rules on_net_simps parse sync Let_def
      by (intro same_bind same_then rq same_refl)
         (auto intro!: keep_rules maintains_assert [OF i k] silent sv split: sum.split)
  qed
  moreover have "maintains I (delivery_failure e)" for e :: js_error
    unfolding delivery_failure_def by (cases e) (auto intro!: keep_rules simp: Let_def)
  moreover have "maintains I (called (\<lambda>r. EvAdapter (succeeded r)) (f j (adapter_guard S C j) (sign_for_adapter S)))"
    if "ad_deliverOutbound (worker_adapter C S) = Some f" for f
    using that by (auto intro!: maintains_called [OF i] sv simp: worker_adapter_def NoopFederationRuntimeAdapter_def split: if_splits)
  ultimately show ?thesis
    unfolding deliver_def on_net_rules on_net_simps parse on_net_sign_for_adapter [abs_def]
    by (auto intro!: same_rules same_refl keep_rules silent sv split: option.split bool.split sign_result.split)
qed

lemma same_processJob:
  assumes i: "insensitive I P" and k: "calls_keep P S" and claim: "\<And>t. maintains I (do_claim S C j t)"
    and complete: "\<And>t. maintains I (do_complete S C j t)"
    and parse: "net_parse N = net_parse (sv_net S)"
    and rq: "\<And>q. same I (secureActivityPubRequest (worker_net S) (targetInbox j) q (assertExternalPostAllowed S C j))
      (secureActivityPubRequest (worker_net (on_net N S)) (targetInbox j) q (assertExternalPostAllowed S C j))"
    and release: "\<And>t. keeps P (sv_release S (jobId j) t)"
  shows "same I (processJob S C m j) (processJob (on_net N S) C m j)"
proof -
  note sv = calls_keepD [OF k]
  note silent = maintains_silent [OF i]
  have rel: "maintains I (do_release S j t)" for t
    unfolding do_release_def by (auto intro!: maintains_called [OF i] release)
  have ack: "maintains I (do_ack S m)" and dlq: "\<And>x r. maintains I (do_dlq S x r)" and enq: "\<And>x. maintains I (do_enqueue S x)"
    unfolding do_ack_def do_dlq_def do_enqueue_def by (auto intro!: maintains_called [OF i] sv)
  note held = maintains_held [OF i]
  have hook: "maintains I (callAdapter S C h x)" for h x
  proof -
    have "keeps P (f h x)" if "ad_hook (worker_adapter C S) = Some f" for f
      using that sv by (auto simp: worker_adapter_def NoopFederationRuntimeAdapter_def split: if_splits)
    then show ?thesis unfolding callAdapter_def by (auto intro!: keep_rules silent split: option.split)
  qed
  have forget: "maintains I (release_and_forget S j t)" for t
    unfolding release_and_forget_def by (auto intro!: keep_rules rel held)
  have drop: "maintains I (dlq_and_ack S x r m)" for x r
    unfolding dlq_and_ack_def by (auto intro!: keep_rules dlq ack)
  have later: "maintains I (deferOrParkJob S C j r d)" for r d
    unfolding deferOrParkJob_def Let_def by (auto intro!: keep_rules dlq enq silent sv maintains_clock [OF i k])
  have after: "maintains I (delivered S C m j t x)" "maintains I (permanent_failure S C m j t x)"
      "maintains I (transient_failure S C m j t x)" for t x
    unfolding delivered_def permanent_failure_def transient_failure_def Let_def
    by (auto intro!: keep_rules complete held ack hook forget drop enq maintains_clock [OF i k])
  have "same I (attempt_delivery S C m j t) (attempt_delivery (on_net N S) C m j t)" for t
    unfolding attempt_delivery_def Let_def on_net_rules
    by (intro same_bind same_if same_deliver [OF i k parse rq] same_refl)
       (auto intro!: keep_rules forget drop after maintains_clock [OF i k])
  then have claimed: "same I (claimed_job S C m j t) (claimed_job (on_net N S) C m j t)" for t
    unfolding claimed_job_def on_net_rules on_net_simps
    by (intro same_bind same_if same_finally same_refl)
       (auto intro!: keep_rules maintains_called [OF i] sv forget drop later ack)
  have wait: "maintains I (wait_until_due S j)"
    unfolding wait_until_due_def Let_def
    by (auto intro!: keep_rules maintains_clock [OF i k] silent sv split: jsnum.split)
  have "same I (claim_and_deliver S C m j t) (claim_and_deliver (on_net N S) C m j t)" for t
    unfolding claim_and_deliver_def on_net_rules
    by (auto intro!: keep_rules same_bind same_then same_refl claim ack later held claimed split: claim_result.split)
  then have body: "same I (job_body S C m j now t) (job_body (on_net N S) C m j now t)" for now t
    unfolding job_body_def Let_def on_net_rules
    by (auto intro!: same_bind same_if keep_rules same_refl drop wait split: option.split)
  have "maintains I (release_if_held S j t)" for t
  proof -
    have "maintains I (io_then (io_catch (do_release S j t) (\<lambda>_. io_return ())) (set_held False))"
      by (auto intro!: keep_rules rel held)
    then show ?thesis by (simp add: maintains_def release_if_held_def io_return_def)
  qed
  then have "maintains I (job_failed S m j t e)" for t e
    unfolding job_failed_def Let_def by (auto intro!: keep_rules drop)
  with body show ?thesis
    unfolding processJob_def on_net_rules on_net_simps on_net_job_failed [abs_def]
    by (intro same_bind same_then same_finally same_catch same_refl)
       (auto intro!: maintains_active [OF i] maintains_clock [OF i k] silent sv held)
qed

lemma same_self: "same I m m \<longleftrightarrow> maintains I m"
  by (simp add: same_def maintains_def)

lemma on_own_net: "on_net (sv_net S) S = S"
  by (simp add: on_net_def)

lemma processJob_keeps:
  assumes "insensitive I P" and "services_keep P S" and "\<And>t. maintains I (do_claim S C j t)"
    and "\<And>t. maintains I (do_complete S C j t)" and "\<And>t. keeps P (sv_release S (jobId j) t)"
  shows "maintains I (processJob S C m j)"
proof -
  have "calls_keep P S" using assms(2) by (simp add: services_keep_def)
  moreover have "same I (secureActivityPubRequest (worker_net S) (targetInbox j) q (assertExternalPostAllowed S C j))
      (secureActivityPubRequest (worker_net (on_net (sv_net S) S)) (targetInbox j) q (assertExternalPostAllowed S C j))" for q
    unfolding on_own_net same_self by (rule maintains_request [OF assms(1,2)])
  ultimately have "same I (processJob S C m j) (processJob (on_net (sv_net S) S) C m j)"
    by (intro same_processJob [OF assms(1) _ assms(3,4) refl]) (use assms(5) in auto)
  then show ?thesis unfolding on_own_net same_self .
qed

end
