(* ===== verification/Worker_Egress.thy ===== *)
theory Worker_Egress
  imports Worker_Invariants Egress_Properties
begin

text \<open>
  The outbound worker on top of the egress policy: no run of it reaches an address the policy forbids.
\<close>

section \<open>The guarded network\<close>

text \<open>The same network, with an HTTP client that refuses every connection the policy does not allow.\<close>

definition guarded :: "('s, http_request, http_response) net \<Rightarrow> ('s, http_request, http_response) net" where
  "guarded N = N\<lparr>net_request := \<lambda>u d q. if allowed_connection u d then net_request N u d q else io_throw (OtherError ''refused'')\<rparr>"

lemma worker_net_guarded:
  "worker_net (on_net (guarded (sv_net S)) S) =
     (worker_net S)\<lparr>net_request := \<lambda>u d q. if allowed_connection u d then net_request (worker_net S) u d q
       else called (\<lambda>r. EvPost (succeeded r)) (io_throw (OtherError ''refused''))\<rparr>"
  by (auto simp: worker_net_def guarded_def on_net_def fun_eq_iff)

text \<open>The worker's view of the network meets the contract of the policy if the network does.\<close>

lemma worker_egress_net:
  assumes "egress_net (sv_net S)"
  shows "egress_net (worker_net S)"
proof -
  note e = egress_net.production [OF assms] egress_net.lookup_keeps [OF assms] egress_net.now_keeps [OF assms]
    egress_net.request_keeps [OF assms] egress_net.set_cache [OF assms]
  have s: "net_cache (sv_net S) (srv (snd (silent m w))) = net_cache (sv_net S) (snd (m (srv w)))" for m and w :: "'a world"
    by (simp add: silent_def split: prod.split)
  have c: "net_cache (sv_net S) (srv (snd (called ev m w))) = net_cache (sv_net S) (snd (m (srv w)))" for ev m and w :: "'a world"
    by (simp add: called_def split: prod.split)
  show ?thesis by unfold_locales (simp_all add: worker_net_def s c e)
qed

definition cache_good :: "'s services \<Rightarrow> 's \<Rightarrow> bool" where
  "cache_good S s \<longleftrightarrow> cache_inv (net_cache (sv_net S) s)"

abbreviation world_good :: "'s services \<Rightarrow> 's world \<Rightarrow> bool" where
  "world_good S w \<equiv> cache_good S (srv w)"

text \<open>
  The dispatcher cache is private to the policy's module: reading the clock does not change it, and
  whatever the other calls do (an adapter may use the policy itself), it stays in its invariant.
\<close>

definition cache_private :: "'s services \<Rightarrow> bool" where
  "cache_private S \<longleftrightarrow>
     (\<forall>s. net_cache (sv_net S) (snd (sv_now S s)) = net_cache (sv_net S) s) \<and> calls_keep (cache_good S) S \<and>
     (\<forall>j t n. keeps (cache_good S) (sv_claim S j t n)) \<and> (\<forall>j t n. keeps (cache_good S) (sv_complete S j t n)) \<and>
     (\<forall>j t. keeps (cache_good S) (sv_release S j t))"

lemma assert_cache:
  assumes "\<forall>s. net_cache (sv_net S) (snd (sv_now S s)) = net_cache (sv_net S) s"
  shows "net_cache (worker_net S) (snd (assertExternalPostAllowed S C j w)) = net_cache (worker_net S) w"
  using assms [rule_format, of "srv w"]
  by (cases "sv_now S (srv w)")
     (simp add: assertExternalPostAllowed_def io_bind_def clock_def called_def total_io_def worker_net_def Let_def
        io_throw_def io_return_def)

lemma same_request:
  assumes "egress_net (sv_net S)" and "cache_private S"
  shows "same (world_good S)
    (secureActivityPubRequest (worker_net S) v q (assertExternalPostAllowed S C j))
    (secureActivityPubRequest (worker_net (on_net (guarded (sv_net S)) S)) v q (assertExternalPostAllowed S C j))"
  unfolding same_def
proof (intro allI impI)
  fix w assume w: "world_good S w"
  have g: "cache_inv (net_cache (worker_net S) x) \<longleftrightarrow> world_good S x" for x by (simp add: worker_net_def cache_good_def)
  have keep: "net_cache (worker_net S) (snd (assertExternalPostAllowed S C j x)) = net_cache (worker_net S) x" for x
    by (rule assert_cache) (use assms(2) in \<open>simp add: cache_private_def\<close>)
  have "cache_inv (net_cache (worker_net S) w)" using w by (simp only: g)
  from egress_net.request_guarded [OF worker_egress_net [OF assms(1)] this keep, where other =
      "\<lambda>u d q. called (\<lambda>r. EvPost (succeeded r)) (io_throw (OtherError ''refused''))" and v = v and q = q]
  show "secureActivityPubRequest (worker_net S) v q (assertExternalPostAllowed S C j) w =
      secureActivityPubRequest (worker_net (on_net (guarded (sv_net S)) S)) v q (assertExternalPostAllowed S C j) w \<and>
      world_good S (snd (secureActivityPubRequest (worker_net S) v q (assertExternalPostAllowed S C j) w))"
    unfolding worker_net_guarded g .
qed

text \<open>C20: In production the worker never talks to an address the egress policy forbids: with an HTTP client
  that refuses every connection other than TLS to a public address, without credentials or fragment,
  every run on every job does exactly the same, call by call; and it leaves the dispatcher cache in
  its invariant.  (The delivery of an enabled runtime adapter is the adapter's own.)\<close>
theorem worker_posts_public_only:
  assumes "egress_net (sv_net S)" and "cache_private S" and "cache_inv (net_cache (sv_net S) (srv w))"
  shows "processJob S C messageId j w = processJob (on_net (guarded (sv_net S)) S) C messageId j w \<and>
    cache_inv (net_cache (sv_net S) (srv (snd (processJob S C messageId j w))))"
proof -
  have i: "insensitive (world_good S) (cache_good S)" by (simp add: insensitive_def)
  have keep: "maintains (world_good S) (called ev x)" if "keeps (cache_good S) x" for ev and x :: "('a, js_error, 'b) eio"
    using that by (auto simp: maintains_def called_def keeps_def split: prod.split; metis snd_conv)
  have "same (world_good S) (processJob S C messageId j) (processJob (on_net (guarded (sv_net S)) S) C messageId j)"
    by (rule same_processJob [OF i])
       (use assms(2) same_request [OF assms(1,2)] in
         \<open>auto simp: cache_private_def do_claim_def do_complete_def guarded_def intro!: keep\<close>)
  with assms(3) show ?thesis unfolding same_def cache_good_def by blast
qed

lemma sample_egress_net: "egress_net (sv_net (sample_services status b))"
  by unfold_locales (simp_all add: sample_services_def sample_services_at_def production_env_def io_return_def)

interpretation worker_sample: egress_net "worker_net (sample_services 202 False)"
  by (rule worker_egress_net [OF sample_egress_net])

theorem worker_posts_public_only_witness:
  "processJob (sample_services 202 False) outbound_config ''1-0'' outbound_sample sample_world =
     processJob (on_net (guarded (sv_net (sample_services 202 False))) (sample_services 202 False)) outbound_config ''1-0'' outbound_sample sample_world
   \<and> EvPost True \<in> set (trace (snd (processJob (sample_services 202 False) outbound_config ''1-0'' outbound_sample sample_world)))"
proof -
  have "cache_private (sample_services 202 False)"
    by (simp add: cache_private_def calls_keep_def keeps_def sample_services_def sample_services_at_def total_io_def
        io_return_def NoopFederationRuntimeAdapter_def)
  moreover have "cache_inv (net_cache (sv_net (sample_services 202 False)) (srv sample_world))"
    by (simp add: sample_services_def sample_services_at_def sample_world_def cache_inv_def)
  ultimately show ?thesis
    using worker_posts_public_only [OF sample_egress_net, of 202 False sample_world outbound_config "''1-0''" outbound_sample]
      run_202 by (simp add: sample_run_def)
qed

end
