(* ===== verification/Deployment.thy ===== *)
theory Deployment
  imports Worker_Invariants Delivery_Claims
begin

text \<open>
  The outbound worker on top of the Redis claim store: many jobs, any number of workers and restarts,
  time passing between the runs.
\<close>

section \<open>A deployment\<close>

text \<open>Runs of the worker on jobs, one after the other, with time passing between them.\<close>

datatype deployment_step = RunJob worker_config string OutboundJob | Wait nat

fun step_time :: "deployment_step \<Rightarrow> nat" where
  "step_time (Wait d) = d"
| "step_time (RunJob _ _ _) = 0"

definition run_job :: "'s services \<Rightarrow> worker_config \<Rightarrow> string \<Rightarrow> OutboundJob \<Rightarrow> 's \<Rightarrow> delivery_event list \<times> 's" where
  "run_job S C m j s =
     (let w = snd (processJob S C m j \<lparr>srv = s, trace = [], activeJobs = 0, claimHeld = False\<rparr>) in (trace w, srv w))"

fun deploy :: "'s services \<Rightarrow> (nat \<Rightarrow> 's \<Rightarrow> 's) \<Rightarrow> deployment_step list \<Rightarrow> 's \<Rightarrow> (deployment_step \<times> delivery_event list) list \<times> 's" where
  "deploy S pass [] s = ([], s)"
| "deploy S pass (RunJob C m j # xs) s =
     (case run_job S C m j s of (es, s1) \<Rightarrow> (case deploy S pass xs s1 of (tr, s2) \<Rightarrow> ((RunJob C m j, es) # tr, s2)))"
| "deploy S pass (Wait d # xs) s =
     (case deploy S pass xs (pass d s) of (tr, s2) \<Rightarrow> ((Wait d, []) # tr, s2))"

definition plain_jobs :: "deployment_step list \<Rightarrow> bool" where
  "plain_jobs xs \<longleftrightarrow> list_all (\<lambda>x. case x of RunJob C m j \<Rightarrow> plain_job_id (jobId j) | Wait d \<Rightarrow> True) xs"

definition waited :: "deployment_step list \<Rightarrow> nat" where
  "waited xs = sum_list (map step_time xs)"

lemma deployed_runs:
  "(RunJob C m j, es) \<in> set (fst (deploy S pass xs s)) \<Longrightarrow> \<exists>s0. es = fst (run_job S C m j s0)"
proof (induction xs arbitrary: s)
  case (Cons x xs)
  show ?case
  proof (cases x)
    case (Wait d)
    with Cons.prems have "(RunJob C m j, es) \<in> set (fst (deploy S pass xs (pass d s)))" by (auto split: prod.splits)
    then show ?thesis by (rule Cons.IH)
  next
    case (RunJob C' m' j')
    with Cons.prems consider "C' = C" "m' = m" "j' = j" "es = fst (run_job S C' m' j' s)"
      | "(RunJob C m j, es) \<in> set (fst (deploy S pass xs (snd (run_job S C' m' j' s))))"
      by (auto split: prod.splits)
    then show ?thesis using Cons.IH by cases blast+
  qed
qed simp

text \<open>
  What the worker relies on: \<open>fin r j s\<close>, the delivery of \<open>j\<close> is on record and stays so for \<open>r\<close> more
  milliseconds.  A claim on a recorded delivery is never granted, a completion that resolves records
  the delivery, and nothing takes a record away but time.
\<close>

locale delivery_services =
  fixes S :: "'s services" and pass :: "nat \<Rightarrow> 's \<Rightarrow> 's" and fin :: "nat \<Rightarrow> string \<Rightarrow> 's \<Rightarrow> bool" and retention :: nat
  assumes fin_mono: "fin r i s \<Longrightarrow> r' \<le> r \<Longrightarrow> fin r' i s"
    and pass_fin: "fin r i (pass d s) = fin (r + d) i s"
    and others_keep: "r < retention \<Longrightarrow> services_keep (fin r i) S"
    and claim_keeps: "plain_job_id i \<Longrightarrow> plain_job_id j \<Longrightarrow> r < retention \<Longrightarrow> keeps (fin r i) (sv_claim S j t n)"
    and complete_keeps: "plain_job_id i \<Longrightarrow> plain_job_id j \<Longrightarrow> r < retention \<Longrightarrow> keeps (fin r i) (sv_complete S j t n)"
    and release_keeps: "keeps (fin r i) (sv_release S j t)"
    and claim_fin: "plain_job_id j \<Longrightarrow> fin 0 j s \<Longrightarrow> fst (sv_claim S j t n s) \<noteq> Inr Claimed"
    and complete_fin: "plain_job_id j \<Longrightarrow> r < retention \<Longrightarrow> fst (sv_complete S j t n s) = Inr () \<Longrightarrow>
      fin r j (snd (sv_complete S j t n s))"
begin

lemma run_keeps_fin:
  assumes "plain_job_id i" and "plain_job_id (jobId j)" and "r < retention" and "fin r i s"
  shows "fin r i (snd (run_job S C m j s))"
proof -
  have i: "insensitive (\<lambda>w. fin r i (srv w)) (fin r i)" by (simp add: insensitive_def)
  have c: "maintains (\<lambda>w. fin r i (srv w)) (called ev x)" if "keeps (fin r i) x" for ev and x :: "('s, js_error, 'b) eio"
    using that by (auto simp: maintains_def called_def keeps_def split: prod.split; metis snd_conv)
  have "maintains (\<lambda>w. fin r i (srv w)) (processJob S C m j)"
    by (rule processJob_keeps [OF i others_keep [OF assms(3)]])
       (auto simp: do_claim_def do_complete_def intro!: c claim_keeps complete_keeps release_keeps assms)
  then show ?thesis using assms(4) by (simp add: run_job_def maintains_def Let_def)
qed

lemma recorded_run:
  assumes "plain_job_id (jobId j)" and "r < retention" and "EvComplete True \<in> set (fst (run_job S C m j s))"
  shows "fin r (jobId j) (snd (run_job S C m j s))"
proof -
  let ?I = "\<lambda>w. EvComplete True \<in> set (trace w) \<longrightarrow> fin r (jobId j) (srv w)"
  have i: "insensitive ?I (fin r (jobId j))" by (auto simp: insensitive_def)
  have claim: "maintains ?I (do_claim S C j t)" for t
    using claim_keeps [OF assms(1,1,2)]
    by (auto simp: maintains_def do_claim_def called_def keeps_def split: prod.split; metis snd_conv)
  have complete: "maintains ?I (do_complete S C j t)" for t
    unfolding maintains_def
  proof (intro allI impI)
    fix w :: "'s world" assume w: "EvComplete True \<in> set (trace w) \<longrightarrow> fin r (jobId j) (srv w)"
      and e: "EvComplete True \<in> set (trace (snd (do_complete S C j t w)))"
    obtain x s where x: "sv_complete S (jobId j) t (deliveryCompletedTtlMs C) (srv w) = (x, s)" by fastforce
    show "fin r (jobId j) (srv (snd (do_complete S C j t w)))"
    proof (cases x)
      case (Inl err)
      have "fin r (jobId j) (srv w) \<longrightarrow> fin r (jobId j) s"
        using complete_keeps [OF assms(1,1,2), of t "deliveryCompletedTtlMs C"] x by (auto simp: keeps_def dest: spec [of _ "srv w"])
      with w e x Inl show ?thesis by (simp add: do_complete_def called_def)
    next
      case (Inr u)
      with complete_fin [OF assms(1,2), of t "deliveryCompletedTtlMs C" "srv w"] x show ?thesis
        by (simp add: do_complete_def called_def)
    qed
  qed
  have "maintains ?I (processJob S C m j)"
    by (rule processJob_keeps [OF i others_keep [OF assms(2)] claim complete release_keeps])
  then show ?thesis using assms(3) by (simp add: run_job_def maintains_def Let_def)
qed

lemma finished_run:
  assumes "plain_job_id (jobId j)" and "0 < retention" and "fin 0 (jobId j) s"
  shows "EvClaim (Some Claimed) \<notin> set (fst (run_job S C m j s))"
proof -
  let ?I = "\<lambda>w. EvClaim (Some Claimed) \<notin> set (trace w) \<and> fin 0 (jobId j) (srv w)"
  have i: "insensitive ?I (fin 0 (jobId j))" by (auto simp: insensitive_def)
  have claim: "maintains ?I (do_claim S C j t)" for t
    unfolding maintains_def
  proof (intro allI impI)
    fix w :: "'s world" assume w: "EvClaim (Some Claimed) \<notin> set (trace w) \<and> fin 0 (jobId j) (srv w)"
    obtain x s where x: "sv_claim S (jobId j) t (deliveryClaimTtlMs C) (srv w) = (x, s)" by fastforce
    have "fin 0 (jobId j) s"
      using claim_keeps [OF assms(1,1,2), of t "deliveryClaimTtlMs C"] x w by (auto simp: keeps_def dest: spec [of _ "srv w"])
    moreover have "x \<noteq> Inr Claimed"
      using claim_fin [OF assms(1), of "srv w" t "deliveryClaimTtlMs C"] w x by simp
    ultimately show "EvClaim (Some Claimed) \<notin> set (trace (snd (do_claim S C j t w))) \<and> fin 0 (jobId j) (srv (snd (do_claim S C j t w)))"
      using w x by (cases x) (auto simp: do_claim_def called_def)
  qed
  have complete: "maintains ?I (do_complete S C j t)" for t
    using complete_keeps [OF assms(1,1,2)]
    by (auto simp: maintains_def do_complete_def called_def keeps_def split: prod.split; metis snd_conv)
  have "maintains ?I (processJob S C m j)"
    by (rule processJob_keeps [OF i others_keep [OF assms(2)] claim complete release_keeps])
  then show ?thesis using assms(3) by (simp add: run_job_def maintains_def Let_def)
qed

lemma deployed_after_completion:
  assumes "fin r i s" and "r < retention" and "plain_job_id i" and "plain_jobs xs" and "waited xs \<le> r"
    and "(RunJob C m j, es) \<in> set (fst (deploy S pass xs s))" and "jobId j = i"
  shows "EvClaim (Some Claimed) \<notin> set es"
  using assms
proof (induction xs arbitrary: r s)
  case Nil
  then show ?case by simp
next
  case (Cons x xs)
  have pxs: "plain_jobs xs" and le: "step_time x \<le> r" "waited xs \<le> r - step_time x"
    using Cons.prems(4,5) by (auto simp: plain_jobs_def waited_def)
  show ?case
  proof (cases x)
    case (Wait d)
    with le have "fin (r - d) i (pass d s)" using Cons.prems(1) by (simp add: pass_fin)
    from Cons.IH [OF this _ Cons.prems(3) pxs _ _ Cons.prems(7)] Cons.prems(2,6) le Wait show ?thesis
      by (auto split: prod.splits)
  next
    case (RunJob C' m' j')
    have p: "plain_job_id (jobId j')" using Cons.prems(4) RunJob by (simp add: plain_jobs_def)
    have f: "fin r i (snd (run_job S C' m' j' s))" using run_keeps_fin [OF Cons.prems(3) p Cons.prems(2,1)] .
    have now: "fin 0 i s" using fin_mono [OF Cons.prems(1)] by simp
    from Cons.prems(6) RunJob consider
        "C' = C" "m' = m" "j' = j" "es = fst (run_job S C' m' j' s)"
      | "(RunJob C m j, es) \<in> set (fst (deploy S pass xs (snd (run_job S C' m' j' s))))"
      by (auto split: prod.splits)
    then show ?thesis
    proof cases
      case 1
      with finished_run [of j s C m] p now Cons.prems(2,7) show ?thesis by simp
    next
      case 2
      from Cons.IH [OF f Cons.prems(2,3) pxs _ 2 Cons.prems(7)] le RunJob show ?thesis by simp
    qed
  qed
qed

end

section \<open>The Redis claim store\<close>

text \<open>The claim operations of \<open>services\<close> are the scripts of \<open>Delivery_Claims\<close>, run on the first component of the state.\<close>

definition redis_claims :: "'r redis \<Rightarrow> ('r \<times> 'x) services \<Rightarrow> ('r \<times> 'x) services" where
  "redis_claims R S = S\<lparr>
     sv_claim := \<lambda>j t ttl (r, x). (case claim_script R j t ttl r of (answer, r') \<Rightarrow> (Inr answer, (r', x))),
     sv_complete := \<lambda>j t ttl (r, x). (Inr (), (complete_script R j t (Num ttl) r, x)),
     sv_release := \<lambda>j t (r, x). (Inr (), (release_script R j t r, x))\<rparr>"

definition redis_pass :: "'r redis \<Rightarrow> nat \<Rightarrow> 'r \<times> 'x \<Rightarrow> 'r \<times> 'x" where
  "redis_pass R d s = (r_tick R d (fst s), snd s)"

text \<open>The other services may use the same Redis, as long as they do not take completion markers away.\<close>

definition markers_kept :: "('r \<Rightarrow> keyspace) \<Rightarrow> ('r \<times> 'x) services \<Rightarrow> bool" where
  "markers_kept view S \<longleftrightarrow> (\<forall>r i. services_keep (\<lambda>s. job_finished r i (view (fst s))) S)"

lemma services_keep_claims: "services_keep P (redis_claims R S) \<longleftrightarrow> services_keep P S"
  by (simp add: services_keep_def calls_keep_def redis_claims_def)

context redis_server
begin

lemma scripts_store:
  "claim_store (claim_script R) (complete_script R) (release_script R) (r_tick R)
    (\<lambda>r j s. job_finished r j (view s)) (\<lambda>r j t s. job_held r j t (view s))"
  by (rule cs.claim_store_axioms)

end

lemma redis_delivery_services:
  assumes "redis_server R view" and "markers_kept view S"
  shows "delivery_services (redis_claims R S) (redis_pass R) (\<lambda>r i s. job_finished r i (view (fst s)))
    (nat APDM_COMPLETED_DELIVERY_MIN_RETENTION_MS)"
proof -
  have c: "claim_store (claim_script R) (complete_script R) (release_script R) (r_tick R)
      (\<lambda>r j s. job_finished r j (view s)) (\<lambda>r j t s. job_held r j t (view s))"
    by (rule redis_server.scripts_store [OF assms(1)])
  show ?thesis
  proof (unfold_locales, goal_cases)
    case (1 r i s r')
    then show ?case using claim_store.finished_mono [OF c] by blast
  next
    case (2 r i d s)
    then show ?case using claim_store.pass_finished [OF c, of r i d "fst s"] by (simp add: redis_pass_def)
  next
    case (3 r i)
    then show ?case using assms(2) by (simp add: markers_kept_def services_keep_claims)
  next
    case (4 i j r t n)
    then have "job_finished r i (view s) \<Longrightarrow> job_finished r i (view (snd (claim_script R j t n s)))" for s
      using claim_store.claim_keeps_finished [OF c, of j i r] by simp
    then show ?case by (simp add: keeps_def redis_claims_def case_prod_beta)
  next
    case (5 i j r t n)
    then show ?case using claim_store.complete_keeps_finished [OF c, of j i r]
      by (auto simp: keeps_def redis_claims_def split: prod.splits)
  next
    case (6 r i j t)
    then show ?case using claim_store.release_keeps_finished [OF c, of r i]
      by (auto simp: keeps_def redis_claims_def split: prod.splits)
  next
    case (7 j s t n)
    then show ?case using claim_store.claim_finished [OF c, of j "fst s" t n]
      by (auto simp: redis_claims_def split: prod.splits)
  next
    case (8 j r t n s)
    then show ?case using claim_store.complete_finished [OF c, of j r t "Num n" "fst s"]
      by (auto simp: redis_claims_def split: prod.splits)
  qed
qed

text \<open>A run without a granted claim does not post.\<close>

lemma post_needs_claim:
  assumes "e \<in> set (fst (run_job S C m j s))" and "is_post e"
  shows "EvClaim (Some Claimed) \<in> set (fst (run_job S C m j s))"
proof -
  let ?w = "\<lparr>srv = s, trace = [], activeJobs = 0, claimHeld = False\<rparr>"
  have "trace ?w = []" by simp
  then obtain v where f: "follows C j (fst (run_job S C m j s)) v"
    using processJob_trace [of ?w C j S m] by (auto simp: run_job_def Let_def)
  obtain xs ys where t: "fst (run_job S C m j s) = xs @ e # ys" using assms(1) split_list by metis
  obtain u v' where u: "follows C j ys u" "delivery_step C j u e v'" using follows_split f t by metis
  with assms(2) have "claim_of u = Held" by (cases e; simp)
  with follows_claim [OF u(1)] t show ?thesis by auto
qed

section \<open>Sample\<close>

definition deployed_sample :: "(keyspace \<times> dispatcher_cache) services" where
  "deployed_sample = sample_services_at snd (\<lambda>c w. (fst w, c)) 202 False"

lemma deployed_sample_kept: "markers_kept (\<lambda>ks. ks) deployed_sample"
  by (simp add: markers_kept_def services_keep_def calls_keep_def keeps_def deployed_sample_def sample_services_at_def total_io_def
        io_return_def NoopFederationRuntimeAdapter_def)

interpretation deployed: delivery_services "redis_claims ks_server deployed_sample" "redis_pass ks_server"
  "\<lambda>r i s. job_finished r i (fst s)" "nat APDM_COMPLETED_DELIVERY_MIN_RETENTION_MS"
  by (rule redis_delivery_services [OF redis_server_ks_server deployed_sample_kept])


text \<open>A delivery, and the same job yielded again a day later.\<close>

definition deployed_run :: "(deployment_step \<times> delivery_event list) list" where
  "deployed_run = fst (deploy (redis_claims ks_server deployed_sample) (redis_pass ks_server)
     [RunJob outbound_config ''1-0'' outbound_sample] (empty_ks, []))"

lemma deployed_run_posts: "map (\<lambda>x. (EvComplete True \<in> set (snd x), filter is_post (snd x))) deployed_run = [(True, [EvPost True])]"
  by code_simp


end
