(* ===== verification/Outbound_Webhook.thy ===== *)
theory Outbound_Webhook
  imports Outbound_Worker
begin

text \<open>
  \<open>fedify-sidecar/src/delivery/outbound-webhook.ts\<close>: how the targets of an ActivityPods hand-off are
  normalised and deduplicated, and how the hand-off proves which Delivery Plan it belongs to.  The
  same normalisation runs again in the outbox-intent worker.  \<open>new URL(s)\<close> is the parameter \<open>parse\<close>,
  \<open>url.toString()\<close> the parameter \<open>print\<close>.
\<close>

section \<open>Targets\<close>

definition APDM_DELIVERY_PLAN_SCHEMA :: string where "APDM_DELIVERY_PLAN_SCHEMA = ''ap.delivery-plan.v1''"
definition APDM_INTEROP_LEGACY_INTENT_ID :: string where "APDM_INTEROP_LEGACY_INTENT_ID = ''apdm-interop-legacy-fixture''"
definition SIDECAR_INTERNAL_INTENT_PREFIXES :: "string list" where
  "SIDECAR_INTERNAL_INTENT_PREFIXES = [''apdm-observation:'', ''moderation-report:'']"

datatype authority_source = Delivery_plan | Interop_legacy

record outbound_target =
  ot_inboxUrl :: string
  ot_sharedInboxUrl :: "string option"
  ot_deliveryUrl :: string
  ot_targetDomain :: string

record normalized_targets =
  nt_targets :: "outbound_target list"
  nt_inputTargetCount :: nat
  nt_duplicateTargetCount :: nat
  nt_invalidTargetCount :: nat
  nt_apdmAuthority :: "(string \<times> authority_source) option"

record backpressure_config =
  bp_maxPending :: "int option"
  bp_maxQueueDepth :: "int option"
  bp_retryAfterSeconds :: "int option"
  bp_maxTargetsPerRequest :: int

text \<open>\<open>Validation code statusCode message\<close>, or the \<open>TypeError\<close> of \<open>new URL\<close>.\<close>

datatype webhook_error = Validation string int string | InvalidUrl

definition isLoopbackHost :: "string \<Rightarrow> bool" where
  "isLoopbackHost hostname =
     (if hostname = ''localhost'' \<or> hostname = ''::1'' then True
      else isIP hostname = 4 \<and> starts_with hostname ''127.'')"

definition normalizeFederationTargetUrl :: "url_lib \<Rightarrow> (url \<Rightarrow> string) \<Rightarrow> json option \<Rightarrow> string option" where
  "normalizeFederationTargetUrl parse print value =
     (case value of
        Some (JStr v) \<Rightarrow>
          if js_trim v = [] then None
          else (case parse (js_trim v) of
            None \<Rightarrow> None
          | Some u \<Rightarrow>
              if u_username u \<noteq> [] \<or> u_password u \<noteq> [] then None
              else let protocol = js_lower (u_protocol u); hostname = js_lower (u_hostname u)
                   in if protocol \<noteq> ''https:'' \<and> \<not> (protocol = ''http:'' \<and> isLoopbackHost hostname) then None
                      else Some (print (u\<lparr>u_hash := []\<rparr>)))
      | _ \<Rightarrow> None)"

definition url_hostname :: "url_lib \<Rightarrow> string \<Rightarrow> webhook_error + string" where
  "url_hostname parse s = (case parse s of None \<Rightarrow> Inl InvalidUrl | Some u \<Rightarrow> Inr (js_lower (u_hostname u)))"

definition normalizeOutboundTarget ::
  "url_lib \<Rightarrow> (url \<Rightarrow> string) \<Rightarrow> json \<Rightarrow> webhook_error + outbound_target option" where
  "normalizeOutboundTarget parse print rawTarget =
     (case rawTarget of
        JObj fs \<Rightarrow>
          (case normalizeFederationTargetUrl parse print (json_get ''inboxUrl'' rawTarget) of
             None \<Rightarrow> Inr None
           | Some inboxUrl \<Rightarrow>
               (let sharedInboxUrl = normalizeFederationTargetUrl parse print (json_get ''sharedInboxUrl'' rawTarget);
                    deliveryUrl = or_else sharedInboxUrl inboxUrl
                in case url_hostname parse deliveryUrl of
                     Inl e \<Rightarrow> Inl e
                   | Inr host \<Rightarrow>
                       Inr (Some \<lparr>ot_inboxUrl = inboxUrl, ot_sharedInboxUrl = sharedInboxUrl,
                                  ot_deliveryUrl = deliveryUrl, ot_targetDomain = host\<rparr>)))
      | _ \<Rightarrow> Inr None)"

section \<open>Authority\<close>

definition normalizeExactIntentId :: "json option \<Rightarrow> string option" where
  "normalizeExactIntentId value =
     (case value of Some (JStr v) \<Rightarrow> if js_trim v = [] \<or> v \<noteq> js_trim v then None else Some v | _ \<Rightarrow> None)"

definition parseApdmAuthority :: "json \<Rightarrow> (string \<times> authority_source) option" where
  "parseApdmAuthority rawTarget =
     (case json_get ''apdmAuthority'' rawTarget of
        Some (JObj fs) \<Rightarrow>
          if json_get ''schema'' (JObj fs) \<noteq> Some (JStr APDM_DELIVERY_PLAN_SCHEMA) then None
          else map_option (\<lambda>i. (i, Delivery_plan)) (normalizeExactIntentId (json_get ''intentId'' (JObj fs)))
      | _ \<Rightarrow> None)"

definition explicit_non_production :: "(string \<Rightarrow> string option) \<Rightarrow> bool" where
  "explicit_non_production env \<longleftrightarrow> js_lower (js_trim (or_else (env ''NODE_ENV'') [])) \<in> {''test'', ''development''}"

definition parseExplicitInteropAuthority ::
  "url_lib \<Rightarrow> (url \<Rightarrow> string) \<Rightarrow> (string \<Rightarrow> string option) \<Rightarrow> json \<Rightarrow> webhook_error + (string \<times> authority_source) option" where
  "parseExplicitInteropAuthority parse print env rawTarget =
     (if \<not> explicit_non_production env then Inr None
      else case rawTarget of
        JObj fs \<Rightarrow>
          (let sharedInboxUrl = normalizeFederationTargetUrl parse print (json_get ''sharedInboxUrl'' rawTarget);
               inboxUrl = normalizeFederationTargetUrl parse print (json_get ''inboxUrl'' rawTarget)
           in case (case sharedInboxUrl of Some u \<Rightarrow> Some u | None \<Rightarrow> inboxUrl) of
                None \<Rightarrow> Inr None
              | Some deliveryUrl \<Rightarrow>
                  (case url_hostname parse deliveryUrl of
                     Inl e \<Rightarrow> Inl e
                   | Inr hostname \<Rightarrow>
                       (let allowedHosts = filter (\<lambda>v. v \<noteq> [])
                              (map (\<lambda>v. js_lower (js_trim v)) (js_split (CHR '','') (or_else (env ''APDM_INTEROP_PRIVATE_HOSTS'') [])))
                        in if hostname \<notin> set allowedHosts then Inr None
                           else Inr (Some (APDM_INTEROP_LEGACY_INTENT_ID, Interop_legacy)))))
      | _ \<Rightarrow> Inr None)"

definition AUTHORITY_REQUIRED :: webhook_error where
  "AUTHORITY_REQUIRED = Validation ''OUTBOUND_APDM_AUTHORITY_REQUIRED'' 400
     ''Every raw remote target must carry an ap.delivery-plan.v1 APDM authority marker.''"

definition AUTHORITY_MIXED :: webhook_error where
  "AUTHORITY_MIXED = Validation ''OUTBOUND_APDM_AUTHORITY_MIXED'' 400
     ''All raw remote targets in one handoff must carry the same APDM Delivery Plan authority.''"

fun check_authorities ::
  "url_lib \<Rightarrow> (url \<Rightarrow> string) \<Rightarrow> (string \<Rightarrow> string option) \<Rightarrow> json list \<Rightarrow> (string \<times> authority_source) option \<Rightarrow>
   webhook_error + (string \<times> authority_source) option" where
  "check_authorities parse print env [] authority = Inr authority"
| "check_authorities parse print env (rawTarget # rest) authority =
     (case (case parseApdmAuthority rawTarget of Some a \<Rightarrow> Inr (Some a) | None \<Rightarrow> parseExplicitInteropAuthority parse print env rawTarget) of
        Inl e \<Rightarrow> Inl e
      | Inr None \<Rightarrow> Inl AUTHORITY_REQUIRED
      | Inr (Some a) \<Rightarrow>
          (case authority of
             None \<Rightarrow> check_authorities parse print env rest (Some a)
           | Some b \<Rightarrow> if a \<noteq> b then Inl AUTHORITY_MIXED else check_authorities parse print env rest authority))"

section \<open>Normalisation\<close>

definition isWebhookBoundaryConfig :: "backpressure_config \<Rightarrow> bool" where
  "isWebhookBoundaryConfig config \<longleftrightarrow>
     bp_maxPending config \<noteq> None \<and> bp_maxQueueDepth config \<noteq> None \<and> bp_retryAfterSeconds config \<noteq> None"

text \<open>The loop; \<open>deduped\<close> in insertion order.\<close>

fun dedupe_targets ::
  "url_lib \<Rightarrow> (url \<Rightarrow> string) \<Rightarrow> json list \<Rightarrow> outbound_target list \<Rightarrow> nat \<Rightarrow> nat \<Rightarrow>
   webhook_error + (outbound_target list \<times> nat \<times> nat)" where
  "dedupe_targets parse print [] deduped dups invalid = Inr (deduped, dups, invalid)"
| "dedupe_targets parse print (rawTarget # rest) deduped dups invalid =
     (case normalizeOutboundTarget parse print rawTarget of
        Inl e \<Rightarrow> Inl e
      | Inr None \<Rightarrow> dedupe_targets parse print rest deduped dups (Suc invalid)
      | Inr (Some t) \<Rightarrow>
          if ot_deliveryUrl t \<in> ot_deliveryUrl ` set deduped then dedupe_targets parse print rest deduped (Suc dups) invalid
          else dedupe_targets parse print rest (deduped @ [t]) dups invalid)"

definition normalizeAndDedupeOutboundTargets ::
  "url_lib \<Rightarrow> (url \<Rightarrow> string) \<Rightarrow> (string \<Rightarrow> string option) \<Rightarrow> json option \<Rightarrow> backpressure_config \<Rightarrow>
   webhook_error + normalized_targets" where
  "normalizeAndDedupeOutboundTargets parse print env remoteTargets config =
     (case remoteTargets of
        Some (JArr raw) \<Rightarrow>
          if int (length raw) > bp_maxTargetsPerRequest config then
            Inl (Validation ''OUTBOUND_TARGETS_TOO_LARGE'' 413
              (''remoteTargets exceeds the configured maximum of '' @ show_int (bp_maxTargetsPerRequest config) @ ''.''))
          else (case (if isWebhookBoundaryConfig config then check_authorities parse print env raw None else Inr None) of
            Inl e \<Rightarrow> Inl e
          | Inr authority \<Rightarrow>
              (case dedupe_targets parse print raw [] 0 0 of
                 Inl e \<Rightarrow> Inl e
               | Inr (targets, dups, invalid) \<Rightarrow>
                   if raw \<noteq> [] \<and> targets = [] then
                     Inl (Validation ''OUTBOUND_TARGETS_UNUSABLE'' 400 ''remoteTargets did not contain any valid delivery targets.'')
                   else Inr \<lparr>nt_targets = targets, nt_inputTargetCount = length raw, nt_duplicateTargetCount = dups,
                              nt_invalidTargetCount = invalid, nt_apdmAuthority = authority\<rparr>))
      | _ \<Rightarrow> Inl (Validation ''OUTBOUND_TARGETS_INVALID'' 400 ''remoteTargets must be an array.''))"

section \<open>Identity of a hand-off\<close>

definition reserved_intent_id :: "string \<Rightarrow> bool" where
  "reserved_intent_id i \<longleftrightarrow> list_ex (starts_with i) SIDECAR_INTERNAL_INTENT_PREFIXES"

definition INTENT_RESERVED :: webhook_error where
  "INTENT_RESERVED = Validation ''OUTBOUND_APDM_INTENT_RESERVED'' 400
     ''Delivery Plan intentId must not use a sidecar-reserved durable intent namespace.''"

definition validateApdmWebhookIdentity ::
  "normalized_targets \<Rightarrow> json option \<Rightarrow> json option \<Rightarrow> webhook_error + string option" where
  "validateApdmWebhookIdentity normalizedTargets headerIntentIdRaw metaRaw =
     (if map_option snd (nt_apdmAuthority normalizedTargets) = Some Interop_legacy then Inr None
      else case normalizeExactIntentId headerIntentIdRaw of
        None \<Rightarrow> Inl (Validation ''OUTBOUND_APDM_INTENT_HEADER_REQUIRED'' 400
                  ''X-APDM-Intent-Id must contain the authoritative Delivery Plan intentId.'')
      | Some headerIntentId \<Rightarrow>
          (case metaRaw of
             Some (JObj fs) \<Rightarrow>
               if json_get ''deliveryPlanSchema'' (JObj fs) \<noteq> Some (JStr APDM_DELIVERY_PLAN_SCHEMA) then
                 Inl (Validation ''OUTBOUND_APDM_SCHEMA_MISMATCH'' 400 ''meta.deliveryPlanSchema must be ap.delivery-plan.v1.'')
               else (case normalizeExactIntentId (json_get ''deliveryPlanIntentId'' (JObj fs)) of
                 None \<Rightarrow> Inl (Validation ''OUTBOUND_APDM_META_INTENT_REQUIRED'' 400
                   ''meta.deliveryPlanIntentId must contain the authoritative Delivery Plan intentId.'')
               | Some metaIntentId \<Rightarrow>
                   if reserved_intent_id headerIntentId then Inl INTENT_RESERVED
                   else if nt_inputTargetCount normalizedTargets = 0 then
                     (if metaIntentId \<noteq> headerIntentId then Inl (Validation ''OUTBOUND_APDM_INTENT_MISMATCH'' 400
                        ''X-APDM-Intent-Id and meta.deliveryPlanIntentId must match for a zero-target Delivery Plan.'')
                      else Inr (Some headerIntentId))
                   else (case nt_apdmAuthority normalizedTargets of
                     None \<Rightarrow> Inl (Validation ''OUTBOUND_APDM_AUTHORITY_REQUIRED'' 400
                       ''APDM Delivery Plan target authority is required.'')
                   | Some (markerIntentId, _) \<Rightarrow>
                       if reserved_intent_id markerIntentId then Inl INTENT_RESERVED
                       else if headerIntentId \<noteq> markerIntentId \<or> metaIntentId \<noteq> markerIntentId then
                         Inl (Validation ''OUTBOUND_APDM_INTENT_MISMATCH'' 400
                           ''APDM target marker, X-APDM-Intent-Id, and meta.deliveryPlanIntentId must match.'')
                       else Inr (Some markerIntentId)))
           | _ \<Rightarrow> Inl (Validation ''OUTBOUND_APDM_META_REQUIRED'' 400 ''APDM Delivery Plan metadata is required.'')))"

section \<open>Back-pressure\<close>

datatype backpressure = Accept | Reject string "int option"

definition evaluateOutboundWebhookBackpressure :: "int \<Rightarrow> int \<Rightarrow> backpressure_config \<Rightarrow> backpressure" where
  "evaluateOutboundWebhookBackpressure pendingCount streamLength config =
     (let maxPending = or_else (bp_maxPending config) 0; maxQueueDepth = or_else (bp_maxQueueDepth config) 0
      in if maxPending > 0 \<and> pendingCount \<ge> maxPending then Reject ''pending'' (bp_retryAfterSeconds config)
         else if maxQueueDepth > 0 \<and> pendingCount > 0 \<and> streamLength \<ge> maxQueueDepth
         then Reject ''queue_depth'' (bp_retryAfterSeconds config)
         else Accept)"

definition resolveOutboundWebhookBackpressureConfigFromEnv :: "(string \<Rightarrow> string option) \<Rightarrow> backpressure_config" where
  "resolveOutboundWebhookBackpressureConfigFromEnv env =
     \<lparr>bp_maxPending = Some (parsePositiveIntEnv env ''OUTBOUND_WEBHOOK_MAX_PENDING'' 25000),
      bp_maxQueueDepth = Some (parseNonNegativeIntEnv env ''OUTBOUND_WEBHOOK_MAX_QUEUE_DEPTH'' 0),
      bp_retryAfterSeconds = Some (parsePositiveIntEnv env ''OUTBOUND_WEBHOOK_RETRY_AFTER_SECONDS'' 5),
      bp_maxTargetsPerRequest = parsePositiveIntEnv env ''OUTBOUND_WEBHOOK_MAX_TARGETS'' 5000\<rparr>"

end
