(* ===== verification/Delivery_Policy.thy ===== *)
theory Delivery_Policy
  imports Outbound_Webhook
begin

text \<open>
  What an activity looks like when it leaves for one recipient:
  \<open>fedify-sidecar/src/utils/safe-json.ts\<close>, which bounds a JSON value and drops the keys that could reach
  a prototype, and \<open>protocol-bridge/projectors/activitypub/ActivityPubDeliveryPolicy.ts\<close>, which decides per
  target domain how the link previews of a note are shown.
\<close>

section \<open>Safe JSON\<close>

record safe_json_options =
  maxDepth :: nat
  maxNodes :: nat
  maxArrayLength :: nat
  maxObjectKeys :: nat
  maxBytes :: "nat option"

definition default_safe_json :: safe_json_options where
  "default_safe_json = \<lparr>maxDepth = 12, maxNodes = 10000, maxArrayLength = 1000, maxObjectKeys = 1000, maxBytes = None\<rparr>"

datatype safe_json_error =
    SAFE_JSON_INVALID_TYPE
  | SAFE_JSON_TOO_DEEP
  | SAFE_JSON_TOO_LARGE
  | SAFE_JSON_TOO_MANY_NODES
  | SAFE_JSON_TOO_MANY_KEYS
  | SAFE_JSON_ARRAY_TOO_LARGE

definition DANGEROUS_KEYS :: "string set" where
  "DANGEROUS_KEYS = {''__proto__'', ''constructor'', ''prototype''}"

text \<open>
  \<open>walk\<close> on a value that \<open>JSON.parse\<close> built, with the number of nodes visited so far; no object occurs
  twice in such a value, so the check for cycles never fires, and its numbers are taken to be finite (a
  literal beyond the range of a double, which the code rejects, is outside the model).
\<close>

fun walk :: "safe_json_options \<Rightarrow> nat \<Rightarrow> json \<Rightarrow> nat \<Rightarrow> safe_json_error + (json \<times> nat)"
  and walk_items :: "safe_json_options \<Rightarrow> nat \<Rightarrow> json list \<Rightarrow> nat \<Rightarrow> safe_json_error + (json list \<times> nat)"
  and walk_entries :: "safe_json_options \<Rightarrow> nat \<Rightarrow> (string \<times> json) list \<Rightarrow> nat \<Rightarrow> safe_json_error + ((string \<times> json) list \<times> nat)" where
  "walk opts depth input visited =
     (if Suc visited > maxNodes opts then Inl SAFE_JSON_TOO_MANY_NODES
      else if depth > maxDepth opts then Inl SAFE_JSON_TOO_DEEP
      else case input of
        JArr xs \<Rightarrow>
          if length xs > maxArrayLength opts then Inl SAFE_JSON_ARRAY_TOO_LARGE
          else (case walk_items opts (Suc depth) xs (Suc visited) of Inl e \<Rightarrow> Inl e | Inr (ys, n) \<Rightarrow> Inr (JArr ys, n))
      | JObj kvs \<Rightarrow>
          if length kvs > maxObjectKeys opts then Inl SAFE_JSON_TOO_MANY_KEYS
          else (case walk_entries opts (Suc depth) kvs (Suc visited) of Inl e \<Rightarrow> Inl e | Inr (es, n) \<Rightarrow> Inr (JObj es, n))
      | j \<Rightarrow> Inr (j, Suc visited))"
| "walk_items opts depth [] visited = Inr ([], visited)"
| "walk_items opts depth (x # xs) visited =
     (case walk opts depth x visited of
        Inl e \<Rightarrow> Inl e
      | Inr (y, n) \<Rightarrow> (case walk_items opts depth xs n of Inl e \<Rightarrow> Inl e | Inr (ys, m) \<Rightarrow> Inr (y # ys, m)))"
| "walk_entries opts depth [] visited = Inr ([], visited)"
| "walk_entries opts depth ((k, v) # kvs) visited =
     (if k \<in> DANGEROUS_KEYS then walk_entries opts depth kvs visited
      else case walk opts depth v visited of
        Inl e \<Rightarrow> Inl e
      | Inr (w, n) \<Rightarrow> (case walk_entries opts depth kvs n of Inl e \<Rightarrow> Inl e | Inr (es, m) \<Rightarrow> Inr ((k, w) # es, m)))"

declare walk.simps [simp del]

definition sanitizeJsonValue :: "safe_json_options \<Rightarrow> json \<Rightarrow> safe_json_error + json" where
  "sanitizeJsonValue opts value =
     (case walk opts 0 value 0 of
        Inl e \<Rightarrow> Inl e
      | Inr (sanitized, _) \<Rightarrow>
          (case maxBytes opts of
             None \<Rightarrow> Inr sanitized
           | Some n \<Rightarrow> if length (json_stringify sanitized) > n then Inl SAFE_JSON_TOO_LARGE else Inr sanitized))"

definition sanitizeJsonObject :: "safe_json_options \<Rightarrow> json \<Rightarrow> safe_json_error + json" where
  "sanitizeJsonObject opts value =
     (case sanitizeJsonValue opts value of
        Inl e \<Rightarrow> Inl e
      | Inr (JObj kvs) \<Rightarrow> Inr (JObj kvs)
      | Inr _ \<Rightarrow> Inl SAFE_JSON_INVALID_TYPE)"

section \<open>Preview modes\<close>

datatype preview_mode = Disabled | Attachment_only | Attachment_and_preview

definition normalizeActivityPubNoteLinkPreviewMode :: "string option \<Rightarrow> preview_mode" where
  "normalizeActivityPubNoteLinkPreviewMode value =
     (let v = js_lower (js_trim (or_else value []))
      in if v \<in> {[], ''attachment_only'', ''attachment-only'', ''mastodon_safe'', ''mastodon-safe''} then Attachment_only
         else if v \<in> {''attachment_and_preview'', ''attachment-and-preview'', ''rich''} then Attachment_and_preview
         else if v \<in> {''disabled'', ''off'', ''none''} then Disabled
         else Attachment_only)"

record delivery_policy =
  defaultNoteLinkPreviewMode :: preview_mode
  richNoteLinkPreviewDomains :: "string list"
  disabledNoteLinkPreviewDomains :: "string list"

definition DEFAULT_ACTIVITYPUB_OUTBOUND_DELIVERY_POLICY :: delivery_policy where
  "DEFAULT_ACTIVITYPUB_OUTBOUND_DELIVERY_POLICY =
     \<lparr>defaultNoteLinkPreviewMode = Attachment_only, richNoteLinkPreviewDomains = [], disabledNoteLinkPreviewDomains = []\<rparr>"

definition str_includes :: "string \<Rightarrow> string \<Rightarrow> bool" where
  "str_includes s t = list_ex (\<lambda>i. starts_with (drop i s) t) [0..<Suc (length s)]"

definition ends_with :: "string \<Rightarrow> string \<Rightarrow> bool" where
  "ends_with s t = starts_with (rev s) (rev t)"

text \<open>\<open>[...new Set(xs)]\<close>: the first occurrence of each.\<close>

definition unique :: "'a list \<Rightarrow> 'a list" where
  "unique xs = rev (remdups (rev xs))"

definition normalizeDomainRule :: "url_lib \<Rightarrow> string option \<Rightarrow> string option" where
  "normalizeDomainRule parse value =
     (case value of
        None \<Rightarrow> None
      | Some v \<Rightarrow>
          if v = [] then None
          else let trimmed = js_lower (js_trim v)
               in if trimmed = [] then None
                  else (case parse (if str_includes trimmed ''://'' then trimmed else ''https://'' @ trimmed) of
                    None \<Rightarrow> None
                  | Some u \<Rightarrow>
                      if u_username u \<noteq> [] \<or> u_password u \<noteq> [] \<or> u_pathname u \<noteq> ''/'' \<or> u_search u \<noteq> [] \<or> u_hash u \<noteq> [] then None
                      else Some (if u_hostname u \<noteq> [] \<and> last (u_hostname u) = CHR ''.'' then butlast (u_hostname u) else u_hostname u)))"

definition normalizeActivityPubDomainRuleList :: "url_lib \<Rightarrow> string option \<Rightarrow> string list" where
  "normalizeActivityPubDomainRuleList parse value =
     (case value of
        None \<Rightarrow> []
      | Some v \<Rightarrow>
          unique (filter (\<lambda>c. c \<noteq> []) (List.map_filter (\<lambda>t. normalizeDomainRule parse (Some t))
            (js_split (CHR '','') (map (\<lambda>c. if c = CHR 0x0A then CHR '','' else c) v)))))"

definition domainMatchesAny :: "string \<Rightarrow> string list \<Rightarrow> bool" where
  "domainMatchesAny domain rules = list_ex (\<lambda>rule. domain = rule \<or> ends_with domain (''.'' @ rule)) rules"

definition resolveOutboundNoteLinkPreviewMode :: "url_lib \<Rightarrow> string \<Rightarrow> delivery_policy \<Rightarrow> preview_mode" where
  "resolveOutboundNoteLinkPreviewMode parse host policy =
     (case normalizeDomainRule parse (Some host) of
        None \<Rightarrow> defaultNoteLinkPreviewMode policy
      | Some normalizedDomain \<Rightarrow>
          if normalizedDomain = [] then defaultNoteLinkPreviewMode policy
          else if domainMatchesAny normalizedDomain (disabledNoteLinkPreviewDomains policy) then Disabled
          else if domainMatchesAny normalizedDomain (richNoteLinkPreviewDomains policy) then Attachment_and_preview
          else defaultNoteLinkPreviewMode policy)"

section \<open>Preview cards\<close>

fun json_text :: "json option \<Rightarrow> string option" where
  "json_text (Some (JStr s)) = Some s"
| "json_text _ = None"

definition normalizeHttpUrl :: "url_lib \<Rightarrow> (url \<Rightarrow> string) \<Rightarrow> string option \<Rightarrow> string option" where
  "normalizeHttpUrl parse print value =
     (case value of
        None \<Rightarrow> None
      | Some v \<Rightarrow>
          if v = [] then None
          else (case parse v of
            None \<Rightarrow> None
          | Some u \<Rightarrow> if u_protocol u \<noteq> ''http:'' \<and> u_protocol u \<noteq> ''https:'' then None else Some (print u)))"

definition normalizeLinkPreviewTarget :: "url_lib \<Rightarrow> (url \<Rightarrow> string) \<Rightarrow> json \<Rightarrow> string option" where
  "normalizeLinkPreviewTarget parse print value =
     normalizeHttpUrl parse print
       (case json_text (json_get ''href'' value) of Some h \<Rightarrow> Some h | None \<Rightarrow> json_text (json_get ''url'' value))"

definition isMatchingNoteLinkPreviewCard :: "url_lib \<Rightarrow> (url \<Rightarrow> string) \<Rightarrow> string list \<Rightarrow> json \<Rightarrow> bool" where
  "isMatchingNoteLinkPreviewCard parse print previewUrls value \<longleftrightarrow>
     (let t = or_else (json_text (json_get ''type'' value)) []
      in (t = ''Link'' \<or> t = ''Document'') \<and>
         (case json_text (json_get ''mediaType'' value) of Some m \<Rightarrow> m = ''text/html'' | None \<Rightarrow> True) \<and>
         (case normalizeLinkPreviewTarget parse print value of
            None \<Rightarrow> False | Some u \<Rightarrow> u \<noteq> [] \<and> u \<in> set previewUrls) \<and>
         (case json_text (json_get ''name'' value) of Some n \<Rightarrow> js_trim n \<noteq> [] | None \<Rightarrow> False))"

definition buildCardKey :: "url_lib \<Rightarrow> (url \<Rightarrow> string) \<Rightarrow> json \<Rightarrow> string" where
  "buildCardKey parse print crd =
     or_else (json_text (json_get ''type'' crd)) [] @ ''|'' @ or_else (json_text (json_get ''mediaType'' crd)) [] @ ''|''
       @ or_else (normalizeLinkPreviewTarget parse print crd) []"

fun dedupe_cards :: "(json \<Rightarrow> string) \<Rightarrow> string list \<Rightarrow> json list \<Rightarrow> json list" where
  "dedupe_cards key seen [] = []"
| "dedupe_cards key seen (c # cs) =
     (if key c \<in> set seen then dedupe_cards key seen cs else c # dedupe_cards key (key c # seen) cs)"

definition dedupeAttachmentCards :: "url_lib \<Rightarrow> (url \<Rightarrow> string) \<Rightarrow> json list \<Rightarrow> json list" where
  "dedupeAttachmentCards parse print cards = dedupe_cards (buildCardKey parse print) [] cards"

fun toObject :: "json option \<Rightarrow> json option" where
  "toObject (Some (JObj kvs)) = Some (JObj kvs)"
| "toObject _ = None"

definition toObjectArray :: "json option \<Rightarrow> json list" where
  "toObjectArray value =
     List.map_filter (\<lambda>x. toObject (Some x))
       (case value of Some (JArr xs) \<Rightarrow> xs | Some v \<Rightarrow> if json_truthy v then [v] else [] | None \<Rightarrow> [])"

fun json_del :: "string \<Rightarrow> json \<Rightarrow> json" where
  "json_del k (JObj kvs) = JObj (filter (\<lambda>(k', _). k' \<noteq> k) kvs)"
| "json_del k j = j"

definition replaceArrayProperty :: "json \<Rightarrow> string \<Rightarrow> json list \<Rightarrow> json" where
  "replaceArrayProperty obj key values =
     (if values = [] then json_del key obj else json_put key (JArr values) obj)"

definition normalizeHintPreviewUrls :: "url_lib \<Rightarrow> (url \<Rightarrow> string) \<Rightarrow> string list option \<Rightarrow> string list" where
  "normalizeHintPreviewUrls parse print values =
     (case values of
        None \<Rightarrow> []
      | Some vs \<Rightarrow> unique (filter (\<lambda>u. u \<noteq> []) (List.map_filter (\<lambda>v. normalizeHttpUrl parse print (Some v)) vs)))"

section \<open>The policy\<close>

text \<open>The note: the object of the activity, or the activity itself.  It is updated in place.\<close>

definition resolveNoteObject :: "json \<Rightarrow> (json \<times> (json \<Rightarrow> json)) option" where
  "resolveNoteObject act =
     (case toObject (json_get ''object'' act) of
        Some obj \<Rightarrow>
          if json_get ''type'' obj = Some (JStr ''Note'') then Some (obj, \<lambda>n. json_put ''object'' n act)
          else if json_get ''type'' act = Some (JStr ''Note'') then Some (act, \<lambda>n. n) else None
      | None \<Rightarrow> if json_get ''type'' act = Some (JStr ''Note'') then Some (act, \<lambda>n. n) else None)"

definition policy_on_note ::
  "url_lib \<Rightarrow> (url \<Rightarrow> string) \<Rightarrow> string list \<Rightarrow> preview_mode \<Rightarrow> json \<Rightarrow> json" where
  "policy_on_note parse print previewUrls mode note =
     (let matches = isMatchingNoteLinkPreviewCard parse print previewUrls;
          attachmentItems = toObjectArray (json_get ''attachment'' note);
          matchingPreview = (case toObject (json_get ''preview'' note) of
                               None \<Rightarrow> None | Some c \<Rightarrow> if matches c then Some c else None);
          matchingAttachments = filter matches attachmentItems;
          representativeCard = (case matchingPreview of
                                  Some c \<Rightarrow> Some c
                                | None \<Rightarrow> (case matchingAttachments of [] \<Rightarrow> None | c # _ \<Rightarrow> Some c))
      in case representativeCard of
           None \<Rightarrow> note
         | Some crd \<Rightarrow>
             if mode = Disabled then
               (let n = replaceArrayProperty note ''attachment'' (filter (\<lambda>c. \<not> matches c) attachmentItems)
                in if matchingPreview \<noteq> None then json_del ''preview'' n else n)
             else
               (let n = replaceArrayProperty note ''attachment''
                          (dedupeAttachmentCards parse print (attachmentItems @ matchingAttachments @ [crd]))
                in if mode = Attachment_and_preview then json_put ''preview'' crd n
                   else if matchingPreview \<noteq> None then json_del ''preview'' n else n))"

definition applyActivityPubOutboundDeliveryPolicy ::
  "url_lib \<Rightarrow> (url \<Rightarrow> string) \<Rightarrow> json \<Rightarrow> string \<Rightarrow> string list option \<Rightarrow> delivery_policy \<Rightarrow> safe_json_error + json" where
  "applyActivityPubOutboundDeliveryPolicy parse print act host hints policy =
     (let previewUrls = normalizeHintPreviewUrls parse print hints
      in case sanitizeJsonObject default_safe_json act of
           Inl e \<Rightarrow> Inl e
         | Inr sanitized \<Rightarrow>
             if previewUrls = [] then Inr sanitized
             else (case resolveNoteObject sanitized of
                None \<Rightarrow> Inr sanitized
              | Some (note, put_note) \<Rightarrow>
                  Inr (put_note (policy_on_note parse print previewUrls
                    (resolveOutboundNoteLinkPreviewMode parse host policy) note))))"

end
