(* ===== verification/Webhook_Properties.thy ===== *)
theory Webhook_Properties
  imports Outbound_Webhook
begin

text \<open>
  What a normalised hand-off looks like, that normalising it again changes nothing, and what an
  accepted identity means.
\<close>

section \<open>Normal form\<close>

text \<open>A URL a hand-off may carry: over TLS, or to a loopback host; no credentials, no fragment.\<close>

definition federation_url :: "url_lib \<Rightarrow> (url \<Rightarrow> string) \<Rightarrow> string \<Rightarrow> bool" where
  "federation_url parse print s \<longleftrightarrow>
     (\<exists>u. parse s = Some u \<and> print u = s \<and> u_username u = [] \<and> u_password u = [] \<and> u_hash u = [] \<and> js_trim s = s \<and> s \<noteq> [] \<and>
        (js_lower (u_protocol u) = ''https:'' \<or> js_lower (u_protocol u) = ''http:'' \<and> isLoopbackHost (js_lower (u_hostname u))))"

text \<open>A target in normal form.\<close>

definition normal_target :: "url_lib \<Rightarrow> (url \<Rightarrow> string) \<Rightarrow> outbound_target \<Rightarrow> bool" where
  "normal_target parse print t \<longleftrightarrow>
     federation_url parse print (ot_inboxUrl t) \<and> (\<forall>s. ot_sharedInboxUrl t = Some s \<longrightarrow> federation_url parse print s) \<and>
     ot_deliveryUrl t = or_else (ot_sharedInboxUrl t) (ot_inboxUrl t) \<and>
     url_hostname parse (ot_deliveryUrl t) = Inr (ot_targetDomain t)"

text \<open>The JSON of a normalised target, as the intent stores it.\<close>

definition target_json :: "outbound_target \<Rightarrow> json" where
  "target_json t = JObj ([(''inboxUrl'', JStr (ot_inboxUrl t))]
     @ (case ot_sharedInboxUrl t of None \<Rightarrow> [] | Some s \<Rightarrow> [(''sharedInboxUrl'', JStr s)])
     @ [(''deliveryUrl'', JStr (ot_deliveryUrl t)), (''targetDomain'', JStr (ot_targetDomain t))])"

lemma no_hash: "u_hash u = [] \<Longrightarrow> u\<lparr>u_hash := []\<rparr> = u"
  by (cases u) simp

section \<open>The URL library\<close>

text \<open>
  The serialisation of a parsed URL without its fragment parses back to that URL and has no white
  space around it, as the URL standard has it for the special schemes.
\<close>

locale url_library =
  fixes parse :: url_lib and print :: "url \<Rightarrow> string"
  assumes reparse: "parse s = Some u \<Longrightarrow> js_lower (u_protocol u) \<in> {''https:'', ''http:''} \<Longrightarrow>
      parse (print (u\<lparr>u_hash := []\<rparr>)) = Some (u\<lparr>u_hash := []\<rparr>)"
    and printed: "parse s = Some u \<Longrightarrow> js_trim (print (u\<lparr>u_hash := []\<rparr>)) = print (u\<lparr>u_hash := []\<rparr>) \<and> print (u\<lparr>u_hash := []\<rparr>) \<noteq> []"
begin

lemma normalized_url:
  assumes "normalizeFederationTargetUrl parse print v = Some s"
  shows "federation_url parse print s"
proof -
  obtain t u where t: "v = Some (JStr t)" "parse (js_trim t) = Some u" "u_username u = []" "u_password u = []"
    "s = print (u\<lparr>u_hash := []\<rparr>)"
    and p: "js_lower (u_protocol u) = ''https:'' \<or> js_lower (u_protocol u) = ''http:'' \<and> isLoopbackHost (js_lower (u_hostname u))"
    using assms by (auto simp: normalizeFederationTargetUrl_def Let_def split: option.splits json.splits if_splits)
  have "parse s = Some (u\<lparr>u_hash := []\<rparr>)" unfolding t(5) by (rule reparse [OF t(2)]) (use p in auto)
  with printed [OF t(2)] t p show ?thesis unfolding federation_url_def by (intro exI [of _ "u\<lparr>u_hash := []\<rparr>"]) simp
qed

lemma renormalize: "federation_url parse print s \<Longrightarrow> normalizeFederationTargetUrl parse print (Some (JStr s)) = Some s"
  by (auto simp: federation_url_def normalizeFederationTargetUrl_def Let_def no_hash)

lemma federation_hostname: "federation_url parse print s \<Longrightarrow> \<exists>u. parse s = Some u \<and> url_hostname parse s = Inr (js_lower (u_hostname u))"
  by (auto simp: federation_url_def url_hostname_def)

lemma normalized_target:
  "normalizeOutboundTarget parse print raw = Inr (Some t) \<Longrightarrow> normal_target parse print t"
  using normalized_url
  by (auto simp: normalizeOutboundTarget_def normal_target_def Let_def split: json.splits option.splits sum.splits)

lemma normalizing_never_throws: "\<exists>t. normalizeOutboundTarget parse print raw = Inr t"
proof (cases raw)
  case (JObj fs)
  show ?thesis
  proof (cases "normalizeFederationTargetUrl parse print (json_get ''inboxUrl'' raw)")
    case None
    then show ?thesis using JObj by (simp add: normalizeOutboundTarget_def)
  next
    case (Some i)
    have "federation_url parse print (or_else (normalizeFederationTargetUrl parse print (json_get ''sharedInboxUrl'' raw)) i)"
      using normalized_url [OF Some] normalized_url [of "json_get ''sharedInboxUrl'' raw"]
      by (cases "normalizeFederationTargetUrl parse print (json_get ''sharedInboxUrl'' raw)") (auto simp: or_else_def)
    from federation_hostname [OF this] Some JObj show ?thesis
      by (auto simp: normalizeOutboundTarget_def Let_def)
  qed
qed (simp_all add: normalizeOutboundTarget_def)

lemma renormalized_target:
  assumes "normal_target parse print t"
  shows "normalizeOutboundTarget parse print (target_json t) = Inr (Some t)"
proof -
  have "json_get ''inboxUrl'' (target_json t) = Some (JStr (ot_inboxUrl t))" by (simp add: target_json_def)
  moreover have "normalizeFederationTargetUrl parse print (json_get ''sharedInboxUrl'' (target_json t)) = ot_sharedInboxUrl t"
    using assms renormalize
    by (cases "ot_sharedInboxUrl t") (auto simp: target_json_def normal_target_def normalizeFederationTargetUrl_def [of _ _ None])
  moreover have "normalizeFederationTargetUrl parse print (Some (JStr (ot_inboxUrl t))) = Some (ot_inboxUrl t)"
    using assms renormalize by (simp add: normal_target_def)
  moreover obtain fs where "target_json t = JObj fs" by (simp add: target_json_def)
  ultimately show ?thesis
    using assms by (cases t) (simp add: normalizeOutboundTarget_def normal_target_def Let_def)
qed

lemma dedupe_normal:
  assumes "dedupe_targets parse print raw ded d i = Inr (ts, d', i')"
    and "\<forall>t \<in> set ded. normal_target parse print t" and "distinct (map ot_deliveryUrl ded)"
  shows "(\<forall>t \<in> set ts. normal_target parse print t) \<and> distinct (map ot_deliveryUrl ts) \<and>
    length ts + d' + i' = length raw + length ded + d + i"
  using assms
proof (induction raw arbitrary: ded d i)
  case (Cons x xs)
  obtain t where t: "normalizeOutboundTarget parse print x = Inr t" using normalizing_never_throws by blast
  show ?case
  proof (cases t)
    case None
    with Cons t show ?thesis by fastforce
  next
    case (Some t')
    with t normalized_target have n: "normal_target parse print t'" by blast
    show ?thesis
    proof (cases "ot_deliveryUrl t' \<in> ot_deliveryUrl ` set ded")
      case True
      with Cons t Some show ?thesis by fastforce
    next
      case False
      with Cons.prems(1) t Some have "dedupe_targets parse print xs (ded @ [t']) d i = Inr (ts, d', i')" by simp
      from Cons.IH [OF this] n False Cons.prems(2,3) show ?thesis by auto
    qed
  qed
qed simp

lemma dedupe_again:
  assumes "\<forall>t \<in> set ts. normal_target parse print t" and "distinct (map ot_deliveryUrl (ded @ ts))"
  shows "dedupe_targets parse print (map target_json ts) ded d i = Inr (ded @ ts, d, i)"
  using assms
proof (induction ts arbitrary: ded)
  case (Cons t ts)
  then have "dedupe_targets parse print (map target_json ts) (ded @ [t]) d i = Inr ((ded @ [t]) @ ts, d, i)" by simp
  with Cons.prems show ?case by (simp add: renormalized_target)
qed simp

lemma normalized_facts:
  assumes "normalizeAndDedupeOutboundTargets parse print env raw cfg = Inr r"
  shows "(\<forall>t \<in> set (nt_targets r). normal_target parse print t) \<and> distinct (map ot_deliveryUrl (nt_targets r)) \<and>
    length (nt_targets r) + nt_duplicateTargetCount r + nt_invalidTargetCount r = nt_inputTargetCount r \<and>
    (\<exists>xs. raw = Some (JArr xs) \<and> length xs = nt_inputTargetCount r \<and> int (length xs) \<le> bp_maxTargetsPerRequest cfg \<and>
      (xs \<noteq> [] \<longrightarrow> nt_targets r \<noteq> []))"
proof -
  obtain xs ts d i a where x: "raw = Some (JArr xs)" "int (length xs) \<le> bp_maxTargetsPerRequest cfg"
    "dedupe_targets parse print xs [] 0 0 = Inr (ts, d, i)" "xs \<noteq> [] \<longrightarrow> ts \<noteq> []"
    "r = \<lparr>nt_targets = ts, nt_inputTargetCount = length xs, nt_duplicateTargetCount = d, nt_invalidTargetCount = i, nt_apdmAuthority = a\<rparr>"
    using assms by (auto simp: normalizeAndDedupeOutboundTargets_def not_less split: option.splits json.splits if_splits sum.splits)
  from dedupe_normal [OF x(3)] x show ?thesis by simp
qed

end

section \<open>A small library\<close>

text \<open>HTTPS URLs with a path, in normal form, and nothing else.\<close>

definition plain_url_char :: "char \<Rightarrow> bool" where
  "plain_url_char c \<longleftrightarrow> token_char c \<and> c \<noteq> CHR ''+''"

definition mini_parse :: url_lib where
  "mini_parse s =
     (let h = takeWhile (\<lambda>c. c \<noteq> CHR ''/'') (drop 8 s); p = dropWhile (\<lambda>c. c \<noteq> CHR ''/'') (drop 8 s)
      in if starts_with s ''https://'' \<and> h \<noteq> [] \<and> p \<noteq> [] \<and> list_all plain_url_char h \<and> list_all plain_url_char p
         then Some \<lparr>u_protocol = ''https:'', u_username = [], u_password = [], u_hash = [], u_hostname = h, u_host = h,
                    u_origin = ''https://'' @ h, u_pathname = p, u_search = []\<rparr>
         else None)"

definition mini_print :: "url \<Rightarrow> string" where
  "mini_print u = u_protocol u @ ''//'' @ u_host u @ u_pathname u @ u_search u @ u_hash u"

lemma mini_parse_print:
  assumes "mini_parse s = Some u"
  shows "u_hash u = [] \<and> mini_print u = s \<and> js_trim s = s \<and> s \<noteq> []"
proof -
  define h p where hp: "h = takeWhile (\<lambda>c. c \<noteq> CHR ''/'') (drop 8 s)" "p = dropWhile (\<lambda>c. c \<noteq> CHR ''/'') (drop 8 s)"
  have b: "starts_with s ''https://''" "h \<noteq> []" "p \<noteq> []" "list_all plain_url_char h" "list_all plain_url_char p"
    and u: "u = \<lparr>u_protocol = ''https:'', u_username = [], u_password = [], u_hash = [], u_hostname = h, u_host = h,
                    u_origin = ''https://'' @ h, u_pathname = p, u_search = []\<rparr>"
    using assms by (auto simp: mini_parse_def Let_def hp split: if_splits)
  have "s = take 8 s @ drop 8 s" by simp
  moreover have "take 8 s = ''https://''" using b(1) by (simp add: starts_with_def eval_nat_numeral)
  moreover have "drop 8 s = h @ p" by (simp add: hp)
  ultimately have s: "s = ''https://'' @ h @ p" by simp
  have "\<not> js_space c" if "plain_url_char c" for c
    using that by (auto simp: plain_url_char_def token_char_def js_space_def Let_def)
  then have "\<not> js_space (last p)" using b(3,5) by (simp add: list_all_iff)
  moreover obtain q c where "p = q @ [c]" using b(3) by (cases p rule: rev_cases) auto
  moreover have "\<not> js_space (CHR ''h'')" by (simp add: js_space_def)
  ultimately have "js_trim s = s" by (simp add: s js_trim_def)
  then show ?thesis by (simp add: u s mini_print_def)
qed

interpretation mini: url_library mini_parse mini_print
proof
  fix s u assume a: "mini_parse s = Some u"
  note m = mini_parse_print [OF a]
  show "mini_parse (mini_print (u\<lparr>u_hash := []\<rparr>)) = Some (u\<lparr>u_hash := []\<rparr>)"
    "js_trim (mini_print (u\<lparr>u_hash := []\<rparr>)) = mini_print (u\<lparr>u_hash := []\<rparr>) \<and> mini_print (u\<lparr>u_hash := []\<rparr>) \<noteq> []"
    using m a by (simp_all add: no_hash)
qed

section \<open>Authorities\<close>

lemma checked_authorities:
  "check_authorities parse print env raw a = Inr r \<Longrightarrow>
    (raw = [] \<and> r = a) \<or> r \<noteq> None \<and> (a \<noteq> None \<longrightarrow> r = a) \<and>
      (\<forall>x \<in> set raw. parseApdmAuthority x = r \<or> parseApdmAuthority x = None \<and> parseExplicitInteropAuthority parse print env x = Inr r)"
proof (induction raw arbitrary: a)
  case (Cons x xs)
  obtain b where b: "(case parseApdmAuthority x of Some a \<Rightarrow> Inr (Some a) | None \<Rightarrow> parseExplicitInteropAuthority parse print env x)
      = Inr (Some b)" "a = None \<or> a = Some b" "check_authorities parse print env xs (Some b) = Inr r"
    using Cons.prems by (auto split: sum.splits option.splits if_splits)
  have "r = Some b" and "\<forall>y \<in> set xs. parseApdmAuthority y = r \<or> parseApdmAuthority y = None \<and> parseExplicitInteropAuthority parse print env y = Inr r"
    using Cons.IH [OF b(3)] by auto
  with b(1,2) show ?case by (auto split: option.splits)
qed auto

lemma apdm_authority_source: "parseApdmAuthority x = Some (i, src) \<Longrightarrow> src = Delivery_plan"
  by (auto simp: parseApdmAuthority_def split: option.splits json.splits if_splits)

lemma no_interop_in_production:
  "\<not> explicit_non_production env \<Longrightarrow> parseExplicitInteropAuthority parse print env x = Inr None"
  by (simp add: parseExplicitInteropAuthority_def)

lemma exact_intent_id: "normalizeExactIntentId v = Some i \<Longrightarrow> v = Some (JStr i) \<and> i \<noteq> [] \<and> js_trim i = i"
  by (auto simp: normalizeExactIntentId_def split: option.splits json.splits if_splits)

lemma accepted_identity:
  assumes "validateApdmWebhookIdentity r header metadata = Inr res" and "map_option snd (nt_apdmAuthority r) \<noteq> Some Interop_legacy"
  shows "\<exists>i fs. normalizeExactIntentId header = Some i \<and> res = Some i \<and> metadata = Some (JObj fs) \<and> \<not> reserved_intent_id i \<and>
    json_get ''deliveryPlanSchema'' (JObj fs) = Some (JStr APDM_DELIVERY_PLAN_SCHEMA) \<and>
    normalizeExactIntentId (json_get ''deliveryPlanIntentId'' (JObj fs)) = Some i \<and>
    (nt_inputTargetCount r \<noteq> 0 \<longrightarrow> map_option fst (nt_apdmAuthority r) = Some i)"
proof (cases "normalizeExactIntentId header")
  case None
  with assms show ?thesis by (simp add: validateApdmWebhookIdentity_def)
next
  case (Some h)
  with assms obtain fs where fs: "metadata = Some (JObj fs)"
    by (auto simp: validateApdmWebhookIdentity_def split: option.splits json.splits)
  show ?thesis
  proof (cases "normalizeExactIntentId (json_get ''deliveryPlanIntentId'' (JObj fs))")
    case None
    with assms Some fs show ?thesis by (simp add: validateApdmWebhookIdentity_def split: if_splits)
  next
    case (Some m)
    with assms fs \<open>normalizeExactIntentId header = Some h\<close> show ?thesis
      by (auto simp: validateApdmWebhookIdentity_def split: if_splits option.splits)
  qed
qed

section \<open>Properties\<close>

text \<open>A hand-off that is accepted is within the configured size and its targets are in normal form: each is
  delivered to its shared inbox if it has one and to its personal inbox otherwise, every URL is over TLS (or
  to a loopback host), without credentials and without fragment, its domain is that of the delivery URL, no delivery
  URL occurs twice, at least one target is left unless none was given, and every input is counted as a
  target, a duplicate or invalid.\<close>
theorem targets_normalized:
  assumes "url_library parse print" and "normalizeAndDedupeOutboundTargets parse print env raw cfg = Inr r"
  shows "(\<forall>t \<in> set (nt_targets r). normal_target parse print t) \<and> distinct (map ot_deliveryUrl (nt_targets r)) \<and>
    length (nt_targets r) + nt_duplicateTargetCount r + nt_invalidTargetCount r = nt_inputTargetCount r \<and>
    (\<exists>xs. raw = Some (JArr xs) \<and> length xs = nt_inputTargetCount r \<and> int (length xs) \<le> bp_maxTargetsPerRequest cfg \<and>
      (xs \<noteq> [] \<longrightarrow> nt_targets r \<noteq> []))"
  by (rule url_library.normalized_facts [OF assms])

text \<open>Two recipients on one shared inbox, one of them malformed elsewhere, and a target that is no object.\<close>

definition sample_targets :: "json list" where
  "sample_targets =
     [JObj [(''inboxUrl'', JStr ''https://b.example/u/1/inbox''), (''sharedInboxUrl'', JStr '' https://b.example/inbox'')],
      JObj [(''inboxUrl'', JStr ''https://b.example/u/2/inbox''), (''sharedInboxUrl'', JStr ''https://b.example/inbox'')],
      JStr ''https://c.example/inbox'']"

definition plain_config :: "int \<Rightarrow> backpressure_config" where
  "plain_config n = \<lparr>bp_maxPending = None, bp_maxQueueDepth = None, bp_retryAfterSeconds = None, bp_maxTargetsPerRequest = n\<rparr>"

definition sample_normalized :: normalized_targets where
  "sample_normalized = \<lparr>nt_targets = [\<lparr>ot_inboxUrl = ''https://b.example/u/1/inbox'', ot_sharedInboxUrl = Some ''https://b.example/inbox'',
     ot_deliveryUrl = ''https://b.example/inbox'', ot_targetDomain = ''b.example''\<rparr>],
     nt_inputTargetCount = 3, nt_duplicateTargetCount = 1, nt_invalidTargetCount = 1, nt_apdmAuthority = None\<rparr>"

lemma sample_normalizes:
  "normalizeAndDedupeOutboundTargets mini_parse mini_print (\<lambda>_. None) (Some (JArr sample_targets)) (plain_config 5) = Inr sample_normalized"
  by code_simp

theorem targets_normalized_witness:
  "normalizeAndDedupeOutboundTargets mini_parse mini_print (\<lambda>_. None) (Some (JArr sample_targets)) (plain_config 5) = Inr sample_normalized \<and>
   list_all (normal_target mini_parse mini_print) (nt_targets sample_normalized)"
  using targets_normalized [OF mini.url_library_axioms sample_normalizes] sample_normalizes by (simp add: list_all_iff)

text \<open>Normalising is idempotent across components: the targets that the webhook accepted, read back from the
  stored intent by the outbox worker, are normalised to themselves, in the same order, with nothing
  invalid and nothing duplicate, whatever the two environments are.\<close>
theorem renormalizing_changes_nothing:
  assumes "url_library parse print" and "normalizeAndDedupeOutboundTargets parse print env raw cfg = Inr r"
    and "int (length (nt_targets r)) \<le> bp_maxTargetsPerRequest cfg'" and "\<not> isWebhookBoundaryConfig cfg'"
  shows "normalizeAndDedupeOutboundTargets parse print env' (Some (JArr (map target_json (nt_targets r)))) cfg' =
    Inr \<lparr>nt_targets = nt_targets r, nt_inputTargetCount = length (nt_targets r), nt_duplicateTargetCount = 0,
         nt_invalidTargetCount = 0, nt_apdmAuthority = None\<rparr>"
proof -
  note f = url_library.normalized_facts [OF assms(1,2)]
  have "dedupe_targets parse print (map target_json (nt_targets r)) [] 0 0 = Inr ([] @ nt_targets r, 0, 0)"
    by (rule url_library.dedupe_again [OF assms(1)]) (use f in simp_all)
  with assms(3,4) show ?thesis by (simp add: normalizeAndDedupeOutboundTargets_def)
qed

theorem renormalizing_changes_nothing_witness:
  "normalizeAndDedupeOutboundTargets mini_parse mini_print (\<lambda>_. None) (Some (JArr (map target_json (nt_targets sample_normalized)))) (plain_config 1) =
    Inr (sample_normalized\<lparr>nt_inputTargetCount := 1, nt_duplicateTargetCount := 0, nt_invalidTargetCount := 0\<rparr>)"
  using renormalizing_changes_nothing [OF mini.url_library_axioms sample_normalizes, of "plain_config 1" "\<lambda>_. None"]
  by (simp add: sample_normalized_def plain_config_def isWebhookBoundaryConfig_def)

text \<open>C28: In production an accepted hand-off always has an identity: the header, the metadata and the marker of
  every single target name the same Delivery Plan, exactly and in a namespace that is not reserved for
  the sidecar itself; the legacy exception is never taken.\<close>
theorem identity_is_bound:
  assumes "\<not> explicit_non_production env" and "isWebhookBoundaryConfig cfg"
    and "normalizeAndDedupeOutboundTargets parse print env (Some (JArr raw)) cfg = Inr r"
    and "validateApdmWebhookIdentity r header metadata = Inr res"
  shows "\<exists>i. res = Some i \<and> header = Some (JStr i) \<and> i \<noteq> [] \<and> js_trim i = i \<and> \<not> reserved_intent_id i \<and>
    (\<exists>fs. metadata = Some (JObj fs) \<and> json_get ''deliveryPlanSchema'' (JObj fs) = Some (JStr APDM_DELIVERY_PLAN_SCHEMA) \<and>
      json_get ''deliveryPlanIntentId'' (JObj fs) = Some (JStr i)) \<and>
    (\<forall>x \<in> set raw. parseApdmAuthority x = Some (i, Delivery_plan))"
proof -
  obtain a where a: "check_authorities parse print env raw None = Inr a" "nt_apdmAuthority r = a" "nt_inputTargetCount r = length raw"
    using assms(2,3) by (auto simp: normalizeAndDedupeOutboundTargets_def split: if_splits sum.splits)
  have plan: "\<exists>i. a = Some (i, Delivery_plan) \<and> (\<forall>x \<in> set raw. parseApdmAuthority x = Some (i, Delivery_plan))" if "raw \<noteq> []"
  proof -
    have n: "a \<noteq> None" and all: "\<forall>x \<in> set raw. parseApdmAuthority x = a"
      using checked_authorities [OF a(1)] that no_interop_in_production [OF assms(1), of parse print] by fastforce+
    obtain i src where i: "a = Some (i, src)" using n by (cases a) auto
    moreover have "src = Delivery_plan" using that all i apdm_authority_source by (cases raw) auto
    ultimately show ?thesis using all by blast
  qed
  have not_legacy: "map_option snd (nt_apdmAuthority r) \<noteq> Some Interop_legacy"
    using plan a(1,2) by (cases "raw = []") auto
  from accepted_identity [OF assms(4) this] obtain i fs where i: "normalizeExactIntentId header = Some i" "res = Some i"
    "metadata = Some (JObj fs)" "\<not> reserved_intent_id i"
    "json_get ''deliveryPlanSchema'' (JObj fs) = Some (JStr APDM_DELIVERY_PLAN_SCHEMA)"
    "normalizeExactIntentId (json_get ''deliveryPlanIntentId'' (JObj fs)) = Some i"
    "nt_inputTargetCount r \<noteq> 0 \<longrightarrow> map_option fst (nt_apdmAuthority r) = Some i" by blast
  moreover have "\<forall>x \<in> set raw. parseApdmAuthority x = Some (i, Delivery_plan)"
    using plan a(2,3) i(7) by (cases "raw = []") auto
  ultimately show ?thesis using exact_intent_id [OF i(1)] exact_intent_id [OF i(6)] by blast
qed

definition planned_targets :: "json list" where
  "planned_targets =
     [JObj [(''inboxUrl'', JStr ''https://b.example/inbox''),
            (''apdmAuthority'', JObj [(''schema'', JStr ''ap.delivery-plan.v1''), (''intentId'', JStr ''plan-1'')])]]"

theorem identity_is_bound_witness:
  "\<exists>r. normalizeAndDedupeOutboundTargets mini_parse mini_print (\<lambda>_. None) (Some (JArr planned_targets))
      (resolveOutboundWebhookBackpressureConfigFromEnv (\<lambda>_. None)) = Inr r \<and>
    validateApdmWebhookIdentity r (Some (JStr ''plan-1''))
      (Some (JObj [(''deliveryPlanSchema'', JStr ''ap.delivery-plan.v1''), (''deliveryPlanIntentId'', JStr ''plan-1'')])) = Inr (Some ''plan-1'') \<and>
    list_all (\<lambda>x. parseApdmAuthority x = Some (''plan-1'', Delivery_plan)) planned_targets"
proof -
  define r where "r = \<lparr>nt_targets = [\<lparr>ot_inboxUrl = ''https://b.example/inbox'', ot_sharedInboxUrl = None,
     ot_deliveryUrl = ''https://b.example/inbox'', ot_targetDomain = ''b.example''\<rparr>],
     nt_inputTargetCount = 1, nt_duplicateTargetCount = 0, nt_invalidTargetCount = 0, nt_apdmAuthority = Some (''plan-1'', Delivery_plan)\<rparr>"
  have n: "normalizeAndDedupeOutboundTargets mini_parse mini_print (\<lambda>_. None) (Some (JArr planned_targets))
      (resolveOutboundWebhookBackpressureConfigFromEnv (\<lambda>_. None)) = Inr r"
    unfolding r_def by code_simp
  have v: "validateApdmWebhookIdentity r (Some (JStr ''plan-1''))
      (Some (JObj [(''deliveryPlanSchema'', JStr ''ap.delivery-plan.v1''), (''deliveryPlanIntentId'', JStr ''plan-1'')])) = Inr (Some ''plan-1'')"
    unfolding r_def by code_simp
  have p: "\<not> explicit_non_production (\<lambda>_. None)" "isWebhookBoundaryConfig (resolveOutboundWebhookBackpressureConfigFromEnv (\<lambda>_. None))"
    by (simp_all add: explicit_non_production_def or_else_def js_trim_def js_lower_def isWebhookBoundaryConfig_def
        resolveOutboundWebhookBackpressureConfigFromEnv_def)
  from identity_is_bound [OF p n v] n v show ?thesis by (auto simp: list_all_iff)
qed

end
