(* ===== verification/Policy_Properties.thy ===== *)
theory Policy_Properties
  imports Delivery_Policy Webhook_Properties
begin

text \<open>
  Sanitised JSON is the input without the dangerous keys, within all bounds, and a fixed point; the
  delivery policy changes nothing but the link previews, and those as configured.
\<close>

section \<open>Safe JSON\<close>

text \<open>The value without the dangerous keys, at any depth.\<close>

fun strip :: "json \<Rightarrow> json" where
  "strip (JArr xs) = JArr (map strip xs)"
| "strip (JObj kvs) = JObj (map (\<lambda>(k, v). (k, strip v)) (filter (\<lambda>(k, _). k \<notin> DANGEROUS_KEYS) kvs))"
| "strip j = j"

fun safe_json :: "safe_json_options \<Rightarrow> nat \<Rightarrow> json \<Rightarrow> bool" where
  "safe_json opts d (JArr xs) = (d \<le> maxDepth opts \<and> length xs \<le> maxArrayLength opts \<and> list_all (safe_json opts (Suc d)) xs)"
| "safe_json opts d (JObj kvs) = (d \<le> maxDepth opts \<and> length kvs \<le> maxObjectKeys opts \<and>
     list_all (\<lambda>(k, v). k \<notin> DANGEROUS_KEYS \<and> safe_json opts (Suc d) v) kvs)"
| "safe_json opts d j = (d \<le> maxDepth opts)"

fun json_nodes :: "json \<Rightarrow> nat" where
  "json_nodes (JArr xs) = Suc (sum_list (map json_nodes xs))"
| "json_nodes (JObj kvs) = Suc (sum_list (map (\<lambda>(_, v). json_nodes v) kvs))"
| "json_nodes j = 1"

lemma json_nodes_pos: "0 < json_nodes j"
  by (cases j) auto

lemma walk_result:
  shows "walk opts d j n = Inr (r, n') \<Longrightarrow> r = strip j \<and> safe_json opts d r \<and> n' = n + json_nodes r \<and> n' \<le> maxNodes opts"
    and "walk_items opts d xs n = Inr (ys, m') \<Longrightarrow> n \<le> maxNodes opts \<Longrightarrow> ys = map strip xs \<and> list_all (safe_json opts d) ys \<and>
      m' = n + sum_list (map json_nodes ys) \<and> m' \<le> maxNodes opts"
    and "walk_entries opts d kvs n = Inr (es, k') \<Longrightarrow> n \<le> maxNodes opts \<Longrightarrow>
      es = map (\<lambda>(k, v). (k, strip v)) (filter (\<lambda>(k, _). k \<notin> DANGEROUS_KEYS) kvs) \<and>
      list_all (\<lambda>(k, v). k \<notin> DANGEROUS_KEYS \<and> safe_json opts d v) es \<and>
      k' = n + sum_list (map (\<lambda>(_, v). json_nodes v) es) \<and> k' \<le> maxNodes opts"
proof (induction opts d j n and opts d xs n and opts d kvs n arbitrary: r n' and ys m' and es k'
    rule: walk_walk_items_walk_entries.induct)
  case (1 opts depth input visited)
  show ?case
  proof (cases input)
    case (JArr xs)
    with 1(3) obtain ys m where w: "walk_items opts (Suc depth) xs (Suc visited) = Inr (ys, m)" "r = JArr ys" "n' = m"
      "\<not> Suc visited > maxNodes opts" "\<not> depth > maxDepth opts" "\<not> length xs > maxArrayLength opts"
      by (auto simp: walk.simps split: if_splits sum.splits)
    from 1(1) [OF w(4,5) JArr w(6) w(1)] w JArr show ?thesis by auto
  next
    case (JObj kvs)
    with 1(3) obtain es m where w: "walk_entries opts (Suc depth) kvs (Suc visited) = Inr (es, m)" "r = JObj es" "n' = m"
      "\<not> Suc visited > maxNodes opts" "\<not> depth > maxDepth opts" "\<not> length kvs > maxObjectKeys opts"
      by (auto simp: walk.simps split: if_splits sum.splits)
    from 1(2) [OF w(4,5) JObj w(6) w(1)] w JObj
    show ?thesis by (auto simp: not_less intro: order_trans [OF length_filter_le])
  qed (use 1(3) in \<open>auto simp: walk.simps split: if_splits\<close>)
next
  case (3 opts depth x xs visited)
  obtain y m zs where w: "walk opts depth x visited = Inr (y, m)" "walk_items opts depth xs m = Inr (zs, m')" "ys = y # zs"
    using 3(3) by (auto split: sum.splits)
  have y: "y = strip x \<and> safe_json opts depth y \<and> m = visited + json_nodes y \<and> m \<le> maxNodes opts" using 3(1) [OF w(1)] .
  from 3(2) [OF w(1) refl w(2)] y w(3) show ?case by (auto simp: add.assoc)
next
  case (5 opts depth k v kvs visited)
  show ?case
  proof (cases "k \<in> DANGEROUS_KEYS")
    case True
    with 5(1) [OF True] 5(4,5) show ?thesis by auto
  next
    case False
    obtain y m zs where w: "walk opts depth v visited = Inr (y, m)" "walk_entries opts depth kvs m = Inr (zs, k')" "es = (k, y) # zs"
      using 5(4) False by (auto split: sum.splits)
    have y: "y = strip v \<and> safe_json opts depth y \<and> m = visited + json_nodes y \<and> m \<le> maxNodes opts" using 5(2) [OF False w(1)] .
    from 5(3) [OF False w(1) refl w(2)] y w(3) False show ?thesis by (auto simp: add.assoc)
  qed
qed auto

lemma walk_fixed:
  shows "safe_json opts d j \<Longrightarrow> n + json_nodes j \<le> maxNodes opts \<Longrightarrow> walk opts d j n = Inr (j, n + json_nodes j)"
    and "list_all (safe_json opts d) xs \<Longrightarrow> n + sum_list (map json_nodes xs) \<le> maxNodes opts \<Longrightarrow>
      walk_items opts d xs n = Inr (xs, n + sum_list (map json_nodes xs))"
    and "list_all (\<lambda>(k, v). k \<notin> DANGEROUS_KEYS \<and> safe_json opts d v) kvs \<Longrightarrow>
      n + sum_list (map (\<lambda>(_, v). json_nodes v) kvs) \<le> maxNodes opts \<Longrightarrow>
      walk_entries opts d kvs n = Inr (kvs, n + sum_list (map (\<lambda>(_, v). json_nodes v) kvs))"
proof (induction opts d j n and opts d xs n and opts d kvs n rule: walk_walk_items_walk_entries.induct)
  case (1 opts depth input visited)
  have "\<not> Suc visited > maxNodes opts" using 1(4) json_nodes_pos [of input] by linarith
  moreover have "\<not> depth > maxDepth opts" using 1(3) by (cases input) auto
  ultimately show ?case using 1 by (cases input) (auto simp: walk.simps)
qed auto

lemma strip_safe: "safe_json opts d j \<Longrightarrow> strip j = j"
proof (induction j arbitrary: d rule: strip.induct)
  case (1 xs)
  then show ?case by (auto simp: list_all_iff intro!: map_idI)
next
  case (2 kvs)
  have safe: "k \<notin> DANGEROUS_KEYS \<and> safe_json opts (Suc d) v" if "(k, v) \<in> set kvs" for k v
    using 2(2) that by (auto simp: list_all_iff)
  then have "filter (\<lambda>(k, _). k \<notin> DANGEROUS_KEYS) kvs = kvs" by (auto intro!: filter_True)
  moreover have "map (\<lambda>(k, v). (k, strip v)) kvs = kvs"
  proof (rule map_idI)
    fix x assume x: "x \<in> set kvs"
    obtain a b where ab: "x = (a, b)" by (cases x)
    have "strip b = b" by (rule 2(1) [of x a b "Suc d"]) (use x ab safe calculation in auto)
    then show "(\<lambda>(k, v). (k, strip v)) x = x" by (simp add: ab)
  qed
  ultimately show ?case by simp
qed auto

text \<open>C31: Sanitising a value of JSON, if it succeeds, gives exactly the value without the keys \<open>__proto__\<close>,
  \<open>constructor\<close> and \<open>prototype\<close> at every depth; the result is within the bounds on depth, nodes, array
  lengths, object sizes and bytes, and sanitising it again, as every further hop does, gives it back.\<close>
theorem sanitized_json_safe:
  assumes "sanitizeJsonValue opts v = Inr j"
  shows "j = strip v \<and> safe_json opts 0 j \<and> json_nodes j \<le> maxNodes opts \<and>
    (\<forall>n. maxBytes opts = Some n \<longrightarrow> length (json_stringify j) \<le> n) \<and> sanitizeJsonValue opts j = Inr j"
proof -
  obtain n where w: "walk opts 0 v 0 = Inr (j, n)"
    using assms by (auto simp: sanitizeJsonValue_def split: sum.splits option.splits if_splits)
  note r = walk_result(1) [OF w]
  have "walk opts 0 j 0 = Inr (j, 0 + json_nodes j)" by (rule walk_fixed(1)) (use r in auto)
  with w r assms show ?thesis by (auto simp: sanitizeJsonValue_def split: option.splits if_splits)
qed

theorem sanitized_json_safe_witness:
  "sanitizeJsonValue default_safe_json (JObj [(''__proto__'', JNull), (''a'', JArr [JObj [(''constructor'', JNum 1), (''b'', JNum 2)]])])
     = Inr (JObj [(''a'', JArr [JObj [(''b'', JNum 2)]])]) \<and>
   sanitizeJsonValue default_safe_json (JObj [(''a'', JArr [JObj [(''b'', JNum 2)]])]) = Inr (JObj [(''a'', JArr [JObj [(''b'', JNum 2)]])])"
proof -
  have "sanitizeJsonValue default_safe_json (JObj [(''__proto__'', JNull), (''a'', JArr [JObj [(''constructor'', JNum 1), (''b'', JNum 2)]])])
     = Inr (JObj [(''a'', JArr [JObj [(''b'', JNum 2)]])])"
    by (simp add: sanitizeJsonValue_def default_safe_json_def walk.simps DANGEROUS_KEYS_def)
  with sanitized_json_safe [OF this] show ?thesis by blast
qed

section \<open>The delivery policy\<close>

lemma json_get_del: "json_get k (json_del k' j) = (if k = k' then None else json_get k j)"
proof (cases j)
  case (JObj kvs)
  have "map_of (filter (\<lambda>(k2, _). k2 \<noteq> k') kvs) k = (if k = k' then None else map_of kvs k)"
    by (induction kvs) auto
  with JObj show ?thesis by simp
qed auto

lemma json_get_put_obj: "json_get k (json_put k' v (JObj kvs)) = (if k = k' then Some v else json_get k (JObj kvs))"
  by (simp add: js_rules)

definition is_obj :: "json \<Rightarrow> bool" where
  "is_obj j \<longleftrightarrow> (\<exists>kvs. j = JObj kvs)"

lemma is_obj_edit [simp]: "is_obj j \<Longrightarrow> is_obj (json_put k v j)" "is_obj j \<Longrightarrow> is_obj (json_del k j)" "is_obj (JObj kvs)"
  by (auto simp: is_obj_def)

lemma json_get_edit:
  "is_obj j \<Longrightarrow> json_get k (json_put k' v j) = (if k = k' then Some v else json_get k j)"
  "json_get k (json_del k' j) = (if k = k' then None else json_get k j)"
  by (auto simp: is_obj_def map_of_json_put_fields json_get_del)

lemma replace_array_get:
  "is_obj j \<Longrightarrow> json_get k (replaceArrayProperty j k' vs) =
    (if k = k' then (if vs = [] then None else Some (JArr vs)) else json_get k j)"
  "is_obj j \<Longrightarrow> is_obj (replaceArrayProperty j k' vs)"
  by (auto simp: replaceArrayProperty_def json_get_edit)

lemma toObject_is_obj: "toObject x = Some j \<longleftrightarrow> x = Some j \<and> is_obj j"
  by (cases x rule: toObject.cases) (auto simp: is_obj_def)

lemma toObject_Some: "toObject (Some x) = (if is_obj x then Some x else None)"
  by (cases x) (auto simp: is_obj_def)

lemma toObjectArray_objs: "\<forall>x \<in> set (toObjectArray v). is_obj x"
  by (auto simp: toObjectArray_def List.map_filter_def toObject_Some)

lemma toObjectArray_written:
  assumes "\<forall>x \<in> set vs. is_obj x"
  shows "toObjectArray (if vs = [] then None else Some (JArr vs)) = vs"
proof -
  have "List.map_filter (\<lambda>x. toObject (Some x)) vs = vs"
    using assms by (induction vs) (auto simp: List.map_filter_simps is_obj_def)
  then show ?thesis by (simp add: toObjectArray_def List.map_filter_simps)
qed

lemma dedupe_cards_keys:
  "set (dedupe_cards key seen cs) \<subseteq> set cs \<and> key ` set cs \<subseteq> key ` set (dedupe_cards key seen cs) \<union> set seen"
  by (induction key seen cs rule: dedupe_cards.induct) auto

text \<open>The cards of a note, and its preview card.\<close>

definition cards_of :: "json \<Rightarrow> json list" where
  "cards_of note = toObjectArray (json_get ''attachment'' note)"

definition preview_of :: "json \<Rightarrow> json option" where
  "preview_of note = toObject (json_get ''preview'' note)"

definition edited_note :: "(json \<Rightarrow> bool) \<Rightarrow> (json \<Rightarrow> string) \<Rightarrow> preview_mode \<Rightarrow> json \<Rightarrow> json \<Rightarrow> bool" where
  "edited_note matches key mode note note' \<longleftrightarrow>
     (\<forall>k. k \<notin> {''attachment'', ''preview''} \<longrightarrow> json_get k note' = json_get k note) \<and>
     (mode = Disabled \<longrightarrow> cards_of note' = filter (\<lambda>c. \<not> matches c) (cards_of note)) \<and>
     (mode \<noteq> Attachment_and_preview \<longrightarrow> (\<forall>c. preview_of note' = Some c \<longrightarrow> \<not> matches c)) \<and>
     (mode \<noteq> Disabled \<longrightarrow> (\<forall>c \<in> set (cards_of note). \<exists>c' \<in> set (cards_of note'). key c' = key c)) \<and>
     (mode = Attachment_and_preview \<longrightarrow> (\<exists>c \<in> set (cards_of note) \<union> set_option (preview_of note). matches c) \<longrightarrow>
        (\<exists>c. preview_of note' = Some c \<and> matches c))"

lemma policy_edits:
  assumes "is_obj note"
  shows "is_obj (policy_on_note parse print urls mode note) \<and>
    edited_note (isMatchingNoteLinkPreviewCard parse print urls) (buildCardKey parse print) mode note
      (policy_on_note parse print urls mode note)"
proof -
  let ?m = "isMatchingNoteLinkPreviewCard parse print urls"
  let ?key = "buildCardKey parse print"
  let ?items = "cards_of note"
  define mp where "mp = (case preview_of note of None \<Rightarrow> None | Some c \<Rightarrow> if ?m c then Some c else None)"
  define rep where "rep = (case mp of Some c \<Rightarrow> Some c | None \<Rightarrow> (case filter ?m ?items of [] \<Rightarrow> None | c # _ \<Rightarrow> Some c))"
  have def: "policy_on_note parse print urls mode note =
      (case rep of None \<Rightarrow> note
       | Some crd \<Rightarrow>
           if mode = Disabled then
             (let n = replaceArrayProperty note ''attachment'' (filter (\<lambda>c. \<not> ?m c) ?items)
              in if mp \<noteq> None then json_del ''preview'' n else n)
           else
             (let n = replaceArrayProperty note ''attachment'' (dedupeAttachmentCards parse print (?items @ filter ?m ?items @ [crd]))
              in if mode = Attachment_and_preview then json_put ''preview'' crd n
                 else if mp \<noteq> None then json_del ''preview'' n else n))"
    unfolding policy_on_note_def Let_def cards_of_def preview_of_def mp_def rep_def ..
  have items: "\<forall>c \<in> set ?items. is_obj c" by (simp add: cards_of_def toObjectArray_objs)
  have mp_none: "mp = None \<longleftrightarrow> (\<forall>c. preview_of note = Some c \<longrightarrow> \<not> ?m c)" by (auto simp: mp_def split: option.splits)
  show ?thesis
  proof (cases rep)
    case None
    then have "mp = None" "filter ?m ?items = []" by (auto simp: rep_def split: option.splits list.splits)
    then have "\<forall>c \<in> set ?items. \<not> ?m c" by (auto simp: filter_empty_conv)
    moreover from this have "filter (\<lambda>c. \<not> ?m c) ?items = ?items" by simp
    ultimately show ?thesis using None assms \<open>mp = None\<close> mp_none by (auto simp: def edited_note_def)
  next
    case (Some crd)
    have crd: "?m crd" "is_obj crd"
    proof -
      have "mp = Some crd \<or> crd \<in> set (filter ?m ?items)"
      proof (cases mp)
        case None
        with Some obtain cs where "filter ?m ?items = crd # cs" by (auto simp: rep_def split: list.splits)
        then show ?thesis by (metis list.set_intros(1))
      qed (use Some in \<open>simp add: rep_def\<close>)
      then show "?m crd" "is_obj crd"
        using items by (auto simp: mp_def preview_of_def toObject_is_obj split: option.splits if_splits)
    qed
    show ?thesis
    proof (cases "mode = Disabled")
      case True
      let ?n = "replaceArrayProperty note ''attachment'' (filter (\<lambda>c. \<not> ?m c) ?items)"
      have r: "policy_on_note parse print urls mode note = (if mp \<noteq> None then json_del ''preview'' ?n else ?n)"
        unfolding def using Some True by (simp add: Let_def)
      have "cards_of (policy_on_note parse print urls mode note) = filter (\<lambda>c. \<not> ?m c) ?items"
        unfolding r cards_of_def [of "if mp \<noteq> None then _ else _"]
        using toObjectArray_written [of "filter (\<lambda>c. \<not> ?m c) ?items"] items assms
        by (auto simp: json_get_edit replace_array_get)
      moreover have "\<forall>c. preview_of (policy_on_note parse print urls mode note) = Some c \<longrightarrow> \<not> ?m c"
        unfolding r using mp_none assms by (auto simp: preview_of_def json_get_edit replace_array_get toObject_is_obj)
      moreover have "is_obj (policy_on_note parse print urls mode note)"
        unfolding r using assms by (simp add: replace_array_get)
      moreover have "\<forall>k. k \<notin> {''attachment'', ''preview''} \<longrightarrow> json_get k (policy_on_note parse print urls mode note) = json_get k note"
        unfolding r using assms by (auto simp: json_get_edit replace_array_get)
      ultimately show ?thesis using True by (simp add: edited_note_def)
    next
      case False
      let ?cs = "dedupeAttachmentCards parse print (?items @ filter ?m ?items @ [crd])"
      let ?n = "replaceArrayProperty note ''attachment'' ?cs"
      have r: "policy_on_note parse print urls mode note =
          (if mode = Attachment_and_preview then json_put ''preview'' crd ?n else if mp \<noteq> None then json_del ''preview'' ?n else ?n)"
        unfolding def using Some False by (simp add: Let_def)
      have keys: "set ?cs \<subseteq> set (?items @ filter ?m ?items @ [crd])" "?key ` set (?items @ filter ?m ?items @ [crd]) \<subseteq> ?key ` set ?cs"
        using dedupe_cards_keys [of ?key "[]" "?items @ filter ?m ?items @ [crd]"] by (auto simp: dedupeAttachmentCards_def)
      have objs: "\<forall>c \<in> set ?cs. is_obj c" using keys(1) items crd(2) by auto
      have at: "json_get ''attachment'' (policy_on_note parse print urls mode note) = (if ?cs = [] then None else Some (JArr ?cs))"
        unfolding r using assms by (auto simp: json_get_edit replace_array_get)
      have "cards_of (policy_on_note parse print urls mode note) = ?cs"
        unfolding cards_of_def [of "policy_on_note parse print urls mode note"] at by (rule toObjectArray_written [OF objs])
      moreover have "\<forall>c \<in> set ?items. \<exists>c' \<in> set ?cs. ?key c' = ?key c"
      proof
        fix c assume "c \<in> set ?items"
        then have "?key c \<in> ?key ` set (?items @ filter ?m ?items @ [crd])" by simp
        with keys(2) have "?key c \<in> ?key ` set ?cs" by blast
        then show "\<exists>c' \<in> set ?cs. ?key c' = ?key c" by (auto simp: image_iff)
      qed
      moreover have "mode \<noteq> Attachment_and_preview \<longrightarrow> (\<forall>c. preview_of (policy_on_note parse print urls mode note) = Some c \<longrightarrow> \<not> ?m c)"
        unfolding r using mp_none assms by (auto simp: preview_of_def json_get_edit replace_array_get toObject_is_obj)
      moreover have "mode = Attachment_and_preview \<longrightarrow> preview_of (policy_on_note parse print urls mode note) = Some crd"
        unfolding r using assms crd(2) by (simp add: preview_of_def json_get_edit replace_array_get toObject_is_obj)
      moreover have "is_obj (policy_on_note parse print urls mode note)"
        unfolding r using assms by (simp add: replace_array_get)
      moreover have "\<forall>k. k \<notin> {''attachment'', ''preview''} \<longrightarrow> json_get k (policy_on_note parse print urls mode note) = json_get k note"
        unfolding r using assms by (auto simp: json_get_edit replace_array_get)
      ultimately show ?thesis using False crd(1) by (simp add: edited_note_def)
    qed
  qed
qed

lemma resolved_note:
  assumes "resolveNoteObject act = Some (note, put_note)" and "is_obj note'" and "json_get ''type'' note' = json_get ''type'' note"
    and "json_get ''object'' note' = json_get ''object'' note"
  shows "is_obj note \<and> (\<exists>put'. resolveNoteObject (put_note note') = Some (note', put')) \<and>
    (put_note note' = note' \<and> note = act \<or> is_obj act \<and> put_note note' = json_put ''object'' note' act)"
proof (cases "\<exists>obj. toObject (json_get ''object'' act) = Some obj \<and> json_get ''type'' obj = Some (JStr ''Note'')")
  case True
  then obtain obj where o1: "json_get ''object'' act = Some obj" "is_obj obj" "json_get ''type'' obj = Some (JStr ''Note'')"
    by (auto simp: toObject_is_obj)
  then have "note = obj" "put_note = (\<lambda>n. json_put ''object'' n act)" using assms(1)
    by (auto simp: resolveNoteObject_def toObject_Some)
  moreover have "is_obj act" using o1(1) by (cases act) (auto simp: is_obj_def)
  ultimately show ?thesis using o1 assms(2,3) by (auto simp: resolveNoteObject_def toObject_Some json_get_edit)
next
  case False
  then have n: "note = act" "put_note = (\<lambda>n. n)" "json_get ''type'' act = Some (JStr ''Note'')"
    using assms(1) by (auto simp: resolveNoteObject_def split: option.splits if_splits)
  then have "is_obj act" by (cases act) (auto simp: is_obj_def)
  with n False assms(2-4) show ?thesis by (auto simp: resolveNoteObject_def split: option.splits if_splits)
qed

text \<open>The delivery policy edits link previews and nothing else: what leaves for a domain is the sanitised
  activity, in which only the attachments and the preview of its note may differ; where previews are disabled
  the cards that preview one of the hinted links are gone and all other attachments are there in order, where they are
  attachments only no preview of such a link is left, where they are rich the note has such a preview
  if it had a card for one; and unless disabled every attachment keeps one of its kind, media type and link.\<close>
theorem policy_edits_previews_only:
  assumes "applyActivityPubOutboundDeliveryPolicy parse print act host hints policy = Inr out"
    and "sanitizeJsonObject default_safe_json act = Inr san"
  shows "case resolveNoteObject san of
      None \<Rightarrow> out = san
    | Some (note, _) \<Rightarrow>
        (\<forall>k. k \<notin> {''object'', ''attachment'', ''preview''} \<longrightarrow> json_get k out = json_get k san) \<and>
        (\<exists>note' put'. resolveNoteObject out = Some (note', put') \<and>
          (normalizeHintPreviewUrls parse print hints = [] \<and> out = san \<or>
           edited_note (isMatchingNoteLinkPreviewCard parse print (normalizeHintPreviewUrls parse print hints))
             (buildCardKey parse print) (resolveOutboundNoteLinkPreviewMode parse host policy) note note'))"
proof (cases "resolveNoteObject san")
  case None
  with assms show ?thesis by (auto simp: applyActivityPubOutboundDeliveryPolicy_def Let_def split: if_splits)
next
  case (Some np)
  obtain n put_note where np: "np = (n, put_note)" by (cases np)
  show ?thesis
  proof (cases "normalizeHintPreviewUrls parse print hints = []")
    case True
    with assms Some np show ?thesis by (simp add: applyActivityPubOutboundDeliveryPolicy_def)
  next
    case False
    let ?note' = "policy_on_note parse print (normalizeHintPreviewUrls parse print hints) (resolveOutboundNoteLinkPreviewMode parse host policy) n"
    have out: "out = put_note ?note'" using assms Some np False by (simp add: applyActivityPubOutboundDeliveryPolicy_def Let_def)
    have "is_obj n" using Some np by (auto simp: resolveNoteObject_def toObject_is_obj is_obj_def split: option.splits if_splits)
      (cases san, auto)+
    note e = policy_edits [OF this, of parse print "normalizeHintPreviewUrls parse print hints" "resolveOutboundNoteLinkPreviewMode parse host policy"]
    have rest: "json_get k ?note' = json_get k n" if "k \<notin> {''attachment'', ''preview''}" for k
      using e that unfolding edited_note_def by blast
    have t: "json_get ''type'' ?note' = json_get ''type'' n" "json_get ''object'' ?note' = json_get ''object'' n"
      by (rule rest, simp)+
    note r = resolved_note [OF Some [unfolded np] conjunct1 [OF e] t]
    have same: "json_get k out = json_get k san" if k: "k \<notin> {''object'', ''attachment'', ''preview''}" for k
    proof -
      have k1: "json_get k ?note' = json_get k n" by (rule rest) (use k in blast)
      from r have "put_note ?note' = ?note' \<and> n = san \<or> is_obj san \<and> put_note ?note' = json_put ''object'' ?note' san" by (rule conjunct2 [OF conjunct2])
      then show ?thesis
      proof (elim disjE conjE)
        assume "put_note ?note' = ?note'" "n = san"
        then show ?thesis unfolding out using k1 by (simp only:)
      next
        assume "is_obj san" "put_note ?note' = json_put ''object'' ?note' san"
        then show ?thesis unfolding out using k by (simp only: json_get_edit) simp
      qed
    qed
    obtain put' where put': "resolveNoteObject out = Some (?note', put')" using r unfolding out by blast
    let ?rest = "normalizeHintPreviewUrls parse print hints = [] \<and> out = san"
    have ex: "\<exists>note' put'. resolveNoteObject out = Some (note', put') \<and> (?rest \<or>
        edited_note (isMatchingNoteLinkPreviewCard parse print (normalizeHintPreviewUrls parse print hints))
          (buildCardKey parse print) (resolveOutboundNoteLinkPreviewMode parse host policy) n note')"
      by (rule exI [of _ ?note'], rule exI [of _ put'], rule conjI, rule put', rule disjI2, rule conjunct2 [OF e])
    show ?thesis
      unfolding Some np option.case prod.case
    proof (rule conjI)
      show "\<forall>k. k \<notin> {''object'', ''attachment'', ''preview''} \<longrightarrow> json_get k out = json_get k san"
        by (intro allI impI) (rule same)
    qed (use ex in blast)
  qed
qed

section \<open>A concrete activity\<close>

definition sample_link :: json where
  "sample_link = JObj [(''type'', JStr ''Link''), (''href'', JStr ''https://a.io/p''), (''name'', JStr ''P'')]"

definition sample_image :: "string \<Rightarrow> json" where
  "sample_image u = JObj [(''type'', JStr ''Image''), (''mediaType'', JStr ''image/png''),
     (''url'', JArr [JObj [(''type'', JStr ''Link''), (''href'', JStr u)]])]"

definition sample_note :: "json list \<Rightarrow> json" where
  "sample_note cards = JObj [(''type'', JStr ''Create''),
     (''object'', JObj [(''type'', JStr ''Note''), (''content'', JStr ''x''), (''attachment'', JArr cards)])]"

lemma sample_note_disabled:
  "applyActivityPubOutboundDeliveryPolicy mini_parse mini_print (sample_note [sample_link, sample_image ''https://a.io/1'']) ''b.io''
     (Some [''https://a.io/p'']) (DEFAULT_ACTIVITYPUB_OUTBOUND_DELIVERY_POLICY\<lparr>defaultNoteLinkPreviewMode := Disabled\<rparr>)
   = Inr (sample_note [sample_image ''https://a.io/1''])"
  by code_simp

lemma sample_note_safe:
  "sanitizeJsonObject default_safe_json (sample_note [sample_link, sample_image ''https://a.io/1''])
   = Inr (sample_note [sample_link, sample_image ''https://a.io/1''])"
  by code_simp

theorem policy_edits_previews_only_witness:
  "case resolveNoteObject (sample_note [sample_link, sample_image ''https://a.io/1'']) of
     None \<Rightarrow> False
   | Some (note, _) \<Rightarrow>
       \<exists>note' put'. resolveNoteObject (sample_note [sample_image ''https://a.io/1'']) = Some (note', put') \<and>
         edited_note (isMatchingNoteLinkPreviewCard mini_parse mini_print [''https://a.io/p'']) (buildCardKey mini_parse mini_print)
           Disabled note note'"
proof -
  have u: "normalizeHintPreviewUrls mini_parse mini_print (Some [''https://a.io/p'']) = [''https://a.io/p'']" by code_simp
  have d: "resolveOutboundNoteLinkPreviewMode mini_parse ''b.io''
      (DEFAULT_ACTIVITYPUB_OUTBOUND_DELIVERY_POLICY\<lparr>defaultNoteLinkPreviewMode := Disabled\<rparr>) = Disabled" by code_simp
  have n: "(case resolveNoteObject (sample_note [sample_link, sample_image ''https://a.io/1'']) of None \<Rightarrow> False | Some _ \<Rightarrow> True)"
    by code_simp
  note p = policy_edits_previews_only [OF sample_note_disabled sample_note_safe, unfolded u d]
  show ?thesis
  proof (cases "resolveNoteObject (sample_note [sample_link, sample_image ''https://a.io/1''])")
    case None with n show ?thesis by (simp only: option.case)
  next
    case (Some np)
    with p show ?thesis by (cases np) (simp only: option.case prod.case, blast)
  qed
qed

text \<open>Two images whose addresses are lists of links have the same card key, so a note with a link preview loses
  one of them, whatever the policy of the domain keeps.\<close>
theorem images_collapse:
  "applyActivityPubOutboundDeliveryPolicy mini_parse mini_print
     (sample_note [sample_link, sample_image ''https://a.io/1'', sample_image ''https://a.io/2'']) ''b.io''
     (Some [''https://a.io/p'']) DEFAULT_ACTIVITYPUB_OUTBOUND_DELIVERY_POLICY
   = Inr (sample_note [sample_link, sample_image ''https://a.io/1''])"
  by code_simp

end
