(* ===== verification/Intent_Scheduler.thy ===== *)
theory Intent_Scheduler
  imports Delayed_Properties
begin

text \<open>
  \<open>fedify-sidecar/src/delivery/outbox-intent-delay-scheduler.ts\<close>: the store of delayed outbox intents.
  It has the layout of the store of delayed outbound jobs (a sorted set of due times and a hash of
  payloads) and the same replacement rule, but its promotion moves a record it cannot use to the
  dead-letter stream instead of stopping.  The scripts run inside Redis with the \<open>cjson\<close> library
  \<open>lua_lib\<close>.  Opening and closing the connection is not modelled beyond the flag \<open>is_open\<close>.
\<close>

section \<open>The scheduler\<close>

definition OUTBOX_INTENT_DELAY_PROMOTION_INTERVAL_MS :: int where "OUTBOX_INTENT_DELAY_PROMOTION_INTERVAL_MS = 250"
definition OUTBOX_INTENT_DELAY_PROMOTION_BATCH_SIZE :: nat where "OUTBOX_INTENT_DELAY_PROMOTION_BATCH_SIZE = 100"

record scheduler_config =
  sc_readyStreamKey :: string
  sc_dlqStreamKey :: string
  sc_consumerGroup :: string
  sc_maxStreamLength :: nat
  sc_maxDlqLength :: nat
  sc_promotionIntervalMs :: "int option"
  sc_promotionBatchSize :: "nat option"

record intent_scheduler =
  is_keys :: delay_keys
  is_dlqStreamKey :: string
  is_consumerGroup :: string
  is_maxStreamLength :: nat
  is_maxDlqLength :: nat
  is_promotionIntervalMs :: int
  is_promotionBatchSize :: nat
  is_open :: bool
  is_timer :: bool
  is_promotionRunning :: bool

definition scheduler_constructor :: "scheduler_config \<Rightarrow> intent_scheduler" where
  "scheduler_constructor c =
     \<lparr>is_keys = \<lparr>scheduleKey = sc_readyStreamKey c @ '':delayed:v1'',
                 payloadKey = sc_readyStreamKey c @ '':delayed-payload:v1'', readyKey = sc_readyStreamKey c\<rparr>,
      is_dlqStreamKey = sc_dlqStreamKey c, is_consumerGroup = sc_consumerGroup c,
      is_maxStreamLength = sc_maxStreamLength c, is_maxDlqLength = sc_maxDlqLength c,
      is_promotionIntervalMs = or_else (sc_promotionIntervalMs c) OUTBOX_INTENT_DELAY_PROMOTION_INTERVAL_MS,
      is_promotionBatchSize = or_else (sc_promotionBatchSize c) OUTBOX_INTENT_DELAY_PROMOTION_BATCH_SIZE,
      is_open = False, is_timer = False, is_promotionRunning = False\<rparr>"

text \<open>\<open>parsePositiveInt\<close>, \<open>createRedisOutboxIntentDelaySchedulerFromEnv\<close>\<close>

definition parsePositiveInt :: "string option \<Rightarrow> nat \<Rightarrow> nat" where
  "parsePositiveInt v fallback =
     (case v of
        None \<Rightarrow> fallback
      | Some t \<Rightarrow> if t = [] then fallback
                  else (case parse_int t of Num p \<Rightarrow> if p > 0 then nat p else fallback | _ \<Rightarrow> fallback))"

definition createRedisOutboxIntentDelaySchedulerFromEnv :: "(string \<Rightarrow> string option) \<Rightarrow> intent_scheduler" where
  "createRedisOutboxIntentDelaySchedulerFromEnv env = scheduler_constructor
     \<lparr>sc_readyStreamKey = or_else (env ''OUTBOX_INTENT_STREAM_KEY'') ''ap:queue:outbox-intent:v1'',
      sc_dlqStreamKey = or_else (env ''DLQ_OUTBOX_INTENT_STREAM_KEY'') ''ap:queue:dlq:outbox-intent:v1'',
      sc_consumerGroup = or_else (env ''CONSUMER_GROUP'') ''sidecar-workers'',
      sc_maxStreamLength = parsePositiveInt (env ''MAX_STREAM_LENGTH'') 500000,
      sc_maxDlqLength = parsePositiveInt (env ''MAX_DLQ_LENGTH'') 10000,
      sc_promotionIntervalMs = None, sc_promotionBatchSize = None\<rparr>"

section \<open>Storing a replacement\<close>

definition persistReplacementAndAck ::
  "lua_lib \<Rightarrow> 's redis \<Rightarrow> intent_scheduler \<Rightarrow> string \<Rightarrow> OutboxIntent \<Rightarrow> int \<Rightarrow> ('s, unit) io" where
  "persistReplacementAndAck U R h messageId intent nowMs =
     (if \<not> is_open h then io_throw ''Delayed outbox-intent Redis client is not connected''
      else if \<not> (\<exists>t. oi_notBeforeMs intent = Num t \<and> nowMs < t)
      then io_throw ''Delayed outbox intent must have a future notBeforeMs''
      else io_bind (delayed_put U R (is_keys h) (oi_intentId intent) (oi_notBeforeMs intent)
                      (json_stringify (outbox_intent_json intent)) (oi_attempt intent))
             (\<lambda>_ s. (Inr (), r_xack R (readyKey (is_keys h)) (is_consumerGroup h) messageId s)))"

section \<open>Promotion\<close>

fun lua_table :: "json option \<Rightarrow> bool" where
  "lua_table (Some (JObj _)) = True"
| "lua_table (Some (JArr _)) = True"
| "lua_table _ = False"

fun lua_string :: "json option \<Rightarrow> bool" where
  "lua_string (Some (JStr _)) = True"
| "lua_string _ = False"

definition intent_valid :: "string \<Rightarrow> json \<Rightarrow> bool" where
  "intent_valid i t \<longleftrightarrow>
     json_get ''intentId'' t = Some (JStr i) \<and> lua_string (json_get ''activityId'' t) \<and>
     lua_string (json_get ''actorUri'' t) \<and> lua_string (json_get ''activity'' t) \<and>
     lua_table (json_get ''targets'' t) \<and> lua_tonumber (json_get ''createdAt'' t) \<noteq> None \<and>
     lua_tonumber (json_get ''attempt'' t) \<noteq> None \<and> lua_tonumber (json_get ''maxAttempts'' t) \<noteq> None \<and>
     lua_tonumber (json_get ''notBeforeMs'' t) \<noteq> None"

definition encoded_opt :: "lua_lib \<Rightarrow> json option \<Rightarrow> string" where
  "encoded_opt U x = (case x of None \<Rightarrow> [] | Some v \<Rightarrow> cj_encode U v)"

text \<open>The fields of the ready entry, or nothing when \<open>lastError\<close> is neither text nor a number.\<close>

definition promoted_intent_fields :: "lua_lib \<Rightarrow> json \<Rightarrow> fields option" where
  "promoted_intent_fields U t =
     (case (lua_arg U (json_get ''intentId'' t), lua_arg U (json_get ''activityId'' t), lua_arg U (json_get ''actorUri'' t),
            lua_arg U (json_get ''activity'' t), lua_arg U (Some (lua_or (json_get ''lastError'' t) (JStr [])))) of
        (Some iid, Some aid, Some actor, Some act, Some err) \<Rightarrow>
          Some [(''intentId'', iid), (''activityId'', aid), (''actorUri'', actor), (''activity'', act),
                (''targets'', encoded_opt U (json_get ''targets'' t)),
                (''createdAt'', lua_tostring U (or_else (json_get ''createdAt'' t) JNull)),
                (''attempt'', lua_tostring U (or_else (json_get ''attempt'' t) JNull)),
                (''maxAttempts'', lua_tostring U (or_else (json_get ''maxAttempts'' t) JNull)),
                (''notBeforeMs'', lua_tostring U (or_else (json_get ''notBeforeMs'' t) JNull)),
                (''lastError'', err),
                (''meta'', encoded_opt U (json_get ''meta'' t)),
                (''bridgeHints'', encoded_opt U (json_get ''bridgeHints'' t))]
      | _ \<Rightarrow> None)"

text \<open>The dead-letter entry of a record that cannot be promoted.\<close>

definition unusable_fields :: "lua_lib \<Rightarrow> int \<Rightarrow> string \<Rightarrow> string option \<Rightarrow> fields" where
  "unusable_fields U nowMs i payload =
     [(''type'', ''outbox_intent''), (''id'', i),
      (''reason'', if payload \<noteq> None then ''Corrupt delayed outbox-intent payload''
                   else ''Orphaned delayed outbox-intent schedule entry''),
      (''timestamp'', show_int nowMs),
      (''data'', cj_encode U (JObj [(''intentId'', JStr i),
                   (''delayedPayload'', case payload of None \<Rightarrow> JNull | Some p \<Rightarrow> JStr p),
                   (''scheduler'', JStr ''outbox-intent-delayed-v1'')]))]"

definition forget_record :: "'s redis \<Rightarrow> delay_keys \<Rightarrow> string \<Rightarrow> 's \<Rightarrow> 's" where
  "forget_record R K i s = r_hdel R (payloadKey K) i (r_zrem R (scheduleKey K) i s)"

fun promote_intent_loop ::
  "lua_lib \<Rightarrow> 's redis \<Rightarrow> intent_scheduler \<Rightarrow> int \<Rightarrow> string list \<Rightarrow> nat \<Rightarrow> ('s, nat) io" where
  "promote_intent_loop U R h nowMs [] promoted s = (Inr promoted, s)"
| "promote_intent_loop U R h nowMs (i # ids) promoted s =
     (let K = is_keys h;
          payload = r_hget R (payloadKey K) i s;
          decoded = (case payload of None \<Rightarrow> None | Some p \<Rightarrow> cj_decode U p);
          to_dlq = (\<lambda>_. promote_intent_loop U R h nowMs ids promoted
                     (forget_record R K i
                       (r_xadd R (is_dlqStreamKey h) (is_maxDlqLength h) (unusable_fields U nowMs i payload) s)))
      in if lua_falsy decoded then to_dlq ()
         else if \<not> lua_indexable (the decoded) then (Inl ''ERR attempt to index a non-table value'', s)
         else if \<not> intent_valid i (the decoded) then to_dlq ()
         else case promoted_intent_fields U (the decoded) of
           None \<Rightarrow> (Inl ''ERR command arguments must be strings or integers'', s)
         | Some fs \<Rightarrow>
             promote_intent_loop U R h nowMs ids (Suc promoted)
               (forget_record R K i (r_xadd R (readyKey K) (is_maxStreamLength h) fs s)))"

declare promote_intent_loop.simps(2) [simp del]

definition promoteDue :: "lua_lib \<Rightarrow> 's redis \<Rightarrow> intent_scheduler \<Rightarrow> int \<Rightarrow> ('s, nat) io" where
  "promoteDue U R h nowMs s =
     (if \<not> is_open h \<or> is_promotionRunning h then (Inr 0, s)
      else promote_intent_loop U R h nowMs
             (r_zrange R (scheduleKey (is_keys h)) nowMs (is_promotionBatchSize h) s) 0 s)"

text \<open>\<open>start\<close> promotes once and then by a timer; \<open>stop\<close> removes the timer and closes.\<close>

definition scheduler_start :: "lua_lib \<Rightarrow> 's redis \<Rightarrow> intent_scheduler \<Rightarrow> int \<Rightarrow> ('s, intent_scheduler) io" where
  "scheduler_start U R h nowMs =
     io_bind (promoteDue U R (h\<lparr>is_open := True\<rparr>) nowMs) (\<lambda>_.
       io_return (h\<lparr>is_open := True, is_timer := True\<rparr>))"

definition scheduler_stop :: "intent_scheduler \<Rightarrow> intent_scheduler" where
  "scheduler_stop h = h\<lparr>is_timer := False, is_open := False\<rparr>"

end
