(* ===== verification/Scheduler_Properties.thy ===== *)
theory Scheduler_Properties
  imports Intent_Scheduler
begin

text \<open>
  What the store of delayed outbox intents guarantees: replacing is one step, promotion accounts for
  every due record, and what becomes of an intent on its way through the store.
\<close>

section \<open>Intents as Lua tables\<close>

definition delayable_intent :: "OutboxIntent \<Rightarrow> bool" where
  "delayable_intent i \<longleftrightarrow> finite_num (oi_createdAt i) \<and> finite_num (oi_attempt i) \<and> finite_num (oi_maxAttempts i)
     \<and> finite_num (oi_notBeforeMs i) \<and> list_all json_plain (oi_targets i) \<and> list_all json_small (oi_targets i)
     \<and> (case oi_meta i of None \<Rightarrow> True | Some m \<Rightarrow> json_plain m \<and> json_small m)
     \<and> (case oi_bridgeHints i of None \<Rightarrow> True | Some m \<Rightarrow> json_plain m \<and> json_small m)"

definition intent_rank :: "OutboxIntent \<Rightarrow> int \<times> int" where
  "intent_rank i = (num_of (oi_attempt i), num_of (oi_notBeforeMs i))"

definition intent_text :: "OutboxIntent \<Rightarrow> string" where
  "intent_text i = json_stringify (outbox_intent_json i)"

lemma lua_same_iff:
  "rel_option lua_same (Some (JStr x)) y \<longleftrightarrow> y = Some (JStr x)"
  "rel_option lua_same (Some (JNum n)) y \<longleftrightarrow> y = Some (JNum n)"
  by (auto simp: option_rel_Some1 intro: lua_same.intros)

lemma decoded_object:
  assumes "lua_lib_ok U" and "json_plain (JObj kvs)" and "json_small (JObj kvs)"
  obtains b where "cj_decode U (json_stringify (JObj kvs)) = Some (JObj b)" and "json_plain (JObj b)" and "json_small (JObj b)"
    and "\<And>k. rel_option lua_same (map_of kvs k) (json_get k (JObj b))"
proof -
  obtain t where t: "cj_decode U (json_stringify (JObj kvs)) = Some t" "lua_same (JObj kvs) t" "json_plain t" "json_small t"
    using assms unfolding lua_lib_ok_def by blast
  from t(2) obtain b where "t = JObj b" "\<And>k. rel_option lua_same (map_of kvs k) (map_of b k)" by (rule lua_same_get) blast
  with t that show thesis by simp
qed

lemma delayable_intent_json:
  "delayable_intent i \<Longrightarrow> json_plain (outbox_intent_json i) \<and> json_small (outbox_intent_json i)"
  using finite_numD
  by (auto simp: delayable_intent_def outbox_intent_json_def json_opt_def finite_num_json list_all_iff split: option.splits)

lemma decoded_intent:
  assumes "lua_lib_ok U" and "delayable_intent i"
  obtains b where "cj_decode U (intent_text i) = Some (JObj b)" and "json_plain (JObj b)" and "json_small (JObj b)"
    and "json_get ''intentId'' (JObj b) = Some (JStr (oi_intentId i))"
      "json_get ''activityId'' (JObj b) = Some (JStr (oi_activityId i))"
      "json_get ''actorUri'' (JObj b) = Some (JStr (oi_actorUri i))"
      "json_get ''activity'' (JObj b) = Some (JStr (oi_activity i))"
      "json_get ''createdAt'' (JObj b) = Some (JNum (num_of (oi_createdAt i)))"
      "json_get ''attempt'' (JObj b) = Some (JNum (num_of (oi_attempt i)))"
      "json_get ''maxAttempts'' (JObj b) = Some (JNum (num_of (oi_maxAttempts i)))"
      "json_get ''notBeforeMs'' (JObj b) = Some (JNum (num_of (oi_notBeforeMs i)))"
      "json_get ''lastError'' (JObj b) = map_option JStr (oi_lastError i)"
    and "rel_option lua_same (Some (JArr (oi_targets i))) (json_get ''targets'' (JObj b))"
      "rel_option lua_same (oi_meta i) (json_get ''meta'' (JObj b))"
      "rel_option lua_same (oi_bridgeHints i) (json_get ''bridgeHints'' (JObj b))"
proof -
  define kvs where "kvs = (case outbox_intent_json i of JObj kvs \<Rightarrow> kvs | _ \<Rightarrow> [])"
  have kvs: "outbox_intent_json i = JObj kvs" by (simp add: kvs_def outbox_intent_json_def)
  have js: "json_plain (JObj kvs)" "json_small (JObj kvs)" using delayable_intent_json [OF assms(2)] by (simp_all add: kvs)
  obtain b where b: "cj_decode U (json_stringify (JObj kvs)) = Some (JObj b)" "json_plain (JObj b)" "json_small (JObj b)"
      "\<And>k. rel_option lua_same (map_of kvs k) (json_get k (JObj b))"
    by (rule decoded_object [OF assms(1) js]) (rule that; assumption)
  have d: "finite_num (oi_createdAt i)" "finite_num (oi_attempt i)" "finite_num (oi_maxAttempts i)" "finite_num (oi_notBeforeMs i)"
    using assms(2) by (auto simp: delayable_intent_def)
  have m: "map_of kvs ''intentId'' = Some (JStr (oi_intentId i))" "map_of kvs ''activityId'' = Some (JStr (oi_activityId i))"
    "map_of kvs ''actorUri'' = Some (JStr (oi_actorUri i))" "map_of kvs ''activity'' = Some (JStr (oi_activity i))"
    "map_of kvs ''createdAt'' = Some (JNum (num_of (oi_createdAt i)))" "map_of kvs ''attempt'' = Some (JNum (num_of (oi_attempt i)))"
    "map_of kvs ''maxAttempts'' = Some (JNum (num_of (oi_maxAttempts i)))"
    "map_of kvs ''notBeforeMs'' = Some (JNum (num_of (oi_notBeforeMs i)))"
    "map_of kvs ''targets'' = Some (JArr (oi_targets i))" "map_of kvs ''lastError'' = map_option JStr (oi_lastError i)"
    "map_of kvs ''meta'' = oi_meta i" "map_of kvs ''bridgeHints'' = oi_bridgeHints i"
    using d by (auto simp: kvs_def outbox_intent_json_def json_opt_def finite_num_json split: option.splits)
  have str: "json_get k (JObj b) = Some (JStr x)" if "map_of kvs k = Some (JStr x)" for k x
    using b(4) [of k] unfolding that lua_same_iff .
  have num: "json_get k (JObj b) = Some (JNum x)" if "map_of kvs k = Some (JNum x)" for k x
    using b(4) [of k] unfolding that lua_same_iff .
  have le: "json_get ''lastError'' (JObj b) = map_option JStr (oi_lastError i)"
    using b(4) [of "''lastError''"] unfolding m(10) by (cases "oi_lastError i") (simp_all del: json_get.simps add: lua_same_iff)
  show thesis
    by (rule that [OF b(1) [folded kvs, folded intent_text_def] b(2,3) m(1-4) [THEN str] m(5-8) [THEN num] le
          b(4) [of "''targets''", unfolded m] b(4) [of "''meta''", unfolded m] b(4) [of "''bridgeHints''", unfolded m]])
qed

section \<open>Replacing\<close>

context delay_scripts
begin

lemmas put_keeps_others = ds.put_other

end

abbreviation intent_inv :: "delay_keys \<Rightarrow> keyspace \<Rightarrow> bool" where
  "intent_inv \<equiv> delay_inv oi_intentId intent_rank intent_text delayable_intent"

lemma intent_scripts:
  assumes "redis_server R view" and "lua_lib_ok U" and "delay_keys_ok K"
  shows "delay_scripts R view U K intent_rank intent_text delayable_intent"
proof (intro delay_scripts.intro delay_scripts_axioms.intro)
  fix i assume "delayable_intent i"
  then show "delayed_rank U (intent_text i) = Inr (Some (Num (fst (intent_rank i)), Num (snd (intent_rank i))))"
    by (rule decoded_intent [OF assms(2)]) (simp add: delayed_rank_def intent_rank_def or_else_def Let_def)
qed (rule assms)+

lemma intent_put:
  assumes "redis_server R view" and "lua_lib_ok U" and "delay_keys_ok K" and "delayable_intent i"
  shows "delayed_put U R K (oi_intentId i) (oi_notBeforeMs i) (json_stringify (outbox_intent_json i)) (oi_attempt i) s =
    delay_scripts.put R U K oi_intentId intent_rank intent_text i s"
proof -
  have "oi_notBeforeMs i = Num (snd (intent_rank i))" "oi_attempt i = Num (fst (intent_rank i))"
    using assms(4) finite_numD by (auto simp: delayable_intent_def intent_rank_def)
  then show ?thesis by (simp add: delay_scripts.put_def [OF intent_scripts [OF assms(1-3)]] intent_text_def)
qed

text \<open>Replacing an intent is one step: it either does nothing but report an error (no connection, or a due time
  that is not in the future), or acknowledges exactly the given pending entry together with a delayed
  record of the intent at least as good as the replacement, leaving the records of all other intents
  and the agreement of schedule and payloads as they were.\<close>
theorem replacement_is_atomic:
  assumes "redis_server R view" and "lua_lib_ok U" and "delay_keys_ok (is_keys h)" and "delayable_intent i"
    and "intent_inv (is_keys h) (view s)" and "persistReplacementAndAck U R h messageId i now s = (r, s')"
  shows "if is_open h \<and> now < num_of (oi_notBeforeMs i) then
      r = Inr () \<and> intent_inv (is_keys h) (view s') \<and>
      (\<exists>best. delayed_rank_at U (is_keys h) (oi_intentId i) (view s') = Some best \<and> intent_rank i \<le> best) \<and>
      (\<forall>j. j \<noteq> oi_intentId i \<longrightarrow> delayed_rank_at U (is_keys h) j (view s') = delayed_rank_at U (is_keys h) j (view s)) \<and>
      ks_pel (view s') (readyKey (is_keys h)) =
        filter (\<lambda>x. x \<noteq> (is_consumerGroup h, messageId)) (ks_pel (view s) (readyKey (is_keys h)))
    else (\<exists>e. r = Inl e) \<and> s' = s"
proof -
  let ?K = "is_keys h"
  let ?put = "delay_scripts.put R U ?K oi_intentId intent_rank intent_text"
  note sc = intent_scripts [OF assms(1-3)]
  have n: "oi_notBeforeMs i = Num (num_of (oi_notBeforeMs i))" using assms(4) finite_numD by (auto simp: delayable_intent_def)
  have future: "(\<exists>t. oi_notBeforeMs i = Num t \<and> now < t) \<longleftrightarrow> now < num_of (oi_notBeforeMs i)" by (subst n) simp
  show ?thesis
  proof (cases "is_open h \<and> now < num_of (oi_notBeforeMs i)")
    case False
    with assms(6) show ?thesis by (auto simp: persistReplacementAndAck_def future io_throw_def split: if_splits)
  next
    case True
    obtain b where p: "?put i s = (Inr b, snd (?put i s))"
      using delay_scripts.put_cases [OF sc assms(4,5)] by (auto split: if_splits)
    have run: "r = Inr ()" "s' = r_xack R (readyKey ?K) (is_consumerGroup h) messageId (snd (?put i s))"
      using assms(6) True p
      by (auto simp: persistReplacementAndAck_def future io_bind_def intent_put [OF assms(1-4)] split: prod.splits)
    have v: "view s' = ks_xack (readyKey ?K) (is_consumerGroup h) messageId (view (snd (?put i s)))"
      unfolding run(2) by (rule redis_server.xack_view [OF assms(1)])
    have pel: "ks_pel (view (snd (?put i s))) = ks_pel (view s)"
      using delay_scripts.put_cases [OF sc assms(4,5)]
      by (auto simp: redis_server.zadd_view [OF assms(1)] redis_server.hset_view [OF assms(1)] ks_rules)
    have rank: "delayed_rank_at U ?K j (view s') = delayed_rank_at U ?K j (view (snd (?put i s)))" for j
      by (simp add: delayed_rank_at_def v ks_rules)
    have "intent_inv ?K (view s')"
      using delay_scripts.put_keeps_inv [OF sc assms(4,5)] unfolding delay_inv_def v ks_xack_frame .
    moreover have "\<exists>best. delayed_rank_at U ?K (oi_intentId i) (view s') = Some best \<and> intent_rank i \<le> best"
      unfolding rank delay_scripts.put_keeps_rank [OF sc assms(4,5)] by (auto simp: better_rank_def split: option.splits)
    moreover have "\<forall>j. j \<noteq> oi_intentId i \<longrightarrow> delayed_rank_at U ?K j (view s') = delayed_rank_at U ?K j (view s)"
      unfolding rank using delay_scripts.put_keeps_others [OF sc assms(4,5)] by blast
    ultimately show ?thesis using run(1) True by (simp add: v ks_rules pel)
  qed
qed

section \<open>Promotion accounts for every due record\<close>

text \<open>
  \<open>appended n es es' fss\<close>: the stream \<open>es\<close> got the entries \<open>fss\<close>, in this order, under new identifiers, and
  was trimmed from its old end, but not below \<open>n\<close> entries.
\<close>

definition appended :: "nat \<Rightarrow> (string \<times> fields) list \<Rightarrow> (string \<times> fields) list \<Rightarrow> fields list \<Rightarrow> bool" where
  "appended n es es' fss \<longleftrightarrow>
     (\<exists>mids d. length mids = length fss \<and> es' = drop d (es @ zip mids fss)) \<and> min n (length es + length fss) \<le> length es'"

lemma appended_nil: "appended n es es []"
  by (auto simp: appended_def intro!: exI [of _ 0])

lemma appended_one:
  assumes "d \<le> Suc (length es) - n"
  shows "appended n es (drop d (es @ [(m, fs)])) [fs]"
  using assms by (auto simp: appended_def intro!: exI [of _ "[m]"] exI [of _ d])

lemma appended_trans:
  assumes "appended n es es1 xs" and "appended n es1 es2 ys"
  shows "appended n es es2 (xs @ ys)"
proof -
  obtain m1 d1 where 1: "length m1 = length xs" "es1 = drop d1 (es @ zip m1 xs)" using assms(1) by (auto simp: appended_def)
  obtain m2 d2 where 2: "length m2 = length ys" "es2 = drop d2 (es1 @ zip m2 ys)" using assms(2) by (auto simp: appended_def)
  obtain d where "es2 = drop d ((es @ zip m1 xs) @ zip m2 ys)" using drop_append_drop 1(2) 2(2) by metis
  then have "es2 = drop d (es @ zip (m1 @ m2) (xs @ ys))" using 1(1) by simp
  moreover have "length (m1 @ m2) = length (xs @ ys)" using 1 2 by simp
  moreover have "min n (length es + length xs) \<le> length es1" "min n (length es1 + length ys) \<le> length es2"
    using assms by (simp_all add: appended_def)
  then have "min n (length es + length (xs @ ys)) \<le> length es2" by (auto simp: min_def split: if_splits)
  ultimately show ?thesis unfolding appended_def by blast
qed

definition scheduler_keys_ok :: "intent_scheduler \<Rightarrow> bool" where
  "scheduler_keys_ok h \<longleftrightarrow>
     distinct [scheduleKey (is_keys h), payloadKey (is_keys h), readyKey (is_keys h), is_dlqStreamKey h]"

text \<open>The record of an identifier, when the promotion can use it.\<close>

definition usable_record :: "lua_lib \<Rightarrow> delay_keys \<Rightarrow> keyspace \<Rightarrow> string \<Rightarrow> json option" where
  "usable_record U K ks i =
     (case ks_hget (payloadKey K) i ks of
        None \<Rightarrow> None
      | Some p \<Rightarrow> (case cj_decode U p of None \<Rightarrow> None | Some t \<Rightarrow> if intent_valid i t then Some t else None))"

definition ready_fields :: "lua_lib \<Rightarrow> delay_keys \<Rightarrow> keyspace \<Rightarrow> string \<Rightarrow> fields" where
  "ready_fields U K ks i = the (promoted_intent_fields U (the (usable_record U K ks i)))"

definition lost_fields :: "lua_lib \<Rightarrow> delay_keys \<Rightarrow> keyspace \<Rightarrow> int \<Rightarrow> string \<Rightarrow> fields" where
  "lost_fields U K ks now i = unusable_fields U now i (ks_hget (payloadKey K) i ks)"

lemma intent_valid_table: "intent_valid i t \<Longrightarrow> lua_indexable t \<and> \<not> lua_falsy (Some t)"
  by (cases t) (auto simp: intent_valid_def)

text \<open>One record: what the loop does with it.\<close>

context redis_server
begin

lemma promote_intent_step:
  assumes "promote_intent_loop U R h now (i # ids) n s = (Inr n', s')"
  shows "(usable_record U (is_keys h) (view s) i \<noteq> None \<and>
      promoted_intent_fields U (the (usable_record U (is_keys h) (view s) i)) \<noteq> None \<and>
      promote_intent_loop U R h now ids (Suc n) (forget_record R (is_keys h) i
        (r_xadd R (readyKey (is_keys h)) (is_maxStreamLength h) (ready_fields U (is_keys h) (view s) i) s)) = (Inr n', s')) \<or>
    (usable_record U (is_keys h) (view s) i = None \<and>
      promote_intent_loop U R h now ids n (forget_record R (is_keys h) i
        (r_xadd R (is_dlqStreamKey h) (is_maxDlqLength h) (lost_fields U (is_keys h) (view s) now i) s)) = (Inr n', s'))"
proof (cases "ks_hget (payloadKey (is_keys h)) i (view s)")
  case None
  with assms show ?thesis
    by (simp add: promote_intent_loop.simps(2) redis_view usable_record_def lost_fields_def Let_def)
next
  case (Some p)
  show ?thesis
  proof (cases "cj_decode U p")
    case None
    with Some assms show ?thesis
      by (simp add: promote_intent_loop.simps(2) redis_view usable_record_def lost_fields_def Let_def)
  next
    case (Some t)
    note t = Some \<open>ks_hget (payloadKey (is_keys h)) i (view s) = Some p\<close>
    show ?thesis
    proof (cases "intent_valid i t")
      case True
      with t assms intent_valid_table [OF True] show ?thesis
        by (cases "promoted_intent_fields U t")
          (simp_all add: promote_intent_loop.simps(2) redis_view usable_record_def ready_fields_def Let_def)
    next
      case False
      with t assms show ?thesis
        by (cases "lua_falsy (Some t)"; cases "lua_indexable t")
          (simp_all add: promote_intent_loop.simps(2) redis_view usable_record_def lost_fields_def Let_def)
    qed
  qed
qed

lemma forget_view:
  assumes "scheduler_keys_ok h" and "k = readyKey (is_keys h) \<or> k = is_dlqStreamKey h"
  shows "ks_hget (payloadKey (is_keys h)) j (view (forget_record R (is_keys h) i (r_xadd R k lim fs s))) =
      (if j = i then None else ks_hget (payloadKey (is_keys h)) j (view s))"
    and "ks_zlist (scheduleKey (is_keys h)) (view (forget_record R (is_keys h) i (r_xadd R k lim fs s))) =
      filter (\<lambda>(x, _). x \<noteq> i) (ks_zlist (scheduleKey (is_keys h)) (view s))"
    and "ks_entries k (view (forget_record R (is_keys h) i (r_xadd R k lim fs s))) =
      drop (r_trim R k lim s) (ks_entries k (view s) @ [(r_new_id R k s, fs)])"
    and "k' = readyKey (is_keys h) \<or> k' = is_dlqStreamKey h \<Longrightarrow> k' \<noteq> k \<Longrightarrow>
      ks_entries k' (view (forget_record R (is_keys h) i (r_xadd R k lim fs s))) = ks_entries k' (view s)"
    and "ks_pel (view (forget_record R (is_keys h) i (r_xadd R k lim fs s))) = ks_pel (view s)"
  using assms by (auto simp: forget_record_def scheduler_keys_ok_def redis_view ks_rules)

lemma promote_intents:
  assumes "scheduler_keys_ok h" and "distinct ids" and "promote_intent_loop U R h now ids n s = (Inr n', s')"
  defines "P \<equiv> \<lambda>i. usable_record U (is_keys h) (view s) i \<noteq> None"
  shows "n' = n + length (filter P ids) \<and>
    (\<forall>i \<in> set (filter P ids). promoted_intent_fields U (the (usable_record U (is_keys h) (view s) i)) \<noteq> None) \<and>
    appended (is_maxStreamLength h) (ks_entries (readyKey (is_keys h)) (view s)) (ks_entries (readyKey (is_keys h)) (view s'))
      (map (ready_fields U (is_keys h) (view s)) (filter P ids)) \<and>
    appended (is_maxDlqLength h) (ks_entries (is_dlqStreamKey h) (view s)) (ks_entries (is_dlqStreamKey h) (view s'))
      (map (lost_fields U (is_keys h) (view s) now) (filter (\<lambda>i. \<not> P i) ids)) \<and>
    (\<forall>i. ks_hget (payloadKey (is_keys h)) i (view s') = (if i \<in> set ids then None else ks_hget (payloadKey (is_keys h)) i (view s))) \<and>
    ks_zlist (scheduleKey (is_keys h)) (view s') = filter (\<lambda>(x, _). x \<notin> set ids) (ks_zlist (scheduleKey (is_keys h)) (view s)) \<and>
    ks_pel (view s') = ks_pel (view s)"
  using assms(2,3) unfolding P_def
proof (induction ids arbitrary: n s)
  case Nil
  then show ?case by (auto simp: appended_nil)
next
  case (Cons i ids)
  let ?K = "is_keys h" and ?u = "usable_record U (is_keys h) (view s) i"
  define k where "k = (if ?u \<noteq> None then readyKey ?K else is_dlqStreamKey h)"
  define lim where "lim = (if ?u \<noteq> None then is_maxStreamLength h else is_maxDlqLength h)"
  define fs where "fs = (if ?u \<noteq> None then ready_fields U ?K (view s) i else lost_fields U ?K (view s) now i)"
  define s1 where "s1 = forget_record R ?K i (r_xadd R k lim fs s)"
  have run: "promote_intent_loop U R h now ids (if ?u \<noteq> None then Suc n else n) s1 = (Inr n', s')"
    and ok: "?u \<noteq> None \<longrightarrow> promoted_intent_fields U (the ?u) \<noteq> None"
    using promote_intent_step [OF Cons.prems(2)] by (auto simp: s1_def k_def lim_def fs_def)
  have k: "k = readyKey ?K \<or> k = is_dlqStreamKey h" by (simp add: k_def)
  note f = forget_view [OF assms(1) k, where i = i and lim = lim and fs = fs and s = s, folded s1_def]
  have other: "ks_entries k' (view s1) = ks_entries k' (view s)" if "k' = readyKey ?K \<or> k' = is_dlqStreamKey h" "k' \<noteq> k" for k'
    using forget_view(4) [OF assms(1) k that] by (simp add: s1_def)
  have neq: "readyKey ?K \<noteq> is_dlqStreamKey h" using assms(1) by (auto simp: scheduler_keys_ok_def)
  have one: "appended lim (ks_entries k (view s)) (ks_entries k (view s1)) [fs]"
    unfolding f(3) by (rule appended_one) (use trim_bound in simp)
  have same: "usable_record U ?K (view s1) j = usable_record U ?K (view s) j"
    "lost_fields U ?K (view s1) now j = lost_fields U ?K (view s) now j"
    "ready_fields U ?K (view s1) j = ready_fields U ?K (view s) j" if "j \<in> set ids" for j
    using that Cons.prems(1) f(1) [of j] by (auto simp: usable_record_def lost_fields_def ready_fields_def)
  have flt: "filter (\<lambda>j. usable_record U ?K (view s1) j \<noteq> None) ids = filter (\<lambda>j. usable_record U ?K (view s) j \<noteq> None) ids"
    "filter (\<lambda>j. \<not> usable_record U ?K (view s1) j \<noteq> None) ids = filter (\<lambda>j. \<not> usable_record U ?K (view s) j \<noteq> None) ids"
    using same(1) by (auto intro!: filter_cong)
  have mp: "map (ready_fields U ?K (view s1)) (filter Q ids) = map (ready_fields U ?K (view s)) (filter Q ids)"
    "map (lost_fields U ?K (view s1) now) (filter Q ids) = map (lost_fields U ?K (view s) now) (filter Q ids)" for Q
    using same(2,3) by auto
  have "distinct ids" using Cons.prems(1) by simp
  note IH = Cons.IH [OF this run, unfolded flt mp]
  have ready: "appended (is_maxStreamLength h) (ks_entries (readyKey ?K) (view s)) (ks_entries (readyKey ?K) (view s'))
      (map (ready_fields U ?K (view s)) (filter (\<lambda>j. usable_record U ?K (view s) j \<noteq> None) (i # ids)))"
  proof (cases "?u = None")
    case True
    then show ?thesis using IH other [of "readyKey ?K"] neq by (auto simp: k_def)
  next
    case False
    then have "appended (is_maxStreamLength h) (ks_entries (readyKey ?K) (view s)) (ks_entries (readyKey ?K) (view s1)) [ready_fields U ?K (view s) i]"
      using one by (simp add: k_def lim_def fs_def)
    from appended_trans [OF this] IH False show ?thesis by fastforce
  qed
  have lost: "appended (is_maxDlqLength h) (ks_entries (is_dlqStreamKey h) (view s)) (ks_entries (is_dlqStreamKey h) (view s'))
      (map (lost_fields U ?K (view s) now) (filter (\<lambda>j. \<not> usable_record U ?K (view s) j \<noteq> None) (i # ids)))"
  proof (cases "?u = None")
    case False
    then show ?thesis using IH other [of "is_dlqStreamKey h"] neq by (auto simp: k_def)
  next
    case True
    then have "appended (is_maxDlqLength h) (ks_entries (is_dlqStreamKey h) (view s)) (ks_entries (is_dlqStreamKey h) (view s1)) [lost_fields U ?K (view s) now i]"
      using one by (simp add: k_def lim_def fs_def)
    from appended_trans [OF this] IH True show ?thesis by fastforce
  qed
  have "n' = n + length (filter (\<lambda>j. usable_record U ?K (view s) j \<noteq> None) (i # ids))" using IH by (auto split: if_splits)
  moreover have "\<forall>j \<in> set (filter (\<lambda>j. usable_record U ?K (view s) j \<noteq> None) (i # ids)).
      promoted_intent_fields U (the (usable_record U ?K (view s) j)) \<noteq> None"
    using IH ok same(1) by auto
  moreover have "\<forall>j. ks_hget (payloadKey ?K) j (view s') = (if j \<in> set (i # ids) then None else ks_hget (payloadKey ?K) j (view s))"
    using IH f(1) by auto
  moreover have "ks_zlist (scheduleKey ?K) (view s') = filter (\<lambda>(x, _). x \<notin> set (i # ids)) (ks_zlist (scheduleKey ?K) (view s))"
    using IH f(2) by (auto intro: filter_cong)
  moreover have "ks_pel (view s') = ks_pel (view s)" using IH f(5) by simp
  ultimately show ?case using ready lost by blast
qed

end

lemma distinct_zrange:
  "redis_server R view \<Longrightarrow> distinct (map fst (ks_zlist k (view s))) \<Longrightarrow> distinct (r_zrange R k now m s)"
  by (simp add: redis_server.zrange_view ks_zrange_def distinct_map_filter)

text \<open>A promotion accounts for every due record, whatever the store holds: of the records due (at most a batch), in
  the order of the schedule, each one the promotion can use is appended to the ready stream with its
  fields, each other one is appended to the dead-letter stream with its identifier and its payload as
  found, the result is the number of the former, and all of them, and no others, leave the store; no pending
  entry is touched.\<close>
theorem promotion_accounts_for_all:
  assumes "redis_server R view" and "scheduler_keys_ok h" and "is_open h" and "\<not> is_promotionRunning h"
    and "distinct (map fst (ks_zlist (scheduleKey (is_keys h)) (view s)))"
    and "ids = r_zrange R (scheduleKey (is_keys h)) now (is_promotionBatchSize h) s"
    and "promoteDue U R h now s = (Inr n, s')"
  shows "let K = is_keys h; good = filter (\<lambda>i. usable_record U K (view s) i \<noteq> None) ids;
             bad = filter (\<lambda>i. usable_record U K (view s) i = None) ids
    in n = length good \<and>
      (\<forall>i \<in> set good. promoted_intent_fields U (the (usable_record U K (view s) i)) = Some (ready_fields U K (view s) i)) \<and>
      appended (is_maxStreamLength h) (ks_entries (readyKey K) (view s)) (ks_entries (readyKey K) (view s'))
        (map (ready_fields U K (view s)) good) \<and>
      appended (is_maxDlqLength h) (ks_entries (is_dlqStreamKey h) (view s)) (ks_entries (is_dlqStreamKey h) (view s'))
        (map (lost_fields U K (view s) now) bad) \<and>
      (\<forall>i. ks_hget (payloadKey K) i (view s') = (if i \<in> set ids then None else ks_hget (payloadKey K) i (view s))) \<and>
      ks_zlist (scheduleKey K) (view s') = filter (\<lambda>(x, _). x \<notin> set ids) (ks_zlist (scheduleKey K) (view s)) \<and>
      ks_pel (view s') = ks_pel (view s)"
proof -
  have d: "distinct ids" unfolding assms(6) by (rule distinct_zrange [OF assms(1,5)])
  have run: "promote_intent_loop U R h now ids 0 s = (Inr n, s')"
    using assms(3,4,6,7) by (simp add: promoteDue_def)
  note p = redis_server.promote_intents [OF assms(1,2) d run]
  then show ?thesis unfolding Let_def by (auto simp: ready_fields_def)
qed

section \<open>When a promotion can fail\<close>

definition promotable :: "lua_lib \<Rightarrow> string option \<Rightarrow> bool" where
  "promotable U payload \<longleftrightarrow>
     (case payload of None \<Rightarrow> True | Some p \<Rightarrow>
        (case cj_decode U p of None \<Rightarrow> True | Some t \<Rightarrow>
           (\<exists>kvs. t = JObj kvs \<and> (json_get ''lastError'' t = None \<or> lua_string (json_get ''lastError'' t)))))"

lemma promotable_step:
  assumes "redis_server R view" and "promotable U (r_hget R (payloadKey (is_keys h)) i s)"
  shows "\<exists>n1 k lim fs. promote_intent_loop U R h now (i # ids) n s =
    promote_intent_loop U R h now ids n1 (forget_record R (is_keys h) i (r_xadd R k lim fs s)) \<and>
    (k = readyKey (is_keys h) \<or> k = is_dlqStreamKey h)"
proof (cases "usable_record U (is_keys h) (view s) i")
  case None
  have "promote_intent_loop U R h now (i # ids) n s =
      promote_intent_loop U R h now ids n (forget_record R (is_keys h) i
        (r_xadd R (is_dlqStreamKey h) (is_maxDlqLength h) (lost_fields U (is_keys h) (view s) now i) s))"
    using None assms(2)
    by (auto simp: promote_intent_loop.simps(2) usable_record_def promotable_def lost_fields_def Let_def
        redis_server.hget_view [OF assms(1)] split: option.splits if_splits)
  then show ?thesis by blast
next
  case (Some t)
  obtain p where p: "r_hget R (payloadKey (is_keys h)) i s = Some p" "cj_decode U p = Some t" "intent_valid i t"
    using Some by (auto simp: usable_record_def redis_server.hget_view [OF assms(1)] split: option.splits if_splits)
  then have "json_get ''lastError'' t = None \<or> lua_string (json_get ''lastError'' t)"
    using assms(2) by (auto simp: promotable_def)
  then have "lua_arg U (Some (lua_or (json_get ''lastError'' t) (JStr []))) \<noteq> None"
    by (cases "json_get ''lastError'' t" rule: lua_string.cases) (auto simp: lua_or_def)
  moreover have "\<forall>k \<in> {''intentId'', ''activityId'', ''actorUri'', ''activity''}. lua_arg U (json_get k t) \<noteq> None"
    using p(3) by (auto simp: intent_valid_def elim: lua_string.elims)
  ultimately obtain fs where "promoted_intent_fields U t = Some fs"
    by (auto simp: promoted_intent_fields_def)
  then have "promote_intent_loop U R h now (i # ids) n s =
      promote_intent_loop U R h now ids (Suc n) (forget_record R (is_keys h) i
        (r_xadd R (readyKey (is_keys h)) (is_maxStreamLength h) fs s))"
    using p intent_valid_table [OF p(3)] by (simp add: promote_intent_loop.simps(2) Let_def)
  then show ?thesis by blast
qed

lemma promotable_loop:
  assumes "redis_server R view" and "scheduler_keys_ok h" and "distinct ids"
    and "\<forall>i \<in> set ids. promotable U (r_hget R (payloadKey (is_keys h)) i s)"
  shows "\<exists>n' s'. promote_intent_loop U R h now ids n s = (Inr n', s')"
  using assms(3,4)
proof (induction ids arbitrary: n s)
  case (Cons i ids)
  obtain n1 k lim fs where e: "promote_intent_loop U R h now (i # ids) n s =
      promote_intent_loop U R h now ids n1 (forget_record R (is_keys h) i (r_xadd R k lim fs s))"
    and k: "k = readyKey (is_keys h) \<or> k = is_dlqStreamKey h"
    using promotable_step [OF assms(1), of U h i s now ids n] Cons.prems(2) by auto
  have "\<forall>j \<in> set ids. promotable U (r_hget R (payloadKey (is_keys h)) j (forget_record R (is_keys h) i (r_xadd R k lim fs s)))"
    using Cons.prems redis_server.forget_view(1) [OF assms(1,2) k] by (simp add: redis_server.hget_view [OF assms(1)] promotable_def)
  from Cons.IH [OF _ this] Cons.prems(1) show ?case unfolding e by simp
qed simp

text \<open>Promotion does not fail on records it cannot use, as long as Lua reads what is not corrupt JSON as an object whose \<open>lastError\<close>
  is text: then it returns, however many of the due records are corrupt or missing.\<close>
theorem promotion_skips_corrupt:
  assumes "redis_server R view" and "scheduler_keys_ok h"
    and "distinct (map fst (ks_zlist (scheduleKey (is_keys h)) (view s)))"
    and "\<forall>i. promotable U (r_hget R (payloadKey (is_keys h)) i s)"
  shows "\<exists>n s'. promoteDue U R h now s = (Inr n, s')"
proof (cases "is_open h \<and> \<not> is_promotionRunning h")
  case True
  then show ?thesis
    using promotable_loop [OF assms(1,2) distinct_zrange [OF assms(1,3)]] assms(4) by (simp add: promoteDue_def)
qed (simp add: promoteDue_def)

text \<open>One kind of corruption does stop the promotion for good, though the comments say no record can: a record that
  is valid JSON but neither text nor a table (a number, \<open>true\<close> or \<open>null\<close>) makes the script fail when it
  is the earliest, now and at every later time, and nothing is moved.\<close>
theorem scalar_record_blocks_promotion:
  assumes "redis_server R view" and "is_open h" and "\<not> is_promotionRunning h" and "0 < is_promotionBatchSize h"
    and "sorted (map snd (ks_zlist (scheduleKey (is_keys h)) (view s)))"
    and "r_zrange R (scheduleKey (is_keys h)) now (is_promotionBatchSize h) s = i # ids"
    and "r_hget R (payloadKey (is_keys h)) i s = Some p"
    and "cj_decode U p \<in> {Some (JNum x), Some (JBool True), Some JNull}" and "now \<le> later"
  shows "promoteDue U R h later s = (Inl ''ERR attempt to index a non-table value'', s)"
proof -
  let ?z = "ks_zlist (scheduleKey (is_keys h)) (view s)"
  obtain m where m: "is_promotionBatchSize h = Suc m" using assms(4) by (cases "is_promotionBatchSize h") auto
  have zr: "r_zrange R (scheduleKey (is_keys h)) t k s = take k (map fst (filter (\<lambda>(_, sc). sc \<le> t) ?z))" for t k
    by (simp add: redis_server.zrange_view [OF assms(1)] ks_zrange_def)
  obtain rest where "map fst (filter (\<lambda>(_, sc). sc \<le> now) ?z) = i # rest"
    using assms(6) unfolding zr m by (cases "map fst (filter (\<lambda>(_, sc). sc \<le> now) ?z)") auto
  from first_due_stays [OF assms(5) this assms(9)] obtain js
    where "map fst (filter (\<lambda>(_, sc). sc \<le> later) ?z) = i # js" ..
  then have "r_zrange R (scheduleKey (is_keys h)) later (is_promotionBatchSize h) s = i # take m js"
    unfolding zr m by simp
  with assms(2,3,7,8) show ?thesis by (auto simp: promoteDue_def promote_intent_loop.simps(2) Let_def)
qed

section \<open>What becomes of a delayed intent\<close>

lemma json_text_unreserved:
  assumes "json_parse v = Some j"
  shows "unreserved v"
proof (rule ccontr)
  assume "\<not> unreserved v"
  then obtain r where v: "v = CHR ''a'' # r"
    by (cases v) (auto simp: unreserved_def REDIS_STREAM_PAYLOAD_UNKNOWN_PREFIX_def starts_with_def)
  have "parse_value (Suc n) (CHR ''a'' # r) = None" for n
    by (simp add: skip_ws_def starts_with_def parse_number_def json_space_def number_char_def js_digit_def int_part_ok_def)
  with assms show False by (simp add: v json_parse_def)
qed

lemma encoded_read_back:
  assumes "lua_lib_ok U" and "rel_option lua_same m m'" and "\<And>v. m' = Some v \<Longrightarrow> json_plain v \<and> json_small v"
    and "map_of fs k = Some (encoded_opt U m')"
  shows "\<exists>x. json_field fs k (w :: 'w) = (Inr x, w) \<and> rel_option lua_same m x"
proof (cases m')
  case None
  then show ?thesis using assms(2,4) by (simp add: encoded_opt_def json_field_def field_opt_def io_return_def)
next
  case (Some b)
  then obtain a where a: "m = Some a" "lua_same a b" using assms(2) by (auto simp: option_rel_Some2)
  obtain x where x: "json_parse (cj_encode U b) = Some x" "lua_same b x"
    using assms(1,3) Some unfolding lua_lib_ok_def by blast
  have "cj_encode U b \<noteq> []" using x(1) by (auto simp: json_parse_def skip_ws_def)
  then have "json_field fs k w = (Inr (Some x), w)"
    using assms(4) Some x(1)
    by (simp add: encoded_opt_def json_field_def field_opt_def json_parse_io_def io_bind_def io_return_def)
  then show ?thesis using lua_same_trans [OF a(2) x(2)] a(1) by auto
qed

text \<open>An intent and the fields under which its delayed record is promoted.\<close>

definition intent_promoted :: "lua_lib \<Rightarrow> OutboxIntent \<Rightarrow> fields \<Rightarrow> bool" where
  "intent_promoted U i fs \<longleftrightarrow>
     (\<exists>t. cj_decode U (intent_text i) = Some t \<and> intent_valid (oi_intentId i) t \<and> promoted_intent_fields U t = Some fs)"

lemma promoted_intent:
  assumes "lua_lib_ok U" and "delayable_intent i"
  obtains fs tt where "intent_promoted U i fs"
    "map_of fs ''intentId'' = Some (oi_intentId i)" "map_of fs ''activityId'' = Some (oi_activityId i)"
    "map_of fs ''actorUri'' = Some (oi_actorUri i)" "map_of fs ''activity'' = Some (oi_activity i)"
    "map_of fs ''createdAt'' = Some (show_num (oi_createdAt i))" "map_of fs ''attempt'' = Some (show_num (oi_attempt i))"
    "map_of fs ''maxAttempts'' = Some (show_num (oi_maxAttempts i))"
    "map_of fs ''notBeforeMs'' = Some (show_num (oi_notBeforeMs i))"
    "map_of fs ''lastError'' = Some (or_else (oi_lastError i) [])"
    "map_of fs ''targets'' = Some tt" "\<exists>x. json_parse tt = Some x \<and> lua_same (JArr (oi_targets i)) x"
    "\<exists>m. json_field fs ''meta'' (w :: 'w) = (Inr m, w) \<and> rel_option lua_same (oi_meta i) m"
    "\<exists>m. json_field fs ''bridgeHints'' w = (Inr m, w) \<and> rel_option lua_same (oi_bridgeHints i) m"
proof -
  obtain b where d: "cj_decode U (intent_text i) = Some (JObj b)" and js: "json_plain (JObj b)" "json_small (JObj b)"
    and g: "json_get ''intentId'' (JObj b) = Some (JStr (oi_intentId i))"
      "json_get ''activityId'' (JObj b) = Some (JStr (oi_activityId i))"
      "json_get ''actorUri'' (JObj b) = Some (JStr (oi_actorUri i))"
      "json_get ''activity'' (JObj b) = Some (JStr (oi_activity i))"
      "json_get ''createdAt'' (JObj b) = Some (JNum (num_of (oi_createdAt i)))"
      "json_get ''attempt'' (JObj b) = Some (JNum (num_of (oi_attempt i)))"
      "json_get ''maxAttempts'' (JObj b) = Some (JNum (num_of (oi_maxAttempts i)))"
      "json_get ''notBeforeMs'' (JObj b) = Some (JNum (num_of (oi_notBeforeMs i)))"
      "json_get ''lastError'' (JObj b) = map_option JStr (oi_lastError i)"
    and r: "rel_option lua_same (Some (JArr (oi_targets i))) (json_get ''targets'' (JObj b))"
      "rel_option lua_same (oi_meta i) (json_get ''meta'' (JObj b))"
      "rel_option lua_same (oi_bridgeHints i) (json_get ''bridgeHints'' (JObj b))"
    by (rule decoded_intent [OF assms])
  obtain tv where tv: "json_get ''targets'' (JObj b) = Some tv" "lua_same (JArr (oi_targets i)) tv"
    using r(1) by (auto simp: option_rel_Some1)
  then have tt: "lua_table (Some tv)" by (auto elim: lua_same_arrE)
  have pl: "json_plain v \<and> json_small v" if "json_get k (JObj b) = Some v" for k v
    using json_get_plain [OF that] js by simp
  obtain x where x: "json_parse (cj_encode U tv) = Some x" "lua_same tv x"
    using assms(1) pl [OF tv(1)] unfolding lua_lib_ok_def by blast
  have fin: "finite_num (oi_createdAt i)" "finite_num (oi_attempt i)" "finite_num (oi_maxAttempts i)" "finite_num (oi_notBeforeMs i)"
    using assms(2) by (auto simp: delayable_intent_def)
  have n: "lua_tostring U (JNum (num_of y)) = show_num y" if "finite_num y" for y
    using finite_numD [OF that] by (metis lua_tostring.simps(2) show_num.simps(1))
  have e: "lua_arg U (Some (lua_or (json_get ''lastError'' (JObj b)) (JStr []))) = Some (or_else (oi_lastError i) [])"
    unfolding g(9) by (cases "oi_lastError i") (auto simp: lua_or_def or_else_def)
  define fs where "fs = [(''intentId'', oi_intentId i), (''activityId'', oi_activityId i), (''actorUri'', oi_actorUri i),
     (''activity'', oi_activity i), (''targets'', cj_encode U tv), (''createdAt'', show_num (oi_createdAt i)),
     (''attempt'', show_num (oi_attempt i)), (''maxAttempts'', show_num (oi_maxAttempts i)),
     (''notBeforeMs'', show_num (oi_notBeforeMs i)), (''lastError'', or_else (oi_lastError i) []),
     (''meta'', encoded_opt U (json_get ''meta'' (JObj b))), (''bridgeHints'', encoded_opt U (json_get ''bridgeHints'' (JObj b)))]"
  have "promoted_intent_fields U (JObj b) = Some fs"
    unfolding promoted_intent_fields_def g(1-8) e tv(1) fs_def
    by (simp add: or_else_def encoded_opt_def fin n del: lua_tostring.simps json_get.simps)
  moreover have "intent_valid (oi_intentId i) (JObj b)"
    unfolding intent_valid_def g(1-8) tv(1) using tt by (simp del: json_get.simps)
  ultimately have p: "intent_promoted U i fs" using d by (auto simp: intent_promoted_def)
  have m: "map_of fs ''meta'' = Some (encoded_opt U (json_get ''meta'' (JObj b)))"
    "map_of fs ''bridgeHints'' = Some (encoded_opt U (json_get ''bridgeHints'' (JObj b)))"
    "map_of fs ''targets'' = Some (cj_encode U tv)"
    by (simp_all add: fs_def)
  show thesis
    by (rule that [OF p _ _ _ _ _ _ _ _ _ m(3) _ encoded_read_back [OF assms(1) r(2) pl m(1)] encoded_read_back [OF assms(1) r(3) pl m(2)]])
      (use x lua_same_trans [OF tv(2) x(2)] in \<open>auto simp: fs_def\<close>)
qed

text \<open>A delayed intent comes back as it was put in: promoted and read back from the ready stream it has its identity, its
  activity, its times and its counters, and targets, metadata and hints that differ from the original
  at most by the order of keys and by empty arrays inside them, which Lua turns into empty objects.\<close>
theorem delayed_intent_comes_back:
  assumes "lua_lib_ok U" and "delayable_intent i" and "unreserved (oi_activity i)" and "oi_targets i \<noteq> []"
    and "intent_promoted U i fs"
  shows "\<exists>ts m hints. deserializeOutboxIntent (payload_decode L cc) k fs st =
      (Inr ((stored_intent i)\<lparr>oi_targets := ts, oi_meta := m, oi_bridgeHints := hints\<rparr>), st) \<and>
    list_all2 lua_same (oi_targets i) ts \<and> rel_option lua_same (oi_meta i) m \<and> rel_option lua_same (oi_bridgeHints i) hints"
proof -
  obtain fs' tt where p: "intent_promoted U i fs'"
    and f: "map_of fs' ''intentId'' = Some (oi_intentId i)" "map_of fs' ''activityId'' = Some (oi_activityId i)"
    "map_of fs' ''actorUri'' = Some (oi_actorUri i)" "map_of fs' ''activity'' = Some (oi_activity i)"
    "map_of fs' ''createdAt'' = Some (show_num (oi_createdAt i))" "map_of fs' ''attempt'' = Some (show_num (oi_attempt i))"
    "map_of fs' ''maxAttempts'' = Some (show_num (oi_maxAttempts i))"
    "map_of fs' ''notBeforeMs'' = Some (show_num (oi_notBeforeMs i))"
    "map_of fs' ''lastError'' = Some (or_else (oi_lastError i) [])"
    "map_of fs' ''targets'' = Some tt" and t: "\<exists>x. json_parse tt = Some x \<and> lua_same (JArr (oi_targets i)) x"
    and m: "\<exists>m. json_field fs' ''meta'' st = (Inr m, st) \<and> rel_option lua_same (oi_meta i) m"
    and b: "\<exists>m. json_field fs' ''bridgeHints'' st = (Inr m, st) \<and> rel_option lua_same (oi_bridgeHints i) m"
    by (rule promoted_intent [OF assms(1,2)])
  have same: "fs = fs'" using assms(5) p by (auto simp: intent_promoted_def)
  obtain ts where ts: "json_parse tt = Some (JArr ts)" "list_all2 lua_same (oi_targets i) ts"
    using t assms(4) by (auto elim: lua_same_arrE)
  obtain m' where m': "json_field fs' ''meta'' st = (Inr m', st)" "rel_option lua_same (oi_meta i) m'" using m by blast
  obtain b' where b': "json_field fs' ''bridgeHints'' st = (Inr b', st)" "rel_option lua_same (oi_bridgeHints i) b'" using b by blast
  have num: "stored_num x" if "finite_num x" for x using that by (cases x) (auto simp: finite_num_def stored_num_def)
  have n: "stored_num (oi_createdAt i)" "stored_num (oi_attempt i)" "stored_num (oi_maxAttempts i)" "stored_num (oi_notBeforeMs i)"
    using assms(2) num by (auto simp: delayable_intent_def)
  have "deserializeOutboxIntent (payload_decode L cc) k fs st =
      (Inr ((stored_intent i)\<lparr>oi_targets := ts, oi_meta := m', oi_bridgeHints := b'\<rparr>), st)"
    unfolding same
    by (simp add: deserializeOutboxIntent_def f plain_payload [OF json_text_unreserved [OF ts(1)]] plain_payload [OF assms(3)]
        parse_targets_def json_parse_io_def ts(1) m'(1) b'(1) field_opt_text io_bind_def io_return_def stored_intent_def
        stored_num_text n)
  with ts(2) m'(2) b'(2) show ?thesis by blast
qed

text \<open>An intent without targets does not come back: its empty list of targets is promoted as an empty object, and every
  attempt to read the ready entry fails; so a zero-target plan whose event could not be published at once is never completed.\<close>
theorem empty_targets_do_not_come_back:
  assumes "lua_lib_ok U" and "delayable_intent i" and "oi_targets i = []" and "intent_promoted U i fs"
  shows "deserializeOutboxIntent (payload_decode L cc) k fs st =
    (Inl (''Stream message '' @ k @ '' has invalid outbox intent targets''), st)"
proof -
  obtain fs' tt where p: "intent_promoted U i fs'" and f: "map_of fs' ''targets'' = Some tt"
    and t: "\<exists>x. json_parse tt = Some x \<and> lua_same (JArr (oi_targets i)) x"
    by (rule promoted_intent [OF assms(1,2)])
  have same: "fs = fs'" using assms(4) p by (auto simp: intent_promoted_def)
  have j: "json_parse tt = Some (JObj [])" using t assms(3) by (auto elim: lua_same_arrE)
  show ?thesis
    unfolding same
    by (simp add: deserializeOutboxIntent_def f plain_payload [OF json_text_unreserved [OF j]] parse_targets_def json_parse_io_def j
        io_bind_def io_return_def io_throw_def)
qed

section \<open>A concrete store\<close>

definition sample_scheduler :: intent_scheduler where
  "sample_scheduler = (createRedisOutboxIntentDelaySchedulerFromEnv (\<lambda>_. None))\<lparr>is_open := True\<rparr>"

abbreviation "sample_keys \<equiv> is_keys sample_scheduler"

lemma sample_scheduler_facts:
  "scheduler_keys_ok sample_scheduler" "delay_keys_ok sample_keys" "is_open sample_scheduler" "\<not> is_promotionRunning sample_scheduler"
  "is_promotionBatchSize sample_scheduler = 100" "delayable_intent sample_intent" "oi_intentId sample_intent = ''i1''"
  "intent_rank sample_intent = (1, 2000)" "unreserved (oi_activity sample_intent)"
  by (simp_all add: sample_scheduler_def createRedisOutboxIntentDelaySchedulerFromEnv_def scheduler_constructor_def or_else_def
      scheduler_keys_ok_def delay_keys_ok_def OUTBOX_INTENT_DELAY_PROMOTION_BATCH_SIZE_def sample_intent_def delayable_intent_def
      finite_num_def intent_rank_def num_of_def unreserved_def starts_with_def REDIS_STREAM_PAYLOAD_UNKNOWN_PREFIX_def)

interpretation intents: delay_scripts ks_server "\<lambda>ks. ks" sample_lua sample_keys oi_intentId intent_rank intent_text delayable_intent
  by (rule intent_scripts [OF redis_server_ks_server sample_lua_ok sample_scheduler_facts(2)])

lemma empty_intent_inv: "intent_inv K empty_ks"
  by (simp add: delay_inv_def empty_ks_def ks_zlist_def ks_hget_def)

theorem replacement_is_atomic_witness:
  "\<exists>s' best. persistReplacementAndAck sample_lua ks_server sample_scheduler ''1-0'' sample_intent 1500 empty_ks = (Inr (), s') \<and>
    delayed_rank_at sample_lua sample_keys ''i1'' s' = Some best \<and> (1, 2000) \<le> best"
proof -
  obtain r s' where p: "persistReplacementAndAck sample_lua ks_server sample_scheduler ''1-0'' sample_intent 1500 empty_ks = (r, s')"
    by fastforce
  have n: "num_of (oi_notBeforeMs sample_intent) = 2000" by (simp add: sample_intent_def num_of_def)
  from replacement_is_atomic [OF redis_server_ks_server sample_lua_ok sample_scheduler_facts(2,6) empty_intent_inv p] p
  show ?thesis by (auto simp: sample_scheduler_facts(3,7,8) n)
qed

definition parked_ks :: keyspace where
  "parked_ks = ks_zadd (scheduleKey sample_keys) 2000 ''i1'' (ks_hset (payloadKey sample_keys) ''i1'' (intent_text sample_intent) empty_ks)"

definition damaged_ks :: "string \<Rightarrow> keyspace" where
  "damaged_ks v = ks_zadd (scheduleKey sample_keys) 1000 ''i0'' (ks_hset (payloadKey sample_keys) ''i0'' v parked_ks)"

lemma sample_keys_neq:
  "scheduleKey sample_keys \<noteq> payloadKey sample_keys" "payloadKey sample_keys \<noteq> scheduleKey sample_keys"
  using sample_scheduler_facts(2) by (auto simp: delay_keys_ok_def)

lemma damaged_facts:
  "ks_zlist (scheduleKey sample_keys) (damaged_ks v) = [(''i0'', 1000), (''i1'', 2000)]"
  "ks_hget (payloadKey sample_keys) i (damaged_ks v) =
    (if i = ''i0'' then Some v else if i = ''i1'' then Some (intent_text sample_intent) else None)"
  "2000 \<le> now \<Longrightarrow> r_zrange ks_server (scheduleKey sample_keys) now (is_promotionBatchSize sample_scheduler) (damaged_ks v) = [''i0'', ''i1'']"
proof -
  have e: "ks_zlist k empty_ks = []" "ks_hget k i empty_ks = None" for k i
    by (simp_all add: empty_ks_def ks_zlist_def ks_hget_def)
  show z: "ks_zlist (scheduleKey sample_keys) (damaged_ks v) = [(''i0'', 1000), (''i1'', 2000)]"
    using sample_keys_neq by (simp add: damaged_ks_def parked_ks_def ks_rules e zset_put_def)
  show "ks_hget (payloadKey sample_keys) i (damaged_ks v) =
      (if i = ''i0'' then Some v else if i = ''i1'' then Some (intent_text sample_intent) else None)"
    using sample_keys_neq by (simp add: damaged_ks_def parked_ks_def ks_rules e)
  show "2000 \<le> now \<Longrightarrow> r_zrange ks_server (scheduleKey sample_keys) now (is_promotionBatchSize sample_scheduler) (damaged_ks v) = [''i0'', ''i1'']"
    by (simp add: ks_server_def ks_zrange_def z sample_scheduler_facts(5))
qed

lemma brace_undecodable: "cj_decode sample_lua ''{'' = None"
  by (simp add: sample_lua_def json_parse_def skip_ws_def starts_with_def numeral_eq_Suc)

lemma sample_intent_usable:
  obtains b where "cj_decode sample_lua (intent_text sample_intent) = Some (JObj b)" "intent_valid ''i1'' (JObj b)"
    "json_get ''lastError'' (JObj b) = Some (JStr ''x'')"
proof -
  obtain b where "cj_decode sample_lua (intent_text sample_intent) = Some (JObj b)"
    "json_get ''lastError'' (JObj b) = map_option JStr (oi_lastError sample_intent)"
    by (rule decoded_intent [OF sample_lua_ok sample_scheduler_facts(6)])
  moreover obtain fs tt where "intent_promoted sample_lua sample_intent fs"
    by (rule promoted_intent [OF sample_lua_ok sample_scheduler_facts(6)])
  ultimately show thesis using that by (auto simp: intent_promoted_def sample_intent_def)
qed

lemma damaged_promotable: "promotable sample_lua (r_hget ks_server (payloadKey sample_keys) i (damaged_ks ''{''))"
proof -
  obtain b where "cj_decode sample_lua (intent_text sample_intent) = Some (JObj b)"
    "json_get ''lastError'' (JObj b) = Some (JStr ''x'')" by (rule sample_intent_usable)
  then show ?thesis
    by (simp add: promotable_def kss.hget_view damaged_facts(2) brace_undecodable del: json_get.simps)
qed

theorem promotion_skips_corrupt_witness:
  "\<exists>n s'. promoteDue sample_lua ks_server sample_scheduler 5000 (damaged_ks ''{'') = (Inr n, s')"
  by (rule promotion_skips_corrupt [OF redis_server_ks_server sample_scheduler_facts(1)])
     (use damaged_promotable in \<open>simp_all add: damaged_facts(1)\<close>)

theorem promotion_accounts_for_all_witness:
  "\<exists>s'. promoteDue sample_lua ks_server sample_scheduler 5000 (damaged_ks ''{'') = (Inr 1, s') \<and>
    ks_hget (payloadKey sample_keys) ''i0'' s' = None \<and> ks_zlist (scheduleKey sample_keys) s' = []"
proof -
  have d: "distinct (map fst (ks_zlist (scheduleKey sample_keys) (damaged_ks ''{'')))" by (simp add: damaged_facts(1))
  have dd: "distinct [''i0'', ''i1'']" by simp
  have z: "[''i0'', ''i1''] = r_zrange ks_server (scheduleKey sample_keys) 5000 (is_promotionBatchSize sample_scheduler) (damaged_ks ''{'')"
    by (simp add: damaged_facts(3))
  obtain n s' where "promote_intent_loop sample_lua ks_server sample_scheduler 5000 [''i0'', ''i1''] 0 (damaged_ks ''{'') = (Inr n, s')"
    using promotable_loop [OF redis_server_ks_server sample_scheduler_facts(1) dd] damaged_promotable by blast
  then have run: "promoteDue sample_lua ks_server sample_scheduler 5000 (damaged_ks ''{'') = (Inr n, s')"
    by (simp add: promoteDue_def sample_scheduler_facts(3,4) z [symmetric])
  obtain b where b: "cj_decode sample_lua (intent_text sample_intent) = Some (JObj b)" "intent_valid ''i1'' (JObj b)"
    by (rule sample_intent_usable)
  have u: "usable_record sample_lua sample_keys (damaged_ks ''{'') ''i0'' = None"
    "usable_record sample_lua sample_keys (damaged_ks ''{'') ''i1'' = Some (JObj b)"
    by (simp_all add: usable_record_def damaged_facts(2) brace_undecodable b)
  note p = promotion_accounts_for_all [OF redis_server_ks_server sample_scheduler_facts(1,3,4) d z run, unfolded Let_def]
  have "n = length (filter (\<lambda>i. usable_record sample_lua sample_keys (damaged_ks ''{'') i \<noteq> None) [''i0'', ''i1''])"
    by (rule conjunct1 [OF p])
  then have "n = 1" by (simp add: u)
  moreover have "ks_hget (payloadKey sample_keys) ''i0'' s' = None" using p by auto
  moreover have "ks_zlist (scheduleKey sample_keys) s' = []" using p by (simp add: damaged_facts(1))
  ultimately show ?thesis using run by blast
qed

theorem scalar_record_blocks_promotion_witness:
  "promoteDue sample_lua ks_server sample_scheduler 999000 (damaged_ks ''null'') =
    (Inl ''ERR attempt to index a non-table value'', damaged_ks ''null'')"
proof -
  have d: "cj_decode sample_lua ''null'' \<in> {Some (JNum 0), Some (JBool True), Some JNull}"
    by (simp add: sample_lua_def json_parse_def skip_ws_def starts_with_def numeral_eq_Suc json_space_def)
  have h: "r_hget ks_server (payloadKey sample_keys) ''i0'' (damaged_ks ''null'') = Some ''null''"
    by (simp add: kss.hget_view damaged_facts(2))
  show ?thesis
    by (rule scalar_record_blocks_promotion [OF redis_server_ks_server sample_scheduler_facts(3,4) _ _ damaged_facts(3) [where now = 2000, OF order_refl] h d])
      (simp_all add: sample_scheduler_facts(5) damaged_facts(1))
qed

theorem delayed_intent_comes_back_witness:
  "\<exists>fs i'. intent_promoted sample_lua sample_intent fs \<and>
    deserializeOutboxIntent (payload_decode run_codec_lib sample_config) ''2-0'' fs new_codec_state = (Inr i', new_codec_state) \<and>
    oi_intentId i' = ''i1'' \<and> oi_attempt i' = Num 1"
proof -
  obtain fs tt where p: "intent_promoted sample_lua sample_intent fs"
    by (rule promoted_intent [OF sample_lua_ok sample_scheduler_facts(6)])
  have t: "oi_targets sample_intent \<noteq> []" by (simp add: sample_intent_def)
  from delayed_intent_comes_back [OF sample_lua_ok sample_scheduler_facts(6,9) t p, of run_codec_lib sample_config "''2-0''" new_codec_state]
  show ?thesis using p by (auto simp: stored_intent_def sample_intent_def)
qed

theorem empty_targets_do_not_come_back_witness:
  "\<exists>fs. intent_promoted sample_lua (sample_intent\<lparr>oi_targets := []\<rparr>) fs \<and>
    deserializeOutboxIntent (payload_decode run_codec_lib sample_config) ''2-0'' fs new_codec_state =
      (Inl ''Stream message 2-0 has invalid outbox intent targets'', new_codec_state)"
proof -
  have d: "delayable_intent (sample_intent\<lparr>oi_targets := []\<rparr>)" using sample_scheduler_facts(6) by (simp add: delayable_intent_def)
  obtain fs tt where p: "intent_promoted sample_lua (sample_intent\<lparr>oi_targets := []\<rparr>) fs"
    by (rule promoted_intent [OF sample_lua_ok d])
  from empty_targets_do_not_come_back [OF sample_lua_ok d _ p, of run_codec_lib sample_config "''2-0''" new_codec_state]
  show ?thesis using p by auto
qed

end
