(* ===== verification/Protocol_Runs.thy ===== *)
theory Protocol_Runs
  imports Prelude
begin

text \<open>
  Asynchronous methods that follow a protocol.  A protocol is a step relation on the states of an
  observer that reads the trace of calls (newest first); \<open>runs\<close> says that a method only makes calls the
  protocol allows, and where the observer is when it resolves or rejects.  One rule per construct of the
  asynchronous methods; the rules for the calls themselves belong to the component.
\<close>

section \<open>Protocols\<close>

record ('w, 'e, 'p, 'v) protocol =
  pt_step :: "'p \<Rightarrow> 'e \<Rightarrow> 'p \<Rightarrow> bool"
  pt_start :: 'p
  pt_trace :: "'w \<Rightarrow> 'e list"
  pt_view :: "'w \<Rightarrow> 'v"

text \<open>The states a trace can lead to; \<open>pt_view\<close> are the local variables of the method the proof keeps track of.\<close>

inductive leads :: "('w, 'e, 'p, 'v) protocol \<Rightarrow> 'e list \<Rightarrow> 'p \<Rightarrow> bool"
  for P where
  nothing: "leads P [] (pt_start P)"
| event: "leads P es s \<Longrightarrow> pt_step P s e s' \<Longrightarrow> leads P (e # es) s'"

inductive_cases leads_ConsE: "leads P (e # es) s"
inductive_cases leads_NilE: "leads P [] s"

definition arrives :: "('w, 'e, 'p, 'v) protocol \<Rightarrow> ('p \<Rightarrow> 'v \<Rightarrow> bool) \<Rightarrow> 'w \<Rightarrow> bool" where
  "arrives P Q w \<longleftrightarrow> (\<exists>s. leads P (pt_trace P w) s \<and> Q s (pt_view P w))"

definition runs ::
  "('w, 'e, 'p, 'v) protocol \<Rightarrow> ('w, 'err, 'a) eio \<Rightarrow> ('a \<Rightarrow> 'p \<Rightarrow> 'v \<Rightarrow> bool) \<Rightarrow> ('err \<Rightarrow> 'p \<Rightarrow> 'v \<Rightarrow> bool) \<Rightarrow>
   'p \<Rightarrow> 'v \<Rightarrow> bool" where
  "runs P m Q E s v \<longleftrightarrow>
     (\<forall>w. leads P (pt_trace P w) s \<longrightarrow> pt_view P w = v \<longrightarrow>
        wp m (\<lambda>a. arrives P (Q a)) (\<lambda>e. arrives P (E e)) w)"

lemma arrivesI: "leads P (pt_trace P w) s \<Longrightarrow> Q s (pt_view P w) \<Longrightarrow> arrives P Q w"
  by (auto simp: arrives_def)

lemma arrivesE:
  assumes "arrives P Q w"
  obtains s where "leads P (pt_trace P w) s" "Q s (pt_view P w)"
  using assms by (auto simp: arrives_def)

lemma runsI:
  assumes "\<And>w. leads P (pt_trace P w) s \<Longrightarrow> pt_view P w = v \<Longrightarrow> wp m (\<lambda>a. arrives P (Q a)) (\<lambda>e. arrives P (E e)) w"
  shows "runs P m Q E s v"
  using assms by (simp add: runs_def)

lemma runsD:
  "runs P m Q E s v \<Longrightarrow> leads P (pt_trace P w) s \<Longrightarrow> pt_view P w = v \<Longrightarrow>
    wp m (\<lambda>a. arrives P (Q a)) (\<lambda>e. arrives P (E e)) w"
  by (simp add: runs_def)

text \<open>From where the method has arrived it goes on with whatever runs from there.\<close>

lemma arrives_runs:
  assumes "arrives P (runs P m Q E) w"
  shows "wp m (\<lambda>a. arrives P (Q a)) (\<lambda>e. arrives P (E e)) w"
  using assms by (auto elim!: arrivesE dest: runsD)

section \<open>The constructs\<close>

named_theorems run_rules \<open>following a protocol, construct by construct\<close>

lemma run_return [run_rules]: "Q a s v \<Longrightarrow> runs P (io_return a) Q E s v"
  by (rule runsI) (auto simp: wp_return intro: arrivesI)

lemma run_throw [run_rules]: "E e s v \<Longrightarrow> runs P (io_throw e) Q E s v"
  by (rule runsI) (auto simp: wp_throw intro: arrivesI)

lemma run_mono:
  assumes "runs P m Q E s v" and "\<And>a s v. Q a s v \<Longrightarrow> Q' a s v" and "\<And>e s v. E e s v \<Longrightarrow> E' e s v"
  shows "runs P m Q' E' s v"
  by (rule runsI, rule wp_mono [OF runsD [OF assms(1)]]) (use assms(2,3) in \<open>auto simp: arrives_def\<close>)

lemma run_bind [run_rules]:
  assumes "runs P m (\<lambda>a. runs P (f a) Q E) E s v"
  shows "runs P (io_bind m f) Q E s v"
  by (rule runsI, unfold wp_bind, rule wp_mono [OF runsD [OF assms]]) (auto intro: arrives_runs)

lemma run_then [run_rules]: "runs P m (\<lambda>_. runs P n Q E) E s v \<Longrightarrow> runs P (io_then m n) Q E s v"
  unfolding io_then_def by (rule run_bind)

lemma run_catch [run_rules]:
  assumes "runs P m Q (\<lambda>e. runs P (f e) Q E) s v"
  shows "runs P (io_catch m f) Q E s v"
  by (rule runsI, unfold wp_catch, rule wp_mono [OF runsD [OF assms]]) (auto intro: arrives_runs)

lemma run_finally [run_rules]:
  assumes "runs P m (\<lambda>a. runs P f (\<lambda>_. Q a) E) (\<lambda>e. runs P f (\<lambda>_. E e) E) s v"
  shows "runs P (io_finally m f) Q E s v"
  by (rule runsI, unfold wp_finally, rule wp_mono [OF runsD [OF assms]]) (auto intro: arrives_runs)

lemma run_if [run_rules]:
  "(b \<Longrightarrow> runs P m Q E s v) \<Longrightarrow> (\<not> b \<Longrightarrow> runs P n Q E s v) \<Longrightarrow> runs P (if b then m else n) Q E s v"
  by simp

text \<open>A method that may look at its world first.\<close>

lemma run_cong:
  assumes "runs P n Q E s v" and "\<And>w. pt_view P w = v \<Longrightarrow> m w = n w"
  shows "runs P m Q E s v"
  using assms by (auto simp: runs_def wp_def)

text \<open>A local step: the trace stays, the view may change.\<close>

lemma run_local:
  assumes "\<And>w. pt_trace P (g w) = pt_trace P w" and "\<And>w. pt_view P (g w) = h (pt_view P w)" and "Q () s (h v)"
  shows "runs P (\<lambda>w. (Inr (), g w)) Q E s v"
proof (rule runsI)
  fix w assume w: "leads P (pt_trace P w) s" "pt_view P w = v"
  have "arrives P (Q ()) (g w)" by (rule arrivesI) (use w assms in simp_all)
  then show "wp (\<lambda>w. (Inr (), g w)) (\<lambda>a. arrives P (Q a)) (\<lambda>e. arrives P (E e)) w" by (simp add: wp_def)
qed

text \<open>A call: one event, which depends on the answer, and the view stays.\<close>

definition makes_call :: "('w, 'e, 'p, 'v) protocol \<Rightarrow> (string + 'a \<Rightarrow> 'e) \<Rightarrow> ('w, 'err, 'a) eio \<Rightarrow> bool" where
  "makes_call P ev m \<longleftrightarrow>
     (\<forall>w. case m w of (r, w') \<Rightarrow> pt_view P w' = pt_view P w \<and>
        ((\<exists>a. r = Inr a \<and> pt_trace P w' = ev (Inr a) # pt_trace P w) \<or>
         (\<exists>e e'. r = Inl e \<and> pt_trace P w' = ev (Inl e') # pt_trace P w)))"

lemma run_call:
  assumes "makes_call P ev m"
    and "\<And>a. \<exists>s'. pt_step P s (ev (Inr a)) s' \<and> Q a s' v"
    and "\<And>e e'. \<exists>s'. pt_step P s (ev (Inl e')) s' \<and> E e s' v"
  shows "runs P m Q E s v"
proof (rule runsI)
  fix w assume w: "leads P (pt_trace P w) s" "pt_view P w = v"
  obtain r w' where r: "m w = (r, w')" by fastforce
  with assms(1) w have v': "pt_view P w' = v" by (auto simp: makes_call_def dest!: spec [of _ w])
  show "wp m (\<lambda>a. arrives P (Q a)) (\<lambda>e. arrives P (E e)) w"
  proof (cases r)
    case (Inl e)
    with assms(1) r obtain e' where t: "pt_trace P w' = ev (Inl e') # pt_trace P w"
      by (auto simp: makes_call_def dest!: spec [of _ w])
    obtain s' where "pt_step P s (ev (Inl e')) s'" "E e s' v" using assms(3) by blast
    with Inl t v' w r show ?thesis by (auto simp: wp_def intro!: arrivesI leads.event)
  next
    case (Inr a)
    with assms(1) r have t: "pt_trace P w' = ev (Inr a) # pt_trace P w"
      by (auto simp: makes_call_def dest!: spec [of _ w])
    obtain s' where "pt_step P s (ev (Inr a)) s'" "Q a s' v" using assms(2) by blast
    with Inr t v' w r show ?thesis by (auto simp: wp_def intro!: arrivesI leads.event)
  qed
qed

section \<open>Invariants of traces\<close>

lemma leads_invariant:
  assumes "leads P es s" and "I [] (pt_start P)"
    and "\<And>es s e s'. leads P es s \<Longrightarrow> I es s \<Longrightarrow> pt_step P s e s' \<Longrightarrow> I (e # es) s'"
  shows "I es s"
  using assms by (induction rule: leads.induct) auto

text \<open>What holds of a trace when an event is made: the state before it.\<close>

lemma leads_split:
  assumes "leads P (later @ e # earlier) s"
  shows "\<exists>t t'. leads P earlier t \<and> pt_step P t e t'"
  using assms
proof (induction later arbitrary: s)
  case Nil
  then have "leads P (e # earlier) s" by simp
  then show ?case by (rule leads_ConsE) blast
next
  case (Cons x later)
  then show ?case by (auto elim: leads_ConsE)
qed

text \<open>From the specification of a method to one of its runs.\<close>

lemma runs_result:
  assumes "runs P m Q E (pt_start P) v" and "pt_trace P w = []" and "pt_view P w = v" and "m w = (r, w')"
  shows "\<exists>s. leads P (pt_trace P w') s \<and> (\<forall>a. r = Inr a \<longrightarrow> Q a s (pt_view P w')) \<and> (\<forall>e. r = Inl e \<longrightarrow> E e s (pt_view P w'))"
proof -
  have "leads P (pt_trace P w) (pt_start P)" using assms(2) by (simp add: leads.nothing)
  with runsD [OF assms(1), of w] assms(3,4) show ?thesis
    by (cases r) (auto simp: wp_def elim!: arrivesE)
qed

end
