(* ===== verification/Intent_Worker.thy ===== *)
theory Intent_Worker
  imports Intent_Scheduler Delivery_Policy
begin

text \<open>
  \<open>fedify-sidecar/src/delivery/outbox-intent-worker.ts\<close>: one committed local activity, from the
  outbox-intent stream to the event log and to one outbound job per delivery target.  The queue, the RedPanda producer and the
  delay scheduler are services: parameters that may answer or fail in any way.  The world records
  every call in a trace, newest first.  Log lines, metrics and the loop of \<open>start\<close> are not modelled.
\<close>

section \<open>Services and configuration\<close>

record tombstone_event =
  te_activityId :: string
  te_objectId :: "string option"
  te_actorUri :: string
  te_deletedAt :: jsnum
  te_outboxIntentId :: string

record activity_event =
  ae_activity :: json
  ae_actorUri :: string
  ae_publishedAt :: jsnum
  ae_meta :: "json option"
  ae_outboxIntentId :: string

record 's producer =
  pr_publishTombstone :: "tombstone_event \<Rightarrow> ('s, string, unit) eio"
  pr_publishToStream1 :: "activity_event \<Rightarrow> ('s, string, unit) eio"

text \<open>
  \<open>iv_persist\<close> is the delay scheduler, if there is one; \<open>iv_json_error\<close> the message of a failed
  \<open>JSON.parse\<close>.  A service fails with an \<open>Error\<close> of which only the message matters.
\<close>

record 's intent_services =
  iv_now :: "'s \<Rightarrow> int \<times> 's"
  iv_getState :: "string \<Rightarrow> ('s, string, OutboxIntentState) eio"
  iv_markPublished :: "string \<Rightarrow> ('s, string, unit) eio"
  iv_markCompleted :: "string \<Rightarrow> ('s, string, unit) eio"
  iv_enqueueBatch :: "string \<Rightarrow> OutboundJob list \<Rightarrow> ('s, string, bool \<times> jsnum) eio"
  iv_ack :: "string \<Rightarrow> ('s, string, unit) eio"
  iv_moveToDlq :: "OutboxIntent \<Rightarrow> string \<Rightarrow> ('s, string, unit) eio"
  iv_redpanda :: "'s producer option"
  iv_persist :: "(string \<Rightarrow> OutboxIntent \<Rightarrow> ('s, string, unit) eio) option"
  iv_parse :: url_lib
  iv_print :: "url \<Rightarrow> string"
  iv_env :: "string \<Rightarrow> string option"
  iv_json_error :: "string \<Rightarrow> string"

record intent_config =
  ic_concurrency :: jsnum
  ic_outboundJobMaxAttempts :: jsnum
  ic_deliveryPolicy :: delivery_policy

text \<open>\<open>createOutboxIntentWorker\<close>; \<open>overrides\<close> is the spread of the given options.\<close>

definition intent_env_int :: "(string \<Rightarrow> string option) \<Rightarrow> string \<Rightarrow> string \<Rightarrow> jsnum" where
  "intent_env_int env name fallback =
     parse_int (case env name of None \<Rightarrow> fallback | Some t \<Rightarrow> if t = [] then fallback else t)"

definition createOutboxIntentWorker ::
  "(string \<Rightarrow> string option) \<Rightarrow> (intent_config \<Rightarrow> intent_config) \<Rightarrow> delivery_policy \<Rightarrow> intent_config" where
  "createOutboxIntentWorker env overrides policy =
     overrides \<lparr>ic_concurrency = intent_env_int env ''OUTBOX_INTENT_CONCURRENCY'' ''8'',
       ic_outboundJobMaxAttempts = intent_env_int env ''OUTBOUND_MAX_ATTEMPTS'' ''10'', ic_deliveryPolicy = policy\<rparr>"

section \<open>Errors\<close>

text \<open>\<open>OutboxIntentProcessingError message permanent\<close> and the errors of what the worker calls.\<close>

datatype intent_error =
    Processing string bool
  | Webhook webhook_error
  | Unsafe_json safe_json_error
  | Call_failed string

fun safe_json_message :: "safe_json_error \<Rightarrow> string" where
  "safe_json_message SAFE_JSON_INVALID_TYPE = ''Expected a JSON object payload.''"
| "safe_json_message SAFE_JSON_TOO_DEEP = ''JSON payload exceeded maximum depth 12.''"
| "safe_json_message SAFE_JSON_TOO_LARGE = ''Serialized JSON payload exceeds the limit.''"
| "safe_json_message SAFE_JSON_TOO_MANY_NODES = ''JSON payload exceeded 10000 traversed nodes.''"
| "safe_json_message SAFE_JSON_TOO_MANY_KEYS = ''JSON object exceeded maximum key count 1000.''"
| "safe_json_message SAFE_JSON_ARRAY_TOO_LARGE = ''JSON array exceeded maximum length 1000.''"

fun intent_error_message :: "intent_error \<Rightarrow> string" where
  "intent_error_message (Processing m _) = m"
| "intent_error_message (Webhook (Validation _ _ m)) = m"
| "intent_error_message (Webhook InvalidUrl) = ''Invalid URL''"
| "intent_error_message (Unsafe_json e) = safe_json_message e"
| "intent_error_message (Call_failed m) = m"

fun isPermanentFailure :: "intent_error \<Rightarrow> bool" where
  "isPermanentFailure (Processing _ permanent) = permanent"
| "isPermanentFailure (Webhook (Validation _ statusCode _)) = (statusCode \<ge> 400 \<and> statusCode < 500)"
| "isPermanentFailure _ = False"

section \<open>Calls\<close>

text \<open>
  The flag of an event tells whether the call resolved.  \<open>IvFanout jobs r\<close>: \<open>Some True\<close> if the queue appended the
  jobs, \<open>Some False\<close> if it had done so before, \<open>None\<close> if the call was rejected.
\<close>

datatype intent_event =
    IvTime int
  | IvState "OutboxIntentState option"
  | IvTombstone tombstone_event bool
  | IvPublish activity_event bool
  | IvMarkPublished bool
  | IvFanout "OutboundJob list" "bool option"
  | IvMarkCompleted bool
  | IvAck bool
  | IvDlq OutboxIntent string bool
  | IvPark OutboxIntent bool

record 's intent_world =
  iw_srv :: 's
  iw_trace :: "intent_event list"
  iw_active :: int
  iw_parking :: bool

fun answer :: "string + 'a \<Rightarrow> 'a option" where
  "answer (Inl _) = None"
| "answer (Inr a) = Some a"

fun went_well :: "string + 'a \<Rightarrow> bool" where
  "went_well (Inl _) = False"
| "went_well (Inr _) = True"

definition icalled ::
  "(string + 'a \<Rightarrow> intent_event) \<Rightarrow> ('s, string, 'a) eio \<Rightarrow> ('s intent_world, intent_error, 'a) eio" where
  "icalled ev m w =
     (case m (iw_srv w) of (r, s) \<Rightarrow>
        (case r of Inl e \<Rightarrow> Inl (Call_failed e) | Inr a \<Rightarrow> Inr a, w\<lparr>iw_srv := s, iw_trace := ev r # iw_trace w\<rparr>))"

definition iclock :: "'s intent_services \<Rightarrow> ('s intent_world, intent_error, int) eio" where
  "iclock S = icalled (\<lambda>r. IvTime (case r of Inl _ \<Rightarrow> 0 | Inr t \<Rightarrow> t)) (\<lambda>s. case iv_now S s of (t, s') \<Rightarrow> (Inr t, s'))"

definition set_parking :: "bool \<Rightarrow> ('s intent_world, intent_error, unit) eio" where
  "set_parking b w = (Inr (), w\<lparr>iw_parking := b\<rparr>)"

definition iadd_active :: "int \<Rightarrow> ('s intent_world, intent_error, unit) eio" where
  "iadd_active d w = (Inr (), w\<lparr>iw_active := iw_active w + d\<rparr>)"

definition i_ack :: "'s intent_services \<Rightarrow> string \<Rightarrow> ('s intent_world, intent_error, unit) eio" where
  "i_ack S messageId = icalled (\<lambda>r. IvAck (went_well r)) (iv_ack S messageId)"

definition i_dlq :: "'s intent_services \<Rightarrow> OutboxIntent \<Rightarrow> string \<Rightarrow> ('s intent_world, intent_error, unit) eio" where
  "i_dlq S i reason = icalled (\<lambda>r. IvDlq i reason (went_well r)) (iv_moveToDlq S i reason)"

definition i_fanout :: "'s intent_services \<Rightarrow> OutboxIntent \<Rightarrow> OutboundJob list \<Rightarrow> ('s intent_world, intent_error, bool \<times> jsnum) eio" where
  "i_fanout S i jobs = icalled (\<lambda>r. IvFanout jobs (map_option fst (answer r))) (iv_enqueueBatch S (oi_intentId i) jobs)"

definition i_mark_completed :: "'s intent_services \<Rightarrow> OutboxIntent \<Rightarrow> ('s intent_world, intent_error, unit) eio" where
  "i_mark_completed S i = icalled (\<lambda>r. IvMarkCompleted (went_well r)) (iv_markCompleted S (oi_intentId i))"

text \<open>A JavaScript number as a condition.\<close>

fun num_truthy :: "jsnum option \<Rightarrow> bool" where
  "num_truthy None = False"
| "num_truthy (Some NaN) = False"
| "num_truthy (Some (Num t)) = (t \<noteq> 0)"
| "num_truthy (Some _) = True"

section \<open>The intent\<close>

definition assertIntentWithinReplayHorizon ::
  "'s intent_services \<Rightarrow> OutboxIntent \<Rightarrow> string \<Rightarrow> ('s intent_world, intent_error, unit) eio" where
  "assertIntentWithinReplayHorizon S i boundary =
     io_bind (iclock S) (\<lambda>nowMs.
       case outboxIntentAgeMs (oi_createdAt i) nowMs of
         None \<Rightarrow> io_throw (Processing (''Outbox intent has an invalid or implausibly future createdAt timestamp at '' @ boundary) True)
       | Some intentAgeMs \<Rightarrow>
           if intentAgeMs > APDM_OUTBOX_INTENT_MAX_AGE_MS
           then io_throw (Processing (''Outbox intent exceeded the '' @ show_int APDM_OUTBOX_INTENT_MAX_AGE_MS
                  @ '' ms APDM replay residence limit at '' @ boundary) True)
           else io_return ())"

definition parseIntentActivity :: "'s intent_services \<Rightarrow> OutboxIntent \<Rightarrow> intent_error + json" where
  "parseIntentActivity S i =
     (case json_parse (oi_activity i) of
        None \<Rightarrow> Inl (Processing (''Outbox intent activity is not valid JSON: '' @ iv_json_error S (oi_activity i)) True)
      | Some (JObj kvs) \<Rightarrow> Inr (JObj kvs)
      | Some _ \<Rightarrow> Inl (Processing ''Outbox intent activity must be a JSON object'' True))"

definition extractObjectId :: "json option \<Rightarrow> string option" where
  "extractObjectId objectValue =
     (case objectValue of Some (JObj kvs) \<Rightarrow> json_text (json_get ''id'' (JObj kvs)) | _ \<Rightarrow> None)"

definition meta_get :: "OutboxIntent \<Rightarrow> string \<Rightarrow> json option" where
  "meta_get i k = (case oi_meta i of None \<Rightarrow> None | Some m \<Rightarrow> json_get k m)"

definition is_lifecycle_removal :: "OutboxIntent \<Rightarrow> json \<Rightarrow> bool" where
  "is_lifecycle_removal i act \<longleftrightarrow>
     (let activityType = json_text (json_get ''type'' act)
      in activityType = Some ''Delete'' \<or> activityType = Some ''Tombstone'' \<or>
         (activityType = Some ''Undo'' \<and> meta_get i ''isDeleteOrTombstone'' = Some (JBool True)))"

definition is_public_activity :: "OutboxIntent \<Rightarrow> bool" where
  "is_public_activity i \<longleftrightarrow>
     meta_get i ''isPublicActivity'' = Some (JBool True) \<or> meta_get i ''visibility'' = Some (JStr ''public'') \<or>
     meta_get i ''visibility'' = Some (JStr ''unlisted'')"

definition tombstone_of :: "OutboxIntent \<Rightarrow> json \<Rightarrow> tombstone_event" where
  "tombstone_of i act =
     \<lparr>te_activityId = oi_activityId i,
      te_objectId = (case json_text (json_get ''object'' act) of Some t \<Rightarrow> Some t
                     | None \<Rightarrow> extractObjectId (json_get ''object'' act)),
      te_actorUri = oi_actorUri i, te_deletedAt = oi_createdAt i, te_outboxIntentId = oi_intentId i\<rparr>"

definition activity_event_of :: "OutboxIntent \<Rightarrow> json \<Rightarrow> activity_event" where
  "activity_event_of i act =
     \<lparr>ae_activity = act, ae_actorUri = oi_actorUri i, ae_publishedAt = oi_createdAt i, ae_meta = oi_meta i,
      ae_outboxIntentId = oi_intentId i\<rparr>"

definition publishEventLog :: "'s intent_services \<Rightarrow> OutboxIntent \<Rightarrow> json \<Rightarrow> ('s intent_world, intent_error, unit) eio" where
  "publishEventLog S i act =
     io_then
       (if is_lifecycle_removal i act then
          (case iv_redpanda S of
             None \<Rightarrow> io_throw (Processing ''RedPanda producer is unavailable for tombstone publication'' False)
           | Some p \<Rightarrow> icalled (\<lambda>r. IvTombstone (tombstone_of i act) (went_well r)) (pr_publishTombstone p (tombstone_of i act)))
        else io_return ())
       (if \<not> is_public_activity i then io_return ()
        else case iv_redpanda S of
          None \<Rightarrow> io_throw (Processing ''RedPanda producer is unavailable for local public activity publication'' False)
        | Some p \<Rightarrow> icalled (\<lambda>r. IvPublish (activity_event_of i act) (went_well r))
                      (pr_publishToStream1 p (activity_event_of i act)))"

definition normalizeBridgeHints :: "json option \<Rightarrow> string list option" where
  "normalizeBridgeHints bridgeHints =
     (case bridgeHints of
        Some (JObj kvs) \<Rightarrow>
          (case json_get ''noteLinkPreviewUrls'' (JObj kvs) of
             Some (JArr vs) \<Rightarrow>
               (let urls = filter (\<lambda>v. js_trim v \<noteq> []) (List.map_filter (\<lambda>v. json_text (Some v)) vs)
                in if urls = [] then None else Some urls)
           | _ \<Rightarrow> None)
      | _ \<Rightarrow> None)"

fun buildOutboundJobs ::
  "'s intent_services \<Rightarrow> intent_config \<Rightarrow> OutboxIntent \<Rightarrow> json \<Rightarrow> outbound_target list \<Rightarrow> intent_error + OutboundJob list" where
  "buildOutboundJobs S C i act [] = Inr []"
| "buildOutboundJobs S C i act (t # ts) =
     (case applyActivityPubOutboundDeliveryPolicy (iv_parse S) (iv_print S) act (ot_targetDomain t)
             (normalizeBridgeHints (oi_bridgeHints i)) (ic_deliveryPolicy C) of
        Inl e \<Rightarrow> Inl (Unsafe_json e)
      | Inr edited \<Rightarrow>
          (case buildOutboundJobs S C i act ts of
             Inl e \<Rightarrow> Inl e
           | Inr jobs \<Rightarrow> Inr
               (\<lparr>jobId = oi_activityId i @ ''::'' @ ot_deliveryUrl t, activityId = oi_activityId i, actorUri = oi_actorUri i,
                 activity = json_stringify edited, targetInbox = ot_deliveryUrl t, targetDomain = ot_targetDomain t,
                 attempt = Num 0, maxAttempts = ic_outboundJobMaxAttempts C, notBeforeMs = Num 0, deferCount = None,
                 lastError = None, meta = oi_meta i\<rparr> # jobs)))"

definition normalized_intent_targets :: "'s intent_services \<Rightarrow> OutboxIntent \<Rightarrow> intent_error + outbound_target list" where
  "normalized_intent_targets S i =
     (case normalizeAndDedupeOutboundTargets (iv_parse S) (iv_print S) (iv_env S) (Some (JArr (oi_targets i)))
             \<lparr>bp_maxPending = None, bp_maxQueueDepth = None, bp_retryAfterSeconds = None,
              bp_maxTargetsPerRequest = max (int (length (oi_targets i))) 1\<rparr> of
        Inl e \<Rightarrow> Inl (Webhook e)
      | Inr n \<Rightarrow> if nt_targets n = [] then Inl (Processing ''Outbox intent does not contain any valid delivery targets'' True)
                else Inr (nt_targets n))"

definition io_sum :: "'e + 'a \<Rightarrow> ('w, 'e, 'a) eio" where
  "io_sum x = (case x of Inl e \<Rightarrow> io_throw e | Inr a \<Rightarrow> io_return a)"

section \<open>Processing\<close>

definition persistDelayedReplacementAndAck ::
  "'s intent_services \<Rightarrow> string \<Rightarrow> OutboxIntent \<Rightarrow> ('s intent_world, intent_error, unit) eio" where
  "persistDelayedReplacementAndAck S messageId i =
     (case iv_persist S of
        None \<Rightarrow> io_throw (Call_failed ''Outbox intent delayed work requires a durable delay scheduler'')
      | Some persist \<Rightarrow> icalled (\<lambda>r. IvPark i (went_well r)) (persist messageId i))"

text \<open>\<open>intent.notBeforeMs > 0 && Date.now() < intent.notBeforeMs\<close>\<close>

definition intent_not_due :: "'s intent_services \<Rightarrow> OutboxIntent \<Rightarrow> ('s intent_world, intent_error, bool) eio" where
  "intent_not_due S i =
     (if \<not> js_lt (Num 0) (oi_notBeforeMs i) then io_return False
      else io_bind (iclock S) (\<lambda>nowMs. io_return (js_lt (Num nowMs) (oi_notBeforeMs i))))"

definition complete_and_ack :: "'s intent_services \<Rightarrow> string \<Rightarrow> OutboxIntent \<Rightarrow> OutboundJob list \<Rightarrow> ('s intent_world, intent_error, unit) eio" where
  "complete_and_ack S messageId i jobs =
     io_then (i_fanout S i jobs) (io_then (i_mark_completed S i) (i_ack S messageId))"

text \<open>After the state has been read and the activity parsed: the event log, then the fan-out.\<close>

definition deliver_intent ::
  "'s intent_services \<Rightarrow> intent_config \<Rightarrow> string \<Rightarrow> OutboxIntent \<Rightarrow> OutboxIntentState \<Rightarrow> json \<Rightarrow> ('s intent_world, intent_error, unit) eio" where
  "deliver_intent S C messageId i st act =
     io_then
       (if \<not> num_truthy (eventLogPublishedAt st)
        then io_then (publishEventLog S i act)
               (icalled (\<lambda>r. IvMarkPublished (went_well r)) (iv_markPublished S (oi_intentId i)))
        else io_return ())
       (if oi_targets i = [] then complete_and_ack S messageId i []
        else io_bind (io_sum (normalized_intent_targets S i)) (\<lambda>targets.
             io_bind (io_sum (buildOutboundJobs S C i act targets)) (\<lambda>jobs.
             io_then (assertIntentWithinReplayHorizon S i ''outbound fan-out'')
               (complete_and_ack S messageId i jobs))))"

definition intent_body :: "'s intent_services \<Rightarrow> intent_config \<Rightarrow> string \<Rightarrow> OutboxIntent \<Rightarrow> ('s intent_world, intent_error, unit) eio" where
  "intent_body S C messageId i =
     io_then (assertIntentWithinReplayHorizon S i ''processing start'')
       (io_bind (intent_not_due S i) (\<lambda>later.
        if later then io_then (set_parking True) (persistDelayedReplacementAndAck S messageId i)
        else io_bind (icalled (\<lambda>r. IvState (answer r)) (iv_getState S (oi_intentId i))) (\<lambda>st.
          if num_truthy (completedAt st) then i_ack S messageId
          else io_bind (io_sum (parseIntentActivity S i)) (\<lambda>act. deliver_intent S C messageId i st act))))"

text \<open>The handler of an error.\<close>

definition intent_failed :: "'s intent_services \<Rightarrow> string \<Rightarrow> OutboxIntent \<Rightarrow> intent_error \<Rightarrow> ('s intent_world, intent_error, unit) eio" where
  "intent_failed S messageId i err w =
     (if iw_parking w then io_throw err w
      else let message = intent_error_message err; permanent = isPermanentFailure err; nextAttempt = js_add (oi_attempt i) 1
           in if permanent \<or> js_le (oi_maxAttempts i) nextAttempt
              then io_then (i_dlq S (i\<lparr>oi_attempt := nextAttempt, oi_lastError := Some message\<rparr>)
                             (if permanent then message else ''Max attempts exceeded''))
                     (i_ack S messageId) w
              else io_bind (iclock S) (\<lambda>nowMs.
                     persistDelayedReplacementAndAck S messageId
                       (i\<lparr>oi_attempt := nextAttempt, oi_notBeforeMs := Num (nowMs + backoffMs nextAttempt),
                          oi_lastError := Some message\<rparr>)) w)"

definition processIntent :: "'s intent_services \<Rightarrow> intent_config \<Rightarrow> string \<Rightarrow> OutboxIntent \<Rightarrow> ('s intent_world, intent_error, unit) eio" where
  "processIntent S C messageId i =
     io_then (iadd_active 1) (io_then (set_parking False)
       (io_finally (io_catch (intent_body S C messageId i) (intent_failed S messageId i)) (iadd_active (- 1))))"

end
