(* ===== verification/Intent_Protocol.thy ===== *)
theory Intent_Protocol
  imports Protocol_Runs Intent_Worker
begin

text \<open>
  What the outbox-intent worker promises about one intent, as a state machine over the calls it makes: in
  what order it may observe, publish, fan out, complete, park, dead-letter and acknowledge.
  \<open>Intent_Properties\<close> shows that every run of \<open>processIntent\<close> follows it, whatever the services answer.
\<close>

section \<open>The state machine\<close>

record intent_progress =
  ip_now :: "int option"
  ip_checked :: bool
  ip_failed :: bool
  ip_read :: bool
  ip_tombstoned :: bool
  ip_published :: bool
  ip_observed :: bool
  ip_fanned :: bool
  ip_completed :: bool
  ip_dead :: bool
  ip_acked :: bool
  ip_parked :: bool

definition intent_start :: intent_progress where
  "intent_start = \<lparr>ip_now = None, ip_checked = False, ip_failed = False, ip_read = False, ip_tombstoned = False, ip_published = False,
     ip_observed = False, ip_fanned = False, ip_completed = False, ip_dead = False, ip_acked = False, ip_parked = False\<rparr>"

definition within_horizon :: "OutboxIntent \<Rightarrow> int \<Rightarrow> bool" where
  "within_horizon i t \<longleftrightarrow> (\<exists>age. outboxIntentAgeMs (oi_createdAt i) t = Some age \<and> age \<le> APDM_OUTBOX_INTENT_MAX_AGE_MS)"

text \<open>The intent is in nobody else's hands yet.\<close>

definition intent_open :: "intent_progress \<Rightarrow> bool" where
  "intent_open s \<longleftrightarrow> \<not> ip_acked s \<and> \<not> ip_parked s \<and> \<not> ip_dead s"

definition still_pending :: "intent_progress \<Rightarrow> bool" where
  "still_pending s \<longleftrightarrow> \<not> ip_acked s \<and> \<not> ip_parked s"

text \<open>A call that fails is the last one, up to the handler of errors.\<close>

definition intent_working :: "intent_progress \<Rightarrow> bool" where
  "intent_working s \<longleftrightarrow> intent_open s \<and> \<not> ip_failed s"

definition intent_due :: "OutboxIntent \<Rightarrow> intent_progress \<Rightarrow> bool" where
  "intent_due i s \<longleftrightarrow> \<not> js_lt (Num 0) (oi_notBeforeMs i) \<or> (\<exists>t. ip_now s = Some t \<and> \<not> js_lt (Num t) (oi_notBeforeMs i))"

text \<open>Nothing has been published for the intent yet, neither in this run nor on record.\<close>

definition unobserved :: "intent_progress \<Rightarrow> bool" where
  "unobserved s \<longleftrightarrow> intent_working s \<and> ip_read s \<and> \<not> ip_observed s \<and> \<not> ip_completed s"

text \<open>The jobs of an intent.\<close>

definition intent_jobs :: "'s intent_services \<Rightarrow> intent_config \<Rightarrow> OutboxIntent \<Rightarrow> OutboundJob list option" where
  "intent_jobs S C i =
     (if oi_targets i = [] then Some []
      else case (parseIntentActivity S i, normalized_intent_targets S i) of
        (Inr act, Inr ts) \<Rightarrow> (case buildOutboundJobs S C i act ts of Inr jobs \<Rightarrow> Some jobs | Inl _ \<Rightarrow> None)
      | _ \<Rightarrow> None)"

text \<open>The replacement of an intent that failed at \<open>now\<close>.\<close>

definition retried_intent :: "OutboxIntent \<Rightarrow> int \<Rightarrow> OutboxIntent \<Rightarrow> bool" where
  "retried_intent i now i' \<longleftrightarrow>
     (\<exists>m. i' = i\<lparr>oi_attempt := js_add (oi_attempt i) 1,
                 oi_notBeforeMs := Num (now + backoffMs (js_add (oi_attempt i) 1)), oi_lastError := Some m\<rparr>) \<and>
     \<not> js_le (oi_maxAttempts i) (js_add (oi_attempt i) 1)"

inductive intent_step ::
  "'s intent_services \<Rightarrow> intent_config \<Rightarrow> OutboxIntent \<Rightarrow> intent_progress \<Rightarrow> intent_event \<Rightarrow> intent_progress \<Rightarrow> bool"
  for S C i where
  time: "still_pending s \<Longrightarrow> intent_step S C i s (IvTime t) (s\<lparr>ip_now := Some t, ip_checked := ip_checked s \<or> within_horizon i t\<rparr>)"
| state: "intent_working s \<Longrightarrow> ip_checked s \<Longrightarrow> \<not> ip_read s \<Longrightarrow> intent_due i s \<Longrightarrow>
    intent_step S C i s (IvState (Some st))
      (s\<lparr>ip_read := True, ip_observed := num_truthy (eventLogPublishedAt st), ip_completed := num_truthy (completedAt st)\<rparr>)"
| no_state: "intent_working s \<Longrightarrow> ip_checked s \<Longrightarrow> \<not> ip_read s \<Longrightarrow> intent_due i s \<Longrightarrow> intent_step S C i s (IvState None) (s\<lparr>ip_failed := True\<rparr>)"
| tombstone: "unobserved s \<Longrightarrow> parseIntentActivity S i = Inr act \<Longrightarrow> is_lifecycle_removal i act \<Longrightarrow>
    \<not> ip_tombstoned s \<Longrightarrow> intent_step S C i s (IvTombstone (tombstone_of i act) ok) (s\<lparr>ip_tombstoned := ok, ip_failed := \<not> ok\<rparr>)"
| publish: "unobserved s \<Longrightarrow> parseIntentActivity S i = Inr act \<Longrightarrow> is_public_activity i \<Longrightarrow>
    (is_lifecycle_removal i act \<Longrightarrow> ip_tombstoned s) \<Longrightarrow>
    \<not> ip_published s \<Longrightarrow> intent_step S C i s (IvPublish (activity_event_of i act) ok) (s\<lparr>ip_published := ok, ip_failed := \<not> ok\<rparr>)"
| mark_published: "unobserved s \<Longrightarrow> parseIntentActivity S i = Inr act \<Longrightarrow>
    (is_lifecycle_removal i act \<Longrightarrow> ip_tombstoned s) \<Longrightarrow> (is_public_activity i \<Longrightarrow> ip_published s) \<Longrightarrow>
    intent_step S C i s (IvMarkPublished ok) (s\<lparr>ip_observed := ok, ip_failed := \<not> ok\<rparr>)"
| fan_out: "intent_working s \<Longrightarrow> ip_read s \<Longrightarrow> ip_observed s \<Longrightarrow> \<not> ip_completed s \<Longrightarrow> \<not> ip_fanned s \<Longrightarrow>
    intent_jobs S C i = Some jobs \<Longrightarrow>
    (oi_targets i \<noteq> [] \<Longrightarrow> \<exists>t. ip_now s = Some t \<and> within_horizon i t) \<Longrightarrow>
    intent_step S C i s (IvFanout jobs r) (s\<lparr>ip_fanned := r \<noteq> None, ip_failed := r = None\<rparr>)"
| mark_completed: "intent_working s \<Longrightarrow> ip_fanned s \<Longrightarrow> \<not> ip_completed s \<Longrightarrow>
    intent_step S C i s (IvMarkCompleted ok) (s\<lparr>ip_completed := ok, ip_failed := \<not> ok\<rparr>)"
| dead_letter: "intent_open s \<Longrightarrow>
    i' = i\<lparr>oi_attempt := js_add (oi_attempt i) 1, oi_lastError := Some m\<rparr> \<Longrightarrow>
    reason = m \<or> js_le (oi_maxAttempts i) (js_add (oi_attempt i) 1) \<and> reason = ''Max attempts exceeded'' \<Longrightarrow>
    intent_step S C i s (IvDlq i' reason ok) (s\<lparr>ip_dead := ok, ip_failed := ip_failed s \<or> \<not> ok\<rparr>)"
| ack: "still_pending s \<Longrightarrow> ip_completed s \<or> ip_dead s \<Longrightarrow> intent_step S C i s (IvAck ok) (s\<lparr>ip_acked := ok\<rparr>)"
| park_early: "intent_working s \<Longrightarrow> ip_checked s \<Longrightarrow> \<not> ip_read s \<Longrightarrow> ip_now s = Some t \<Longrightarrow> js_lt (Num t) (oi_notBeforeMs i) \<Longrightarrow>
    intent_step S C i s (IvPark i ok) (s\<lparr>ip_parked := ok, ip_failed := ip_failed s \<or> \<not> ok\<rparr>)"
| park_retry: "intent_open s \<Longrightarrow> ip_now s = Some t \<Longrightarrow> retried_intent i t i' \<Longrightarrow>
    intent_step S C i s (IvPark i' ok) (s\<lparr>ip_parked := ok, ip_failed := ip_failed s \<or> \<not> ok\<rparr>)"

inductive_simps intent_step_simps [simp]:
  "intent_step S C i s (IvTime t) s'"
  "intent_step S C i s (IvState r) s'"
  "intent_step S C i s (IvTombstone e ok) s'"
  "intent_step S C i s (IvPublish a ok) s'"
  "intent_step S C i s (IvMarkPublished ok) s'"
  "intent_step S C i s (IvFanout jobs r) s'"
  "intent_step S C i s (IvMarkCompleted ok) s'"
  "intent_step S C i s (IvDlq i' reason ok) s'"
  "intent_step S C i s (IvAck ok) s'"
  "intent_step S C i s (IvPark i' ok) s'"

definition intent_protocol ::
  "'s intent_services \<Rightarrow> intent_config \<Rightarrow> OutboxIntent \<Rightarrow> ('s intent_world, intent_event, intent_progress, bool \<times> int) protocol" where
  "intent_protocol S C i =
     \<lparr>pt_step = intent_step S C i, pt_start = intent_start, pt_trace = iw_trace, pt_view = (\<lambda>w. (iw_parking w, iw_active w))\<rparr>"

lemma intent_protocol_simps [simp]:
  "pt_step (intent_protocol S C i) = intent_step S C i"
  "pt_start (intent_protocol S C i) = intent_start"
  "pt_trace (intent_protocol S C i) = iw_trace"
  "pt_view (intent_protocol S C i) = (\<lambda>w. (iw_parking w, iw_active w))"
  by (simp_all add: intent_protocol_def)

end
