(* ===== verification/Intent_Properties.thy ===== *)
theory Intent_Properties
  imports Intent_Protocol
begin

text \<open>
  The outbox-intent worker follows the protocol of \<open>Intent_Protocol\<close>, and what this means for an intent.
\<close>

section \<open>The calls\<close>

lemma run_icalled [run_rules]:
  assumes "\<And>a. \<exists>s'. intent_step S C i s (ev (Inr a)) s' \<and> Q a s' v"
    and "\<And>e e'. \<exists>s'. intent_step S C i s (ev (Inl e')) s' \<and> E e s' v"
  shows "runs (intent_protocol S C i) (icalled ev m) Q E s v"
proof (rule run_call [where ev = ev])
  show "makes_call (intent_protocol S C i) ev (icalled ev m)"
    by (auto simp: makes_call_def icalled_def split: prod.split sum.split)
qed (use assms in auto)

lemma run_iclock [run_rules]:
  assumes "\<And>t. Q t (s\<lparr>ip_now := Some t, ip_checked := ip_checked s \<or> within_horizon i t\<rparr>) v" and "still_pending s"
  shows "runs (intent_protocol S C i) (iclock T) Q E s v"
proof (rule runsI)
  fix w assume w: "leads (intent_protocol S C i) (pt_trace (intent_protocol S C i) w) s" "pt_view (intent_protocol S C i) w = v"
  have "leads (intent_protocol S C i) (IvTime t # iw_trace w)
      (s\<lparr>ip_now := Some t, ip_checked := ip_checked s \<or> within_horizon i t\<rparr>)" for t
    by (rule leads.event) (use w assms(2) in simp_all)
  with assms(1) w show "wp (iclock T) (\<lambda>a. arrives (intent_protocol S C i) (Q a)) (\<lambda>e. arrives (intent_protocol S C i) (E e)) w"
    by (cases "iv_now T (iw_srv w)") (auto simp: wp_def iclock_def icalled_def intro!: arrivesI)
qed

lemma run_set_parking [run_rules]:
  "Q () s (b, snd v) \<Longrightarrow> runs (intent_protocol S C i) (set_parking b) Q E s v"
  unfolding set_parking_def by (rule run_local [where h = "\<lambda>v. (b, snd v)"]) auto

lemma run_iadd_active [run_rules]:
  "Q () s (fst v, snd v + d) \<Longrightarrow> runs (intent_protocol S C i) (iadd_active d) Q E s v"
  unfolding iadd_active_def by (rule run_local [where h = "\<lambda>v. (fst v, snd v + d)"]) auto

lemma run_io_sum [run_rules]:
  "(\<And>a. x = Inr a \<Longrightarrow> Q a s v) \<Longrightarrow> (\<And>e. x = Inl e \<Longrightarrow> E e s v) \<Longrightarrow> runs P (io_sum x) Q E s v"
  by (auto simp: io_sum_def split: sum.split intro: run_return run_throw)

section \<open>Following the protocol\<close>

text \<open>Where a run may end: with the intent handed on, or with its entry still pending.\<close>

definition accounted :: "intent_progress \<Rightarrow> bool" where
  "accounted s \<longleftrightarrow> ip_acked s \<noteq> ip_parked s"

definition handed_on :: "bool \<times> int \<Rightarrow> intent_progress \<Rightarrow> bool \<times> int \<Rightarrow> bool" where
  "handed_on v s v' \<longleftrightarrow> v' = v \<and> accounted s"

definition left_open :: "bool \<times> int \<Rightarrow> intent_progress \<Rightarrow> bool \<times> int \<Rightarrow> bool" where
  "left_open v s v' \<longleftrightarrow> v' = v \<and> intent_open s"

lemmas phases = handed_on_def left_open_def accounted_def still_pending_def intent_open_def intent_working_def

lemma run_horizon:
  assumes "\<And>t. within_horizon i t \<Longrightarrow> Q () (s\<lparr>ip_now := Some t, ip_checked := True\<rparr>) v"
    and "intent_open s"
  shows "runs (intent_protocol S C i) (assertIntentWithinReplayHorizon S i b) Q (\<lambda>_. left_open v) s v"
  unfolding assertIntentWithinReplayHorizon_def
  by (rule run_bind, rule run_iclock)
     (use assms in \<open>auto simp: within_horizon_def phases split: option.split intro!: run_throw run_return run_if\<close>)

lemma run_publish:
  assumes "unobserved s" and "parseIntentActivity S i = Inr act"
    and "\<not> ip_fanned s" and "\<not> ip_tombstoned s" and "\<not> ip_published s"
    and go: "\<And>s. unobserved s \<Longrightarrow> \<not> ip_fanned s \<Longrightarrow> (is_lifecycle_removal i act \<Longrightarrow> ip_tombstoned s) \<Longrightarrow>
      (is_public_activity i \<Longrightarrow> ip_published s) \<Longrightarrow> Q () s v"
  shows "runs (intent_protocol S C i) (publishEventLog S i act) Q (\<lambda>_. left_open v) s v"
proof -
  have public: "runs (intent_protocol S C i)
      (if \<not> is_public_activity i then io_return ()
        else case iv_redpanda S of
          None \<Rightarrow> io_throw (Processing ''RedPanda producer is unavailable for local public activity publication'' False)
        | Some p \<Rightarrow> icalled (\<lambda>r. IvPublish (activity_event_of i act) (went_well r))
                      (pr_publishToStream1 p (activity_event_of i act))) Q (\<lambda>_. left_open v) s v"
    if "unobserved s" "\<not> ip_fanned s" "is_lifecycle_removal i act \<Longrightarrow> ip_tombstoned s" "\<not> ip_published s" for s
    using that assms(2)
    by (auto simp: phases unobserved_def phases intro!: run_if run_return run_throw run_icalled go split: option.split)
  have u: "unobserved (s\<lparr>ip_tombstoned := True, ip_failed := False\<rparr>)" using assms(1) by (simp add: unobserved_def phases)
  show ?thesis
    unfolding publishEventLog_def
  proof (rule run_then, rule run_if)
    assume l: "is_lifecycle_removal i act"
    then show "runs (intent_protocol S C i)
       (case iv_redpanda S of
             None \<Rightarrow> io_throw (Processing ''RedPanda producer is unavailable for tombstone publication'' False)
           | Some p \<Rightarrow> icalled (\<lambda>r. IvTombstone (tombstone_of i act) (went_well r)) (pr_publishTombstone p (tombstone_of i act)))
       (\<lambda>_. runs (intent_protocol S C i) (if \<not> is_public_activity i then io_return ()
        else case iv_redpanda S of
          None \<Rightarrow> io_throw (Processing ''RedPanda producer is unavailable for local public activity publication'' False)
        | Some p \<Rightarrow> icalled (\<lambda>r. IvPublish (activity_event_of i act) (went_well r))
                      (pr_publishToStream1 p (activity_event_of i act))) Q (\<lambda>_. left_open v)) (\<lambda>_. left_open v) s v"
    proof (cases "iv_redpanda S")
      case None
      show ?thesis unfolding None option.case
        by (rule run_throw) (use assms(1) in \<open>simp add: phases unobserved_def\<close>)
    next
      case (Some p)
      have "runs (intent_protocol S C i) (if \<not> is_public_activity i then io_return ()
        else case iv_redpanda S of
          None \<Rightarrow> io_throw (Processing ''RedPanda producer is unavailable for local public activity publication'' False)
        | Some p \<Rightarrow> icalled (\<lambda>r. IvPublish (activity_event_of i act) (went_well r))
                      (pr_publishToStream1 p (activity_event_of i act))) Q (\<lambda>_. left_open v) (s\<lparr>ip_tombstoned := True, ip_failed := False\<rparr>) v"
        by (rule public) (use u assms(3,5) in simp_all)
      then show ?thesis
        using assms(1,2,4) l unfolding Some option.case
        by (intro run_icalled) (auto simp: phases unobserved_def phases)
    qed
  qed (rule run_return, rule public, use assms in auto)
qed

lemma run_complete:
  assumes "intent_working s" and "ip_read s" and "ip_observed s" and "\<not> ip_completed s" and "\<not> ip_fanned s"
    and "intent_jobs S C i = Some jobs" and "oi_targets i \<noteq> [] \<Longrightarrow> \<exists>t. ip_now s = Some t \<and> within_horizon i t"
  shows "runs (intent_protocol S C i) (complete_and_ack S messageId i jobs) (\<lambda>_. handed_on v) (\<lambda>_. left_open v) s v"
  unfolding complete_and_ack_def i_fanout_def i_mark_completed_def i_ack_def
  using assms
  by (auto simp: phases intro!: run_then run_icalled)

lemma run_deliver:
  assumes "intent_working s" and "ip_read s" and "ip_observed s = num_truthy (eventLogPublishedAt st)" and "\<not> ip_completed s"
    and "\<not> ip_fanned s" and "parseIntentActivity S i = Inr act" and "\<not> ip_tombstoned s" and "\<not> ip_published s"
  shows "runs (intent_protocol S C i) (deliver_intent S C messageId i st act) (\<lambda>_. handed_on v) (\<lambda>_. left_open v) s v"
proof -
  let ?R = "\<lambda>m s. runs (intent_protocol S C i) m (\<lambda>_. handed_on v) (\<lambda>_. left_open v) s v"
  define P where "P s \<longleftrightarrow> intent_working s \<and> ip_read s \<and> ip_observed s \<and> \<not> ip_completed s \<and> \<not> ip_fanned s" for s
  have fan: "?R (io_bind (io_sum (normalized_intent_targets S i)) (\<lambda>targets.
             io_bind (io_sum (buildOutboundJobs S C i act targets)) (\<lambda>jobs.
             io_then (assertIntentWithinReplayHorizon S i b) (complete_and_ack S messageId i jobs)))) s"
    if "P s" "oi_targets i \<noteq> []" for s b
    using that assms(6) unfolding P_def
    by (auto intro!: run_bind run_then run_io_sum run_horizon run_complete simp: phases intent_jobs_def phases)
  have tail: "?R (if oi_targets i = [] then complete_and_ack S messageId i []
        else io_bind (io_sum (normalized_intent_targets S i)) (\<lambda>targets.
             io_bind (io_sum (buildOutboundJobs S C i act targets)) (\<lambda>jobs.
             io_then (assertIntentWithinReplayHorizon S i b) (complete_and_ack S messageId i jobs)))) s" if "P s" for s b
    using that by (intro run_if run_complete fan) (auto simp: P_def intent_jobs_def)
  have mark: "runs (intent_protocol S C i) (icalled (\<lambda>r. IvMarkPublished (went_well r)) (iv_markPublished S k))
      (\<lambda>_ s v'. v' = v \<and> P s) (\<lambda>_. left_open v) s v"
    if "unobserved s" "\<not> ip_fanned s" "is_lifecycle_removal i act \<Longrightarrow> ip_tombstoned s" "is_public_activity i \<Longrightarrow> ip_published s" for s k
    using that assms(6) by (auto intro!: run_icalled simp: unobserved_def P_def phases)
  show ?thesis
    unfolding deliver_intent_def
  proof (rule run_then, rule run_if)
    assume "\<not> num_truthy (eventLogPublishedAt st)"
    with assms have u: "unobserved s" by (simp add: unobserved_def)
    show "runs (intent_protocol S C i) (io_then (publishEventLog S i act)
               (icalled (\<lambda>r. IvMarkPublished (went_well r)) (iv_markPublished S (oi_intentId i))))
       (\<lambda>_. runs (intent_protocol S C i) (if oi_targets i = [] then complete_and_ack S messageId i []
        else io_bind (io_sum (normalized_intent_targets S i)) (\<lambda>targets.
             io_bind (io_sum (buildOutboundJobs S C i act targets)) (\<lambda>jobs.
             io_then (assertIntentWithinReplayHorizon S i ''outbound fan-out'') (complete_and_ack S messageId i jobs))))
          (\<lambda>_. handed_on v) (\<lambda>_. left_open v)) (\<lambda>_. left_open v) s v"
    proof (rule run_then, rule run_publish [OF u assms(6,5,7,8)], rule run_mono [OF mark])
    qed (use tail in \<open>blast+\<close>)
  next
    assume "\<not> \<not> num_truthy (eventLogPublishedAt st)"
    with assms have "P s" by (simp add: P_def)
    then show "runs (intent_protocol S C i) (io_return ())
       (\<lambda>_. runs (intent_protocol S C i) (if oi_targets i = [] then complete_and_ack S messageId i []
        else io_bind (io_sum (normalized_intent_targets S i)) (\<lambda>targets.
             io_bind (io_sum (buildOutboundJobs S C i act targets)) (\<lambda>jobs.
             io_then (assertIntentWithinReplayHorizon S i ''outbound fan-out'') (complete_and_ack S messageId i jobs))))
          (\<lambda>_. handed_on v) (\<lambda>_. left_open v)) (\<lambda>_. left_open v) s v"
      by - (rule run_return, rule tail)
  qed
qed

lemma run_body:
  assumes "intent_start = s"
  shows "runs (intent_protocol S C i) (intent_body S C messageId i)
    (\<lambda>_ s v. snd v = n \<and> accounted s)
    (\<lambda>_ s v. snd v = n \<and> intent_open s) s (False, n)"
proof -
  let ?P = "intent_protocol S C i"
  let ?Q = "\<lambda>_ s v. snd v = n \<and> accounted s"
  let ?E = "\<lambda>_ s v. snd v = n \<and> intent_open s"
  have early: "runs ?P (io_then (set_parking True) (persistDelayedReplacementAndAck S messageId i)) ?Q ?E s (False, n)"
    if "intent_working s" "ip_checked s" "\<not> ip_read s" "ip_now s = Some t" "js_lt (Num t) (oi_notBeforeMs i)" for s t
    unfolding persistDelayedReplacementAndAck_def
    using that by (auto simp: phases intro!: run_then run_set_parking run_throw run_icalled split: option.split)
  have go: "runs ?P (io_bind (icalled (\<lambda>r. IvState (answer r)) (iv_getState S (oi_intentId i))) (\<lambda>st.
          if num_truthy (completedAt st) then i_ack S messageId
          else io_bind (io_sum (parseIntentActivity S i)) (\<lambda>act. deliver_intent S C messageId i st act))) ?Q ?E s (False, n)"
    if s: "intent_working s" "ip_checked s" "\<not> ip_read s" "intent_due i s" "\<not> ip_fanned s" "\<not> ip_tombstoned s" "\<not> ip_published s" for s
  proof (rule run_bind, rule run_icalled)
    fix st :: OutboxIntentState
    let ?s = "s\<lparr>ip_read := True, ip_observed := num_truthy (eventLogPublishedAt st), ip_completed := num_truthy (completedAt st)\<rparr>"
    have "runs ?P (deliver_intent S C messageId i st act) ?Q ?E ?s (False, n)"
      if "parseIntentActivity S i = Inr act" "\<not> num_truthy (completedAt st)" for act
      by (rule run_mono [OF run_deliver]) (use s that in \<open>auto simp: phases\<close>)
    then have "runs ?P (if num_truthy (completedAt st) then i_ack S messageId
          else io_bind (io_sum (parseIntentActivity S i)) (\<lambda>act. deliver_intent S C messageId i st act)) ?Q ?E ?s (False, n)"
      unfolding i_ack_def
      using s by (intro run_if run_bind run_io_sum run_icalled) (auto simp: phases)
    then show "\<exists>s'. intent_step S C i s (IvState (answer (Inr st))) s' \<and>
        runs ?P (if num_truthy (completedAt st) then i_ack S messageId
          else io_bind (io_sum (parseIntentActivity S i)) (\<lambda>act. deliver_intent S C messageId i st act)) ?Q ?E s' (False, n)"
      using s by auto
  qed (use s in \<open>auto simp: phases\<close>)
  have start: "intent_working s" "\<not> ip_read s" "\<not> ip_fanned s" "\<not> ip_tombstoned s" "\<not> ip_published s" using assms by (auto simp: intent_start_def phases)
  define G where "G later = (if later then io_then (set_parking True) (persistDelayedReplacementAndAck S messageId i)
        else io_bind (icalled (\<lambda>r. IvState (answer r)) (iv_getState S (oi_intentId i))) (\<lambda>st.
          if num_truthy (completedAt st) then i_ack S messageId
          else io_bind (io_sum (parseIntentActivity S i)) (\<lambda>act. deliver_intent S C messageId i st act)))" for later
  let ?s = "\<lambda>t. s\<lparr>ip_now := Some t, ip_checked := True\<rparr>"
  have no: "runs ?P (G False) ?Q ?E (?s t) (False, n)" if "intent_due i (?s t)" for t
    unfolding G_def if_False by (rule go) (use that start in \<open>auto simp: phases\<close>)
  have yes: "runs ?P (G True) ?Q ?E (?s t) (False, n)" if "js_lt (Num t) (oi_notBeforeMs i)" for t
    unfolding G_def if_True by (rule early [of _ t]) (use that start in \<open>auto simp: phases\<close>)
  have later: "runs ?P (G (js_lt (Num t) (oi_notBeforeMs i))) ?Q ?E (?s t) (False, n)" for t
  proof (cases "js_lt (Num t) (oi_notBeforeMs i)")
    case True
    with yes [OF True] show ?thesis by (simp only: True)
  next
    case False
    have "intent_due i (?s t)" using False by (simp only: intent_due_def) simp
    from no [OF this] show ?thesis by (simp only: False)
  qed
  have at_once: "runs ?P (G False) ?Q ?E (?s t) (False, n)" if "\<not> js_lt (Num 0) (oi_notBeforeMs i)" for t
    by (rule no) (use that in \<open>simp add: intent_due_def\<close>)
  have due: "runs ?P (io_bind (intent_not_due S i) G) ?Q ?E (?s t) (False, n)" for t
    unfolding intent_not_due_def
    by (intro run_bind run_if run_return run_iclock at_once) (use later start in \<open>simp_all add: phases\<close>)
  show ?thesis
    unfolding intent_body_def G_def [symmetric, abs_def]
    by (rule run_then, rule run_mono [OF run_horizon]) (use due start in \<open>auto simp: phases\<close>)
qed

lemma run_park_retry:
  assumes "intent_open s" and "ip_now s = Some t" and "retried_intent i t i'"
  shows "runs (intent_protocol S C i) (persistDelayedReplacementAndAck S messageId i')
    (\<lambda>_ s v'. v' = v \<and> accounted s) (\<lambda>_ s v'. v' = v \<and> still_pending s) s v"
proof (cases "iv_persist S")
  case None
  then show ?thesis
    unfolding persistDelayedReplacementAndAck_def
    using assms(1) by (auto simp: phases intro!: run_throw)
next
  case (Some persist)
  have step: "intent_step S C i s (IvPark i' ok) (s\<lparr>ip_parked := ok, ip_failed := ip_failed s \<or> \<not> ok\<rparr>)" for ok
    by (rule intent_step.park_retry [OF assms])
  show ?thesis
    unfolding persistDelayedReplacementAndAck_def Some option.case
    by (rule run_icalled; rule exI, rule conjI [OF step]) (use assms(1) in \<open>auto simp: phases\<close>)
qed

lemma run_failed:
  assumes "intent_open s" and "snd v = n"
  shows "runs (intent_protocol S C i) (intent_failed S messageId i err)
    (\<lambda>_ s v. snd v = n \<and> accounted s) (\<lambda>_ s v. snd v = n \<and> still_pending s) s v"
proof (cases "fst v")
  case True
  have "runs (intent_protocol S C i) (io_throw err)
    (\<lambda>_ s v. snd v = n \<and> accounted s) (\<lambda>_ s v. snd v = n \<and> still_pending s) s v"
    using assms by (auto simp: phases intro!: run_throw)
  then show ?thesis by (rule run_cong) (use True in \<open>auto simp: intent_failed_def\<close>)
next
  case False
  let ?m = "let message = intent_error_message err; permanent = isPermanentFailure err; nextAttempt = js_add (oi_attempt i) 1
           in if permanent \<or> js_le (oi_maxAttempts i) nextAttempt
              then io_then (i_dlq S (i\<lparr>oi_attempt := nextAttempt, oi_lastError := Some message\<rparr>)
                             (if permanent then message else ''Max attempts exceeded''))
                     (i_ack S messageId)
              else io_bind (iclock S) (\<lambda>nowMs.
                     persistDelayedReplacementAndAck S messageId
                       (i\<lparr>oi_attempt := nextAttempt, oi_notBeforeMs := Num (nowMs + backoffMs nextAttempt),
                          oi_lastError := Some message\<rparr>))"
  have "runs (intent_protocol S C i) ?m
    (\<lambda>_ s v. snd v = n \<and> accounted s) (\<lambda>_ s v. snd v = n \<and> still_pending s) s v"
    unfolding Let_def
  proof (rule run_if, goal_cases)
    case 1
    then show ?case
      unfolding i_dlq_def i_ack_def
      using assms by (auto simp: phases intro!: run_then run_icalled)
  next
    case 2
    show ?case
      by (rule run_bind, rule run_iclock, rule run_mono [OF run_park_retry])
         (use 2 assms in \<open>auto simp: phases retried_intent_def simp del: backoffMs.simps\<close>)
  qed
  then show ?thesis by (rule run_cong) (use False in \<open>auto simp: intent_failed_def Let_def\<close>)
qed

lemma run_processIntent:
  "runs (intent_protocol S C i) (processIntent S C messageId i)
    (\<lambda>_ s v. snd v = n \<and> accounted s) (\<lambda>_ s v. snd v = n \<and> still_pending s) intent_start (b, n)"
proof -
  let ?P = "intent_protocol S C i"
  let ?Q = "\<lambda>m _ s v. snd v = m \<and> accounted s"
  let ?E = "\<lambda>m _ s v. snd v = m \<and> still_pending s"
  have handler: "runs ?P (io_catch (intent_body S C messageId i) (intent_failed S messageId i)) (?Q (n + 1)) (?E (n + 1)) intent_start (False, n + 1)"
    by (rule run_catch, rule run_mono [OF run_body]) (simp_all add: run_failed)
  have "runs ?P (io_finally (io_catch (intent_body S C messageId i) (intent_failed S messageId i)) (iadd_active (- 1)))
      (?Q n) (?E n) intent_start (False, n + 1)"
    by (rule run_finally, rule run_mono [OF handler]) (auto intro!: run_iadd_active)
  then show ?thesis
    unfolding processIntent_def by (intro run_then run_iadd_active run_set_parking) simp
qed

section \<open>What the trace tells\<close>

fun latest_time :: "intent_event list \<Rightarrow> int option" where
  "latest_time [] = None"
| "latest_time (e # es) = (case e of IvTime t \<Rightarrow> Some t | _ \<Rightarrow> latest_time es)"

text \<open>The publications an intent calls for.\<close>

definition log_written :: "OutboxIntent \<Rightarrow> json \<Rightarrow> intent_event list \<Rightarrow> bool" where
  "log_written i act es \<longleftrightarrow>
     (is_lifecycle_removal i act \<longrightarrow> IvTombstone (tombstone_of i act) True \<in> set es) \<and>
     (is_public_activity i \<longrightarrow> IvPublish (activity_event_of i act) True \<in> set es)"

definition log_record :: "'s intent_services \<Rightarrow> OutboxIntent \<Rightarrow> intent_event list \<Rightarrow> intent_progress \<Rightarrow> bool" where
  "log_record S i es s \<longleftrightarrow>
     (ip_tombstoned s \<longrightarrow> (\<exists>act. parseIntentActivity S i = Inr act \<and> IvTombstone (tombstone_of i act) True \<in> set es)) \<and>
     (ip_published s \<longrightarrow> (\<exists>act. parseIntentActivity S i = Inr act \<and> IvPublish (activity_event_of i act) True \<in> set es)) \<and>
     (IvMarkPublished True \<in> set es \<longrightarrow> (\<exists>act. parseIntentActivity S i = Inr act \<and> log_written i act es))"

lemma log_recorded: "leads (intent_protocol S C i) es s \<Longrightarrow> log_record S i es s"
proof (erule leads_invariant [where I = "log_record S i"])
  fix es s e s'
  assume "log_record S i es s" "pt_step (intent_protocol S C i) s e s'"
  then show "log_record S i (e # es) s'"
    unfolding intent_protocol_simps by (cases e) (auto simp: log_record_def log_written_def)
qed (simp_all add: log_record_def intent_start_def)

definition stage_record :: "intent_event list \<Rightarrow> intent_progress \<Rightarrow> bool" where
  "stage_record es s \<longleftrightarrow>
     (if ip_read s
      then \<exists>st. IvState (Some st) \<in> set es \<and>
        (ip_observed s \<longrightarrow> num_truthy (eventLogPublishedAt st) \<or> IvMarkPublished True \<in> set es) \<and>
        (if ip_completed s then num_truthy (completedAt st) \<or> ip_fanned s \<and> IvMarkCompleted True \<in> set es
         else \<not> num_truthy (completedAt st))
      else \<not> ip_observed s \<and> \<not> ip_completed s \<and> \<not> ip_fanned s) \<and>
     (\<forall>jobs r. IvFanout jobs r \<in> set es \<longrightarrow> (if r = None then ip_failed s else ip_fanned s)) \<and>
     (ip_fanned s \<longrightarrow> (\<exists>jobs b. IvFanout jobs (Some b) \<in> set es)) \<and>
     (ip_dead s \<longrightarrow> (\<exists>i' r. IvDlq i' r True \<in> set es)) \<and>
     ip_now s = latest_time es"

lemma stage_recorded: "leads (intent_protocol S C i) es s \<Longrightarrow> stage_record es s"
proof (erule leads_invariant [where I = stage_record])
  fix es s e s'
  assume "stage_record es s" "pt_step (intent_protocol S C i) s e s'"
  then show "stage_record (e # es) s'"
    unfolding intent_protocol_simps
    by (cases e) (auto simp: stage_record_def unobserved_def phases split: if_splits; blast)+
qed (simp_all add: stage_record_def intent_start_def)

definition early_record :: "intent_event list \<Rightarrow> intent_progress \<Rightarrow> bool" where
  "early_record es s \<longleftrightarrow>
     (intent_working s \<and> \<not> ip_read s \<longrightarrow> (\<forall>e \<in> set es. \<exists>t. e = IvTime t) \<and> \<not> ip_completed s \<and> \<not> ip_fanned s)"

lemma early_recorded: "leads (intent_protocol S C i) es s \<Longrightarrow> early_record es s"
proof (erule leads_invariant [where I = early_record])
  fix es s e s'
  assume "early_record es s" "pt_step (intent_protocol S C i) s e s'"
  then show "early_record (e # es) s'"
    unfolding intent_protocol_simps
    by (cases e) (auto simp: early_record_def unobserved_def phases)
qed (simp_all add: early_record_def intent_start_def)

section \<open>One run\<close>

definition intent_run ::
  "'s intent_services \<Rightarrow> intent_config \<Rightarrow> string \<Rightarrow> OutboxIntent \<Rightarrow> 's \<Rightarrow> (intent_error + unit) \<times> 's intent_world" where
  "intent_run S C messageId i s =
     processIntent S C messageId i \<lparr>iw_srv = s, iw_trace = [], iw_active = 0, iw_parking = False\<rparr>"

definition intent_trace ::
  "'s intent_services \<Rightarrow> intent_config \<Rightarrow> string \<Rightarrow> OutboxIntent \<Rightarrow> 's \<Rightarrow> intent_event list" where
  "intent_trace S C messageId i s = iw_trace (snd (intent_run S C messageId i s))"

lemma processIntent_leads:
  assumes "iw_trace w = []"
  shows "\<exists>s. leads (intent_protocol S C i) (iw_trace (snd (processIntent S C m i w))) s \<and>
    iw_active (snd (processIntent S C m i w)) = iw_active w \<and>
    (if isl (fst (processIntent S C m i w)) then still_pending s else accounted s)"
proof -
  obtain r w' where r: "processIntent S C m i w = (r, w')" by fastforce
  have "\<exists>s. leads (intent_protocol S C i) (pt_trace (intent_protocol S C i) w') s \<and>
      (\<forall>a. r = Inr a \<longrightarrow> snd (pt_view (intent_protocol S C i) w') = iw_active w \<and> accounted s) \<and>
      (\<forall>e. r = Inl e \<longrightarrow> snd (pt_view (intent_protocol S C i) w') = iw_active w \<and> still_pending s)"
    by (rule runs_result [where m = "processIntent S C m i" and w = w, where Q = "\<lambda>_ s v. snd v = iw_active w \<and> accounted s"
          and E = "\<lambda>_ s v. snd v = iw_active w \<and> still_pending s" and v = "(iw_parking w, iw_active w)"])
       (use assms r run_processIntent [of S C i m "iw_active w" "iw_parking w"] in simp_all)
  then show ?thesis using r by (cases r) auto
qed

lemma trace_leads: "\<exists>s. leads (intent_protocol S C i) (intent_trace S C m i x) s"
  using processIntent_leads [of "\<lparr>iw_srv = x, iw_trace = [], iw_active = 0, iw_parking = False\<rparr>" S C i m]
  by (auto simp: intent_trace_def intent_run_def)

lemma trace_split:
  assumes "intent_trace S C m i x = later @ e # earlier"
  obtains s s' where "leads (intent_protocol S C i) earlier s" "intent_step S C i s e s'"
proof -
  obtain s where "leads (intent_protocol S C i) (later @ e # earlier) s" using trace_leads assms by metis
  from leads_split [OF this] obtain t t' where "leads (intent_protocol S C i) earlier t" "intent_step S C i t e t'" by auto
  then show thesis by (rule that)
qed

lemma leads_events:
  assumes "leads P es s" and "e \<in> set es"
  shows "\<exists>t t'. pt_step P t e t'"
proof -
  obtain xs ys where "es = xs @ e # ys" using assms(2) by (meson split_list)
  with leads_split [of P xs e ys s] assms(1) show ?thesis by blast
qed

lemma fanned_jobs: "leads (intent_protocol S C i) es s \<Longrightarrow> IvFanout jobs r \<in> set es \<Longrightarrow> intent_jobs S C i = Some jobs"
  using leads_events [of "intent_protocol S C i" es s "IvFanout jobs r"] by auto

lemma dead_lettered: "leads (intent_protocol S C i) es s \<Longrightarrow> IvDlq i' reason b \<in> set es \<Longrightarrow>
    \<exists>e. i' = i\<lparr>oi_attempt := js_add (oi_attempt i) 1, oi_lastError := Some e\<rparr>"
  using leads_events [of "intent_protocol S C i" es s "IvDlq i' reason b"] by auto

text \<open>Nothing follows the call that hands the intent on.\<close>

lemma last_step:
  assumes "leads P (later @ es) s" and "\<And>u. leads P es u \<Longrightarrow> Closed u" and "\<And>u e u'. Closed u \<Longrightarrow> \<not> pt_step P u e u'"
  shows "later = []"
proof (cases later rule: rev_cases)
  case (snoc xs x)
  with assms(1) have "leads P (xs @ x # es) s" by simp
  from leads_split [OF this] assms(2,3) show ?thesis by blast
qed simp

lemma closed_no_step:
  assumes "\<not> still_pending u"
  shows "\<not> intent_step S C i u e u'"
proof
  assume "intent_step S C i u e u'"
  then show False using assms by (cases rule: intent_step.cases) (auto simp: phases unobserved_def)
qed

lemma handed_on_last:
  assumes "intent_trace S C m i x = later @ e # earlier" and "e \<in> {IvAck True, IvPark i' True}"
  shows "later = []"
proof -
  obtain s where "leads (intent_protocol S C i) (later @ e # earlier) s" using trace_leads assms(1) by metis
  then show ?thesis
  proof (rule last_step)
    fix u assume "leads (intent_protocol S C i) (e # earlier) u"
    then obtain t where "intent_step S C i t e u" by (auto elim: leads_ConsE)
    with assms(2) show "\<not> still_pending u" by (auto simp: still_pending_def)
  qed (simp add: closed_no_step)
qed

end
