(* ===== verification/Intent_Delivery.thy ===== *)
theory Intent_Delivery
  imports Intent_Properties Policy_Properties Webhook_Properties
begin

text \<open>
  What an outbox intent becomes: the outbound jobs it stands for, and the run that gets them out when the
  services cooperate.
\<close>

section \<open>The jobs of an intent\<close>

definition job_of :: "'s intent_services \<Rightarrow> intent_config \<Rightarrow> OutboxIntent \<Rightarrow> json \<Rightarrow> OutboundJob \<Rightarrow> bool" where
  "job_of S C i act j \<longleftrightarrow>
     jobId j = oi_activityId i @ ''::'' @ targetInbox j \<and> activityId j = oi_activityId i \<and> actorUri j = oi_actorUri i \<and>
     attempt j = Num 0 \<and> maxAttempts j = ic_outboundJobMaxAttempts C \<and> notBeforeMs j = Num 0 \<and> deferCount j = None \<and>
     lastError j = None \<and> meta j = oi_meta i \<and>
     (\<exists>edited. applyActivityPubOutboundDeliveryPolicy (iv_parse S) (iv_print S) act (targetDomain j)
        (normalizeBridgeHints (oi_bridgeHints i)) (ic_deliveryPolicy C) = Inr edited \<and> activity j = json_stringify edited)"

lemma built_jobs:
  "buildOutboundJobs S C i act ts = Inr jobs \<Longrightarrow>
    map targetInbox jobs = map ot_deliveryUrl ts \<and> map targetDomain jobs = map ot_targetDomain ts \<and> (\<forall>j \<in> set jobs. job_of S C i act j)"
proof (induction ts arbitrary: jobs)
  case (Cons t ts)
  then obtain edited js where e: "applyActivityPubOutboundDeliveryPolicy (iv_parse S) (iv_print S) act (ot_targetDomain t)
      (normalizeBridgeHints (oi_bridgeHints i)) (ic_deliveryPolicy C) = Inr edited" "buildOutboundJobs S C i act ts = Inr js"
    by (auto split: sum.splits)
  with Cons.prems Cons.IH [OF e(2)] show ?case by (auto simp: job_of_def)
qed simp

lemma job_ids_distinct:
  assumes "\<forall>j \<in> set jobs. jobId j = p @ targetInbox j" and "distinct (map targetInbox jobs)"
  shows "distinct (map jobId jobs)"
proof -
  have "map jobId jobs = map (\<lambda>u. p @ u) (map targetInbox jobs)" using assms(1) by simp
  then show ?thesis using assms(2) by (simp add: distinct_map inj_on_def)
qed

section \<open>Runs that go through\<close>

fun is_intent_time :: "intent_event \<Rightarrow> bool" where
  "is_intent_time (IvTime _) = True"
| "is_intent_time _ = False"

definition intent_acts :: "intent_event list \<Rightarrow> intent_event list" where
  "intent_acts es = filter (\<lambda>e. \<not> is_intent_time e) es"

text \<open>
  \<open>goes m Q es\<close>: from every world the method resolves, with a value in \<open>Q\<close>, and the calls it makes, clock
  readings aside, are \<open>es\<close> (newest first).
\<close>

definition goes :: "('s intent_world, intent_error, 'a) eio \<Rightarrow> ('a \<Rightarrow> bool) \<Rightarrow> intent_event list \<Rightarrow> bool" where
  "goes m Q es \<longleftrightarrow> (\<forall>w. \<exists>a w'. m w = (Inr a, w') \<and> Q a \<and> intent_acts (iw_trace w') = es @ intent_acts (iw_trace w))"

lemma goes_return: "Q a \<Longrightarrow> goes (io_return a) Q []"
  by (simp add: goes_def io_return_def)

lemma goes_bind:
  assumes "goes m Q es" and "\<And>a. Q a \<Longrightarrow> goes (f a) R fs" and "gs = fs @ es"
  shows "goes (io_bind m f) R gs"
  unfolding goes_def
proof
  fix w
  obtain a w1 where 1: "m w = (Inr a, w1)" "Q a" "intent_acts (iw_trace w1) = es @ intent_acts (iw_trace w)"
    using assms(1) unfolding goes_def by blast
  obtain b w2 where "f a w1 = (Inr b, w2)" "R b" "intent_acts (iw_trace w2) = fs @ intent_acts (iw_trace w1)"
    using assms(2) [OF 1(2)] unfolding goes_def by blast
  with 1 assms(3) show "\<exists>b w2. io_bind m f w = (Inr b, w2) \<and> R b \<and> intent_acts (iw_trace w2) = gs @ intent_acts (iw_trace w)"
    by (simp add: io_bind_def)
qed

lemma goes_then: "goes m (\<lambda>_. True) es \<Longrightarrow> goes n R fs \<Longrightarrow> gs = fs @ es \<Longrightarrow> goes (io_then m n) R gs"
  unfolding io_then_def by (rule goes_bind)

lemma goes_catch: "goes m Q es \<Longrightarrow> goes (io_catch m h) Q es"
  unfolding goes_def io_catch_def by (metis (mono_tags, lifting) case_prod_conv sum.case(2))

lemma goes_finally:
  assumes "goes m Q es" and "goes f (\<lambda>_. True) []"
  shows "goes (io_finally m f) Q es"
  unfolding goes_def
proof
  fix w
  obtain a w1 where 1: "m w = (Inr a, w1)" "Q a" "intent_acts (iw_trace w1) = es @ intent_acts (iw_trace w)"
    using assms(1) unfolding goes_def by blast
  obtain b w2 where "f w1 = (Inr b, w2)" "intent_acts (iw_trace w2) = intent_acts (iw_trace w1)"
    using assms(2) unfolding goes_def by force
  with 1 show "\<exists>b w2. io_finally m f w = (Inr b, w2) \<and> Q b \<and> intent_acts (iw_trace w2) = es @ intent_acts (iw_trace w)"
    by (simp add: io_finally_def)
qed

text \<open>A service that always answers, with a value in \<open>Q\<close>.\<close>

definition serves :: "('s, string, 'a) eio \<Rightarrow> ('a \<Rightarrow> bool) \<Rightarrow> bool" where
  "serves m Q \<longleftrightarrow> (\<forall>s. \<exists>a s'. m s = (Inr a, s') \<and> Q a)"

lemma goes_icalled:
  assumes "serves m (\<lambda>a. Q a \<and> ev (Inr a) = e)" and "\<not> is_intent_time e"
  shows "goes (icalled ev m) Q [e]"
  unfolding goes_def
proof
  fix w :: "'a intent_world"
  obtain a s where "m (iw_srv w) = (Inr a, s)" "Q a" "ev (Inr a) = e" using assms(1) unfolding serves_def by blast
  with assms(2) show "\<exists>a w'. icalled ev m w = (Inr a, w') \<and> Q a \<and> intent_acts (iw_trace w') = [e] @ intent_acts (iw_trace w)"
    by (simp add: icalled_def intent_acts_def)
qed

lemma goes_clock: "(\<And>s. Q (fst (iv_now S s))) \<Longrightarrow> goes (iclock S) Q []"
  by (simp add: goes_def iclock_def icalled_def intent_acts_def split: prod.split) (metis fst_conv)

lemma goes_local: "goes (set_parking b) (\<lambda>_. True) []" "goes (iadd_active d) (\<lambda>_. True) []"
  by (simp_all add: goes_def set_parking_def iadd_active_def)

lemma goes_horizon:
  assumes "\<And>s. within_horizon i (fst (iv_now S s))"
  shows "goes (assertIntentWithinReplayHorizon S i b) (\<lambda>_. True) []"
  unfolding assertIntentWithinReplayHorizon_def
proof (rule goes_bind)
  show "goes (iclock S) (within_horizon i) []" by (rule goes_clock) (rule assms)
qed (auto simp: within_horizon_def intro: goes_return)

text \<open>The calls of a run in which nothing fails (newest first).\<close>

definition full_run :: "OutboxIntent \<Rightarrow> json \<Rightarrow> OutboxIntentState \<Rightarrow> bool \<Rightarrow> OutboundJob list \<Rightarrow> intent_event list" where
  "full_run i act st new jobs =
     [IvAck True, IvMarkCompleted True, IvFanout jobs (Some new)] @
     (if num_truthy (eventLogPublishedAt st) then []
      else [IvMarkPublished True] @ (if is_public_activity i then [IvPublish (activity_event_of i act) True] else [])
        @ (if is_lifecycle_removal i act then [IvTombstone (tombstone_of i act) True] else [])) @
     [IvState (Some st)]"

definition intent_services_up :: "'s intent_services \<Rightarrow> OutboxIntent \<Rightarrow> OutboxIntentState \<Rightarrow> bool \<Rightarrow> bool" where
  "intent_services_up S i st new \<longleftrightarrow>
     (\<forall>s. within_horizon i (fst (iv_now S s)) \<and> \<not> js_lt (Num (fst (iv_now S s))) (oi_notBeforeMs i)) \<and>
     serves (iv_getState S (oi_intentId i)) (\<lambda>x. x = st) \<and> serves (iv_markPublished S (oi_intentId i)) (\<lambda>_. True) \<and>
     serves (iv_markCompleted S (oi_intentId i)) (\<lambda>_. True) \<and>
     (\<forall>jobs. serves (iv_enqueueBatch S (oi_intentId i) jobs) (\<lambda>x. fst x = new)) \<and> (\<forall>m. serves (iv_ack S m) (\<lambda>_. True)) \<and>
     (\<exists>p. iv_redpanda S = Some p \<and> (\<forall>e. serves (pr_publishTombstone p e) (\<lambda>_. True)) \<and> (\<forall>e. serves (pr_publishToStream1 p e) (\<lambda>_. True)))"

lemma serves_mono: "serves m Q \<Longrightarrow> (\<And>a. Q a \<Longrightarrow> R a) \<Longrightarrow> serves m R"
  unfolding serves_def by metis

lemma goes_publish:
  assumes "intent_services_up S i st new"
  shows "goes (publishEventLog S i act) (\<lambda>_. True)
    ((if is_public_activity i then [IvPublish (activity_event_of i act) True] else []) @
     (if is_lifecycle_removal i act then [IvTombstone (tombstone_of i act) True] else []))"
proof -
  obtain p where p: "iv_redpanda S = Some p" "\<And>e. serves (pr_publishTombstone p e) (\<lambda>_. True)" "\<And>e. serves (pr_publishToStream1 p e) (\<lambda>_. True)"
    using assms unfolding intent_services_up_def by blast
  show ?thesis
    unfolding publishEventLog_def p(1) option.case
    by (rule goes_then [where es = "if is_lifecycle_removal i act then [IvTombstone (tombstone_of i act) True] else []"
          and fs = "if is_public_activity i then [IvPublish (activity_event_of i act) True] else []"])
       (auto intro!: goes_return goes_icalled serves_mono [OF p(2)] serves_mono [OF p(3)])
qed

lemma goes_complete:
  assumes "intent_services_up S i st new"
  shows "goes (complete_and_ack S m i jobs) (\<lambda>_. True) [IvAck True, IvMarkCompleted True, IvFanout jobs (Some new)]"
proof -
  have s: "serves (iv_markCompleted S (oi_intentId i)) (\<lambda>_. True)" "serves (iv_enqueueBatch S (oi_intentId i) jobs) (\<lambda>x. fst x = new)"
    "serves (iv_ack S m) (\<lambda>_. True)"
    using assms unfolding intent_services_up_def by blast+
  show ?thesis
    unfolding complete_and_ack_def i_fanout_def i_mark_completed_def i_ack_def
    by (rule goes_then goes_icalled serves_mono [OF s(1)] serves_mono [OF s(2)] serves_mono [OF s(3)] | simp)+
qed

lemma goes_io_sum: "goes (io_sum (Inr a)) (\<lambda>x. x = a) []"
  by (simp add: io_sum_def goes_return)

lemma goes_deliver:
  assumes up: "intent_services_up S i st new" and "parseIntentActivity S i = Inr act" and "intent_jobs S C i = Some jobs"
  shows "goes (deliver_intent S C m i st act) (\<lambda>_. True)
    ([IvAck True, IvMarkCompleted True, IvFanout jobs (Some new)] @
     (if num_truthy (eventLogPublishedAt st) then []
      else [IvMarkPublished True] @ (if is_public_activity i then [IvPublish (activity_event_of i act) True] else [])
        @ (if is_lifecycle_removal i act then [IvTombstone (tombstone_of i act) True] else [])))"
proof -
  have horizon: "goes (assertIntentWithinReplayHorizon S i b) (\<lambda>_. True) []" for b
    by (rule goes_horizon) (use up in \<open>simp add: intent_services_up_def\<close>)
  have mark: "goes (icalled (\<lambda>r. IvMarkPublished (went_well r)) (iv_markPublished S (oi_intentId i))) (\<lambda>_. True) [IvMarkPublished True]"
  proof (rule goes_icalled)
    have "serves (iv_markPublished S (oi_intentId i)) (\<lambda>_. True)" using up unfolding intent_services_up_def by blast
    then show "serves (iv_markPublished S (oi_intentId i)) (\<lambda>a. True \<and> IvMarkPublished (went_well (Inr a)) = IvMarkPublished True)"
      by (rule serves_mono) simp
  qed simp
  have fan: "goes (if oi_targets i = [] then complete_and_ack S m i []
        else io_bind (io_sum (normalized_intent_targets S i)) (\<lambda>targets.
             io_bind (io_sum (buildOutboundJobs S C i act targets)) (\<lambda>jobs.
             io_then (assertIntentWithinReplayHorizon S i b) (complete_and_ack S m i jobs)))) (\<lambda>_. True)
      [IvAck True, IvMarkCompleted True, IvFanout jobs (Some new)]" for b
  proof (cases "oi_targets i = []")
    case True
    with assms(3) have "jobs = []" by (simp add: intent_jobs_def)
    with goes_complete [OF up, of m "[]"] True show ?thesis by simp
  next
    case False
    then obtain ts where ts: "normalized_intent_targets S i = Inr ts" "buildOutboundJobs S C i act ts = Inr jobs"
      using assms(2,3) by (auto simp: intent_jobs_def split: sum.splits)
    have "goes (io_then (assertIntentWithinReplayHorizon S i b) (complete_and_ack S m i jobs)) (\<lambda>_. True)
        [IvAck True, IvMarkCompleted True, IvFanout jobs (Some new)]"
      by (rule goes_then [OF horizon goes_complete [OF up]]) simp
    then show ?thesis
      unfolding ts(1) using False ts(2)
      by (auto intro!: goes_bind [OF goes_io_sum])
  qed
  show ?thesis
    unfolding deliver_intent_def
    by (rule goes_then [OF _ fan], cases "num_truthy (eventLogPublishedAt st)")
       (use goes_then [OF goes_publish [OF up, of act] mark refl] in \<open>auto intro: goes_return\<close>)
qed

lemma goes_body:
  assumes up: "intent_services_up S i st new" and "\<not> num_truthy (completedAt st)"
    and "parseIntentActivity S i = Inr act" and "intent_jobs S C i = Some jobs"
  shows "goes (intent_body S C m i) (\<lambda>_. True) (full_run i act st new jobs)"
proof -
  have horizon: "goes (assertIntentWithinReplayHorizon S i b) (\<lambda>_. True) []" for b
    by (rule goes_horizon) (use up in \<open>simp add: intent_services_up_def\<close>)
  have due: "goes (intent_not_due S i) (\<lambda>x. \<not> x) []"
    unfolding intent_not_due_def
    by (cases "js_lt (Num 0) (oi_notBeforeMs i)")
       (use up in \<open>auto simp: intent_services_up_def simp del: js_lt.simps intro!: goes_return
          goes_bind [OF goes_clock [of "\<lambda>t. \<not> js_lt (Num t) (oi_notBeforeMs i)"]]\<close>)
  have state: "goes (icalled (\<lambda>r. IvState (answer r)) (iv_getState S (oi_intentId i))) (\<lambda>x. x = st) [IvState (Some st)]"
  proof (rule goes_icalled)
    have "serves (iv_getState S (oi_intentId i)) (\<lambda>x. x = st)" using up unfolding intent_services_up_def by blast
    then show "serves (iv_getState S (oi_intentId i)) (\<lambda>a. a = st \<and> IvState (answer (Inr a)) = IvState (Some st))"
      by (rule serves_mono) simp
  qed simp
  have work: "goes (if num_truthy (completedAt x) then i_ack S m
          else io_bind (io_sum (parseIntentActivity S i)) (\<lambda>act. deliver_intent S C m i x act)) (\<lambda>_. True)
      ([IvAck True, IvMarkCompleted True, IvFanout jobs (Some new)] @
       (if num_truthy (eventLogPublishedAt st) then []
        else [IvMarkPublished True] @ (if is_public_activity i then [IvPublish (activity_event_of i act) True] else [])
          @ (if is_lifecycle_removal i act then [IvTombstone (tombstone_of i act) True] else [])))" if "x = st" for x
    using that assms(2) goes_deliver [OF up assms(3,4), of m]
    unfolding assms(3) by (auto intro!: goes_bind [OF goes_io_sum])
  have go: "goes (if later then io_then (set_parking True) (persistDelayedReplacementAndAck S m i)
        else io_bind (icalled (\<lambda>r. IvState (answer r)) (iv_getState S (oi_intentId i))) (\<lambda>st.
          if num_truthy (completedAt st) then i_ack S m
          else io_bind (io_sum (parseIntentActivity S i)) (\<lambda>act. deliver_intent S C m i st act))) (\<lambda>_. True)
      (full_run i act st new jobs)" if "\<not> later" for later
    using goes_bind [OF state work] that by (simp add: full_run_def)
  show ?thesis
    unfolding intent_body_def
    by (rule goes_then [OF horizon goes_bind [OF due go]]) simp_all
qed

lemma goes_intent:
  assumes "intent_services_up S i st new" and "\<not> num_truthy (completedAt st)"
    and "parseIntentActivity S i = Inr act" and "intent_jobs S C i = Some jobs"
  shows "goes (processIntent S C m i) (\<lambda>_. True) (full_run i act st new jobs)"
  unfolding processIntent_def
  by (rule goes_then [OF goes_local(2) goes_then [OF goes_local(1) goes_finally [OF goes_catch [OF goes_body [OF assms]] goes_local(2)]]]) simp_all

lemma goes_run:
  assumes "intent_services_up S i st new" and "\<not> num_truthy (completedAt st)"
    and "parseIntentActivity S i = Inr act" and "intent_jobs S C i = Some jobs"
  shows "fst (intent_run S C m i x) = Inr () \<and> intent_acts (intent_trace S C m i x) = full_run i act st new jobs"
proof -
  obtain w' where "processIntent S C m i \<lparr>iw_srv = x, iw_trace = [], iw_active = 0, iw_parking = False\<rparr> = (Inr (), w')"
    "intent_acts (iw_trace w') = full_run i act st new jobs @ intent_acts []"
    using goes_intent [OF assms, of m] unfolding goes_def by fastforce
  then show ?thesis by (simp add: intent_run_def intent_trace_def intent_acts_def)
qed

section \<open>Sample\<close>

definition intent_sample_services :: "bool \<Rightarrow> 's intent_services" where
  "intent_sample_services ack_fails =
     \<lparr>iv_now = (\<lambda>s. (2000, s)),
      iv_getState = (\<lambda>k. io_return \<lparr>eventLogPublishedAt = None, outboundEnqueuedAt = None, completedAt = None, jobCount = None\<rparr>),
      iv_markPublished = (\<lambda>k. io_return ()), iv_markCompleted = (\<lambda>k. io_return ()),
      iv_enqueueBatch = (\<lambda>k jobs. io_return (True, Num (int (length jobs)))),
      iv_ack = (\<lambda>m. if ack_fails then io_throw ''down'' else io_return ()), iv_moveToDlq = (\<lambda>i r. io_return ()),
      iv_redpanda = Some \<lparr>pr_publishTombstone = (\<lambda>e. io_return ()), pr_publishToStream1 = (\<lambda>e. io_return ())\<rparr>,
      iv_persist = Some (\<lambda>m i. io_return ()), iv_parse = mini_parse, iv_print = mini_print, iv_env = (\<lambda>_. None),
      iv_json_error = (\<lambda>_. ''bad'')\<rparr>"

definition intent_sample_config :: intent_config where
  "intent_sample_config = \<lparr>ic_concurrency = Num 8, ic_outboundJobMaxAttempts = Num 10,
     ic_deliveryPolicy = DEFAULT_ACTIVITYPUB_OUTBOUND_DELIVERY_POLICY\<rparr>"

definition intent_sample :: OutboxIntent where
  "intent_sample = \<lparr>oi_intentId = ''plan-1'', oi_activityId = ''https://a.example/1'', oi_actorUri = ''https://a.example/u'',
     oi_activity = json_stringify (JObj [(''type'', JStr ''Delete'')]),
     oi_targets = [target_json \<lparr>ot_inboxUrl = ''https://b.example/i'', ot_sharedInboxUrl = None,
        ot_deliveryUrl = ''https://b.example/i'', ot_targetDomain = ''b.example''\<rparr>],
     oi_createdAt = Num 1000, oi_attempt = Num 0, oi_maxAttempts = Num 8, oi_notBeforeMs = Num 0, oi_lastError = None,
     oi_meta = Some (JObj [(''isPublicActivity'', JBool True)]), oi_bridgeHints = None\<rparr>"

definition intent_sample_job :: OutboundJob where
  "intent_sample_job = \<lparr>jobId = ''https://a.example/1::https://b.example/i'', activityId = ''https://a.example/1'',
     actorUri = ''https://a.example/u'', activity = json_stringify (JObj [(''type'', JStr ''Delete'')]),
     targetInbox = ''https://b.example/i'', targetDomain = ''b.example'', attempt = Num 0, maxAttempts = Num 10,
     notBeforeMs = Num 0, deferCount = None, lastError = None, meta = Some (JObj [(''isPublicActivity'', JBool True)])\<rparr>"

definition blank_state :: OutboxIntentState where
  "blank_state = \<lparr>eventLogPublishedAt = None, outboundEnqueuedAt = None, completedAt = None, jobCount = None\<rparr>"

lemma intent_sample_activity: "parseIntentActivity S intent_sample = Inr (JObj [(''type'', JStr ''Delete'')])"
  using json_parse_stringify [of "JObj [(''type'', JStr ''Delete'')]"]
  by (simp add: parseIntentActivity_def intent_sample_def del: json_stringify.simps)

lemma sample_targets: "normalizeAndDedupeOutboundTargets mini_parse mini_print (\<lambda>_. None) (Some (JArr (oi_targets intent_sample)))
             \<lparr>bp_maxPending = None, bp_maxQueueDepth = None, bp_retryAfterSeconds = None,
              bp_maxTargetsPerRequest = max (int (length (oi_targets intent_sample))) 1\<rparr> =
   Inr \<lparr>nt_targets = [\<lparr>ot_inboxUrl = ''https://b.example/i'', ot_sharedInboxUrl = None,
        ot_deliveryUrl = ''https://b.example/i'', ot_targetDomain = ''b.example''\<rparr>],
     nt_inputTargetCount = 1, nt_duplicateTargetCount = 0, nt_invalidTargetCount = 0, nt_apdmAuthority = None\<rparr>"
  by code_simp

lemma sample_policy: "applyActivityPubOutboundDeliveryPolicy mini_parse mini_print (JObj [(''type'', JStr ''Delete'')]) ''b.example''
    None DEFAULT_ACTIVITYPUB_OUTBOUND_DELIVERY_POLICY = Inr (JObj [(''type'', JStr ''Delete'')])"
  by code_simp

definition sample_target :: outbound_target where
  "sample_target = \<lparr>ot_inboxUrl = ''https://b.example/i'', ot_sharedInboxUrl = None,
        ot_deliveryUrl = ''https://b.example/i'', ot_targetDomain = ''b.example''\<rparr>"

lemma sample_libs [simp]:
  "iv_parse (intent_sample_services f) = mini_parse" "iv_print (intent_sample_services f) = mini_print"
  "iv_env (intent_sample_services f) = (\<lambda>_. None)"
  by (simp_all add: intent_sample_services_def)

lemma sample_work:
  assumes "iv_parse S = mini_parse" and "iv_print S = mini_print" and "iv_env S = (\<lambda>_. None)"
  shows "normalized_intent_targets S intent_sample = Inr [sample_target]"
    and "buildOutboundJobs S intent_sample_config intent_sample (JObj [(''type'', JStr ''Delete'')]) [sample_target] = Inr [intent_sample_job]"
proof -
  show "normalized_intent_targets S intent_sample = Inr [sample_target]"
    unfolding normalized_intent_targets_def assms sample_targets by (simp add: sample_target_def)
  have "normalizeBridgeHints (oi_bridgeHints intent_sample) = None" by (simp add: intent_sample_def normalizeBridgeHints_def)
  then show "buildOutboundJobs S intent_sample_config intent_sample (JObj [(''type'', JStr ''Delete'')]) [sample_target] = Inr [intent_sample_job]"
    by (simp add: assms sample_target_def intent_sample_config_def sample_policy intent_sample_job_def del: json_stringify.simps)
       (simp add: intent_sample_def del: json_stringify.simps)
qed

lemmas sample_worked = sample_work [OF sample_libs]

lemma sample_jobs: "intent_jobs (intent_sample_services f) intent_sample_config intent_sample = Some [intent_sample_job]"
proof -
  have t: "oi_targets intent_sample \<noteq> []" by (simp add: intent_sample_def)
  show ?thesis unfolding intent_jobs_def intent_sample_activity sample_worked(1) by (simp add: t sample_worked(2) del: buildOutboundJobs.simps)
qed

lemma sample_up: "intent_services_up (intent_sample_services False) intent_sample blank_state True"
  by (auto simp: intent_services_up_def serves_def intent_sample_services_def blank_state_def io_return_def intent_sample_def
      within_horizon_def apdm_constants simp del: json_stringify.simps)

text \<open>The trace of the sample up to the acknowledgement, and after one that fails at an attempt that is not the last.\<close>

definition sample_before_ack :: "intent_event list" where
  "sample_before_ack =
     [IvMarkCompleted True, IvFanout [intent_sample_job] (Some True), IvTime 2000, IvMarkPublished True,
      IvPublish (activity_event_of intent_sample (JObj [(''type'', JStr ''Delete'')])) True,
      IvTombstone (tombstone_of intent_sample (JObj [(''type'', JStr ''Delete'')])) True, IvState (Some blank_state), IvTime 2000]"

definition intent_sample_retry :: OutboxIntent where
  "intent_sample_retry = intent_sample\<lparr>oi_attempt := Num 1, oi_notBeforeMs := Num (2000 + backoffMs (Num 1)), oi_lastError := Some ''down''\<rparr>"

lemma sample_kind:
  "is_public_activity intent_sample" "is_lifecycle_removal intent_sample (JObj [(''type'', JStr ''Delete'')])"
  "oi_targets intent_sample \<noteq> []" "oi_createdAt intent_sample = Num 1000" "oi_notBeforeMs intent_sample = Num 0"
  "oi_attempt intent_sample = Num 0" "oi_maxAttempts intent_sample = Num 8"
  by (simp_all add: is_public_activity_def is_lifecycle_removal_def meta_get_def intent_sample_def Let_def del: json_stringify.simps)

lemma sample_trace:
  "intent_trace (intent_sample_services f) intent_sample_config m intent_sample () =
     (if f then [IvPark intent_sample_retry True, IvTime 2000, IvAck False] else [IvAck True]) @ sample_before_ack"
proof -
  define s :: "unit intent_services" where "s = intent_sample_services f"
  have sv: "iv_now s = (\<lambda>x. (2000, x))" "iv_getState s = (\<lambda>k. io_return blank_state)" "iv_markPublished s = (\<lambda>k. io_return ())"
    "iv_markCompleted s = (\<lambda>k. io_return ())" "iv_enqueueBatch s = (\<lambda>k jobs. io_return (True, Num (int (length jobs))))"
    "iv_ack s = (\<lambda>m. if f then io_throw ''down'' else io_return ())"
    "iv_redpanda s = Some \<lparr>pr_publishTombstone = (\<lambda>e. io_return ()), pr_publishToStream1 = (\<lambda>e. io_return ())\<rparr>"
    "iv_persist s = Some (\<lambda>m i. io_return ())"
    by (simp_all add: s_def intent_sample_services_def blank_state_def)
  have "iv_parse s = mini_parse" "iv_print s = mini_print" "iv_env s = (\<lambda>_. None)" by (simp_all add: s_def)
  note facts = intent_sample_activity sample_work [OF this] sample_kind
  have "intent_trace s intent_sample_config m intent_sample () =
     (if f then [IvPark intent_sample_retry True, IvTime 2000, IvAck False] else [IvAck True]) @ sample_before_ack"
    by (cases f)
       (simp_all add: intent_trace_def intent_run_def processIntent_def io_then_def io_bind_def io_return_def io_throw_def io_catch_def
        io_finally_def iadd_active_def set_parking_def intent_body_def assertIntentWithinReplayHorizon_def iclock_def icalled_def
        intent_not_due_def deliver_intent_def publishEventLog_def complete_and_ack_def i_fanout_def i_mark_completed_def i_ack_def
        io_sum_def intent_failed_def persistDelayedReplacementAndAck_def sv facts sample_before_ack_def blank_state_def apdm_constants Let_def
        intent_sample_retry_def
        del: json_stringify.simps backoffMs.simps buildOutboundJobs.simps)
  then show ?thesis by (simp add: s_def)
qed

end
