(* ===== verification/Intent_Guarantees.thy ===== *)
theory Intent_Guarantees
  imports Intent_Delivery Worker_Invariants
begin

text \<open>
  What following the protocol means for an outbox intent: what is observed, fanned out, retried and
  acknowledged, and in which order, and what becomes of the intent when the services cooperate.
\<close>

section \<open>Properties\<close>

text \<open>C8: Every run of the outbox-intent worker follows the protocol, whatever its services answer and however they fail:
  it reads the state only for an intent that is due and within the replay horizon, publishes before it
  marks, marks before it fans out, fans out before it completes, stops at the first call that fails, and
  hands the intent on exactly once.  A run that resolves has either acknowledged the entry or parked a replacement, never both;
  a run that rejects has done neither, so that the entry stays pending.  The count of active jobs is as before.\<close>
theorem processIntent_refines_protocol:
  "\<exists>s. leads (intent_protocol S C i) (intent_trace S C m i x) s \<and> iw_active (snd (intent_run S C m i x)) = 0 \<and>
     (case fst (intent_run S C m i x) of Inr _ \<Rightarrow> ip_acked s \<noteq> ip_parked s | Inl _ \<Rightarrow> \<not> ip_acked s \<and> \<not> ip_parked s)"
  using processIntent_leads [of "\<lparr>iw_srv = x, iw_trace = [], iw_active = 0, iw_parking = False\<rparr>" S C i m]
  by (auto simp: intent_trace_def intent_run_def still_pending_def accounted_def split: sum.splits if_splits)

text \<open>C11: Nothing is fanned out before it is observed: when a run fans an intent out, the stored state was read and says that it is not
  completed, the publications its activity and meta data call for (the tombstone of a deletion, the event of a public activity)
  have succeeded and been marked in this run, unless the stored state says they were before; the clock was last read within the
  replay horizon; the jobs are those of the intent; and no other fan-out is made in that run.\<close>
theorem observed_before_fanout:
  assumes "intent_trace S C m i x = later @ IvFanout jobs r # earlier"
  shows "intent_jobs S C i = Some jobs \<and>
    (\<exists>st. IvState (Some st) \<in> set earlier \<and> \<not> num_truthy (completedAt st) \<and>
      (num_truthy (eventLogPublishedAt st) \<or>
       IvMarkPublished True \<in> set earlier \<and> (\<exists>act. parseIntentActivity S i = Inr act \<and> log_written i act earlier))) \<and>
    (oi_targets i = [] \<or> (\<exists>t. latest_time earlier = Some t \<and> within_horizon i t)) \<and>
    (\<forall>jobs' r'. IvFanout jobs' r' \<notin> set (later @ earlier))"
proof -
  obtain s s' where l: "leads (intent_protocol S C i) earlier s" and st: "intent_step S C i s (IvFanout jobs r) s'"
    using trace_split [OF assms] .
  have no_earlier: "IvFanout jobs' r' \<notin> set earlier" for jobs' r'
    using stage_recorded [OF l] st unfolding stage_record_def intent_step_simps intent_working_def by meson
  have no_later: "IvFanout jobs' r' \<notin> set later" for jobs' r'
  proof
    assume "IvFanout jobs' r' \<in> set later"
    then obtain xs ys where "later = xs @ IvFanout jobs' r' # ys" by (meson split_list)
    then have "intent_trace S C m i x = xs @ IvFanout jobs' r' # (ys @ IvFanout jobs r # earlier)" using assms by simp
    then obtain u u' where u: "leads (intent_protocol S C i) (ys @ IvFanout jobs r # earlier) u" "intent_step S C i u (IvFanout jobs' r') u'"
      by (rule trace_split)
    have "IvFanout jobs r \<in> set (ys @ IvFanout jobs r # earlier)" by simp
    with stage_recorded [OF u(1)] u(2) show False
      unfolding stage_record_def intent_step_simps intent_working_def by meson
  qed
  show ?thesis
    using stage_recorded [OF l] log_recorded [OF l] st no_earlier no_later
    by (auto simp: stage_record_def log_record_def)
qed

theorem observed_before_fanout_witness:
  "\<exists>later earlier. intent_trace (intent_sample_services True) intent_sample_config ''1-0'' intent_sample () =
      later @ IvFanout [intent_sample_job] (Some True) # earlier \<and>
    latest_time earlier = Some 2000 \<and> within_horizon intent_sample 2000 \<and> IvMarkPublished True \<in> set earlier \<and>
    log_written intent_sample (JObj [(''type'', JStr ''Delete'')]) earlier"
proof -
  let ?earlier = "drop 2 sample_before_ack"
  let ?later = "[IvPark intent_sample_retry True, IvTime 2000, IvAck False, IvMarkCompleted True]"
  have t: "intent_trace (intent_sample_services True) intent_sample_config ''1-0'' intent_sample () =
      ?later @ IvFanout [intent_sample_job] (Some True) # ?earlier"
    by (simp add: sample_trace sample_before_ack_def)
  have st: "eventLogPublishedAt st = None" if "IvState (Some st) \<in> set ?earlier" for st
    using that by (auto simp: sample_before_ack_def blank_state_def)
  have time: "latest_time ?earlier = Some 2000" by (simp add: sample_before_ack_def)
  note o = observed_before_fanout [OF t]
  note o2 = o [THEN conjunct2, THEN conjunct1] and o3 = o [THEN conjunct2, THEN conjunct2, THEN conjunct1]
  from o2 obtain st where s: "IvState (Some st) \<in> set ?earlier"
    and "num_truthy (eventLogPublishedAt st) \<or> IvMarkPublished True \<in> set ?earlier \<and>
      (\<exists>act. parseIntentActivity (intent_sample_services True :: unit intent_services) intent_sample = Inr act \<and> log_written intent_sample act ?earlier)"
    by (elim exE conjE) (rule that)
  then have "IvMarkPublished True \<in> set ?earlier" "log_written intent_sample (JObj [(''type'', JStr ''Delete'')]) ?earlier"
    using st [OF s] by (simp_all add: intent_sample_activity)
  moreover have "within_horizon intent_sample 2000" using o3 time sample_kind(3) by simp
  ultimately show ?thesis using t time by blast
qed

text \<open>C16: An entry of the intent stream is acknowledged only when its intent is accounted for: the stored state said it was completed,
  or this run fanned it out and recorded the completion, or it is in the dead-letter queue.  After an acknowledgement that
  succeeds nothing is done.\<close>
theorem intent_acked_only_when_accounted:
  assumes "intent_trace S C m i x = later @ IvAck b # earlier"
  shows "((\<exists>st. IvState (Some st) \<in> set earlier \<and> num_truthy (completedAt st)) \<or>
      (\<exists>jobs new. IvFanout jobs (Some new) \<in> set earlier \<and> intent_jobs S C i = Some jobs \<and> IvMarkCompleted True \<in> set earlier) \<or>
      (\<exists>e reason. IvDlq (i\<lparr>oi_attempt := js_add (oi_attempt i) 1, oi_lastError := Some e\<rparr>) reason True \<in> set earlier)) \<and>
    (b \<longrightarrow> later = [])"
proof -
  obtain s s' where l: "leads (intent_protocol S C i) earlier s" and st: "intent_step S C i s (IvAck b) s'"
    using trace_split [OF assms] .
  have "ip_completed s \<or> ip_dead s" using st by simp
  then have "(\<exists>st. IvState (Some st) \<in> set earlier \<and> num_truthy (completedAt st)) \<or>
      (\<exists>jobs new. IvFanout jobs (Some new) \<in> set earlier \<and> IvMarkCompleted True \<in> set earlier) \<or>
      (\<exists>i' reason. IvDlq i' reason True \<in> set earlier)"
    using stage_recorded [OF l] unfolding stage_record_def by (auto split: if_splits)
  moreover have "later = []" if b using handed_on_last [of S C m i x later "IvAck b" earlier] assms that by simp
  ultimately show ?thesis using fanned_jobs [OF l] dead_lettered [OF l] by metis
qed

theorem intent_acked_only_when_accounted_witness:
  "\<exists>earlier. intent_trace (intent_sample_services False) intent_sample_config ''1-0'' intent_sample () = IvAck True # earlier \<and>
    IvFanout [intent_sample_job] (Some True) \<in> set earlier \<and> IvMarkCompleted True \<in> set earlier"
proof -
  have t: "intent_trace (intent_sample_services False) intent_sample_config ''1-0'' intent_sample () = [] @ IvAck True # sample_before_ack"
    by (simp add: sample_trace)
  have "\<not> num_truthy (completedAt st)" if "IvState (Some st) \<in> set sample_before_ack" for st
    using that by (auto simp: sample_before_ack_def blank_state_def)
  moreover have "IvDlq i' reason True \<notin> set sample_before_ack" for i' reason by (simp add: sample_before_ack_def)
  moreover have "new \<and> jobs = [intent_sample_job]" if "IvFanout jobs (Some new) \<in> set sample_before_ack" for jobs new
    using that by (auto simp: sample_before_ack_def)
  ultimately show ?thesis using intent_acked_only_when_accounted [OF t] t by fastforce
qed

text \<open>An intent is parked in only two ways: unchanged, before anything else was done with it, because it is not due; or as a retry,
  with one more attempt that is still below the limit, due after the backoff and with the error that was met, everything else as it was.
  So the number of retries is bounded by the attempts left.  After a replacement that succeeds nothing is done.\<close>
theorem intent_retries_decrease:
  assumes "intent_trace S C m i x = later @ IvPark i' b # earlier" and "oi_attempt i = Num a" and "oi_maxAttempts i = Num n"
  shows "\<exists>t. latest_time earlier = Some t \<and>
    (i' = i \<and> js_lt (Num t) (oi_notBeforeMs i) \<and> (\<forall>e \<in> set earlier. \<exists>u. e = IvTime u) \<or>
     (\<exists>e. i' = i\<lparr>oi_attempt := Num (a + 1), oi_notBeforeMs := Num (t + backoffMs (Num (a + 1))), oi_lastError := Some e\<rparr>) \<and>
     nat (n - (a + 1)) < nat (n - a)) \<and>
    (b \<longrightarrow> later = [])"
proof -
  obtain s s' where l: "leads (intent_protocol S C i) earlier s" and st: "intent_step S C i s (IvPark i' b) s'"
    using trace_split [OF assms(1)] .
  have last: "later = []" if b using handed_on_last [of S C m i x later "IvPark i' b" earlier] assms(1) that by simp
  have time: "ip_now s = latest_time earlier" using stage_recorded [OF l] unfolding stage_record_def by blast
  from st show ?thesis
  proof (cases rule: intent_step.cases)
    case (park_early t)
    then have "\<forall>e \<in> set earlier. \<exists>u. e = IvTime u" using early_recorded [OF l] unfolding early_record_def by blast
    with park_early time last show ?thesis by auto
  next
    case (park_retry t)
    with assms(2,3) obtain e where "i' = i\<lparr>oi_attempt := Num (a + 1), oi_notBeforeMs := Num (t + backoffMs (Num (a + 1))), oi_lastError := Some e\<rparr>"
      and "a + 1 < n" by (auto simp: retried_intent_def simp del: backoffMs.simps)
    with park_retry time last show ?thesis by (auto simp del: backoffMs.simps)
  qed
qed

theorem intent_retries_decrease_witness:
  "\<exists>earlier e. intent_trace (intent_sample_services True) intent_sample_config ''1-0'' intent_sample () = IvPark intent_sample_retry True # earlier \<and>
    intent_sample_retry = intent_sample\<lparr>oi_attempt := Num (0 + 1), oi_notBeforeMs := Num (2000 + backoffMs (Num (0 + 1))), oi_lastError := Some e\<rparr> \<and>
    nat (8 - (0 + 1)) < nat (8 - 0)"
proof -
  have t: "intent_trace (intent_sample_services True) intent_sample_config ''1-0'' intent_sample () =
      [] @ IvPark intent_sample_retry True # (IvTime 2000 # IvAck False # sample_before_ack)"
    by (simp add: sample_trace)
  from intent_retries_decrease [OF t sample_kind(6,7)] t show ?thesis
    by (auto simp del: backoffMs.simps)
qed

text \<open>C17: The jobs fanned out for an intent are one per delivery target, after normalising: every inbox of the snapshot that is usable, each
  once, with an identifier of its own made of the activity and the inbox, starting at attempt zero, with the meta data of
  the intent, and with the activity as the delivery policy edits it for the domain of that inbox.\<close>
theorem intent_jobs_exact:
  assumes "url_library (iv_parse S) (iv_print S)" and "intent_jobs S C i = Some jobs" and "oi_targets i \<noteq> []"
  shows "\<exists>act ts. parseIntentActivity S i = Inr act \<and> normalized_intent_targets S i = Inr ts \<and> ts \<noteq> [] \<and>
    (\<forall>t \<in> set ts. normal_target (iv_parse S) (iv_print S) t) \<and> length jobs \<le> length (oi_targets i) \<and>
    map targetInbox jobs = map ot_deliveryUrl ts \<and> map targetDomain jobs = map ot_targetDomain ts \<and>
    distinct (map jobId jobs) \<and> (\<forall>j \<in> set jobs. job_of S C i act j)"
proof -
  obtain act ts where a: "parseIntentActivity S i = Inr act" "normalized_intent_targets S i = Inr ts" "buildOutboundJobs S C i act ts = Inr jobs"
    using assms(2,3) by (auto simp: intent_jobs_def split: sum.splits)
  note b = built_jobs [OF a(3)]
  let ?cfg = "\<lparr>bp_maxPending = None, bp_maxQueueDepth = None, bp_retryAfterSeconds = None,
              bp_maxTargetsPerRequest = max (int (length (oi_targets i))) 1\<rparr>"
  obtain r where r: "normalizeAndDedupeOutboundTargets (iv_parse S) (iv_print S) (iv_env S) (Some (JArr (oi_targets i))) ?cfg = Inr r"
    "nt_targets r = ts" "ts \<noteq> []" using a(2) by (auto simp: normalized_intent_targets_def split: sum.splits if_splits)
  from url_library.normalized_facts [OF assms(1) r(1)] r(2)
  have n: "\<forall>t \<in> set ts. normal_target (iv_parse S) (iv_print S) t" "distinct (map ot_deliveryUrl ts)" "length ts \<le> length (oi_targets i)"
    by auto
  have "length jobs = length ts" using b by (metis length_map)
  moreover have "distinct (map jobId jobs)"
    by (rule job_ids_distinct [of _ "oi_activityId i @ ''::''"]) (use b n(2) in \<open>auto simp: job_of_def\<close>)
  ultimately show ?thesis using a b n r(3) by auto
qed

theorem intent_jobs_exact_witness:
  "intent_jobs (intent_sample_services False) intent_sample_config intent_sample = Some [intent_sample_job] \<and>
   job_of (intent_sample_services False) intent_sample_config intent_sample (JObj [(''type'', JStr ''Delete'')]) intent_sample_job"
proof -
  have "url_library (iv_parse (intent_sample_services False)) (iv_print (intent_sample_services False))"
    using mini.url_library_axioms by (simp add: intent_sample_services_def)
  from intent_jobs_exact [OF this sample_jobs sample_kind(3)] show ?thesis
    by (auto simp: intent_sample_activity sample_jobs)
qed


text \<open>C19: When the services cooperate an intent gets out in one run: if they answer, the state does not say it is completed, it
  is due and within the horizon, its activity parses and its jobs can be built, then the run resolves, and the calls it makes,
  clock readings aside, are exactly: reading the state; unless they are on record the tombstone if it is a
  deletion, the event if it is public, and their mark; one fan-out of its jobs; the mark of completion; the acknowledgement.\<close>
theorem cooperative_intent_completes:
  assumes "intent_services_up S i st new" and "\<not> num_truthy (completedAt st)"
    and "parseIntentActivity S i = Inr act" and "intent_jobs S C i = Some jobs"
  shows "fst (intent_run S C m i x) = Inr () \<and> intent_acts (intent_trace S C m i x) = full_run i act st new jobs"
  by (rule goes_run [OF assms])


theorem cooperative_intent_completes_witness:
  "intent_acts (intent_trace (intent_sample_services False) intent_sample_config ''1-0'' intent_sample ()) =
    [IvAck True, IvMarkCompleted True, IvFanout [intent_sample_job] (Some True), IvMarkPublished True,
     IvPublish (activity_event_of intent_sample (JObj [(''type'', JStr ''Delete'')])) True,
     IvTombstone (tombstone_of intent_sample (JObj [(''type'', JStr ''Delete'')])) True, IvState (Some blank_state)]"
proof -
  have "\<not> num_truthy (completedAt blank_state)" by (simp add: blank_state_def)
  from cooperative_intent_completes [OF sample_up this intent_sample_activity sample_jobs, of "''1-0''" "()"] show ?thesis
    by (simp add: full_run_def blank_state_def is_public_activity_def is_lifecycle_removal_def meta_get_def intent_sample_def Let_def
        del: json_stringify.simps)
qed

end
