(* ===== verification/Intent_Deployment.thy ===== *)
theory Intent_Deployment
  imports Intent_Delivery Worker_Invariants Queue_Properties
begin

text \<open>
  The outbox-intent worker on top of the intent state that Redis keeps: any number of runs on any
  intents, with time passing between them.  The jobs of an intent reach the outbound stream once.
\<close>

section \<open>What a run leaves alone\<close>

lemma maintains_snd: "maintains I m \<Longrightarrow> I w \<Longrightarrow> I (snd (m w))"
  by (simp add: maintains_def)

lemma maintains_io_sum: "maintains I (io_sum x)"
  by (cases x) (simp_all add: io_sum_def keep_rules)

text \<open>The calls of the worker, each of which keeps \<open>I\<close>.\<close>

definition intent_calls_keep :: "('s intent_world \<Rightarrow> bool) \<Rightarrow> 's intent_services \<Rightarrow> OutboxIntent \<Rightarrow> bool" where
  "intent_calls_keep I S i \<longleftrightarrow>
     (\<forall>b. maintains I (set_parking b)) \<and> (\<forall>d. maintains I (iadd_active d)) \<and> maintains I (iclock S) \<and>
     maintains I (icalled (\<lambda>r. IvState (answer r)) (iv_getState S (oi_intentId i))) \<and>
     maintains I (icalled (\<lambda>r. IvMarkPublished (went_well r)) (iv_markPublished S (oi_intentId i))) \<and>
     maintains I (i_mark_completed S i) \<and> (\<forall>jobs. maintains I (i_fanout S i jobs)) \<and>
     (\<forall>m. maintains I (i_ack S m)) \<and> (\<forall>i' r. maintains I (i_dlq S i' r)) \<and>
     (\<forall>m i'. maintains I (persistDelayedReplacementAndAck S m i')) \<and> (\<forall>act. maintains I (publishEventLog S i act))"

lemma processIntent_maintains:
  assumes "intent_calls_keep I S i"
  shows "maintains I (processIntent S C m i)"
proof -
  have k: "maintains I (set_parking b)" "maintains I (iadd_active d)" "maintains I (iclock S)"
    "maintains I (icalled (\<lambda>r. IvState (answer r)) (iv_getState S (oi_intentId i)))"
    "maintains I (icalled (\<lambda>r. IvMarkPublished (went_well r)) (iv_markPublished S (oi_intentId i)))"
    "maintains I (i_mark_completed S i)" "maintains I (i_fanout S i jobs)" "maintains I (i_ack S m)" "maintains I (i_dlq S i' r)"
    "maintains I (persistDelayedReplacementAndAck S m i')" "maintains I (publishEventLog S i act)" for b d jobs m i' r act
    using assms unfolding intent_calls_keep_def by blast+
  have horizon: "maintains I (assertIntentWithinReplayHorizon S i b)" for b
    unfolding assertIntentWithinReplayHorizon_def by (auto intro!: keep_rules k split: option.split)
  have complete: "maintains I (complete_and_ack S m i jobs)" for jobs
    unfolding complete_and_ack_def by (intro keep_rules k)
  have deliver: "maintains I (deliver_intent S C m i st act)" for st act
    unfolding deliver_intent_def by (intro keep_rules k complete horizon maintains_io_sum)
  have due: "maintains I (intent_not_due S i)"
    unfolding intent_not_due_def by (intro keep_rules k)
  have body: "maintains I (intent_body S C m i)"
    unfolding intent_body_def by (intro keep_rules k horizon due deliver maintains_io_sum)
  have failed: "maintains I (intent_failed S m i e)" for e
    unfolding maintains_def
  proof (intro allI impI)
    fix w assume "I w"
    then show "I (snd (intent_failed S m i e w))"
      by (auto simp: intent_failed_def Let_def simp del: backoffMs.simps intro!: maintains_snd [of I] keep_rules k)
  qed
  show ?thesis unfolding processIntent_def by (intro keep_rules k body failed)
qed

text \<open>One call: the state of the services changes and an event is added.\<close>

lemma maintains_icalled:
  assumes "\<And>w r s. I w \<Longrightarrow> m (iw_srv w) = (r, s) \<Longrightarrow> I (w\<lparr>iw_srv := s, iw_trace := ev r # iw_trace w\<rparr>)"
  shows "maintains I (icalled ev m)"
  unfolding maintains_def icalled_def by (auto split: prod.split intro: assms)

section \<open>The intent state in Redis\<close>

definition on_redis :: "('r, string, 'a) eio \<Rightarrow> ('r \<times> 'x, string, 'a) eio" where
  "on_redis m s = (case m (fst s) of (a, r) \<Rightarrow> (a, (r, snd s)))"

definition at_now :: "('r \<times> 'x) intent_services \<Rightarrow> (int \<Rightarrow> ('r, string, 'a) eio) \<Rightarrow> ('r \<times> 'x, string, 'a) eio" where
  "at_now S f s = (case iv_now S s of (t, s') \<Rightarrow> on_redis (f t) s')"

text \<open>The queue operations of \<open>Queue_Core\<close>, run on the first component of the state.\<close>

definition redis_intents ::
  "'r redis \<Rightarrow> (string \<Rightarrow> string + string) \<Rightarrow> queue_config \<Rightarrow> ('r \<times> 'x) intent_services \<Rightarrow> ('r \<times> 'x) intent_services" where
  "redis_intents R enc c S = S\<lparr>
     iv_getState := \<lambda>k. on_redis (getOutboxIntentState R c k),
     iv_markPublished := \<lambda>k. at_now S (markOutboxIntentEventLogPublished R c k),
     iv_markCompleted := \<lambda>k. at_now S (markOutboxIntentCompleted R c k),
     iv_enqueueBatch := \<lambda>k jobs. at_now S (enqueueOutboundBatchForIntent R enc c k jobs)\<rparr>"

text \<open>\<open>fanned_out r k\<close>: the fan-out of intent \<open>k\<close> is on record and stays so for \<open>r\<close> more milliseconds.\<close>

definition fanned_out :: "nat \<Rightarrow> string \<Rightarrow> keyspace \<Rightarrow> bool" where
  "fanned_out r k ks \<longleftrightarrow> ks_hash ks (outboxIntentStateKey k) ''outboundEnqueuedAt'' \<noteq> None \<and>
     (case ks_ttl ks (outboxIntentStateKey k) of None \<Rightarrow> True | Some t \<Rightarrow> ks_now ks + int r < t)"

lemma fanned_out_mono: "fanned_out r k ks \<Longrightarrow> r' \<le> r \<Longrightarrow> fanned_out r' k ks"
  by (auto simp: fanned_out_def split: option.splits)

lemma fanned_out_tick: "fanned_out r k (ks_tick d ks) = fanned_out (r + d) k ks"
  by (auto simp: fanned_out_def ks_tick_def split: option.splits)

lemma fanned_out_hget: "fanned_out 0 k ks \<Longrightarrow> ks_hget (outboxIntentStateKey k) ''outboundEnqueuedAt'' ks \<noteq> None"
  by (auto simp: fanned_out_def ks_hget_def ks_live_def split: option.splits)

lemma fanned_out_live: "fanned_out r k ks \<Longrightarrow> ks_live (outboxIntentStateKey k) ks"
  by (auto simp: fanned_out_def ks_live_def split: option.splits)

lemma state_key_inj [simp]: "outboxIntentStateKey k = outboxIntentStateKey k' \<longleftrightarrow> k = k'"
  by (simp add: outboxIntentStateKey_def)

lemma fanned_out_hset: "fanned_out r k ks \<Longrightarrow> fanned_out r k (ks_hset (outboxIntentStateKey k') f v ks)"
  using fanned_out_live [of r k ks]
  by (cases "k = k'") (auto simp: fanned_out_def ks_hset_def ks_purge_def Let_def split: option.splits)

lemma fanned_out_expire:
  "fanned_out r k ks \<Longrightarrow> r < 604800000 \<Longrightarrow> fanned_out r k (ks_expire (outboxIntentStateKey k') 604800 ks)"
  by (cases "k = k'") (auto simp: fanned_out_def ks_expire_def split: option.splits)

lemma fanned_out_xadd: "fanned_out r k ks \<Longrightarrow> outboxIntentStateKey k \<noteq> q \<Longrightarrow> fanned_out r k (ks_xadd q n x fs ks)"
  by (auto simp: fanned_out_def ks_xadd_def ks_purge_def Let_def split: option.splits)

lemma fanned_out_set:
  assumes "r < 604800000"
  shows "fanned_out r k (ks_expire (outboxIntentStateKey k) 604800 (ks_hset (outboxIntentStateKey k) ''jobCount'' n
    (ks_hset (outboxIntentStateKey k) ''outboundEnqueuedAt'' v ks)))"
  using assms by (auto simp: fanned_out_def ks_expire_def ks_hset_def ks_purge_def ks_live_def Let_def split: option.splits)

context redis_server
begin

lemma xadd_all_fanned:
  "outboxIntentStateKey k \<noteq> q \<Longrightarrow> fanned_out r k (view s) \<Longrightarrow> fanned_out r k (view (snd (xadd_all R q n fss s)))"
proof (induction fss arbitrary: s)
  case (Cons fs fss)
  from Cons.IH [OF Cons.prems(1), of "r_xadd R q n fs s"] Cons.prems show ?case
    by (auto simp: redis_view fanned_out_xadd split: prod.splits)
qed simp

lemma fanout_keeps:
  assumes "fanned_out r k (view s)" and "r < 604800000" and "outboxIntentStateKey k \<noteq> outboundStreamKey c"
  shows "fanned_out r k (view (snd (enqueueOutboundBatchForIntent R enc c k' jobs now s)))"
proof (cases "isConnected c")
  case True
  then show ?thesis
    using assms xadd_all_fanned [OF assms(3), of r s]
    by (auto simp: enqueueOutboundBatchForIntent_def connected_run Let_def fanout_script_def redis_view INTENT_STATE_TTL_SECONDS_def
        intro!: fanned_out_expire fanned_out_hset split: sum.split prod.split)
qed (simp add: enqueueOutboundBatchForIntent_def not_connected assms(1))

lemma fanout_records:
  assumes "enqueueOutboundBatchForIntent R enc c k jobs now s = (Inr (True, n), s')" and "r < 604800000"
  shows "fanned_out r k (view s')"
proof -
  have "isConnected c" using assms(1) by (auto simp: enqueueOutboundBatchForIntent_def connected_def io_throw_def split: if_splits)
  then show ?thesis
    using assms
    by (auto simp: enqueueOutboundBatchForIntent_def connected_run Let_def fanout_script_def redis_view INTENT_STATE_TTL_SECONDS_def
        fanned_out_set split: sum.splits if_splits)
qed

lemma fanout_refused:
  assumes "fanned_out 0 k (view s)" and "enqueueOutboundBatchForIntent R enc c k jobs now s = (Inr (True, n), s')"
  shows "jobs = []"
proof -
  have "isConnected c" using assms(2) by (auto simp: enqueueOutboundBatchForIntent_def connected_def io_throw_def split: if_splits)
  moreover have "r_hget R (outboxIntentStateKey k) ''outboundEnqueuedAt'' s \<noteq> None"
    using fanned_out_hget [OF assms(1)] by (simp add: redis_view)
  ultimately show ?thesis
    using assms(2) by (auto simp: enqueueOutboundBatchForIntent_def connected_run Let_def fanout_script_def split: sum.splits if_splits)
qed

lemma marks_keep:
  assumes "fanned_out r k (view s)" and "r < 604800000"
  shows "fanned_out r k (view (snd (markOutboxIntentEventLogPublished R c k' t s)))"
    and "fanned_out r k (view (snd (markOutboxIntentCompleted R c k' t s)))"
    and "fanned_out r k (view (snd (getOutboxIntentState R c k' s)))"
  using assms
  by (cases "isConnected c"; auto simp: markOutboxIntentEventLogPublished_def markOutboxIntentCompleted_def getOutboxIntentState_def
      connected_run not_connected Let_def redis_view INTENT_STATE_TTL_SECONDS_def intro!: fanned_out_expire fanned_out_hset)+

end

section \<open>The services around it\<close>

text \<open>The other services may do anything, on the same Redis too, as long as they do not take the record of a fan-out away.\<close>

definition intents_kept :: "('r \<Rightarrow> keyspace) \<Rightarrow> ('r \<times> 'x) intent_services \<Rightarrow> bool" where
  "intents_kept view S \<longleftrightarrow>
     (\<forall>r k. let P = (\<lambda>s. fanned_out r k (view (fst s))) in
        (\<forall>s. P s \<longrightarrow> P (snd (iv_now S s))) \<and> (\<forall>m. maintains P (iv_ack S m)) \<and> (\<forall>i e. maintains P (iv_moveToDlq S i e)) \<and>
        (\<forall>p e. iv_redpanda S = Some p \<longrightarrow> maintains P (pr_publishTombstone p e)) \<and>
        (\<forall>p e. iv_redpanda S = Some p \<longrightarrow> maintains P (pr_publishToStream1 p e)) \<and>
        (\<forall>f m i. iv_persist S = Some f \<longrightarrow> maintains P (f m i)))"

lemma intents_keptD:
  assumes "intents_kept view S"
  shows "fanned_out r k (view (fst s)) \<Longrightarrow> fanned_out r k (view (fst (snd (iv_now S s))))"
    and "maintains (\<lambda>s. fanned_out r k (view (fst s))) (iv_ack S m)"
    and "maintains (\<lambda>s. fanned_out r k (view (fst s))) (iv_moveToDlq S i e)"
    and "iv_redpanda S = Some p \<Longrightarrow> maintains (\<lambda>s. fanned_out r k (view (fst s))) (pr_publishTombstone p te)"
    and "iv_redpanda S = Some p \<Longrightarrow> maintains (\<lambda>s. fanned_out r k (view (fst s))) (pr_publishToStream1 p ae)"
    and "iv_persist S = Some f \<Longrightarrow> maintains (\<lambda>s. fanned_out r k (view (fst s))) (f m i)"
  using assms unfolding intents_kept_def Let_def by blast+

fun fanouts :: "intent_event list \<Rightarrow> (OutboundJob list \<times> bool option) list" where
  "fanouts [] = []"
| "fanouts (IvFanout jobs r # es) = (jobs, r) # fanouts es"
| "fanouts (_ # es) = fanouts es"

lemma fanouts_set: "IvFanout jobs r \<in> set es \<longleftrightarrow> (jobs, r) \<in> set (fanouts es)"
  by (induction es rule: fanouts.induct) auto

text \<open>A predicate of the world that sees of the trace only the fan-outs, and of the services only \<open>P\<close>.\<close>

definition sees_fanouts :: "('s intent_world \<Rightarrow> bool) \<Rightarrow> ('s \<Rightarrow> bool) \<Rightarrow> bool" where
  "sees_fanouts I P \<longleftrightarrow>
     (\<forall>w w'. I w \<longrightarrow> (P (iw_srv w) \<longrightarrow> P (iw_srv w')) \<longrightarrow> fanouts (iw_trace w') = fanouts (iw_trace w) \<longrightarrow> I w')"

lemma sees_icalled:
  assumes "sees_fanouts I P" and "maintains P m" and "\<And>r es. fanouts (ev r # es) = fanouts es"
  shows "maintains I (icalled ev m)"
proof (rule maintains_icalled)
  fix w r s assume w: "I w" "m (iw_srv w) = (r, s)"
  have "P (iw_srv w) \<longrightarrow> P s" using assms(2) w(2) by (auto dest: maintainsD)
  with assms(1,3) w(1) show "I (w\<lparr>iw_srv := s, iw_trace := ev r # iw_trace w\<rparr>)"
    unfolding sees_fanouts_def by fastforce
qed

context redis_server
begin

lemma on_redis_keeps: "(\<And>s. P (view s) \<Longrightarrow> P (view (snd (m s)))) \<Longrightarrow> maintains (\<lambda>s. P (view (fst s))) (on_redis m)"
  by (auto simp: maintains_def on_redis_def split: prod.split) (metis snd_conv)

lemma at_now_keeps:
  fixes S :: "('s \<times> 'x) intent_services"
  assumes "intents_kept view S" and "\<And>t s. fanned_out r k (view s) \<Longrightarrow> fanned_out r k (view (snd (f t s)))"
  shows "maintains (\<lambda>s. fanned_out r k (view (fst s))) (at_now S f)"
  unfolding maintains_def
proof (intro allI impI)
  fix s :: "'s \<times> 'x" assume "fanned_out r k (view (fst s))"
  then have "fanned_out r k (view (fst (snd (iv_now S s))))" by (rule intents_keptD(1) [OF assms(1)])
  with assms(2) show "fanned_out r k (view (fst (snd (at_now S f s))))"
    by (auto simp: at_now_def on_redis_def split: prod.split) (metis snd_conv)
qed

lemma redis_calls_keep:
  fixes S :: "('s \<times> 'x) intent_services"
  assumes S: "intents_kept view S" and r: "r < 604800000" and I: "sees_fanouts I (\<lambda>s. fanned_out r k (view (fst s)))"
    and fan: "\<And>jobs. maintains I (i_fanout (redis_intents R enc c S) i jobs)"
  shows "intent_calls_keep I (redis_intents R enc c S) i"
proof -
  let ?S = "redis_intents R enc c S" and ?P = "\<lambda>s. fanned_out r k (view (fst s))"
  have p: "iv_persist ?S = iv_persist S" "iv_redpanda ?S = iv_redpanda S" "iv_ack ?S = iv_ack S" "iv_moveToDlq ?S = iv_moveToDlq S"
    "iv_now ?S = iv_now S" by (simp_all add: redis_intents_def)
  note d = intents_keptD [OF S]
  have local: "I w \<Longrightarrow> I (w\<lparr>iw_parking := b\<rparr>)" "I w \<Longrightarrow> I (w\<lparr>iw_active := n\<rparr>)" for w b n
    using I unfolding sees_fanouts_def by fastforce+
  have park: "maintains I (persistDelayedReplacementAndAck ?S m i')" for m i'
    unfolding persistDelayedReplacementAndAck_def p
    by (cases "iv_persist S") (auto intro!: keep_rules sees_icalled [OF I] d)
  have publish: "maintains I (publishEventLog ?S i act)" for act
    unfolding publishEventLog_def p
    by (cases "iv_redpanda S") (auto intro!: keep_rules sees_icalled [OF I] d(4,5))
  have clock: "maintains I (iclock ?S)"
    unfolding iclock_def p
  proof (rule sees_icalled [OF I])
    show "maintains ?P (\<lambda>s. case iv_now S s of (t, s') \<Rightarrow> (Inr t, s'))"
      unfolding maintains_def using d(1) by (auto simp: case_prod_beta)
  qed simp
  have q: "maintains ?P (iv_getState ?S j)" "maintains ?P (iv_markPublished ?S j)" "maintains ?P (iv_markCompleted ?S j)" for j
    unfolding redis_intents_def intent_services.simps
    by (auto intro!: on_redis_keeps [of "fanned_out r k"] at_now_keeps [OF S] marks_keep r)
  show ?thesis
    unfolding intent_calls_keep_def i_mark_completed_def i_ack_def i_dlq_def
    by (intro conjI allI park publish clock fan sees_icalled [OF I] q)
       (auto simp: maintains_def set_parking_def iadd_active_def p intro: local d(2,3) [unfolded maintains_def, rule_format])
qed

end

section \<open>Deployments\<close>

text \<open>Runs of the worker on intents, one after the other, with time passing between them.\<close>

datatype intent_deployment = RunIntent intent_config string OutboxIntent | Pause nat

fun pause_time :: "intent_deployment \<Rightarrow> nat" where
  "pause_time (Pause d) = d"
| "pause_time (RunIntent _ _ _) = 0"

definition paused :: "intent_deployment list \<Rightarrow> nat" where
  "paused xs = sum_list (map pause_time xs)"

fun deploy_intents ::
  "'r redis \<Rightarrow> ('r \<times> 'x) intent_services \<Rightarrow> intent_deployment list \<Rightarrow> 'r \<times> 'x \<Rightarrow>
   (intent_deployment \<times> intent_event list) list \<times> ('r \<times> 'x)" where
  "deploy_intents R S [] s = ([], s)"
| "deploy_intents R S (Pause d # xs) s =
     (case deploy_intents R S xs (r_tick R d (fst s), snd s) of (tr, s') \<Rightarrow> ((Pause d, []) # tr, s'))"
| "deploy_intents R S (RunIntent C m i # xs) s =
     (case deploy_intents R S xs (iw_srv (snd (intent_run S C m i s))) of
        (tr, s') \<Rightarrow> ((RunIntent C m i, intent_trace S C m i s) # tr, s'))"

text \<open>A fan-out that appended something.\<close>

fun appended :: "OutboundJob list \<times> bool option \<Rightarrow> bool" where
  "appended (jobs, r) \<longleftrightarrow> r = Some True \<and> jobs \<noteq> []"

context redis_server
begin

lemma fanout_call:
  fixes S :: "('s \<times> 'x) intent_services"
  assumes "intents_kept view S" and "i_fanout (redis_intents R enc c S) i jobs w = (a, w')"
  shows "\<exists>t s0 r. (\<forall>r k. fanned_out r k (view (fst (iw_srv w))) \<longrightarrow> fanned_out r k (view s0)) \<and>
    enqueueOutboundBatchForIntent R enc c (oi_intentId i) jobs t s0 = (r, fst (iw_srv w')) \<and>
    iw_trace w' = IvFanout jobs (map_option fst (answer r)) # iw_trace w"
proof -
  obtain t s0 where n: "iv_now S (iw_srv w) = (t, s0)" by (rule prod.exhaust)
  obtain r s1 where e: "enqueueOutboundBatchForIntent R enc c (oi_intentId i) jobs t (fst s0) = (r, s1)" by (rule prod.exhaust)
  have "\<forall>r k. fanned_out r k (view (fst (iw_srv w))) \<longrightarrow> fanned_out r k (view (fst s0))"
    using intents_keptD(1) [OF assms(1)] n by (metis snd_conv)
  moreover have "fst (iw_srv w') = s1" "iw_trace w' = IvFanout jobs (map_option fst (answer r)) # iw_trace w"
    using assms(2) n e by (auto simp: i_fanout_def icalled_def redis_intents_def at_now_def on_redis_def)
  ultimately show ?thesis using e by blast
qed

lemma fanout_call_keeps:
  fixes S :: "('s \<times> 'x) intent_services"
  assumes "intents_kept view S" and "r < 604800000" and "outboxIntentStateKey k \<noteq> outboundStreamKey c"
    and "i_fanout (redis_intents R enc c S) i jobs w = (a, w')" and "fanned_out r k (view (fst (iw_srv w)))"
  shows "fanned_out r k (view (fst (iw_srv w')))"
proof -
  obtain t s0 x where "fanned_out r k (view s0)"
    "enqueueOutboundBatchForIntent R enc c (oi_intentId i) jobs t s0 = (x, fst (iw_srv w'))"
    using fanout_call [OF assms(1,4)] assms(5) by blast
  with fanout_keeps [OF this(1) assms(2,3), of enc "oi_intentId i" jobs t] show ?thesis by simp
qed

lemma run_maintains:
  assumes "intent_calls_keep I S i" and "I \<lparr>iw_srv = s, iw_trace = [], iw_active = 0, iw_parking = False\<rparr>"
  shows "I (snd (intent_run S C m i s))"
  unfolding intent_run_def by (rule maintains_snd [OF processIntent_maintains [OF assms(1)] assms(2)])

lemma run_keeps_record:
  fixes S :: "('s \<times> 'x) intent_services"
  assumes "intents_kept view S" and "r < 604800000" and "outboxIntentStateKey k \<noteq> outboundStreamKey c"
    and "fanned_out r k (view (fst s))"
  shows "fanned_out r k (view (fst (iw_srv (snd (intent_run (redis_intents R enc c S) C m i s)))))"
proof (rule run_maintains [where I = "\<lambda>w. fanned_out r k (view (fst (iw_srv w)))"])
  show "intent_calls_keep (\<lambda>w. fanned_out r k (view (fst (iw_srv w)))) (redis_intents R enc c S) i"
    by (rule redis_calls_keep [OF assms(1,2)])
       (auto simp: sees_fanouts_def maintains_def intro: fanout_call_keeps [OF assms(1-3) surjective_pairing])
qed (simp add: assms(4))

lemma run_records:
  fixes S :: "('s \<times> 'x) intent_services"
  assumes "intents_kept view S" and "r < 604800000" and "outboxIntentStateKey (oi_intentId i) \<noteq> outboundStreamKey c"
    and "(jobs, Some True) \<in> set (fanouts (intent_trace (redis_intents R enc c S) C m i s))"
  shows "fanned_out r (oi_intentId i) (view (fst (iw_srv (snd (intent_run (redis_intents R enc c S) C m i s)))))"
proof -
  let ?S = "redis_intents R enc c S" and ?k = "oi_intentId i"
  let ?I = "\<lambda>w. (\<exists>jobs. (jobs, Some True) \<in> set (fanouts (iw_trace w))) \<longrightarrow> fanned_out r ?k (view (fst (iw_srv w)))"
  have "maintains ?I (i_fanout ?S i js)" for js
    unfolding maintains_def
  proof (intro allI impI)
    fix w :: "('s \<times> 'x) intent_world" assume w: "?I w" and e: "\<exists>jobs. (jobs, Some True) \<in> set (fanouts (iw_trace (snd (i_fanout ?S i js w))))"
    obtain a w' where a: "i_fanout ?S i js w = (a, w')" by fastforce
    obtain t s0 x where x: "enqueueOutboundBatchForIntent R enc c ?k js t s0 = (x, fst (iw_srv w'))"
      "iw_trace w' = IvFanout js (map_option fst (answer x)) # iw_trace w"
      using fanout_call [OF assms(1) a] by blast
    show "fanned_out r ?k (view (fst (iw_srv (snd (i_fanout ?S i js w)))))"
    proof (cases "map_option fst (answer x) = Some True")
      case True
      then obtain n where "x = Inr (True, n)" by (cases x) auto
      with fanout_records [of enc c ?k js t s0 n] x(1) assms(2) a show ?thesis by simp
    next
      case False
      with e a x(2) w have "fanned_out r ?k (view (fst (iw_srv w)))" by auto
      from fanout_call_keeps [OF assms(1-3) a this] a show ?thesis by simp
    qed
  qed
  then have "intent_calls_keep ?I ?S i"
    by (intro redis_calls_keep [OF assms(1,2), where k = ?k]) (auto simp: sees_fanouts_def)
  from run_maintains [OF this, of s C m] assms(4) show ?thesis by (auto simp: intent_trace_def)
qed

lemma recorded_run_appends_nothing:
  fixes S :: "('s \<times> 'x) intent_services"
  assumes "intents_kept view S" and "outboxIntentStateKey (oi_intentId i) \<noteq> outboundStreamKey c"
    and "fanned_out 0 (oi_intentId i) (view (fst s))"
  shows "filter appended (fanouts (intent_trace (redis_intents R enc c S) C m i s)) = []"
proof -
  let ?S = "redis_intents R enc c S" and ?k = "oi_intentId i"
  let ?I = "\<lambda>w. filter appended (fanouts (iw_trace w)) = [] \<and> fanned_out 0 ?k (view (fst (iw_srv w)))"
  have "maintains ?I (i_fanout ?S i js)" for js
    unfolding maintains_def
  proof (intro allI impI)
    fix w :: "('s \<times> 'x) intent_world" assume w: "?I w"
    obtain a w' where a: "i_fanout ?S i js w = (a, w')" by fastforce
    obtain t s0 x where x: "fanned_out 0 ?k (view s0)"
      "enqueueOutboundBatchForIntent R enc c ?k js t s0 = (x, fst (iw_srv w'))"
      "iw_trace w' = IvFanout js (map_option fst (answer x)) # iw_trace w"
      using fanout_call [OF assms(1) a] w by blast
    have "js = []" if "map_option fst (answer x) = Some True"
    proof -
      obtain n where "x = Inr (True, n)" using \<open>map_option fst (answer x) = Some True\<close> by (cases x) auto
      with fanout_refused [OF x(1), of enc c js t n] x(2) show ?thesis by simp
    qed
    then show "?I (snd (i_fanout ?S i js w))"
      using w a x(3) fanout_call_keeps [OF assms(1) _ assms(2) a] by auto
  qed
  then have "intent_calls_keep ?I ?S i"
    by (intro redis_calls_keep [OF assms(1), where k = ?k and r = 0]) (auto simp: sees_fanouts_def)
  from run_maintains [OF this, of s C m] assms(3) show ?thesis by (auto simp: intent_trace_def)
qed

lemma deployed_intents_append_nothing:
  fixes S :: "('s \<times> 'x) intent_services"
  assumes "intents_kept view S" and "outboxIntentStateKey k \<noteq> outboundStreamKey c"
    and "fanned_out r k (view (fst s))" and "r < 604800000" and "paused xs \<le> r"
    and "(RunIntent C m i, es) \<in> set (fst (deploy_intents R (redis_intents R enc c S) xs s))" and "oi_intentId i = k"
  shows "filter appended (fanouts es) = []"
  using assms(3-6)
proof (induction xs arbitrary: r s)
  case (Cons x xs)
  have le: "pause_time x \<le> r" "paused xs \<le> r - pause_time x" using Cons.prems(3) by (auto simp: paused_def)
  show ?case
  proof (cases x)
    case (Pause d)
    have "fanned_out (r - d) k (view (fst (r_tick R d (fst s), snd s)))"
      using Cons.prems(1) le Pause by (simp add: redis_view fanned_out_tick)
    from Cons.IH [OF this] Cons.prems(2,4) le Pause show ?thesis by (auto split: prod.splits)
  next
    case (RunIntent C' m' i')
    let ?S = "redis_intents R enc c S"
    have f: "fanned_out r k (view (fst (iw_srv (snd (intent_run ?S C' m' i' s)))))"
      by (rule run_keeps_record [OF assms(1) Cons.prems(2) assms(2) Cons.prems(1)])
    have now: "fanned_out 0 k (view (fst s))" using fanned_out_mono [OF Cons.prems(1)] by simp
    from Cons.prems(4) RunIntent consider "i' = i" "es = intent_trace ?S C' m' i' s"
      | "(RunIntent C m i, es) \<in> set (fst (deploy_intents R ?S xs (iw_srv (snd (intent_run ?S C' m' i' s)))))"
      by (auto split: prod.splits)
    then show ?thesis
    proof cases
      case 1
      with recorded_run_appends_nothing [OF assms(1), of i c s enc C' m'] assms(2,7) now show ?thesis by simp
    next
      case 2
      from Cons.IH [OF f Cons.prems(2) _ 2] le RunIntent show ?thesis by simp
    qed
  qed
qed simp

end

text \<open>C5: The jobs of an intent are appended to the outbound stream once: after a run whose fan-out appended them, whatever runs follow, on this
  and other intents (redelivered because an acknowledgement was lost, retried after a later call failed, processed by a second
  worker), with less than seven days between them in all, no further run on that intent appends a job.  The other services may
  do anything, except take the record of the fan-out away.\<close>
theorem intent_fanned_out_once:
  assumes "redis_server R view" and "intents_kept view S" and "outboxIntentStateKey (oi_intentId i) \<noteq> outboundStreamKey c"
    and "(jobs, Some True) \<in> set (fanouts (intent_trace (redis_intents R enc c S) C m i s))"
    and "iw_srv (snd (intent_run (redis_intents R enc c S) C m i s)) = s'"
    and "paused xs < 604800000"
    and "(RunIntent C' m' i', es) \<in> set (fst (deploy_intents R (redis_intents R enc c S) xs s'))" and "oi_intentId i' = oi_intentId i"
  shows "filter appended (fanouts es) = []"
  by (rule redis_server.deployed_intents_append_nothing [OF assms(1-3) _ assms(6) order_refl assms(7,8)])
     (use redis_server.run_records [OF assms(1,2,6,3,4)] assms(5) in simp)

section \<open>Sample\<close>

definition intent_queue_sample :: "(keyspace \<times> unit) intent_services" where
  "intent_queue_sample = redis_intents ks_server Inr sample_queue (intent_sample_services False)"

lemma sample_kept: "intents_kept (\<lambda>ks. ks) (intent_sample_services False)"
  by (auto simp: intents_kept_def intent_sample_services_def maintains_def io_return_def)

lemma sample_fanout:
  assumes "r_hget ks_server (outboxIntentStateKey k) ''outboundEnqueuedAt'' ks = None"
  shows "\<exists>n ks'. enqueueOutboundBatchForIntent ks_server Inr sample_queue k [intent_sample_job] now ks = (Inr (True, n), ks')"
proof -
  obtain fss cache where "serialize_jobs Inr [intent_sample_job] [] = Inr (fss, cache)"
    using serialize_jobs_total [of "[intent_sample_job]" Inr "[]"] by (auto simp: cache_ok_def)
  then show ?thesis
    using assms by (simp add: enqueueOutboundBatchForIntent_def connected_run sample_facts Let_def fanout_script_def)
qed

lemma sample_first_run:
  "fanouts (intent_trace intent_queue_sample intent_sample_config m intent_sample (empty_ks, ())) = [([intent_sample_job], Some True)]"
proof -
  define s where "s = intent_queue_sample"
  define k where "k = oi_intentId intent_sample"
  have st: "getOutboxIntentState ks_server sample_queue k empty_ks = (Inr blank_state, empty_ks)"
    by (simp add: getOutboxIntentState_def connected_run sample_facts Let_def hash_int_def ks_eval blank_state_def)
  obtain ks1 where m: "markOutboxIntentEventLogPublished ks_server sample_queue k 2000 empty_ks = (Inr (), ks1)"
    and h: "r_hget ks_server (outboxIntentStateKey k) ''outboundEnqueuedAt'' ks1 = None"
    by (simp add: markOutboxIntentEventLogPublished_def connected_run sample_facts Let_def ks_eval)
  obtain n ks2 where f: "enqueueOutboundBatchForIntent ks_server Inr sample_queue k [intent_sample_job] 2000 ks1 = (Inr (True, n), ks2)"
    using sample_fanout [OF h] by blast
  obtain ks3 where c: "markOutboxIntentCompleted ks_server sample_queue k 2000 ks2 = (Inr (), ks3)"
    by (simp add: markOutboxIntentCompleted_def connected_run sample_facts Let_def)
  have sv: "iv_now s = (\<lambda>x. (2000, x))" "iv_getState s k (empty_ks, ()) = (Inr blank_state, (empty_ks, ()))"
    "iv_markPublished s k (empty_ks, ()) = (Inr (), (ks1, ()))" "iv_enqueueBatch s k [intent_sample_job] (ks1, ()) = (Inr (True, n), (ks2, ()))"
    "iv_markCompleted s k (ks2, ()) = (Inr (), (ks3, ()))" "iv_ack s = (\<lambda>m. io_return ())"
    "iv_redpanda s = Some \<lparr>pr_publishTombstone = (\<lambda>e. io_return ()), pr_publishToStream1 = (\<lambda>e. io_return ())\<rparr>"
    by (simp_all add: s_def intent_queue_sample_def redis_intents_def on_redis_def at_now_def st m f c)
       (simp_all add: intent_sample_services_def st m f c)
  have "iv_parse s = mini_parse" "iv_print s = mini_print" "iv_env s = (\<lambda>_. None)"
    by (simp_all add: s_def intent_queue_sample_def redis_intents_def)
  note facts = intent_sample_activity [of s] sample_work [OF this]
  have "fanouts (intent_trace s intent_sample_config m intent_sample (empty_ks, ())) = [([intent_sample_job], Some True)]"
    by (simp add: intent_trace_def intent_run_def processIntent_def io_then_def io_bind_def io_return_def io_throw_def io_catch_def
        io_finally_def iadd_active_def set_parking_def intent_body_def assertIntentWithinReplayHorizon_def iclock_def icalled_def
        intent_not_due_def deliver_intent_def publishEventLog_def complete_and_ack_def i_fanout_def i_mark_completed_def i_ack_def
        io_sum_def sv [unfolded k_def] facts sample_kind apdm_constants Let_def blank_state_def
        del: json_stringify.simps backoffMs.simps buildOutboundJobs.simps)
  then show ?thesis by (simp add: s_def)
qed

theorem intent_fanned_out_once_witness:
  "\<exists>s' es. s' = iw_srv (snd (intent_run intent_queue_sample intent_sample_config ''1-0'' intent_sample (empty_ks, ()))) \<and>
    fanouts (intent_trace intent_queue_sample intent_sample_config ''1-0'' intent_sample (empty_ks, ())) = [([intent_sample_job], Some True)] \<and>
    fst (deploy_intents ks_server intent_queue_sample [Pause 86400000, RunIntent intent_sample_config ''2-0'' intent_sample] s') =
      [(Pause 86400000, []), (RunIntent intent_sample_config ''2-0'' intent_sample, es)] \<and>
    filter appended (fanouts es) = []"
proof -
  let ?s' = "iw_srv (snd (intent_run intent_queue_sample intent_sample_config ''1-0'' intent_sample (empty_ks, ())))"
  let ?xs = "[Pause 86400000, RunIntent intent_sample_config ''2-0'' intent_sample]"
  obtain es where es: "fst (deploy_intents ks_server intent_queue_sample ?xs ?s') =
      [(Pause 86400000, []), (RunIntent intent_sample_config ''2-0'' intent_sample, es)]" by simp
  have k: "outboxIntentStateKey (oi_intentId intent_sample) \<noteq> outboundStreamKey sample_queue"
    by (simp add: outboxIntentStateKey_def sample_facts)
  have p: "paused ?xs < 604800000" by (simp add: paused_def)
  have f: "([intent_sample_job], Some True) \<in> set (fanouts (intent_trace intent_queue_sample intent_sample_config ''1-0'' intent_sample (empty_ks, ())))"
    by (simp add: sample_first_run)
  have m: "(RunIntent intent_sample_config ''2-0'' intent_sample, es) \<in> set (fst (deploy_intents ks_server intent_queue_sample ?xs ?s'))"
    unfolding es by simp
  have "filter appended (fanouts es) = []"
    by (rule intent_fanned_out_once [OF redis_server_ks_server sample_kept k f [unfolded intent_queue_sample_def] refl p
          m [unfolded intent_queue_sample_def] refl])
  with es sample_first_run show ?thesis by blast
qed

end
