(* ===== verification/Delivery_Plan.thy ===== *)
theory Delivery_Plan
  imports Json Egress_Policy
begin

text \<open>
  \<open>fedify-sidecar/src/delivery/ActivityPubDeliveryPlanContract.ts\<close>: the contract of a delivery plan, the
  document by which ActivityPods tells the sidecar who is to receive an activity.  The URL parser, SHA-256 and the schema
  library are parameters: \<open>dec\<close> is the structural part of the schema (strict objects, arrays,
  enumerations, optional fields), and what is modelled is every refinement the schema adds to it.  A plan comes from
  \<open>JSON.parse\<close>, so its values are trees without sharing, without holes and of type \<open>json\<close>.
\<close>

section \<open>Strings and URLs\<close>

definition ACTIVITYPUB_DELIVERY_PLAN_SCHEMA :: string where "ACTIVITYPUB_DELIVERY_PLAN_SCHEMA = ''ap.delivery-plan.v1''"

definition ACTIVITYSTREAMS_NAMESPACE :: string where "ACTIVITYSTREAMS_NAMESPACE = ''https://www.w3.org/ns/activitystreams#''"

definition ADDRESSING_TERMS :: "string list" where "ADDRESSING_TERMS = [''to'', ''bto'', ''cc'', ''bcc'', ''audience'']"

definition PUBLIC_ADDRESSES :: "string list" where
  "PUBLIC_ADDRESSES = [ACTIVITYSTREAMS_NAMESPACE @ ''Public'', ''as:Public'', ''Public'']"

text \<open>\<open>/[\s\u0000-\u001f\u007f]/u\<close>\<close>

definition unsafe_token :: "char \<Rightarrow> bool" where
  "unsafe_token c \<longleftrightarrow> (let n = of_char c :: nat in js_space c \<or> n \<le> 31 \<or> n = 127)"

definition isCleanString :: "string \<Rightarrow> bool" where
  "isCleanString value \<longleftrightarrow> value \<noteq> [] \<and> \<not> list_ex unsafe_token value"

definition parseSafeHttpUrl :: "url_lib \<Rightarrow> string \<Rightarrow> url option" where
  "parseSafeHttpUrl parse value =
     (if \<not> isCleanString value then None
      else case parse value of
        None \<Rightarrow> None
      | Some u \<Rightarrow> if (u_protocol u \<noteq> ''http:'' \<and> u_protocol u \<noteq> ''https:'') \<or> u_username u \<noteq> [] \<or> u_password u \<noteq> [] then None
                  else Some u)"

definition strip_last :: "char \<Rightarrow> string \<Rightarrow> string" where
  "strip_last c s = rev (dropWhile (\<lambda>x. x = c) (rev s))"

definition normalizeDeliveryTargetDomain :: "string \<Rightarrow> string option" where
  "normalizeDeliveryTargetDomain value =
     (if \<not> isCleanString value then None
      else let normalized = strip_last CHR ''.'' (js_lower value) in if normalized \<noteq> [] then Some normalized else None)"

definition parseDeliveryEndpointUrl :: "url_lib \<Rightarrow> string \<Rightarrow> url option" where
  "parseDeliveryEndpointUrl parse value =
     (case parseSafeHttpUrl parse value of
        None \<Rightarrow> None
      | Some u \<Rightarrow> if CHR ''#'' \<in> set value then None
                  else if normalizeDeliveryTargetDomain (u_hostname u) \<noteq> None then Some u else None)"

section \<open>Addressing\<close>

record context_state =
  cs_prefixes :: "string \<Rightarrow> string option"
  cs_aliases :: "string \<Rightarrow> string option"

definition default_context :: context_state where
  "default_context = \<lparr>cs_prefixes = [''as'' \<mapsto> ACTIVITYSTREAMS_NAMESPACE], cs_aliases = Map.empty\<rparr>"

text \<open>\<open>a ?? b\<close> on properties: \<open>null\<close> and a missing property fall through.\<close>

definition nullish_or :: "json option \<Rightarrow> json option \<Rightarrow> json option" where
  "nullish_or a b = (case a of None \<Rightarrow> b | Some JNull \<Rightarrow> b | _ \<Rightarrow> a)"

fun string_of :: "json option \<Rightarrow> string option" where
  "string_of (Some (JStr s)) = Some s"
| "string_of _ = None"

fun normalizeId :: "json option \<Rightarrow> string option" where
  "normalizeId (Some (JStr s)) = Some s"
| "normalizeId (Some (JObj kvs)) = string_of (nullish_or (map_of kvs ''id'') (map_of kvs ''@id''))"
| "normalizeId _ = None"

fun normalizedAddresses :: "json \<Rightarrow> string list" where
  "normalizedAddresses (JArr xs) = List.map_filter (\<lambda>x. normalizeId (Some x)) xs"
| "normalizedAddresses x = List.map_filter (\<lambda>x. normalizeId (Some x)) [x]"

definition addressing_term :: "string \<Rightarrow> string option" where
  "addressing_term t = (if t \<in> set ADDRESSING_TERMS then Some t else None)"

text \<open>A compact name \<open>prefix:suffix\<close>, split at its first colon, which is not its first character.\<close>

definition compact_parts :: "string \<Rightarrow> (string \<times> string) option" where
  "compact_parts s =
     (let p = takeWhile (\<lambda>c. c \<noteq> CHR '':'') s; r = dropWhile (\<lambda>c. c \<noteq> CHR '':'') s
      in if p \<noteq> [] \<and> r \<noteq> [] then Some (p, tl r) else None)"

definition compact_term :: "(string \<Rightarrow> string option) \<Rightarrow> string \<Rightarrow> string option" where
  "compact_term prefixes s =
     (case compact_parts s of
        None \<Rightarrow> None
      | Some (prefix, suffix) \<Rightarrow> if prefixes prefix = Some ACTIVITYSTREAMS_NAMESPACE then addressing_term suffix else None)"

text \<open>The IRI that a term definition of a context names.\<close>

fun definition_iri :: "json \<Rightarrow> string option" where
  "definition_iri (JStr s) = Some s"
| "definition_iri (JObj kvs) = string_of (map_of kvs ''@id'')"
| "definition_iri _ = None"

definition resolveAddressingDefinition :: "json \<Rightarrow> (string \<Rightarrow> string option) \<Rightarrow> string option" where
  "resolveAddressingDefinition df prefixes =
     (case definition_iri df of
        None \<Rightarrow> None
      | Some raw \<Rightarrow>
          if starts_with raw ACTIVITYSTREAMS_NAMESPACE then addressing_term (drop (length ACTIVITYSTREAMS_NAMESPACE) raw)
          else (case compact_term prefixes raw of Some t \<Rightarrow> Some t | None \<Rightarrow> addressing_term raw))"

definition context_entry :: "json \<Rightarrow> context_state \<Rightarrow> context_state" where
  "context_entry entry st =
     (case entry of
        JObj kvs \<Rightarrow>
          (let prefixes = fold (\<lambda>(key, df) p. if definition_iri df = Some ACTIVITYSTREAMS_NAMESPACE
                                              then p(key \<mapsto> ACTIVITYSTREAMS_NAMESPACE) else p) kvs (cs_prefixes st)
           in \<lparr>cs_prefixes = prefixes,
               cs_aliases = fold (\<lambda>(key, df) a. case resolveAddressingDefinition df prefixes of
                                                  Some t \<Rightarrow> a(key \<mapsto> t) | None \<Rightarrow> a) kvs (cs_aliases st)\<rparr>)
      | _ \<Rightarrow> st)"

definition context_entries :: "json option \<Rightarrow> json list" where
  "context_entries context = (case context of None \<Rightarrow> [] | Some (JArr xs) \<Rightarrow> xs | Some x \<Rightarrow> [x])"

definition buildContextState :: "json option \<Rightarrow> context_state \<Rightarrow> context_state" where
  "buildContextState context inherited = fold context_entry (context_entries context) inherited"

definition canonicalAddressingTerm :: "string \<Rightarrow> context_state \<Rightarrow> string option" where
  "canonicalAddressingTerm key st =
     (if key \<in> set ADDRESSING_TERMS then Some key
      else if starts_with key ACTIVITYSTREAMS_NAMESPACE then addressing_term (drop (length ACTIVITYSTREAMS_NAMESPACE) key)
      else case compact_term (cs_prefixes st) key of Some t \<Rightarrow> Some t | None \<Rightarrow> cs_aliases st key)"

definition json_fields :: "json \<Rightarrow> (string \<times> json) list" where
  "json_fields j = (case j of JObj kvs \<Rightarrow> kvs | _ \<Rightarrow> [])"

definition addressingValues :: "json \<Rightarrow> string \<Rightarrow> string list" where
  "addressingValues act term =
     (let st = buildContextState (json_get ''@context'' act) default_context
      in concat (map (\<lambda>(key, value). if canonicalAddressingTerm key st = Some term then normalizedAddresses value else [])
           (json_fields act)))"

definition isActorFollowersAddress :: "url_lib \<Rightarrow> string \<Rightarrow> string \<Rightarrow> bool" where
  "isActorFollowersAddress parse value actorUri =
     (case (parse value, parse actorUri) of
        (Some address, Some actor) \<Rightarrow>
          if u_search actor \<noteq> [] \<or> u_hash actor \<noteq> [] \<or> u_search address \<noteq> [] \<or> u_hash address \<noteq> [] then False
          else if u_origin address \<noteq> u_origin actor then False
          else strip_last CHR ''/'' (u_pathname address) = strip_last CHR ''/'' (u_pathname actor) @ ''/followers''
      | _ \<Rightarrow> False)"

datatype visibility = Public_visibility | Unlisted | Followers | Direct

definition text_truthy :: "string option \<Rightarrow> bool" where
  "text_truthy t \<longleftrightarrow> (case t of None \<Rightarrow> False | Some s \<Rightarrow> s \<noteq> [])"

definition followers_of :: "url_lib \<Rightarrow> json \<Rightarrow> string \<Rightarrow> bool" where
  "followers_of parse act value \<longleftrightarrow>
     (case normalizeId (json_get ''actor'' act) of
        Some actorUri \<Rightarrow> actorUri \<noteq> [] \<and> isActorFollowersAddress parse value actorUri | None \<Rightarrow> False)"

definition determineActivityVisibility :: "url_lib \<Rightarrow> json \<Rightarrow> visibility" where
  "determineActivityVisibility parse act =
     (let addressed_to = addressingValues act ''to''; cc = addressingValues act ''cc''
      in if list_ex (\<lambda>v. v \<in> set PUBLIC_ADDRESSES) addressed_to then Public_visibility
         else if list_ex (\<lambda>v. v \<in> set PUBLIC_ADDRESSES) cc then Unlisted
         else if list_ex (followers_of parse act) addressed_to then Followers
         else Direct)"

definition hasSenderFollowersAudience :: "url_lib \<Rightarrow> json \<Rightarrow> bool" where
  "hasSenderFollowersAudience parse act = list_ex (followers_of parse act) (addressingValues act ''audience'')"

text \<open>The first occurrences, in order.\<close>

definition js_unique :: "string list \<Rightarrow> string list" where
  "js_unique xs = rev (remdups (rev xs))"

definition getExplicitConcreteRecipientUris :: "url_lib \<Rightarrow> json \<Rightarrow> string list" where
  "getExplicitConcreteRecipientUris parse act =
     js_unique (filter (\<lambda>v. v \<notin> set PUBLIC_ADDRESSES \<and> \<not> followers_of parse act v)
       (concat (map (addressingValues act) ADDRESSING_TERMS)))"

definition blind_key :: "context_state \<Rightarrow> string \<Rightarrow> bool" where
  "blind_key st key \<longleftrightarrow> canonicalAddressingTerm key st = Some ''bto'' \<or> canonicalAddressingTerm key st = Some ''bcc''"

fun containsBlindAudienceFields :: "context_state \<Rightarrow> json \<Rightarrow> bool" where
  "containsBlindAudienceFields inherited (JArr xs) = list_ex (\<lambda>x. containsBlindAudienceFields inherited x) xs"
| "containsBlindAudienceFields inherited (JObj kvs) =
     (let st = buildContextState (map_of kvs ''@context'') inherited
      in list_ex (\<lambda>(key, _). blind_key st key) kvs \<or> list_ex (\<lambda>(_, v). containsBlindAudienceFields st v) kvs)"
| "containsBlindAudienceFields inherited _ = False"

section \<open>Canonical text\<close>

fun canonicalizeDeliveryPlanValue :: "json \<Rightarrow> string" where
  "canonicalizeDeliveryPlanValue (JArr xs) = ''['' @ json_join (map canonicalizeDeliveryPlanValue xs) @ '']''"
| "canonicalizeDeliveryPlanValue (JObj kvs) =
     ''{'' @ json_join (map (\<lambda>(key, t). json_quote key @ '':'' @ t)
       (sort_key fst (map (\<lambda>(key, v). (key, canonicalizeDeliveryPlanValue v)) kvs))) @ ''}''"
| "canonicalizeDeliveryPlanValue v = json_stringify v"

definition activityPubDeliveryPlanFingerprint :: "(string \<Rightarrow> string) \<Rightarrow> json \<Rightarrow> string" where
  "activityPubDeliveryPlanFingerprint sha256 value = sha256 (canonicalizeDeliveryPlanValue value)"

definition intent_material :: "string \<Rightarrow> string \<Rightarrow> string list \<Rightarrow> string list \<Rightarrow> json" where
  "intent_material activityId' actorUri' localRecipientUris remoteRecipientUris =
     JObj [(''schema'', JStr ACTIVITYPUB_DELIVERY_PLAN_SCHEMA), (''activityId'', JStr activityId'), (''actorUri'', JStr actorUri'),
       (''localRecipientUris'', JArr (map JStr (sort (js_unique localRecipientUris)))),
       (''remoteRecipientUris'', JArr (map JStr (sort (js_unique remoteRecipientUris))))]"

definition computeExpectedIntentId :: "(string \<Rightarrow> string) \<Rightarrow> string \<Rightarrow> string \<Rightarrow> string list \<Rightarrow> string list \<Rightarrow> string" where
  "computeExpectedIntentId sha256 activityId' actorUri' localRecipientUris remoteRecipientUris =
     ''apdm-v1-'' @ sha256 (canonicalizeDeliveryPlanValue (intent_material activityId' actorUri' localRecipientUris remoteRecipientUris))"

section \<open>The plan\<close>

record local_target =
  lt_actorUri :: string
  lt_dataset :: string
  lt_inboxUri :: string

record remote_target =
  rt_actorUri :: string
  rt_inboxUrl :: string
  rt_sharedInboxUrl :: "string option"
  rt_targetDomain :: string

record plan_meta =
  pm_visibility :: visibility
  pm_isPublicActivity :: bool
  pm_isPublicIndexable :: "bool option"
  pm_searchConsent :: "json option"

record delivery_plan =
  dp_intentId :: string
  dp_activityId :: string
  dp_actorUri :: string
  dp_activity :: json
  dp_localRecipients :: "local_target list"
  dp_remoteRecipients :: "remote_target list"
  dp_meta :: plan_meta

definition httpUrlSchema :: "url_lib \<Rightarrow> string \<Rightarrow> bool" where
  "httpUrlSchema parse value \<longleftrightarrow> parseSafeHttpUrl parse value \<noteq> None"

definition deliveryEndpointUrlSchema :: "url_lib \<Rightarrow> string \<Rightarrow> bool" where
  "deliveryEndpointUrlSchema parse value \<longleftrightarrow> parseDeliveryEndpointUrl parse value \<noteq> None"

definition localDeliveryTargetSchema :: "url_lib \<Rightarrow> local_target \<Rightarrow> bool" where
  "localDeliveryTargetSchema parse t \<longleftrightarrow>
     httpUrlSchema parse (lt_actorUri t) \<and> isCleanString (lt_dataset t) \<and> deliveryEndpointUrlSchema parse (lt_inboxUri t)"

definition rt_deliveryUrl :: "remote_target \<Rightarrow> string" where
  "rt_deliveryUrl t = (case rt_sharedInboxUrl t of Some u \<Rightarrow> u | None \<Rightarrow> rt_inboxUrl t)"

definition remoteDeliveryTargetSchema :: "url_lib \<Rightarrow> remote_target \<Rightarrow> bool" where
  "remoteDeliveryTargetSchema parse t \<longleftrightarrow>
     httpUrlSchema parse (rt_actorUri t) \<and> deliveryEndpointUrlSchema parse (rt_inboxUrl t) \<and>
     (case rt_sharedInboxUrl t of None \<Rightarrow> True | Some u \<Rightarrow> deliveryEndpointUrlSchema parse u) \<and> isCleanString (rt_targetDomain t) \<and>
     (case parseDeliveryEndpointUrl parse (rt_deliveryUrl t) of
        None \<Rightarrow> True
      | Some u \<Rightarrow> normalizeDeliveryTargetDomain (u_hostname u) = Some (rt_targetDomain t))"

text \<open>\<open>/^apdm-v1-[a-f0-9]{64}$/u\<close>\<close>

definition hex_lower :: "char \<Rightarrow> bool" where
  "hex_lower c \<longleftrightarrow> c \<in> set ''0123456789abcdef''"

definition apdm_intent_id :: "string \<Rightarrow> bool" where
  "apdm_intent_id s \<longleftrightarrow> starts_with s ''apdm-v1-'' \<and> length s = 72 \<and> list_all hex_lower (drop 8 s)"

datatype plan_issue =
    Activity_id_mismatch | Actor_mismatch | Blind_addressing | Followers_audience | Visibility_mismatch visibility
  | Public_mismatch | Not_indexable | Local_duplicates | Remote_duplicates | Local_and_remote
  | Omits_recipient string | Intent_id_mismatch

definition issue_if :: "bool \<Rightarrow> plan_issue \<Rightarrow> plan_issue list" where
  "issue_if b i = (if b then [i] else [])"

text \<open>The cross-field refinement of \<open>activityPubDeliveryPlanV1Schema\<close>: the issues it adds, in order.\<close>

definition plan_issues :: "url_lib \<Rightarrow> (string \<Rightarrow> string) \<Rightarrow> delivery_plan \<Rightarrow> plan_issue list" where
  "plan_issues parse sha256 p =
     (let act = dp_activity p; m = dp_meta p;
          expectedVisibility = determineActivityVisibility parse act;
          expectedPublic = (expectedVisibility = Public_visibility \<or> expectedVisibility = Unlisted);
          localUris = map lt_actorUri (dp_localRecipients p);
          remoteUris = map rt_actorUri (dp_remoteRecipients p);
          planned = set localUris \<union> set remoteUris
      in issue_if (normalizeId (nullish_or (json_get ''id'' act) (json_get ''@id'' act)) \<noteq> Some (dp_activityId p)) Activity_id_mismatch @
         issue_if (normalizeId (json_get ''actor'' act) \<noteq> Some (dp_actorUri p)) Actor_mismatch @
         issue_if (containsBlindAudienceFields default_context act) Blind_addressing @
         issue_if (hasSenderFollowersAudience parse act) Followers_audience @
         issue_if (pm_visibility m \<noteq> expectedVisibility) (Visibility_mismatch expectedVisibility) @
         issue_if (pm_isPublicActivity m \<noteq> expectedPublic) Public_mismatch @
         issue_if (pm_isPublicIndexable m = Some True \<and> \<not> expectedPublic) Not_indexable @
         issue_if (\<not> distinct localUris) Local_duplicates @
         issue_if (\<not> distinct remoteUris) Remote_duplicates @
         issue_if (list_ex (\<lambda>uri. uri \<in> set localUris) remoteUris) Local_and_remote @
         (case find (\<lambda>uri. uri \<notin> planned) (getExplicitConcreteRecipientUris parse act) of
            None \<Rightarrow> [] | Some uri \<Rightarrow> issue_if (uri \<noteq> []) (Omits_recipient uri)) @
         issue_if (dp_intentId p \<noteq> computeExpectedIntentId sha256 (dp_activityId p) (dp_actorUri p) localUris remoteUris) Intent_id_mismatch)"

definition activityPubDeliveryPlanV1Schema :: "url_lib \<Rightarrow> (string \<Rightarrow> string) \<Rightarrow> delivery_plan \<Rightarrow> bool" where
  "activityPubDeliveryPlanV1Schema parse sha256 p \<longleftrightarrow>
     apdm_intent_id (dp_intentId p) \<and> httpUrlSchema parse (dp_activityId p) \<and> httpUrlSchema parse (dp_actorUri p) \<and>
     list_all (localDeliveryTargetSchema parse) (dp_localRecipients p) \<and> list_all (remoteDeliveryTargetSchema parse) (dp_remoteRecipients p) \<and>
     plan_issues parse sha256 p = []"

definition safeParseActivityPubDeliveryPlanV1 ::
  "(json \<Rightarrow> delivery_plan option) \<Rightarrow> url_lib \<Rightarrow> (string \<Rightarrow> string) \<Rightarrow> json \<Rightarrow> delivery_plan option" where
  "safeParseActivityPubDeliveryPlanV1 dec parse sha256 value =
     (case dec value of
        None \<Rightarrow> None
      | Some p \<Rightarrow> if activityPubDeliveryPlanV1Schema parse sha256 p then Some p else None)"

end
