(* ===== verification/Plan_Properties.thy ===== *)
theory Plan_Properties
  imports Delivery_Plan Webhook_Properties
begin

text \<open>
  What an accepted delivery plan guarantees, what its canonical text identifies, and how far the search
  for blind addressing reaches.
\<close>

section \<open>The canonical text\<close>

text \<open>The same value, whatever the order of the keys of its objects.\<close>

inductive same_json :: "json \<Rightarrow> json \<Rightarrow> bool" where
  null: "same_json JNull JNull"
| bool: "same_json (JBool b) (JBool b)"
| int: "same_json (JNum i) (JNum i)"
| frac: "same_json (JFrac t) (JFrac t)"
| str: "same_json (JStr s) (JStr s)"
| arr: "list_all2 same_json xs ys \<Longrightarrow> same_json (JArr xs) (JArr ys)"
| obj: "(\<And>k. rel_option same_json (map_of a k) (map_of b k)) \<Longrightarrow> same_json (JObj a) (JObj b)"
monos list_all2_mono option.rel_mono

inductive_simps same_json_simps [simp]:
  "same_json JNull j" "same_json (JBool b) j" "same_json (JNum i) j" "same_json (JFrac t) j" "same_json (JStr s) j"
  "same_json (JArr xs) j" "same_json (JObj kvs) j"

fun json_sorted :: "json \<Rightarrow> json" where
  "json_sorted (JArr xs) = JArr (map json_sorted xs)"
| "json_sorted (JObj kvs) = JObj (sort_key fst (map (\<lambda>(k, v). (k, json_sorted v)) kvs))"
| "json_sorted j = j"

definition on_snd :: "('a \<Rightarrow> 'b) \<Rightarrow> 'k \<times> 'a \<Rightarrow> 'k \<times> 'b" where
  "on_snd f p = (fst p, f (snd p))"

lemma on_snd_case: "(\<lambda>(k, v). (k, f v)) = on_snd f"
  by (auto simp: on_snd_def)

lemma fst_on_snd [simp]: "fst (on_snd f p) = fst p" "snd (on_snd f p) = f (snd p)" "fst \<circ> on_snd f = fst"
  by (auto simp: on_snd_def)

lemma insort_on_snd: "insort_key fst (on_snd f p) (map (on_snd f) ps) = map (on_snd f) (insort_key fst p ps)"
  by (induction ps) (auto simp: on_snd_def)

lemma sort_on_snd: "sort_key fst (map (on_snd f) ps) = map (on_snd f) (sort_key fst ps)"
  by (induction ps) (simp_all add: insort_on_snd)

lemma map_of_on_snd: "map_of (map (on_snd f) ps) k = map_option f (map_of ps k)"
  by (induction ps) (auto simp: on_snd_def)

lemma canonical_sorted: "canonicalizeDeliveryPlanValue j = json_stringify (json_sorted j)"
proof (induction j rule: json_sorted.induct)
  case (1 xs)
  then have "map canonicalizeDeliveryPlanValue xs = map json_stringify (map json_sorted xs)" by simp
  then show ?case by (simp del: map_map)
next
  case (2 kvs)
  then have "map (on_snd canonicalizeDeliveryPlanValue) kvs = map (on_snd json_stringify) (map (on_snd json_sorted) kvs)"
    by (auto simp: on_snd_def)
  then have "sort_key fst (map (on_snd canonicalizeDeliveryPlanValue) kvs) = map (on_snd json_stringify) (sort_key fst (map (on_snd json_sorted) kvs))"
    by (simp only: sort_on_snd)
  then show ?case
    by (simp only: canonicalizeDeliveryPlanValue.simps json_sorted.simps json_stringify.simps on_snd_case map_map)
       (simp add: comp_def case_prod_unfold)
qed simp_all

lemma map_fst_insort: "map fst (insort_key fst p ps) = insort (fst p) (map fst ps)"
  by (induction ps) auto

lemma map_fst_sort: "map fst (sort_key fst ps) = sort (map fst ps)"
  by (induction ps) (simp_all add: map_fst_insort)

lemma map_of_sorted: "distinct (map fst ps) \<Longrightarrow> map_of (sort_key fst ps) = map_of ps"
proof (rule ext)
  fix k assume "distinct (map fst ps)"
  then have "map_of (sort_key fst ps) k = Some v \<longleftrightarrow> map_of ps k = Some v" for v by (simp add: map_fst_sort)
  then show "map_of (sort_key fst ps) k = map_of ps k" by (metis option.exhaust)
qed

lemma sorted_plain: "json_plain j \<Longrightarrow> json_plain (json_sorted j)"
  by (induction j rule: json_sorted.induct)
     (auto simp: list_all_iff on_snd_case map_fst_sort comp_def, auto simp: on_snd_def)

text \<open>A sorted list of fields is determined by what it maps.\<close>

lemma fields_from_map: "distinct (map fst ps) \<Longrightarrow> ps = map (\<lambda>k. (k, the (map_of ps k))) (map fst ps)"
proof -
  assume "distinct (map fst ps)"
  then have "map (\<lambda>k. (k, the (map_of ps k))) (map fst ps) = map id ps"
    unfolding map_map by (intro map_cong) auto
  then show ?thesis by simp
qed

lemma sorted_fields_eq:
  fixes ps :: "('k::linorder \<times> 'v) list"
  assumes "distinct (map fst ps)" and "distinct (map fst qs)" and "map_of ps = map_of qs"
  shows "sort_key fst ps = sort_key fst qs"
proof -
  have "set (map fst ps) = set (map fst qs)" using assms(3) by (metis dom_map_of_conv_image_fst list.set_map)
  then have k: "sort (map fst ps) = sort (map fst qs)"
    using assms(1,2) by (intro sorted_distinct_set_unique) simp_all
  have "sort_key fst xs = map (\<lambda>k. (k, the (map_of xs k))) (sort (map fst xs))" if "distinct (map fst xs)" for xs :: "('k \<times> 'v) list"
    using fields_from_map [of "sort_key fst xs"] that by (simp add: map_fst_sort map_of_sorted)
  from this [OF assms(1)] this [OF assms(2)] k assms(3) show ?thesis by simp
qed

lemma sorted_atoms [simp]:
  "JNull = json_sorted b \<longleftrightarrow> b = JNull" "JBool x = json_sorted b \<longleftrightarrow> b = JBool x" "JNum n = json_sorted b \<longleftrightarrow> b = JNum n"
  "JFrac t = json_sorted b \<longleftrightarrow> b = JFrac t" "JStr s = json_sorted b \<longleftrightarrow> b = JStr s"
  by (cases b; auto)+

lemma sorted_same: "json_plain a \<Longrightarrow> json_plain b \<Longrightarrow> json_sorted a = json_sorted b \<longleftrightarrow> same_json a b"
proof (induction a arbitrary: b)
  case (JArr xs)
  show ?case
  proof (cases b)
    case (JArr ys)
    have "map json_sorted xs = map json_sorted ys \<longleftrightarrow> list_all2 (\<lambda>x y. json_sorted x = json_sorted y) xs ys"
      by (auto simp: list_eq_iff_nth_eq list_all2_conv_all_nth)
    also have "\<dots> \<longleftrightarrow> list_all2 same_json xs ys"
      using JArr.IH JArr.prems JArr by (auto simp: list_all_iff list_all2_conv_all_nth)
    finally show ?thesis using JArr by simp
  qed auto
next
  case (JObj kvs)
  show ?case
  proof (cases b)
    case (JObj kvs')
    let ?f = "map (on_snd json_sorted)"
    have d: "distinct (map fst kvs)" "distinct (map fst kvs')" using JObj.prems JObj by auto
    have "sort_key fst (?f kvs) = sort_key fst (?f kvs') \<longleftrightarrow> map_of (?f kvs) = map_of (?f kvs')"
      using sorted_fields_eq [of "?f kvs" "?f kvs'"] map_of_sorted [of "?f kvs"] map_of_sorted [of "?f kvs'"] d by auto
    also have "\<dots> \<longleftrightarrow> (\<forall>k. rel_option same_json (map_of kvs k) (map_of kvs' k))"
    proof -
      have "map_option json_sorted (map_of kvs k) = map_option json_sorted (map_of kvs' k) \<longleftrightarrow> rel_option same_json (map_of kvs k) (map_of kvs' k)" for k
      proof (cases "map_of kvs k"; cases "map_of kvs' k")
        fix v w assume v: "map_of kvs k = Some v" "map_of kvs' k = Some w"
        then have m: "(k, v) \<in> set kvs" "(k, w) \<in> set kvs'" by (simp_all add: map_of_SomeD)
        then have "json_plain v" "json_plain w" using JObj.prems JObj by (auto simp: list_all_iff)
        with JObj.IH [OF m(1), of v w] v show ?thesis by simp
      qed auto
      then show ?thesis by (auto simp: fun_eq_iff map_of_on_snd)
    qed
    finally show ?thesis using JObj by (simp add: on_snd_case)
  qed auto
qed auto

lemma sorted_idem: "json_plain j \<Longrightarrow> json_sorted (json_sorted j) = json_sorted j"
proof (induction j)
  case (JArr xs)
  then show ?case by (simp add: list_all_iff)
next
  case (JObj kvs)
  let ?f = "map (on_snd json_sorted)"
  have d: "distinct (map fst kvs)" using JObj.prems by simp
  have "?f (?f kvs) = ?f kvs" using JObj by (auto simp: on_snd_def list_all_iff)
  then have "sort_key fst (?f (sort_key fst (?f kvs))) = sort_key fst (sort_key fst (?f kvs))" by (simp only: sort_on_snd [symmetric])
  also have "\<dots> = sort_key fst (?f kvs)" by (rule sort_key_id_if_sorted) simp
  finally have "sort_key fst (?f (sort_key fst (?f kvs))) = sort_key fst (?f kvs)" .
  then show ?case by (simp add: on_snd_case)
qed simp_all

lemma canonical_read_back:
  assumes "json_plain j"
  shows "\<exists>j'. json_parse (canonicalizeDeliveryPlanValue j) = Some j' \<and> same_json j j'"
proof (intro exI conjI)
  show "json_parse (canonicalizeDeliveryPlanValue j) = Some (json_sorted j)"
    unfolding canonical_sorted by (rule json_parse_stringify [OF sorted_plain [OF assms]])
  show "same_json j (json_sorted j)"
    using sorted_same [OF assms sorted_plain [OF assms]] sorted_idem [OF assms] by simp
qed

lemma canonical_eq_iff:
  assumes "json_plain a" and "json_plain b"
  shows "canonicalizeDeliveryPlanValue a = canonicalizeDeliveryPlanValue b \<longleftrightarrow> same_json a b"
  using json_parse_stringify [OF sorted_plain [OF assms(1)]] json_parse_stringify [OF sorted_plain [OF assms(2)]]
    sorted_same [OF assms]
  by (metis canonical_sorted option.inject)

section \<open>Blind addressing\<close>

text \<open>\<open>holds_key st j st' k\<close>: read with the context \<open>st\<close>, the value \<open>j\<close> has at some depth an object with the key \<open>k\<close>, where
  the context in force is \<open>st'\<close>.\<close>

inductive holds_key :: "context_state \<Rightarrow> json \<Rightarrow> context_state \<Rightarrow> string \<Rightarrow> bool" where
  item: "x \<in> set xs \<Longrightarrow> holds_key st x st' k \<Longrightarrow> holds_key st (JArr xs) st' k"
| here: "(k, v) \<in> set kvs \<Longrightarrow> holds_key st (JObj kvs) (buildContextState (map_of kvs ''@context'') st) k"
| field: "(k', v) \<in> set kvs \<Longrightarrow> holds_key (buildContextState (map_of kvs ''@context'') st) v st' k \<Longrightarrow> holds_key st (JObj kvs) st' k"

inductive_cases holds_keyE: "holds_key st j st' k"

lemma blind_found: "holds_key st j st' k \<Longrightarrow> blind_key st' k \<Longrightarrow> containsBlindAudienceFields st j"
  by (induction rule: holds_key.induct) (auto simp: list_ex_iff Let_def; force)+

lemma blind_somewhere: "containsBlindAudienceFields st j \<Longrightarrow> \<exists>st' k. holds_key st j st' k \<and> blind_key st' k"
proof (induction st j rule: containsBlindAudienceFields.induct)
  case (1 st xs)
  then show ?case by (simp add: list_ex_iff) (meson holds_key.item)
next
  case (2 st kvs)
  let ?st = "buildContextState (map_of kvs ''@context'') st"
  from 2(2) consider k v where "(k, v) \<in> set kvs" "blind_key ?st k"
    | k v where "(k, v) \<in> set kvs" "containsBlindAudienceFields ?st v"
    by (auto simp: list_ex_iff Let_def)
  then show ?case
  proof cases
    case 1
    then show ?thesis by (blast intro: holds_key.here)
  next
    case c: 2
    from 2(1) [OF refl c(1) refl c(2)] show ?thesis using c(1) by (blast intro: holds_key.field)
  qed
qed simp_all

lemma blind_iff: "containsBlindAudienceFields st j \<longleftrightarrow> (\<exists>st' k. holds_key st j st' k \<and> blind_key st' k)"
  using blind_found blind_somewhere by blast

text \<open>The prefix \<open>as\<close> always means ActivityStreams.\<close>

lemma entry_keeps_as: "cs_prefixes st ''as'' = Some ACTIVITYSTREAMS_NAMESPACE \<Longrightarrow> cs_prefixes (context_entry e st) ''as'' = Some ACTIVITYSTREAMS_NAMESPACE"
proof -
  assume a: "cs_prefixes st ''as'' = Some ACTIVITYSTREAMS_NAMESPACE"
  have "fold (\<lambda>(key, df) p. if definition_iri df = Some ACTIVITYSTREAMS_NAMESPACE then p(key \<mapsto> ACTIVITYSTREAMS_NAMESPACE) else p) kvs p ''as''
      = Some ACTIVITYSTREAMS_NAMESPACE" if "p ''as'' = Some ACTIVITYSTREAMS_NAMESPACE" for kvs and p :: "string \<Rightarrow> string option"
    using that by (induction kvs arbitrary: p) auto
  with a show ?thesis by (cases e) (auto simp: context_entry_def Let_def)
qed

lemma build_keeps_as:
  "cs_prefixes st ''as'' = Some ACTIVITYSTREAMS_NAMESPACE \<Longrightarrow> cs_prefixes (buildContextState c st) ''as'' = Some ACTIVITYSTREAMS_NAMESPACE"
proof -
  have "cs_prefixes (fold context_entry es st) ''as'' = Some ACTIVITYSTREAMS_NAMESPACE"
    if "cs_prefixes st ''as'' = Some ACTIVITYSTREAMS_NAMESPACE" for es st
    using that by (induction es arbitrary: st) (auto simp: entry_keeps_as)
  then show "cs_prefixes st ''as'' = Some ACTIVITYSTREAMS_NAMESPACE \<Longrightarrow> ?thesis" by (simp add: buildContextState_def)
qed

lemma holds_key_as:
  "holds_key st j st' k \<Longrightarrow> cs_prefixes st ''as'' = Some ACTIVITYSTREAMS_NAMESPACE \<Longrightarrow> cs_prefixes st' ''as'' = Some ACTIVITYSTREAMS_NAMESPACE"
  by (induction rule: holds_key.induct) (auto simp: build_keeps_as)

text \<open>The names of blind addressing in every context.\<close>

definition blind_names :: "string list" where
  "blind_names = [''bto'', ''bcc'', ''as:bto'', ''as:bcc'', ACTIVITYSTREAMS_NAMESPACE @ ''bto'', ACTIVITYSTREAMS_NAMESPACE @ ''bcc'']"

lemma blind_names_blind:
  assumes "cs_prefixes st ''as'' = Some ACTIVITYSTREAMS_NAMESPACE" and "k \<in> set blind_names"
  shows "blind_key st k"
proof -
  have c: "compact_parts ''as:bto'' = Some (''as'', ''bto'')" "compact_parts ''as:bcc'' = Some (''as'', ''bcc'')"
    by (simp_all add: compact_parts_def)
  have n: "\<not> starts_with ''as:bto'' ACTIVITYSTREAMS_NAMESPACE" "\<not> starts_with ''as:bcc'' ACTIVITYSTREAMS_NAMESPACE"
    "ACTIVITYSTREAMS_NAMESPACE @ ''bto'' \<notin> set ADDRESSING_TERMS" "ACTIVITYSTREAMS_NAMESPACE @ ''bcc'' \<notin> set ADDRESSING_TERMS"
    by (simp_all add: starts_with_def ADDRESSING_TERMS_def ACTIVITYSTREAMS_NAMESPACE_def)
  have i: "starts_with (ACTIVITYSTREAMS_NAMESPACE @ t) ACTIVITYSTREAMS_NAMESPACE" for t by (simp add: starts_with_def)
  have t: "addressing_term ''bto'' = Some ''bto''" "addressing_term ''bcc'' = Some ''bcc''" by (simp_all add: addressing_term_def ADDRESSING_TERMS_def)
  have "canonicalAddressingTerm ''as:bto'' st = Some ''bto''" "canonicalAddressingTerm ''as:bcc'' st = Some ''bcc''"
    using assms(1) by (simp_all add: canonicalAddressingTerm_def compact_term_def c n t) (simp_all add: ADDRESSING_TERMS_def)
  moreover have "canonicalAddressingTerm (ACTIVITYSTREAMS_NAMESPACE @ ''bto'') st = Some ''bto''"
    "canonicalAddressingTerm (ACTIVITYSTREAMS_NAMESPACE @ ''bcc'') st = Some ''bcc''"
    by (simp_all add: canonicalAddressingTerm_def n i t)
  moreover have "canonicalAddressingTerm ''bto'' st = Some ''bto''" "canonicalAddressingTerm ''bcc'' st = Some ''bcc''"
    by (simp_all add: canonicalAddressingTerm_def ADDRESSING_TERMS_def)
  ultimately show ?thesis using assms(2) unfolding blind_names_def blind_key_def by auto
qed

section \<open>Sample plans\<close>

text \<open>Concrete delivery plans that meet the hypotheses of the properties.\<close>

definition plan_hash :: "string \<Rightarrow> string" where
  "plan_hash t = replicate 64 (if t = [] then CHR ''1'' else CHR ''0'')"

definition plan_activity :: json where
  "plan_activity = JObj [(''id'', JStr ''https://a.example/act/1''), (''type'', JStr ''Create''), (''actor'', JStr ''https://a.example/u/a''),
     (''to'', JArr [JStr ''as:Public'', JStr ''https://b.example/u/b'']), (''cc'', JStr ''https://a.example/u/a/followers'')]"

definition plan_sample :: "string option \<Rightarrow> delivery_plan" where
  "plan_sample shared = \<lparr>dp_intentId = ''apdm-v1-'' @ replicate 64 CHR ''0'', dp_activityId = ''https://a.example/act/1'',
     dp_actorUri = ''https://a.example/u/a'', dp_activity = plan_activity, dp_localRecipients = [],
     dp_remoteRecipients = [\<lparr>rt_actorUri = ''https://b.example/u/b'', rt_inboxUrl = ''https://b.example/u/b/inbox'',
       rt_sharedInboxUrl = shared, rt_targetDomain = ''b.example''\<rparr>],
     dp_meta = \<lparr>pm_visibility = Public_visibility, pm_isPublicActivity = True, pm_isPublicIndexable = Some True, pm_searchConsent = None\<rparr>\<rparr>"

definition plan_decoder :: "json \<Rightarrow> delivery_plan option" where
  "plan_decoder j = (case j of JNull \<Rightarrow> Some (plan_sample None) | JBool _ \<Rightarrow> Some (plan_sample (Some ''https://b.example/inbox'')) | _ \<Rightarrow> None)"

lemma plan_samples_accepted:
  "safeParseActivityPubDeliveryPlanV1 plan_decoder mini_parse plan_hash JNull = Some (plan_sample None)"
  "safeParseActivityPubDeliveryPlanV1 plan_decoder mini_parse plan_hash (JBool True) = Some (plan_sample (Some ''https://b.example/inbox''))"
  by code_simp+

lemma plan_sample_key: "holds_key default_context (dp_activity (plan_sample None)) (buildContextState None default_context) ''to''"
proof -
  have "map_of (json_fields plan_activity) ''@context'' = None" by code_simp
  moreover have "(''to'', JArr [JStr ''as:Public'', JStr ''https://b.example/u/b'']) \<in> set (json_fields plan_activity)" by (simp add: plan_activity_def json_fields_def)
  moreover have "plan_activity = JObj (json_fields plan_activity)" by (simp add: plan_activity_def json_fields_def)
  ultimately show ?thesis using holds_key.here [of "''to''" _ "json_fields plan_activity" default_context] by (auto simp: plan_sample_def)
qed

text \<open>A plan without recipients, for an activity addressed to the empty string and to someone.\<close>

definition masked_plan :: delivery_plan where
  "masked_plan = \<lparr>dp_intentId = ''apdm-v1-'' @ replicate 64 CHR ''0'', dp_activityId = ''https://a.example/act/1'',
     dp_actorUri = ''https://a.example/u/a'',
     dp_activity = JObj [(''id'', JStr ''https://a.example/act/1''), (''actor'', JStr ''https://a.example/u/a''),
       (''to'', JArr [JStr [], JStr ''https://b.example/u/b''])],
     dp_localRecipients = [], dp_remoteRecipients = [],
     dp_meta = \<lparr>pm_visibility = Direct, pm_isPublicActivity = False, pm_isPublicIndexable = None, pm_searchConsent = None\<rparr>\<rparr>"

lemma masked_plan_facts:
  "safeParseActivityPubDeliveryPlanV1 (\<lambda>_. Some masked_plan) mini_parse plan_hash JNull = Some masked_plan"
  "getExplicitConcreteRecipientUris mini_parse (dp_activity masked_plan) = [[], ''https://b.example/u/b'']"
  by code_simp+


section \<open>Accepted plans\<close>

lemma issue_if_nil [simp]: "issue_if b i = [] \<longleftrightarrow> \<not> b"
  by (simp add: issue_if_def)

lemma accepted:
  assumes "safeParseActivityPubDeliveryPlanV1 dec parse sha256 v = Some p"
  shows "dec v = Some p" and "activityPubDeliveryPlanV1Schema parse sha256 p" and "plan_issues parse sha256 p = []"
  using assms by (auto simp: safeParseActivityPubDeliveryPlanV1_def activityPubDeliveryPlanV1Schema_def split: option.splits if_splits)

lemma set_js_unique [simp]: "set (js_unique xs) = set xs"
  by (simp add: js_unique_def)

lemma find_none_all: "(case find P xs of None \<Rightarrow> [] | Some x \<Rightarrow> issue_if (x \<noteq> []) (f x)) = [] \<Longrightarrow> [] \<notin> set xs \<Longrightarrow> \<forall>x \<in> set xs. \<not> P x"
  by (induction xs) (auto split: if_splits)

lemma remote_endpoint:
  assumes "remoteDeliveryTargetSchema parse t"
  shows "\<exists>u. parseDeliveryEndpointUrl parse (rt_deliveryUrl t) = Some u \<and> normalizeDeliveryTargetDomain (u_hostname u) = Some (rt_targetDomain t)"
proof -
  have "parseDeliveryEndpointUrl parse (rt_deliveryUrl t) \<noteq> None"
    using assms by (cases "rt_sharedInboxUrl t") (simp_all add: remoteDeliveryTargetSchema_def deliveryEndpointUrlSchema_def rt_deliveryUrl_def)
  with assms show ?thesis by (auto simp: remoteDeliveryTargetSchema_def)
qed

definition plan_uris :: "delivery_plan \<Rightarrow> string list" where
  "plan_uris p = map lt_actorUri (dp_localRecipients p) @ map rt_actorUri (dp_remoteRecipients p)"

definition plan_material :: "delivery_plan \<Rightarrow> json" where
  "plan_material p = intent_material (dp_activityId p) (dp_actorUri p) (map lt_actorUri (dp_localRecipients p)) (map rt_actorUri (dp_remoteRecipients p))"

lemma visibility_public:
  assumes "determineActivityVisibility parse act \<in> {Public_visibility, Unlisted}"
  shows "\<exists>a \<in> set PUBLIC_ADDRESSES. a \<in> set (addressingValues act ''to'' @ addressingValues act ''cc'')"
  using assms by (auto simp: determineActivityVisibility_def Let_def list_ex_iff split: if_splits)

text \<open>C27: An accepted delivery plan is consistent with the activity it carries: it names the activity and its actor, no recipient
  occurs twice or both as local and as remote, every remote target is delivered to a safe HTTP(S) endpoint on
  the domain it names, its visibility is that of the addressing, only an activity addressed to the public is marked
  indexable, the sender's followers are not left unexpanded in the audience, and, unless an address is the empty string, every
  concrete recipient the activity addresses is planned.\<close>
theorem accepted_plan_sound:
  assumes "safeParseActivityPubDeliveryPlanV1 dec parse sha256 v = Some p"
  shows "dec v = Some p \<and> normalizeId (json_get ''actor'' (dp_activity p)) = Some (dp_actorUri p) \<and>
    normalizeId (nullish_or (json_get ''id'' (dp_activity p)) (json_get ''@id'' (dp_activity p))) = Some (dp_activityId p) \<and>
    distinct (plan_uris p) \<and>
    list_all (\<lambda>t. \<exists>u. parseDeliveryEndpointUrl parse (rt_deliveryUrl t) = Some u \<and>
      normalizeDeliveryTargetDomain (u_hostname u) = Some (rt_targetDomain t)) (dp_remoteRecipients p) \<and>
    pm_visibility (dp_meta p) = determineActivityVisibility parse (dp_activity p) \<and>
    (pm_isPublicIndexable (dp_meta p) = Some True \<longrightarrow>
      (\<exists>a \<in> set PUBLIC_ADDRESSES. a \<in> set (addressingValues (dp_activity p) ''to'' @ addressingValues (dp_activity p) ''cc''))) \<and>
    \<not> hasSenderFollowersAudience parse (dp_activity p) \<and>
    ([] \<in> set (getExplicitConcreteRecipientUris parse (dp_activity p)) \<or>
     set (getExplicitConcreteRecipientUris parse (dp_activity p)) \<subseteq> set (plan_uris p))"
proof -
  note i = accepted(3) [OF assms, unfolded plan_issues_def Let_def append_is_Nil_conv issue_if_nil]
  have "list_all (remoteDeliveryTargetSchema parse) (dp_remoteRecipients p)"
    using accepted(2) [OF assms] by (simp add: activityPubDeliveryPlanV1Schema_def)
  then have r: "list_all (\<lambda>t. \<exists>u. parseDeliveryEndpointUrl parse (rt_deliveryUrl t) = Some u \<and>
      normalizeDeliveryTargetDomain (u_hostname u) = Some (rt_targetDomain t)) (dp_remoteRecipients p)"
    using remote_endpoint by (auto simp: list_all_iff)
  have e: "set (getExplicitConcreteRecipientUris parse (dp_activity p)) \<subseteq> set (plan_uris p)"
    if "[] \<notin> set (getExplicitConcreteRecipientUris parse (dp_activity p))"
    using find_none_all [OF _ that] i by (auto simp: plan_uris_def)
  have "set (map lt_actorUri (dp_localRecipients p)) \<inter> set (map rt_actorUri (dp_remoteRecipients p)) = {}"
    using i unfolding list_ex_iff by blast
  then have d: "distinct (plan_uris p)" using i by (simp add: plan_uris_def)
  have p: "\<exists>a \<in> set PUBLIC_ADDRESSES. a \<in> set (addressingValues (dp_activity p) ''to'' @ addressingValues (dp_activity p) ''cc'')"
    if "pm_isPublicIndexable (dp_meta p) = Some True"
    by (rule visibility_public [of parse]) (use i that in auto)
  show ?thesis using i r e d p accepted(1) [OF assms] by blast
qed

theorem accepted_plan_sound_witness:
  "distinct (plan_uris (plan_sample None)) \<and>
   set (getExplicitConcreteRecipientUris mini_parse (dp_activity (plan_sample None))) \<subseteq> set (plan_uris (plan_sample None))"
proof -
  have "[] \<notin> set (getExplicitConcreteRecipientUris mini_parse (dp_activity (plan_sample None)))" by code_simp
  with accepted_plan_sound [OF plan_samples_accepted(1)] show ?thesis by blast
qed





lemma material_plain: "json_plain (intent_material a b ls rs)"
  by (simp add: intent_material_def list_all_iff)

lemma same_strings: "list_all2 same_json (map JStr xs) (map JStr ys) \<longleftrightarrow> xs = ys"
  by (auto simp: list_all2_conv_all_nth list_eq_iff_nth_eq)

lemma same_material:
  assumes "same_json (intent_material a b ls rs) (intent_material a' b' ls' rs')"
  shows "a = a' \<and> b = b' \<and> set ls = set ls' \<and> set rs = set rs'"
proof -
  let ?l = "sort (js_unique ls)" and ?l' = "sort (js_unique ls')" and ?r = "sort (js_unique rs)" and ?r' = "sort (js_unique rs')"
  have field: "rel_option same_json (json_get k (intent_material a b ls rs)) (json_get k (intent_material a' b' ls' rs'))" for k
    using assms by (auto simp: intent_material_def simp del: map_of.simps)
  note field = field [unfolded intent_material_def, simplified]
  have "a = a'" "b = b'" "?l = ?l'" "?r = ?r'"
    using field [of "''activityId''"] field [of "''actorUri''"] field [of "''localRecipientUris''"] field [of "''remoteRecipientUris''"]
    by (simp_all add: same_strings)
  then have "set ?l = set ?l'" "set ?r = set ?r'" by simp_all
  with \<open>a = a'\<close> \<open>b = b'\<close> show ?thesis by simp
qed

text \<open>The intent of an accepted plan is bound to what it is about: unless SHA-256 collides on the two texts, two accepted plans with
  the same intent id name the same activity, the same actor, the same local recipients and the same remote ones.\<close>
theorem intent_id_binds:
  assumes "safeParseActivityPubDeliveryPlanV1 dec parse sha256 v = Some p" and "safeParseActivityPubDeliveryPlanV1 dec parse sha256 v' = Some p'"
    and "dp_intentId p = dp_intentId p'"
    and collision_free: "sha256 (canonicalizeDeliveryPlanValue (plan_material p)) = sha256 (canonicalizeDeliveryPlanValue (plan_material p')) \<Longrightarrow>
      canonicalizeDeliveryPlanValue (plan_material p) = canonicalizeDeliveryPlanValue (plan_material p')"
  shows "dp_activityId p = dp_activityId p' \<and> dp_actorUri p = dp_actorUri p' \<and>
    lt_actorUri ` set (dp_localRecipients p) = lt_actorUri ` set (dp_localRecipients p') \<and>
    rt_actorUri ` set (dp_remoteRecipients p) = rt_actorUri ` set (dp_remoteRecipients p')"
proof -
  have i: "dp_intentId q = ''apdm-v1-'' @ sha256 (canonicalizeDeliveryPlanValue (plan_material q))"
    if "plan_issues parse sha256 q = []" for q
    using that by (simp add: plan_issues_def Let_def computeExpectedIntentId_def plan_material_def)
  have "canonicalizeDeliveryPlanValue (plan_material p) = canonicalizeDeliveryPlanValue (plan_material p')"
    by (rule collision_free) (use assms(3) i [OF accepted(3) [OF assms(1)]] i [OF accepted(3) [OF assms(2)]] in simp)
  then have "same_json (plan_material p) (plan_material p')"
    using canonical_eq_iff by (simp add: plan_material_def material_plain)
  then show ?thesis using same_material by (fastforce simp: plan_material_def)
qed

theorem intent_id_binds_witness:
  "rt_actorUri ` set (dp_remoteRecipients (plan_sample None)) =
   rt_actorUri ` set (dp_remoteRecipients (plan_sample (Some ''https://b.example/inbox'')))"
proof -
  have "dp_intentId (plan_sample None) = dp_intentId (plan_sample (Some ''https://b.example/inbox''))"
    and "canonicalizeDeliveryPlanValue (plan_material (plan_sample None)) =
      canonicalizeDeliveryPlanValue (plan_material (plan_sample (Some ''https://b.example/inbox'')))" by code_simp+
  then show ?thesis using intent_id_binds [OF plan_samples_accepted] by blast
qed

section \<open>The recipients a plan may omit\<close>

text \<open>The check that a plan omits no explicitly addressed recipient looks only at the first address that is not planned, and takes an
  empty one for none: when the empty string is that address, the check adds no issue, whatever recipients after it are omitted.\<close>
theorem empty_address_masks_omission:
  assumes "getExplicitConcreteRecipientUris parse (dp_activity p) = before @ [] # omitted"
    and "set before \<subseteq> set (plan_uris p)" and "[] \<notin> set (plan_uris p)"
  shows "Omits_recipient uri \<notin> set (plan_issues parse sha256 p)"
proof -
  have "find (\<lambda>u. u \<notin> lt_actorUri ` set (dp_localRecipients p) \<and> u \<notin> rt_actorUri ` set (dp_remoteRecipients p)) (before @ [] # omitted) = Some []"
    using assms(2,3) by (induction before) (auto simp: plan_uris_def)
  with assms(1) show ?thesis by (auto simp: plan_issues_def Let_def issue_if_def)
qed

theorem empty_address_masks_omission_witness:
  "safeParseActivityPubDeliveryPlanV1 (\<lambda>_. Some masked_plan) mini_parse plan_hash JNull = Some masked_plan \<and>
   ''https://b.example/u/b'' \<in> set (getExplicitConcreteRecipientUris mini_parse (dp_activity masked_plan)) \<and>
   ''https://b.example/u/b'' \<notin> set (plan_uris masked_plan) \<and>
   Omits_recipient ''https://b.example/u/b'' \<notin> set (plan_issues mini_parse plan_hash masked_plan)"
proof -
  have "plan_uris masked_plan = []" by code_simp
  with masked_plan_facts show ?thesis
    using empty_address_masks_omission [of mini_parse masked_plan "[]" "[''https://b.example/u/b'']"] by simp
qed

end
