(* ===== verification/Origin_Worker.thy ===== *)
theory Origin_Worker
  imports Queue_Core Delivery_Policy
begin

text \<open>
  \<open>fedify-sidecar/src/delivery/origin-reconciliation-worker.ts\<close>: a remote object that was seen with a conversation is fetched
  again from its origin a few times, and a change is fed back as an inbound activity.  The queue, the signing
  client, the HTTP client, the clock and the sources of randomness are services: parameters that may answer or fail in any way.  The world records
  the calls in a trace, newest first.  Log lines, metrics and the loops of \<open>start\<close> and \<open>stop\<close> are not modelled.
\<close>

section \<open>Random delays\<close>

text \<open>
  \<open>Math.random()\<close> is \<open>k / 2\<^sup>5\<^sup>3\<close> for a number \<open>k\<close> that a service draws.  Products are exact here;
  rounding to doubles can move a delay by one millisecond, never out of the bounds shown for it.
\<close>

definition random_steps :: int where "random_steps = 2 ^ 53"

text \<open>\<open>Math.round(n / d)\<close>\<close>

definition round_ratio :: "int \<Rightarrow> int \<Rightarrow> int" where
  "round_ratio n d = (2 * n + d) div (2 * d)"

definition applyJitter :: "int \<Rightarrow> int \<Rightarrow> int" where
  "applyJitter baseMs k = max 1000 (round_ratio (baseMs * (random_steps + k)) (2 * random_steps))"

text \<open>A configured number is \<open>None\<close> if it is \<open>NaN\<close>; an infinite one is not modelled.\<close>

definition fullJitterDelayMs :: "int option \<Rightarrow> int option \<Rightarrow> nat \<Rightarrow> int \<Rightarrow> jsnum" where
  "fullJitterDelayMs baseMs maxMs n k =
     (case (baseMs, maxMs) of
        (Some b, Some m) \<Rightarrow> Num (max 500 (round_ratio (k * min m (b * 2 ^ n)) random_steps))
      | _ \<Rightarrow> NaN)"

definition nextReconciliationDelayMs :: "jsnum \<Rightarrow> int \<Rightarrow> int" where
  "nextReconciliationDelayMs nextAttempt k =
     (if js_le nextAttempt (Num 1) then applyJitter 30000 k
      else if nextAttempt = Num 2 then applyJitter (2 * 60000) k
      else if nextAttempt = Num 3 then applyJitter (10 * 60000) k
      else applyJitter (30 * 60000) k)"

fun nextTransientDelayMs :: "jsnum \<Rightarrow> int \<Rightarrow> jsnum" where
  "nextTransientDelayMs (Num n) k = fullJitterDelayMs (Some 30000) (Some (30 * 60000)) (nat (n - 1)) k"
| "nextTransientDelayMs NegInf k = fullJitterDelayMs (Some 30000) (Some (30 * 60000)) 0 k"
| "nextTransientDelayMs PosInf k = Num (max 500 (round_ratio (k * (30 * 60000)) random_steps))"
| "nextTransientDelayMs NaN k = NaN"

section \<open>Which URLs may be fetched\<close>

text \<open>\<open>parseIpv4\<close> of the worker, which takes the leading digits of every part.\<close>

definition loose_octet :: "string \<Rightarrow> int option" where
  "loose_octet part = (case parse_int part of Num n \<Rightarrow> if n < 0 \<or> n > 255 then None else Some n | _ \<Rightarrow> None)"

definition loose_parseIpv4 :: "string \<Rightarrow> int list option" where
  "loose_parseIpv4 hostname =
     (let parts = js_split CHR ''.'' hostname; octets = map loose_octet parts
      in if length parts \<noteq> 4 \<or> None \<in> set octets then None else Some (map the octets))"

definition private_octets :: "int \<Rightarrow> int \<Rightarrow> bool" where
  "private_octets a b \<longleftrightarrow>
     a = 10 \<or> a = 127 \<or> a = 0 \<or> (a = 169 \<and> b = 254) \<or> (a = 172 \<and> b \<ge> 16 \<and> b \<le> 31) \<or> (a = 192 \<and> b = 168) \<or>
     (a = 100 \<and> b \<ge> 64 \<and> b \<le> 127) \<or> (a = 198 \<and> (b = 18 \<or> b = 19))"

text \<open>\<open>hostname.replace(/^\[/, "").replace(/\]$/, "")\<close>\<close>

definition unbracket :: "string \<Rightarrow> string" where
  "unbracket s =
     (let t = (if s \<noteq> [] \<and> hd s = CHR ''['' then tl s else s)
      in if t \<noteq> [] \<and> last t = CHR '']'' then butlast t else t)"

definition isPrivateIpLiteral :: "string \<Rightarrow> bool" where
  "isPrivateIpLiteral hostname =
     (case loose_parseIpv4 hostname of
        Some octets \<Rightarrow> private_octets (octets ! 0) (octets ! 1)
      | None \<Rightarrow>
          (let normalized = js_lower (unbracket hostname)
           in normalized = ''::1'' \<or> normalized = ''::'' \<or> starts_with normalized ''fc'' \<or> starts_with normalized ''fd'' \<or>
              starts_with normalized ''fe8'' \<or> starts_with normalized ''fe9'' \<or> starts_with normalized ''fea'' \<or>
              starts_with normalized ''feb''))"

definition isAllowedRemoteFetchUrl :: "url_lib \<Rightarrow> string \<Rightarrow> bool" where
  "isAllowedRemoteFetchUrl parse uri =
     (case parse uri of
        None \<Rightarrow> False
      | Some parsed \<Rightarrow>
          if u_protocol parsed \<noteq> ''http:'' \<and> u_protocol parsed \<noteq> ''https:'' then False
          else if u_username parsed \<noteq> [] \<or> u_password parsed \<noteq> [] then False
          else let hostname = js_lower (u_hostname parsed)
               in \<not> (hostname = ''localhost'' \<or> ends_with hostname ''.localhost'') \<and> \<not> isPrivateIpLiteral hostname)"

section \<open>Responses\<close>

definition TRANSIENT_HTTP_STATUS_CODES :: "int list" where
  "TRANSIENT_HTTP_STATUS_CODES = [408, 425, 429, 500, 502, 503, 504]"

definition MAX_JSON_RESPONSE_BYTES :: nat where "MAX_JSON_RESPONSE_BYTES = 2000000"

datatype header_value = Header string | Headers "string list"

text \<open>
  A response: its status, its \<open>content-length\<close>, the chunks of its body with the error the stream ends with, if any,
  and the error that discarding the body ends with, if any.
\<close>

record origin_response =
  og_status :: int
  og_contentLength :: "header_value option"
  og_chunks :: "string list"
  og_failure :: "string option"
  og_dump :: "string option"

datatype fetch_class = Blocked | Transient | Not_found | Gone_away | Permanent

fun class_name :: "fetch_class \<Rightarrow> string" where
  "class_name Blocked = ''blocked''"
| "class_name Transient = ''transient''"
| "class_name Not_found = ''not_found''"
| "class_name Gone_away = ''gone''"
| "class_name Permanent = ''permanent''"

datatype fetch_result = Fetched json string | Fetch_failed fetch_class "int option" "string option"

fun content_length :: "header_value option \<Rightarrow> jsnum" where
  "content_length (Some (Header h)) = parse_int h"
| "content_length (Some (Headers (h # _))) = parse_int h"
| "content_length _ = NaN"

fun stableStringify :: "json \<Rightarrow> string" where
  "stableStringify (JArr xs) = ''['' @ json_join (map stableStringify xs) @ '']''"
| "stableStringify (JObj kvs) =
     ''{'' @ json_join (map (\<lambda>(key, t). json_quote key @ '':'' @ t)
       (sort_key fst (map (\<lambda>(key, v). (key, stableStringify v)) kvs))) @ ''}''"
| "stableStringify v = json_stringify v"

definition fingerprintJsonObject :: "(string \<Rightarrow> string) \<Rightarrow> json \<Rightarrow> string" where
  "fingerprintJsonObject sha256 input = sha256 (stableStringify input)"

fun read_body_chunks :: "nat \<Rightarrow> string list \<Rightarrow> string option \<Rightarrow> string \<Rightarrow> string + string option" where
  "read_body_chunks byteLimit [] broken got = (case broken of Some e \<Rightarrow> Inl e | None \<Rightarrow> Inr (Some got))"
| "read_body_chunks byteLimit (chunk # chunks) broken got =
     (if length got + length chunk > byteLimit then Inr None
      else read_body_chunks byteLimit chunks broken (got @ chunk))"

text \<open>\<open>utf8\<close> decodes the bytes of a body.\<close>

definition readJsonBodyWithLimit :: "(string \<Rightarrow> string) \<Rightarrow> origin_response \<Rightarrow> nat \<Rightarrow> string + json option" where
  "readJsonBodyWithLimit utf8 r byteLimit =
     (case read_body_chunks byteLimit (og_chunks r) (og_failure r) [] of
        Inl e \<Rightarrow> Inl e
      | Inr None \<Rightarrow> Inr None
      | Inr (Some bytes) \<Rightarrow> Inr (case json_parse (utf8 bytes) of Some (JObj kvs) \<Rightarrow> Some (JObj kvs) | _ \<Rightarrow> None))"

definition extractAttributedTo :: "json \<Rightarrow> string option" where
  "extractAttributedTo obj =
     (let truthy_text = (\<lambda>v. case v of Some (JStr s) \<Rightarrow> if s \<noteq> [] then Some s else None | _ \<Rightarrow> None);
          at = json_get ''attributedTo'' obj
      in case truthy_text at of
           Some s \<Rightarrow> Some s
         | None \<Rightarrow>
             (case truthy_text (case at of Some (JObj kvs) \<Rightarrow> json_get ''id'' (JObj kvs) | _ \<Rightarrow> None) of
                Some i \<Rightarrow> Some i
              | None \<Rightarrow> truthy_text (json_get ''actor'' obj)))"

section \<open>Services and configuration\<close>

record origin_request =
  oq_url :: string
  oq_headers :: fields

text \<open>\<open>os_sign\<close> answers with the signed headers \<open>date\<close> and \<open>signature\<close>, or with the message of a refusal.\<close>

record 's origin_services =
  os_now :: "'s \<Rightarrow> int \<times> 's"
  os_random :: "'s \<Rightarrow> int \<times> 's"
  os_uuid :: "'s \<Rightarrow> string \<times> 's"
  os_sleep :: "jsnum \<Rightarrow> 's \<Rightarrow> 's"
  os_ack :: "string \<Rightarrow> ('s, string, unit) eio"
  os_enqueue :: "OriginReconciliationJob \<Rightarrow> ('s, string, string) eio"
  os_rate :: "string \<Rightarrow> jsnum \<Rightarrow> jsnum \<Rightarrow> ('s, string, bool) eio"
  os_slot :: "string \<Rightarrow> jsnum \<Rightarrow> ('s, string, bool) eio"
  os_release :: "string \<Rightarrow> ('s, string, unit) eio"
  os_apply :: "string \<Rightarrow> string \<Rightarrow> jsnum \<Rightarrow> ('s, string, bool) eio"
  os_inbound :: "InboundEnvelope \<Rightarrow> ('s, string, unit) eio"
  os_dlq :: "OriginReconciliationJob \<Rightarrow> string \<Rightarrow> ('s, string, unit) eio"
  os_sign :: "string \<Rightarrow> string \<Rightarrow> ('s, string, string + (string \<times> string)) eio"
  os_request :: "origin_request \<Rightarrow> ('s, string, origin_response) eio"
  os_parse :: url_lib
  os_sha256 :: "string \<Rightarrow> string"
  os_utf8 :: "string \<Rightarrow> string"

record origin_config =
  oc_concurrency :: jsnum
  oc_signerActorUri :: string
  oc_requestTimeoutMs :: jsnum
  oc_requestRetries :: "int option"
  oc_requestRetryBaseDelayMs :: "int option"
  oc_requestRetryMaxDelayMs :: "int option"
  oc_userAgent :: string
  oc_perOriginConcurrency :: jsnum
  oc_perOriginBurstLimit :: jsnum
  oc_perOriginBurstWindowSeconds :: jsnum
  oc_maxUnchangedSuccesses :: jsnum
  oc_applyIdempotencyTtlSeconds :: jsnum

definition env_text :: "(string \<Rightarrow> string option) \<Rightarrow> string \<Rightarrow> string \<Rightarrow> string" where
  "env_text env name fallback = (case env name of None \<Rightarrow> fallback | Some t \<Rightarrow> if t = [] then fallback else t)"

definition int_or_nan :: "jsnum \<Rightarrow> int option" where
  "int_or_nan x = (case x of Num n \<Rightarrow> Some n | _ \<Rightarrow> None)"

definition createOriginReconciliationWorker ::
  "(string \<Rightarrow> string option) \<Rightarrow> string \<Rightarrow> (origin_config \<Rightarrow> origin_config) \<Rightarrow> origin_config" where
  "createOriginReconciliationWorker env signerActorUri overrides =
     (let number = (\<lambda>name fallback. parse_int (env_text env name fallback))
      in overrides
        \<lparr>oc_concurrency = number ''ORIGIN_RECONCILIATION_CONCURRENCY'' ''4'',
         oc_signerActorUri = signerActorUri,
         oc_requestTimeoutMs = number ''REQUEST_TIMEOUT_MS'' ''30000'',
         oc_requestRetries = int_or_nan (number ''ORIGIN_RECONCILIATION_REQUEST_RETRIES'' ''3''),
         oc_requestRetryBaseDelayMs = int_or_nan (number ''ORIGIN_RECONCILIATION_RETRY_BASE_DELAY_MS'' ''500''),
         oc_requestRetryMaxDelayMs = int_or_nan (number ''ORIGIN_RECONCILIATION_RETRY_MAX_DELAY_MS'' ''30000''),
         oc_userAgent = env_text env ''USER_AGENT'' ''Fedify-Sidecar/5.0 (ActivityPods)'',
         oc_perOriginConcurrency = number ''ORIGIN_RECONCILIATION_PER_ORIGIN_CONCURRENCY'' ''2'',
         oc_perOriginBurstLimit = number ''ORIGIN_RECONCILIATION_PER_ORIGIN_BURST_LIMIT'' ''5'',
         oc_perOriginBurstWindowSeconds = number ''ORIGIN_RECONCILIATION_PER_ORIGIN_BURST_WINDOW_SECONDS'' ''300'',
         oc_maxUnchangedSuccesses = number ''ORIGIN_RECONCILIATION_MAX_UNCHANGED_SUCCESSES'' ''2'',
         oc_applyIdempotencyTtlSeconds = number ''ORIGIN_RECONCILIATION_APPLY_TTL_SECONDS'' ''604800''\<rparr>)"

section \<open>Calls\<close>

text \<open>A flag tells whether the call resolved; an answer is \<open>None\<close> if it was rejected.\<close>

datatype origin_event =
    OvTime int
  | OvRate "bool option"
  | OvSlot "bool option"
  | OvRelease bool
  | OvSign bool
  | OvRequest origin_request "origin_response option"
  | OvApply string string "bool option"
  | OvInbound InboundEnvelope bool
  | OvAck bool
  | OvRequeue OriginReconciliationJob bool
  | OvDlq OriginReconciliationJob string bool

record 's origin_world =
  ow_srv :: 's
  ow_trace :: "origin_event list"
  ow_active :: int

definition reply :: "string + 'a \<Rightarrow> 'a option" where
  "reply r = (case r of Inl _ \<Rightarrow> None | Inr a \<Rightarrow> Some a)"

definition ocalled :: "(string + 'a \<Rightarrow> origin_event) \<Rightarrow> ('s, string, 'a) eio \<Rightarrow> ('s origin_world, string, 'a) eio" where
  "ocalled ev m w = (case m (ow_srv w) of (r, s) \<Rightarrow> (r, w\<lparr>ow_srv := s, ow_trace := ev r # ow_trace w\<rparr>))"

definition oclock :: "'s origin_services \<Rightarrow> ('s origin_world, string, int) eio" where
  "oclock S w = (case os_now S (ow_srv w) of (t, s) \<Rightarrow> (Inr t, w\<lparr>ow_srv := s, ow_trace := OvTime t # ow_trace w\<rparr>))"

text \<open>A service that cannot fail and leaves no event.\<close>

definition odraw :: "('s \<Rightarrow> 'a \<times> 's) \<Rightarrow> ('s origin_world, string, 'a) eio" where
  "odraw f w = (case f (ow_srv w) of (a, s) \<Rightarrow> (Inr a, w\<lparr>ow_srv := s\<rparr>))"

definition oadd_active :: "int \<Rightarrow> ('s origin_world, string, unit) eio" where
  "oadd_active d w = (Inr (), w\<lparr>ow_active := ow_active w + d\<rparr>)"

definition osum :: "string + 'a \<Rightarrow> ('w, string, 'a) eio" where
  "osum x = (case x of Inl e \<Rightarrow> io_throw e | Inr a \<Rightarrow> io_return a)"

definition o_ack :: "'s origin_services \<Rightarrow> string \<Rightarrow> ('s origin_world, string, unit) eio" where
  "o_ack S messageId = ocalled (\<lambda>r. OvAck (reply r \<noteq> None)) (os_ack S messageId)"

definition o_enqueue :: "'s origin_services \<Rightarrow> OriginReconciliationJob \<Rightarrow> ('s origin_world, string, unit) eio" where
  "o_enqueue S j = io_then (ocalled (\<lambda>r. OvRequeue j (reply r \<noteq> None)) (os_enqueue S j)) (io_return ())"

definition rescheduleJob :: "'s origin_services \<Rightarrow> string \<Rightarrow> OriginReconciliationJob \<Rightarrow> ('s origin_world, string, unit) eio" where
  "rescheduleJob S messageId j = io_then (o_ack S messageId) (o_enqueue S j)"

definition deferJob ::
  "'s origin_services \<Rightarrow> string \<Rightarrow> OriginReconciliationJob \<Rightarrow> int \<Rightarrow> string \<Rightarrow> ('s origin_world, string, unit) eio" where
  "deferJob S messageId j delayMs reason =
     io_bind (oclock S) (\<lambda>now. rescheduleJob S messageId (j\<lparr>or_notBeforeMs := Num (now + delayMs), or_lastError := Some reason\<rparr>))"

section \<open>Fetching\<close>

text \<open>What one response means; \<open>None\<close>: try again.  \<open>again\<close> tells whether an attempt is left.\<close>

definition read_response :: "'s origin_services \<Rightarrow> bool \<Rightarrow> origin_response \<Rightarrow> string + fetch_result option" where
  "read_response S again r =
     (let dumped = (\<lambda>x. case og_dump r of Some e \<Rightarrow> Inl e | None \<Rightarrow> Inr x);
          status = og_status r; passing = (status \<in> set TRANSIENT_HTTP_STATUS_CODES)
      in if (case content_length (og_contentLength r) of Num n \<Rightarrow> n > int MAX_JSON_RESPONSE_BYTES | _ \<Rightarrow> False)
         then dumped (Some (Fetch_failed Permanent None (Some ''response exceeds size limit'')))
         else if status = 404 then dumped (Some (Fetch_failed Not_found (Some status) None))
         else if status = 410 then dumped (Some (Fetch_failed Gone_away (Some status) None))
         else if status < 200 \<or> status \<ge> 300 then
           dumped (if passing \<and> again then None
                   else Some (Fetch_failed (if passing then Transient else Permanent) (Some status) (Some (''HTTP '' @ show_int status))))
         else case readJsonBodyWithLimit (os_utf8 S) r MAX_JSON_RESPONSE_BYTES of
             Inl e \<Rightarrow> Inl e
           | Inr None \<Rightarrow> Inr (Some (Fetch_failed Permanent None (Some ''invalid JSON object payload'')))
           | Inr (Some body) \<Rightarrow> Inr (Some (Fetched body (fingerprintJsonObject (os_sha256 S) body))))"

definition origin_request_for :: "'s origin_services \<Rightarrow> origin_config \<Rightarrow> string \<Rightarrow> string \<Rightarrow> string \<Rightarrow> string + origin_request" where
  "origin_request_for S C url date signature =
     (case os_parse S url of
        None \<Rightarrow> Inl ''Invalid URL''
      | Some parsedUrl \<Rightarrow> Inr
          \<lparr>oq_url = url,
           oq_headers = [(''accept'', ''application/activity+json, application/ld+json''), (''date'', date), (''signature'', signature),
             (''host'', u_host parsedUrl), (''user-agent'', oc_userAgent C)]\<rparr>)"

definition retry_delay :: "'s origin_services \<Rightarrow> origin_config \<Rightarrow> nat \<Rightarrow> ('s origin_world, string, unit) eio" where
  "retry_delay S C n =
     io_bind (odraw (os_random S)) (\<lambda>k.
       odraw (\<lambda>s. ((), os_sleep S (fullJitterDelayMs (oc_requestRetryBaseDelayMs C) (oc_requestRetryMaxDelayMs C) n k) s)))"

definition fetch_once :: "'s origin_services \<Rightarrow> origin_config \<Rightarrow> string \<Rightarrow> bool \<Rightarrow> ('s origin_world, string, fetch_result option) eio" where
  "fetch_once S C url again =
     io_bind (ocalled (\<lambda>r. OvSign (reply r \<noteq> None)) (os_sign S (oc_signerActorUri C) url)) (\<lambda>signed.
       case signed of
         Inl message \<Rightarrow> io_return (Some (Fetch_failed Permanent None (Some message)))
       | Inr (date, signature) \<Rightarrow>
           io_bind (osum (origin_request_for S C url date signature)) (\<lambda>q.
           io_bind (ocalled (\<lambda>r. OvRequest q (reply r)) (os_request S q)) (\<lambda>response. osum (read_response S again response))))"

text \<open>The loop: attempt \<open>n\<close>, and how many are left.\<close>

fun fetch_attempts :: "'s origin_services \<Rightarrow> origin_config \<Rightarrow> string \<Rightarrow> nat \<Rightarrow> nat \<Rightarrow> ('s origin_world, string, fetch_result) eio" where
  "fetch_attempts S C url n 0 = io_return (Fetch_failed Transient None (Some ''exhausted retries''))"
| "fetch_attempts S C url n (Suc left) =
     io_bind
       (io_catch (fetch_once S C url (left > 0))
          (\<lambda>e. io_return (if left > 0 then None
                          else Some (Fetch_failed Transient None (Some (if e = [] then ''Error'' else e))))))
       (\<lambda>r. case r of
          Some result \<Rightarrow> io_return result
        | None \<Rightarrow> io_then (retry_delay S C n) (fetch_attempts S C url (Suc n) left))"

definition fetch_budget :: "origin_config \<Rightarrow> nat" where
  "fetch_budget C = (case oc_requestRetries C of None \<Rightarrow> 0 | Some n \<Rightarrow> nat (max 1 (n + 1)))"

definition fetchRemoteObject :: "'s origin_services \<Rightarrow> origin_config \<Rightarrow> string \<Rightarrow> ('s origin_world, string, fetch_result) eio" where
  "fetchRemoteObject S C url =
     (if \<not> isAllowedRemoteFetchUrl (os_parse S) url then io_return (Fetch_failed Blocked None (Some ''blocked unsafe fetch URL''))
      else fetch_attempts S C url 0 (fetch_budget C))"

section \<open>Processing\<close>

definition origin_now_plus :: "'s origin_services \<Rightarrow> (int \<Rightarrow> jsnum) \<Rightarrow> ('s origin_world, string, jsnum) eio" where
  "origin_now_plus S delay =
     io_bind (oclock S) (\<lambda>now. io_bind (odraw (os_random S)) (\<lambda>k. io_return (js_add (delay k) now)))"

definition failure_text :: "fetch_class \<Rightarrow> string option \<Rightarrow> string" where
  "failure_text c e = (case e of Some t \<Rightarrow> t | None \<Rightarrow> class_name c)"

definition handleFailedFetch ::
  "'s origin_services \<Rightarrow> string \<Rightarrow> OriginReconciliationJob \<Rightarrow> fetch_class \<Rightarrow> string option \<Rightarrow> ('s origin_world, string, unit) eio" where
  "handleFailedFetch S messageId j c e =
     (let nextAttempt = js_add (or_attempt j) 1
      in case c of
           Transient \<Rightarrow>
             io_bind (origin_now_plus S (nextTransientDelayMs nextAttempt)) (\<lambda>due.
               rescheduleJob S messageId
                 (j\<lparr>or_attempt := nextAttempt, or_notBeforeMs := due, or_lastError := Some (failure_text c e)\<rparr>))
         | Not_found \<Rightarrow>
             (let notFoundCount = js_add (or_notFoundCount j) 1
              in io_bind (if js_lt notFoundCount (Num 2)
                          then io_bind (oclock S) (\<lambda>now. io_return (js_lt (Num (now + 120000)) (or_windowExpiresAt j)))
                          else io_return False)
                   (\<lambda>again. if again
                      then io_bind (oclock S) (\<lambda>now. rescheduleJob S messageId
                             (j\<lparr>or_attempt := nextAttempt, or_notFoundCount := notFoundCount,
                                or_notBeforeMs := Num (now + 120000), or_lastError := Some ''not_found''\<rparr>))
                      else o_ack S messageId))
         | Gone_away \<Rightarrow> o_ack S messageId
         | _ \<Rightarrow>
             (let reason = failure_text c e; j' = j\<lparr>or_attempt := nextAttempt, or_lastError := Some reason\<rparr>
              in io_then (o_ack S messageId)
                   (ocalled (\<lambda>r. OvDlq j' reason (reply r \<noteq> None)) (os_dlq S j' reason))))"

definition synthetic_activity :: "string \<Rightarrow> OriginReconciliationJob \<Rightarrow> string \<Rightarrow> json \<Rightarrow> json" where
  "synthetic_activity uuid j actor object =
     (let removed = (json_get ''type'' object = Some (JStr ''Tombstone''))
      in JObj [(''@context'', JStr ''https://www.w3.org/ns/activitystreams''),
               (''type'', JStr (if removed then ''Delete'' else ''Update'')),
               (''id'', JStr (''urn:origin-reconcile:'' @ uuid)), (''actor'', JStr actor),
               (''object'', if removed then JStr (or_originObjectUrl j) else object)])"

definition synthetic_headers :: json where
  "synthetic_headers = JObj [(''content-type'', JStr ''application/activity+json''), (''x-origin-reconciliation'', JStr ''true'')]"

definition synthetic_envelope ::
  "string \<Rightarrow> string \<Rightarrow> int \<Rightarrow> int \<Rightarrow> OriginReconciliationJob \<Rightarrow> string \<Rightarrow> json \<Rightarrow> InboundEnvelope" where
  "synthetic_envelope uuid envelopeId verifiedAt receivedAt j actor object =
     createVerifiedInboundEnvelope envelopeId receivedAt ''/inbox'' (json_stringify (synthetic_activity uuid j actor object))
       ''127.0.0.1'' actor (Some (Num verifiedAt)) (Some synthetic_headers)"

definition synthetic_actor :: "OriginReconciliationJob \<Rightarrow> json \<Rightarrow> string option" where
  "synthetic_actor j object =
     (case or_actorUriHint j of
        Some hint \<Rightarrow> if hint = [] then None else Some hint
      | None \<Rightarrow> extractAttributedTo object)"

definition enqueueSyntheticUpdate ::
  "'s origin_services \<Rightarrow> OriginReconciliationJob \<Rightarrow> json \<Rightarrow> ('s origin_world, string, unit) eio" where
  "enqueueSyntheticUpdate S j object =
     (case synthetic_actor j object of
        None \<Rightarrow> io_return ()
      | Some actor \<Rightarrow>
          io_bind (odraw (os_uuid S)) (\<lambda>uuid.
          io_bind (oclock S) (\<lambda>verifiedAt.
          io_bind (odraw (os_uuid S)) (\<lambda>envelopeId.
          io_bind (oclock S) (\<lambda>receivedAt.
            let e = synthetic_envelope uuid envelopeId verifiedAt receivedAt j actor object
            in ocalled (\<lambda>r. OvInbound e (reply r \<noteq> None)) (os_inbound S e))))))"

definition same_fingerprint :: "OriginReconciliationJob \<Rightarrow> string \<Rightarrow> bool" where
  "same_fingerprint j fingerprint \<longleftrightarrow> (case or_lastFingerprint j of None \<Rightarrow> False | Some f \<Rightarrow> f \<noteq> [] \<and> f = fingerprint)"

definition apply_key :: "OriginReconciliationJob \<Rightarrow> string" where
  "apply_key j = (case or_canonicalObjectId j of Some i \<Rightarrow> if i \<noteq> [] then i else or_originObjectUrl j | None \<Rightarrow> or_originObjectUrl j)"

definition next_round :: "'s origin_services \<Rightarrow> OriginReconciliationJob \<Rightarrow> ('s origin_world, string, jsnum) eio" where
  "next_round S j = origin_now_plus S (\<lambda>k. Num (nextReconciliationDelayMs (js_add (or_attempt j) 1) k))"

text \<open>The job of the next round, after a change and without one.\<close>

definition changed_job :: "OriginReconciliationJob \<Rightarrow> string \<Rightarrow> jsnum \<Rightarrow> OriginReconciliationJob" where
  "changed_job j fingerprint due =
     j\<lparr>or_attempt := js_add (or_attempt j) 1, or_unchangedSuccesses := Num 0, or_notFoundCount := Num 0,
       or_lastFingerprint := Some fingerprint, or_notBeforeMs := due, or_lastError := Some []\<rparr>"

definition unchanged_job :: "OriginReconciliationJob \<Rightarrow> jsnum \<Rightarrow> OriginReconciliationJob" where
  "unchanged_job j due =
     j\<lparr>or_unchangedSuccesses := js_add (or_unchangedSuccesses j) 1, or_attempt := js_add (or_attempt j) 1,
       or_notBeforeMs := due, or_lastError := Some []\<rparr>"

text \<open>What is done while the slot of the origin is held.\<close>

definition reconcile ::
  "'s origin_services \<Rightarrow> origin_config \<Rightarrow> string \<Rightarrow> OriginReconciliationJob \<Rightarrow> ('s origin_world, string, unit) eio" where
  "reconcile S C messageId j =
     io_bind (fetchRemoteObject S C (or_originObjectUrl j)) (\<lambda>result.
       case result of
         Fetch_failed c _ e \<Rightarrow> handleFailedFetch S messageId j c e
       | Fetched object fingerprint \<Rightarrow>
           if same_fingerprint j fingerprint then
             (let unchangedSuccesses = js_add (or_unchangedSuccesses j) 1
              in if js_le (oc_maxUnchangedSuccesses C) unchangedSuccesses then o_ack S messageId
                 else io_bind (next_round S j) (\<lambda>due. rescheduleJob S messageId
                        (unchanged_job j due)))
           else
             io_bind (ocalled (\<lambda>r. OvApply (apply_key j) fingerprint (reply r))
                        (os_apply S (apply_key j) fingerprint (oc_applyIdempotencyTtlSeconds C))) (\<lambda>shouldApply.
             io_then (if shouldApply then enqueueSyntheticUpdate S j object else io_return ())
               (io_bind (next_round S j) (\<lambda>due. rescheduleJob S messageId
                  (changed_job j fingerprint due)))))"

definition origin_not_due :: "'s origin_services \<Rightarrow> OriginReconciliationJob \<Rightarrow> ('s origin_world, string, bool) eio" where
  "origin_not_due S j =
     (if \<not> js_lt (Num 0) (or_notBeforeMs j) then io_return False
      else io_bind (oclock S) (\<lambda>now. io_return (js_lt (Num now) (or_notBeforeMs j))))"

definition origin_resource :: "string \<Rightarrow> string" where
  "origin_resource originHost = ''origin-reconcile:'' @ originHost"

definition origin_admitted ::
  "'s origin_services \<Rightarrow> origin_config \<Rightarrow> string \<Rightarrow> OriginReconciliationJob \<Rightarrow> string \<Rightarrow> ('s origin_world, string, unit) eio" where
  "origin_admitted S C messageId j resource =
     io_bind (ocalled (\<lambda>r. OvRate (reply r)) (os_rate S resource (oc_perOriginBurstLimit C) (oc_perOriginBurstWindowSeconds C)))
       (\<lambda>rateAllowed.
     if \<not> rateAllowed then deferJob S messageId j 30000 ''rate_limited''
     else io_bind (ocalled (\<lambda>r. OvSlot (reply r)) (os_slot S resource (oc_perOriginConcurrency C))) (\<lambda>acquiredSlot.
       if \<not> acquiredSlot then deferJob S messageId j 15000 ''concurrency_limited''
       else io_finally (reconcile S C messageId j)
              (ocalled (\<lambda>r. OvRelease (reply r \<noteq> None)) (os_release S resource))))"

definition processOriginJob ::
  "'s origin_services \<Rightarrow> origin_config \<Rightarrow> string \<Rightarrow> OriginReconciliationJob \<Rightarrow> ('s origin_world, string, unit) eio" where
  "processOriginJob S C messageId j =
     io_then (oadd_active 1) (io_finally
       (case os_parse S (or_originObjectUrl j) of
          None \<Rightarrow> io_throw ''Invalid URL''
        | Some u \<Rightarrow>
            io_bind (origin_not_due S j) (\<lambda>later.
            if later then rescheduleJob S messageId j
            else io_bind (oclock S) (\<lambda>now.
              if js_le (or_windowExpiresAt j) (Num now) \<or> js_le (or_maxAttempts j) (or_attempt j) then o_ack S messageId
              else origin_admitted S C messageId j (origin_resource (u_host u)))))
       (oadd_active (- 1)))"

end
