(* ===== verification/Origin_Protocol.thy ===== *)
theory Origin_Protocol
  imports Protocol_Runs Origin_Worker
begin

text \<open>
  What the origin-reconciliation worker promises about one job, as a state machine over the calls it makes.
  \<open>Origin_Properties\<close> shows that every run of \<open>processOriginJob\<close> follows it.
\<close>

record origin_progress =
  op_now :: "int option"
  op_due :: bool
  op_window :: bool
  op_rate :: "bool option"
  op_slot :: "bool option"
  op_requests :: nat
  op_last :: "origin_response option"
  op_body :: "json option"
  op_applied :: "bool option"
  op_sent :: bool
  op_acked :: bool
  op_handed :: bool
  op_failed :: bool
  op_released :: bool

definition origin_start :: origin_progress where
  "origin_start = \<lparr>op_now = None, op_due = False, op_window = False, op_rate = None, op_slot = None, op_requests = 0,
     op_last = None, op_body = None, op_applied = None, op_sent = False, op_acked = False, op_handed = False,
     op_failed = False, op_released = False\<rparr>"

text \<open>The object a response carries.\<close>

definition carried_object :: "'s origin_services \<Rightarrow> origin_response \<Rightarrow> json option" where
  "carried_object S r = (case read_response S False r of Inr (Some (Fetched b _)) \<Rightarrow> Some b | _ \<Rightarrow> None)"

definition gave_class :: "'s origin_services \<Rightarrow> origin_progress \<Rightarrow> fetch_class \<Rightarrow> bool" where
  "gave_class S s c \<longleftrightarrow> (\<exists>r st e. op_last s = Some r \<and> read_response S False r = Inr (Some (Fetch_failed c st e)))"

definition origin_fp :: "'s origin_services \<Rightarrow> json \<Rightarrow> string" where
  "origin_fp S b = fingerprintJsonObject (os_sha256 S) b"

text \<open>The job is still on the stream, pending, and nothing has failed.\<close>

definition origin_working :: "origin_progress \<Rightarrow> bool" where
  "origin_working s \<longleftrightarrow> \<not> op_failed s \<and> \<not> op_acked s \<and> \<not> op_released s"

definition origin_holding :: "origin_progress \<Rightarrow> bool" where
  "origin_holding s \<longleftrightarrow> origin_working s \<and> op_slot s = Some True"

definition attempts_left :: "OriginReconciliationJob \<Rightarrow> bool" where
  "attempts_left j \<longleftrightarrow> \<not> js_le (or_maxAttempts j) (or_attempt j)"

text \<open>A change is passed on before the job goes on: the fingerprint was claimed and, if it was claimed first and there is an actor, sent.\<close>

definition change_passed :: "'s origin_services \<Rightarrow> OriginReconciliationJob \<Rightarrow> origin_progress \<Rightarrow> bool" where
  "change_passed S j s \<longleftrightarrow>
     (case op_body s of
        None \<Rightarrow> True
      | Some b \<Rightarrow> same_fingerprint j (origin_fp S b) \<or> op_applied s = Some False \<or>
                  (op_applied s = Some True \<and> (op_sent s \<or> synthetic_actor j b = None)))"

text \<open>The job of the next round.\<close>

inductive origin_successor ::
  "'s origin_services \<Rightarrow> origin_config \<Rightarrow> OriginReconciliationJob \<Rightarrow> origin_progress \<Rightarrow> OriginReconciliationJob \<Rightarrow> bool"
  for S C j s where
  early: "op_rate s = None \<Longrightarrow> op_now s = Some t \<Longrightarrow> js_lt (Num t) (or_notBeforeMs j) \<Longrightarrow> origin_successor S C j s j"
| limited: "op_rate s = Some False \<Longrightarrow> op_now s = Some t \<Longrightarrow>
    origin_successor S C j s (j\<lparr>or_notBeforeMs := Num (t + 30000), or_lastError := Some ''rate_limited''\<rparr>)"
| crowded: "op_slot s = Some False \<Longrightarrow> op_now s = Some t \<Longrightarrow>
    origin_successor S C j s (j\<lparr>or_notBeforeMs := Num (t + 15000), or_lastError := Some ''concurrency_limited''\<rparr>)"
| transient: "op_slot s = Some True \<Longrightarrow> op_body s = None \<Longrightarrow> op_now s = Some t \<Longrightarrow>
    origin_successor S C j s (j\<lparr>or_attempt := js_add (or_attempt j) 1,
      or_notBeforeMs := js_add (nextTransientDelayMs (js_add (or_attempt j) 1) k) t, or_lastError := Some e\<rparr>)"
| missing: "op_slot s = Some True \<Longrightarrow> gave_class S s Not_found \<Longrightarrow> op_now s = Some t \<Longrightarrow> js_lt (js_add (or_notFoundCount j) 1) (Num 2) \<Longrightarrow>
    origin_successor S C j s (j\<lparr>or_attempt := js_add (or_attempt j) 1, or_notFoundCount := js_add (or_notFoundCount j) 1,
      or_notBeforeMs := Num (t + 120000), or_lastError := Some ''not_found''\<rparr>)"
| unchanged: "op_slot s = Some True \<Longrightarrow> op_body s = Some b \<Longrightarrow> same_fingerprint j (origin_fp S b) \<Longrightarrow> op_now s = Some t \<Longrightarrow>
    \<not> js_le (oc_maxUnchangedSuccesses C) (js_add (or_unchangedSuccesses j) 1) \<Longrightarrow>
    origin_successor S C j s (unchanged_job j (Num (nextReconciliationDelayMs (js_add (or_attempt j) 1) k + t)))"
| changed: "op_slot s = Some True \<Longrightarrow> op_body s = Some b \<Longrightarrow> \<not> same_fingerprint j (origin_fp S b) \<Longrightarrow> op_now s = Some t \<Longrightarrow>
    origin_successor S C j s (changed_job j (origin_fp S b) (Num (nextReconciliationDelayMs (js_add (or_attempt j) 1) k + t)))"

text \<open>When a job is dropped: its entry is acknowledged and no job follows.\<close>

definition origin_dropped :: "'s origin_services \<Rightarrow> origin_config \<Rightarrow> OriginReconciliationJob \<Rightarrow> origin_progress \<Rightarrow> bool" where
  "origin_dropped S C j s \<longleftrightarrow>
     (op_rate s = None \<and> (\<not> attempts_left j \<or> (\<exists>t. op_now s = Some t \<and> js_le (or_windowExpiresAt j) (Num t)))) \<or>
     (op_slot s = Some True \<and>
       (gave_class S s Gone_away \<or> gave_class S s Not_found \<or>
        (\<exists>b. op_body s = Some b \<and> same_fingerprint j (origin_fp S b) \<and>
          js_le (oc_maxUnchangedSuccesses C) (js_add (or_unchangedSuccesses j) 1))))"

inductive origin_step ::
  "'s origin_services \<Rightarrow> origin_config \<Rightarrow> OriginReconciliationJob \<Rightarrow> origin_progress \<Rightarrow> origin_event \<Rightarrow> origin_progress \<Rightarrow> bool"
  for S C j where
  time: "origin_working s \<Longrightarrow> origin_step S C j s (OvTime t)
    (s\<lparr>op_now := Some t, op_due := op_due s \<or> \<not> js_lt (Num t) (or_notBeforeMs j),
       op_window := op_window s \<or> \<not> js_le (or_windowExpiresAt j) (Num t)\<rparr>)"
| rate: "origin_working s \<Longrightarrow> op_rate s = None \<Longrightarrow> op_window s \<Longrightarrow> attempts_left j \<Longrightarrow>
    op_due s \<or> \<not> js_lt (Num 0) (or_notBeforeMs j) \<Longrightarrow> origin_step S C j s (OvRate r) (s\<lparr>op_rate := r, op_failed := r = None\<rparr>)"
| slot: "origin_working s \<Longrightarrow> op_rate s = Some True \<Longrightarrow> op_slot s = None \<Longrightarrow>
    origin_step S C j s (OvSlot r) (s\<lparr>op_slot := r, op_failed := r = None\<rparr>)"
| sign: "origin_holding s \<Longrightarrow> op_body s = None \<Longrightarrow> isAllowedRemoteFetchUrl (os_parse S) (or_originObjectUrl j) \<Longrightarrow>
    origin_step S C j s (OvSign b) s"
| request: "origin_holding s \<Longrightarrow> op_body s = None \<Longrightarrow> isAllowedRemoteFetchUrl (os_parse S) (or_originObjectUrl j) \<Longrightarrow>
    oq_url q = or_originObjectUrl j \<Longrightarrow> op_requests s < fetch_budget C \<Longrightarrow>
    origin_step S C j s (OvRequest q r)
      (s\<lparr>op_requests := op_requests s + 1, op_last := r, op_body := (case r of None \<Rightarrow> None | Some a \<Rightarrow> carried_object S a)\<rparr>)"
| claim: "origin_holding s \<Longrightarrow> op_body s = Some b \<Longrightarrow> \<not> same_fingerprint j (origin_fp S b) \<Longrightarrow> op_applied s = None \<Longrightarrow>
    origin_step S C j s (OvApply (apply_key j) (origin_fp S b) r) (s\<lparr>op_applied := r, op_failed := r = None\<rparr>)"
| inbound: "origin_holding s \<Longrightarrow> op_body s = Some b \<Longrightarrow> op_applied s = Some True \<Longrightarrow> \<not> op_sent s \<Longrightarrow>
    synthetic_actor j b = Some actor \<Longrightarrow> e = synthetic_envelope uuid envelopeId verifiedAt receivedAt j actor b \<Longrightarrow>
    origin_step S C j s (OvInbound e r) (s\<lparr>op_sent := True, op_failed := \<not> r\<rparr>)"
| ack: "origin_working s \<Longrightarrow> change_passed S j s \<Longrightarrow> origin_step S C j s (OvAck r) (s\<lparr>op_acked := r, op_failed := \<not> r\<rparr>)"
| requeue: "op_acked s \<Longrightarrow> \<not> op_handed s \<Longrightarrow> \<not> op_failed s \<Longrightarrow> \<not> op_released s \<Longrightarrow> origin_successor S C j s j' \<Longrightarrow>
    origin_step S C j s (OvRequeue j' r) (s\<lparr>op_handed := r, op_failed := \<not> r\<rparr>)"
| dead_letter: "op_acked s \<Longrightarrow> \<not> op_handed s \<Longrightarrow> \<not> op_failed s \<Longrightarrow> \<not> op_released s \<Longrightarrow> op_slot s = Some True \<Longrightarrow> op_body s = None \<Longrightarrow>
    j' = j\<lparr>or_attempt := js_add (or_attempt j) 1, or_lastError := Some reason\<rparr> \<Longrightarrow>
    origin_step S C j s (OvDlq j' reason r) (s\<lparr>op_handed := r, op_failed := \<not> r\<rparr>)"
| release: "op_slot s = Some True \<Longrightarrow> \<not> op_released s \<Longrightarrow>
    origin_step S C j s (OvRelease r) (s\<lparr>op_released := True\<rparr>)"

inductive_simps origin_step_simps [simp]:
  "origin_step S C j s (OvTime t) s'"
  "origin_step S C j s (OvRate r) s'"
  "origin_step S C j s (OvSlot a) s'"
  "origin_step S C j s (OvSign b) s'"
  "origin_step S C j s (OvRequest q a) s'"
  "origin_step S C j s (OvApply k f a) s'"
  "origin_step S C j s (OvInbound e b) s'"
  "origin_step S C j s (OvAck b) s'"
  "origin_step S C j s (OvRequeue j' b) s'"
  "origin_step S C j s (OvDlq j' reason b) s'"
  "origin_step S C j s (OvRelease b) s'"

definition origin_protocol ::
  "'s origin_services \<Rightarrow> origin_config \<Rightarrow> OriginReconciliationJob \<Rightarrow> ('s origin_world, origin_event, origin_progress, int) protocol" where
  "origin_protocol S C j =
     \<lparr>pt_step = origin_step S C j, pt_start = origin_start, pt_trace = ow_trace, pt_view = ow_active\<rparr>"

lemma origin_protocol_simps [simp]:
  "pt_step (origin_protocol S C j) = origin_step S C j"
  "pt_start (origin_protocol S C j) = origin_start"
  "pt_trace (origin_protocol S C j) = ow_trace"
  "pt_view (origin_protocol S C j) = ow_active"
  by (simp_all add: origin_protocol_def)

end
