(* ===== verification/Origin_Properties.thy ===== *)
theory Origin_Properties
  imports Origin_Protocol
begin

text \<open>
  The origin-reconciliation worker follows the protocol of \<open>Origin_Protocol\<close>.
\<close>

section \<open>The calls\<close>

lemma run_ocalled [run_rules]:
  fixes m :: "('s, string, 'a) eio" and S :: "'s origin_services"
  assumes "\<And>a. \<exists>s'. origin_step S C j s (ev (Inr a)) s' \<and> Q a s' v"
    and "\<And>e e'. \<exists>s'. origin_step S C j s (ev (Inl e')) s' \<and> E e s' v"
  shows "runs (origin_protocol S C j) (ocalled ev m) Q E s v"
proof (rule run_call [where ev = ev])
  show "makes_call (origin_protocol S C j) ev (ocalled ev m)"
    unfolding makes_call_def
  proof
    fix w :: "'s origin_world"
    obtain r t where "m (ow_srv w) = (r, t)" by fastforce
    then show "case ocalled ev m w of (r, w') \<Rightarrow> pt_view (origin_protocol S C j) w' = pt_view (origin_protocol S C j) w \<and>
        ((\<exists>a. r = Inr a \<and> pt_trace (origin_protocol S C j) w' = ev (Inr a) # pt_trace (origin_protocol S C j) w) \<or>
         (\<exists>e e'. r = Inl e \<and> pt_trace (origin_protocol S C j) w' = ev (Inl e') # pt_trace (origin_protocol S C j) w))"
      by (cases r) (auto simp: ocalled_def)
  qed
qed (use assms in auto)

definition origin_tick :: "OriginReconciliationJob \<Rightarrow> int \<Rightarrow> origin_progress \<Rightarrow> origin_progress" where
  "origin_tick j t s = s\<lparr>op_now := Some t, op_due := op_due s \<or> \<not> js_lt (Num t) (or_notBeforeMs j),
     op_window := op_window s \<or> \<not> js_le (or_windowExpiresAt j) (Num t)\<rparr>"

lemma run_oclock [run_rules]:
  assumes "\<And>t. Q t (origin_tick j t s) v" and "origin_working s"
  shows "runs (origin_protocol S C j) (oclock T) Q E s v"
proof (rule runsI)
  fix w assume w: "leads (origin_protocol S C j) (pt_trace (origin_protocol S C j) w) s" "pt_view (origin_protocol S C j) w = v"
  have "leads (origin_protocol S C j) (OvTime t # ow_trace w) (origin_tick j t s)" for t
    by (rule leads.event) (use w assms(2) in \<open>simp_all add: origin_tick_def\<close>)
  with assms(1) w show "wp (oclock T) (\<lambda>a. arrives (origin_protocol S C j) (Q a)) (\<lambda>e. arrives (origin_protocol S C j) (E e)) w"
    by (cases "os_now T (ow_srv w)") (auto simp: wp_def oclock_def intro!: arrivesI)
qed

lemma run_odraw [run_rules]:
  assumes "\<And>a. Q a s v"
  shows "runs (origin_protocol S C j) (odraw f) Q E s v"
proof (rule runsI)
  fix w assume w: "leads (origin_protocol S C j) (pt_trace (origin_protocol S C j) w) s" "pt_view (origin_protocol S C j) w = v"
  then show "wp (odraw f) (\<lambda>a. arrives (origin_protocol S C j) (Q a)) (\<lambda>e. arrives (origin_protocol S C j) (E e)) w"
    using assms by (cases "f (ow_srv w)") (auto simp: wp_def odraw_def intro!: arrivesI)
qed

lemma run_oadd_active [run_rules]: "Q () s (v + d) \<Longrightarrow> runs (origin_protocol S C j) (oadd_active d) Q E s v"
  unfolding oadd_active_def by (rule run_local [where h = "\<lambda>v. v + d"]) auto

lemma run_osum [run_rules]:
  "(\<And>a. x = Inr a \<Longrightarrow> Q a s v) \<Longrightarrow> (\<And>e. x = Inl e \<Longrightarrow> E e s v) \<Longrightarrow> runs P (osum x) Q E s v"
  by (auto simp: osum_def split: sum.split intro: run_return run_throw)

lemma reply_simps [simp]: "reply (Inl e) = None" "reply (Inr a) = Some a"
  by (simp_all add: reply_def)

section \<open>Fetching\<close>

definition gives :: "'s origin_services \<Rightarrow> origin_progress \<Rightarrow> fetch_result \<Rightarrow> bool" where
  "gives S s result \<longleftrightarrow>
     (case result of
        Fetched b fp \<Rightarrow> op_body s = Some b \<and> fp = origin_fp S b
      | Fetch_failed c _ _ \<Rightarrow> op_body s = None \<and> (c \<in> {Gone_away, Not_found} \<longrightarrow> gave_class S s c))"

lemma read_fetched: "read_response S again r = Inr (Some (Fetched b fp)) \<Longrightarrow> carried_object S r = Some b \<and> fp = origin_fp S b"
  by (auto simp: read_response_def carried_object_def origin_fp_def Let_def split: if_splits option.splits sum.splits)

lemma read_failed:
  "read_response S again r = Inr (Some (Fetch_failed c st e)) \<Longrightarrow>
    carried_object S r = None \<and> (c \<in> {Gone_away, Not_found} \<longrightarrow> read_response S False r = Inr (Some (Fetch_failed c st e)))"
  by (auto simp: read_response_def carried_object_def Let_def split: if_splits option.splits sum.splits)

lemma read_again: "read_response S again r = Inr None \<Longrightarrow> again \<and> carried_object S r = None"
  by (auto simp: read_response_def carried_object_def Let_def split: if_splits option.splits sum.splits)

lemma read_error: "read_response S again r = Inl e \<Longrightarrow> carried_object S r = None"
  by (auto simp: read_response_def carried_object_def Let_def split: if_splits option.splits sum.splits)

text \<open>What fetching changes: at most \<open>n\<close> requests more, and what they gave.\<close>

definition fetched_from :: "nat \<Rightarrow> origin_progress \<Rightarrow> origin_progress \<Rightarrow> bool" where
  "fetched_from n s s' \<longleftrightarrow> (\<exists>m l b. s' = s\<lparr>op_requests := m, op_last := l, op_body := b\<rparr> \<and> m \<le> op_requests s + n)"

lemma fetched_from_refl: "fetched_from n s s"
  unfolding fetched_from_def by (rule exI [of _ "op_requests s"], rule exI [of _ "op_last s"], rule exI [of _ "op_body s"]) simp

lemma fetched_from_trans: "fetched_from m s t \<Longrightarrow> fetched_from n t u \<Longrightarrow> fetched_from (m + n) s u"
  unfolding fetched_from_def by fastforce

lemma fetched_from_holding: "fetched_from n s s' \<Longrightarrow> origin_holding s' = origin_holding s"
  by (auto simp: fetched_from_def origin_holding_def origin_working_def)

lemma fetched_from_mono: "fetched_from m s s' \<Longrightarrow> m \<le> n \<Longrightarrow> fetched_from n s s'"
  unfolding fetched_from_def by fastforce

definition once_post :: "'s origin_services \<Rightarrow> bool \<Rightarrow> origin_progress \<Rightarrow> 'v \<Rightarrow> fetch_result option \<Rightarrow> origin_progress \<Rightarrow> 'v \<Rightarrow> bool" where
  "once_post S again s v r s' v' \<longleftrightarrow> v' = v \<and> fetched_from 1 s s' \<and>
     (case r of None \<Rightarrow> again \<and> op_body s' = None | Some result \<Rightarrow> gives S s' result)"

definition once_error :: "origin_progress \<Rightarrow> 'v \<Rightarrow> origin_progress \<Rightarrow> 'v \<Rightarrow> bool" where
  "once_error s v s' v' \<longleftrightarrow> v' = v \<and> fetched_from 1 s s' \<and> op_body s' = None"

lemma run_fetch_once:
  assumes "origin_holding s" and "op_body s = None" and "op_requests s < fetch_budget C"
    and "isAllowedRemoteFetchUrl (os_parse S) (or_originObjectUrl j)"
  shows "runs (origin_protocol S C j) (fetch_once S C (or_originObjectUrl j) again) (once_post S again s v) (\<lambda>_. once_error s v) s v"
proof -
  let ?P = "origin_protocol S C j" and ?u = "or_originObjectUrl j"
  have keep: "once_error s v s v" using assms(2) by (simp add: once_error_def fetched_from_refl)
  have refused: "once_post S again s v (Some (Fetch_failed Permanent None m)) s v" for m
    using assms(2) by (simp add: once_post_def gives_def fetched_from_refl)
  define s1 where "s1 r = s\<lparr>op_requests := op_requests s + 1, op_last := Some r, op_body := carried_object S r\<rparr>" for r
  have f1: "fetched_from 1 s (s1 r)" for r unfolding fetched_from_def s1_def by fastforce
  have b1: "op_body (s1 r) = carried_object S r" "op_last (s1 r) = Some r" for r by (simp_all add: s1_def)
  have read: "runs ?P (osum (read_response S again r)) (once_post S again s v) (\<lambda>_. once_error s v) (s1 r) v" for r
  proof (rule run_osum)
    fix a assume a: "read_response S again r = Inr a"
    show "once_post S again s v a (s1 r) v"
    proof (cases a)
      case None
      with a read_again [of S again r] f1 show ?thesis by (simp add: once_post_def b1)
    next
      case (Some result)
      have "gives S (s1 r) result"
      proof (cases result)
        case (Fetched b fp)
        with a Some read_fetched [of S again r b fp] show ?thesis by (simp add: gives_def b1)
      next
        case (Fetch_failed c st e)
        with a Some read_failed [of S again r c st e] show ?thesis by (auto simp: gives_def b1 gave_class_def)
      qed
      with Some f1 show ?thesis by (simp add: once_post_def)
    qed
  next
    fix e assume "read_response S again r = Inl e"
    with read_error [of S again r e] f1 show "once_error s v (s1 r) v" by (simp add: once_error_def b1)
  qed
  have req: "runs ?P (io_bind (ocalled (\<lambda>r. OvRequest q (reply r)) (os_request S q)) (\<lambda>response. osum (read_response S again response)))
      (once_post S again s v) (\<lambda>_. once_error s v) s v" if "oq_url q = ?u" for q
  proof (rule run_bind, rule run_ocalled)
    fix a
    have "origin_step S C j s (OvRequest q (reply (Inr a))) (s1 a)" using that assms by (simp add: s1_def)
    with read show "\<exists>s'. origin_step S C j s (OvRequest q (reply (Inr a))) s' \<and>
        runs ?P (osum (read_response S again a)) (once_post S again s v) (\<lambda>_. once_error s v) s' v" by blast
  next
    fix e e'
    let ?s = "s\<lparr>op_requests := op_requests s + 1, op_last := None, op_body := None\<rparr>"
    have "fetched_from 1 s ?s" unfolding fetched_from_def by fastforce
    moreover have "origin_step S C j s (OvRequest q (reply (Inl e'))) ?s" using that assms by simp
    ultimately show "\<exists>s'. origin_step S C j s (OvRequest q (reply (Inl e'))) s' \<and> once_error s v s' v"
      by (intro exI [of _ ?s]) (simp add: once_error_def)
  qed
  have built: "oq_url q = ?u" if "origin_request_for S C ?u d g = Inr q" for d g q
    using that by (auto simp: origin_request_for_def split: option.splits)
  show ?thesis
    unfolding fetch_once_def
  proof (rule run_bind, rule run_ocalled)
    fix a :: "string + string \<times> string"
    have "runs ?P (case a of Inl message \<Rightarrow> io_return (Some (Fetch_failed Permanent None (Some message)))
       | Inr (date, signature) \<Rightarrow> io_bind (osum (origin_request_for S C ?u date signature)) (\<lambda>q.
           io_bind (ocalled (\<lambda>r. OvRequest q (reply r)) (os_request S q)) (\<lambda>response. osum (read_response S again response))))
       (once_post S again s v) (\<lambda>_. once_error s v) s v"
      by (auto split: sum.split prod.split intro!: run_return refused run_bind run_osum req keep built)
    with assms show "\<exists>s'. origin_step S C j s (OvSign (reply (Inr a) \<noteq> None)) s' \<and> runs ?P (case a of Inl message \<Rightarrow> io_return (Some (Fetch_failed Permanent None (Some message)))
       | Inr (date, signature) \<Rightarrow> io_bind (osum (origin_request_for S C ?u date signature)) (\<lambda>q.
           io_bind (ocalled (\<lambda>r. OvRequest q (reply r)) (os_request S q)) (\<lambda>response. osum (read_response S again response))))
       (once_post S again s v) (\<lambda>_. once_error s v) s' v" by auto
  qed (use assms keep in auto)
qed

lemma run_fetch_attempts:
  assumes "origin_holding s" and "op_body s = None" and "op_requests s + left \<le> fetch_budget C"
    and allowed: "isAllowedRemoteFetchUrl (os_parse S) (or_originObjectUrl j)"
  shows "runs (origin_protocol S C j) (fetch_attempts S C (or_originObjectUrl j) n left)
    (\<lambda>r s' v'. v' = v \<and> fetched_from left s s' \<and> gives S s' r) E s v"
  using assms(1-3)
proof (induction left arbitrary: n s)
  case 0
  then show ?case by (auto intro!: run_return simp: gives_def fetched_from_refl)
next
  case (Suc left)
  let ?P = "origin_protocol S C j" and ?u = "or_originObjectUrl j"
  let ?Q = "\<lambda>r s' v'. v' = v \<and> fetched_from (Suc left) s s' \<and> gives S s' r"
  let ?R = "\<lambda>r. case r of Some result \<Rightarrow> io_return result
        | None \<Rightarrow> io_then (retry_delay S C n) (fetch_attempts S C ?u (Suc n) left)"
  have again: "runs ?P (?R None) ?Q E s' v" if f: "fetched_from 1 s s'" "op_body s' = None" for s'
  proof -
    have "op_requests s' \<le> op_requests s + 1" using f(1) by (auto simp: fetched_from_def)
    then have *: "origin_holding s'" "op_requests s' + left \<le> fetch_budget C"
      using Suc.prems(1,3) fetched_from_holding [OF f(1)] by auto
    have "runs ?P (fetch_attempts S C ?u (Suc n) left) ?Q E s' v"
      by (rule run_mono [OF Suc.IH [OF *(1) f(2) *(2)]]) (use fetched_from_trans [OF f(1)] in auto)
    then show ?thesis unfolding retry_delay_def option.case by (intro run_then run_bind run_odraw)
  qed
  have post: "runs ?P (?R r) ?Q E s' v'" if "once_post S (left > 0) s v r s' v'" for r s' v'
  proof (cases r)
    case None
    with that have "v' = v" "fetched_from 1 s s'" "op_body s' = None" by (simp_all add: once_post_def)
    with None again [of s'] show ?thesis by simp
  next
    case (Some result)
    with that have "v' = v" "gives S s' result" "fetched_from (Suc left) s s'"
      using fetched_from_mono [of 1 s s' "Suc left"] by (simp_all add: once_post_def)
    with Some show ?thesis by (simp add: run_return)
  qed
  have handler: "runs ?P (io_return (if left > 0 then None else Some (Fetch_failed Transient None (Some t)))) (\<lambda>r. runs ?P (?R r) ?Q E) E s' v'"
    if "once_error s v s' v'" for s' v' t
  proof (rule run_return, cases "left > 0")
    case True
    from that have "v' = v" "fetched_from 1 s s'" "op_body s' = None" by (simp_all add: once_error_def)
    with True again [of s'] show "runs ?P (?R (if left > 0 then None else Some (Fetch_failed Transient None (Some t)))) ?Q E s' v'"
      by simp
  next
    case False
    with that have "v' = v" "gives S s' (Fetch_failed Transient None (Some t))" "fetched_from (Suc left) s s'"
      using fetched_from_mono [of 1 s s' "Suc left"] by (simp_all add: once_error_def gives_def)
    with False show "runs ?P (?R (if left > 0 then None else Some (Fetch_failed Transient None (Some t)))) ?Q E s' v'"
      by (simp add: run_return)
  qed
  have once: "op_requests s < fetch_budget C" using Suc.prems(3) by simp
  show ?case
    unfolding fetch_attempts.simps
    by (rule run_bind, rule run_catch, rule run_mono [OF run_fetch_once [OF Suc.prems(1,2) once allowed]])
       (use post handler in blast)+
qed

lemma run_fetch:
  assumes "origin_holding s" and "op_body s = None" and "op_requests s = 0"
  shows "runs (origin_protocol S C j) (fetchRemoteObject S C (or_originObjectUrl j))
    (\<lambda>r s' v'. v' = v \<and> fetched_from (fetch_budget C) s s' \<and> gives S s' r) E s v"
  unfolding fetchRemoteObject_def
proof (rule run_if)
  assume "\<not> \<not> isAllowedRemoteFetchUrl (os_parse S) (or_originObjectUrl j)"
  then show "runs (origin_protocol S C j) (fetch_attempts S C (or_originObjectUrl j) 0 (fetch_budget C))
      (\<lambda>r s' v'. v' = v \<and> fetched_from (fetch_budget C) s s' \<and> gives S s' r) E s v"
    by (intro run_fetch_attempts) (use assms in simp_all)
qed (rule run_return, use assms in \<open>simp add: gives_def fetched_from_refl\<close>)

section \<open>Handing on\<close>

lemma successor_cong:
  assumes "origin_successor S C j s j'" and "op_rate s' = op_rate s" and "op_now s' = op_now s" and "op_slot s' = op_slot s"
    and "op_body s' = op_body s" and "op_last s' = op_last s"
  shows "origin_successor S C j s' j'"
  using assms(1)
proof (cases rule: origin_successor.cases)
  case missing
  have "gave_class S s' Not_found" using missing assms(6) by (simp add: gave_class_def)
  with missing assms show ?thesis by (auto intro: origin_successor.intros)
qed (use assms in \<open>auto intro: origin_successor.intros\<close>)

definition ended :: "origin_progress \<Rightarrow> bool \<Rightarrow> bool \<Rightarrow> bool \<Rightarrow> origin_progress \<Rightarrow> bool" where
  "ended s acked handed failed s' \<longleftrightarrow> s' = s\<lparr>op_acked := acked, op_handed := handed, op_failed := failed\<rparr>"

lemma run_ack:
  assumes "origin_working s" and "change_passed S j s"
  shows "runs (origin_protocol S C j) (o_ack S m)
    (\<lambda>_ s' v'. v' = v \<and> ended s True (op_handed s) False s') (\<lambda>_ s' v'. v' = v \<and> ended s False (op_handed s) True s') s v"
  unfolding o_ack_def by (rule run_ocalled) (use assms in \<open>simp_all add: ended_def\<close>)

lemma run_reschedule:
  assumes "origin_working s" and "change_passed S j s" and "\<not> op_handed s" and "origin_successor S C j s j'"
  shows "runs (origin_protocol S C j) (rescheduleJob S m j')
    (\<lambda>_ s' v'. v' = v \<and> ended s True True False s') (\<lambda>_ s' v'. v' = v \<and> (\<exists>a. ended s a False True s')) s v"
proof -
  let ?s = "s\<lparr>op_acked := True, op_handed := op_handed s, op_failed := False\<rparr>"
  have next_job: "origin_successor S C j ?s j'" by (rule successor_cong [OF assms(4)]) simp_all
  have "runs (origin_protocol S C j) (o_enqueue S j')
      (\<lambda>_ s' v'. v' = v \<and> ended s True True False s') (\<lambda>_ s' v'. v' = v \<and> (\<exists>a. ended s a False True s')) ?s v"
    unfolding o_enqueue_def
    by (rule run_then, rule run_ocalled)
       (use next_job assms in \<open>auto simp: origin_working_def ended_def intro!: run_return\<close>)
  then show ?thesis
    unfolding rescheduleJob_def
    by (intro run_then) (rule run_mono [OF run_ack [OF assms(1,2)]], use assms(3) in \<open>auto simp: ended_def\<close>)
qed

definition finished_job :: "'s origin_services \<Rightarrow> origin_config \<Rightarrow> OriginReconciliationJob \<Rightarrow> origin_progress \<Rightarrow> bool" where
  "finished_job S C j s \<longleftrightarrow> op_acked s \<and> \<not> op_failed s \<and> (op_handed s \<or> origin_dropped S C j s)"

text \<open>Where the work inside the slot ends.\<close>

definition slot_ok :: "'s origin_services \<Rightarrow> origin_config \<Rightarrow> OriginReconciliationJob \<Rightarrow> 'v \<Rightarrow> origin_progress \<Rightarrow> 'v \<Rightarrow> bool" where
  "slot_ok S C j v s v' \<longleftrightarrow> v' = v \<and> finished_job S C j s \<and> op_slot s = Some True \<and> \<not> op_released s"

definition slot_bad :: "'v \<Rightarrow> origin_progress \<Rightarrow> 'v \<Rightarrow> bool" where
  "slot_bad v s v' \<longleftrightarrow> v' = v \<and> op_failed s \<and> op_slot s = Some True \<and> \<not> op_released s"

lemma dropped_cong:
  assumes "op_rate s' = op_rate s" and "op_now s' = op_now s" and "op_slot s' = op_slot s" and "op_body s' = op_body s"
    and "op_last s' = op_last s"
  shows "origin_dropped S C j s' = origin_dropped S C j s"
  using assms by (simp add: origin_dropped_def gave_class_def)

lemma ended_simps:
  assumes "ended s a h f s'"
  shows "op_rate s' = op_rate s" "op_now s' = op_now s" "op_slot s' = op_slot s" "op_body s' = op_body s" "op_last s' = op_last s"
    "op_released s' = op_released s" "op_acked s' = a" "op_handed s' = h" "op_failed s' = f"
  using assms by (simp_all add: ended_def)

lemma run_reschedule_slot:
  assumes "origin_holding s" and "change_passed S j s" and "\<not> op_handed s" and "origin_successor S C j s j'"
  shows "runs (origin_protocol S C j) (rescheduleJob S m j') (\<lambda>_. slot_ok S C j v) (\<lambda>_. slot_bad v) s v"
proof -
  have w: "origin_working s" "op_slot s = Some True" using assms(1) by (simp_all add: origin_holding_def)
  show ?thesis
    by (rule run_mono [OF run_reschedule [OF w(1) assms(2-4)]])
       (use w in \<open>auto simp: slot_ok_def slot_bad_def finished_job_def origin_working_def dest: ended_simps\<close>)
qed

lemma run_drop_slot:
  assumes "origin_holding s" and "change_passed S j s" and "origin_dropped S C j s"
  shows "runs (origin_protocol S C j) (o_ack S m) (\<lambda>_. slot_ok S C j v) (\<lambda>_. slot_bad v) s v"
proof -
  have w: "origin_working s" "op_slot s = Some True" using assms(1) by (simp_all add: origin_holding_def)
  have "origin_dropped S C j s'" if "ended s a h f s'" for a h f s'
    using dropped_cong [of s' s S C j] ended_simps [OF that] assms(3) by blast
  then show ?thesis
    by (intro run_mono [OF run_ack [OF w(1) assms(2)]])
       (use w in \<open>auto simp: slot_ok_def slot_bad_def finished_job_def origin_working_def dest: ended_simps\<close>)
qed

lemma tick_simps [simp]:
  "origin_holding (origin_tick j t s) = origin_holding s" "origin_working (origin_tick j t s) = origin_working s"
  "op_now (origin_tick j t s) = Some t" "op_rate (origin_tick j t s) = op_rate s"
  "op_slot (origin_tick j t s) = op_slot s" "op_body (origin_tick j t s) = op_body s" "op_last (origin_tick j t s) = op_last s"
  "op_handed (origin_tick j t s) = op_handed s" "op_applied (origin_tick j t s) = op_applied s" "op_sent (origin_tick j t s) = op_sent s"
  "op_requests (origin_tick j t s) = op_requests s" "op_released (origin_tick j t s) = op_released s" "op_failed (origin_tick j t s) = op_failed s"
  "op_acked (origin_tick j t s) = op_acked s"
  "change_passed S i (origin_tick j t s) = change_passed S i s" "gave_class S (origin_tick j t s) c = gave_class S s c"
  by (simp_all add: origin_tick_def origin_holding_def origin_working_def change_passed_def gave_class_def split: option.split)

lemma holding_working: "origin_holding s \<Longrightarrow> origin_working s \<and> op_slot s = Some True"
  by (simp add: origin_holding_def)

lemma run_now_plus:
  assumes "origin_working s" and "\<And>t k. Q (js_add (f k) t) (origin_tick j t s) v"
  shows "runs (origin_protocol S C j) (origin_now_plus S f) Q E s v"
  unfolding origin_now_plus_def by (intro run_bind run_oclock run_odraw run_return assms)

lemma run_failed_fetch:
  assumes "origin_holding s" and "op_body s = None" and "\<not> op_handed s"
    and gave: "c \<in> {Gone_away, Not_found} \<Longrightarrow> gave_class S s c"
  shows "runs (origin_protocol S C j) (handleFailedFetch S m j c e) (\<lambda>_. slot_ok S C j v) (\<lambda>_. slot_bad v) s v"
proof -
  let ?P = "origin_protocol S C j"
  note w = holding_working [OF assms(1)]
  have pass: "change_passed S j s'" if "op_body s' = None" for s' using that by (simp add: change_passed_def)
  have dlq: "runs ?P (io_then (o_ack S m) (ocalled (\<lambda>r. OvDlq (j\<lparr>or_attempt := js_add (or_attempt j) 1, or_lastError := Some reason\<rparr>)
      reason (reply r \<noteq> None)) (os_dlq S (j\<lparr>or_attempt := js_add (or_attempt j) 1, or_lastError := Some reason\<rparr>) reason))) (\<lambda>_. slot_ok S C j v) (\<lambda>_. slot_bad v) s v" for reason
  proof (rule run_then, rule run_mono [OF run_ack [OF conjunct1 [OF w] pass [OF assms(2)]]], elim conjE)
    fix s' v' assume "v' = v" "ended s True (op_handed s) False s'"
    then show "runs ?P (ocalled (\<lambda>r. OvDlq (j\<lparr>or_attempt := js_add (or_attempt j) 1, or_lastError := Some reason\<rparr>)
      reason (reply r \<noteq> None)) (os_dlq S (j\<lparr>or_attempt := js_add (or_attempt j) 1, or_lastError := Some reason\<rparr>) reason)) (\<lambda>_. slot_ok S C j v) (\<lambda>_. slot_bad v) s' v'"
      using w assms(2,3)
      by (intro run_ocalled) (auto simp: ended_def slot_ok_def slot_bad_def finished_job_def origin_working_def)
  qed (use w in \<open>auto simp: slot_bad_def origin_working_def dest: ended_simps\<close>)
  show ?thesis
  proof (cases c)
    case Transient
    show ?thesis
      unfolding handleFailedFetch_def Let_def Transient fetch_class.case
      by (rule run_bind, rule run_now_plus, use w in simp, rule run_reschedule_slot, use assms w in \<open>auto intro: origin_successor.transient pass\<close>)
  next
    case Not_found
    have g: "gave_class S s Not_found" using gave Not_found by simp
    have drop: "runs ?P (o_ack S m) (\<lambda>_. slot_ok S C j v) (\<lambda>_. slot_bad v) s' v"
      if "origin_holding s'" "op_body s' = None" "gave_class S s' Not_found" for s'
      using that holding_working by (intro run_drop_slot pass) (auto simp: origin_dropped_def)
    have again: "runs ?P (io_bind (oclock S) (\<lambda>now. rescheduleJob S m
         (j\<lparr>or_attempt := js_add (or_attempt j) 1, or_notFoundCount := js_add (or_notFoundCount j) 1,
            or_notBeforeMs := Num (now + 120000), or_lastError := Some ''not_found''\<rparr>))) (\<lambda>_. slot_ok S C j v) (\<lambda>_. slot_bad v) s' v"
      if "origin_holding s'" "op_body s' = None" "gave_class S s' Not_found" "\<not> op_handed s'" "js_lt (js_add (or_notFoundCount j) 1) (Num 2)" for s'
      by (rule run_bind, rule run_oclock, rule run_reschedule_slot)
         (use that holding_working in \<open>auto intro!: origin_successor.missing pass simp del: js_lt_Num\<close>)
    show ?thesis
      unfolding handleFailedFetch_def Let_def Not_found fetch_class.case
    proof (rule run_bind, rule run_if, goal_cases)
      case 1
      show ?case
        by (rule run_bind, rule run_oclock, rule run_return, rule run_if)
           (use 1 assms(1-3) g w in \<open>auto intro!: drop again simp del: js_lt_Num\<close>)
    next
      case 2
      show ?case by (rule run_return) (use assms(1-3) g drop in simp)
    qed
  next
    case Gone_away
    show ?thesis
      unfolding handleFailedFetch_def Let_def Gone_away fetch_class.case
      by (rule run_drop_slot) (use assms w Gone_away in \<open>auto simp: origin_dropped_def intro: pass\<close>)
  next
    case Blocked
    show ?thesis unfolding handleFailedFetch_def Let_def Blocked fetch_class.case by (rule dlq)
  next
    case Permanent
    show ?thesis unfolding handleFailedFetch_def Let_def Permanent fetch_class.case by (rule dlq)
  qed
qed

section \<open>The whole run\<close>

definition passed_on :: "'s origin_services \<Rightarrow> OriginReconciliationJob \<Rightarrow> json \<Rightarrow> 'v \<Rightarrow> origin_progress \<Rightarrow> 'v \<Rightarrow> bool" where
  "passed_on S j b v s v' \<longleftrightarrow> v' = v \<and> origin_holding s \<and> op_body s = Some b \<and> \<not> op_handed s \<and> change_passed S j s"

lemma run_synthetic:
  assumes "origin_holding s" and "op_body s = Some b" and "op_applied s = Some True" and "\<not> op_sent s" and "\<not> op_handed s"
  shows "runs (origin_protocol S C j) (enqueueSyntheticUpdate S j b) (\<lambda>_. passed_on S j b v) (\<lambda>_. slot_bad v) s v"
proof (cases "synthetic_actor j b")
  case None
  show ?thesis
    unfolding enqueueSyntheticUpdate_def None option.case
    by (rule run_return) (use None assms in \<open>simp add: passed_on_def change_passed_def\<close>)
next
  case (Some actor)
  have sent: "runs (origin_protocol S C j) (ocalled (\<lambda>r. OvInbound (synthetic_envelope u i t1 t2 j actor b) (reply r \<noteq> None)) n)
      (\<lambda>_. passed_on S j b v) (\<lambda>_. slot_bad v) s' v"
    if "origin_holding s'" "op_body s' = Some b" "op_applied s' = Some True" "\<not> op_sent s'" "\<not> op_handed s'" for s' u i t1 t2 n
  proof (rule run_ocalled)
    fix a
    let ?s = "s'\<lparr>op_sent := True, op_failed := False\<rparr>"
    have "origin_step S C j s' (OvInbound (synthetic_envelope u i t1 t2 j actor b) True) ?s"
      using origin_step.inbound [OF that(1-4) Some refl, where r = True] by simp
    moreover have "passed_on S j b v ?s v"
      using that by (simp add: passed_on_def change_passed_def origin_holding_def origin_working_def)
    ultimately show "\<exists>s''. origin_step S C j s' (OvInbound (synthetic_envelope u i t1 t2 j actor b) (reply (Inr a) \<noteq> None)) s'' \<and> passed_on S j b v s'' v"
      by auto
  next
    fix e e'
    let ?s = "s'\<lparr>op_sent := True, op_failed := True\<rparr>"
    have "origin_step S C j s' (OvInbound (synthetic_envelope u i t1 t2 j actor b) False) ?s"
      using origin_step.inbound [OF that(1-4) Some refl, where r = False] by simp
    moreover have "slot_bad v ?s v" using that by (simp add: slot_bad_def origin_holding_def origin_working_def)
    ultimately show "\<exists>s''. origin_step S C j s' (OvInbound (synthetic_envelope u i t1 t2 j actor b) (reply (Inl e') \<noteq> None)) s'' \<and> slot_bad v s'' v"
      by auto
  qed
  show ?thesis
    unfolding enqueueSyntheticUpdate_def Some option.case Let_def
    by (intro run_bind run_odraw run_oclock sent) (use assms holding_working in auto)
qed

lemma run_next_round:
  assumes "origin_working s" and "\<And>t k. Q (Num (nextReconciliationDelayMs (js_add (or_attempt j) 1) k + t)) (origin_tick j t s) v"
  shows "runs (origin_protocol S C j) (next_round S j) Q E s v"
  unfolding next_round_def by (rule run_now_plus) (use assms in simp_all)

definition fresh_slot :: "origin_progress \<Rightarrow> bool" where
  "fresh_slot s \<longleftrightarrow> origin_holding s \<and> op_body s = None \<and> op_requests s = 0 \<and> op_applied s = None \<and> \<not> op_sent s \<and> \<not> op_handed s"

lemma run_changed:
  assumes "passed_on S j b v t v" and "\<not> same_fingerprint j (origin_fp S b)"
  shows "runs (origin_protocol S C j) (io_bind (next_round S j) (\<lambda>due. rescheduleJob S m (changed_job j (origin_fp S b) due)))
    (\<lambda>_. slot_ok S C j v) (\<lambda>_. slot_bad v) t v"
  using assms holding_working
  by (auto simp: passed_on_def intro!: run_bind run_next_round run_reschedule_slot origin_successor.changed)

lemma run_update:
  assumes "origin_holding t" and "op_body t = Some b" and "op_applied t = Some a" and "\<not> op_sent t" and "\<not> op_handed t"
  shows "runs (origin_protocol S C j) (if a then enqueueSyntheticUpdate S j b else io_return ()) (\<lambda>_. passed_on S j b v) (\<lambda>_. slot_bad v) t v"
proof (rule run_if)
  assume a
  then show "runs (origin_protocol S C j) (enqueueSyntheticUpdate S j b) (\<lambda>_. passed_on S j b v) (\<lambda>_. slot_bad v) t v"
    by (intro run_synthetic) (use assms in simp_all)
next
  assume "\<not> a"
  then show "runs (origin_protocol S C j) (io_return ()) (\<lambda>_. passed_on S j b v) (\<lambda>_. slot_bad v) t v"
    by (intro run_return) (use assms in \<open>simp add: passed_on_def change_passed_def\<close>)
qed

lemma run_apply:
  assumes t: "origin_holding t" "op_body t = Some b" "op_applied t = None" "\<not> op_sent t" "\<not> op_handed t"
    and d: "\<not> same_fingerprint j (origin_fp S b)"
    and go: "\<And>a t. origin_holding t \<Longrightarrow> op_body t = Some b \<Longrightarrow> op_applied t = Some a \<Longrightarrow> \<not> op_sent t \<Longrightarrow> \<not> op_handed t \<Longrightarrow>
      runs (origin_protocol S C j) (f a) (\<lambda>_. slot_ok S C j v) (\<lambda>_. slot_bad v) t v"
  shows "runs (origin_protocol S C j) (io_bind (ocalled (\<lambda>r. OvApply (apply_key j) (origin_fp S b) (reply r)) n) f)
    (\<lambda>_. slot_ok S C j v) (\<lambda>_. slot_bad v) t v"
proof (rule run_bind, rule run_ocalled)
  fix a
  let ?t = "t\<lparr>op_applied := Some a, op_failed := False\<rparr>"
  have "runs (origin_protocol S C j) (f a) (\<lambda>_. slot_ok S C j v) (\<lambda>_. slot_bad v) ?t v"
    by (rule go) (use t in \<open>simp_all add: origin_holding_def origin_working_def\<close>)
  moreover have "origin_step S C j t (OvApply (apply_key j) (origin_fp S b) (reply (Inr a))) ?t"
    using origin_step.claim [OF t(1,2) d t(3), where r = "Some a"] by simp
  ultimately show "\<exists>s'. origin_step S C j t (OvApply (apply_key j) (origin_fp S b) (reply (Inr a))) s' \<and>
      runs (origin_protocol S C j) (f a) (\<lambda>_. slot_ok S C j v) (\<lambda>_. slot_bad v) s' v" by blast
next
  fix e e'
  let ?t = "t\<lparr>op_applied := None, op_failed := True\<rparr>"
  have "origin_step S C j t (OvApply (apply_key j) (origin_fp S b) (reply (Inl e'))) ?t"
    using origin_step.claim [OF t(1,2) d t(3), where r = None] by simp
  moreover have "slot_bad v ?t v" using t by (simp add: slot_bad_def origin_holding_def origin_working_def)
  ultimately show "\<exists>s'. origin_step S C j t (OvApply (apply_key j) (origin_fp S b) (reply (Inl e'))) s' \<and> slot_bad v s' v" by blast
qed

lemma run_fetched:
  assumes t: "origin_holding t" "op_body t = Some b" "op_applied t = None" "\<not> op_sent t" "\<not> op_handed t"
  shows "runs (origin_protocol S C j)
    (if same_fingerprint j (origin_fp S b) then
       (let unchangedSuccesses = js_add (or_unchangedSuccesses j) 1
        in if js_le (oc_maxUnchangedSuccesses C) unchangedSuccesses then o_ack S m
           else io_bind (next_round S j) (\<lambda>due. rescheduleJob S m (unchanged_job j due)))
     else
       io_bind (ocalled (\<lambda>r. OvApply (apply_key j) (origin_fp S b) (reply r)) n) (\<lambda>shouldApply.
       io_then (if shouldApply then enqueueSyntheticUpdate S j b else io_return ())
         (io_bind (next_round S j) (\<lambda>due. rescheduleJob S m (changed_job j (origin_fp S b) due)))))
    (\<lambda>_. slot_ok S C j v) (\<lambda>_. slot_bad v) t v"
  unfolding Let_def
proof (intro run_if)
  assume d: "\<not> same_fingerprint j (origin_fp S b)"
  show "runs (origin_protocol S C j) (io_bind (ocalled (\<lambda>r. OvApply (apply_key j) (origin_fp S b) (reply r)) n) (\<lambda>shouldApply.
       io_then (if shouldApply then enqueueSyntheticUpdate S j b else io_return ())
         (io_bind (next_round S j) (\<lambda>due. rescheduleJob S m (changed_job j (origin_fp S b) due)))))
    (\<lambda>_. slot_ok S C j v) (\<lambda>_. slot_bad v) t v"
    by (rule run_apply [OF t d], rule run_then, rule run_mono [OF run_update])
       (use d in \<open>auto simp: passed_on_def intro!: run_changed\<close>)
next
  assume "same_fingerprint j (origin_fp S b)" "js_le (oc_maxUnchangedSuccesses C) (js_add (or_unchangedSuccesses j) 1)"
  then show "runs (origin_protocol S C j) (o_ack S m) (\<lambda>_. slot_ok S C j v) (\<lambda>_. slot_bad v) t v"
    using t holding_working by (intro run_drop_slot) (auto simp: change_passed_def origin_dropped_def)
next
  assume "same_fingerprint j (origin_fp S b)" "\<not> js_le (oc_maxUnchangedSuccesses C) (js_add (or_unchangedSuccesses j) 1)"
  then show "runs (origin_protocol S C j) (io_bind (next_round S j) (\<lambda>due. rescheduleJob S m (unchanged_job j due)))
      (\<lambda>_. slot_ok S C j v) (\<lambda>_. slot_bad v) t v"
    using t holding_working
    by (auto simp: change_passed_def intro!: run_bind run_next_round run_reschedule_slot origin_successor.unchanged)
qed

lemma run_reconcile:
  assumes "fresh_slot s"
  shows "runs (origin_protocol S C j) (reconcile S C m j) (\<lambda>_. slot_ok S C j v) (\<lambda>_. slot_bad v) s v"
proof -
  have s: "origin_holding s" "op_body s = None" "op_requests s = 0" using assms by (simp_all add: fresh_slot_def)
  show ?thesis
    unfolding reconcile_def
  proof (rule run_bind, rule run_mono [OF run_fetch [OF s, where v = v and E = "\<lambda>_. slot_bad v"]], goal_cases)
    case (1 r t v')
    then have t: "origin_holding t" "op_applied t = None" "\<not> op_sent t" "\<not> op_handed t"
      using assms by (auto simp: fresh_slot_def fetched_from_holding) (auto simp: fetched_from_def)
    show ?case
    proof (cases r)
      case (Fetch_failed c st e)
      then have "op_body t = None" "c \<in> {Gone_away, Not_found} \<Longrightarrow> gave_class S t c" using 1 by (auto simp: gives_def)
      with run_failed_fetch [OF t(1) this(1) t(4) this(2)] Fetch_failed 1 show ?thesis by simp
    next
      case (Fetched b fp)
      then have "op_body t = Some b" "fp = origin_fp S b" "v' = v" using 1 by (simp_all add: gives_def)
      then show ?thesis unfolding Fetched fetch_result.case by (simp only: run_fetched [OF t(1) _ t(2-4)])
    qed
  qed
qed

text \<open>Where a run ends: with the slot given back; when it resolves the job is handed on or dropped.\<close>

definition run_ok :: "'s origin_services \<Rightarrow> origin_config \<Rightarrow> OriginReconciliationJob \<Rightarrow> 'v \<Rightarrow> origin_progress \<Rightarrow> 'v \<Rightarrow> bool" where
  "run_ok S C j v s v' \<longleftrightarrow> v' = v \<and> finished_job S C j s \<and> (op_slot s = Some True \<longrightarrow> op_released s)"

definition run_bad :: "'v \<Rightarrow> origin_progress \<Rightarrow> 'v \<Rightarrow> bool" where
  "run_bad v s v' \<longleftrightarrow> v' = v \<and> (op_slot s = Some True \<longrightarrow> op_released s) \<and> (op_acked s \<longrightarrow> op_failed s \<or> op_released s)"

lemma run_release:
  assumes "op_slot s = Some True" and "\<not> op_released s"
    and "Q (s\<lparr>op_released := True\<rparr>)" and "E (s\<lparr>op_released := True\<rparr>)"
  shows "runs (origin_protocol S C j) (ocalled (\<lambda>r. OvRelease (reply r \<noteq> None)) n) (\<lambda>_ s' v'. v' = v \<and> Q s') (\<lambda>_ s' v'. v' = v \<and> E s') s v"
  by (rule run_ocalled) (use assms in auto)

lemma finished_release: "finished_job S C j (s\<lparr>op_released := True\<rparr>) = finished_job S C j s"
proof -
  have "origin_dropped S C j (s\<lparr>op_released := True\<rparr>) = origin_dropped S C j s" by (rule dropped_cong) simp_all
  then show ?thesis by (simp add: finished_job_def)
qed

lemma run_in_slot:
  assumes "fresh_slot s"
  shows "runs (origin_protocol S C j) (io_finally (reconcile S C m j) (ocalled (\<lambda>r. OvRelease (reply r \<noteq> None)) (os_release S h)))
    (\<lambda>_. run_ok S C j v) (\<lambda>_. run_bad v) s v"
proof (rule run_finally, rule run_mono [OF run_reconcile [OF assms, where v = v]], goal_cases)
  case (1 a t v')
  then have t: "v' = v" "finished_job S C j t" "op_slot t = Some True" "\<not> op_released t" by (simp_all add: slot_ok_def)
  show ?case
    unfolding run_ok_def run_bad_def t(1)
    by (rule run_mono [OF run_release [OF t(3,4), where Q = "\<lambda>s. finished_job S C j s \<and> op_released s" and E = op_released]])
       (use t finished_release in \<open>auto simp: run_bad_def\<close>)
next
  case (2 e t v')
  then have t: "v' = v" "op_slot t = Some True" "\<not> op_released t" by (simp_all add: slot_bad_def)
  show ?case
    unfolding run_bad_def t(1)
    by (rule run_ocalled) (use t in auto)
qed

lemma run_dropped:
  assumes "origin_working s" and "op_slot s \<noteq> Some True" and "change_passed S j s" and "origin_dropped S C j s"
  shows "runs (origin_protocol S C j) (o_ack S m) (\<lambda>_. run_ok S C j v) (\<lambda>_. run_bad v) s v"
proof -
  have "origin_dropped S C j s'" if "ended s a h f s'" for a h f s'
    using dropped_cong [of s' s S C j] ended_simps [OF that] assms(4) by blast
  then show ?thesis
    by (intro run_mono [OF run_ack [OF assms(1,3)]])
       (use assms(2) in \<open>auto simp: run_ok_def run_bad_def finished_job_def dest: ended_simps\<close>)
qed

lemma run_requeued:
  assumes "origin_working s" and "op_slot s \<noteq> Some True" and "change_passed S j s" and "\<not> op_handed s" and "origin_successor S C j s j'"
  shows "runs (origin_protocol S C j) (rescheduleJob S m j') (\<lambda>_. run_ok S C j v) (\<lambda>_. run_bad v) s v"
  by (rule run_mono [OF run_reschedule [OF assms(1,3,4,5)]])
     (use assms(2) in \<open>auto simp: run_ok_def run_bad_def finished_job_def dest: ended_simps\<close>)

text \<open>Before the first limit is asked.\<close>

definition untried :: "origin_progress \<Rightarrow> bool" where
  "untried s \<longleftrightarrow> origin_working s \<and> op_rate s = None \<and> op_slot s = None \<and> op_body s = None \<and> op_requests s = 0 \<and> op_applied s = None \<and>
     \<not> op_sent s \<and> \<not> op_handed s"

lemma untried_pass: "op_body s = None \<Longrightarrow> change_passed S j s"
  by (simp add: change_passed_def)

lemma untried_tick: "untried (origin_tick j t s) = untried s"
  by (simp add: untried_def)

lemma run_defer:
  assumes "origin_working s" and "op_slot s \<noteq> Some True" and "op_body s = None" and "\<not> op_handed s"
    and "\<And>t. origin_successor S C j (origin_tick j t s) (j\<lparr>or_notBeforeMs := Num (t + d), or_lastError := Some e\<rparr>)"
  shows "runs (origin_protocol S C j) (deferJob S m j d e) (\<lambda>_. run_ok S C j v) (\<lambda>_. run_bad v) s v"
  unfolding deferJob_def
  by (rule run_bind, rule run_oclock, rule run_requeued) (use assms untried_pass in auto)

lemma run_admitted:
  assumes "untried s" and "op_window s" and "attempts_left j" and "op_due s \<or> \<not> js_lt (Num 0) (or_notBeforeMs j)"
  shows "runs (origin_protocol S C j) (origin_admitted S C m j h) (\<lambda>_. run_ok S C j v) (\<lambda>_. run_bad v) s v"
proof -
  let ?P = "origin_protocol S C j"
  have slot: "runs ?P (io_bind (ocalled (\<lambda>r. OvSlot (reply r)) (os_slot S h (oc_perOriginConcurrency C))) (\<lambda>acquiredSlot.
       if \<not> acquiredSlot then deferJob S m j 15000 ''concurrency_limited''
       else io_finally (reconcile S C m j) (ocalled (\<lambda>r. OvRelease (reply r \<noteq> None)) (os_release S h))))
       (\<lambda>_. run_ok S C j v) (\<lambda>_. run_bad v) (s\<lparr>op_rate := Some True, op_failed := False\<rparr>) v" (is "runs _ ?m _ _ ?s _")
  proof (rule run_bind, rule run_ocalled)
    fix a
    let ?t = "?s\<lparr>op_slot := Some a, op_failed := False\<rparr>"
    have "origin_step S C j ?s (OvSlot (reply (Inr a))) ?t" using assms(1) by (simp add: untried_def origin_working_def)
    moreover have "runs ?P (if \<not> a then deferJob S m j 15000 ''concurrency_limited''
       else io_finally (reconcile S C m j) (ocalled (\<lambda>r. OvRelease (reply r \<noteq> None)) (os_release S h)))
       (\<lambda>_. run_ok S C j v) (\<lambda>_. run_bad v) ?t v"
    proof (cases a)
      case True
      then show ?thesis
        by simp (rule run_in_slot [unfolded option.distinct, simplified], use assms(1) in \<open>simp add: fresh_slot_def untried_def origin_holding_def origin_working_def\<close>)
    next
      case False
      then show ?thesis
        by (simp, intro run_defer)
           (use assms(1) in \<open>auto simp: untried_def origin_working_def intro!: origin_successor.crowded\<close>)
    qed
    ultimately show "\<exists>s'. origin_step S C j ?s (OvSlot (reply (Inr a))) s' \<and> runs ?P (if \<not> a then deferJob S m j 15000 ''concurrency_limited''
       else io_finally (reconcile S C m j) (ocalled (\<lambda>r. OvRelease (reply r \<noteq> None)) (os_release S h)))
       (\<lambda>_. run_ok S C j v) (\<lambda>_. run_bad v) s' v" by blast
  next
    fix e e'
    show "\<exists>s'. origin_step S C j ?s (OvSlot (reply (Inl e'))) s' \<and> run_bad v s' v"
      using assms(1) by (auto simp: untried_def origin_working_def run_bad_def)
  qed
  have limited: "runs ?P (deferJob S m j 30000 ''rate_limited'') (\<lambda>_. run_ok S C j v) (\<lambda>_. run_bad v)
      (s\<lparr>op_rate := Some False, op_failed := False\<rparr>) v"
    by (rule run_defer)
       (use assms(1) in \<open>auto simp: untried_def origin_working_def intro!: origin_successor.limited\<close>)
  show ?thesis
    unfolding origin_admitted_def
  proof (rule run_bind, rule run_ocalled)
    fix a
    let ?t = "s\<lparr>op_rate := Some a, op_failed := False\<rparr>"
    have "origin_step S C j s (OvRate (reply (Inr a))) ?t"
      using assms origin_step.rate [of s j S C "Some a"] by (simp add: untried_def)
    with slot limited show "\<exists>s'. origin_step S C j s (OvRate (reply (Inr a))) s' \<and> runs ?P (if \<not> a then deferJob S m j 30000 ''rate_limited''
      else io_bind (ocalled (\<lambda>r. OvSlot (reply r)) (os_slot S h (oc_perOriginConcurrency C))) (\<lambda>acquiredSlot.
       if \<not> acquiredSlot then deferJob S m j 15000 ''concurrency_limited''
       else io_finally (reconcile S C m j) (ocalled (\<lambda>r. OvRelease (reply r \<noteq> None)) (os_release S h))))
       (\<lambda>_. run_ok S C j v) (\<lambda>_. run_bad v) s' v"
      by (cases a) (intro exI conjI, assumption, simp only: simp_thms if_True if_False)+
  next
    fix e e'
    have "origin_step S C j s (OvRate (reply (Inl e'))) (s\<lparr>op_rate := None, op_failed := True\<rparr>)"
      using assms origin_step.rate [of s j S C None] by (simp add: untried_def)
    moreover have "run_bad v (s\<lparr>op_rate := None, op_failed := True\<rparr>) v" using assms(1) by (simp add: run_bad_def untried_def)
    ultimately show "\<exists>s'. origin_step S C j s (OvRate (reply (Inl e'))) s' \<and> run_bad v s' v" by blast
  qed
qed

lemma run_due:
  assumes "untried s" and "op_due s \<or> \<not> js_lt (Num 0) (or_notBeforeMs j)"
  shows "runs (origin_protocol S C j)
    (io_bind (oclock S) (\<lambda>now.
       if js_le (or_windowExpiresAt j) (Num now) \<or> js_le (or_maxAttempts j) (or_attempt j) then o_ack S m
       else origin_admitted S C m j h)) (\<lambda>_. run_ok S C j v) (\<lambda>_. run_bad v) s v"
proof (rule run_bind, rule run_oclock, rule run_if)
  fix t
  assume "js_le (or_windowExpiresAt j) (Num t) \<or> js_le (or_maxAttempts j) (or_attempt j)"
  then show "runs (origin_protocol S C j) (o_ack S m) (\<lambda>_. run_ok S C j v) (\<lambda>_. run_bad v) (origin_tick j t s) v"
    using assms(1) by (intro run_dropped untried_pass) (auto simp: untried_def origin_dropped_def attempts_left_def)
next
  fix t
  assume "\<not> (js_le (or_windowExpiresAt j) (Num t) \<or> js_le (or_maxAttempts j) (or_attempt j))"
  then have "op_window (origin_tick j t s)" "attempts_left j" by (simp_all add: origin_tick_def attempts_left_def)
  moreover have "op_due (origin_tick j t s) \<or> \<not> js_lt (Num 0) (or_notBeforeMs j)"
    using assms(2) by (auto simp: origin_tick_def simp del: js_lt_Num)
  ultimately show "runs (origin_protocol S C j) (origin_admitted S C m j h) (\<lambda>_. run_ok S C j v) (\<lambda>_. run_bad v) (origin_tick j t s) v"
    using assms(1) by (intro run_admitted) (simp_all add: untried_tick)
qed (use assms in \<open>simp add: untried_def\<close>)

lemma run_processOriginJob:
  "runs (origin_protocol S C j) (processOriginJob S C m j) (\<lambda>_. run_ok S C j n) (\<lambda>_. run_bad n) origin_start n"
proof -
  let ?P = "origin_protocol S C j"
  have start: "untried origin_start" by (simp add: untried_def origin_start_def origin_working_def)
  let ?go = "\<lambda>h. io_bind (oclock S) (\<lambda>now.
       if js_le (or_windowExpiresAt j) (Num now) \<or> js_le (or_maxAttempts j) (or_attempt j) then o_ack S m
       else origin_admitted S C m j h)"
  have early: "runs ?P (rescheduleJob S m j) (\<lambda>_. run_ok S C j v) (\<lambda>_. run_bad v) (origin_tick j t origin_start) v"
    if "js_lt (Num t) (or_notBeforeMs j)" for t v
    using start that by (intro run_requeued untried_pass origin_successor.early [where t = t]) (simp_all add: untried_def del: js_lt_Num)
  have late: "runs ?P (?go h) (\<lambda>_. run_ok S C j v) (\<lambda>_. run_bad v) (origin_tick j t origin_start) v"
    if "\<not> js_lt (Num t) (or_notBeforeMs j)" for t h v
  proof (rule run_due)
    show "op_due (origin_tick j t origin_start) \<or> \<not> js_lt (Num 0) (or_notBeforeMs j)"
      using that by (simp add: origin_tick_def del: js_lt_Num)
  qed (simp add: untried_tick start)
  have at_once: "runs ?P (?go h) (\<lambda>_. run_ok S C j v) (\<lambda>_. run_bad v) origin_start v" if "\<not> js_lt (Num 0) (or_notBeforeMs j)" for h v
    by (rule run_due) (use start that in simp_all)
  have body: "runs ?P (io_bind (origin_not_due S j) (\<lambda>later. if later then rescheduleJob S m j else ?go h))
      (\<lambda>_. run_ok S C j v) (\<lambda>_. run_bad v) origin_start v" for h v
    unfolding origin_not_due_def
  proof (rule run_bind, rule run_if, goal_cases)
    case 1
    show ?case by (rule run_return, unfold if_False, rule at_once [OF 1])
  next
    case 2
    show ?case
    proof (rule run_bind, rule run_oclock, rule run_return)
      fix t
      show "runs ?P (if js_lt (Num t) (or_notBeforeMs j) then rescheduleJob S m j else ?go h)
          (\<lambda>_. run_ok S C j v) (\<lambda>_. run_bad v) (origin_tick j t origin_start) v"
        by (rule run_if) (rule early, assumption, rule late)
    qed (use start in \<open>simp add: untried_def\<close>)
  qed
  have inner: "runs ?P (case os_parse S (or_originObjectUrl j) of None \<Rightarrow> io_throw ''Invalid URL''
      | Some u \<Rightarrow> io_bind (origin_not_due S j) (\<lambda>later. if later then rescheduleJob S m j else ?go (origin_resource (u_host u))))
      (\<lambda>_. run_ok S C j v) (\<lambda>_. run_bad v) origin_start v" for v
    using body by (auto split: option.split intro!: run_throw simp: run_bad_def origin_start_def)
  show ?thesis
    unfolding processOriginJob_def
    by (rule run_then, rule run_oadd_active, rule run_finally, rule run_mono [OF inner])
       (auto intro!: run_oadd_active simp: run_ok_def run_bad_def)
qed

section \<open>One run\<close>

definition origin_run ::
  "'s origin_services \<Rightarrow> origin_config \<Rightarrow> string \<Rightarrow> OriginReconciliationJob \<Rightarrow> 's \<Rightarrow> (string + unit) \<times> 's origin_world" where
  "origin_run S C messageId j s = processOriginJob S C messageId j \<lparr>ow_srv = s, ow_trace = [], ow_active = 0\<rparr>"

definition origin_trace :: "'s origin_services \<Rightarrow> origin_config \<Rightarrow> string \<Rightarrow> OriginReconciliationJob \<Rightarrow> 's \<Rightarrow> origin_event list" where
  "origin_trace S C messageId j s = ow_trace (snd (origin_run S C messageId j s))"

lemma origin_run_leads:
  "\<exists>s. leads (origin_protocol S C j) (origin_trace S C m j x) s \<and> ow_active (snd (origin_run S C m j x)) = 0 \<and>
     (case fst (origin_run S C m j x) of Inr _ \<Rightarrow> run_ok S C j (0::int) s 0 | Inl _ \<Rightarrow> run_bad (0::int) s 0)"
proof -
  let ?w = "\<lparr>ow_srv = x, ow_trace = [], ow_active = 0\<rparr>"
  obtain r w' where r: "processOriginJob S C m j ?w = (r, w')" by fastforce
  have "\<exists>s. leads (origin_protocol S C j) (pt_trace (origin_protocol S C j) w') s \<and>
      (\<forall>a. r = Inr a \<longrightarrow> run_ok S C j 0 s (pt_view (origin_protocol S C j) w')) \<and>
      (\<forall>e. r = Inl e \<longrightarrow> run_bad 0 s (pt_view (origin_protocol S C j) w'))"
    by (rule runs_result [where m = "processOriginJob S C m j" and w = ?w and v = 0])
       (use r run_processOriginJob [of S C j m 0] in simp_all)
  then show ?thesis using r by (cases r) (auto simp: origin_trace_def origin_run_def run_ok_def run_bad_def)
qed

lemma origin_leads: "\<exists>s. leads (origin_protocol S C j) (origin_trace S C m j x) s"
  using origin_run_leads [of S C j m x] by auto

lemma origin_split:
  assumes "origin_trace S C m j x = later @ e # earlier"
  obtains s s' where "leads (origin_protocol S C j) earlier s" "origin_step S C j s e s'"
proof -
  obtain s where "leads (origin_protocol S C j) (later @ e # earlier) s" using origin_leads assms by metis
  from leads_split [OF this] obtain t t' where "leads (origin_protocol S C j) earlier t" "origin_step S C j t e t'" by auto
  then show thesis by (rule that)
qed

end
