(* ===== verification/Origin_Sample.thy ===== *)
theory Origin_Sample
  imports Origin_Properties Webhook_Properties
begin

text \<open>
  A job of the origin-reconciliation worker whose object has changed, processed by cooperative services, of which only the one that puts the
  job back may fail.
\<close>

definition origin_sample_services :: "bool \<Rightarrow> json \<Rightarrow> 's origin_services" where
  "origin_sample_services requeue_fails object =
     \<lparr>os_now = (\<lambda>s. (1000000, s)), os_random = (\<lambda>s. (0, s)), os_uuid = (\<lambda>s. (''u'', s)), os_sleep = (\<lambda>_ s. s),
      os_ack = (\<lambda>m. io_return ()),
      os_enqueue = (\<lambda>j. if requeue_fails then io_throw ''connection lost'' else io_return ''2-0''),
      os_rate = (\<lambda>h l w. io_return True), os_slot = (\<lambda>h l. io_return True), os_release = (\<lambda>h. io_return ()),
      os_apply = (\<lambda>k f t. io_return True), os_inbound = (\<lambda>e. io_return ()), os_dlq = (\<lambda>j r. io_return ()),
      os_sign = (\<lambda>a u. io_return (Inr (''d'', ''g''))),
      os_request = (\<lambda>q. io_return \<lparr>og_status = 200, og_contentLength = None, og_chunks = [json_stringify object], og_failure = None, og_dump = None\<rparr>),
      os_parse = mini_parse, os_sha256 = (\<lambda>t. t), os_utf8 = (\<lambda>t. t)\<rparr>"

definition origin_sample_config :: origin_config where
  "origin_sample_config = createOriginReconciliationWorker (\<lambda>_. None) ''https://a.example/u/sidecar'' (\<lambda>c. c)"

definition origin_sample_job :: "string \<Rightarrow> OriginReconciliationJob" where
  "origin_sample_job hint =
     \<lparr>or_jobId = ''j'', or_originObjectUrl = ''https://b.example/n/1'', or_canonicalObjectId = None, or_actorUriHint = Some hint,
      or_reason = ''conversation-hydration'', or_createdAt = Num 0, or_attempt = Num 0, or_maxAttempts = Num 5, or_notBeforeMs = Num 30000,
      or_windowExpiresAt = Num 1800000, or_lastFingerprint = Some ''f'', or_unchangedSuccesses = Num 0, or_notFoundCount = Num 0,
      or_lastError = None\<rparr>"

definition origin_sample_request :: origin_request where
  "origin_sample_request = \<lparr>oq_url = ''https://b.example/n/1'',
     oq_headers = [(''accept'', ''application/activity+json, application/ld+json''), (''date'', ''d''), (''signature'', ''g''),
       (''host'', ''b.example''), (''user-agent'', ''Fedify-Sidecar/5.0 (ActivityPods)'')]\<rparr>"

lemma origin_sample_url: "isAllowedRemoteFetchUrl mini_parse ''https://b.example/n/1''"
  "map_option u_host (mini_parse ''https://b.example/n/1'') = Some ''b.example''"
  by code_simp+

lemma origin_sample_budget: "fetch_budget origin_sample_config = Suc 3" "oc_userAgent origin_sample_config = ''Fedify-Sidecar/5.0 (ActivityPods)''"
  by (simp_all add: origin_sample_config_def createOriginReconciliationWorker_def env_text_def int_or_nan_def fetch_budget_def parse_int_def js_space_def js_digit_def digits_val_def digit_val_def)

text \<open>What the sample object has to be: a short object that is a JSON tree.\<close>

definition sample_object :: "json \<Rightarrow> bool" where
  "sample_object object \<longleftrightarrow> (\<exists>kvs. object = JObj kvs) \<and> json_plain object \<and> length (json_stringify object) \<le> 2000000"

lemma sample_object_empty: "sample_object (JObj [])"
  by (simp add: sample_object_def)

definition origin_sample_requeued :: "string \<Rightarrow> json \<Rightarrow> OriginReconciliationJob" where
  "origin_sample_requeued hint object =
     changed_job (origin_sample_job hint) (stableStringify object) (Num (nextReconciliationDelayMs (Num 1) 0 + 1000000))"

definition origin_sample_envelope :: "string \<Rightarrow> json \<Rightarrow> InboundEnvelope" where
  "origin_sample_envelope hint object = synthetic_envelope ''u'' ''u'' 1000000 1000000 (origin_sample_job hint) hint object"

lemma origin_sample_read:
  assumes "sample_object object"
  shows "read_response (origin_sample_services f object) again
    \<lparr>og_status = 200, og_contentLength = None, og_chunks = [json_stringify object], og_failure = None, og_dump = None\<rparr>
    = Inr (Some (Fetched object (stableStringify object)))"
proof -
  obtain kvs where k: "object = JObj kvs" and p: "json_parse (json_stringify object) = Some object" "length (json_stringify object) \<le> 2000000"
    using assms json_parse_stringify unfolding sample_object_def by blast
  have "readJsonBodyWithLimit (\<lambda>t. t) \<lparr>og_status = 200, og_contentLength = None, og_chunks = [json_stringify object],
      og_failure = None, og_dump = None\<rparr> 2000000 = Inr (Some object)"
    using p by (simp add: readJsonBodyWithLimit_def k del: json_stringify.simps)
  then show ?thesis
    by (simp add: read_response_def origin_sample_services_def MAX_JSON_RESPONSE_BYTES_def fingerprintJsonObject_def
        TRANSIENT_HTTP_STATUS_CODES_def Let_def del: json_stringify.simps)
qed

lemma origin_sample_carried:
  "sample_object object \<Longrightarrow> carried_object (origin_sample_services f object)
    \<lparr>og_status = 200, og_contentLength = None, og_chunks = [json_stringify object], og_failure = None, og_dump = None\<rparr> = Some object"
  by (simp add: carried_object_def origin_sample_read del: json_stringify.simps)

lemma origin_sample_fetch:
  assumes "sample_object object"
  shows "fetch_once (origin_sample_services f object) origin_sample_config ''https://b.example/n/1'' again w =
    (Inr (Some (Fetched object (stableStringify object))),
     w\<lparr>ow_trace := OvRequest origin_sample_request (Some \<lparr>og_status = 200, og_contentLength = None, og_chunks = [json_stringify object],
       og_failure = None, og_dump = None\<rparr>) # OvSign True # ow_trace w\<rparr>)"
proof -
  obtain u where u: "mini_parse ''https://b.example/n/1'' = Some u" "u_host u = ''b.example''" using origin_sample_url(2) by auto
  have r: "origin_request_for (origin_sample_services f object :: 'a origin_services) origin_sample_config ''https://b.example/n/1'' ''d'' ''g'' = Inr origin_sample_request"
    by (simp add: origin_request_for_def origin_sample_services_def u origin_sample_request_def origin_sample_budget del: json_stringify.simps)
  have sv: "os_sign (origin_sample_services f object :: 'a origin_services) = (\<lambda>a u. io_return (Inr (''d'', ''g'')))"
    "os_request (origin_sample_services f object :: 'a origin_services) = (\<lambda>q. io_return \<lparr>og_status = 200, og_contentLength = None,
       og_chunks = [json_stringify object], og_failure = None, og_dump = None\<rparr>)"
    by (simp_all add: origin_sample_services_def)
  show ?thesis
    by (simp add: fetch_once_def ocalled_def sv io_bind_def io_return_def osum_def r origin_sample_read [OF assms] del: json_stringify.simps)
qed

definition origin_sample_trace :: "bool \<Rightarrow> string \<Rightarrow> json \<Rightarrow> origin_event list" where
  "origin_sample_trace f hint object =
     [OvRelease True, OvRequeue (origin_sample_requeued hint object) (\<not> f), OvAck True, OvTime 1000000,
      OvInbound (origin_sample_envelope hint object) True, OvTime 1000000, OvTime 1000000,
      OvApply ''https://b.example/n/1'' (stableStringify object) (Some True),
      OvRequest origin_sample_request (Some \<lparr>og_status = 200, og_contentLength = None, og_chunks = [json_stringify object],
        og_failure = None, og_dump = None\<rparr>),
      OvSign True, OvSlot (Some True), OvRate (Some True), OvTime 1000000, OvTime 1000000]"

lemma origin_sample_fetched:
  assumes "sample_object object"
  shows "fetchRemoteObject (origin_sample_services f object) origin_sample_config ''https://b.example/n/1'' w =
    (Inr (Fetched object (stableStringify object)),
     w\<lparr>ow_trace := OvRequest origin_sample_request (Some \<lparr>og_status = 200, og_contentLength = None, og_chunks = [json_stringify object],
       og_failure = None, og_dump = None\<rparr>) # OvSign True # ow_trace w\<rparr>)"
proof -
  have p: "os_parse (origin_sample_services f object :: 'a origin_services) = mini_parse" by (simp add: origin_sample_services_def)
  have a: "fetchRemoteObject (origin_sample_services f object) origin_sample_config ''https://b.example/n/1'' w =
      fetch_attempts (origin_sample_services f object) origin_sample_config ''https://b.example/n/1'' 0 (Suc 3) w"
    unfolding fetchRemoteObject_def p origin_sample_budget(1) using origin_sample_url(1) by (simp del: fetch_attempts.simps)
  show ?thesis
    unfolding a fetch_attempts.simps(2) io_bind_def io_catch_def origin_sample_fetch [OF assms] by (simp add: io_return_def)
qed

lemma origin_sample_run:
  assumes "sample_object object" and "hint \<noteq> []"
  shows "origin_trace (origin_sample_services f object) origin_sample_config m (origin_sample_job hint) x = origin_sample_trace f hint object"
proof -
  obtain u where u: "mini_parse ''https://b.example/n/1'' = Some u" "u_host u = ''b.example''" using origin_sample_url(2) by auto
  define S where "S = (origin_sample_services f object :: 'a origin_services)"
  have sv: "os_now S = (\<lambda>s. (1000000, s))" "os_random S = (\<lambda>s. (0, s))" "os_uuid S = (\<lambda>s. (''u'', s))" "os_ack S = (\<lambda>m. io_return ())"
    "os_enqueue S = (\<lambda>j. if f then io_throw ''connection lost'' else io_return ''2-0'')" "os_rate S = (\<lambda>h l w. io_return True)"
    "os_slot S = (\<lambda>h l. io_return True)" "os_release S = (\<lambda>h. io_return ())" "os_apply S = (\<lambda>k f t. io_return True)"
    "os_inbound S = (\<lambda>e. io_return ())" "os_parse S = mini_parse"
    by (simp_all add: S_def origin_sample_services_def)
  have j: "or_originObjectUrl (origin_sample_job hint) = ''https://b.example/n/1''" "or_notBeforeMs (origin_sample_job hint) = Num 30000"
    "or_windowExpiresAt (origin_sample_job hint) = Num 1800000" "or_maxAttempts (origin_sample_job hint) = Num 5"
    "or_attempt (origin_sample_job hint) = Num 0" "or_lastFingerprint (origin_sample_job hint) = Some ''f''"
    "or_actorUriHint (origin_sample_job hint) = Some hint" "or_canonicalObjectId (origin_sample_job hint) = None"
    by (simp_all add: origin_sample_job_def)
  obtain kvs where k: "object = JObj kvs" using assms(1) by (auto simp: sample_object_def)
  have new: "\<not> same_fingerprint (origin_sample_job hint) (stableStringify object)" by (simp add: same_fingerprint_def j k)
  have fetched: "fetchRemoteObject S origin_sample_config ''https://b.example/n/1'' w = (Inr (Fetched object (stableStringify object)),
     w\<lparr>ow_trace := OvRequest origin_sample_request (Some \<lparr>og_status = 200, og_contentLength = None, og_chunks = [json_stringify object],
       og_failure = None, og_dump = None\<rparr>) # OvSign True # ow_trace w\<rparr>)" for w
    unfolding S_def by (rule origin_sample_fetched [OF assms(1)])
  have "ow_trace (snd (processOriginJob S origin_sample_config m (origin_sample_job hint) \<lparr>ow_srv = x, ow_trace = [], ow_active = 0\<rparr>))
      = origin_sample_trace f hint object"
    by (cases f)
       (simp_all add: processOriginJob_def io_then_def io_bind_def io_return_def io_throw_def io_finally_def oadd_active_def sv j u origin_not_due_def oclock_def
        origin_admitted_def ocalled_def reconcile_def fetched new apply_key_def enqueueSyntheticUpdate_def synthetic_actor_def assms(2)
        odraw_def Let_def next_round_def origin_now_plus_def rescheduleJob_def o_ack_def o_enqueue_def origin_sample_trace_def
        origin_sample_requeued_def origin_sample_envelope_def del: json_stringify.simps)
  then show ?thesis by (simp add: origin_trace_def origin_run_def S_def)
qed

end
