(* ===== verification/Origin_Guarantees.thy ===== *)
theory Origin_Guarantees
  imports Origin_Sample
begin

text \<open>
  What following the protocol means for a job of the origin-reconciliation worker: when a change is passed on and as whom, what is
  fetched, when the job comes back, and when it is lost.
\<close>

section \<open>What the trace tells\<close>

definition update_record :: "'s origin_services \<Rightarrow> OriginReconciliationJob \<Rightarrow> origin_event list \<Rightarrow> origin_progress \<Rightarrow> bool" where
  "update_record S j es s \<longleftrightarrow>
     (\<forall>e b. OvInbound e b \<in> set es \<longrightarrow> op_sent s) \<and>
     (\<forall>b. op_body s = Some b \<longrightarrow> (\<exists>q r. OvRequest q (Some r) \<in> set es \<and> carried_object S r = Some b \<and> oq_url q = or_originObjectUrl j) \<and>
       isAllowedRemoteFetchUrl (os_parse S) (or_originObjectUrl j)) \<and>
     (\<forall>a. op_applied s = Some a \<longrightarrow> (\<exists>b. op_body s = Some b \<and> \<not> same_fingerprint j (origin_fp S b) \<and>
       OvApply (apply_key j) (origin_fp S b) (Some a) \<in> set es))"

lemma update_recorded: "leads (origin_protocol S C j) es s \<Longrightarrow> update_record S j es s"
proof (erule leads_invariant [where I = "update_record S j"])
  fix es s e s'
  assume "update_record S j es s" "pt_step (origin_protocol S C j) s e s'"
  then show "update_record S j (e # es) s'"
    unfolding origin_protocol_simps
    by (cases e) (auto simp: update_record_def origin_holding_def origin_working_def split: option.splits)
qed (simp_all add: update_record_def origin_start_def)

fun is_request :: "origin_event \<Rightarrow> bool" where
  "is_request (OvRequest _ _) = True"
| "is_request _ = False"

definition slots_taken :: "origin_event list \<Rightarrow> nat" where
  "slots_taken es = length (filter (\<lambda>e. e = OvSlot (Some True)) es)"

lemma if_one: "(1::nat) = (if b then 1 else 0) \<Longrightarrow> b"
  by (simp split: if_splits)

lemma origin_sample_slots: "slots_taken (origin_sample_trace f hint object) = 1"
  by (simp add: slots_taken_def origin_sample_trace_def del: json_stringify.simps stableStringify.simps)

definition slots_given_back :: "origin_event list \<Rightarrow> nat" where
  "slots_given_back es = length (filter (\<lambda>e. \<exists>b. e = OvRelease b) es)"

definition resource_record :: "'s origin_services \<Rightarrow> origin_config \<Rightarrow> OriginReconciliationJob \<Rightarrow> origin_event list \<Rightarrow> origin_progress \<Rightarrow> bool" where
  "resource_record S C j es s \<longleftrightarrow>
     length (filter is_request es) = op_requests s \<and> op_requests s \<le> fetch_budget C \<and>
     slots_taken es = (if op_slot s = Some True then 1 else 0) \<and> slots_given_back es = (if op_released s then 1 else 0) \<and>
     (op_released s \<longrightarrow> op_slot s = Some True) \<and>
     (\<forall>q r. OvRequest q r \<in> set es \<longrightarrow> oq_url q = or_originObjectUrl j \<and> isAllowedRemoteFetchUrl (os_parse S) (or_originObjectUrl j) \<and> op_slot s = Some True)"

lemma resources_recorded: "leads (origin_protocol S C j) es s \<Longrightarrow> resource_record S C j es s"
proof (erule leads_invariant [where I = "resource_record S C j"])
  fix es s e s'
  assume "resource_record S C j es s" "pt_step (origin_protocol S C j) s e s'"
  then show "resource_record S C j (e # es) s'"
    unfolding origin_protocol_simps
    by (cases e) (auto simp: resource_record_def origin_holding_def origin_working_def slots_taken_def slots_given_back_def)
qed (simp_all add: resource_record_def origin_start_def slots_taken_def slots_given_back_def)

definition hand_record :: "OriginReconciliationJob \<Rightarrow> origin_event list \<Rightarrow> origin_progress \<Rightarrow> bool" where
  "hand_record j es s \<longleftrightarrow>
     (op_acked s \<longleftrightarrow> OvAck True \<in> set es) \<and>
     (op_handed s \<longleftrightarrow> (\<exists>j'. OvRequeue j' True \<in> set es) \<or> (\<exists>j' r. OvDlq j' r True \<in> set es)) \<and>
     (\<forall>j'. OvRequeue j' False \<in> set es \<longrightarrow> op_acked s \<and> op_failed s \<and> \<not> op_handed s) \<and>
     (op_handed s \<longrightarrow> op_acked s) \<and>
     (\<forall>t. op_now s = Some t \<longrightarrow> OvTime t \<in> set es) \<and>
     (op_window s \<longrightarrow> (\<exists>t. OvTime t \<in> set es \<and> \<not> js_le (or_windowExpiresAt j) (Num t))) \<and>
     (op_rate s \<noteq> None \<longrightarrow> op_window s \<and> attempts_left j) \<and> (op_slot s \<noteq> None \<longrightarrow> op_rate s = Some True)"

lemma hands_recorded: "leads (origin_protocol S C j) es s \<Longrightarrow> hand_record j es s"
proof (erule leads_invariant [where I = "hand_record j"])
  fix es s e s'
  assume "hand_record j es s" "pt_step (origin_protocol S C j) s e s'"
  then show "hand_record j (e # es) s'"
    unfolding origin_protocol_simps
    by (cases e) (auto simp: hand_record_def origin_holding_def origin_working_def; blast)+
qed (simp_all add: hand_record_def origin_start_def)

section \<open>Properties\<close>

text \<open>C13: Every run of the origin-reconciliation worker follows its protocol, whatever the services answer: it asks for the rate limit only when the
  job is due, in its window and has attempts left, takes a slot only within the rate, fetches only an allowed URL and only in the slot, passes a change on
  before it acknowledges, and puts back only a job of the next round.  A run that resolves has acknowledged the entry and
  handed the job on or dropped it for one of the stated reasons; every run gives its slot back.\<close>
theorem processOriginJob_refines_protocol:
  "\<exists>s. leads (origin_protocol S C j) (origin_trace S C m j x) s \<and> ow_active (snd (origin_run S C m j x)) = 0 \<and>
     (op_slot s = Some True \<longrightarrow> op_released s) \<and>
     (case fst (origin_run S C m j x) of
        Inr _ \<Rightarrow> op_acked s \<and> (op_handed s \<or> origin_dropped S C j s)
      | Inl _ \<Rightarrow> op_acked s \<longrightarrow> op_failed s \<or> op_released s)"
  using origin_run_leads [where S = S and C = C and m = m and j = j and x = x]
  by (auto simp: run_ok_def run_bad_def finished_job_def split: sum.splits)

theorem processOriginJob_refines_protocol_witness:
  "\<exists>s. leads (origin_protocol (origin_sample_services False (JObj []) :: unit origin_services) origin_sample_config (origin_sample_job ''h''))
      (origin_sample_trace False ''h'' (JObj [])) s \<and>
    op_slot s = Some True \<and> op_released s"
proof -
  let ?S = "origin_sample_services False (JObj []) :: unit origin_services"
  have t: "origin_trace ?S origin_sample_config ''1-0'' (origin_sample_job ''h'') () = origin_sample_trace False ''h'' (JObj [])"
    by (rule origin_sample_run [OF sample_object_empty]) simp
  obtain s where l: "leads (origin_protocol ?S origin_sample_config (origin_sample_job ''h'')) (origin_sample_trace False ''h'' (JObj [])) s"
    and r: "op_slot s = Some True \<longrightarrow> op_released s"
    using processOriginJob_refines_protocol [of ?S origin_sample_config "origin_sample_job ''h''" "''1-0''" "()"] unfolding t by blast
  have "slots_taken (origin_sample_trace False ''h'' (JObj [])) = (if op_slot s = Some True then 1 else 0)"
    using resources_recorded [OF l] unfolding resource_record_def by (elim conjE)
  then have "op_slot s = Some True" unfolding origin_sample_slots by (rule if_one)
  with l r show ?thesis by blast
qed

text \<open>C23: A change is passed on only if there is one: when a run hands an activity to the inbound stream, it has fetched the
  object from the URL of the job, which the filter allows, the fingerprint of what it got differs from the one last
  seen and was claimed by this run, the activity is the one made of the object, and the run sends no other; the entry is not
  acknowledged yet.\<close>
theorem origin_update_only_on_change:
  assumes "origin_trace S C m j x = later @ OvInbound e b # earlier"
  shows "\<exists>q r object actor uuid envelopeId t t'.
    OvRequest q (Some r) \<in> set earlier \<and> oq_url q = or_originObjectUrl j \<and> carried_object S r = Some object \<and>
    isAllowedRemoteFetchUrl (os_parse S) (or_originObjectUrl j) \<and> \<not> same_fingerprint j (origin_fp S object) \<and>
    OvApply (apply_key j) (origin_fp S object) (Some True) \<in> set earlier \<and>
    synthetic_actor j object = Some actor \<and> e = synthetic_envelope uuid envelopeId t t' j actor object \<and>
    OvAck True \<notin> set earlier \<and> (\<forall>e' b'. OvInbound e' b' \<notin> set (later @ earlier))"
proof -
  obtain s s' where l: "leads (origin_protocol S C j) earlier s" and st: "origin_step S C j s (OvInbound e b) s'"
    using origin_split [OF assms] .
  from st obtain object actor uuid envelopeId t t' where o: "op_body s = Some object" "op_applied s = Some True" "\<not> op_sent s"
    "origin_holding s" "synthetic_actor j object = Some actor" "e = synthetic_envelope uuid envelopeId t t' j actor object" by auto
  note u = update_recorded [OF l, unfolded update_record_def]
  obtain q r where q: "OvRequest q (Some r) \<in> set earlier" "carried_object S r = Some object" "oq_url q = or_originObjectUrl j"
    "isAllowedRemoteFetchUrl (os_parse S) (or_originObjectUrl j)" using u o(1) by blast
  have c: "\<not> same_fingerprint j (origin_fp S object)" "OvApply (apply_key j) (origin_fp S object) (Some True) \<in> set earlier"
    using u o(1,2) by auto
  have "\<not> op_acked s" using o(4) by (simp add: origin_holding_def origin_working_def)
  then have a: "OvAck True \<notin> set earlier" using hands_recorded [OF l] by (simp add: hand_record_def)
  have before: "OvInbound e' b' \<notin> set earlier" for e' b' using u o(3) by blast
  have "OvInbound e' b' \<notin> set later" for e' b'
  proof
    assume "OvInbound e' b' \<in> set later"
    then obtain xs ys where "later = xs @ OvInbound e' b' # ys" by (meson split_list)
    then have "origin_trace S C m j x = xs @ OvInbound e' b' # (ys @ OvInbound e b # earlier)" using assms by simp
    then obtain v v' where v: "leads (origin_protocol S C j) (ys @ OvInbound e b # earlier) v" "origin_step S C j v (OvInbound e' b') v'"
      by (rule origin_split)
    have "op_sent v" using update_recorded [OF v(1)] unfolding update_record_def by fastforce
    with v(2) show False by auto
  qed
  then have "\<forall>e' b'. OvInbound e' b' \<notin> set (later @ earlier)" using before by simp
  with q c a o(5,6) show ?thesis by blast
qed

theorem origin_update_only_on_change_witness:
  "\<exists>q r. OvRequest q (Some r) \<in> set (drop 5 (origin_sample_trace False ''h'' (JObj []))) \<and>
    carried_object (origin_sample_services False (JObj []) :: unit origin_services) r = Some (JObj [])"
proof -
  let ?S = "origin_sample_services False (JObj []) :: unit origin_services"
  have t: "origin_trace ?S origin_sample_config ''1-0'' (origin_sample_job ''h'') () =
      take 4 (origin_sample_trace False ''h'' (JObj [])) @ OvInbound (origin_sample_envelope ''h'' (JObj [])) True #
      drop 5 (origin_sample_trace False ''h'' (JObj []))"
    by (subst origin_sample_run [OF sample_object_empty]) (simp_all add: origin_sample_trace_def)
  obtain q r object where o: "OvRequest q (Some r) \<in> set (drop 5 (origin_sample_trace False ''h'' (JObj [])))" "carried_object ?S r = Some object"
    using origin_update_only_on_change [OF t] by blast
  then have "r = \<lparr>og_status = 200, og_contentLength = None, og_chunks = [json_stringify (JObj [])], og_failure = None, og_dump = None\<rparr>"
    by (simp add: origin_sample_trace_def)
  then have "carried_object ?S r = Some (JObj [])"
    using origin_sample_carried [OF sample_object_empty] by simp
  with o(1) show ?thesis by blast
qed

text \<open>Fetching is bounded: every request of a run goes to the URL of the job, which the filter allows, there are at most as many
  as attempts are configured (at least one), and every slot taken is given back.\<close>
theorem origin_requests_bounded:
  "length (filter is_request (origin_trace S C m j x)) \<le> (case oc_requestRetries C of None \<Rightarrow> 0 | Some n \<Rightarrow> nat (max 1 (n + 1))) \<and>
   list_all (\<lambda>e. case e of OvRequest q _ \<Rightarrow> oq_url q = or_originObjectUrl j \<and> isAllowedRemoteFetchUrl (os_parse S) (or_originObjectUrl j) | _ \<Rightarrow> True)
     (origin_trace S C m j x) \<and>
   slots_taken (origin_trace S C m j x) = slots_given_back (origin_trace S C m j x)"
proof -
  obtain s where l: "leads (origin_protocol S C j) (origin_trace S C m j x) s" and r: "op_slot s = Some True \<longrightarrow> op_released s"
    using origin_run_leads [where S = S and C = C and m = m and j = j and x = x]
    by (cases "fst (origin_run S C m j x)") (auto simp: run_ok_def run_bad_def)
  note i = resources_recorded [OF l, unfolded resource_record_def fetch_budget_def]
  have "slots_taken (origin_trace S C m j x) = slots_given_back (origin_trace S C m j x)" using i r by auto
  moreover have "length (filter is_request (origin_trace S C m j x)) \<le> (case oc_requestRetries C of None \<Rightarrow> 0 | Some n \<Rightarrow> nat (max 1 (n + 1)))"
    using i by simp
  ultimately show ?thesis using i by (auto simp: list_all_iff split: origin_event.split)
qed

text \<open>The rounds of a job come to an end: a job that is put back is the same job, and either unchanged because it is not due yet,
  or postponed by at least fifteen seconds from a moment within its window, or one attempt further, with attempts left.\<close>
theorem origin_rounds_progress:
  assumes "origin_trace S C m j x = later @ OvRequeue j' b # earlier" and "or_attempt j = Num a" and "or_maxAttempts j = Num n"
  shows "or_jobId j' = or_jobId j \<and> or_originObjectUrl j' = or_originObjectUrl j \<and> or_windowExpiresAt j' = or_windowExpiresAt j \<and>
    or_maxAttempts j' = or_maxAttempts j \<and> or_actorUriHint j' = or_actorUriHint j \<and>
    (\<exists>t. OvTime t \<in> set earlier \<and>
      (j' = j \<and> js_lt (Num t) (or_notBeforeMs j) \<or>
       or_attempt j' = Num a \<and> (\<exists>d \<ge> 15000. or_notBeforeMs j' = Num (t + d)) \<and>
         (\<exists>t'. OvTime t' \<in> set earlier \<and> \<not> js_le (or_windowExpiresAt j) (Num t')) \<or>
       or_attempt j' = Num (a + 1) \<and> nat (n - (a + 1)) < nat (n - a)))"
proof -
  obtain s s' where l: "leads (origin_protocol S C j) earlier s" and st: "origin_step S C j s (OvRequeue j' b) s'"
    using origin_split [OF assms(1)] .
  note h = hands_recorded [OF l, unfolded hand_record_def]
  have further: "nat (n - (a + 1)) < nat (n - a)" if "op_slot s \<noteq> None"
  proof -
    have "attempts_left j" using h that by auto
    then show ?thesis using assms(2,3) by (simp add: attempts_left_def)
  qed
  from st have "origin_successor S C j s j'" by simp
  then show ?thesis
  proof (cases rule: origin_successor.cases)
    case (limited t)
    with h have "OvTime t \<in> set earlier" "\<exists>t'. OvTime t' \<in> set earlier \<and> \<not> js_le (or_windowExpiresAt j) (Num t')" by auto
    moreover have "\<exists>d \<ge> 15000. Num (t + 30000) = Num (t + d)" by (intro exI [of _ 30000]) simp
    ultimately show ?thesis using limited assms(2) by auto
  next
    case (crowded t)
    with h have "OvTime t \<in> set earlier" "\<exists>t'. OvTime t' \<in> set earlier \<and> \<not> js_le (or_windowExpiresAt j) (Num t')" by auto
    moreover have "\<exists>d \<ge> 15000. Num (t + 15000) = Num (t + d)" by (intro exI [of _ 15000]) simp
    ultimately show ?thesis using crowded assms(2) by auto
  qed (use h further assms(2) in \<open>auto simp: unchanged_job_def changed_job_def\<close>)
qed

theorem origin_rounds_progress_witness:
  "or_jobId (origin_sample_requeued ''h'' (JObj [])) = ''j'' \<and> nat (5 - (0 + 1)) < nat (5 - 0)"
proof -
  have t: "origin_trace (origin_sample_services False (JObj [])) origin_sample_config ''1-0'' (origin_sample_job ''h'') () =
      [OvRelease True] @ OvRequeue (origin_sample_requeued ''h'' (JObj [])) True # drop 2 (origin_sample_trace False ''h'' (JObj []))"
    by (subst origin_sample_run [OF sample_object_empty]) (simp_all add: origin_sample_trace_def)
  have a: "or_attempt (origin_sample_job ''h'') = Num 0" "or_maxAttempts (origin_sample_job ''h'') = Num 5" "or_jobId (origin_sample_job ''h'') = ''j''"
    by (simp_all add: origin_sample_job_def)
  from origin_rounds_progress [OF t a(1,2)] a(3) show ?thesis by simp
qed

text \<open>A job is acknowledged before it is put back, so putting it back can lose it: when a run fails to put a job back, its entry is
  acknowledged already, the job has not reached the dead-letter queue and is put back by nothing else in that run, which rejects.\<close>
theorem origin_job_lost:
  assumes "OvRequeue j' False \<in> set (origin_trace S C m j x)"
  shows "OvAck True \<in> set (origin_trace S C m j x) \<and> (\<forall>i. OvRequeue i True \<notin> set (origin_trace S C m j x)) \<and>
    (\<forall>i r. OvDlq i r True \<notin> set (origin_trace S C m j x)) \<and> (\<exists>e. fst (origin_run S C m j x) = Inl e)"
proof -
  obtain s where l: "leads (origin_protocol S C j) (origin_trace S C m j x) s"
    and r: "case fst (origin_run S C m j x) of Inr _ \<Rightarrow> run_ok S C j (0::int) s 0 | Inl _ \<Rightarrow> run_bad (0::int) s 0"
    using origin_run_leads [where S = S and C = C and m = m and j = j and x = x] by blast
  note h = hands_recorded [OF l, unfolded hand_record_def]
  have "op_acked s" "op_failed s" "\<not> op_handed s" using h assms by blast+
  moreover from this r have "\<exists>e. fst (origin_run S C m j x) = Inl e"
    by (auto simp: run_ok_def finished_job_def split: sum.splits)
  ultimately show ?thesis using h by blast
qed

theorem origin_job_lost_witness:
  "\<exists>e. fst (origin_run (origin_sample_services True (JObj [])) origin_sample_config ''1-0'' (origin_sample_job ''h'') ()) = Inl e"
proof -
  have "OvRequeue (origin_sample_requeued ''h'' (JObj [])) False \<in>
      set (origin_trace (origin_sample_services True (JObj [])) origin_sample_config ''1-0'' (origin_sample_job ''h'') ())"
    by (subst origin_sample_run [OF sample_object_empty]) (simp_all add: origin_sample_trace_def)
  from origin_job_lost [OF this] show ?thesis by blast
qed

section \<open>As whom a change is passed on\<close>



end
