(* ===== verification/Origin_Deployment.thy ===== *)
theory Origin_Deployment
  imports Origin_Guarantees Intent_Deployment
begin

text \<open>
  The origin-reconciliation worker on top of the markers that Redis keeps of the changes it has passed on: any number of runs on any
  jobs, with time passing between them.
\<close>

section \<open>What a run leaves alone\<close>

fun applies :: "origin_event list \<Rightarrow> (string \<times> string \<times> bool option) list" where
  "applies [] = []"
| "applies (OvApply k f r # es) = (k, f, r) # applies es"
| "applies (_ # es) = applies es"

lemma applies_set: "OvApply k f r \<in> set es \<longleftrightarrow> (k, f, r) \<in> set (applies es)"
  by (induction es rule: applies.induct) auto

text \<open>A predicate of the world that sees of the trace only the claims of changes, and of the services only \<open>P\<close>.\<close>

definition sees_applies :: "('s origin_world \<Rightarrow> bool) \<Rightarrow> ('s \<Rightarrow> bool) \<Rightarrow> bool" where
  "sees_applies I P \<longleftrightarrow>
     (\<forall>w w'. I w \<longrightarrow> (P (ow_srv w) \<longrightarrow> P (ow_srv w')) \<longrightarrow> applies (ow_trace w') = applies (ow_trace w) \<longrightarrow> I w')"

definition origin_services_keep :: "('s \<Rightarrow> bool) \<Rightarrow> 's origin_services \<Rightarrow> bool" where
  "origin_services_keep P S \<longleftrightarrow>
     (\<forall>s. P s \<longrightarrow> P (snd (os_now S s))) \<and> (\<forall>s. P s \<longrightarrow> P (snd (os_random S s))) \<and> (\<forall>s. P s \<longrightarrow> P (snd (os_uuid S s))) \<and>
     (\<forall>d s. P s \<longrightarrow> P (os_sleep S d s)) \<and> (\<forall>m. maintains P (os_ack S m)) \<and> (\<forall>j. maintains P (os_enqueue S j)) \<and>
     (\<forall>h l d. maintains P (os_rate S h l d)) \<and> (\<forall>h l. maintains P (os_slot S h l)) \<and> (\<forall>h. maintains P (os_release S h)) \<and>
     (\<forall>e. maintains P (os_inbound S e)) \<and> (\<forall>j r. maintains P (os_dlq S j r)) \<and> (\<forall>a u. maintains P (os_sign S a u)) \<and>
     (\<forall>q. maintains P (os_request S q))"

lemma sees_ocalled:
  assumes "sees_applies I P" and "maintains P m" and "\<And>r es. applies (ev r # es) = applies es"
  shows "maintains I (ocalled ev m)"
  unfolding maintains_def
proof (intro allI impI)
  fix w assume w: "I w"
  obtain r s where m: "m (ow_srv w) = (r, s)" by fastforce
  have "P (ow_srv w) \<longrightarrow> P s" using assms(2) m by (auto dest: maintainsD)
  moreover have "snd (ocalled ev m w) = w\<lparr>ow_srv := s, ow_trace := ev r # ow_trace w\<rparr>" by (simp add: ocalled_def m)
  ultimately show "I (snd (ocalled ev m w))" using assms(1,3) w unfolding sees_applies_def by fastforce
qed

lemma sees_odraw:
  assumes "sees_applies I P" and "\<And>s. P s \<Longrightarrow> P (snd (f s))"
  shows "maintains I (odraw f)"
  unfolding maintains_def
proof (intro allI impI)
  fix w assume w: "I w"
  have "snd (odraw f w) = w\<lparr>ow_srv := snd (f (ow_srv w))\<rparr>" by (simp add: odraw_def split: prod.split)
  with assms w show "I (snd (odraw f w))" unfolding sees_applies_def by fastforce
qed

lemma sees_oclock:
  assumes "sees_applies I P" and "\<And>s. P s \<Longrightarrow> P (snd (os_now S s))"
  shows "maintains I (oclock S)"
  unfolding maintains_def
proof (intro allI impI)
  fix w assume w: "I w"
  have "snd (oclock S w) = w\<lparr>ow_srv := snd (os_now S (ow_srv w)), ow_trace := OvTime (fst (os_now S (ow_srv w))) # ow_trace w\<rparr>"
    by (simp add: oclock_def split: prod.split)
  with assms w show "I (snd (oclock S w))" unfolding sees_applies_def by fastforce
qed

lemma maintains_osum: "maintains I (osum x)"
  by (cases x) (simp_all add: osum_def keep_rules)

lemma processOriginJob_maintains:
  assumes I: "sees_applies I P" and k: "origin_services_keep P S"
    and claim: "\<And>key f. maintains I (ocalled (\<lambda>r. OvApply key f (reply r)) (os_apply S key f (oc_applyIdempotencyTtlSeconds C)))"
  shows "maintains I (processOriginJob S C m j)"
proof -
  have p: "P s \<Longrightarrow> P (snd (os_now S s))" "P s \<Longrightarrow> P (snd (os_random S s))" "P s \<Longrightarrow> P (snd (os_uuid S s))" "P s \<Longrightarrow> P (os_sleep S d s)"
    "maintains P (os_ack S a)" "maintains P (os_enqueue S i)" "maintains P (os_rate S h l l')" "maintains P (os_slot S h l)"
    "maintains P (os_release S h)" "maintains P (os_inbound S e)" "maintains P (os_dlq S i r)" "maintains P (os_sign S a u)" "maintains P (os_request S q)"
    for s d a i h l l' e r u q using k unfolding origin_services_keep_def by blast+
  have clock: "maintains I (oclock S)" by (rule sees_oclock [OF I p(1)])
  have draw: "maintains I (odraw (os_random S))" "maintains I (odraw (os_uuid S))" "maintains I (odraw (\<lambda>s. ((), os_sleep S d s)))" for d
    by (rule sees_odraw [OF I], simp add: p)+
  have ack: "maintains I (o_ack S a)" for a unfolding o_ack_def by (rule sees_ocalled [OF I p(5)]) simp
  have enq: "maintains I (o_enqueue S i)" for i unfolding o_enqueue_def by (intro keep_rules sees_ocalled [OF I p(6)]) simp
  have again: "maintains I (rescheduleJob S a i)" for a i unfolding rescheduleJob_def by (intro keep_rules ack enq)
  have deferred: "maintains I (deferJob S a i d r)" for a i d r unfolding deferJob_def by (intro keep_rules clock again)
  have plus: "maintains I (origin_now_plus S f)" for f unfolding origin_now_plus_def by (intro keep_rules clock draw)
  have once: "maintains I (fetch_once S C u b)" for u b
    unfolding fetch_once_def
    by (auto intro!: keep_rules maintains_osum sees_ocalled [OF I p(12)] sees_ocalled [OF I p(13)] split: sum.split prod.split)
  have attempts: "maintains I (fetch_attempts S C u n left)" for u n left
    by (induction left arbitrary: n)
       (auto simp: retry_delay_def intro!: keep_rules once draw split: option.split)
  have failed: "maintains I (handleFailedFetch S a i c e)" for a i c e
    unfolding handleFailedFetch_def Let_def
    by (auto intro!: keep_rules clock plus again ack sees_ocalled [OF I p(11)] split: fetch_class.split)
  have update: "maintains I (enqueueSyntheticUpdate S i b)" for i b
    unfolding enqueueSyntheticUpdate_def Let_def
    by (auto intro!: keep_rules clock draw sees_ocalled [OF I p(10)] split: option.split)
  have reconcile: "maintains I (reconcile S C m j)"
    unfolding reconcile_def fetchRemoteObject_def next_round_def Let_def
    by (auto intro!: keep_rules attempts failed update ack plus again claim split: fetch_result.split)
  have admitted: "maintains I (origin_admitted S C m j h)" for h
    unfolding origin_admitted_def
    by (intro keep_rules deferred reconcile sees_ocalled [OF I p(7)] sees_ocalled [OF I p(8)] sees_ocalled [OF I p(9)]) simp_all
  have add: "maintains I (oadd_active d)" for d
    using I unfolding maintains_def oadd_active_def sees_applies_def by simp
  show ?thesis
    unfolding processOriginJob_def origin_not_due_def
    by (intro keep_rules add) (auto intro!: keep_rules clock again ack admitted split: option.split)
qed

section \<open>The markers in Redis\<close>

text \<open>\<open>markOriginReconciliationApplied\<close> of \<open>Queue_Core\<close>, run on the first component of the state; Redis refuses a time to live that is no number.\<close>

definition redis_origin ::
  "'r redis \<Rightarrow> (string \<Rightarrow> string) \<Rightarrow> queue_config \<Rightarrow> ('r \<times> 'x) origin_services \<Rightarrow> ('r \<times> 'x) origin_services" where
  "redis_origin R uri c S = S\<lparr>os_apply := \<lambda>k f ttl. on_redis (case ttl of
     Num t \<Rightarrow> markOriginReconciliationApplied R uri c k f t
   | _ \<Rightarrow> io_throw ''ERR value is not an integer or out of range'')\<rparr>"

definition appliedKey :: "(string \<Rightarrow> string) \<Rightarrow> string \<Rightarrow> string \<Rightarrow> string" where
  "appliedKey uri k f = ''ap:origin-reconcile:apply:'' @ uri k @ '':'' @ f"

text \<open>The other services may do anything, on the same Redis too, as long as they do not take the marker away.\<close>

definition origin_marker_kept :: "('r \<Rightarrow> keyspace) \<Rightarrow> string \<Rightarrow> ('r \<times> 'x) origin_services \<Rightarrow> bool" where
  "origin_marker_kept view K S \<longleftrightarrow> (\<forall>r. origin_services_keep (\<lambda>s. key_lives r K (view (fst s))) S)"

lemma redis_origin_keep: "origin_services_keep P (redis_origin R uri c S) = origin_services_keep P S"
  by (simp add: origin_services_keep_def redis_origin_def)

datatype origin_deployment = RunOrigin origin_config string OriginReconciliationJob | Elapse nat

fun elapse_time :: "origin_deployment \<Rightarrow> nat" where
  "elapse_time (Elapse d) = d"
| "elapse_time (RunOrigin _ _ _) = 0"

definition elapsed :: "origin_deployment list \<Rightarrow> nat" where
  "elapsed xs = sum_list (map elapse_time xs)"

fun deploy_origin ::
  "'r redis \<Rightarrow> ('r \<times> 'x) origin_services \<Rightarrow> origin_deployment list \<Rightarrow> 'r \<times> 'x \<Rightarrow>
   (origin_deployment \<times> origin_event list) list \<times> ('r \<times> 'x)" where
  "deploy_origin R S [] s = ([], s)"
| "deploy_origin R S (Elapse d # xs) s =
     (case deploy_origin R S xs (r_tick R d (fst s), snd s) of (tr, s') \<Rightarrow> ((Elapse d, []) # tr, s'))"
| "deploy_origin R S (RunOrigin C m j # xs) s =
     (case deploy_origin R S xs (ow_srv (snd (origin_run S C m j s))) of
        (tr, s') \<Rightarrow> ((RunOrigin C m j, origin_trace S C m j s) # tr, s'))"

lemma origin_run_maintains:
  assumes "sees_applies I P" and "origin_services_keep P S" and "I \<lparr>ow_srv = s, ow_trace = [], ow_active = 0\<rparr>"
    and "\<And>key f. maintains I (ocalled (\<lambda>r. OvApply key f (reply r)) (os_apply S key f (oc_applyIdempotencyTtlSeconds C)))"
  shows "I (snd (origin_run S C m j s))"
  unfolding origin_run_def by (rule maintains_snd [OF processOriginJob_maintains [OF assms(1,2,4)] assms(3)])

context redis_server
begin

lemma claim_key:
  assumes "markOriginReconciliationApplied R uri c k f t s = (a, s')"
  shows "key_lives r K (view s) \<longrightarrow> key_lives r K (view s')"
    and "a = Inr True \<longrightarrow> \<not> key_lives 0 (appliedKey uri k f) (view s) \<and>
      (int r < 1000 * t \<longrightarrow> key_lives r (appliedKey uri k f) (view s'))"
proof -
  have "(key_lives r K (view s) \<longrightarrow> key_lives r K (view s')) \<and>
      (a = Inr True \<longrightarrow> \<not> key_lives 0 (appliedKey uri k f) (view s) \<and> (int r < 1000 * t \<longrightarrow> key_lives r (appliedKey uri k f) (view s')))"
  proof (cases "isConnected c")
    case True
    then show ?thesis
      using assms key_lives_now [of r K "view s"]
      by (auto simp: markOriginReconciliationApplied_def appliedKey_def connected_run set_nx_def redis_view key_lives_get key_lives_set
          split: if_splits)
  next
    case False
    then show ?thesis using assms by (auto simp: markOriginReconciliationApplied_def not_connected)
  qed
  then show "key_lives r K (view s) \<longrightarrow> key_lives r K (view s')"
    "a = Inr True \<longrightarrow> \<not> key_lives 0 (appliedKey uri k f) (view s) \<and> (int r < 1000 * t \<longrightarrow> key_lives r (appliedKey uri k f) (view s'))"
    by blast+
qed

text \<open>One claim of a change: it keeps the markers there are; one that is granted found no marker, and leaves its own.\<close>

lemma apply_call:
  fixes S :: "('s \<times> 'x) origin_services"
  assumes "ocalled (\<lambda>r. OvApply k f (reply r)) (os_apply (redis_origin R uri c S) k f ttl) w = (a, w')"
  shows "(key_lives r K (view (fst (ow_srv w))) \<longrightarrow> key_lives r K (view (fst (ow_srv w')))) \<and>
    (\<exists>x. ow_trace w' = OvApply k f x # ow_trace w \<and>
      (x = Some True \<longrightarrow> \<not> key_lives 0 (appliedKey uri k f) (view (fst (ow_srv w))) \<and>
        (\<forall>t. ttl = Num t \<longrightarrow> int r < 1000 * t \<longrightarrow> key_lives r (appliedKey uri k f) (view (fst (ow_srv w'))))))"
proof (cases ttl)
  case (Num t)
  obtain b s' where m: "markOriginReconciliationApplied R uri c k f t (fst (ow_srv w)) = (b, s')" by fastforce
  have "fst (ow_srv w') = s'" "ow_trace w' = OvApply k f (reply b) # ow_trace w"
    using assms m Num by (auto simp: ocalled_def redis_origin_def on_redis_def)
  moreover have "reply b = Some True \<Longrightarrow> b = Inr True" by (cases b) simp_all
  ultimately show ?thesis using claim_key(1) [OF m, where r = r and K = K] claim_key(2) [OF m, where r = r] Num by auto
qed (use assms in \<open>auto simp: ocalled_def redis_origin_def on_redis_def io_throw_def\<close>)

lemma origin_run_keeps_marker:
  fixes S :: "('s \<times> 'x) origin_services"
  assumes "origin_marker_kept view K S" and "key_lives r K (view (fst s))"
  shows "key_lives r K (view (fst (ow_srv (snd (origin_run (redis_origin R uri c S) C m j s)))))"
proof (rule origin_run_maintains [where I = "\<lambda>w. key_lives r K (view (fst (ow_srv w)))" and P = "\<lambda>s. key_lives r K (view (fst s))"])
  show "sees_applies (\<lambda>w. key_lives r K (view (fst (ow_srv w)))) (\<lambda>s. key_lives r K (view (fst s)))" by (simp add: sees_applies_def)
  show "origin_services_keep (\<lambda>s. key_lives r K (view (fst s))) (redis_origin R uri c S)"
    using assms(1) by (simp add: origin_marker_kept_def redis_origin_keep)
  show "maintains (\<lambda>w. key_lives r K (view (fst (ow_srv w)))) (ocalled (\<lambda>r. OvApply k f (reply r))
      (os_apply (redis_origin R uri c S) k f (oc_applyIdempotencyTtlSeconds C)))" for k f
    unfolding maintains_def using apply_call [OF surjective_pairing] by blast
qed (simp add: assms(2))

lemma origin_run_leaves_marker:
  fixes S :: "('s \<times> 'x) origin_services"
  assumes "origin_marker_kept view (appliedKey uri k f) S" and "oc_applyIdempotencyTtlSeconds C = Num t" and "int r < 1000 * t"
    and "OvApply k f (Some True) \<in> set (origin_trace (redis_origin R uri c S) C m j s)"
  shows "key_lives r (appliedKey uri k f) (view (fst (ow_srv (snd (origin_run (redis_origin R uri c S) C m j s)))))"
proof -
  let ?S = "redis_origin R uri c S" and ?K = "appliedKey uri k f"
  let ?I = "\<lambda>w. OvApply k f (Some True) \<in> set (ow_trace w) \<longrightarrow> key_lives r ?K (view (fst (ow_srv w)))"
  have "?I (snd (origin_run ?S C m j s))"
  proof (rule origin_run_maintains [where P = "\<lambda>s. key_lives r ?K (view (fst s))"])
    show "sees_applies ?I (\<lambda>s. key_lives r ?K (view (fst s)))" by (auto simp: sees_applies_def applies_set)
    show "origin_services_keep (\<lambda>s. key_lives r ?K (view (fst s))) ?S"
      using assms(1) by (simp add: origin_marker_kept_def redis_origin_keep)
    show "maintains ?I (ocalled (\<lambda>r. OvApply k' f' (reply r)) (os_apply ?S k' f' (oc_applyIdempotencyTtlSeconds C)))" for k' f'
      unfolding maintains_def
    proof (intro allI, rule impI)
      fix w :: "('s \<times> 'x) origin_world" assume w: "?I w"
      note x = apply_call [where S = S and r = r and K = ?K and k = k' and f = f' and ttl = "oc_applyIdempotencyTtlSeconds C" and w = w and uri = uri
          and c = c, OF surjective_pairing]
      show "?I (snd (ocalled (\<lambda>r. OvApply k' f' (reply r)) (os_apply ?S k' f' (oc_applyIdempotencyTtlSeconds C)) w))"
        using x assms(2,3) w by auto
    qed
  qed simp
  with assms(4) show ?thesis by (simp add: origin_trace_def)
qed

lemma marked_run_claims_nothing:
  fixes S :: "('s \<times> 'x) origin_services"
  assumes "origin_marker_kept view (appliedKey uri k f) S" and "key_lives 0 (appliedKey uri k f) (view (fst s))"
  shows "OvApply k f (Some True) \<notin> set (origin_trace (redis_origin R uri c S) C m j s)"
proof -
  let ?S = "redis_origin R uri c S" and ?K = "appliedKey uri k f"
  let ?I = "\<lambda>w. OvApply k f (Some True) \<notin> set (ow_trace w) \<and> key_lives 0 ?K (view (fst (ow_srv w)))"
  have "?I (snd (origin_run ?S C m j s))"
  proof (rule origin_run_maintains [where P = "\<lambda>s. key_lives 0 ?K (view (fst s))"])
    show "sees_applies ?I (\<lambda>s. key_lives 0 ?K (view (fst s)))" by (auto simp: sees_applies_def applies_set)
    show "origin_services_keep (\<lambda>s. key_lives 0 ?K (view (fst s))) ?S"
      using assms(1) by (simp add: origin_marker_kept_def redis_origin_keep)
    show "maintains ?I (ocalled (\<lambda>r. OvApply k' f' (reply r)) (os_apply ?S k' f' (oc_applyIdempotencyTtlSeconds C)))" for k' f'
      unfolding maintains_def
    proof (intro allI impI)
      fix w :: "('s \<times> 'x) origin_world" assume w: "?I w"
      note x = apply_call [where S = S and r = 0 and K = ?K and k = k' and f = f' and ttl = "oc_applyIdempotencyTtlSeconds C" and w = w and uri = uri
          and c = c, OF surjective_pairing]
      show "?I (snd (ocalled (\<lambda>r. OvApply k' f' (reply r)) (os_apply ?S k' f' (oc_applyIdempotencyTtlSeconds C)) w))"
        using x w by auto
    qed
  qed (simp add: assms(2))
  then show ?thesis by (simp add: origin_trace_def)
qed

text \<open>While the marker lives, no run of a deployment is granted the claim.\<close>

lemma deployed_runs_claim_nothing:
  fixes S :: "('s \<times> 'x) origin_services"
  assumes "origin_marker_kept view (appliedKey uri k f) S"
    and "key_lives r (appliedKey uri k f) (view (fst s))" and "elapsed xs \<le> r"
    and "(RunOrigin C m j, es) \<in> set (fst (deploy_origin R (redis_origin R uri c S) xs s))"
  shows "OvApply k f (Some True) \<notin> set es \<and> (\<exists>x. es = origin_trace (redis_origin R uri c S) C m j x)"
  using assms(2-4)
proof (induction xs arbitrary: r s)
  case (Cons x xs)
  have le: "elapse_time x \<le> r" "elapsed xs \<le> r - elapse_time x" using Cons.prems(2) by (auto simp: elapsed_def)
  show ?case
  proof (cases x)
    case (Elapse d)
    have "key_lives (r - d) (appliedKey uri k f) (view (fst (r_tick R d (fst s), snd s)))"
      using Cons.prems(1) le Elapse by (simp add: redis_view key_lives_tick)
    from Cons.IH [OF this] Cons.prems(3) le Elapse show ?thesis by (auto split: prod.splits)
  next
    case (RunOrigin C' m' j')
    let ?S = "redis_origin R uri c S"
    have f: "key_lives r (appliedKey uri k f) (view (fst (ow_srv (snd (origin_run ?S C' m' j' s)))))"
      by (rule origin_run_keeps_marker [OF assms(1) Cons.prems(1)])
    from Cons.prems(3) RunOrigin consider "j' = j" "C' = C" "m' = m" "es = origin_trace ?S C' m' j' s"
      | "(RunOrigin C m j, es) \<in> set (fst (deploy_origin R ?S xs (ow_srv (snd (origin_run ?S C' m' j' s)))))"
      by (auto split: prod.splits)
    then show ?thesis
    proof cases
      case 1
      with marked_run_claims_nothing [OF assms(1) key_lives_now [OF Cons.prems(1)]] show ?thesis by blast
    next
      case 2
      from Cons.IH [OF f _ 2] le RunOrigin show ?thesis by simp
    qed
  qed
qed simp

end

text \<open>What is sent was claimed in the same run.\<close>

lemma sent_was_claimed:
  assumes "OvInbound e b \<in> set (origin_trace S C m j x)"
  obtains object actor uuid envelopeId t t' where "e = synthetic_envelope uuid envelopeId t t' j actor object"
    "OvApply (apply_key j) (origin_fp S object) (Some True) \<in> set (origin_trace S C m j x)"
proof -
  obtain later earlier where t: "origin_trace S C m j x = later @ OvInbound e b # earlier" using assms by (meson split_list)
  obtain s s' where l: "leads (origin_protocol S C j) earlier s" and st: "origin_step S C j s (OvInbound e b) s'"
    using origin_split [OF t] .
  from st obtain object actor uuid envelopeId v v' where o: "op_body s = Some object" "op_applied s = Some True"
    "e = synthetic_envelope uuid envelopeId v v' j actor object" by auto
  have "OvApply (apply_key j) (origin_fp S object) (Some True) \<in> set earlier"
    using update_recorded [OF l] o(1,2) by (auto simp: update_record_def)
  then have "OvApply (apply_key j) (origin_fp S object) (Some True) \<in> set (origin_trace S C m j x)" by (simp add: t)
  with o(3) show thesis by (rule that)
qed

text \<open>C14: A change of an object is passed on at most once: after a run that was granted the claim of a fingerprint, whatever runs follow on jobs with
  the same key (a redelivered entry, the next round, a job of another thread, another worker), within the time to live of the claim, none
  is granted it again, and every update they send is of an object with another fingerprint.  This holds whether or not the first run managed to send its
  update, so an update that failed after the claim is not sent by a later round either.\<close>
theorem origin_change_passed_once:
  assumes "redis_server R view" and "origin_marker_kept view (appliedKey uri k f) S" and "oc_applyIdempotencyTtlSeconds C = Num t"
    and "OvApply k f (Some True) \<in> set (origin_trace (redis_origin R uri c S) C m j s)"
    and "ow_srv (snd (origin_run (redis_origin R uri c S) C m j s)) = s'" and "int (elapsed xs) < 1000 * t"
    and "(RunOrigin C' m' j', es) \<in> set (fst (deploy_origin R (redis_origin R uri c S) xs s'))"
  shows "OvApply k f (Some True) \<notin> set es \<and>
    (\<forall>e b. OvInbound e b \<in> set es \<longrightarrow> apply_key j' = k \<longrightarrow>
       (\<exists>object actor uuid envelopeId v v'. e = synthetic_envelope uuid envelopeId v v' j' actor object \<and>
          fingerprintJsonObject (os_sha256 S) object \<noteq> f))"
proof -
  note d = redis_server.deployed_runs_claim_nothing [OF assms(1,2)
      redis_server.origin_run_leaves_marker [OF assms(1-3,6,4), unfolded assms(5)] order_refl assms(7)]
  then obtain x where es: "es = origin_trace (redis_origin R uri c S) C' m' j' x" by blast
  have fp: "origin_fp (redis_origin R uri c S) b = fingerprintJsonObject (os_sha256 S) b" for b
    by (simp add: origin_fp_def redis_origin_def)
  have "\<exists>object actor uuid envelopeId v v'. e = synthetic_envelope uuid envelopeId v v' j' actor object \<and>
      fingerprintJsonObject (os_sha256 S) object \<noteq> f" if "OvInbound e b \<in> set es" "apply_key j' = k" for e b
    using sent_was_claimed [OF that(1) [unfolded es]] d that(2) unfolding es fp by metis
  with d show ?thesis by blast
qed

section \<open>Sample\<close>

text \<open>The sample services on Redis, where the inbound stream cannot be reached.\<close>

definition origin_redis_sample :: "json \<Rightarrow> (keyspace \<times> unit) origin_services" where
  "origin_redis_sample object = origin_sample_services False object\<lparr>os_inbound := \<lambda>e. io_throw ''connection lost''\<rparr>"

lemma origin_redis_sample_kept: "origin_marker_kept (\<lambda>ks. ks) K (origin_redis_sample object)"
  by (simp add: origin_marker_kept_def origin_services_keep_def origin_redis_sample_def origin_sample_services_def maintains_def io_return_def io_throw_def)

lemma origin_redis_sample_fetch:
  fixes S :: "(keyspace \<times> unit) origin_services"
  assumes "S = redis_origin ks_server (\<lambda>k. k) sample_queue (origin_redis_sample object)"
  shows "fetchRemoteObject S = fetchRemoteObject (origin_sample_services False object)"
proof -
  define T :: "(keyspace \<times> unit) origin_services" where "T = origin_sample_services False object"
  have e: "os_parse S = os_parse T" "os_sign S = os_sign T" "os_request S = os_request T" "os_random S = os_random T" "os_sleep S = os_sleep T"
    "os_sha256 S = os_sha256 T" "os_utf8 S = os_utf8 T"
    by (simp_all add: assms T_def redis_origin_def origin_redis_sample_def)
  have a: "fetch_attempts S C u n left = fetch_attempts T C u n left" for C u n left
  proof (induction left arbitrary: n)
    case (Suc left)
    have q: "read_response S = read_response T" "origin_request_for S = origin_request_for T"
      by (simp_all only: fun_eq_iff read_response_def origin_request_for_def e simp_thms)
    have r: "fetch_once S = fetch_once T" "retry_delay S = retry_delay T"
      by (simp_all only: fun_eq_iff fetch_once_def retry_delay_def e q simp_thms)
    show ?case by (simp add: r Suc.IH)
  qed (simp add: e)
  show ?thesis by (intro ext) (simp add: fetchRemoteObject_def a e flip: T_def)
qed

lemma origin_sample_ttl: "oc_applyIdempotencyTtlSeconds origin_sample_config = Num 604800"
  by (simp add: origin_sample_config_def createOriginReconciliationWorker_def env_text_def int_or_nan_def parse_int_def js_space_def js_digit_def digits_val_def digit_val_def)

lemma origin_redis_first_run:
  "origin_trace (redis_origin ks_server (\<lambda>k. k) sample_queue (origin_redis_sample (JObj []))) origin_sample_config m (origin_sample_job ''h'') (empty_ks, ()) =
     OvRelease True # OvInbound (origin_sample_envelope ''h'' (JObj [])) False # drop 5 (origin_sample_trace False ''h'' (JObj []))"
proof -
  obtain u where u: "mini_parse ''https://b.example/n/1'' = Some u" "u_host u = ''b.example''" using origin_sample_url(2) by auto
  define S where "S = redis_origin ks_server (\<lambda>k. k) sample_queue (origin_redis_sample (JObj []))"
  let ?f = "stableStringify (JObj [])" and ?k = "''https://b.example/n/1''"
  obtain ks1 where mk: "markOriginReconciliationApplied ks_server (\<lambda>k. k) sample_queue ?k ?f 604800 empty_ks = (Inr True, ks1)"
    by (simp add: markOriginReconciliationApplied_def connected_run sample_facts set_nx_def ks_eval)
  have sv: "os_now S = (\<lambda>s. (1000000, s))" "os_random S = (\<lambda>s. (0, s))" "os_uuid S = (\<lambda>s. (''u'', s))" "os_rate S = (\<lambda>h l w. io_return True)"
    "os_slot S = (\<lambda>h l. io_return True)" "os_release S = (\<lambda>h. io_return ())" "os_inbound S = (\<lambda>e. io_throw ''connection lost'')" "os_parse S = mini_parse"
    "os_apply S ?k ?f (Num 604800) (empty_ks, ()) = (Inr True, (ks1, ()))"
    by (simp_all add: S_def redis_origin_def origin_redis_sample_def origin_sample_services_def on_redis_def mk [simplified])
  have fetched: "fetchRemoteObject S origin_sample_config ?k w = (Inr (Fetched (JObj []) ?f),
     w\<lparr>ow_trace := OvRequest origin_sample_request (Some \<lparr>og_status = 200, og_contentLength = None, og_chunks = [json_stringify (JObj [])],
       og_failure = None, og_dump = None\<rparr>) # OvSign True # ow_trace w\<rparr>)" for w
    by (simp only: origin_redis_sample_fetch [OF S_def] origin_sample_fetched [OF sample_object_empty])
  have j: "or_originObjectUrl (origin_sample_job hint) = ?k" "or_notBeforeMs (origin_sample_job hint) = Num 30000"
    "or_windowExpiresAt (origin_sample_job hint) = Num 1800000" "or_maxAttempts (origin_sample_job hint) = Num 5"
    "or_attempt (origin_sample_job hint) = Num 0" "or_lastFingerprint (origin_sample_job hint) = Some ''f''"
    "or_actorUriHint (origin_sample_job hint) = Some hint" "or_canonicalObjectId (origin_sample_job hint) = None" for hint
    by (simp_all add: origin_sample_job_def)
  have new: "\<not> same_fingerprint (origin_sample_job ''h'') ?f" by (simp add: same_fingerprint_def j)
  have "ow_trace (snd (processOriginJob S origin_sample_config m (origin_sample_job ''h'') \<lparr>ow_srv = (empty_ks, ()), ow_trace = [], ow_active = 0\<rparr>))
      = OvRelease True # OvInbound (origin_sample_envelope ''h'' (JObj [])) False # drop 5 (origin_sample_trace False ''h'' (JObj []))"
    by (simp add: processOriginJob_def io_then_def io_bind_def io_return_def io_throw_def io_finally_def oadd_active_def sv j u origin_not_due_def oclock_def
        origin_admitted_def ocalled_def reconcile_def fetched new apply_key_def enqueueSyntheticUpdate_def synthetic_actor_def origin_sample_ttl
        odraw_def Let_def origin_sample_trace_def
        origin_sample_requeued_def origin_sample_envelope_def del: json_stringify.simps stableStringify.simps)
  then show ?thesis by (simp add: origin_trace_def origin_run_def S_def)
qed

theorem origin_change_passed_once_witness:
  "\<exists>s' es. s' = ow_srv (snd (origin_run (redis_origin ks_server (\<lambda>k. k) sample_queue (origin_redis_sample (JObj []))) origin_sample_config ''1-0''
      (origin_sample_job ''h'') (empty_ks, ()))) \<and>
    OvInbound (origin_sample_envelope ''h'' (JObj [])) False \<in>
      set (origin_trace (redis_origin ks_server (\<lambda>k. k) sample_queue (origin_redis_sample (JObj []))) origin_sample_config ''1-0''
        (origin_sample_job ''h'') (empty_ks, ())) \<and>
    fst (deploy_origin ks_server (redis_origin ks_server (\<lambda>k. k) sample_queue (origin_redis_sample (JObj [])))
      [Elapse 86400000, RunOrigin origin_sample_config ''1-0'' (origin_sample_job ''h'')] s') =
      [(Elapse 86400000, []), (RunOrigin origin_sample_config ''1-0'' (origin_sample_job ''h''), es)] \<and>
    OvApply ''https://b.example/n/1'' (stableStringify (JObj [])) (Some True) \<notin> set es"
proof -
  let ?S = "redis_origin ks_server (\<lambda>k. k) sample_queue (origin_redis_sample (JObj []))"
  let ?s' = "ow_srv (snd (origin_run ?S origin_sample_config ''1-0'' (origin_sample_job ''h'') (empty_ks, ())))"
  let ?xs = "[Elapse 86400000, RunOrigin origin_sample_config ''1-0'' (origin_sample_job ''h'')]"
  obtain es where es: "fst (deploy_origin ks_server ?S ?xs ?s') =
      [(Elapse 86400000, []), (RunOrigin origin_sample_config ''1-0'' (origin_sample_job ''h''), es)]" by simp
  have f: "OvApply ''https://b.example/n/1'' (stableStringify (JObj [])) (Some True) \<in>
      set (origin_trace ?S origin_sample_config ''1-0'' (origin_sample_job ''h'') (empty_ks, ()))"
    by (simp add: origin_redis_first_run origin_sample_trace_def del: json_stringify.simps stableStringify.simps)
  have i: "OvInbound (origin_sample_envelope ''h'' (JObj [])) False \<in>
      set (origin_trace ?S origin_sample_config ''1-0'' (origin_sample_job ''h'') (empty_ks, ()))"
    by (simp add: origin_redis_first_run del: json_stringify.simps stableStringify.simps)
  have p: "int (elapsed ?xs) < 1000 * 604800" by (simp add: elapsed_def)
  have m: "(RunOrigin origin_sample_config ''1-0'' (origin_sample_job ''h''), es) \<in> set (fst (deploy_origin ks_server ?S ?xs ?s'))"
    unfolding es by simp
  from origin_change_passed_once [OF redis_server_ks_server origin_redis_sample_kept origin_sample_ttl f refl p m] es i show ?thesis by blast
qed

end
