(* ===== verification/Inbound_Activity.thy ===== *)
theory Inbound_Activity
  imports Queue_Core Outbound_Worker Delivery_Policy Delivery_Plan
begin

text \<open>
  The pure functions of \<open>fedify-sidecar/src/delivery/inbound-worker.ts\<close>: what a key document says, how a \<open>Signature\<close> header is read and the
  text it signs is rebuilt, and what the addressing fields of an activity say.  A missing field is \<open>None\<close>; \<open>null\<close> is \<open>JNull\<close>.
\<close>

section \<open>Values\<close>

fun isRecord :: "json \<Rightarrow> bool" where
  "isRecord (JObj _) = True"
| "isRecord _ = False"

fun nonempty_text :: "json option \<Rightarrow> string option" where
  "nonempty_text (Some (JStr s)) = (if s = [] then None else Some s)"
| "nonempty_text _ = None"

definition isNonEmptyString :: "json option \<Rightarrow> bool" where
  "isNonEmptyString v \<longleftrightarrow> nonempty_text v \<noteq> None"

definition falsy :: "json option \<Rightarrow> bool" where
  "falsy v \<longleftrightarrow> (case v of None \<Rightarrow> True | Some j \<Rightarrow> \<not> json_truthy j)"

text \<open>\<open>typeof v === "string" && v.trim().length > 0 ? v.trim() : null\<close>\<close>

fun trimmed_text :: "json option \<Rightarrow> string option" where
  "trimmed_text (Some (JStr s)) = (if js_trim s = [] then None else Some (js_trim s))"
| "trimmed_text _ = None"

text \<open>\<open>String(v)\<close>\<close>

fun js_String :: "json \<Rightarrow> string" where
  "js_String JNull = ''null''"
| "js_String (JBool b) = (if b then ''true'' else ''false'')"
| "js_String (JNum i) = show_int i"
| "js_String (JFrac t) = t"
| "js_String (JStr s) = s"
| "js_String (JArr xs) = json_join (map (\<lambda>x. if x = JNull then [] else js_String x) xs)"
| "js_String (JObj _) = ''[object Object]''"

section \<open>Key documents\<close>

definition ACTOR_TYPES :: "string list" where
  "ACTOR_TYPES = [''Application'', ''Group'', ''Organization'', ''Person'', ''Service'']"

fun looksLikeActorType :: "json option \<Rightarrow> bool" where
  "looksLikeActorType (Some (JStr s)) \<longleftrightarrow> s \<in> set ACTOR_TYPES"
| "looksLikeActorType (Some (JArr xs)) \<longleftrightarrow> (\<exists>s \<in> set ACTOR_TYPES. JStr s \<in> set xs)"
| "looksLikeActorType _ = False"

definition looksLikeActorDocument :: "json \<Rightarrow> bool" where
  "looksLikeActorDocument document \<longleftrightarrow>
     looksLikeActorType (json_get ''type'' document) \<or> isNonEmptyString (json_get ''inbox'' document) \<or>
     isNonEmptyString (json_get ''preferredUsername'' document) \<or> isNonEmptyString (json_get ''followers'' document) \<or>
     isNonEmptyString (json_get ''following'' document)"

definition public_key :: "json \<Rightarrow> json" where
  "public_key document = (case json_get ''publicKey'' document of Some k \<Rightarrow> if isRecord k then k else JNull | None \<Rightarrow> JNull)"

definition extractPublicKeyPemFromVerificationDocument :: "json \<Rightarrow> string option" where
  "extractPublicKeyPemFromVerificationDocument document =
     (if \<not> isRecord document then None
      else case nonempty_text (json_get ''publicKeyPem'' document) of
        Some pem \<Rightarrow> Some pem
      | None \<Rightarrow> nonempty_text (json_get ''publicKeyPem'' (public_key document)))"

text \<open>The part of \<open>keyId\<close> before \<open>#\<close>, if there is one.\<close>

definition before_hash :: "string \<Rightarrow> string" where
  "before_hash keyId = takeWhile (\<lambda>c. c \<noteq> CHR ''#'') keyId"

definition owner_candidate :: "json \<Rightarrow> json option" where
  "owner_candidate document =
     nullish_or (json_get ''owner'' document) (nullish_or (json_get ''controller'' document)
       (nullish_or (json_get ''owner'' (public_key document)) (json_get ''controller'' (public_key document))))"

definition resolveActorUriFromVerificationDocument :: "string \<Rightarrow> json \<Rightarrow> string option" where
  "resolveActorUriFromVerificationDocument keyId document =
     (let own = (if isRecord document then
                   (case nonempty_text (owner_candidate document) of
                      Some owner \<Rightarrow> Some owner
                    | None \<Rightarrow> if looksLikeActorDocument document then nonempty_text (json_get ''id'' document) else None)
                 else None)
      in case own of
           Some a \<Rightarrow> Some a
         | None \<Rightarrow> if CHR ''#'' \<in> set keyId then Some (before_hash keyId) else None)"

section \<open>Signatures\<close>

definition word_char :: "char \<Rightarrow> bool" where
  "word_char c = (let n = of_char c :: nat in
     (48 \<le> n \<and> n \<le> 57) \<or> (65 \<le> n \<and> n \<le> 90) \<or> (97 \<le> n \<and> n \<le> 122) \<or> n = 95)"

text \<open>The match of \<open>(\w+)="([^"]+)"\<close> at the start of a text, and what follows it.\<close>

definition sig_param :: "string \<Rightarrow> ((string \<times> string) \<times> string) option" where
  "sig_param t =
     (let key = takeWhile word_char t
      in case dropWhile word_char t of
           CHR ''='' # CHR ''\"'' # r \<Rightarrow>
             (let v = takeWhile (\<lambda>c. c \<noteq> CHR ''\"'') r
              in case dropWhile (\<lambda>c. c \<noteq> CHR ''\"'') r of
                   _ # rest \<Rightarrow> if key = [] \<or> v = [] then None else Some ((key, v), rest)
                 | [] \<Rightarrow> None)
         | _ \<Rightarrow> None)"

lemma sig_param_shorter:
  assumes "sig_param t = Some (kv, rest)"
  shows "length rest < length t"
proof -
  from assms obtain r c where r: "dropWhile word_char t = CHR ''='' # CHR ''\"'' # r" "dropWhile (\<lambda>c. c \<noteq> CHR ''\"'') r = c # rest"
    by (auto simp: sig_param_def Let_def split: list.splits char.splits bool.splits if_splits)
  have "length (dropWhile word_char t) \<le> length t" "length (dropWhile (\<lambda>c. c \<noteq> CHR ''\"'') r) \<le> length r"
    by (simp_all add: length_dropWhile_le)
  with r show ?thesis by simp
qed

function sig_params :: "string \<Rightarrow> (string \<times> string) list" where
  "sig_params [] = []"
| "sig_params (c # cs) =
     (case sig_param (c # cs) of
        Some (kv, rest) \<Rightarrow> kv # sig_params rest
      | None \<Rightarrow> sig_params cs)"
  by pat_completeness auto
termination by (relation "measure length") (auto dest: sig_param_shorter)

text \<open>A later parameter overwrites an earlier one of the same name.\<close>

definition parseSignatureHeader :: "string \<Rightarrow> string \<Rightarrow> string option" where
  "parseSignatureHeader header = map_of (rev (sig_params header))"

text \<open>\<open>envelope.headers[k]\<close>: the headers are a record of strings.\<close>

definition envelope_header :: "InboundEnvelope \<Rightarrow> string \<Rightarrow> string option" where
  "envelope_header e k = string_of (json_get k (ie_headers e))"

definition header_text :: "InboundEnvelope \<Rightarrow> string \<Rightarrow> string" where
  "header_text e k = (case envelope_header e k of Some v \<Rightarrow> v | None \<Rightarrow> ''undefined'')"

definition signing_line :: "InboundEnvelope \<Rightarrow> string \<Rightarrow> string option" where
  "signing_line e header =
     (let h = js_lower header
      in if h = ''(request-target)'' then Some (''(request-target): '' @ js_lower (ie_method e) @ '' '' @ ie_path e)
         else if h \<in> {''host'', ''date'', ''digest'', ''content-type''} then Some (h @ '': '' @ header_text e h)
         else case envelope_header e h of
             Some v \<Rightarrow> if v = [] then None else Some (h @ '': '' @ v)
           | None \<Rightarrow> None)"

fun join_lines :: "string list \<Rightarrow> string" where
  "join_lines [] = []"
| "join_lines [l] = l"
| "join_lines (l # ls) = l @ char_of (10 :: nat) # join_lines ls"

definition buildSigningString :: "InboundEnvelope \<Rightarrow> string list \<Rightarrow> string" where
  "buildSigningString e signedHeaders = join_lines (List.map_filter (signing_line e) signedHeaders)"

section \<open>What an activity says\<close>

definition extractActivityActorUri :: "json \<Rightarrow> string option" where
  "extractActivityActorUri act =
     (case nonempty_text (json_get ''actor'' act) of
        Some a \<Rightarrow> Some a
      | None \<Rightarrow> (case json_get ''actor'' act of Some actor \<Rightarrow> nonempty_text (json_get ''id'' actor) | None \<Rightarrow> None))"

definition normalizeActivityType :: "json option \<Rightarrow> string" where
  "normalizeActivityType type =
     (case trimmed_text type of Some t \<Rightarrow> take 64 t | None \<Rightarrow> ''unknown'')"

definition extractDomain :: "url_lib \<Rightarrow> string \<Rightarrow> string option" where
  "extractDomain parse uri =
     (case parse uri of None \<Rightarrow> None | Some u \<Rightarrow> if u_hostname u = [] then None else Some (u_hostname u))"

text \<open>\<open>Array.isArray(field) ? field : [field]\<close>, and nothing for a falsy field.\<close>

fun field_values :: "json option \<Rightarrow> json list" where
  "field_values None = []"
| "field_values (Some (JArr xs)) = xs"
| "field_values (Some j) = (if json_truthy j then [j] else [])"

definition PUBLIC_COLLECTION :: string where "PUBLIC_COLLECTION = ''https://www.w3.org/ns/activitystreams#Public''"

definition public_values :: "json list" where
  "public_values = [JStr PUBLIC_COLLECTION, JStr ''as:Public'', JStr ''Public'']"

definition isPublicActivity :: "json \<Rightarrow> bool" where
  "isPublicActivity act \<longleftrightarrow>
     (\<exists>a \<in> set (field_values (json_get ''to'' act)) \<union> set (field_values (json_get ''cc'' act)). a \<in> set public_values)"

fun followers_value :: "json \<Rightarrow> bool" where
  "followers_value (JStr s) \<longleftrightarrow> ends_with s ''/followers''"
| "followers_value _ = False"

definition determineVisibility :: "json \<Rightarrow> visibility" where
  "determineVisibility act =
     (let direct = field_values (json_get ''to'' act); cc = field_values (json_get ''cc'' act);
          open_to = (\<lambda>vs. JStr PUBLIC_COLLECTION \<in> set vs \<or> JStr ''as:Public'' \<in> set vs)
      in if open_to direct then Public_visibility
         else if open_to cc then Unlisted
         else if list_ex followers_value direct then Followers
         else Direct)"

definition NOTE_TYPES :: "string list" where "NOTE_TYPES = [''Note'', ''Article'', ''Page'', ''Question'']"

definition note_typed :: "json \<Rightarrow> bool" where
  "note_typed j \<longleftrightarrow> (\<exists>t \<in> set NOTE_TYPES. json_get ''type'' j = Some (JStr t))"

definition extractNoteObject :: "json \<Rightarrow> json option" where
  "extractNoteObject act =
     (if note_typed act then Some act
      else if (\<exists>t \<in> {''Create'', ''Update'', ''Announce''}. json_get ''type'' act = Some (JStr t)) then
        (case json_get ''object'' act of Some obj \<Rightarrow> if note_typed obj then Some obj else None | None \<Rightarrow> None)
      else None)"

definition extractAnnounceObjectId :: "json \<Rightarrow> string option" where
  "extractAnnounceObjectId act =
     (case trimmed_text (json_get ''object'' act) of
        Some i \<Rightarrow> Some i
      | None \<Rightarrow> (case json_get ''object'' act of Some obj \<Rightarrow> trimmed_text (json_get ''id'' obj) | None \<Rightarrow> None))"

definition RECIPIENT_FIELDS :: "string list" where "RECIPIENT_FIELDS = [''to'', ''cc'', ''bto'', ''bcc'', ''audience'']"

text \<open>\<open>Array.isArray(v) ? v : v !== undefined && v !== null ? [v] : []\<close>\<close>

fun present_values :: "json option \<Rightarrow> json list" where
  "present_values None = []"
| "present_values (Some JNull) = []"
| "present_values (Some (JArr xs)) = xs"
| "present_values (Some j) = [j]"

definition recipients_of :: "json \<Rightarrow> string list" where
  "recipients_of node =
     (if isRecord node then
        [s. field \<leftarrow> RECIPIENT_FIELDS, JStr s \<leftarrow> present_values (json_get field node), s \<noteq> [], JStr s \<notin> set public_values]
      else [])"

definition extractActivityRecipients :: "json \<Rightarrow> string list" where
  "extractActivityRecipients act =
     recipients_of act @
     (case json_get ''object'' act of Some obj \<Rightarrow> recipients_of obj | None \<Rightarrow> [])"

fun address_texts :: "json option \<Rightarrow> string list" where
  "address_texts (Some (JStr s)) = [s]"
| "address_texts (Some (JArr xs)) = [s. JStr s \<leftarrow> xs]"
| "address_texts _ = []"

definition countActivityRecipients :: "url_lib \<Rightarrow> json \<Rightarrow> string \<Rightarrow> nat \<times> nat" where
  "countActivityRecipients parse act localDomain =
     (if \<not> isRecord act then (0, 0)
      else let uris = filter (\<lambda>u. u \<noteq> PUBLIC_COLLECTION \<and> u \<noteq> ''Public'')
                        (remdups [s. field \<leftarrow> [''to'', ''cc'', ''bto'', ''bcc''], s \<leftarrow> address_texts (json_get field act)])
           in (length uris, length (filter (\<lambda>u. map_option u_hostname (parse u) = Some localDomain) uris)))"

definition isFlagActivity :: "json \<Rightarrow> bool" where
  "isFlagActivity act \<longleftrightarrow> normalizeActivityType (json_get ''type'' act) = ''Flag''"

definition isUndoOfFlagActivity :: "json \<Rightarrow> bool" where
  "isUndoOfFlagActivity act \<longleftrightarrow>
     isRecord act \<and> normalizeActivityType (json_get ''type'' act) = ''Undo'' \<and>
     (case json_get ''object'' act of
        Some obj \<Rightarrow> isRecord obj \<and> normalizeActivityType (json_get ''type'' obj) = ''Flag''
      | None \<Rightarrow> False)"

definition isAcceptOrRejectActivity :: "json \<Rightarrow> bool" where
  "isAcceptOrRejectActivity act \<longleftrightarrow>
     isRecord act \<and> normalizeActivityType (json_get ''type'' act) \<in> {''Accept'', ''Reject''}"

definition extractUndoObjectId :: "json \<Rightarrow> string option" where
  "extractUndoObjectId act =
     (case trimmed_text (json_get ''object'' act) of
        Some i \<Rightarrow> Some i
      | None \<Rightarrow> (case json_get ''object'' act of Some obj \<Rightarrow> trimmed_text (json_get ''id'' obj) | None \<Rightarrow> None))"

text \<open>\<open>/^\/users\/([^/?#]+)\/inbox$/\<close>\<close>

definition inbox_user :: "string \<Rightarrow> string option" where
  "inbox_user path =
     (if starts_with path ''/users/'' then
        (let rest = drop 7 path; name = takeWhile (\<lambda>c. c \<noteq> CHR ''/'' \<and> c \<noteq> CHR ''?'' \<and> c \<noteq> CHR ''#'') rest
         in if name \<noteq> [] \<and> drop (length name) rest = ''/inbox'' then Some name else None)
      else None)"

definition deriveLocalActorUriFromInboxPath :: "url_lib \<Rightarrow> string option \<Rightarrow> string \<Rightarrow> string \<Rightarrow> string option" where
  "deriveLocalActorUriFromInboxPath parse domain activityPodsUrl inboxPath =
     (case inbox_user inboxPath of
        None \<Rightarrow> None
      | Some user \<Rightarrow>
          (let origin = (case domain of
                 Some d \<Rightarrow> if d = [] then map_option u_origin (parse activityPodsUrl) else Some (''https://'' @ d)
               | None \<Rightarrow> map_option u_origin (parse activityPodsUrl))
           in case origin of Some o' \<Rightarrow> if o' = [] then None else Some (o' @ ''/users/'' @ user) | None \<Rightarrow> None))"

text \<open>\<open>path.replace(/\/inbox$/, "")\<close>\<close>

definition without_inbox :: "string \<Rightarrow> string" where
  "without_inbox path =
     (if ends_with path ''/inbox'' then take (length path - 6) path else path)"

end
