(* ===== verification/Inbound_Worker.thy ===== *)
theory Inbound_Worker
  imports Inbound_Activity Intent_Deployment Origin_Worker
begin

text \<open>
  \<open>InboundWorker.processEnvelope\<close> of \<open>fedify-sidecar/src/delivery/inbound-worker.ts\<close> and everything it calls in that file, with
  the two Redis guards it uses (\<open>InboundIdempotencyGuard.ts\<close>, \<open>ProviderAnnounceGuard.ts\<close>).  The queue, the HTTP client, the key library,
  the policies, the event producer and the bridges are services: parameters that may answer or fail in any way.  What the worker
  starts and does not wait for (followers synchronisation, replies backfill, origin reconciliation) is a call whose answer is ignored.  The world
  records the calls in a trace, newest first.  \<open>captureFlagModerationCase\<close> is one of the services.  Log lines and metrics
  are not modelled.
\<close>

section \<open>Messages\<close>

record actor_response =
  ar_status :: int
  ar_body :: "string option"

record subject_input =
  si_activityId :: string
  si_actorUri :: string
  si_actorWebId :: "string option"
  si_originHost :: "string option"
  si_visibility :: visibility

datatype provider_event =
    Undo_flag string string string string string json
  | Accept_reject string string string "string option" string string json
  | Generic_event "string option" string string string string json

record delivery_meta =
  dm_attempted :: bool
  dm_recipients :: nat
  dm_local :: nat

record publication =
  pb_activity :: json
  pb_actorUri :: string
  pb_receivedAt :: jsnum
  pb_path :: string
  pb_meta :: "json option"
  pb_delivery :: "delivery_meta option"

record tombstone =
  tb_activityId :: string
  tb_objectId :: "string option"
  tb_actorUri :: string
  tb_deletedAt :: int

record canonical_event =
  ce_activity :: json
  ce_actorUri :: string
  ce_isPublic :: bool
  ce_isLocal :: bool
  ce_kind :: "string option"

record forward_request =
  fr_url :: string
  fr_authorization :: string
  fr_body :: json

datatype forward_result = Forwarded | Forward_failed bool string

section \<open>Services and configuration\<close>

record 's inbound_services =
  ns_now :: "'s \<Rightarrow> int \<times> 's"
  ns_ack :: "string \<Rightarrow> ('s, string, unit) eio"
  ns_enqueue :: "InboundEnvelope \<Rightarrow> ('s, string, unit) eio"
  ns_dlq :: "InboundEnvelope \<Rightarrow> string \<Rightarrow> ('s, string, unit) eio"
  ns_blocked :: "string \<Rightarrow> ('s, string, bool) eio"
  ns_cached :: "string \<Rightarrow> ('s, string, json option) eio"
  ns_cache :: "string \<Rightarrow> json \<Rightarrow> int \<Rightarrow> ('s, string, unit) eio"
  ns_get :: "string \<Rightarrow> ('s, string, actor_response) eio"
  ns_sync :: "(string \<Rightarrow> string \<Rightarrow> json \<Rightarrow> string \<Rightarrow> ('s, string, unit) eio) option"
  ns_webid :: "(string \<Rightarrow> ('s, string, string option) eio) option"
  ns_policy :: "subject_input \<Rightarrow> ('s, string, string option) eio"
  ns_spam :: "(subject_input \<Rightarrow> json \<Rightarrow> json \<Rightarrow> ('s, string, string option) eio) option"
  ns_flag :: "json \<Rightarrow> InboundEnvelope \<Rightarrow> string \<Rightarrow> ('s, string, unit) eio"
  ns_provider :: "(provider_event \<Rightarrow> ('s, string, bool) eio) option"
  ns_claim :: "(string \<Rightarrow> ('s, string, bool) eio) option"
  ns_announce :: "(string \<Rightarrow> string \<Rightarrow> ('s, string, bool) eio) option"
  ns_stream1 :: "publication \<Rightarrow> ('s, string, unit) eio"
  ns_stream2 :: "publication \<Rightarrow> ('s, string, unit) eio"
  ns_tombstone :: "tombstone \<Rightarrow> ('s, string, unit) eio"
  ns_project :: "(json \<Rightarrow> string \<Rightarrow> ('s, string, unit) eio) option"
  ns_canonical :: "(canonical_event \<Rightarrow> ('s, string, unit) eio) option"
  ns_webhook :: "string \<Rightarrow> string \<Rightarrow> string \<Rightarrow> json \<Rightarrow> ('s, string, unit) eio"
  ns_bridge :: "(InboundEnvelope \<Rightarrow> json \<Rightarrow> string \<Rightarrow> ('s, string, unit) eio) option"
  ns_post :: "forward_request \<Rightarrow> ('s, string, int \<times> string option) eio"
  ns_backfill :: "(json \<Rightarrow> ('s, string, unit) eio) option"
  ns_reconcile :: "(json \<Rightarrow> ('s, string, unit) eio) option"
  ns_adapter :: "(string \<Rightarrow> json option \<Rightarrow> json \<Rightarrow> bool \<Rightarrow> ('s, string, unit) eio) option"
  ns_verify :: "string \<Rightarrow> string \<Rightarrow> string \<Rightarrow> string + bool"
  ns_sha256 :: "string \<Rightarrow> string"
  ns_iso :: "jsnum \<Rightarrow> string option"
  ns_consent :: "json \<Rightarrow> json \<Rightarrow> json"
  ns_indexable :: "json \<Rightarrow> json \<Rightarrow> bool"
  ns_parse :: url_lib

text \<open>\<open>ns_sha256\<close> gives the digest in base64; \<open>ns_iso\<close> is \<open>new Date(t).toISOString()\<close>, which may throw.\<close>

record inbound_config =
  nc_concurrency :: jsnum
  nc_activityPodsUrl :: string
  nc_activityPodsToken :: string
  nc_requestTimeoutMs :: jsnum
  nc_userAgent :: string
  nc_actorCacheTtlMs :: "int option"
  nc_capabilityGate :: "(string \<Rightarrow> gate_result) option"
  nc_fedifyRuntimeIntegrationEnabled :: bool
  nc_sidecarActorPaths :: "string list option"
  nc_domain :: "string option"
  nc_providerActorUris :: "string list option"
  nc_providerActorInboxPaths :: "string list option"
  nc_apRemoteWebhookUrl :: "string option"
  nc_apRemoteWebhookSecret :: "string option"

definition MAX_INBOUND_ATTEMPTS :: int where "MAX_INBOUND_ATTEMPTS = 8"

text \<open>\<open>createInboundWorker\<close>: the configuration, or the error it throws.\<close>

definition createInboundWorker ::
  "(string \<Rightarrow> string option) \<Rightarrow> jsnum \<Rightarrow> (inbound_config \<Rightarrow> inbound_config) \<Rightarrow> string + inbound_config" where
  "createInboundWorker env claimIdleMs overrides =
     (let number = (\<lambda>name fallback. parse_int (env_text env name fallback));
          config = overrides
            \<lparr>nc_concurrency = number ''INBOUND_CONCURRENCY'' ''32'',
             nc_activityPodsUrl = env_text env ''ACTIVITYPODS_URL'' ''http://localhost:3000'',
             nc_activityPodsToken = env_text env ''ACTIVITYPODS_TOKEN'' [],
             nc_requestTimeoutMs = number ''REQUEST_TIMEOUT_MS'' ''30000'',
             nc_userAgent = env_text env ''USER_AGENT'' ''Fedify-Sidecar/1.0 (ActivityPods)'',
             nc_actorCacheTtlMs = int_or_nan (number ''ACTOR_CACHE_TTL_MS'' ''3600000''),
             nc_capabilityGate = None,
             nc_fedifyRuntimeIntegrationEnabled = (env ''ENABLE_FEDIFY_RUNTIME_INTEGRATION'' = Some ''true''),
             nc_sidecarActorPaths = None, nc_domain = env ''DOMAIN'', nc_providerActorUris = None, nc_providerActorInboxPaths = None,
             nc_apRemoteWebhookUrl = None, nc_apRemoteWebhookSecret = None\<rparr>
      in if js_le claimIdleMs (nc_requestTimeoutMs config)
         then Inl (''Configuration error: CLAIM_IDLE_TIME_MS ('' @ show_num claimIdleMs @ ''ms) must be greater than REQUEST_TIMEOUT_MS ('' @
           show_num (nc_requestTimeoutMs config) @ ''ms). Risk of double-delivery via xAutoClaim.'')
         else Inr config)"

definition inbound_setConcurrency :: "int \<Rightarrow> inbound_config \<Rightarrow> inbound_config" where
  "inbound_setConcurrency nextConcurrency C = C\<lparr>nc_concurrency := Num (max 1 nextConcurrency)\<rparr>"

section \<open>Calls\<close>

datatype inbound_event =
    NvTime int
  | NvEnqueue InboundEnvelope bool
  | NvAck bool
  | NvDlq InboundEnvelope string bool
  | NvCached string "json option option"
  | NvGet string "actor_response option"
  | NvCache string json bool
  | NvSync string string string bool
  | NvBlocked string "bool option"
  | NvWebid string "string option option"
  | NvPolicy subject_input "string option option"
  | NvSpam subject_input json json "string option option"
  | NvFlag json string bool
  | NvProvider provider_event "bool option"
  | NvClaim string "bool option"
  | NvSeen string bool
  | NvAnnounce string string "bool option"
  | NvStream1 publication bool
  | NvStream2 publication bool
  | NvTombstone tombstone bool
  | NvProject json string bool
  | NvCanonical canonical_event bool
  | NvWebhook json string bool
  | NvBridge json string bool
  | NvPost forward_request "(int \<times> string option) option"
  | NvBackfill json bool
  | NvReconcile json bool
  | NvAdapter string bool

text \<open>\<open>nw_seen\<close> is the set \<open>seenActivityIds\<close> of the process, where it is configured.\<close>

record 's inbound_world =
  nw_srv :: 's
  nw_trace :: "inbound_event list"
  nw_active :: int
  nw_seen :: "string list option"

definition ncalled :: "(string + 'a \<Rightarrow> inbound_event) \<Rightarrow> ('s, string, 'a) eio \<Rightarrow> ('s inbound_world, string, 'a) eio" where
  "ncalled ev m w = (case m (nw_srv w) of (r, s) \<Rightarrow> (r, w\<lparr>nw_srv := s, nw_trace := ev r # nw_trace w\<rparr>))"

definition nclock :: "'s inbound_services \<Rightarrow> ('s inbound_world, string, int) eio" where
  "nclock S w = (case ns_now S (nw_srv w) of (t, s) \<Rightarrow> (Inr t, w\<lparr>nw_srv := s, nw_trace := NvTime t # nw_trace w\<rparr>))"

definition nadd_active :: "int \<Rightarrow> ('s inbound_world, string, unit) eio" where
  "nadd_active d w = (Inr (), w\<lparr>nw_active := nw_active w + d\<rparr>)"

text \<open>Whether the process has seen the activity before; it has now.\<close>

definition nseen :: "string \<Rightarrow> ('s inbound_world, string, bool) eio" where
  "nseen i w =
     (case nw_seen w of
        None \<Rightarrow> (Inr False, w)
      | Some ids \<Rightarrow>
          (Inr (i \<in> set ids), w\<lparr>nw_trace := NvSeen i (i \<in> set ids) # nw_trace w, nw_seen := Some (List.insert i ids)\<rparr>))"

text \<open>A failure that is caught, logged and forgotten.\<close>

definition nquiet :: "('w, string, unit) eio \<Rightarrow> ('w, string, unit) eio" where
  "nquiet m = io_catch m (\<lambda>e. io_return ())"

definition nsum :: "string + 'a \<Rightarrow> ('w, string, 'a) eio" where
  "nsum x = (case x of Inl e \<Rightarrow> io_throw e | Inr a \<Rightarrow> io_return a)"

definition n_ack :: "'s inbound_services \<Rightarrow> string \<Rightarrow> ('s inbound_world, string, unit) eio" where
  "n_ack S messageId = ncalled (\<lambda>r. NvAck (reply r \<noteq> None)) (ns_ack S messageId)"

definition n_enqueue :: "'s inbound_services \<Rightarrow> InboundEnvelope \<Rightarrow> ('s inbound_world, string, unit) eio" where
  "n_enqueue S e = ncalled (\<lambda>r. NvEnqueue e (reply r \<noteq> None)) (ns_enqueue S e)"

definition n_dismiss :: "'s inbound_services \<Rightarrow> string \<Rightarrow> InboundEnvelope \<Rightarrow> string \<Rightarrow> ('s inbound_world, string, unit) eio" where
  "n_dismiss S messageId e reason =
     io_then (n_ack S messageId) (ncalled (\<lambda>r. NvDlq e reason (reply r \<noteq> None)) (ns_dlq S e reason))"

section \<open>Who sent it\<close>

text \<open>The document, or \<open>null\<close>.\<close>

definition fetched_document ::
  "'s inbound_services \<Rightarrow> inbound_config \<Rightarrow> string \<Rightarrow> ('s inbound_world, string, json) eio" where
  "fetched_document S C url =
     io_catch
       (io_bind (ncalled (\<lambda>r. NvGet url (reply r)) (ns_get S url)) (\<lambda>response.
          if ar_status response \<noteq> 200 then io_return JNull
          else io_bind (nsum (case ar_body response of None \<Rightarrow> Inl ''terminated''
                              | Some t \<Rightarrow> (case json_parse t of None \<Rightarrow> Inl ''Unexpected token'' | Some doc \<Rightarrow> Inr doc))) (\<lambda>doc.
               io_then
                 (ncalled (\<lambda>r. NvCache url doc (reply r \<noteq> None))
                    (ns_cache S url doc (- ((- or_else (nc_actorCacheTtlMs C) 3600000) div 1000))))
                 (io_return doc))))
       (\<lambda>e. io_return JNull)"

definition fetchActorDocument ::
  "'s inbound_services \<Rightarrow> inbound_config \<Rightarrow> string \<Rightarrow> ('s inbound_world, string, json) eio" where
  "fetchActorDocument S C keyId =
     (let url = before_hash keyId
      in if url = [] then io_return JNull
         else io_bind (ncalled (\<lambda>r. NvCached url (reply r)) (ns_cached S url)) (\<lambda>cached.
           if \<not> falsy cached then io_return (the cached) else fetched_document S C url))"

definition digest_ok :: "'s inbound_services \<Rightarrow> InboundEnvelope \<Rightarrow> bool" where
  "digest_ok S e \<longleftrightarrow>
     (case envelope_header e ''digest'' of
        None \<Rightarrow> True
      | Some d \<Rightarrow> d = [] \<or> d = ''SHA-256='' @ ns_sha256 S (ie_body e))"

text \<open>What follows once the key document is there: the actor, or why not.\<close>

definition check_signature :: "'s inbound_services \<Rightarrow> InboundEnvelope \<Rightarrow> string \<Rightarrow> string \<Rightarrow> string \<Rightarrow> json \<Rightarrow> string + string" where
  "check_signature S e keyId signature signedHeaders document =
     (if \<not> json_truthy document then Inl ''Could not fetch actor or key document''
      else case extractPublicKeyPemFromVerificationDocument document of
        None \<Rightarrow> Inl ''Actor has no public key''
      | Some pem \<Rightarrow>
          if \<not> digest_ok S e then Inl ''Digest mismatch''
          else (case ns_verify S pem (buildSigningString e (js_split CHR '' '' signedHeaders)) signature of
            Inl err \<Rightarrow> Inl (''Verification error: '' @ err)
          | Inr isValid \<Rightarrow>
              if \<not> isValid then Inl ''Signature verification failed''
              else (case resolveActorUriFromVerificationDocument keyId document of
                None \<Rightarrow> Inl ''Could not resolve actor owner for keyId''
              | Some a \<Rightarrow> if a = [] then Inl ''Could not resolve actor owner for keyId'' else Inr a)))"

definition signature_params :: "InboundEnvelope \<Rightarrow> string + string \<times> string \<times> string" where
  "signature_params e =
     (case envelope_header e ''signature'' of
        None \<Rightarrow> Inl ''Missing Signature header''
      | Some h \<Rightarrow>
          if h = [] then Inl ''Missing Signature header''
          else (case (parseSignatureHeader h ''keyId'', parseSignatureHeader h ''signature'', parseSignatureHeader h ''headers'') of
            (Some keyId, Some signature, Some signedHeaders) \<Rightarrow> Inr (keyId, signature, signedHeaders)
          | _ \<Rightarrow> Inl ''Invalid Signature header format''))"

definition verifySignature ::
  "'s inbound_services \<Rightarrow> inbound_config \<Rightarrow> InboundEnvelope \<Rightarrow> ('s inbound_world, string, string + string) eio" where
  "verifySignature S C e =
     (case signature_params e of
        Inl err \<Rightarrow> io_return (Inl err)
      | Inr (keyId, signature, signedHeaders) \<Rightarrow>
          io_catch
            (io_bind (fetchActorDocument S C keyId) (\<lambda>document. io_return (check_signature S e keyId signature signedHeaders document)))
            (\<lambda>err. io_return (Inl (''Verification error: '' @ err))))"

text \<open>A verification record of the runtime carries the URI as a string; anything else matches no actor.\<close>

definition getTrustedVerification :: "InboundEnvelope \<Rightarrow> string option" where
  "getTrustedVerification e =
     (case ie_verification e of
        None \<Rightarrow> None
      | Some v \<Rightarrow>
          if json_get ''source'' v = Some (JStr ''fedify-v2'')
          then Some (case string_of (json_get ''actorUri'' v) of Some a \<Rightarrow> a | None \<Rightarrow> [])
          else None)"

definition validateVerifiedActorMatch ::
  "'s inbound_services \<Rightarrow> string \<Rightarrow> InboundEnvelope \<Rightarrow> json \<Rightarrow> string \<Rightarrow> ('s inbound_world, string, string option) eio" where
  "validateVerifiedActorMatch S messageId e act verifiedActorUri =
     (case extractActivityActorUri act of
        None \<Rightarrow> io_then (n_dismiss S messageId e ''Activity actor is missing a resolvable URI'') (io_return None)
      | Some a \<Rightarrow>
          if a \<noteq> verifiedActorUri
          then io_then (n_dismiss S messageId e (''Verified actor mismatch: envelope actor '' @ verifiedActorUri @ '' != activity actor '' @ a))
                 (io_return None)
          else io_return (Some verifiedActorUri))"

definition resolveVerifiedActorUri ::
  "'s inbound_services \<Rightarrow> inbound_config \<Rightarrow> string \<Rightarrow> InboundEnvelope \<Rightarrow> json \<Rightarrow> ('s inbound_world, string, string option) eio" where
  "resolveVerifiedActorUri S C messageId e act =
     (case getTrustedVerification e of
        Some a \<Rightarrow> validateVerifiedActorMatch S messageId e act a
      | None \<Rightarrow>
          io_bind (verifySignature S C e) (\<lambda>verification.
            case verification of
              Inl err \<Rightarrow> io_then (n_dismiss S messageId e (''Signature verification failed: '' @ err)) (io_return None)
            | Inr a \<Rightarrow> validateVerifiedActorMatch S messageId e act a))"

section \<open>Whether it is let in\<close>

definition n_not_due :: "'s inbound_services \<Rightarrow> InboundEnvelope \<Rightarrow> ('s inbound_world, string, bool) eio" where
  "n_not_due S e =
     (if \<not> js_lt (Num 0) (ie_notBeforeMs e) then io_return False
      else io_bind (nclock S) (\<lambda>now. io_return (js_lt (Num now) (ie_notBeforeMs e))))"

definition COLLECTION_SYNC_HEADER :: string where "COLLECTION_SYNC_HEADER = ''collection-synchronization''"

definition n_sync ::
  "'s inbound_services \<Rightarrow> inbound_config \<Rightarrow> InboundEnvelope \<Rightarrow> string \<Rightarrow> ('s inbound_world, string, unit) eio" where
  "n_sync S C e actor =
     (case (envelope_header e COLLECTION_SYNC_HEADER, ns_sync S,
            deriveLocalActorUriFromInboxPath (ns_parse S) (nc_domain C) (nc_activityPodsUrl C) (ie_path e)) of
        (Some h, Some sync, Some local) \<Rightarrow>
          if h = [] then io_return ()
          else nquiet (io_bind (fetchActorDocument S C actor) (\<lambda>doc.
                 if (case doc of JObj _ \<Rightarrow> True | JArr _ \<Rightarrow> True | _ \<Rightarrow> False)
                 then ncalled (\<lambda>r. NvSync h actor local (reply r \<noteq> None)) (sync h actor doc local)
                 else io_return ()))
      | _ \<Rightarrow> io_return ())"

text \<open>The steps that may stop the processing; they answer whether they did, with the entry acknowledged.\<close>

definition n_stop :: "'s inbound_services \<Rightarrow> string \<Rightarrow> ('s inbound_world, string, bool) eio" where
  "n_stop S messageId = io_then (n_ack S messageId) (io_return True)"

definition n_blocked :: "'s inbound_services \<Rightarrow> string \<Rightarrow> string \<Rightarrow> ('s inbound_world, string, bool) eio" where
  "n_blocked S messageId actor =
     (case extractDomain (ns_parse S) actor of
        None \<Rightarrow> io_return False
      | Some d \<Rightarrow> io_bind (ncalled (\<lambda>r. NvBlocked d (reply r)) (ns_blocked S d)) (\<lambda>blocked.
          if blocked then n_stop S messageId else io_return False))"

definition discards :: "string option \<Rightarrow> bool" where
  "discards appliedAction \<longleftrightarrow> appliedAction = Some ''filter'' \<or> appliedAction = Some ''reject''"

definition activity_key :: "InboundEnvelope \<Rightarrow> json \<Rightarrow> string" where
  "activity_key e act = (case string_of (json_get ''id'' act) of Some i \<Rightarrow> i | None \<Rightarrow> ie_envelopeId e)"

definition subject_of :: "'s inbound_services \<Rightarrow> InboundEnvelope \<Rightarrow> json \<Rightarrow> string \<Rightarrow> string option \<Rightarrow> subject_input" where
  "subject_of S e act actor webId =
     \<lparr>si_activityId = activity_key e act, si_actorUri = actor, si_actorWebId = webId,
      si_originHost = extractDomain (ns_parse S) actor, si_visibility = determineVisibility act\<rparr>"

definition n_webid :: "'s inbound_services \<Rightarrow> string \<Rightarrow> ('s inbound_world, string, string option) eio" where
  "n_webid S actor =
     (case ns_webid S of
        None \<Rightarrow> io_return None
      | Some f \<Rightarrow> io_catch (ncalled (\<lambda>r. NvWebid actor (reply r)) (f actor)) (\<lambda>_. io_return None))"

definition n_policy ::
  "'s inbound_services \<Rightarrow> string \<Rightarrow> InboundEnvelope \<Rightarrow> json \<Rightarrow> string \<Rightarrow> ('s inbound_world, string, bool) eio" where
  "n_policy S messageId e act actor =
     io_bind (n_webid S actor) (\<lambda>webId.
       let input = subject_of S e act actor webId
       in io_bind (ncalled (\<lambda>r. NvPolicy input (reply r)) (ns_policy S input)) (\<lambda>decision.
            if discards decision then n_stop S messageId else io_return False))"

definition n_spam ::
  "'s inbound_services \<Rightarrow> inbound_config \<Rightarrow> string \<Rightarrow> InboundEnvelope \<Rightarrow> json \<Rightarrow> string \<Rightarrow> ('s inbound_world, string, bool) eio" where
  "n_spam S C messageId e act actor =
     (case ns_spam S of
        None \<Rightarrow> io_return False
      | Some f \<Rightarrow>
          io_bind (io_catch (fetchActorDocument S C actor) (\<lambda>_. io_return JNull)) (\<lambda>doc.
            let input = subject_of S e act actor None
            in io_bind (ncalled (\<lambda>r. NvSpam input doc act (reply r)) (f input doc act)) (\<lambda>decision.
                 if discards decision then n_stop S messageId else io_return False)))"

definition isProviderDirectedActivity :: "inbound_config \<Rightarrow> json \<Rightarrow> string \<Rightarrow> bool" where
  "isProviderDirectedActivity C act path =
     ((case nc_providerActorInboxPaths C of Some ps \<Rightarrow> path \<in> set ps | None \<Rightarrow> False) \<or>
      (case nc_providerActorUris C of Some us \<Rightarrow> list_ex (\<lambda>u. u \<in> set us) (extractActivityRecipients act) | None \<Rightarrow> False))"

definition provider_event_of :: "json \<Rightarrow> string \<Rightarrow> string \<Rightarrow> string \<Rightarrow> provider_event" where
  "provider_event_of act actor path receivedAt =
     (let activityId' = trimmed_text (json_get ''id'' act); type = normalizeActivityType (json_get ''type'' act);
          objectId = (case json_get ''object'' act of
             Some (JStr s) \<Rightarrow> if js_trim s = [] then None else Some (js_trim s)
           | Some obj \<Rightarrow> trimmed_text (json_get ''id'' obj)
           | None \<Rightarrow> None)
      in if isUndoOfFlagActivity act
         then Undo_flag (or_else activityId' []) actor (or_else (extractUndoObjectId act) []) path receivedAt act
         else if isAcceptOrRejectActivity act then Accept_reject (or_else activityId' []) actor type objectId path receivedAt act
         else Generic_event activityId' actor type path receivedAt act)"

text \<open>\<open>Some accepted\<close>, or \<open>None\<close> if the activity is not for the provider.\<close>

definition n_provider ::
  "'s inbound_services \<Rightarrow> inbound_config \<Rightarrow> InboundEnvelope \<Rightarrow> json \<Rightarrow> string \<Rightarrow> ('s inbound_world, string, bool option) eio" where
  "n_provider S C e act actor =
     (case ns_provider S of
        None \<Rightarrow> io_return None
      | Some f \<Rightarrow>
          if \<not> isProviderDirectedActivity C act (ie_path e) then io_return None
          else (case ns_iso S (ie_receivedAt e) of
            None \<Rightarrow> io_throw ''Invalid time value''
          | Some receivedAt \<Rightarrow>
              (let ev = provider_event_of act actor (ie_path e) receivedAt
               in io_bind (ncalled (\<lambda>r. NvProvider ev (reply r)) (f ev)) (\<lambda>accepted. io_return (Some accepted)))))"

definition n_duplicate :: "'s inbound_services \<Rightarrow> string \<Rightarrow> json \<Rightarrow> ('s inbound_world, string, bool) eio" where
  "n_duplicate S messageId act =
     (case json_get ''id'' act of
        None \<Rightarrow> io_return False
      | Some i \<Rightarrow>
          if \<not> json_truthy i then io_return False
          else (let activityId' = js_String i
            in io_bind (case ns_claim S of
                          None \<Rightarrow> io_return True
                        | Some f \<Rightarrow> ncalled (\<lambda>r. NvClaim activityId' (reply r)) (f activityId')) (\<lambda>isNew.
               if \<not> isNew then n_stop S messageId
               else io_bind (nseen activityId') (\<lambda>seen. if seen then n_stop S messageId else io_return False))))"

definition n_announced :: "'s inbound_services \<Rightarrow> string \<Rightarrow> json \<Rightarrow> string \<Rightarrow> ('s inbound_world, string, bool) eio" where
  "n_announced S messageId act actor =
     (case (if normalizeActivityType (json_get ''type'' act) = ''Announce'' then ns_announce S else None) of
        None \<Rightarrow> io_return False
      | Some f \<Rightarrow> (case extractAnnounceObjectId act of
            None \<Rightarrow> io_return False
          | Some objectId \<Rightarrow>
              io_bind (ncalled (\<lambda>r. NvAnnounce actor objectId (reply r)) (f actor objectId)) (\<lambda>isNew.
                if \<not> isNew then n_stop S messageId else io_return False)))"

section \<open>Where it goes\<close>

definition extractSearchableObject :: "json \<Rightarrow> json option" where
  "extractSearchableObject act =
     (if \<not> isRecord act then None
      else case json_get ''object'' act of
        Some obj \<Rightarrow> if isRecord obj then Some obj else Some act
      | None \<Rightarrow> Some act)"

fun visibility_name :: "visibility \<Rightarrow> string" where
  "visibility_name Public_visibility = ''public''"
| "visibility_name Unlisted = ''unlisted''"
| "visibility_name Followers = ''followers''"
| "visibility_name Direct = ''direct''"

definition buildPublicSearchEventMeta ::
  "'s inbound_services \<Rightarrow> inbound_config \<Rightarrow> json \<Rightarrow> string \<Rightarrow> ('s inbound_world, string, json option) eio" where
  "buildPublicSearchEventMeta S C act actor =
     (case extractSearchableObject act of
        None \<Rightarrow> io_return None
      | Some obj \<Rightarrow>
          io_bind (io_catch (fetchActorDocument S C actor) (\<lambda>_. io_return JNull)) (\<lambda>doc.
            let consent = ns_consent S obj doc
            in io_return (Some (JObj [(''isPublicActivity'', JBool True), (''isPublicIndexable'', JBool (ns_indexable S obj consent)),
                 (''visibility'', JStr (visibility_name (determineVisibility act))), (''searchConsent'', consent)]))))"

definition isSidecarActor :: "'s inbound_services \<Rightarrow> inbound_config \<Rightarrow> string \<Rightarrow> bool" where
  "isSidecarActor S C actor =
     (case (nc_sidecarActorPaths C, ns_parse S actor) of
        (Some paths, Some u) \<Rightarrow> u_pathname u \<in> set paths
      | _ \<Rightarrow> False)"

definition isLocalActor :: "'s inbound_services \<Rightarrow> inbound_config \<Rightarrow> string \<Rightarrow> bool" where
  "isLocalActor S C actor =
     (case nc_domain C of
        None \<Rightarrow> False
      | Some d \<Rightarrow> d \<noteq> [] \<and> extractDomain (ns_parse S) actor = Some (js_lower (js_trim d)))"

definition isSidecarInbox :: "inbound_config \<Rightarrow> string \<Rightarrow> bool" where
  "isSidecarInbox C path = (case nc_sidecarActorPaths C of Some paths \<Rightarrow> without_inbox path \<in> set paths | None \<Rightarrow> False)"

definition recipient_counts :: "'s inbound_services \<Rightarrow> inbound_config \<Rightarrow> json \<Rightarrow> nat \<times> nat" where
  "recipient_counts S C act =
     (case nc_domain C of
        Some d \<Rightarrow> if isPublicActivity act \<and> d \<noteq> [] then countActivityRecipients (ns_parse S) act d else (0, 0)
      | None \<Rightarrow> (0, 0))"

definition publication_of :: "InboundEnvelope \<Rightarrow> json \<Rightarrow> string \<Rightarrow> json option \<Rightarrow> delivery_meta option \<Rightarrow> publication" where
  "publication_of e act actor mta delivery =
     \<lparr>pb_activity = act, pb_actorUri = actor, pb_receivedAt = ie_receivedAt e, pb_path = ie_path e, pb_meta = mta, pb_delivery = delivery\<rparr>"

definition publish_stream2 ::
  "'s inbound_services \<Rightarrow> inbound_config \<Rightarrow> InboundEnvelope \<Rightarrow> json \<Rightarrow> string \<Rightarrow> json option \<Rightarrow> bool \<Rightarrow> ('s inbound_world, string, unit) eio" where
  "publish_stream2 S C e act actor mta attempted =
     (if isPublicActivity act then
        (let p = publication_of e act actor mta (Some
               \<lparr>dm_attempted = attempted, dm_recipients = fst (recipient_counts S C act), dm_local = snd (recipient_counts S C act)\<rparr>)
         in nquiet (ncalled (\<lambda>r. NvStream2 p (reply r \<noteq> None)) (ns_stream2 S p)))
      else io_return ())"

definition publish_stream1 ::
  "'s inbound_services \<Rightarrow> InboundEnvelope \<Rightarrow> json \<Rightarrow> string \<Rightarrow> json option \<Rightarrow> ('s inbound_world, string, unit) eio" where
  "publish_stream1 S e act actor mta =
     (if isPublicActivity act then
        (let p = publication_of e act actor mta None
         in nquiet (ncalled (\<lambda>r. NvStream1 p (reply r \<noteq> None)) (ns_stream1 S p)))
      else io_return ())"

definition invokeAtProjection :: "'s inbound_services \<Rightarrow> json \<Rightarrow> string \<Rightarrow> ('s inbound_world, string, unit) eio" where
  "invokeAtProjection S act actor =
     (case ns_project S of
        None \<Rightarrow> io_return ()
      | Some f \<Rightarrow> nquiet (ncalled (\<lambda>r. NvProject act actor (reply r \<noteq> None)) (f act actor)))"

definition invokeCanonicalPublisher :: "'s inbound_services \<Rightarrow> canonical_event \<Rightarrow> ('s inbound_world, string, unit) eio" where
  "invokeCanonicalPublisher S ev =
     (case ns_canonical S of
        None \<Rightarrow> io_return ()
      | Some f \<Rightarrow> nquiet (ncalled (\<lambda>r. NvCanonical ev (reply r \<noteq> None)) (f ev)))"

definition canonical_kind :: "json \<Rightarrow> string option" where
  "canonical_kind act =
     (let type = normalizeActivityType (json_get ''type'' act)
      in if type = ''Update'' then Some ''PostEdit'' else if type = ''Delete'' \<or> type = ''Undo'' then Some ''PostDelete'' else None)"

definition canonical_of :: "json \<Rightarrow> string \<Rightarrow> bool \<Rightarrow> string option \<Rightarrow> canonical_event" where
  "canonical_of act actor local kind =
     \<lparr>ce_activity = act, ce_actorUri = actor, ce_isPublic = isPublicActivity act, ce_isLocal = local, ce_kind = kind\<rparr>"

definition publish_tombstone :: "'s inbound_services \<Rightarrow> json \<Rightarrow> string \<Rightarrow> ('s inbound_world, string, unit) eio" where
  "publish_tombstone S act actor =
     (let objectId = (case json_get ''object'' act of
             Some (JStr s) \<Rightarrow> Some s
           | Some obj \<Rightarrow> string_of (json_get ''id'' obj)
           | None \<Rightarrow> None);
          aid = (case nullish_or (json_get ''id'' act) None of Some i \<Rightarrow> js_String i | None \<Rightarrow> [])
      in io_bind (nclock S) (\<lambda>now.
           let t = \<lparr>tb_activityId = aid, tb_objectId = objectId, tb_actorUri = actor, tb_deletedAt = now\<rparr>
           in nquiet (ncalled (\<lambda>r. NvTombstone t (reply r \<noteq> None)) (ns_tombstone S t))))"

definition removes_content :: "json \<Rightarrow> bool" where
  "removes_content act = (case json_get ''type'' act of Some t \<Rightarrow> js_String t \<in> {''Delete'', ''Undo''} | None \<Rightarrow> False)"

definition forward_request_for :: "inbound_config \<Rightarrow> InboundEnvelope \<Rightarrow> json \<Rightarrow> string \<Rightarrow> forward_request" where
  "forward_request_for C e act actor =
     \<lparr>fr_url = nc_activityPodsUrl C @ ''/api/internal/activitypub-bridge/inbox/receive'',
      fr_authorization = ''Bearer '' @ nc_activityPodsToken C,
      fr_body = JObj [(''targetInbox'', JStr (nc_activityPodsUrl C @ ie_path e)), (''activity'', act), (''verifiedActorUri'', JStr actor),
        (''receivedAt'', json_num (ie_receivedAt e)), (''remoteIp'', JStr (ie_remoteIp e)),
        (''benchmark'', JBool (envelope_header e ''x-sidecar-benchmark'' = Some ''1''))]\<rparr>"

definition forward_answer :: "int \<times> string option \<Rightarrow> string + forward_result" where
  "forward_answer r =
     (case r of
        (_, None) \<Rightarrow> Inl ''terminated''
      | (status, Some body) \<Rightarrow> Inr
          (if status \<ge> 200 \<and> status < 300 then Forwarded
           else Forward_failed (status \<ge> 400 \<and> status < 500 \<and> status \<noteq> 429)
                  (''ActivityPods returned '' @ show_int status @ '': '' @ body)))"

definition forwardToActivityPods ::
  "'s inbound_services \<Rightarrow> inbound_config \<Rightarrow> InboundEnvelope \<Rightarrow> json \<Rightarrow> string \<Rightarrow> ('s inbound_world, string, forward_result) eio" where
  "forwardToActivityPods S C e act actor =
     (let q = forward_request_for C e act actor
      in io_catch
           (io_bind (ncalled (\<lambda>r. NvPost q (reply r)) (ns_post S q)) (\<lambda>r. nsum (forward_answer r)))
           (\<lambda>err. io_return (Forward_failed False (''Network error: '' @ err))))"

definition retry_envelope :: "InboundEnvelope \<Rightarrow> int \<Rightarrow> InboundEnvelope" where
  "retry_envelope e now =
     e\<lparr>ie_attempt := js_add (ie_attempt e) 1, ie_notBeforeMs := Num (now + backoffMs (js_add (ie_attempt e) 1))\<rparr>"

text \<open>\<open>True\<close>: forwarded; otherwise the envelope is settled.\<close>

definition n_forward ::
  "'s inbound_services \<Rightarrow> inbound_config \<Rightarrow> string \<Rightarrow> InboundEnvelope \<Rightarrow> json \<Rightarrow> string \<Rightarrow> ('s inbound_world, string, bool) eio" where
  "n_forward S C messageId e act actor =
     (case ns_bridge S of
        Some bridge \<Rightarrow>
          io_catch (io_then (ncalled (\<lambda>r. NvBridge act actor (reply r \<noteq> None)) (bridge e act actor)) (io_return True))
            (\<lambda>err. io_then (n_dismiss S messageId e (''Bridge forward failed: '' @ err)) (io_return False))
      | None \<Rightarrow>
          io_bind (forwardToActivityPods S C e act actor) (\<lambda>result.
            case result of
              Forwarded \<Rightarrow> io_return True
            | Forward_failed permanent err \<Rightarrow>
                io_then (n_ack S messageId)
                  (io_then
                    (if permanent \<or> js_le (Num MAX_INBOUND_ATTEMPTS) (ie_attempt e)
                     then (let reason = (if permanent then err
                               else ''Exhausted '' @ show_int MAX_INBOUND_ATTEMPTS @ '' attempts: '' @ err)
                           in ncalled (\<lambda>r. NvDlq e reason (reply r \<noteq> None)) (ns_dlq S e reason))
                     else io_bind (nclock S) (\<lambda>now. n_enqueue S (retry_envelope e now)))
                    (io_return False))))"

definition n_background :: "'s inbound_services \<Rightarrow> json \<Rightarrow> ('s inbound_world, string, unit) eio" where
  "n_background S act =
     (if isPublicActivity act \<and> extractNoteObject act \<noteq> None then
        io_then
          (case ns_backfill S of None \<Rightarrow> io_return ()
           | Some f \<Rightarrow> nquiet (ncalled (\<lambda>r. NvBackfill act (reply r \<noteq> None)) (f act)))
          (case ns_reconcile S of None \<Rightarrow> io_return ()
           | Some f \<Rightarrow> nquiet (ncalled (\<lambda>r. NvReconcile act (reply r \<noteq> None)) (f act)))
      else io_return ())"

definition inbound_callAdapter :: "'s inbound_services \<Rightarrow> inbound_config \<Rightarrow> json \<Rightarrow> string \<Rightarrow> ('s inbound_world, string, unit) eio" where
  "inbound_callAdapter S C act actor =
     (case ns_adapter S of
        None \<Rightarrow> io_return ()
      | Some f \<Rightarrow>
          if \<not> nc_fedifyRuntimeIntegrationEnabled C then io_return ()
          else nquiet (ncalled (\<lambda>r. NvAdapter actor (reply r \<noteq> None))
                 (f actor (json_get ''id'' act) (or_else (json_get ''type'' act) JNull) (isPublicActivity act))))"

definition route_remote ::
  "'s inbound_services \<Rightarrow> inbound_config \<Rightarrow> string \<Rightarrow> InboundEnvelope \<Rightarrow> json \<Rightarrow> string \<Rightarrow> json option \<Rightarrow> ('s inbound_world, string, unit) eio" where
  "route_remote S C messageId e act actor mta =
     io_bind (n_forward S C messageId e act actor) (\<lambda>forwarded.
       if \<not> forwarded then io_return ()
       else io_then (publish_stream2 S C e act actor mta True)
           (io_then (if isPublicActivity act \<and> removes_content act then publish_tombstone S act actor else io_return ())
           (io_then (invokeAtProjection S act actor)
           (io_then (invokeCanonicalPublisher S (canonical_of act actor False (canonical_kind act)))
           (io_then (n_background S act)
           (io_then (n_ack S messageId) (inbound_callAdapter S C act actor)))))))"

definition route_local ::
  "'s inbound_services \<Rightarrow> string \<Rightarrow> InboundEnvelope \<Rightarrow> json \<Rightarrow> string \<Rightarrow> json option \<Rightarrow> ('s inbound_world, string, unit) eio" where
  "route_local S messageId e act actor mta =
     io_then (n_ack S messageId)
       (io_then (publish_stream1 S e act actor mta)
         (io_then (invokeAtProjection S act actor)
           (invokeCanonicalPublisher S (canonical_of act actor True (canonical_kind act)))))"

definition route_sidecar_actor ::
  "'s inbound_services \<Rightarrow> inbound_config \<Rightarrow> string \<Rightarrow> InboundEnvelope \<Rightarrow> json \<Rightarrow> string \<Rightarrow> json option \<Rightarrow> ('s inbound_world, string, unit) eio" where
  "route_sidecar_actor S C messageId e act actor mta =
     io_then (n_ack S messageId)
       (io_then (publish_stream2 S C e act actor mta False)
         (invokeCanonicalPublisher S (canonical_of act actor False None)))"

definition route_sidecar_inbox ::
  "'s inbound_services \<Rightarrow> inbound_config \<Rightarrow> string \<Rightarrow> InboundEnvelope \<Rightarrow> json \<Rightarrow> string \<Rightarrow> json option \<Rightarrow> ('s inbound_world, string, unit) eio" where
  "route_sidecar_inbox S C messageId e act actor mta =
     io_then (n_ack S messageId)
       (io_then (publish_stream2 S C e act actor mta False)
         (case nc_apRemoteWebhookUrl C of
            None \<Rightarrow> io_return ()
          | Some url \<Rightarrow>
              if url = [] \<or> \<not> isPublicActivity act then io_return ()
              else nquiet (ncalled (\<lambda>r. NvWebhook act actor (reply r \<noteq> None))
                     (ns_webhook S url (or_else (nc_apRemoteWebhookSecret C) []) actor act))))"

definition route ::
  "'s inbound_services \<Rightarrow> inbound_config \<Rightarrow> string \<Rightarrow> InboundEnvelope \<Rightarrow> json \<Rightarrow> string \<Rightarrow> ('s inbound_world, string, unit) eio" where
  "route S C messageId e act actor =
     io_bind (if isPublicActivity act then buildPublicSearchEventMeta S C act actor else io_return None) (\<lambda>mta.
       if isSidecarActor S C actor then route_sidecar_actor S C messageId e act actor mta
       else if isLocalActor S C actor then route_local S messageId e act actor mta
       else if isSidecarInbox C (ie_path e) then route_sidecar_inbox S C messageId e act actor mta
       else route_remote S C messageId e act actor mta)"

section \<open>Processing\<close>

text \<open>From a verified actor on.\<close>

definition unless_stopped :: "('w, string, bool) eio \<Rightarrow> ('w, string, unit) eio \<Rightarrow> ('w, string, unit) eio" where
  "unless_stopped m n = io_bind m (\<lambda>stopped. if stopped then io_return () else n)"

definition n_fresh ::
  "'s inbound_services \<Rightarrow> inbound_config \<Rightarrow> string \<Rightarrow> InboundEnvelope \<Rightarrow> json \<Rightarrow> string \<Rightarrow> ('s inbound_world, string, unit) eio" where
  "n_fresh S C messageId e act actor =
     unless_stopped (n_duplicate S messageId act)
       (unless_stopped (n_announced S messageId act actor) (route S C messageId e act actor))"

definition n_accepted ::
  "'s inbound_services \<Rightarrow> inbound_config \<Rightarrow> string \<Rightarrow> InboundEnvelope \<Rightarrow> json \<Rightarrow> string \<Rightarrow> ('s inbound_world, string, unit) eio" where
  "n_accepted S C messageId e act actor =
     (if isFlagActivity act then
        io_then (ncalled (\<lambda>r. NvFlag act actor (reply r \<noteq> None)) (ns_flag S act e actor)) (n_ack S messageId)
      else io_bind (n_provider S C e act actor) (\<lambda>accepted.
        case accepted of
          Some True \<Rightarrow> n_ack S messageId
        | Some False \<Rightarrow> io_return ()
        | None \<Rightarrow> n_fresh S C messageId e act actor))"

definition n_verified ::
  "'s inbound_services \<Rightarrow> inbound_config \<Rightarrow> string \<Rightarrow> InboundEnvelope \<Rightarrow> json \<Rightarrow> string \<Rightarrow> ('s inbound_world, string, unit) eio" where
  "n_verified S C messageId e act actor =
     io_then (n_sync S C e actor)
       (unless_stopped (n_blocked S messageId actor)
         (unless_stopped (n_policy S messageId e act actor)
           (unless_stopped (n_spam S C messageId e act actor) (n_accepted S C messageId e act actor))))"

definition n_parsed ::
  "'s inbound_services \<Rightarrow> inbound_config \<Rightarrow> string \<Rightarrow> InboundEnvelope \<Rightarrow> ('s inbound_world, string, unit) eio" where
  "n_parsed S C messageId e =
     (case json_parse (ie_body e) of
        None \<Rightarrow> n_dismiss S messageId e ''Invalid JSON body''
      | Some act \<Rightarrow>
          if act = JNull then io_throw ''Cannot read properties of null''
          else if falsy (json_get ''type'' act) \<or> falsy (json_get ''actor'' act)
          then n_dismiss S messageId e ''Missing required activity fields''
          else io_bind (resolveVerifiedActorUri S C messageId e act) (\<lambda>verified.
            case verified of None \<Rightarrow> io_return () | Some actor \<Rightarrow> n_verified S C messageId e act actor))"

definition n_body ::
  "'s inbound_services \<Rightarrow> inbound_config \<Rightarrow> string \<Rightarrow> InboundEnvelope \<Rightarrow> ('s inbound_world, string, unit) eio" where
  "n_body S C messageId e =
     io_bind (n_not_due S e) (\<lambda>later.
       if later then io_then (n_enqueue S e) (n_ack S messageId)
       else case (case nc_capabilityGate C of None \<Rightarrow> None | Some gate \<Rightarrow> Some (gate ''ap.federation.ingress'')) of
           Some g \<Rightarrow> if \<not> g_allowed g then n_dismiss S messageId e (gate_reason g) else n_parsed S C messageId e
         | None \<Rightarrow> n_parsed S C messageId e)"

definition processEnvelope ::
  "'s inbound_services \<Rightarrow> inbound_config \<Rightarrow> string \<Rightarrow> InboundEnvelope \<Rightarrow> ('s inbound_world, string, unit) eio" where
  "processEnvelope S C messageId e =
     io_then (nadd_active 1)
       (io_finally (io_catch (n_body S C messageId e) (\<lambda>err. n_ack S messageId)) (nadd_active (- 1)))"

section \<open>The guards\<close>

definition inboundGuardKey :: "(string \<Rightarrow> string) \<Rightarrow> string \<Rightarrow> string" where
  "inboundGuardKey sha256 aid = ''ap:ingress:v1:'' @ sha256 aid"

definition inbound_claimIfNew :: "'r redis \<Rightarrow> (string \<Rightarrow> string) \<Rightarrow> int \<Rightarrow> string \<Rightarrow> ('r, bool) io" where
  "inbound_claimIfNew R sha256 ttlSeconds aid = set_nx R (inboundGuardKey sha256 aid) ''1'' ttlSeconds"

definition INBOUND_GUARD_TTL_SECONDS :: int where "INBOUND_GUARD_TTL_SECONDS = 7 * 24 * 3600"

definition announceGuardKey :: "(string \<Rightarrow> string) \<Rightarrow> string \<Rightarrow> string \<Rightarrow> string" where
  "announceGuardKey sha256 actor objectId = ''ap:announce:v1:'' @ sha256 (actor @ ''::'' @ objectId)"

definition announce_claimIfNew :: "'r redis \<Rightarrow> (string \<Rightarrow> string) \<Rightarrow> int \<Rightarrow> string \<Rightarrow> string \<Rightarrow> ('r, bool) io" where
  "announce_claimIfNew R sha256 ttlSeconds actor objectId =
     set_nx R (announceGuardKey sha256 actor objectId) ''1'' ttlSeconds"

definition ANNOUNCE_GUARD_TTL_SECONDS :: int where "ANNOUNCE_GUARD_TTL_SECONDS = 24 * 3600"

end
