(* ===== verification/Inbound_Protocol.thy ===== *)
theory Inbound_Protocol
  imports Inbound_Worker Protocol_Runs
begin

text \<open>
  What the inbound worker promises about one envelope: which call it may make after which.  The observer remembers the whole trace, so
  that the state of the protocol is the trace itself.
\<close>

section \<open>What is known\<close>

text \<open>A document that was read from the cache or fetched; that there is none.\<close>

definition document :: "inbound_event list \<Rightarrow> string \<Rightarrow> json \<Rightarrow> bool" where
  "document es url doc \<longleftrightarrow>
     (NvCached url (Some (Some doc)) \<in> set es \<and> json_truthy doc) \<or>
     (\<exists>r t. NvGet url (Some r) \<in> set es \<and> ar_status r = 200 \<and> ar_body r = Some t \<and> json_parse t = Some doc)"

definition no_document :: "inbound_event list \<Rightarrow> string \<Rightarrow> bool" where
  "no_document es url \<longleftrightarrow>
     url = [] \<or> NvCached url None \<in> set es \<or> NvGet url None \<in> set es \<or>
     (\<exists>r. NvGet url (Some r) \<in> set es \<and> (ar_status r \<noteq> 200 \<or> ar_body r = None \<or> (\<exists>t. ar_body r = Some t \<and> json_parse t = None))) \<or>
     (\<exists>doc. NvCache url doc False \<in> set es)"

definition signed_by :: "'s inbound_services \<Rightarrow> InboundEnvelope \<Rightarrow> inbound_event list \<Rightarrow> string \<Rightarrow> bool" where
  "signed_by S e es actor \<longleftrightarrow>
     (\<exists>keyId signature signedHeaders doc. signature_params e = Inr (keyId, signature, signedHeaders) \<and>
        document es (before_hash keyId) doc \<and> check_signature S e keyId signature signedHeaders doc = Inr actor)"

definition unsigned :: "'s inbound_services \<Rightarrow> InboundEnvelope \<Rightarrow> inbound_event list \<Rightarrow> bool" where
  "unsigned S e es \<longleftrightarrow>
     (\<exists>err. signature_params e = Inl err) \<or>
     (\<exists>keyId signature signedHeaders. signature_params e = Inr (keyId, signature, signedHeaders) \<and>
        (no_document es (before_hash keyId) \<or>
         (\<exists>doc err. document es (before_hash keyId) doc \<and> check_signature S e keyId signature signedHeaders doc = Inl err)))"

definition vouched :: "'s inbound_services \<Rightarrow> InboundEnvelope \<Rightarrow> inbound_event list \<Rightarrow> string \<Rightarrow> bool" where
  "vouched S e es actor \<longleftrightarrow>
     getTrustedVerification e = Some actor \<or> (getTrustedVerification e = None \<and> signed_by S e es actor)"

definition well_formed :: "InboundEnvelope \<Rightarrow> json \<Rightarrow> bool" where
  "well_formed e act \<longleftrightarrow>
     json_parse (ie_body e) = Some act \<and> act \<noteq> JNull \<and> \<not> falsy (json_get ''type'' act) \<and> \<not> falsy (json_get ''actor'' act)"

text \<open>The activity of the envelope is by the actor who is vouched for.\<close>

definition verified_as :: "'s inbound_services \<Rightarrow> InboundEnvelope \<Rightarrow> inbound_event list \<Rightarrow> json \<Rightarrow> string \<Rightarrow> bool" where
  "verified_as S e es act actor \<longleftrightarrow>
     well_formed e act \<and> extractActivityActorUri act = Some actor \<and> vouched S e es actor"

definition unverified :: "'s inbound_services \<Rightarrow> InboundEnvelope \<Rightarrow> inbound_event list \<Rightarrow> json \<Rightarrow> bool" where
  "unverified S e es act \<longleftrightarrow>
     extractActivityActorUri act = None \<or> (\<exists>v. vouched S e es v \<and> extractActivityActorUri act \<noteq> Some v) \<or>
     (getTrustedVerification e = None \<and> unsigned S e es)"

definition unblocked :: "'s inbound_services \<Rightarrow> inbound_event list \<Rightarrow> string \<Rightarrow> bool" where
  "unblocked S es actor \<longleftrightarrow>
     (case extractDomain (ns_parse S) actor of None \<Rightarrow> True | Some d \<Rightarrow> NvBlocked d (Some False) \<in> set es)"

definition permitted :: "'s inbound_services \<Rightarrow> InboundEnvelope \<Rightarrow> inbound_event list \<Rightarrow> json \<Rightarrow> string \<Rightarrow> bool" where
  "permitted S e es act actor \<longleftrightarrow>
     (\<exists>webId a. NvPolicy (subject_of S e act actor webId) (Some a) \<in> set es \<and> \<not> discards a)"

definition screened :: "'s inbound_services \<Rightarrow> InboundEnvelope \<Rightarrow> inbound_event list \<Rightarrow> json \<Rightarrow> string \<Rightarrow> bool" where
  "screened S e es act actor \<longleftrightarrow>
     ns_spam S = None \<or> (\<exists>doc a. NvSpam (subject_of S e act actor None) doc act (Some a) \<in> set es \<and> \<not> discards a)"

definition let_in :: "'s inbound_services \<Rightarrow> InboundEnvelope \<Rightarrow> inbound_event list \<Rightarrow> json \<Rightarrow> string \<Rightarrow> bool" where
  "let_in S e es act actor \<longleftrightarrow>
     verified_as S e es act actor \<and> unblocked S es actor \<and> permitted S e es act actor \<and> screened S e es act actor"

definition claimed_new :: "'s inbound_services \<Rightarrow> inbound_event list \<Rightarrow> json \<Rightarrow> bool" where
  "claimed_new S es act \<longleftrightarrow>
     ns_claim S = None \<or> (\<forall>i. json_get ''id'' act = Some i \<longrightarrow> json_truthy i \<longrightarrow> NvClaim (js_String i) (Some True) \<in> set es)"

definition announced_new :: "'s inbound_services \<Rightarrow> inbound_event list \<Rightarrow> json \<Rightarrow> string \<Rightarrow> bool" where
  "announced_new S es act actor \<longleftrightarrow>
     ns_announce S = None \<or> normalizeActivityType (json_get ''type'' act) \<noteq> ''Announce'' \<or>
     (\<forall>i. extractAnnounceObjectId act = Some i \<longrightarrow> NvAnnounce actor i (Some True) \<in> set es)"

text \<open>It is neither a report nor for the provider, and not a duplicate.\<close>

definition inbound_fresh :: "'s inbound_services \<Rightarrow> inbound_config \<Rightarrow> InboundEnvelope \<Rightarrow> inbound_event list \<Rightarrow> json \<Rightarrow> string \<Rightarrow> bool" where
  "inbound_fresh S C e es act actor \<longleftrightarrow>
     let_in S e es act actor \<and> \<not> isFlagActivity act \<and> (ns_provider S = None \<or> \<not> isProviderDirectedActivity C act (ie_path e)) \<and>
     claimed_new S es act \<and> announced_new S es act actor"

definition for_activity_pods :: "'s inbound_services \<Rightarrow> inbound_config \<Rightarrow> InboundEnvelope \<Rightarrow> string \<Rightarrow> bool" where
  "for_activity_pods S C e actor \<longleftrightarrow>
     \<not> isSidecarActor S C actor \<and> \<not> isLocalActor S C actor \<and> \<not> isSidecarInbox C (ie_path e)"

fun delivering :: "inbound_event \<Rightarrow> bool" where
  "delivering (NvPost _ _) = True"
| "delivering (NvBridge _ _ _) = True"
| "delivering _ = False"

definition delivered_to_pods :: "inbound_event list \<Rightarrow> json \<Rightarrow> string \<Rightarrow> bool" where
  "delivered_to_pods es act actor \<longleftrightarrow>
     NvBridge act actor True \<in> set es \<or> (\<exists>q r. NvPost q (Some r) \<in> set es \<and> forward_answer r = Inr Forwarded)"

text \<open>The forwarding failed, for good or not.\<close>

definition forward_failed :: "inbound_event list \<Rightarrow> bool \<Rightarrow> bool" where
  "forward_failed es permanent \<longleftrightarrow>
     (\<exists>q r err. NvPost q (Some r) \<in> set es \<and> forward_answer r = Inr (Forward_failed permanent err)) \<or>
     (\<not> permanent \<and> (\<exists>q. NvPost q None \<in> set es \<or> (\<exists>r err. NvPost q (Some r) \<in> set es \<and> forward_answer r = Inl err)))"

definition deferred_again :: "InboundEnvelope \<Rightarrow> inbound_event list \<Rightarrow> bool" where
  "deferred_again e es \<longleftrightarrow> (\<exists>t. NvTime t \<in> set es \<and> js_lt (Num t) (ie_notBeforeMs e))"

definition gate_shut :: "inbound_config \<Rightarrow> bool" where
  "gate_shut C \<longleftrightarrow> (case nc_capabilityGate C of None \<Rightarrow> False | Some gate \<Rightarrow> \<not> g_allowed (gate ''ap.federation.ingress''))"

text \<open>Why an envelope is acknowledged: it is refused, it was handled, it is a duplicate, or it goes on.\<close>

inductive inbound_accounted :: "'s inbound_services \<Rightarrow> inbound_config \<Rightarrow> InboundEnvelope \<Rightarrow> inbound_event list \<Rightarrow> bool"
  for S C e es where
  put_back: "deferred_again e es \<Longrightarrow> NvEnqueue e True \<in> set es \<Longrightarrow> inbound_accounted S C e es"
| shut: "gate_shut C \<Longrightarrow> inbound_accounted S C e es"
| unreadable: "json_parse (ie_body e) = None \<Longrightarrow> inbound_accounted S C e es"
| incomplete: "json_parse (ie_body e) = Some act \<Longrightarrow> falsy (json_get ''type'' act) \<or> falsy (json_get ''actor'' act) \<Longrightarrow> inbound_accounted S C e es"
| refused: "well_formed e act \<Longrightarrow> unverified S e es act \<Longrightarrow> inbound_accounted S C e es"
| blocked: "verified_as S e es act actor \<Longrightarrow> extractDomain (ns_parse S) actor = Some d \<Longrightarrow> NvBlocked d (Some True) \<in> set es \<Longrightarrow> inbound_accounted S C e es"
| policy: "verified_as S e es act actor \<Longrightarrow> NvPolicy (subject_of S e act actor webId) (Some a) \<in> set es \<Longrightarrow> discards a \<Longrightarrow> inbound_accounted S C e es"
| spam: "verified_as S e es act actor \<Longrightarrow> NvSpam (subject_of S e act actor None) doc act (Some a) \<in> set es \<Longrightarrow> discards a \<Longrightarrow> inbound_accounted S C e es"
| report: "let_in S e es act actor \<Longrightarrow> NvFlag act actor True \<in> set es \<Longrightarrow> inbound_accounted S C e es"
| provider: "let_in S e es act actor \<Longrightarrow> NvProvider ev (Some True) \<in> set es \<Longrightarrow> inbound_accounted S C e es"
| duplicate: "let_in S e es act actor \<Longrightarrow> json_get ''id'' act = Some i \<Longrightarrow> NvClaim (js_String i) (Some False) \<in> set es \<Longrightarrow> inbound_accounted S C e es"
| seen: "let_in S e es act actor \<Longrightarrow> json_get ''id'' act = Some i \<Longrightarrow> NvSeen (js_String i) True \<in> set es \<Longrightarrow> inbound_accounted S C e es"
| boosted: "let_in S e es act actor \<Longrightarrow> extractAnnounceObjectId act = Some i \<Longrightarrow> NvAnnounce actor i (Some False) \<in> set es \<Longrightarrow> inbound_accounted S C e es"
| kept_here: "inbound_fresh S C e es act actor \<Longrightarrow> \<not> for_activity_pods S C e actor \<Longrightarrow> inbound_accounted S C e es"
| delivered: "inbound_fresh S C e es act actor \<Longrightarrow> delivered_to_pods es act actor \<Longrightarrow> inbound_accounted S C e es"
| undelivered: "inbound_fresh S C e es act actor \<Longrightarrow> NvBridge act actor False \<in> set es \<or> forward_failed es permanent \<Longrightarrow> inbound_accounted S C e es"

text \<open>A call that is not isolated was rejected, or the handler threw by itself.\<close>

fun rejected :: "inbound_event \<Rightarrow> bool" where
  "rejected (NvEnqueue _ r) = (\<not> r)"
| "rejected (NvAck r) = (\<not> r)"
| "rejected (NvDlq _ _ r) = (\<not> r)"
| "rejected (NvBlocked _ r) = (r = None)"
| "rejected (NvPolicy _ r) = (r = None)"
| "rejected (NvSpam _ _ _ r) = (r = None)"
| "rejected (NvFlag _ _ r) = (\<not> r)"
| "rejected (NvProvider _ r) = (r = None)"
| "rejected (NvClaim _ r) = (r = None)"
| "rejected (NvAnnounce _ _ r) = (r = None)"
| "rejected _ = False"

definition troubled :: "'s inbound_services \<Rightarrow> InboundEnvelope \<Rightarrow> inbound_event list \<Rightarrow> bool" where
  "troubled S e es \<longleftrightarrow>
     list_ex rejected es \<or> json_parse (ie_body e) = Some JNull \<or> ns_iso S (ie_receivedAt e) = None"

section \<open>The protocol\<close>

inductive inbound_allows :: "'s inbound_services \<Rightarrow> inbound_config \<Rightarrow> InboundEnvelope \<Rightarrow> inbound_event list \<Rightarrow> inbound_event \<Rightarrow> bool"
  for S C e es where
  time: "inbound_allows S C e es (NvTime t)"
| cached: "inbound_allows S C e es (NvCached url r)"
| get: "NvCached url (Some a) \<in> set es \<Longrightarrow> falsy a \<Longrightarrow> inbound_allows S C e es (NvGet url r)"
| cache: "document es url doc \<Longrightarrow> inbound_allows S C e es (NvCache url doc r)"
| sync: "verified_as S e es act actor \<Longrightarrow> inbound_allows S C e es (NvSync h actor l r)"
| block: "verified_as S e es act actor \<Longrightarrow> extractDomain (ns_parse S) actor = Some d \<Longrightarrow> inbound_allows S C e es (NvBlocked d r)"
| webid: "verified_as S e es act actor \<Longrightarrow> unblocked S es actor \<Longrightarrow> inbound_allows S C e es (NvWebid actor r)"
| permit: "verified_as S e es act actor \<Longrightarrow> unblocked S es actor \<Longrightarrow> inbound_allows S C e es (NvPolicy (subject_of S e act actor webId) r)"
| screen: "verified_as S e es act actor \<Longrightarrow> unblocked S es actor \<Longrightarrow> permitted S e es act actor \<Longrightarrow>
    inbound_allows S C e es (NvSpam (subject_of S e act actor None) doc act r)"
| flag: "let_in S e es act actor \<Longrightarrow> isFlagActivity act \<Longrightarrow> inbound_allows S C e es (NvFlag act actor r)"
| provide: "let_in S e es act actor \<Longrightarrow> \<not> isFlagActivity act \<Longrightarrow> isProviderDirectedActivity C act (ie_path e) \<Longrightarrow>
    inbound_allows S C e es (NvProvider (provider_event_of act actor (ie_path e) receivedAt) r)"
| claim: "let_in S e es act actor \<Longrightarrow> \<not> isFlagActivity act \<Longrightarrow> json_get ''id'' act = Some i \<Longrightarrow> json_truthy i \<Longrightarrow>
    inbound_allows S C e es (NvClaim (js_String i) r)"
| see: "let_in S e es act actor \<Longrightarrow> \<not> isFlagActivity act \<Longrightarrow> claimed_new S es act \<Longrightarrow> json_get ''id'' act = Some i \<Longrightarrow>
    inbound_allows S C e es (NvSeen (js_String i) b)"
| boost: "let_in S e es act actor \<Longrightarrow> claimed_new S es act \<Longrightarrow> extractAnnounceObjectId act = Some i \<Longrightarrow>
    inbound_allows S C e es (NvAnnounce actor i r)"
| post: "inbound_fresh S C e es act actor \<Longrightarrow> for_activity_pods S C e actor \<Longrightarrow> \<not> list_ex delivering es \<Longrightarrow>
    inbound_allows S C e es (NvPost (forward_request_for C e act actor) r)"
| bridge: "inbound_fresh S C e es act actor \<Longrightarrow> for_activity_pods S C e actor \<Longrightarrow> \<not> list_ex delivering es \<Longrightarrow>
    inbound_allows S C e es (NvBridge act actor r)"
| stream1: "inbound_fresh S C e es act actor \<Longrightarrow> isPublicActivity act \<Longrightarrow> isLocalActor S C actor \<Longrightarrow> NvAck True \<in> set es \<Longrightarrow>
    inbound_allows S C e es (NvStream1 (publication_of e act actor mta None) r)"
| stream2: "inbound_fresh S C e es act actor \<Longrightarrow> isPublicActivity act \<Longrightarrow>
    if dm_attempted d then delivered_to_pods es act actor else \<not> for_activity_pods S C e actor \<and> NvAck True \<in> set es \<Longrightarrow>
    inbound_allows S C e es (NvStream2 (publication_of e act actor mta (Some d)) r)"
| tombstone: "inbound_fresh S C e es act actor \<Longrightarrow> isPublicActivity act \<Longrightarrow> removes_content act \<Longrightarrow> delivered_to_pods es act actor \<Longrightarrow>
    tb_actorUri t = actor \<Longrightarrow> inbound_allows S C e es (NvTombstone t r)"
| project: "inbound_fresh S C e es act actor \<Longrightarrow> delivered_to_pods es act actor \<or> isLocalActor S C actor \<and> NvAck True \<in> set es \<Longrightarrow>
    inbound_allows S C e es (NvProject act actor r)"
| canonical: "inbound_fresh S C e es act actor \<Longrightarrow> delivered_to_pods es act actor \<or> \<not> for_activity_pods S C e actor \<and> NvAck True \<in> set es \<Longrightarrow>
    inbound_allows S C e es (NvCanonical (canonical_of act actor b k) r)"
| webhook: "inbound_fresh S C e es act actor \<Longrightarrow> isPublicActivity act \<Longrightarrow> isSidecarInbox C (ie_path e) \<Longrightarrow> NvAck True \<in> set es \<Longrightarrow>
    inbound_allows S C e es (NvWebhook act actor r)"
| backfill: "inbound_fresh S C e es act actor \<Longrightarrow> isPublicActivity act \<Longrightarrow> delivered_to_pods es act actor \<Longrightarrow> inbound_allows S C e es (NvBackfill act r)"
| reconcile: "inbound_fresh S C e es act actor \<Longrightarrow> isPublicActivity act \<Longrightarrow> delivered_to_pods es act actor \<Longrightarrow> inbound_allows S C e es (NvReconcile act r)"
| adapter: "inbound_fresh S C e es act actor \<Longrightarrow> delivered_to_pods es act actor \<Longrightarrow> NvAck True \<in> set es \<Longrightarrow> inbound_allows S C e es (NvAdapter actor r)"
| again: "deferred_again e es \<Longrightarrow> inbound_allows S C e es (NvEnqueue e r)"
| retry: "inbound_fresh S C e es act actor \<Longrightarrow> forward_failed es False \<Longrightarrow> \<not> js_le (Num MAX_INBOUND_ATTEMPTS) (ie_attempt e) \<Longrightarrow>
    NvAck True \<in> set es \<Longrightarrow> NvTime t \<in> set es \<Longrightarrow> inbound_allows S C e es (NvEnqueue (retry_envelope e t) r)"
| dead_letter: "NvAck True \<in> set es \<Longrightarrow> inbound_accounted S C e es \<Longrightarrow> inbound_allows S C e es (NvDlq e reason r)"
| ack: "inbound_accounted S C e es \<or> troubled S e es \<Longrightarrow> inbound_allows S C e es (NvAck r)"

definition inbound_protocol ::
  "'s inbound_services \<Rightarrow> inbound_config \<Rightarrow> InboundEnvelope \<Rightarrow> ('s inbound_world, inbound_event, inbound_event list, int) protocol" where
  "inbound_protocol S C e =
     \<lparr>pt_step = (\<lambda>es ev es'. es' = ev # es \<and> inbound_allows S C e es ev), pt_start = [], pt_trace = nw_trace, pt_view = nw_active\<rparr>"

lemma inbound_protocol_simps [simp]:
  "pt_step (inbound_protocol S C e) es ev es' \<longleftrightarrow> es' = ev # es \<and> inbound_allows S C e es ev"
  "pt_start (inbound_protocol S C e) = []"
  "pt_trace (inbound_protocol S C e) = nw_trace"
  "pt_view (inbound_protocol S C e) = nw_active"
  by (simp_all add: inbound_protocol_def)

lemma leads_trace: "leads (inbound_protocol S C e) es s \<Longrightarrow> s = es"
  by (induction rule: leads.induct) auto

end
