(* ===== verification/Inbound_Properties.thy ===== *)
theory Inbound_Properties
  imports Inbound_Protocol
begin

text \<open>
  The inbound worker follows the protocol of \<open>Inbound_Protocol\<close>.  What the trace shows is never taken back, so the facts a step relies
  on are carried along as predicates that grow with the trace.
\<close>

section \<open>Growing with the trace\<close>

named_theorems grows \<open>what holds of a trace holds of a longer one\<close>

lemma document_grows [grows]: "document es url doc \<Longrightarrow> document (ev # es) url doc"
  by (auto simp: document_def)

lemma no_document_grows [grows]: "no_document es url \<Longrightarrow> no_document (ev # es) url"
  by (auto simp: no_document_def)

lemma signed_by_grows [grows]: "signed_by S e es actor \<Longrightarrow> signed_by S e (ev # es) actor"
  unfolding signed_by_def by (blast intro: document_grows)

lemma unsigned_grows [grows]: "unsigned S e es \<Longrightarrow> unsigned S e (ev # es)"
  unfolding unsigned_def by (blast intro: document_grows no_document_grows)

lemma vouched_grows [grows]: "vouched S e es actor \<Longrightarrow> vouched S e (ev # es) actor"
  unfolding vouched_def by (blast intro: signed_by_grows)

lemma verified_grows [grows]: "verified_as S e es act actor \<Longrightarrow> verified_as S e (ev # es) act actor"
  unfolding verified_as_def by (blast intro: vouched_grows)

lemma unblocked_grows [grows]: "unblocked S es actor \<Longrightarrow> unblocked S (ev # es) actor"
  by (auto simp: unblocked_def split: option.splits)

lemma permitted_grows [grows]: "permitted S e es act actor \<Longrightarrow> permitted S e (ev # es) act actor"
  by (auto simp: permitted_def)

lemma screened_grows [grows]: "screened S e es act actor \<Longrightarrow> screened S e (ev # es) act actor"
  by (auto simp: screened_def)

lemma let_in_grows [grows]: "let_in S e es act actor \<Longrightarrow> let_in S e (ev # es) act actor"
  by (simp add: let_in_def grows)

lemma claimed_new_grows [grows]: "claimed_new S es act \<Longrightarrow> claimed_new S (ev # es) act"
  by (auto simp: claimed_new_def)

lemma announced_new_grows [grows]: "announced_new S es act actor \<Longrightarrow> announced_new S (ev # es) act actor"
  by (auto simp: announced_new_def)

lemma inbound_fresh_grows [grows]: "inbound_fresh S C e es act actor \<Longrightarrow> inbound_fresh S C e (ev # es) act actor"
  by (simp add: inbound_fresh_def grows)

lemma delivered_grows [grows]: "delivered_to_pods es act actor \<Longrightarrow> delivered_to_pods (ev # es) act actor"
  by (auto simp: delivered_to_pods_def)

lemma forward_failed_grows [grows]: "forward_failed es p \<Longrightarrow> forward_failed (ev # es) p"
  unfolding forward_failed_def list.set insert_iff by blast

lemma deferred_grows [grows]: "deferred_again e es \<Longrightarrow> deferred_again e (ev # es)"
  by (auto simp: deferred_again_def)

lemma unverified_grows [grows]: "unverified S e es act \<Longrightarrow> unverified S e (ev # es) act"
  unfolding unverified_def by (blast intro: vouched_grows unsigned_grows)

lemma inbound_accounted_grows [grows]: "inbound_accounted S C e es \<Longrightarrow> inbound_accounted S C e (ev # es)"
  by (induction rule: inbound_accounted.induct) (auto intro: inbound_accounted.intros grows)

lemma troubled_grows [grows]: "troubled S e es \<Longrightarrow> troubled S e (ev # es)"
  by (auto simp: troubled_def)

definition was_acked :: "inbound_event list \<Rightarrow> bool" where
  "was_acked es \<longleftrightarrow> NvAck True \<in> set es"

lemma was_acked_grows [grows]: "was_acked es \<Longrightarrow> was_acked (ev # es)"
  by (simp add: was_acked_def)

lemma trouble: "rejected ev \<Longrightarrow> troubled S e (ev # es)"
  by (simp add: troubled_def)

definition idle :: "inbound_event list \<Rightarrow> bool" where
  "idle es \<longleftrightarrow> \<not> list_ex delivering es"

lemma idle_Cons [simp]: "idle (ev # es) \<longleftrightarrow> \<not> delivering ev \<and> idle es"
  by (simp add: idle_def)

section \<open>The calls\<close>

text \<open>What a method arrives at is said of the trace alone; the count of active jobs stays.\<close>

definition at :: "int \<Rightarrow> (inbound_event list \<Rightarrow> bool) \<Rightarrow> inbound_event list \<Rightarrow> int \<Rightarrow> bool" where
  "at v K es v' \<longleftrightarrow> v' = v \<and> K es"

lemma at_simp [simp]: "at v K es v' \<longleftrightarrow> v' = v \<and> K es"
  by (simp add: at_def)

lemma run_ncalled:
  fixes m :: "('s, string, 'a) eio" and S :: "'s inbound_services"
  assumes "\<And>a. inbound_allows S C e s (ev (Inr a)) \<and> Q a (ev (Inr a) # s) v"
    and "\<And>err err'. inbound_allows S C e s (ev (Inl err')) \<and> E err (ev (Inl err') # s) v"
  shows "runs (inbound_protocol S C e) (ncalled ev m) Q E s v"
proof (rule run_call [where ev = ev])
  show "makes_call (inbound_protocol S C e) ev (ncalled ev m)"
    unfolding makes_call_def
  proof
    fix w :: "'s inbound_world"
    obtain r t where "m (nw_srv w) = (r, t)" by fastforce
    then show "case ncalled ev m w of (r, w') \<Rightarrow> pt_view (inbound_protocol S C e) w' = pt_view (inbound_protocol S C e) w \<and>
        ((\<exists>a. r = Inr a \<and> pt_trace (inbound_protocol S C e) w' = ev (Inr a) # pt_trace (inbound_protocol S C e) w) \<or>
         (\<exists>err err'. r = Inl err \<and> pt_trace (inbound_protocol S C e) w' = ev (Inl err') # pt_trace (inbound_protocol S C e) w))"
      by (cases r) (auto simp: ncalled_def)
  qed
qed (use assms in auto)

lemma run_nclock:
  assumes "\<And>t. Q t (NvTime t # s) v"
  shows "runs (inbound_protocol S C e) (nclock T) Q E s v"
proof (rule runsI)
  fix w assume w: "leads (inbound_protocol S C e) (pt_trace (inbound_protocol S C e) w) s" "pt_view (inbound_protocol S C e) w = v"
  have "leads (inbound_protocol S C e) (NvTime t # nw_trace w) (NvTime t # s)" for t
    by (rule leads.event) (use w in \<open>simp_all add: inbound_allows.time\<close>)
  with assms w show "wp (nclock T) (\<lambda>a. arrives (inbound_protocol S C e) (Q a)) (\<lambda>err. arrives (inbound_protocol S C e) (E err)) w"
    by (cases "ns_now T (nw_srv w)") (auto simp: wp_def nclock_def intro!: arrivesI)
qed

lemma run_nseen:
  assumes "\<And>b. inbound_allows S C e s (NvSeen i b)" and "\<And>b. Q b (NvSeen i b # s) v" and "Q False s v"
  shows "runs (inbound_protocol S C e) (nseen i) Q E s v"
proof (rule runsI)
  fix w assume w: "leads (inbound_protocol S C e) (pt_trace (inbound_protocol S C e) w) s" "pt_view (inbound_protocol S C e) w = v"
  have "leads (inbound_protocol S C e) (NvSeen i b # nw_trace w) (NvSeen i b # s)" for b
  proof (rule leads.event)
    show "leads (inbound_protocol S C e) (nw_trace w) s" using w by simp
    show "pt_step (inbound_protocol S C e) s (NvSeen i b) (NvSeen i b # s)" using assms(1) by simp
  qed
  with assms w show "wp (nseen i) (\<lambda>a. arrives (inbound_protocol S C e) (Q a)) (\<lambda>err. arrives (inbound_protocol S C e) (E err)) w"
    by (cases "nw_seen w") (auto simp: wp_def nseen_def intro!: arrivesI)
qed

lemma run_nadd_active: "Q () s (v + d) \<Longrightarrow> runs (inbound_protocol S C e) (nadd_active d) Q E s v"
  unfolding nadd_active_def by (rule run_local [where h = "\<lambda>v. v + d"]) auto

lemma run_nsum:
  "(\<And>a. x = Inr a \<Longrightarrow> Q a s v) \<Longrightarrow> (\<And>err. x = Inl err \<Longrightarrow> E err s v) \<Longrightarrow> runs P (nsum x) Q E s v"
  by (auto simp: nsum_def split: sum.split intro: run_return run_throw)

lemma run_nquiet: "runs P m Q (\<lambda>_. Q ()) s v \<Longrightarrow> runs P (nquiet m) Q E s v"
  unfolding nquiet_def by (rule run_catch) (erule run_mono, simp_all add: run_return)

lemma inbound_reply_simps [simp]: "reply (Inl err) = None" "reply (Inr a) = Some a"
  by (simp_all add: reply_def)

text \<open>A call that the protocol allows whatever is answered, and that keeps what is known.\<close>

lemma run_neutral:
  assumes "\<And>r. inbound_allows S C e s (ev r)" and "\<And>r. K (ev r # s)"
  shows "runs (inbound_protocol S C e) (ncalled ev m) (\<lambda>_. at v K) (\<lambda>_. at v K) s v"
  by (rule run_ncalled) (use assms in simp_all)

lemma run_inbound_ack:
  assumes "inbound_accounted S C e s \<or> troubled S e s" and "was_acked (NvAck True # s) \<Longrightarrow> K (NvAck True # s)"
  shows "runs (inbound_protocol S C e) (n_ack S m) (\<lambda>_. at v K) (\<lambda>_. at v (\<lambda>s'. s' = NvAck False # s)) s v"
  unfolding n_ack_def by (rule run_ncalled) (use assms in \<open>simp_all add: inbound_allows.ack was_acked_def\<close>)

lemma run_inbound_ack_trouble:
  assumes "inbound_accounted S C e s" and "K (NvAck True # s)"
  shows "runs (inbound_protocol S C e) (n_ack S m) (\<lambda>_. at v K) (\<lambda>_. at v (troubled S e)) s v"
  by (rule run_mono [OF run_inbound_ack]) (use assms in \<open>auto simp: trouble\<close>)

lemma run_dismiss:
  assumes "inbound_accounted S C e s"
  shows "runs (inbound_protocol S C e) (n_dismiss S m e reason) (\<lambda>_. at v was_acked) (\<lambda>_. at v (troubled S e)) s v"
  unfolding n_dismiss_def
proof (rule run_then, rule run_mono [OF run_inbound_ack_trouble [OF assms]])
  fix a t v' assume "at v (\<lambda>t. t = NvAck True # s) t v'"
  then show "runs (inbound_protocol S C e) (ncalled (\<lambda>r. NvDlq e reason (reply r \<noteq> None)) (ns_dlq S e reason))
      (\<lambda>_. at v was_acked) (\<lambda>_. at v (troubled S e)) t v'"
    by (auto intro!: run_ncalled inbound_allows.dead_letter simp: was_acked_def trouble assms grows)
qed simp_all

lemma run_stop:
  assumes "inbound_accounted S C e s"
  shows "runs (inbound_protocol S C e) (n_stop S m) (\<lambda>b. at v (\<lambda>t. b \<and> was_acked t)) (\<lambda>_. at v (troubled S e)) s v"
  unfolding n_stop_def
  by (rule run_then, rule run_mono [OF run_inbound_ack_trouble [OF assms]]) (auto intro!: run_return simp: was_acked_def)

section \<open>Documents\<close>

text \<open>A fact that reading documents cannot change.\<close>

definition calm :: "(inbound_event list \<Rightarrow> bool) \<Rightarrow> bool" where
  "calm K \<longleftrightarrow> (\<forall>ev es. \<not> delivering ev \<longrightarrow> K es \<longrightarrow> K (ev # es))"

lemma calmD: "calm K \<Longrightarrow> K es \<Longrightarrow> \<not> delivering ev \<Longrightarrow> K (ev # es)"
  by (simp add: calm_def)

definition got :: "(inbound_event list \<Rightarrow> bool) \<Rightarrow> string \<Rightarrow> json \<Rightarrow> inbound_event list \<Rightarrow> bool" where
  "got K url doc es \<longleftrightarrow> K es \<and> (doc = JNull \<and> no_document es url \<or> document es url doc)"

lemma run_fetched_document:
  assumes "calm K" and "K s" and "NvCached url (Some a) \<in> set s" and "falsy a"
  shows "runs (inbound_protocol S C e) (fetched_document S C url) (\<lambda>doc. at v (got K url doc)) E s v"
proof -
  let ?P = "inbound_protocol S C e"
  have none: "got K url JNull es" if "K es" "no_document es url" for es using that by (simp add: got_def)
  have keep: "runs ?P (io_then (ncalled (\<lambda>r. NvCache url doc (reply r \<noteq> None)) m) (io_return doc))
      (\<lambda>doc. at v (got K url doc)) (\<lambda>_. at v (got K url JNull)) t v" if "K t" "document t url doc" for t doc m
    by (rule run_then, rule run_ncalled)
       (use that in \<open>auto intro!: run_return inbound_allows.cache calmD [OF assms(1)] simp: got_def no_document_def grows\<close>)
  have read: "runs ?P (if ar_status r \<noteq> 200 then io_return JNull
      else io_bind (nsum (case ar_body r of None \<Rightarrow> Inl ''terminated''
             | Some t \<Rightarrow> (case json_parse t of None \<Rightarrow> Inl ''Unexpected token'' | Some doc \<Rightarrow> Inr doc))) (\<lambda>doc.
           io_then (ncalled (\<lambda>r. NvCache url doc (reply r \<noteq> None)) (ns_cache S url doc n)) (io_return doc)))
      (\<lambda>doc. at v (got K url doc)) (\<lambda>_. at v (got K url JNull)) (NvGet url (Some r) # s) v" for r n
  proof (rule run_if)
    assume "ar_status r \<noteq> 200"
    then show "runs ?P (io_return JNull) (\<lambda>doc. at v (got K url doc)) (\<lambda>_. at v (got K url JNull)) (NvGet url (Some r) # s) v"
      by (intro run_return) (auto intro!: none calmD [OF assms(1,2)] simp: no_document_def)
  next
    assume st: "\<not> ar_status r \<noteq> 200"
    have k: "K (NvGet url (Some r) # s)" by (rule calmD [OF assms(1,2)]) simp
    show "runs ?P (io_bind (nsum (case ar_body r of None \<Rightarrow> Inl ''terminated''
             | Some t \<Rightarrow> (case json_parse t of None \<Rightarrow> Inl ''Unexpected token'' | Some doc \<Rightarrow> Inr doc))) (\<lambda>doc.
           io_then (ncalled (\<lambda>r. NvCache url doc (reply r \<noteq> None)) (ns_cache S url doc n)) (io_return doc)))
      (\<lambda>doc. at v (got K url doc)) (\<lambda>_. at v (got K url JNull)) (NvGet url (Some r) # s) v"
    proof (rule run_bind, rule run_nsum)
      fix doc assume "(case ar_body r of None \<Rightarrow> Inl ''terminated'' | Some t \<Rightarrow> (case json_parse t of None \<Rightarrow> Inl ''Unexpected token'' | Some doc \<Rightarrow> Inr doc)) = Inr doc"
      then have "document (NvGet url (Some r) # s) url doc" using st by (auto simp: document_def split: option.splits)
      with k show "runs ?P (io_then (ncalled (\<lambda>r. NvCache url doc (reply r \<noteq> None)) (ns_cache S url doc n)) (io_return doc))
          (\<lambda>doc. at v (got K url doc)) (\<lambda>_. at v (got K url JNull)) (NvGet url (Some r) # s) v" by (rule keep)
    next
      fix err assume "(case ar_body r of None \<Rightarrow> Inl ''terminated'' | Some t \<Rightarrow> (case json_parse t of None \<Rightarrow> Inl ''Unexpected token'' | Some doc \<Rightarrow> Inr doc)) = Inl err"
      then have "ar_body r = None \<or> (\<exists>t. ar_body r = Some t \<and> json_parse t = None)" by (auto split: option.splits)
      then have "no_document (NvGet url (Some r) # s) url" unfolding no_document_def list.set insert_iff by blast
      with k show "at v (got K url JNull) (NvGet url (Some r) # s) v" by (simp add: none)
    qed
  qed
  have get: "inbound_allows S C e s (NvGet url r)" for r by (rule inbound_allows.get [OF assms(3,4)])
  have "runs ?P (io_bind (ncalled (\<lambda>r. NvGet url (reply r)) (ns_get S url)) (\<lambda>response.
          if ar_status response \<noteq> 200 then io_return JNull
          else io_bind (nsum (case ar_body response of None \<Rightarrow> Inl ''terminated''
                              | Some t \<Rightarrow> (case json_parse t of None \<Rightarrow> Inl ''Unexpected token'' | Some doc \<Rightarrow> Inr doc))) (\<lambda>doc.
               io_then (ncalled (\<lambda>r. NvCache url doc (reply r \<noteq> None))
                    (ns_cache S url doc (- ((- or_else (nc_actorCacheTtlMs C) 3600000) div 1000)))) (io_return doc))))
      (\<lambda>doc. at v (got K url doc)) (\<lambda>_. at v (got K url JNull)) s v"
    by (rule run_bind, rule run_ncalled)
       (use get read in \<open>auto intro!: none calmD [OF assms(1,2)] simp: no_document_def\<close>)
  then show ?thesis
    unfolding fetched_document_def by (intro run_catch) (erule run_mono, auto intro!: run_return)
qed

lemma run_fetchActorDocument:
  assumes "calm K" and "K s"
  shows "runs (inbound_protocol S C e) (fetchActorDocument S C keyId) (\<lambda>doc. at v (got K (before_hash keyId) doc))
    (\<lambda>_. at v (got K (before_hash keyId) JNull)) s v"
proof -
  let ?P = "inbound_protocol S C e" and ?u = "before_hash keyId"
  have k: "K (NvCached ?u r # s)" for r by (rule calmD [OF assms]) simp
  have hit: "got K ?u d (NvCached ?u (Some (Some d)) # s)" if "json_truthy d" for d
    using k that by (simp add: got_def document_def)
  show ?thesis
    unfolding fetchActorDocument_def Let_def
  proof (rule run_if)
    assume "?u = []"
    then show "runs ?P (io_return JNull) (\<lambda>doc. at v (got K ?u doc)) (\<lambda>_. at v (got K ?u JNull)) s v"
      by (intro run_return) (simp add: got_def no_document_def assms(2))
  next
    show "runs ?P (io_bind (ncalled (\<lambda>r. NvCached ?u (reply r)) (ns_cached S ?u)) (\<lambda>cached.
           if \<not> falsy cached then io_return (the cached) else fetched_document S C ?u))
        (\<lambda>doc. at v (got K ?u doc)) (\<lambda>_. at v (got K ?u JNull)) s v"
    proof (rule run_bind, rule run_ncalled, goal_cases)
      case (1 a)
      have "runs ?P (if \<not> falsy a then io_return (the a) else fetched_document S C ?u)
        (\<lambda>doc. at v (got K ?u doc)) (\<lambda>_. at v (got K ?u JNull)) (NvCached ?u (Some a) # s) v"
        by (rule run_if)
           (auto intro!: run_return run_fetched_document [OF assms(1) k] hit simp: falsy_def split: option.splits)
      then show ?case by (simp add: inbound_allows.cached)
    next
      case (2 err err')
      show ?case using k by (simp add: inbound_allows.cached got_def no_document_def)
    qed
  qed
qed

text \<open>Where the worker goes on without a document.\<close>

lemma run_document_or_null:
  assumes "calm K" and "K s"
  shows "runs (inbound_protocol S C e) (io_catch (fetchActorDocument S C keyId) (\<lambda>_. io_return JNull)) (\<lambda>_. at v K) E s v"
  by (rule run_catch, rule run_mono [OF run_fetchActorDocument [OF assms]]) (auto intro!: run_return simp: got_def)

section \<open>Who sent it\<close>

lemma calm_got: "calm K \<Longrightarrow> calm (got K url doc)"
  by (auto simp: calm_def got_def grows)

lemma run_verifySignature:
  assumes "calm K" and "K s"
  shows "runs (inbound_protocol S C e) (verifySignature S C e)
    (\<lambda>r. at v (\<lambda>t. K t \<and> (case r of Inr a \<Rightarrow> signed_by S e t a | Inl _ \<Rightarrow> unsigned S e t))) E s v"
proof (cases "signature_params e")
  case (Inl err)
  then show ?thesis unfolding verifySignature_def by (auto intro!: run_return simp: unsigned_def assms(2))
next
  case (Inr p)
  obtain keyId sg hs where p: "p = (keyId, sg, hs)" by (cases p) auto
  have some: "(case check_signature S e keyId sg hs doc of Inr a \<Rightarrow> signed_by S e t a | Inl _ \<Rightarrow> unsigned S e t)"
    if "got K (before_hash keyId) doc t" for doc t
  proof (cases "doc = JNull \<and> no_document t (before_hash keyId)")
    case True
    then have "unsigned S e t" using Inr p by (simp add: unsigned_def)
    with True show ?thesis by (simp add: check_signature_def)
  next
    case False
    with that have "document t (before_hash keyId) doc" by (auto simp: got_def)
    with Inr p show ?thesis by (auto simp: signed_by_def unsigned_def split: sum.split)
  qed
  have gone: "unsigned S e t" if "got K (before_hash keyId) JNull t" for t
    using some [OF that] by (simp add: check_signature_def)
  show ?thesis
    unfolding verifySignature_def Inr p
    by simp (rule run_catch, rule run_bind, rule run_mono [OF run_fetchActorDocument [OF assms]],
      auto intro!: run_return simp: some gone, simp_all add: got_def)
qed

text \<open>What a verification ends with.\<close>

definition known_as ::
  "(inbound_event list \<Rightarrow> bool) \<Rightarrow> 's inbound_services \<Rightarrow> InboundEnvelope \<Rightarrow> json \<Rightarrow> string option \<Rightarrow> inbound_event list \<Rightarrow> bool" where
  "known_as K S e act r es \<longleftrightarrow> (case r of Some a \<Rightarrow> K es \<and> verified_as S e es act a | None \<Rightarrow> was_acked es)"

lemma run_refused:
  assumes "well_formed e act" and "unverified S e s act"
  shows "runs (inbound_protocol S C e) (io_then (n_dismiss S m e reason) (io_return None))
    (\<lambda>r. at v (known_as K S e act r)) (\<lambda>_. at v (troubled S e)) s v"
  by (rule run_then, rule run_mono [OF run_dismiss [OF inbound_accounted.refused [OF assms]]])
     (auto intro!: run_return simp: known_as_def)

lemma run_validate:
  assumes "well_formed e act" and "vouched S e s a" and "K s"
  shows "runs (inbound_protocol S C e) (validateVerifiedActorMatch S m e act a)
    (\<lambda>r. at v (known_as K S e act r)) (\<lambda>_. at v (troubled S e)) s v"
proof (cases "extractActivityActorUri act = Some a")
  case True
  then show ?thesis
    unfolding validateVerifiedActorMatch_def
    by (auto intro!: run_return simp: known_as_def verified_as_def assms)
next
  case False
  then have "unverified S e s act" using assms(2) by (auto simp: unverified_def)
  then show ?thesis
    unfolding validateVerifiedActorMatch_def
    using False by (auto intro!: run_refused assms(1) split: option.split)
qed

lemma run_resolve:
  assumes "well_formed e act" and "calm K" and "K s"
  shows "runs (inbound_protocol S C e) (resolveVerifiedActorUri S C m e act)
    (\<lambda>r. at v (known_as K S e act r)) (\<lambda>_. at v (troubled S e)) s v"
proof (cases "getTrustedVerification e")
  case (Some a)
  then show ?thesis
    unfolding resolveVerifiedActorUri_def by (auto intro!: run_validate assms simp: vouched_def)
next
  case None
  have "runs (inbound_protocol S C e) (case r of
      Inl err \<Rightarrow> io_then (n_dismiss S m e (''Signature verification failed: '' @ err)) (io_return None)
    | Inr a \<Rightarrow> validateVerifiedActorMatch S m e act a) (\<lambda>r. at v (known_as K S e act r)) (\<lambda>_. at v (troubled S e)) t v"
    if "K t" "case r of Inr a \<Rightarrow> signed_by S e t a | Inl _ \<Rightarrow> unsigned S e t" for r t
  proof (cases r)
    case (Inl err)
    with that None have "unverified S e t act" by (simp add: unverified_def)
    with Inl assms(1) show ?thesis by (simp add: run_refused)
  next
    case (Inr a)
    with that None have "vouched S e t a" by (simp add: vouched_def)
    with Inr assms(1) that(1) show ?thesis by (simp add: run_validate)
  qed
  then show ?thesis
    unfolding resolveVerifiedActorUri_def None option.case
    by (intro run_bind) (rule run_mono [OF run_verifySignature [OF assms(2,3)]], auto)
qed

section \<open>Whether it is let in\<close>

text \<open>A step that may stop: it has acknowledged, or something more is known.\<close>

definition goes_on :: "(inbound_event list \<Rightarrow> bool) \<Rightarrow> bool \<Rightarrow> inbound_event list \<Rightarrow> bool" where
  "goes_on K stopped es \<longleftrightarrow> (if stopped then was_acked es else K es)"

lemma run_unless_stopped:
  assumes "runs P m (\<lambda>b. at v (goes_on K b)) (\<lambda>_. at v T) s v"
    and "\<And>t. K t \<Longrightarrow> runs P n (\<lambda>_. at v Q) (\<lambda>_. at v T) t v" and "\<And>t. was_acked t \<Longrightarrow> Q t"
  shows "runs P (unless_stopped m n) (\<lambda>_. at v Q) (\<lambda>_. at v T) s v"
  unfolding unless_stopped_def
  by (rule run_bind, rule run_mono [OF assms(1)]) (auto simp: goes_on_def intro!: run_return assms(2,3))

lemma run_stopped:
  assumes "inbound_accounted S C e s"
  shows "runs (inbound_protocol S C e) (n_stop S m) (\<lambda>b. at v (goes_on K b)) (\<lambda>_. at v (troubled S e)) s v"
  by (rule run_mono [OF run_stop [OF assms]]) (auto simp: goes_on_def)

lemma run_passed: "K s \<Longrightarrow> runs P (io_return False) (\<lambda>b. at v (goes_on K b)) E s v"
  by (rule run_return) (simp add: goes_on_def)

lemma run_sync:
  assumes "verified_as S e s act actor" and "idle s"
  shows "runs (inbound_protocol S C e) (n_sync S C e actor) (\<lambda>_. at v (\<lambda>t. verified_as S e t act actor \<and> idle t)) E s v"
proof -
  let ?K = "\<lambda>t. verified_as S e t act actor \<and> idle t"
  have c: "calm ?K" by (auto simp: calm_def grows)
  have call: "runs (inbound_protocol S C e) (ncalled (\<lambda>r. NvSync h actor l (reply r \<noteq> None)) m) (\<lambda>_. at v ?K) (\<lambda>_. at v ?K) t v"
    if "?K t" for h l m t
    by (rule run_neutral) (use that in \<open>auto intro: inbound_allows.sync simp: grows\<close>)
  have "runs (inbound_protocol S C e) (nquiet (io_bind (fetchActorDocument S C actor) (\<lambda>doc.
                 if (case doc of JObj _ \<Rightarrow> True | JArr _ \<Rightarrow> True | _ \<Rightarrow> False)
                 then ncalled (\<lambda>r. NvSync h actor l (reply r \<noteq> None)) (sync h actor doc l)
                 else io_return ()))) (\<lambda>_. at v ?K) E s v" for h l sync
  proof (rule run_nquiet, rule run_bind, rule run_mono [OF run_fetchActorDocument [OF c]], goal_cases)
    case (2 doc t v')
    then have t: "?K t" "v' = v" by (simp_all add: got_def)
    show ?case unfolding t(2) by (rule run_if, rule call [OF t(1)], rule run_return) (simp add: t)
  qed (simp_all add: assms got_def)
  then show ?thesis
    unfolding n_sync_def by (auto intro!: run_return simp: assms split: option.split)
qed

lemma run_blocked:
  assumes "verified_as S e s act actor" and "idle s"
  shows "runs (inbound_protocol S C e) (n_blocked S m actor)
    (\<lambda>b. at v (goes_on (\<lambda>t. verified_as S e t act actor \<and> unblocked S t actor \<and> idle t) b)) (\<lambda>_. at v (troubled S e)) s v"
proof (cases "extractDomain (ns_parse S) actor")
  case None
  then show ?thesis unfolding n_blocked_def by (auto intro!: run_passed simp: unblocked_def assms)
next
  case (Some d)
  let ?K = "\<lambda>t. verified_as S e t act actor \<and> unblocked S t actor \<and> idle t"
  have "runs (inbound_protocol S C e) (if b then n_stop S m else io_return False) (\<lambda>b. at v (goes_on ?K b)) (\<lambda>_. at v (troubled S e))
      (NvBlocked d (Some b) # s) v" for b
    by (cases b) (use Some assms in \<open>auto intro!: run_stopped run_passed inbound_accounted.blocked [where act = act and actor = actor] simp: unblocked_def grows\<close>)
  then show ?thesis
    unfolding n_blocked_def Some option.case
    by (intro run_bind run_ncalled conjI) (use Some assms in \<open>auto intro: inbound_allows.block simp: trouble\<close>)
qed

lemma run_policy:
  assumes "verified_as S e s act actor" and "unblocked S s actor" and "idle s"
  shows "runs (inbound_protocol S C e) (n_policy S m e act actor)
    (\<lambda>b. at v (goes_on (\<lambda>t. verified_as S e t act actor \<and> unblocked S t actor \<and> permitted S e t act actor \<and> idle t) b)) (\<lambda>_. at v (troubled S e)) s v"
proof -
  let ?B = "\<lambda>t. verified_as S e t act actor \<and> unblocked S t actor \<and> idle t"
  let ?K = "\<lambda>t. verified_as S e t act actor \<and> unblocked S t actor \<and> permitted S e t act actor \<and> idle t"
  have id: "runs (inbound_protocol S C e) (n_webid S actor) (\<lambda>_. at v ?B) (\<lambda>_. at v (troubled S e)) s v"
    unfolding n_webid_def
    by (auto intro!: run_return run_catch run_ncalled inbound_allows.webid [OF assms(1,2)] simp: assms grows split: option.split)
  have dec: "runs (inbound_protocol S C e) (if discards a then n_stop S m else io_return False) (\<lambda>b. at v (goes_on ?K b)) (\<lambda>_. at v (troubled S e))
      (NvPolicy (subject_of S e act actor w) (Some a) # t) v" if "?B t" for a w t
  proof (rule run_if)
    assume "discards a"
    with that show "runs (inbound_protocol S C e) (n_stop S m) (\<lambda>b. at v (goes_on ?K b)) (\<lambda>_. at v (troubled S e))
        (NvPolicy (subject_of S e act actor w) (Some a) # t) v"
      by (intro run_stopped inbound_accounted.policy [where act = act and actor = actor and webId = w and a = a]) (auto simp: grows)
  next
    assume "\<not> discards a"
    with that show "runs (inbound_protocol S C e) (io_return False) (\<lambda>b. at v (goes_on ?K b)) (\<lambda>_. at v (troubled S e))
        (NvPolicy (subject_of S e act actor w) (Some a) # t) v"
      by (intro run_passed) (auto simp: grows permitted_def)
  qed
  show ?thesis
    unfolding n_policy_def Let_def
  proof (rule run_bind, rule run_mono [OF id], goal_cases)
    case (1 w t v')
    then have t: "?B t" "v' = v" by simp_all
    have a: "inbound_allows S C e t (NvPolicy (subject_of S e act actor w) r)" for r
      using t(1) by (intro inbound_allows.permit) simp_all
    show ?case unfolding t(2) by (rule run_bind, rule run_ncalled, intro conjI, rule a) (simp_all only: inbound_reply_simps dec [OF t(1)] a, simp add: trouble)
  qed simp_all
qed

lemma run_spam:
  assumes "verified_as S e s act actor" and "unblocked S s actor" and "permitted S e s act actor" and "idle s"
  shows "runs (inbound_protocol S C e) (n_spam S C m e act actor)
    (\<lambda>b. at v (goes_on (\<lambda>t. let_in S e t act actor \<and> idle t) b)) (\<lambda>_. at v (troubled S e)) s v"
proof (cases "ns_spam S")
  case None
  then show ?thesis
    unfolding n_spam_def by (auto intro!: run_passed simp: let_in_def screened_def assms)
next
  case (Some f)
  let ?K = "\<lambda>t. verified_as S e t act actor \<and> unblocked S t actor \<and> permitted S e t act actor \<and> idle t"
  let ?L = "\<lambda>t. let_in S e t act actor \<and> idle t"
  have c: "calm ?K" by (auto simp: calm_def grows)
  have dec: "runs (inbound_protocol S C e) (if discards a then n_stop S m else io_return False) (\<lambda>b. at v (goes_on ?L b)) (\<lambda>_. at v (troubled S e))
      (NvSpam (subject_of S e act actor None) doc act (Some a) # t) v" if "?K t" for a doc t
  proof (rule run_if)
    assume "discards a"
    with that show "runs (inbound_protocol S C e) (n_stop S m) (\<lambda>b. at v (goes_on ?L b)) (\<lambda>_. at v (troubled S e))
        (NvSpam (subject_of S e act actor None) doc act (Some a) # t) v"
      by (intro run_stopped inbound_accounted.spam [where act = act and actor = actor and doc = doc and a = a]) (auto simp: grows)
  next
    assume "\<not> discards a"
    with that show "runs (inbound_protocol S C e) (io_return False) (\<lambda>b. at v (goes_on ?L b)) (\<lambda>_. at v (troubled S e))
        (NvSpam (subject_of S e act actor None) doc act (Some a) # t) v"
      by (intro run_passed) (auto simp: grows let_in_def screened_def)
  qed
  show ?thesis
    unfolding n_spam_def Some option.case Let_def
  proof (rule run_bind, rule run_mono [OF run_document_or_null [OF c]], goal_cases)
    case (2 doc t v')
    then have t: "?K t" "v' = v" by simp_all
    have a: "inbound_allows S C e t (NvSpam (subject_of S e act actor None) doc act r)" for r
      using t(1) by (intro inbound_allows.screen) simp_all
    show ?case unfolding t(2) by (rule run_bind, rule run_ncalled, intro conjI, rule a) (simp_all only: inbound_reply_simps dec [OF t(1)] a, simp add: trouble)
  qed (simp_all add: assms)
qed

lemma run_duplicate:
  assumes "let_in S e s act actor" and "\<not> isFlagActivity act" and "idle s"
  shows "runs (inbound_protocol S C e) (n_duplicate S m act)
    (\<lambda>b. at v (goes_on (\<lambda>t. let_in S e t act actor \<and> claimed_new S t act \<and> idle t) b)) (\<lambda>_. at v (troubled S e)) s v"
proof (cases "\<exists>i. json_get ''id'' act = Some i \<and> json_truthy i")
  case False
  then have "claimed_new S s act" by (auto simp: claimed_new_def)
  with False assms show ?thesis
    unfolding n_duplicate_def by (auto intro!: run_passed split: option.split)
next
  case True
  then obtain i where i: "json_get ''id'' act = Some i" "json_truthy i" by blast
  let ?P = "inbound_protocol S C e" and ?L = "\<lambda>t. let_in S e t act actor \<and> idle t"
  let ?K = "\<lambda>t. let_in S e t act actor \<and> claimed_new S t act \<and> idle t"
  have see: "runs ?P (io_bind (nseen (js_String i)) (\<lambda>seen. if seen then n_stop S m else io_return False))
      (\<lambda>b. at v (goes_on ?K b)) (\<lambda>_. at v (troubled S e)) t v" if "?K t" for t
  proof (rule run_bind, rule run_nseen, goal_cases)
    case (1 b)
    show ?case using that assms(2) i by (intro inbound_allows.see [where act = act and actor = actor]) auto
  next
    case (2 b)
    show ?case
      by (cases b) (use that i in \<open>auto intro!: run_stopped run_passed inbound_accounted.seen [where act = act and actor = actor and i = i] simp: grows\<close>)
  next
    case 3
    show ?case by (simp, rule run_passed) (use that in simp)
  qed
  have dup: "runs ?P (n_stop S m) (\<lambda>b. at v (goes_on ?K b)) (\<lambda>_. at v (troubled S e)) t v"
    if "let_in S e t act actor" "NvClaim (js_String i) (Some False) \<in> set t" for t
    by (rule run_stopped, rule inbound_accounted.duplicate [OF that(1) i(1) that(2)])
  have "runs ?P (case ns_claim S of None \<Rightarrow> io_return True | Some f \<Rightarrow> ncalled (\<lambda>r. NvClaim (js_String i) (reply r)) (f (js_String i)))
      (\<lambda>b. at v (\<lambda>t. ?L t \<and> (if b then claimed_new S t act else NvClaim (js_String i) (Some False) \<in> set t))) (\<lambda>_. at v (troubled S e)) s v"
  proof (cases "ns_claim S")
    case None
    then show ?thesis by (auto intro!: run_return simp: claimed_new_def assms)
  next
    case (Some f)
    have a: "inbound_allows S C e s (NvClaim (js_String i) r)" for r
      by (rule inbound_allows.claim [OF assms(1,2) i])
    have n: "claimed_new S (NvClaim (js_String i) (Some True) # s) act" using i by (simp add: claimed_new_def)
    show ?thesis unfolding Some option.case
      by (rule run_ncalled) (use assms n in \<open>auto simp: a trouble grows\<close>)
  qed
  then have "runs ?P (io_bind (case ns_claim S of None \<Rightarrow> io_return True | Some f \<Rightarrow> ncalled (\<lambda>r. NvClaim (js_String i) (reply r)) (f (js_String i)))
      (\<lambda>isNew. if \<not> isNew then n_stop S m
         else io_bind (nseen (js_String i)) (\<lambda>seen. if seen then n_stop S m else io_return False)))
      (\<lambda>b. at v (goes_on ?K b)) (\<lambda>_. at v (troubled S e)) s v"
  proof (intro run_bind, elim run_mono, goal_cases)
    case (1 a t v')
    then show ?case by (cases a) (auto intro: see dup)
  qed auto
  then show ?thesis unfolding n_duplicate_def i(1) option.case Let_def using i(2) by simp
qed

lemma run_announced:
  assumes "let_in S e s act actor" and "claimed_new S s act" and "idle s"
  shows "runs (inbound_protocol S C e) (n_announced S m act actor)
    (\<lambda>b. at v (goes_on (\<lambda>t. let_in S e t act actor \<and> claimed_new S t act \<and> announced_new S t act actor \<and> idle t) b)) (\<lambda>_. at v (troubled S e)) s v"
proof -
  let ?K = "\<lambda>t. let_in S e t act actor \<and> claimed_new S t act \<and> announced_new S t act actor \<and> idle t"
  have skip: "runs (inbound_protocol S C e) (io_return False) (\<lambda>b. at v (goes_on ?K b)) (\<lambda>_. at v (troubled S e)) s v"
    if "announced_new S s act actor" using that assms by (auto intro!: run_passed)
  have dec: "runs (inbound_protocol S C e) (if \<not> b then n_stop S m else io_return False) (\<lambda>b. at v (goes_on ?K b)) (\<lambda>_. at v (troubled S e))
      (NvAnnounce actor i (Some b) # s) v" if "extractAnnounceObjectId act = Some i" for b i
  proof (cases b)
    case True
    have "announced_new S (NvAnnounce actor i (Some True) # s) act actor" using that by (simp add: announced_new_def)
    with True assms show ?thesis by (auto intro!: run_passed simp: grows)
  next
    case False
    with that assms(1) show ?thesis
      by (auto intro!: run_stopped inbound_accounted.boosted [where act = act and actor = actor and i = i] simp: grows)
  qed
  show ?thesis
  proof (cases "if normalizeActivityType (json_get ''type'' act) = ''Announce'' then ns_announce S else None")
    case None
    then have "announced_new S s act actor" by (auto simp: announced_new_def split: if_splits)
    with None show ?thesis unfolding n_announced_def by (simp only: option.case skip)
  next
    case (Some f)
    show ?thesis
    proof (cases "extractAnnounceObjectId act")
      case None
      then have "announced_new S s act actor" by (simp add: announced_new_def)
      with None Some show ?thesis unfolding n_announced_def by (simp only: option.case skip)
    next
      case (Some i)
      have a: "inbound_allows S C e s (NvAnnounce actor i r)" for r by (rule inbound_allows.boost [OF assms(1,2) Some])
      show ?thesis
        unfolding n_announced_def \<open>(if _ then _ else _) = Some f\<close> Some option.case
        by (rule run_bind, rule run_ncalled, intro conjI, rule a) (simp_all only: inbound_reply_simps dec [OF Some] a, simp add: trouble)
    qed
  qed
qed

end
