(* ===== verification/Inbound_Follows.thy ===== *)
theory Inbound_Follows
  imports Inbound_Properties
begin

text \<open>
  The rest of the way of an envelope: to the provider, to the moderators, to the streams and to ActivityPods; and the whole of
  \<open>processEnvelope\<close>.
\<close>

section \<open>Publishing\<close>

text \<open>What a fault-isolated call may rely on, and what it keeps.\<close>

lemma run_isolated:
  assumes "\<And>r. inbound_allows S C e s (ev r)" and "\<And>ev. K (ev # s)"
  shows "runs (inbound_protocol S C e) (nquiet (ncalled ev m)) (\<lambda>_. at v K) E s v"
  by (rule run_nquiet, rule run_neutral) (use assms in simp_all)

definition growing :: "(inbound_event list \<Rightarrow> bool) \<Rightarrow> bool" where
  "growing K \<longleftrightarrow> (\<forall>ev es. K es \<longrightarrow> K (ev # es))"

lemma growingD: "growing K \<Longrightarrow> K es \<Longrightarrow> K (ev # es)"
  by (simp add: growing_def)

lemma growing_calm: "growing K \<Longrightarrow> calm K"
  by (simp add: growing_def calm_def)

lemma run_on:
  assumes "runs P m (\<lambda>_. at v K) E s v" and "\<And>t. K t \<Longrightarrow> runs P n (\<lambda>_. at v Q) E t v"
  shows "runs P (io_then m n) (\<lambda>_. at v Q) E s v"
  by (rule run_then, rule run_mono [OF assms(1)]) (auto intro!: assms(2))

text \<open>The activity has been delivered to ActivityPods; it stays here and is acknowledged.\<close>

definition pods_have :: "'s inbound_services \<Rightarrow> inbound_config \<Rightarrow> InboundEnvelope \<Rightarrow> json \<Rightarrow> string \<Rightarrow> inbound_event list \<Rightarrow> bool" where
  "pods_have S C e act actor es \<longleftrightarrow> inbound_fresh S C e es act actor \<and> delivered_to_pods es act actor"

definition kept_acked :: "'s inbound_services \<Rightarrow> inbound_config \<Rightarrow> InboundEnvelope \<Rightarrow> json \<Rightarrow> string \<Rightarrow> inbound_event list \<Rightarrow> bool" where
  "kept_acked S C e act actor es \<longleftrightarrow> inbound_fresh S C e es act actor \<and> was_acked es"

lemma pods_have_grows [grows]: "pods_have S C e act actor es \<Longrightarrow> pods_have S C e act actor (ev # es)"
  by (simp add: pods_have_def grows)

lemma kept_acked_grows [grows]: "kept_acked S C e act actor es \<Longrightarrow> kept_acked S C e act actor (ev # es)"
  by (simp add: kept_acked_def grows)

lemma run_publish_stream2:
  assumes "K s" and "\<And>ev. K s \<Longrightarrow> K (ev # s)" and "inbound_fresh S C e s act actor"
    and "if b then delivered_to_pods s act actor else \<not> for_activity_pods S C e actor \<and> was_acked s"
  shows "runs (inbound_protocol S C e) (publish_stream2 S C e act actor mta b) (\<lambda>_. at v K) E s v"
  unfolding publish_stream2_def Let_def
proof (rule run_if)
  assume p: "isPublicActivity act"
  show "runs (inbound_protocol S C e) (nquiet (ncalled (\<lambda>r. NvStream2 (publication_of e act actor mta (Some
      \<lparr>dm_attempted = b, dm_recipients = fst (recipient_counts S C act), dm_local = snd (recipient_counts S C act)\<rparr>)) (reply r \<noteq> None))
      (ns_stream2 S (publication_of e act actor mta (Some
      \<lparr>dm_attempted = b, dm_recipients = fst (recipient_counts S C act), dm_local = snd (recipient_counts S C act)\<rparr>))))) (\<lambda>_. at v K) E s v"
    by (rule run_isolated, rule inbound_allows.stream2 [OF assms(3) p]) (use assms in \<open>auto simp: was_acked_def\<close>)
qed (rule run_return, simp add: assms)

lemma run_publish_stream1:
  assumes "kept_acked S C e act actor s" and "isLocalActor S C actor"
  shows "runs (inbound_protocol S C e) (publish_stream1 S e act actor mta) (\<lambda>_. at v (kept_acked S C e act actor)) E s v"
  unfolding publish_stream1_def Let_def
proof (rule run_if)
  assume p: "isPublicActivity act"
  show "runs (inbound_protocol S C e) (nquiet (ncalled (\<lambda>r. NvStream1 (publication_of e act actor mta None) (reply r \<noteq> None))
      (ns_stream1 S (publication_of e act actor mta None)))) (\<lambda>_. at v (kept_acked S C e act actor)) E s v"
    by (rule run_isolated, rule inbound_allows.stream1) (use assms p in \<open>auto simp: kept_acked_def was_acked_def grows\<close>)
qed (rule run_return, simp add: assms)

lemma run_project:
  assumes "K s" and "\<And>ev. K s \<Longrightarrow> K (ev # s)" and "inbound_fresh S C e s act actor"
    and "delivered_to_pods s act actor \<or> isLocalActor S C actor \<and> was_acked s"
  shows "runs (inbound_protocol S C e) (invokeAtProjection S act actor) (\<lambda>_. at v K) E s v"
  unfolding invokeAtProjection_def
  by (cases "ns_project S") (use assms in \<open>auto intro!: run_return run_isolated inbound_allows.project simp: was_acked_def\<close>)

lemma run_canonical:
  assumes "K s" and "\<And>ev. K s \<Longrightarrow> K (ev # s)" and "inbound_fresh S C e s act actor"
    and "delivered_to_pods s act actor \<or> \<not> for_activity_pods S C e actor \<and> was_acked s"
  shows "runs (inbound_protocol S C e) (invokeCanonicalPublisher S (canonical_of act actor b k)) (\<lambda>_. at v K) E s v"
  unfolding invokeCanonicalPublisher_def
  by (cases "ns_canonical S") (use assms in \<open>auto intro!: run_return run_isolated inbound_allows.canonical simp: was_acked_def\<close>)

lemma run_tombstone:
  assumes "pods_have S C e act actor s" and "isPublicActivity act" and "removes_content act"
  shows "runs (inbound_protocol S C e) (publish_tombstone S act actor) (\<lambda>_. at v (pods_have S C e act actor)) E s v"
  unfolding publish_tombstone_def Let_def
proof (rule run_bind, rule run_nclock)
  fix t
  have p: "pods_have S C e act actor (NvTime t # s)" using assms(1) by (rule grows)
  show "runs (inbound_protocol S C e) (nquiet (ncalled (\<lambda>r. NvTombstone \<lparr>tb_activityId = i, tb_objectId = ob, tb_actorUri = actor, tb_deletedAt = t\<rparr> (reply r \<noteq> None))
      (ns_tombstone S \<lparr>tb_activityId = i, tb_objectId = ob, tb_actorUri = actor, tb_deletedAt = t\<rparr>))) (\<lambda>_. at v (pods_have S C e act actor)) E (NvTime t # s) v" for i ob
    by (rule run_isolated, rule inbound_allows.tombstone) (use p assms(2,3) in \<open>auto simp: pods_have_def grows\<close>)
qed

lemma run_background:
  assumes "pods_have S C e act actor s"
  shows "runs (inbound_protocol S C e) (n_background S act) (\<lambda>_. at v (pods_have S C e act actor)) E s v"
  unfolding n_background_def
proof (rule run_if)
  assume p: "isPublicActivity act \<and> extractNoteObject act \<noteq> None"
  have b: "runs (inbound_protocol S C e) (case ns_backfill S of None \<Rightarrow> io_return ()
      | Some f \<Rightarrow> nquiet (ncalled (\<lambda>r. NvBackfill act (reply r \<noteq> None)) (f act))) (\<lambda>_. at v (pods_have S C e act actor)) E s v"
    using assms p by (auto intro!: run_return run_isolated inbound_allows.backfill [where actor = actor] simp: pods_have_def grows split: option.split)
  have r: "runs (inbound_protocol S C e) (case ns_reconcile S of None \<Rightarrow> io_return ()
      | Some f \<Rightarrow> nquiet (ncalled (\<lambda>r. NvReconcile act (reply r \<noteq> None)) (f act))) (\<lambda>_. at v (pods_have S C e act actor)) E t v"
    if "pods_have S C e act actor t" for t
    using that p by (auto intro!: run_return run_isolated inbound_allows.reconcile [where actor = actor] simp: pods_have_def grows split: option.split)
  show "runs (inbound_protocol S C e) (io_then (case ns_backfill S of None \<Rightarrow> io_return ()
           | Some f \<Rightarrow> nquiet (ncalled (\<lambda>r. NvBackfill act (reply r \<noteq> None)) (f act)))
          (case ns_reconcile S of None \<Rightarrow> io_return ()
           | Some f \<Rightarrow> nquiet (ncalled (\<lambda>r. NvReconcile act (reply r \<noteq> None)) (f act)))) (\<lambda>_. at v (pods_have S C e act actor)) E s v"
    by (rule run_on [OF b r])
qed (rule run_return, simp add: assms)

lemma run_adapter:
  assumes "pods_have S C e act actor s" and "was_acked s"
  shows "runs (inbound_protocol S C e) (inbound_callAdapter S C act actor) (\<lambda>_. at v was_acked) E s v"
  unfolding inbound_callAdapter_def
  using assms
  by (auto intro!: run_return run_isolated inbound_allows.adapter [where act = act] simp: pods_have_def was_acked_def grows split: option.split)

section \<open>Forwarding\<close>

lemma run_n_forward:
  assumes f: "inbound_fresh S C e s act actor" and here: "for_activity_pods S C e actor" and i: "idle s"
  shows "runs (inbound_protocol S C e) (n_forward S C m e act actor)
    (\<lambda>b. at v (\<lambda>t. if b then pods_have S C e act actor t else was_acked t)) (\<lambda>_. at v (troubled S e)) s v"
proof (cases "ns_bridge S")
  case (Some bridge)
  have a: "inbound_allows S C e s (NvBridge act actor r)" for r
    by (rule inbound_allows.bridge [OF f here]) (use i in \<open>simp add: idle_def\<close>)
  have no: "runs (inbound_protocol S C e) (io_then (n_dismiss S m e reason) (io_return False))
      (\<lambda>b. at v (\<lambda>t. if b then pods_have S C e act actor t else was_acked t)) (\<lambda>_. at v (troubled S e)) (NvBridge act actor False # s) v" for reason
  proof -
    have "inbound_accounted S C e (NvBridge act actor False # s)"
      by (rule inbound_accounted.undelivered [where act = act and actor = actor]) (use f in \<open>auto simp: grows\<close>)
    then show ?thesis by (intro run_then) (rule run_mono [OF run_dismiss], auto intro!: run_return)
  qed
  have yes: "pods_have S C e act actor (NvBridge act actor True # s)"
    using f by (simp add: pods_have_def delivered_to_pods_def grows)
  show ?thesis
    unfolding n_forward_def Some option.case
    by (rule run_catch, rule run_then, rule run_ncalled) (auto intro!: run_return simp: a yes no)
next
  case None
  let ?q = "forward_request_for C e act actor"
  have a: "inbound_allows S C e s (NvPost ?q r)" for r
    by (rule inbound_allows.post [OF f here]) (use i in \<open>simp add: idle_def\<close>)
  let ?R = "\<lambda>r t. inbound_fresh S C e t act actor \<and>
      (case r of Forwarded \<Rightarrow> delivered_to_pods t act actor | Forward_failed p err \<Rightarrow> forward_failed t p)"
  have fr: "inbound_fresh S C e (NvPost ?q r # s) act actor" for r using f by (rule grows)
  have ans: "runs (inbound_protocol S C e) (nsum (forward_answer r)) (\<lambda>r. at v (?R r)) (\<lambda>_. at v (\<lambda>t. inbound_fresh S C e t act actor \<and> forward_failed t False))
      (NvPost ?q (Some r) # s) v" for r
  proof (rule run_nsum)
    fix x assume "forward_answer r = Inr x"
    moreover have "NvPost ?q (Some r) \<in> set (NvPost ?q (Some r) # s)" by simp
    ultimately show "at v (?R x) (NvPost ?q (Some r) # s) v"
      using fr unfolding at_simp delivered_to_pods_def forward_failed_def by (cases x) (simp only: forward_result.case, blast)+
  next
    fix err assume "forward_answer r = Inl err"
    then show "at v (\<lambda>t. inbound_fresh S C e t act actor \<and> forward_failed t False) (NvPost ?q (Some r) # s) v"
      using fr unfolding at_simp forward_failed_def by (simp only: list.set insert_iff) blast
  qed
  have lost: "forward_failed (NvPost ?q None # s) False" by (auto simp: forward_failed_def)
  have fwd: "runs (inbound_protocol S C e) (forwardToActivityPods S C e act actor) (\<lambda>r. at v (?R r)) (\<lambda>_. at v (troubled S e)) s v"
    unfolding forwardToActivityPods_def Let_def
  proof (rule run_catch, rule run_mono [where E = "\<lambda>_. at v (\<lambda>t. inbound_fresh S C e t act actor \<and> forward_failed t False)" and Q = "\<lambda>r. at v (?R r)"])
    show "runs (inbound_protocol S C e) (io_bind (ncalled (\<lambda>r. NvPost ?q (reply r)) (ns_post S ?q)) (\<lambda>r. nsum (forward_answer r)))
        (\<lambda>r. at v (?R r)) (\<lambda>_. at v (\<lambda>t. inbound_fresh S C e t act actor \<and> forward_failed t False)) s v"
      by (rule run_bind, rule run_ncalled, intro conjI, simp add: a, simp add: ans, simp add: a fr lost)
  qed (auto intro!: run_return)
  have acc: "inbound_accounted S C e t" if "inbound_fresh S C e t act actor" "forward_failed t p" for t p
    by (rule inbound_accounted.undelivered [where act = act and actor = actor]) (use that in auto)
  have retry: "runs (inbound_protocol S C e) (io_then
        (if p \<or> js_le (Num MAX_INBOUND_ATTEMPTS) (ie_attempt e)
         then ncalled (\<lambda>r. NvDlq e reason (reply r \<noteq> None)) (ns_dlq S e reason)
         else io_bind (nclock S) (\<lambda>now. n_enqueue S (retry_envelope e now))) (io_return False))
      (\<lambda>b. at v (\<lambda>t. if b then pods_have S C e act actor t else was_acked t)) (\<lambda>_. at v (troubled S e)) (NvAck True # t) v"
    if "inbound_fresh S C e t act actor" "forward_failed t p" for t p reason
  proof (rule run_then, rule run_if)
    show "runs (inbound_protocol S C e) (ncalled (\<lambda>r. NvDlq e reason (reply r \<noteq> None)) (ns_dlq S e reason))
        (\<lambda>_. runs (inbound_protocol S C e) (io_return False) (\<lambda>b. at v (\<lambda>t. if b then pods_have S C e act actor t else was_acked t)) (\<lambda>_. at v (troubled S e)))
        (\<lambda>_. at v (troubled S e)) (NvAck True # t) v"
      by (rule run_ncalled) (auto intro!: run_return inbound_allows.dead_letter grows acc [OF that] simp: was_acked_def trouble)
  next
    assume "\<not> (p \<or> js_le (Num MAX_INBOUND_ATTEMPTS) (ie_attempt e))"
    then have n: "\<not> js_le (Num MAX_INBOUND_ATTEMPTS) (ie_attempt e)" and ff: "forward_failed t False" using that(2) by auto
    have en: "inbound_allows S C e (NvTime now # NvAck True # t) (NvEnqueue (retry_envelope e now) r)" for now r
      by (rule inbound_allows.retry [where act = act and actor = actor]) (use n ff that(1) in \<open>auto intro: grows\<close>)
    show "runs (inbound_protocol S C e) (io_bind (nclock S) (\<lambda>now. n_enqueue S (retry_envelope e now)))
        (\<lambda>_. runs (inbound_protocol S C e) (io_return False) (\<lambda>b. at v (\<lambda>t. if b then pods_have S C e act actor t else was_acked t)) (\<lambda>_. at v (troubled S e)))
        (\<lambda>_. at v (troubled S e)) (NvAck True # t) v"
      unfolding n_enqueue_def
      by (rule run_bind, rule run_nclock, rule run_ncalled) (auto intro!: run_return en simp: was_acked_def trouble)
  qed
  have settle: "runs (inbound_protocol S C e) (io_then (n_ack S m) (io_then
        (if p \<or> js_le (Num MAX_INBOUND_ATTEMPTS) (ie_attempt e)
         then ncalled (\<lambda>r. NvDlq e reason (reply r \<noteq> None)) (ns_dlq S e reason)
         else io_bind (nclock S) (\<lambda>now. n_enqueue S (retry_envelope e now))) (io_return False)))
      (\<lambda>b. at v (\<lambda>t. if b then pods_have S C e act actor t else was_acked t)) (\<lambda>_. at v (troubled S e)) t v"
    if "inbound_fresh S C e t act actor" "forward_failed t p" for t p reason
  proof (rule run_then, rule run_mono [OF run_inbound_ack_trouble [OF acc [OF that], where K = "\<lambda>u. u = NvAck True # t"]], goal_cases)
    case (2 a u v')
    then have u: "u = NvAck True # t" "v' = v" by simp_all
    show ?case unfolding u by (rule retry [OF that])
  qed simp_all
  show ?thesis
    unfolding n_forward_def None option.case
  proof (rule run_bind, rule run_mono [OF fwd], goal_cases)
    case (1 r t v')
    then have t: "?R r t" "v' = v" by simp_all
    show ?case
    proof (cases r)
      case Forwarded
      with t show ?thesis by (auto intro!: run_return simp: pods_have_def)
    next
      case (Forward_failed p err)
      with t have "inbound_fresh S C e t act actor" "forward_failed t p" by simp_all
      then show ?thesis unfolding Forward_failed t(2) forward_result.case Let_def by (rule settle)
    qed
  qed
qed

section \<open>The routes\<close>

lemma run_inbound_ack_known:
  assumes "inbound_accounted S C e s" and "K s" and "\<And>ev. K s \<Longrightarrow> K (ev # s)"
  shows "runs (inbound_protocol S C e) (n_ack S m) (\<lambda>_. at v (\<lambda>t. K t \<and> was_acked t)) (\<lambda>_. at v (troubled S e)) s v"
  by (rule run_inbound_ack_trouble [OF assms(1)]) (use assms in \<open>simp add: was_acked_def\<close>)

lemma kept_acked_at: "(\<lambda>t. inbound_fresh S C e t act actor \<and> was_acked t) = kept_acked S C e act actor"
  by (auto simp: kept_acked_def)

lemma run_keep:
  assumes "inbound_fresh S C e s act actor" and "\<not> for_activity_pods S C e actor"
  shows "runs (inbound_protocol S C e) (n_ack S m) (\<lambda>_. at v (kept_acked S C e act actor)) (\<lambda>_. at v (troubled S e)) s v"
  using run_inbound_ack_known [where K = "\<lambda>t. inbound_fresh S C e t act actor", OF inbound_accounted.kept_here [OF assms] assms(1)]
  unfolding kept_acked_at by (simp add: grows)

lemma run_route_local:
  assumes "inbound_fresh S C e s act actor" and "isLocalActor S C actor"
  shows "runs (inbound_protocol S C e) (route_local S m e act actor mta) (\<lambda>_. at v was_acked) (\<lambda>_. at v (troubled S e)) s v"
proof -
  have n: "\<not> for_activity_pods S C e actor" using assms(2) by (simp add: for_activity_pods_def)
  show ?thesis
    unfolding route_local_def
    by (rule run_on [OF run_keep [OF assms(1) n]], rule run_on [OF run_publish_stream1 [OF _ assms(2)]], assumption,
        rule run_on [OF run_project [where K = "kept_acked S C e act actor"]])
       (auto intro!: run_mono [OF run_canonical [where K = "kept_acked S C e act actor"]] simp: kept_acked_def grows assms(2) n)
qed

lemma run_route_sidecar_actor:
  assumes "inbound_fresh S C e s act actor" and "isSidecarActor S C actor"
  shows "runs (inbound_protocol S C e) (route_sidecar_actor S C m e act actor mta) (\<lambda>_. at v was_acked) (\<lambda>_. at v (troubled S e)) s v"
proof -
  have n: "\<not> for_activity_pods S C e actor" using assms(2) by (simp add: for_activity_pods_def)
  show ?thesis
    unfolding route_sidecar_actor_def
    by (rule run_on [OF run_keep [OF assms(1) n]], rule run_on [OF run_publish_stream2 [where K = "kept_acked S C e act actor"]])
       (auto intro!: run_mono [OF run_canonical [where K = "kept_acked S C e act actor"]] simp: kept_acked_def grows n)
qed

lemma run_route_sidecar_inbox:
  assumes "inbound_fresh S C e s act actor" and "isSidecarInbox C (ie_path e)"
  shows "runs (inbound_protocol S C e) (route_sidecar_inbox S C m e act actor mta) (\<lambda>_. at v was_acked) (\<lambda>_. at v (troubled S e)) s v"
proof -
  have n: "\<not> for_activity_pods S C e actor" using assms(2) by (simp add: for_activity_pods_def)
  have web: "runs (inbound_protocol S C e) (case nc_apRemoteWebhookUrl C of None \<Rightarrow> io_return ()
          | Some url \<Rightarrow>
              if url = [] \<or> \<not> isPublicActivity act then io_return ()
              else nquiet (ncalled (\<lambda>r. NvWebhook act actor (reply r \<noteq> None))
                     (ns_webhook S url (or_else (nc_apRemoteWebhookSecret C) []) actor act))) (\<lambda>_. at v was_acked) (\<lambda>_. at v (troubled S e)) t v"
    if "kept_acked S C e act actor t" for t
    using that assms(2)
    by (auto intro!: run_return run_isolated inbound_allows.webhook simp: kept_acked_def was_acked_def grows split: option.split)
  show ?thesis
    unfolding route_sidecar_inbox_def
    by (rule run_on [OF run_keep [OF assms(1) n]], rule run_on [OF run_publish_stream2 [where K = "kept_acked S C e act actor"]])
       (auto intro!: web simp: kept_acked_def grows n)
qed

lemma run_route_remote:
  assumes "inbound_fresh S C e s act actor" and "for_activity_pods S C e actor" and "idle s"
  shows "runs (inbound_protocol S C e) (route_remote S C m e act actor mta) (\<lambda>_. at v was_acked) (\<lambda>_. at v (troubled S e)) s v"
proof -
  let ?P = "inbound_protocol S C e" and ?K = "pods_have S C e act actor" and ?T = "\<lambda>_. at v (troubled S e)"
  have g: "?K t \<Longrightarrow> ?K (ev # t)" for ev t by (rule grows)
  have d: "?K t \<Longrightarrow> inbound_fresh S C e t act actor" "?K t \<Longrightarrow> delivered_to_pods t act actor" for t by (simp_all add: pods_have_def)
  have last: "runs ?P (io_then (n_ack S m) (inbound_callAdapter S C act actor)) (\<lambda>_. at v was_acked) ?T t v" if "?K t" for t
    by (rule run_on [OF run_inbound_ack_known [OF inbound_accounted.delivered [OF d [OF that]] that g]]) (auto intro: run_adapter)
  have more: "runs ?P (io_then (publish_stream2 S C e act actor mta True)
       (io_then (if isPublicActivity act \<and> removes_content act then publish_tombstone S act actor else io_return ())
       (io_then (invokeAtProjection S act actor)
       (io_then (invokeCanonicalPublisher S (canonical_of act actor False (canonical_kind act)))
       (io_then (n_background S act)
       (io_then (n_ack S m) (inbound_callAdapter S C act actor))))))) (\<lambda>_. at v was_acked) ?T t v" if "?K t" for t
  proof (rule run_on [OF run_publish_stream2 [where K = ?K]], rule that, erule g, rule d(1) [OF that], simp add: d(2) [OF that])
    fix t assume t: "?K t"
    show "runs ?P (io_then (if isPublicActivity act \<and> removes_content act then publish_tombstone S act actor else io_return ())
       (io_then (invokeAtProjection S act actor)
       (io_then (invokeCanonicalPublisher S (canonical_of act actor False (canonical_kind act)))
       (io_then (n_background S act)
       (io_then (n_ack S m) (inbound_callAdapter S C act actor)))))) (\<lambda>_. at v was_acked) ?T t v"
    proof (rule run_on [where K = ?K])
      show "runs ?P (if isPublicActivity act \<and> removes_content act then publish_tombstone S act actor else io_return ()) (\<lambda>_. at v ?K) ?T t v"
        by (rule run_if) (auto intro!: run_tombstone run_return t)
    next
      fix t assume t: "?K t"
      show "runs ?P (io_then (invokeAtProjection S act actor)
         (io_then (invokeCanonicalPublisher S (canonical_of act actor False (canonical_kind act)))
         (io_then (n_background S act)
         (io_then (n_ack S m) (inbound_callAdapter S C act actor))))) (\<lambda>_. at v was_acked) ?T t v"
      proof (rule run_on [OF run_project [where K = ?K]], rule t, erule g, rule d(1) [OF t], simp add: d(2) [OF t])
        fix t assume t: "?K t"
        show "runs ?P (io_then (invokeCanonicalPublisher S (canonical_of act actor False (canonical_kind act)))
           (io_then (n_background S act) (io_then (n_ack S m) (inbound_callAdapter S C act actor)))) (\<lambda>_. at v was_acked) ?T t v"
          by (rule run_on [OF run_canonical [where K = ?K]], rule t, erule g, rule d(1) [OF t], simp add: d(2) [OF t])
             (rule run_on [OF run_background], assumption, rule last)
      qed
    qed
  qed
  show ?thesis
    unfolding route_remote_def
  proof (rule run_bind, rule run_mono [OF run_n_forward [OF assms]], goal_cases)
    case (1 b t v')
    then have t: "if b then ?K t else was_acked t" "v' = v" by simp_all
    show ?case
    proof (cases b)
      case True
      with t show ?thesis by (simp only: simp_thms if_True if_False) (rule more)
    next
      case False
      with t show ?thesis by (auto intro: run_return)
    qed
  qed
qed

lemma run_route:
  assumes "inbound_fresh S C e s act actor" and "idle s"
  shows "runs (inbound_protocol S C e) (route S C m e act actor) (\<lambda>_. at v was_acked) (\<lambda>_. at v (troubled S e)) s v"
proof -
  let ?P = "inbound_protocol S C e" and ?K = "\<lambda>t. inbound_fresh S C e t act actor \<and> idle t" and ?T = "\<lambda>_. at v (troubled S e)"
  have c: "calm ?K" by (auto simp: calm_def grows)
  have build: "runs ?P (buildPublicSearchEventMeta S C act actor) (\<lambda>_. at v ?K) ?T s v"
    unfolding buildPublicSearchEventMeta_def Let_def
    by (cases "extractSearchableObject act")
       (auto intro!: run_return run_bind run_mono [OF run_document_or_null [OF c]] simp: assms)
  have meta: "runs ?P (if isPublicActivity act then buildPublicSearchEventMeta S C act actor else io_return None) (\<lambda>_. at v ?K) ?T s v"
    by (rule run_if, rule build, rule run_return) (simp add: assms)
  show ?thesis
    unfolding route_def
  proof (rule run_bind, rule run_mono [OF meta], goal_cases)
    case (1 mta t v')
    then have t: "inbound_fresh S C e t act actor" "idle t" "v' = v" by simp_all
    show ?case
      unfolding t(3)
      by (intro run_if run_route_sidecar_actor run_route_local run_route_sidecar_inbox run_route_remote t(1,2))
         (simp_all add: for_activity_pods_def)
  qed simp
qed

section \<open>Processing\<close>

text \<open>Acknowledged, or left for a later claim because the provider could not be told.\<close>

definition settled :: "inbound_event list \<Rightarrow> bool" where
  "settled es \<longleftrightarrow> was_acked es \<or> (\<exists>ev. NvProvider ev (Some False) \<in> set es)"

lemma was_acked_settled: "was_acked es \<Longrightarrow> settled es"
  by (simp add: settled_def)

lemma run_settled: "runs P m (\<lambda>_. at v was_acked) E s v \<Longrightarrow> runs P m (\<lambda>_. at v settled) E s v"
  by (erule run_mono) (auto simp: was_acked_settled)

lemma run_n_fresh:
  assumes "let_in S e s act actor" and "\<not> isFlagActivity act" and "ns_provider S = None \<or> \<not> isProviderDirectedActivity C act (ie_path e)"
    and "idle s"
  shows "runs (inbound_protocol S C e) (n_fresh S C m e act actor) (\<lambda>_. at v settled) (\<lambda>_. at v (troubled S e)) s v"
  unfolding n_fresh_def
  by (rule run_unless_stopped [OF run_duplicate [OF assms(1,2,4)]], rule run_unless_stopped [OF run_announced])
     (auto intro!: run_settled run_route simp: inbound_fresh_def assms was_acked_settled)

lemma run_flag:
  assumes "let_in S e s act actor" and "isFlagActivity act"
  shows "runs (inbound_protocol S C e) (io_then (ncalled (\<lambda>r. NvFlag act actor (reply r \<noteq> None)) m) (n_ack S i))
    (\<lambda>_. at v settled) (\<lambda>_. at v (troubled S e)) s v"
proof (rule run_then, rule run_ncalled, goal_cases)
  case (1 a)
  have "inbound_accounted S C e (NvFlag act actor True # s)"
    by (rule inbound_accounted.report [where act = act and actor = actor]) (use assms in \<open>auto simp: grows\<close>)
  then show ?case
    using assms by (auto intro!: inbound_allows.flag run_settled run_inbound_ack_trouble simp: was_acked_def)
next
  case (2 err err')
  then show ?case using assms by (auto intro!: inbound_allows.flag simp: trouble)
qed

lemma run_accepted:
  assumes "let_in S e s act actor" and "idle s"
  shows "runs (inbound_protocol S C e) (n_accepted S C m e act actor) (\<lambda>_. at v settled) (\<lambda>_. at v (troubled S e)) s v"
  unfolding n_accepted_def
proof (rule run_if)
  assume "isFlagActivity act"
  then show "runs (inbound_protocol S C e) (io_then (ncalled (\<lambda>r. NvFlag act actor (reply r \<noteq> None)) (ns_flag S act e actor)) (n_ack S m))
      (\<lambda>_. at v settled) (\<lambda>_. at v (troubled S e)) s v" by (rule run_flag [OF assms(1)])
next
  assume nf: "\<not> isFlagActivity act"
  let ?P = "inbound_protocol S C e" and ?Q = "\<lambda>_. at v settled" and ?T = "\<lambda>_. at v (troubled S e)"
  let ?go = "\<lambda>accepted. case accepted of Some True \<Rightarrow> n_ack S m | Some False \<Rightarrow> io_return () | None \<Rightarrow> n_fresh S C m e act actor"
  show "runs ?P (io_bind (n_provider S C e act actor) ?go) ?Q ?T s v"
  proof (cases "ns_provider S = None \<or> \<not> isProviderDirectedActivity C act (ie_path e)")
    case True
    then have "n_provider S C e act actor = io_return None" by (auto simp: n_provider_def split: option.split)
    then show ?thesis by (auto intro!: run_bind run_return run_n_fresh assms nf True)
  next
    case False
    then obtain f where f: "ns_provider S = Some f" and d: "isProviderDirectedActivity C act (ie_path e)" by auto
    show ?thesis
    proof (cases "ns_iso S (ie_receivedAt e)")
      case None
      then have "n_provider S C e act actor = io_throw ''Invalid time value''" by (simp add: n_provider_def f d)
      with None show ?thesis by (auto intro!: run_bind run_throw simp: troubled_def)
    next
      case (Some r)
      let ?ev = "provider_event_of act actor (ie_path e) r"
      have a: "inbound_allows S C e s (NvProvider ?ev x)" for x by (rule inbound_allows.provide [OF assms(1) nf d])
      have go: "runs ?P (?go (Some b)) ?Q ?T (NvProvider ?ev (Some b) # s) v" for b
      proof (cases b)
        case True
        have "inbound_accounted S C e (NvProvider ?ev (Some True) # s)"
          by (rule inbound_accounted.provider [where act = act and actor = actor]) (use assms in \<open>auto simp: grows\<close>)
        with True show ?thesis by (auto intro!: run_settled run_inbound_ack_trouble simp: was_acked_def)
      next
        case False
        then show ?thesis by (auto intro!: run_return simp: settled_def)
      qed
      have "n_provider S C e act actor = io_bind (ncalled (\<lambda>r. NvProvider ?ev (reply r)) (f ?ev)) (\<lambda>accepted. io_return (Some accepted))"
        by (simp add: n_provider_def f d Some Let_def)
      then show ?thesis
        by (simp only:) (rule run_bind, rule run_bind, rule run_ncalled, use a go in \<open>auto intro!: run_return simp: trouble\<close>)
    qed
  qed
qed

lemma run_verified:
  assumes "verified_as S e s act actor" and "idle s"
  shows "runs (inbound_protocol S C e) (n_verified S C m e act actor) (\<lambda>_. at v settled) (\<lambda>_. at v (troubled S e)) s v"
  unfolding n_verified_def
proof (rule run_on [OF run_sync [OF assms]])
  fix t assume "verified_as S e t act actor \<and> idle t"
  then have t: "verified_as S e t act actor" "idle t" by simp_all
  show "runs (inbound_protocol S C e) (unless_stopped (n_blocked S m actor) (unless_stopped (n_policy S m e act actor)
      (unless_stopped (n_spam S C m e act actor) (n_accepted S C m e act actor)))) (\<lambda>_. at v settled) (\<lambda>_. at v (troubled S e)) t v"
  proof (rule run_unless_stopped [OF run_blocked [OF t]])
    fix t assume "verified_as S e t act actor \<and> unblocked S t actor \<and> idle t"
    then have t: "verified_as S e t act actor" "unblocked S t actor" "idle t" by simp_all
    show "runs (inbound_protocol S C e) (unless_stopped (n_policy S m e act actor) (unless_stopped (n_spam S C m e act actor)
        (n_accepted S C m e act actor))) (\<lambda>_. at v settled) (\<lambda>_. at v (troubled S e)) t v"
    proof (rule run_unless_stopped [OF run_policy [OF t]])
      fix t assume "verified_as S e t act actor \<and> unblocked S t actor \<and> permitted S e t act actor \<and> idle t"
      then have t: "verified_as S e t act actor" "unblocked S t actor" "permitted S e t act actor" "idle t" by simp_all
      show "runs (inbound_protocol S C e) (unless_stopped (n_spam S C m e act actor) (n_accepted S C m e act actor))
          (\<lambda>_. at v settled) (\<lambda>_. at v (troubled S e)) t v"
        by (rule run_unless_stopped [OF run_spam [OF t]]) (auto intro: run_accepted was_acked_settled)
    qed (rule was_acked_settled)
  qed (rule was_acked_settled)
qed

lemma run_parsed:
  assumes "idle s"
  shows "runs (inbound_protocol S C e) (n_parsed S C m e) (\<lambda>_. at v settled) (\<lambda>_. at v (troubled S e)) s v"
proof (cases "json_parse (ie_body e)")
  case None
  then show ?thesis unfolding n_parsed_def by (auto intro!: run_settled run_dismiss inbound_accounted.unreadable)
next
  case (Some act)
  have c: "calm idle" by (simp add: calm_def)
  have go: "runs (inbound_protocol S C e) (io_bind (resolveVerifiedActorUri S C m e act) (\<lambda>verified.
        case verified of None \<Rightarrow> io_return () | Some actor \<Rightarrow> n_verified S C m e act actor)) (\<lambda>_. at v settled) (\<lambda>_. at v (troubled S e)) s v"
    if "well_formed e act"
    by (rule run_bind, rule run_mono [OF run_resolve [OF that c assms]])
       (auto intro!: run_return run_verified simp: known_as_def was_acked_settled split: option.split)
  show ?thesis
    unfolding n_parsed_def Some option.case
    by (intro run_if)
       (auto intro!: run_throw run_settled run_dismiss go inbound_accounted.incomplete [OF Some] simp: troubled_def Some well_formed_def)
qed

lemma run_inbound_body:
  "runs (inbound_protocol S C e) (n_body S C m e) (\<lambda>_. at v settled) (\<lambda>_. at v (troubled S e)) [] v"
proof -
  let ?P = "inbound_protocol S C e" and ?Q = "\<lambda>_. at v settled" and ?T = "\<lambda>_. at v (troubled S e)"
  have due: "runs ?P (case (case nc_capabilityGate C of None \<Rightarrow> None | Some gate \<Rightarrow> Some (gate ''ap.federation.ingress'')) of
           Some g \<Rightarrow> if \<not> g_allowed g then n_dismiss S m e (gate_reason g) else n_parsed S C m e
         | None \<Rightarrow> n_parsed S C m e) ?Q ?T s v" if "idle s" for s
  proof (cases "gate_shut C")
    case True
    then obtain gate where "nc_capabilityGate C = Some gate" "\<not> g_allowed (gate ''ap.federation.ingress'')"
      by (auto simp: gate_shut_def split: option.splits)
    then show ?thesis by (simp add: run_settled [OF run_dismiss [OF inbound_accounted.shut [OF True]]])
  next
    case False
    then show ?thesis using that by (auto simp: gate_shut_def split: option.splits intro: run_parsed)
  qed
  have early: "runs ?P (io_then (n_enqueue S e) (n_ack S m)) ?Q ?T s v" if "deferred_again e s" for s
    unfolding n_enqueue_def
  proof (rule run_then, rule run_ncalled, goal_cases)
    case (1 a)
    have "inbound_accounted S C e (NvEnqueue e True # s)" by (rule inbound_accounted.put_back) (use that in \<open>auto simp: grows\<close>)
    then show ?case using that by (auto intro!: inbound_allows.again run_settled run_inbound_ack_trouble simp: was_acked_def)
  next
    case (2 err err')
    show ?case using that by (auto intro!: inbound_allows.again simp: trouble)
  qed
  show ?thesis
    unfolding n_body_def n_not_due_def
  proof (rule run_bind, rule run_if, goal_cases)
    case 1
    show ?case by (rule run_return, unfold if_False, rule due) (simp add: idle_def)
  next
    case 2
    show ?case
    proof (rule run_bind, rule run_nclock, rule run_return, rule run_if)
      fix t assume "js_lt (Num t) (ie_notBeforeMs e)"
      then show "runs ?P (io_then (n_enqueue S e) (n_ack S m)) ?Q ?T [NvTime t] v" by (intro early) (simp add: deferred_again_def)
    qed (rule due, simp add: idle_def)
  qed
qed

lemma run_processEnvelope:
  "runs (inbound_protocol S C e) (processEnvelope S C m e) (\<lambda>_. at n settled) (\<lambda>_. at n (\<lambda>s. NvAck False \<in> set s)) [] n"
proof -
  have "runs (inbound_protocol S C e) (io_catch (n_body S C m e) (\<lambda>err. n_ack S m)) (\<lambda>_. at v settled) (\<lambda>_. at v (\<lambda>s. NvAck False \<in> set s)) [] v" for v :: int
  proof (rule run_catch, rule run_mono [OF run_inbound_body], assumption, goal_cases)
    case (1 err s v')
    then have "troubled S e s" "v' = v" by simp_all
    then show ?case by (auto intro!: run_mono [OF run_inbound_ack [where K = settled]] simp: was_acked_settled)
  qed
  note body = this
  show ?thesis
    unfolding processEnvelope_def
    by (intro run_then run_nadd_active run_finally, rule run_mono [OF body]) (auto intro!: run_nadd_active)
qed

section \<open>One run\<close>

definition inbound_run ::
  "'s inbound_services \<Rightarrow> inbound_config \<Rightarrow> string \<Rightarrow> InboundEnvelope \<Rightarrow> 's \<Rightarrow> string list option \<Rightarrow> (string + unit) \<times> 's inbound_world" where
  "inbound_run S C messageId e s ids =
     processEnvelope S C messageId e \<lparr>nw_srv = s, nw_trace = [], nw_active = 0, nw_seen = ids\<rparr>"

definition inbound_trace ::
  "'s inbound_services \<Rightarrow> inbound_config \<Rightarrow> string \<Rightarrow> InboundEnvelope \<Rightarrow> 's \<Rightarrow> string list option \<Rightarrow> inbound_event list" where
  "inbound_trace S C messageId e s ids = nw_trace (snd (inbound_run S C messageId e s ids))"

lemma inbound_run_leads:
  "leads (inbound_protocol S C e) (inbound_trace S C m e x ids) (inbound_trace S C m e x ids) \<and> nw_active (snd (inbound_run S C m e x ids)) = 0 \<and>
     (case fst (inbound_run S C m e x ids) of
        Inr _ \<Rightarrow> settled (inbound_trace S C m e x ids) | Inl _ \<Rightarrow> NvAck False \<in> set (inbound_trace S C m e x ids))"
proof -
  let ?w = "\<lparr>nw_srv = x, nw_trace = [], nw_active = 0, nw_seen = ids\<rparr>"
  obtain r w' where r: "processEnvelope S C m e ?w = (r, w')" by fastforce
  have "\<exists>s. leads (inbound_protocol S C e) (pt_trace (inbound_protocol S C e) w') s \<and>
      (\<forall>a. r = Inr a \<longrightarrow> at 0 settled s (pt_view (inbound_protocol S C e) w')) \<and>
      (\<forall>err. r = Inl err \<longrightarrow> at 0 (\<lambda>s. NvAck False \<in> set s) s (pt_view (inbound_protocol S C e) w'))"
    by (rule runs_result [where m = "processEnvelope S C m e" and w = ?w and v = 0])
       (use r run_processEnvelope [of S C e m 0] in \<open>simp_all del: at_simp\<close>)
  then obtain s where s: "leads (inbound_protocol S C e) (nw_trace w') s" "r = Inr a \<Longrightarrow> at 0 settled s (nw_active w')"
    "r = Inl err \<Longrightarrow> at 0 (\<lambda>s. NvAck False \<in> set s) s (nw_active w')" for a err by auto
  have "s = nw_trace w'" by (rule leads_trace [OF s(1)])
  with s r show ?thesis by (cases r) (auto simp: inbound_trace_def inbound_run_def)
qed

lemma inbound_split:
  assumes "inbound_trace S C m e x ids = later @ ev # earlier"
  shows "inbound_allows S C e earlier ev"
proof -
  have "leads (inbound_protocol S C e) (later @ ev # earlier) (later @ ev # earlier)"
    using inbound_run_leads [of S C e m x ids] assms by simp
  from leads_split [OF this] obtain t t' where "leads (inbound_protocol S C e) earlier t" "inbound_allows S C e t ev" by auto
  with leads_trace show ?thesis by blast
qed

end
