(* ===== verification/Inbound_Guarantees.thy ===== *)
theory Inbound_Guarantees
  imports Inbound_Follows Webhook_Properties
begin

text \<open>
  What following the protocol means for an inbound envelope: what is done with it and on whose word, when it leaves the stream, how often it
  comes back, and when it is lost.
\<close>

section \<open>A sample\<close>

text \<open>An envelope that the runtime has verified; ActivityPods answers with a given status, and the domain check may fail.\<close>

definition inbound_sample_services :: "int \<Rightarrow> bool \<Rightarrow> 's inbound_services" where
  "inbound_sample_services status down =
     \<lparr>ns_now = (\<lambda>s. (1000000, s)), ns_ack = (\<lambda>m. io_return ()), ns_enqueue = (\<lambda>e. io_return ()), ns_dlq = (\<lambda>e r. io_return ()),
      ns_blocked = (\<lambda>d. if down then io_throw ''connection lost'' else io_return False), ns_cached = (\<lambda>u. io_return None),
      ns_cache = (\<lambda>u d t. io_return ()), ns_get = (\<lambda>u. io_throw ''refused''), ns_sync = None, ns_webid = None,
      ns_policy = (\<lambda>i. io_return None), ns_spam = None, ns_flag = (\<lambda>a e b. io_return ()), ns_provider = None,
      ns_claim = Some (\<lambda>i. io_return True), ns_announce = None, ns_stream1 = (\<lambda>p. io_return ()), ns_stream2 = (\<lambda>p. io_return ()),
      ns_tombstone = (\<lambda>t. io_return ()), ns_project = None, ns_canonical = None, ns_webhook = (\<lambda>u s a j. io_return ()), ns_bridge = None,
      ns_post = (\<lambda>q. io_return (status, Some [])), ns_backfill = None, ns_reconcile = None, ns_adapter = None,
      ns_verify = (\<lambda>p t g. Inr True), ns_sha256 = (\<lambda>t. t), ns_iso = (\<lambda>t. Some ''now''), ns_consent = (\<lambda>o' d. JNull),
      ns_indexable = (\<lambda>o' c. False), ns_parse = mini_parse\<rparr>"

definition inbound_sample_config :: inbound_config where
  "inbound_sample_config =
     \<lparr>nc_concurrency = Num 32, nc_activityPodsUrl = ''http://pods'', nc_activityPodsToken = ''t'', nc_requestTimeoutMs = Num 30000,
      nc_userAgent = ''s'', nc_actorCacheTtlMs = None, nc_capabilityGate = None, nc_fedifyRuntimeIntegrationEnabled = False,
      nc_sidecarActorPaths = None, nc_domain = None, nc_providerActorUris = None, nc_providerActorInboxPaths = None,
      nc_apRemoteWebhookUrl = None, nc_apRemoteWebhookSecret = None\<rparr>"

definition inbound_sample_activity :: json where
  "inbound_sample_activity = JObj [(''type'', JStr ''Like''), (''id'', JStr ''i1''), (''actor'', JStr ''https://b.example/u/1'')]"

definition inbound_sample :: InboundEnvelope where
  "inbound_sample = createVerifiedInboundEnvelope ''e1'' 900000 ''/inbox'' (json_stringify inbound_sample_activity) ''127.0.0.1''
     ''https://b.example/u/1'' None None"

lemma inbound_sample_parse: "json_parse (ie_body inbound_sample) = Some inbound_sample_activity"
proof -
  have "json_plain inbound_sample_activity" by (simp add: inbound_sample_activity_def)
  then show ?thesis
    using json_parse_stringify [of inbound_sample_activity]
    by (simp add: inbound_sample_def createVerifiedInboundEnvelope_def createInboundEnvelope_def del: json_stringify.simps)
qed

lemma inbound_sample_simps:
  "ie_notBeforeMs inbound_sample = Num 0" "ie_path inbound_sample = ''/inbox''" "ie_attempt inbound_sample = Num 0"
  "getTrustedVerification inbound_sample = Some ''https://b.example/u/1''"
  "extractActivityActorUri inbound_sample_activity = Some ''https://b.example/u/1''"
  "json_get ''type'' inbound_sample_activity = Some (JStr ''Like'')" "json_get ''id'' inbound_sample_activity = Some (JStr ''i1'')"
  "json_get ''actor'' inbound_sample_activity = Some (JStr ''https://b.example/u/1'')"
  "inbound_sample_activity \<noteq> JNull" "\<not> isFlagActivity inbound_sample_activity" "\<not> isPublicActivity inbound_sample_activity"
  "normalizeActivityType (Some (JStr ''Like'')) = ''Like''"
  by (simp_all add: inbound_sample_def createVerifiedInboundEnvelope_def createInboundEnvelope_def or_else_def getTrustedVerification_def
      extractActivityActorUri_def inbound_sample_activity_def isFlagActivity_def normalizeActivityType_def js_trim_def js_space_def isPublicActivity_def)

lemma inbound_sample_domain: "extractDomain mini_parse ''https://b.example/u/1'' = Some ''b.example''"
  by code_simp

definition inbound_sample_before :: "inbound_event list" where
  "inbound_sample_before =
     [NvClaim ''i1'' (Some True), NvPolicy (subject_of (inbound_sample_services 0 False :: unit inbound_services) inbound_sample inbound_sample_activity
        ''https://b.example/u/1'' None) (Some None), NvBlocked ''b.example'' (Some False)]"

definition inbound_sample_post :: "int \<Rightarrow> inbound_event" where
  "inbound_sample_post status =
     NvPost (forward_request_for inbound_sample_config inbound_sample inbound_sample_activity ''https://b.example/u/1'') (Some (status, Some []))"

lemma inbound_sample_runs:
  "inbound_trace (inbound_sample_services 202 False) inbound_sample_config m inbound_sample x None =
     NvAck True # inbound_sample_post 202 # inbound_sample_before"
  "inbound_trace (inbound_sample_services 503 False) inbound_sample_config m inbound_sample x None =
     [NvEnqueue (retry_envelope inbound_sample 1000000) True, NvTime 1000000, NvAck True, inbound_sample_post 503] @ inbound_sample_before"
  "inbound_trace (inbound_sample_services st True) inbound_sample_config m inbound_sample x None = [NvAck True, NvBlocked ''b.example'' None]"
proof -
  define S where "S st d = (inbound_sample_services st d :: 'a inbound_services)" for st d
  have sv: "ns_now (S st d) = (\<lambda>s. (1000000, s))" "ns_ack (S st d) = (\<lambda>m. io_return ())" "ns_enqueue (S st d) = (\<lambda>e. io_return ())"
    "ns_blocked (S st False) = (\<lambda>d. io_return False)" "ns_blocked (S st True) = (\<lambda>d. io_throw ''connection lost'')"
    "ns_sync (S st d) = None" "ns_webid (S st d) = None" "ns_policy (S st d) = (\<lambda>i. io_return None)" "ns_spam (S st d) = None"
    "ns_provider (S st d) = None" "ns_claim (S st d) = Some (\<lambda>i. io_return True)" "ns_announce (S st d) = None" "ns_project (S st d) = None"
    "ns_canonical (S st d) = None" "ns_bridge (S st d) = None" "ns_post (S st d) = (\<lambda>q. io_return (st, Some []))" "ns_adapter (S st d) = None"
    "ns_parse (S st d) = mini_parse" for st d
    by (simp_all add: S_def inbound_sample_services_def)
  have cfg: "nc_capabilityGate inbound_sample_config = None" "nc_sidecarActorPaths inbound_sample_config = None" "nc_domain inbound_sample_config = None"
    by (simp_all add: inbound_sample_config_def)
  have sub: "subject_of (S st d) inbound_sample inbound_sample_activity a w =
      subject_of (inbound_sample_services 0 False :: unit inbound_services) inbound_sample inbound_sample_activity a w" for st d a w
    by (simp add: subject_of_def sv(18)) (simp add: inbound_sample_services_def)
  have route: "\<not> isSidecarActor (S st d) inbound_sample_config a" "\<not> isLocalActor (S st d) inbound_sample_config a"
    "\<not> isSidecarInbox inbound_sample_config p" for st d a p
    by (simp_all add: isSidecarActor_def isLocalActor_def isSidecarInbox_def cfg)
  have bg: "n_sync (S st d) C e a = io_return ()" "n_background (S st d) inbound_sample_activity = io_return ()" for st d C e a
    by (simp_all add: n_sync_def sv n_background_def inbound_sample_simps split: option.split)
  note defs = processEnvelope_def io_then_def io_bind_def io_return_def io_throw_def io_catch_def io_finally_def nadd_active_def n_body_def n_not_due_def
    n_parsed_def falsy_def resolveVerifiedActorUri_def validateVerifiedActorMatch_def n_verified_def bg unless_stopped_def n_blocked_def
    ncalled_def n_stop_def n_ack_def n_enqueue_def n_policy_def n_webid_def discards_def n_spam_def n_accepted_def n_provider_def n_fresh_def n_duplicate_def nseen_def
    n_announced_def route_def route_remote_def n_forward_def forwardToActivityPods_def forward_answer_def nsum_def publish_stream2_def
    invokeAtProjection_def invokeCanonicalPublisher_def inbound_callAdapter_def nclock_def Let_def MAX_INBOUND_ATTEMPTS_def
  have "nw_trace (snd (processEnvelope (S 202 False) inbound_sample_config m inbound_sample \<lparr>nw_srv = x, nw_trace = [], nw_active = 0, nw_seen = None\<rparr>))
      = NvAck True # inbound_sample_post 202 # inbound_sample_before"
    by (simp add: defs sv cfg inbound_sample_parse inbound_sample_simps inbound_sample_domain sub route inbound_sample_post_def inbound_sample_before_def
        del: json_stringify.simps)
  then show "inbound_trace (inbound_sample_services 202 False) inbound_sample_config m inbound_sample x None =
     NvAck True # inbound_sample_post 202 # inbound_sample_before"
    by (simp add: inbound_trace_def inbound_run_def S_def)
  have "nw_trace (snd (processEnvelope (S 503 False) inbound_sample_config m inbound_sample \<lparr>nw_srv = x, nw_trace = [], nw_active = 0, nw_seen = None\<rparr>))
      = [NvEnqueue (retry_envelope inbound_sample 1000000) True, NvTime 1000000, NvAck True, inbound_sample_post 503] @ inbound_sample_before"
    by (simp add: defs sv cfg inbound_sample_parse inbound_sample_simps inbound_sample_domain sub route inbound_sample_post_def inbound_sample_before_def
        del: json_stringify.simps)
  then show "inbound_trace (inbound_sample_services 503 False) inbound_sample_config m inbound_sample x None =
     [NvEnqueue (retry_envelope inbound_sample 1000000) True, NvTime 1000000, NvAck True, inbound_sample_post 503] @ inbound_sample_before"
    by (simp add: inbound_trace_def inbound_run_def S_def)
  have "nw_trace (snd (processEnvelope (S st True) inbound_sample_config m inbound_sample \<lparr>nw_srv = x, nw_trace = [], nw_active = 0, nw_seen = None\<rparr>))
      = [NvAck True, NvBlocked ''b.example'' None]"
    by (simp add: defs sv cfg inbound_sample_parse inbound_sample_simps inbound_sample_domain del: json_stringify.simps)
  then show "inbound_trace (inbound_sample_services st True) inbound_sample_config m inbound_sample x None = [NvAck True, NvBlocked ''b.example'' None]"
    by (simp add: inbound_trace_def inbound_run_def S_def)
qed


section \<open>What is done, and on whose word\<close>

text \<open>C10: Each run of \<open>processEnvelope\<close>, whatever the services answer and whichever of them fail, is a run of the abstract protocol
  \<open>inbound_protocol\<close>: every call is one that \<open>inbound_allows\<close> after what happened before, the count of active jobs comes back to
  what it was, and at the end the entry is acknowledged, or the provider did not accept its event, or the last acknowledgement itself failed.\<close>
theorem processEnvelope_refines_protocol:
  "leads (inbound_protocol S C e) (inbound_trace S C m e x ids) (inbound_trace S C m e x ids) \<and>
   nw_active (snd (inbound_run S C m e x ids)) = 0 \<and>
   (case fst (inbound_run S C m e x ids) of
      Inr _ \<Rightarrow> NvAck True \<in> set (inbound_trace S C m e x ids) \<or>
        (\<exists>ev. NvProvider ev (Some False) \<in> set (inbound_trace S C m e x ids))
    | Inl _ \<Rightarrow> NvAck False \<in> set (inbound_trace S C m e x ids))"
  using inbound_run_leads [of S C e m x ids] by (auto simp: settled_def was_acked_def split: sum.splits)

text \<open>The calls by which an activity has an effect outside the worker.\<close>

fun takes_effect :: "inbound_event \<Rightarrow> bool" where
  "takes_effect (NvFlag _ _ _) = True"
| "takes_effect (NvProvider _ _) = True"
| "takes_effect (NvStream1 _ _) = True"
| "takes_effect (NvStream2 _ _) = True"
| "takes_effect (NvTombstone _ _) = True"
| "takes_effect (NvProject _ _ _) = True"
| "takes_effect (NvCanonical _ _) = True"
| "takes_effect (NvWebhook _ _ _) = True"
| "takes_effect (NvBridge _ _ _) = True"
| "takes_effect (NvPost _ _) = True"
| "takes_effect (NvBackfill _ _) = True"
| "takes_effect (NvReconcile _ _) = True"
| "takes_effect (NvAdapter _ _) = True"
| "takes_effect _ = False"

lemma effect_let_in:
  assumes "inbound_allows S C e es ev" and "takes_effect ev"
  shows "\<exists>act actor. let_in S e es act actor \<and> (delivering ev \<longrightarrow>
    inbound_fresh S C e es act actor \<and> for_activity_pods S C e actor \<and> \<not> list_ex delivering es)"
  using assms by cases (auto simp: inbound_fresh_def)



section \<open>When it leaves the stream\<close>

inductive_cases allowed_ack: "inbound_allows S C e es (NvAck r)"
inductive_cases allowed_enqueue: "inbound_allows S C e es (NvEnqueue e' r)"

text \<open>C26: An entry is acknowledged only when something accounts for it: it was put back because it is not due, it was refused for
  one of the stated reasons, it was handled, delivered or found to be a duplicate, or its delivery failed; or a call that is not isolated
  failed, in which case the worker acknowledges it all the same.\<close>
theorem inbound_acked_only_when_accounted:
  assumes "inbound_trace S C m e x ids = later @ NvAck r # earlier"
  shows "inbound_accounted S C e earlier \<or> list_ex rejected earlier \<or> json_parse (ie_body e) = Some JNull \<or> ns_iso S (ie_receivedAt e) = None"
  using inbound_split [OF assms] by (auto simp: troubled_def elim: allowed_ack)

theorem inbound_acked_only_when_accounted_witness:
  "inbound_trace (inbound_sample_services 202 False) inbound_sample_config ''1-0'' inbound_sample () None =
     [] @ NvAck True # inbound_sample_post 202 # inbound_sample_before \<and>
   inbound_accounted (inbound_sample_services 202 False :: unit inbound_services) inbound_sample_config inbound_sample
     (inbound_sample_post 202 # inbound_sample_before)"
proof -
  let ?S = "inbound_sample_services 202 False :: unit inbound_services"
  have t: "inbound_trace ?S inbound_sample_config ''1-0'' inbound_sample () None = [] @ NvAck True # inbound_sample_post 202 # inbound_sample_before"
    by (simp add: inbound_sample_runs)
  have n: "\<not> list_ex rejected (inbound_sample_post 202 # inbound_sample_before)" "json_parse (ie_body inbound_sample) \<noteq> Some JNull"
    "ns_iso ?S (ie_receivedAt inbound_sample) \<noteq> None"
    by (simp_all add: inbound_sample_post_def inbound_sample_before_def inbound_sample_parse inbound_sample_simps) (simp add: inbound_sample_services_def)
  from inbound_acked_only_when_accounted [OF t] n t show ?thesis by blast
qed



section \<open>How often it comes back\<close>

text \<open>C37: An envelope comes back on the stream at most eight times for its failures: what a run puts on the stream is the envelope itself, if it
  is not due yet, or a copy with the next attempt number, which is at most \<open>MAX_INBOUND_ATTEMPTS\<close>, that is not due before the run's own time plus
  the backoff; and the copy is made only after a delivery that failed without being refused.  So the attempts left strictly decrease.\<close>
theorem inbound_retries_bounded:
  assumes "inbound_trace S C m e x ids = later @ NvEnqueue e' r # earlier" and "ie_attempt e = Num n"
  shows "(e' = e \<and> (\<exists>t. NvTime t \<in> set earlier \<and> js_lt (Num t) (ie_notBeforeMs e))) \<or>
    (ie_attempt e' = Num (n + 1) \<and> n + 1 \<le> MAX_INBOUND_ATTEMPTS \<and> nat (MAX_INBOUND_ATTEMPTS - (n + 1)) < nat (MAX_INBOUND_ATTEMPTS - n) \<and>
     (\<exists>t. NvTime t \<in> set earlier \<and> e' = e\<lparr>ie_attempt := Num (n + 1), ie_notBeforeMs := Num (t + backoffMs (Num (n + 1)))\<rparr>) \<and>
     forward_failed earlier False)"
  using inbound_split [OF assms(1)]
proof (rule allowed_enqueue, goal_cases)
  case 1
  then show ?case by (auto simp: deferred_again_def simp del: js_lt.simps)
next
  case (2 act actor t)
  have "n + 1 \<le> MAX_INBOUND_ATTEMPTS" using 2(7) assms(2) by simp
  moreover have "e' = e\<lparr>ie_attempt := Num (n + 1), ie_notBeforeMs := Num (t + backoffMs (Num (n + 1)))\<rparr>"
    using 2(1) assms(2) by (simp add: retry_envelope_def)
  ultimately show ?case using 2(3,5) by - (rule disjI2, intro conjI, auto simp del: backoffMs.simps)
qed

theorem inbound_retries_bounded_witness:
  "\<exists>e' earlier. inbound_trace (inbound_sample_services 503 False) inbound_sample_config ''1-0'' inbound_sample () None =
     [] @ NvEnqueue e' True # earlier \<and> ie_attempt e' = Num 1 \<and> e' \<noteq> inbound_sample"
proof -
  let ?S = "inbound_sample_services 503 False :: unit inbound_services" and ?e = "retry_envelope inbound_sample 1000000"
  have t: "inbound_trace ?S inbound_sample_config ''1-0'' inbound_sample () None =
      [] @ NvEnqueue ?e True # [NvTime 1000000, NvAck True, inbound_sample_post 503] @ inbound_sample_before"
    by (simp add: inbound_sample_runs)
  have "ie_attempt ?e \<noteq> ie_attempt inbound_sample" by (simp add: retry_envelope_def inbound_sample_simps)
  then have n: "?e \<noteq> inbound_sample" by metis
  from inbound_retries_bounded [OF t inbound_sample_simps(3)] n have "ie_attempt ?e = Num 1" by simp
  with t n show ?thesis by blast
qed

end
