(* ===== verification/Inbound_Signatures.thy ===== *)
theory Inbound_Signatures
  imports Inbound_Guarantees Egress_Properties Worker_Text
begin

text \<open>
  What an HTTP signature on an inbound envelope establishes: how its header is read, what the signed text binds, and what it leaves open.
\<close>

section \<open>The header\<close>

definition quote :: char where "quote = CHR ''\"''"

fun print_params :: "(string \<times> string) list \<Rightarrow> string" where
  "print_params [] = []"
| "print_params [(k, v)] = k @ CHR ''='' # quote # v @ [quote]"
| "print_params ((k, v) # kvs) = k @ CHR ''='' # quote # v @ quote # CHR '','' # print_params kvs"

definition proper_param :: "string \<times> string \<Rightarrow> bool" where
  "proper_param kv \<longleftrightarrow> fst kv \<noteq> [] \<and> list_all word_char (fst kv) \<and> snd kv \<noteq> [] \<and> quote \<notin> set (snd kv)"

lemma not_word [simp]: "\<not> word_char CHR ''=''" "\<not> word_char CHR '',''"
  by (simp_all add: word_char_def)

lemma take_drop_stop:
  "list_all P xs \<Longrightarrow> \<not> P c \<Longrightarrow> takeWhile P (xs @ c # r) = xs \<and> dropWhile P (xs @ c # r) = c # r"
  by (induction xs) auto

lemma sig_param_print:
  assumes "proper_param (k, v)"
  shows "sig_param (k @ CHR ''='' # quote # v @ quote # r) = Some ((k, v), r)"
proof -
  have k: "takeWhile word_char (k @ CHR ''='' # quote # v @ quote # r) = k"
    "dropWhile word_char (k @ CHR ''='' # quote # v @ quote # r) = CHR ''='' # quote # v @ quote # r"
    using assms take_drop_stop [of word_char k "CHR ''=''"] by (auto simp: proper_param_def)
  have "list_all (\<lambda>c. c \<noteq> quote) v" using assms by (auto simp: proper_param_def list_all_iff)
  then have v: "takeWhile (\<lambda>c. c \<noteq> quote) (v @ quote # r) = v" "dropWhile (\<lambda>c. c \<noteq> quote) (v @ quote # r) = quote # r"
    using take_drop_stop [of "\<lambda>c. c \<noteq> quote" v quote r] by auto
  show ?thesis using assms k v by (simp add: sig_param_def quote_def proper_param_def)
qed

lemma sig_params_step: "sig_param t = Some (kv, r) \<Longrightarrow> sig_params t = kv # sig_params r"
  by (cases t) (auto simp: sig_param_def Let_def)

lemma sig_params_comma: "sig_params (CHR '','' # t) = sig_params t"
  by (simp add: sig_param_def)

declare sig_params.simps(2) [simp del]

lemma sig_params_print: "list_all proper_param kvs \<Longrightarrow> sig_params (print_params kvs) = kvs"
proof (induction kvs rule: print_params.induct)
  case (2 k v)
  then show ?case using sig_params_step [OF sig_param_print [of k v "[]"]] by simp
next
  case (3 k v kv kvs)
  then show ?case using sig_params_step [OF sig_param_print [of k v "CHR '','' # print_params (kv # kvs)"]] by (simp add: sig_params_comma)
qed simp

text \<open>The parser of \<open>Signature\<close> headers inverts their printing: for parameters whose names are words and whose values are not empty and contain no quote,
  the parser finds exactly the parameters that were printed, and of several with the same name the last.\<close>
theorem signature_header_roundtrip:
  assumes "list_all proper_param kvs"
  shows "parseSignatureHeader (print_params kvs) = map_of (rev kvs)"
  by (simp add: parseSignatureHeader_def sig_params_print assms)

theorem signature_header_roundtrip_witness:
  "parseSignatureHeader (print_params [(''keyId'', ''k''), (''headers'', ''a b''), (''keyId'', ''q'')]) ''keyId'' = Some ''q''"
  by (subst signature_header_roundtrip) (simp_all add: proper_param_def word_char_def quote_def)

section \<open>What the signed text binds\<close>

definition bound_headers :: "string set" where
  "bound_headers = {''(request-target)'', ''host'', ''date'', ''digest'', ''content-type''}"

abbreviation newline :: char where "newline \<equiv> char_of (10 :: nat)"

text \<open>No line break in what is signed, and no blank in the method; Node.js refuses such requests.\<close>

definition line_safe :: "InboundEnvelope \<Rightarrow> bool" where
  "line_safe e \<longleftrightarrow> newline \<notin> set (ie_method e) \<and> CHR '' '' \<notin> set (ie_method e) \<and> newline \<notin> set (ie_path e) \<and>
     (\<forall>h \<in> bound_headers. newline \<notin> set (header_text e h))"

definition bound_line :: "InboundEnvelope \<Rightarrow> string \<Rightarrow> string" where
  "bound_line e header =
     (let h = js_lower header
      in if h = ''(request-target)'' then ''(request-target): '' @ js_lower (ie_method e) @ '' '' @ ie_path e
         else h @ '': '' @ header_text e h)"

lemma bound_signing_line: "js_lower h \<in> bound_headers \<Longrightarrow> signing_line e h = Some (bound_line e h)"
  by (auto simp: signing_line_def bound_line_def bound_headers_def Let_def)

lemma map_filter_total: "(\<And>x. x \<in> set xs \<Longrightarrow> f x = Some (g x)) \<Longrightarrow> List.map_filter f xs = map g xs"
  by (induction xs) (simp_all add: map_filter_simps)

lemma bound_signing_string:
  "set (map js_lower hs) \<subseteq> bound_headers \<Longrightarrow> buildSigningString e hs = join_lines (map (bound_line e) hs)"
  unfolding buildSigningString_def by (subst map_filter_total [where g = "bound_line e"]) (auto simp: bound_signing_line)

lemma join_lines_cons: "join_lines (l # ls) = (if ls = [] then l else l @ newline # join_lines ls)"
  by (cases ls) simp_all

lemma split_unique:
  assumes "xs @ c # ys = xs' @ c # ys'" and "c \<notin> set xs" and "c \<notin> set xs'"
  shows "xs = xs' \<and> ys = ys'"
  using assms
proof (induction xs arbitrary: xs')
  case Nil
  then show ?case by (cases xs') auto
next
  case (Cons x xs)
  then show ?case by (cases xs') auto
qed

lemma join_lines_inj:
  assumes "length ls = length ls'" and "\<forall>l \<in> set ls \<union> set ls'. newline \<notin> set l" and "join_lines ls = join_lines ls'"
  shows "ls = ls'"
  using assms
proof (induction ls ls' rule: list_induct2)
  case (Cons l ls l' ls')
  show ?case
  proof (cases "ls = []")
    case True
    with Cons show ?thesis by (simp add: join_lines_cons)
  next
    case False
    then have "ls' \<noteq> []" using Cons.hyps by auto
    with False Cons.prems have "l @ newline # join_lines ls = l' @ newline # join_lines ls'" by (simp add: join_lines_cons)
    with Cons.prems(1) have "l = l' \<and> join_lines ls = join_lines ls'" by (intro split_unique) auto
    with Cons show ?thesis by simp
  qed
qed simp

lemma lower_char_low:
  assumes "(of_char (lower_char x) :: nat) < 65"
  shows "lower_char x = x"
proof (cases "65 \<le> (of_char x :: nat) \<and> (of_char x :: nat) \<le> 90")
  case True
  then have "(of_char (lower_char x) :: nat) = of_char x + 32" by (simp add: lower_char_def Let_def)
  with assms True show ?thesis by linarith
qed (auto simp: lower_char_def Let_def)

lemma newline_literal: "newline = CHR 0x0A"
  by code_simp

lemma lower_not:
  assumes "(of_char c :: nat) < 65" and "c \<in> set (js_lower s)"
  shows "c \<in> set s"
proof -
  from assms(2) obtain x where x: "x \<in> set s" "c = lower_char x" by (auto simp: js_lower_def)
  with assms(1) have "c = x" using lower_char_low by simp
  with x show ?thesis by simp
qed

lemma header_names_safe: "h \<in> bound_headers \<Longrightarrow> newline \<notin> set h"
  by (auto simp: bound_headers_def newline_literal)

lemma bound_line_safe:
  assumes "line_safe e" and "js_lower h \<in> bound_headers"
  shows "newline \<notin> set (bound_line e h)"
proof (cases "js_lower h = ''(request-target)''")
  case True
  have "newline \<notin> set (js_lower (ie_method e))" using assms(1) lower_not [of newline] by (auto simp: line_safe_def)
  with True assms(1) show ?thesis by (simp add: bound_line_def line_safe_def newline_literal)
next
  case False
  then show ?thesis using assms header_names_safe [OF assms(2)] by (simp add: bound_line_def Let_def line_safe_def newline_literal)
qed

lemma bound_line_target:
  assumes "line_safe e" and "line_safe e'" and "js_lower h = ''(request-target)''" and "bound_line e h = bound_line e' h"
  shows "js_lower (ie_method e) = js_lower (ie_method e') \<and> ie_path e = ie_path e'"
proof (rule split_unique [where c = "CHR '' ''"])
  show "js_lower (ie_method e) @ CHR '' '' # ie_path e = js_lower (ie_method e') @ CHR '' '' # ie_path e'"
    using assms(3,4) by (simp add: bound_line_def)
qed (use assms(1,2) lower_not [of "CHR '' ''"] in \<open>auto simp: line_safe_def\<close>)

lemma bound_line_header:
  "bound_line e h = bound_line e' h \<Longrightarrow> js_lower h \<noteq> ''(request-target)'' \<Longrightarrow> header_text e (js_lower h) = header_text e' (js_lower h)"
  by (simp add: bound_line_def Let_def)

lemma checked:
  assumes "check_signature S e keyId sg hs doc = Inr a"
  obtains pem where "extractPublicKeyPemFromVerificationDocument doc = Some pem" "digest_ok S e"
    "ns_verify S pem (buildSigningString e (js_split CHR '' '' hs)) sg = Inr True"
    "resolveActorUriFromVerificationDocument keyId doc = Some a"
  using assms by (auto simp: check_signature_def split: if_splits option.splits sum.splits)



text \<open>A request that is signed by a key whose signatures are the texts themselves.\<close>

definition signing_sample_services :: "unit inbound_services" where
  "signing_sample_services = (inbound_sample_services 202 False)\<lparr>ns_verify := \<lambda>p t g. Inr (t = g)\<rparr>"

definition signed_sample :: "string \<Rightarrow> InboundEnvelope" where
  "signed_sample mth = createInboundEnvelope ''e1'' 900000 mth ''/inbox'' (JObj [(''digest'', JStr ''SHA-256={}'')]) ''{}'' ''127.0.0.1'' None"

definition key_document :: "string \<Rightarrow> json" where
  "key_document actor = JObj [(''publicKeyPem'', JStr ''p''), (''owner'', JStr actor)]"

lemma key_document_facts:
  "json_truthy (key_document a)" "extractPublicKeyPemFromVerificationDocument (key_document a) = Some ''p''"
  "a \<noteq> [] \<Longrightarrow> resolveActorUriFromVerificationDocument k (key_document a) = Some a"
  by (simp_all add: key_document_def extractPublicKeyPemFromVerificationDocument_def resolveActorUriFromVerificationDocument_def owner_candidate_def nullish_or_def)


section \<open>What it leaves open\<close>

text \<open>An envelope signed with a key of \<open>evil.example\<close>, whose document claims an owner elsewhere; nothing of the body is signed.\<close>

definition forging_services :: "unit inbound_services" where
  "forging_services = (inbound_sample_services 202 False)\<lparr>ns_get := \<lambda>u. io_return
     \<lparr>ar_status = 200, ar_body = Some (json_stringify (key_document ''https://b.example/u/1''))\<rparr>\<rparr>"

definition forged_sample :: InboundEnvelope where
  "forged_sample = createInboundEnvelope ''e1'' 900000 ''POST'' ''/inbox''
     (JObj [(''signature'', JStr (print_params [(''keyId'', ''https://evil.example/k''), (''headers'', ''date''), (''signature'', ''s'')]))])
     (json_stringify inbound_sample_activity) ''127.0.0.1'' None"

definition forging_world :: "unit inbound_world" where
  "forging_world = \<lparr>nw_srv = (), nw_trace = [], nw_active = 0, nw_seen = None\<rparr>"

lemma forged_params: "signature_params forged_sample = Inr (''https://evil.example/k'', ''s'', ''date'')"
proof -
  let ?ps = "[(''keyId'', ''https://evil.example/k''), (''headers'', ''date''), (''signature'', ''s'')]"
  have "list_all proper_param ?ps" by (simp add: proper_param_def word_char_def quote_def)
  then have "parseSignatureHeader (print_params ?ps) = map_of (rev ?ps)"
    by (simp add: parseSignatureHeader_def sig_params_print del: print_params.simps)
  moreover have "envelope_header forged_sample ''signature'' = Some (print_params ?ps)"
    by (simp add: forged_sample_def createInboundEnvelope_def envelope_header_def del: print_params.simps)
  ultimately show ?thesis by (simp add: signature_params_def)
qed

lemma forged_fetch:
  "\<exists>w'. fetchActorDocument forging_services inbound_sample_config ''https://evil.example/k'' forging_world =
    (Inr (key_document ''https://b.example/u/1''), w')"
proof -
  have "json_plain (key_document ''https://b.example/u/1'')" by (simp add: key_document_def)
  then have j: "json_parse (json_stringify (key_document ''https://b.example/u/1'')) = Some (key_document ''https://b.example/u/1'')"
    by (rule json_parse_stringify)
  have hash: "before_hash ''https://evil.example/k'' = ''https://evil.example/k''" by (simp add: before_hash_def)
  show ?thesis
    by (simp add: fetchActorDocument_def hash fetched_document_def io_bind_def io_then_def io_catch_def io_return_def ncalled_def nsum_def falsy_def j
        forging_world_def forging_services_def inbound_sample_services_def Let_def del: json_stringify.simps)
qed

lemma forged_facts:
  "getTrustedVerification forged_sample = None" "envelope_header forged_sample ''digest'' = None" "digest_ok forging_services forged_sample"
  "ns_verify forging_services p x g = Inr True"
  by (simp_all add: getTrustedVerification_def forged_sample_def createInboundEnvelope_def digest_ok_def envelope_header_def
      forging_services_def inbound_sample_services_def)

lemma forged_verified:
  "\<exists>w'. verifySignature forging_services inbound_sample_config forged_sample forging_world = (Inr (Inr ''https://b.example/u/1''), w')"
proof -
  obtain w' where "fetchActorDocument forging_services inbound_sample_config ''https://evil.example/k'' forging_world =
      (Inr (key_document ''https://b.example/u/1''), w')"
    using forged_fetch by blast
  then show ?thesis
    by (simp add: verifySignature_def forged_params check_signature_def key_document_facts forged_facts io_bind_def io_catch_def io_return_def)
qed

text \<open>Without a digest header the signature says nothing of the body: the verification of an envelope takes the same steps and has the same outcome whatever
  body is put into it, so that one signed request without a digest serves for any activity of its signer.  The digest is checked only if it
  is there, and neither it nor any other header has to be among the signed ones.\<close>
theorem inbound_signature_ignores_body:
  assumes "envelope_header e ''digest'' = None"
  shows "verifySignature S C (e\<lparr>ie_body := b\<rparr>) = verifySignature S C e"
proof -
  have h: "envelope_header (e\<lparr>ie_body := b\<rparr>) = envelope_header e" by (simp add: fun_eq_iff envelope_header_def)
  have "signing_line (e\<lparr>ie_body := b\<rparr>) = signing_line e" by (intro ext) (simp add: signing_line_def header_text_def h Let_def)
  then have s: "buildSigningString (e\<lparr>ie_body := b\<rparr>) = buildSigningString e" by (intro ext) (simp add: buildSigningString_def)
  have d: "digest_ok S (e\<lparr>ie_body := b\<rparr>) = digest_ok S e" using assms by (simp add: digest_ok_def h)
  have "check_signature S (e\<lparr>ie_body := b\<rparr>) = check_signature S e"
    by (intro ext) (simp add: check_signature_def s d split: option.split)
  note c = this
  have "signature_params (e\<lparr>ie_body := b\<rparr>) = signature_params e" by (simp add: signature_params_def h)
  then show ?thesis by (simp add: verifySignature_def c split: sum.split)
qed

theorem inbound_signature_ignores_body_witness:
  "\<exists>w'. verifySignature forging_services inbound_sample_config (forged_sample\<lparr>ie_body := ''[]''\<rparr>) forging_world =
    (Inr (Inr ''https://b.example/u/1''), w')"
  unfolding inbound_signature_ignores_body [OF forged_facts(2)] by (rule forged_verified)

text \<open>C38: A key document speaks for whomever it names.  When the document that the worker fetches for a \<open>keyId\<close> has a key that verifies the signature and
  claims an owner, the envelope's activity is accepted as that owner's: the owner is neither asked nor compared with the place the document came
  from, so anyone who can serve a document on any host can send activities in the name of any actor.\<close>
theorem inbound_signature_as_anyone:
  assumes "getTrustedVerification e = None" and "signature_params e = Inr (keyId, sg, hs)"
    and "fetchActorDocument S C keyId w = (Inr doc, w')"
    and "isRecord doc" and "nonempty_text (json_get ''publicKeyPem'' doc) = Some pem" and "nonempty_text (json_get ''owner'' doc) = Some victim"
    and "digest_ok S e" and "ns_verify S pem (buildSigningString e (js_split CHR '' '' hs)) sg = Inr True"
    and "extractActivityActorUri act = Some victim"
  shows "resolveVerifiedActorUri S C m e act w = (Inr (Some victim), w')"
proof -
  have v: "victim \<noteq> []" and o: "json_get ''owner'' doc = Some (JStr victim)"
    using assms(6) by (cases "json_get ''owner'' doc"; auto split: if_splits elim!: nonempty_text.elims)+
  have r: "isRecord doc" "json_truthy doc" using assms(4) by (auto elim: isRecord.elims)
  have "resolveActorUriFromVerificationDocument keyId doc = Some victim"
    using o v r by (simp add: resolveActorUriFromVerificationDocument_def owner_candidate_def nullish_or_def)
  then have "check_signature S e keyId sg hs doc = Inr victim"
    using v r assms(5,7,8) by (simp add: check_signature_def extractPublicKeyPemFromVerificationDocument_def)
  then show ?thesis
    using assms(1,2,3,9)
    by (simp add: resolveVerifiedActorUri_def verifySignature_def validateVerifiedActorMatch_def io_bind_def io_catch_def io_return_def)
qed

theorem inbound_signature_as_anyone_witness:
  "\<exists>w'. resolveVerifiedActorUri forging_services inbound_sample_config ''1-0'' forged_sample inbound_sample_activity forging_world =
    (Inr (Some ''https://b.example/u/1''), w')"
proof -
  let ?d = "key_document ''https://b.example/u/1''"
  obtain w' where f: "fetchActorDocument forging_services inbound_sample_config ''https://evil.example/k'' forging_world = (Inr ?d, w')"
    using forged_fetch by blast
  have k: "nonempty_text (json_get ''publicKeyPem'' ?d) = Some ''p''" "nonempty_text (json_get ''owner'' ?d) = Some ''https://b.example/u/1''"
    by (simp_all add: key_document_def)
  have "resolveVerifiedActorUri forging_services inbound_sample_config ''1-0'' forged_sample inbound_sample_activity forging_world =
      (Inr (Some ''https://b.example/u/1''), w')"
    by (rule inbound_signature_as_anyone [OF forged_facts(1) forged_params f _ k forged_facts(3,4) inbound_sample_simps(5)])
       (simp add: key_document_def)
  then show ?thesis by blast
qed

end
