(* ===== verification/Inbound_Deployment.thy ===== *)
theory Inbound_Deployment
  imports Inbound_Guarantees
begin

text \<open>
  The inbound worker on top of the claims that Redis keeps of the activities it has seen: any number of runs, of any workers on any envelopes,
  with time passing between them.
\<close>

section \<open>What a run leaves alone\<close>

fun claims_made :: "inbound_event list \<Rightarrow> (string \<times> bool option) list" where
  "claims_made [] = []"
| "claims_made (NvClaim i r # es) = (i, r) # claims_made es"
| "claims_made (_ # es) = claims_made es"

lemma claims_made_set: "NvClaim i r \<in> set es \<longleftrightarrow> (i, r) \<in> set (claims_made es)"
  by (induction es rule: claims_made.induct) auto

text \<open>A predicate of the world that sees of the trace only the claims, and of the services only \<open>P\<close>.\<close>

definition sees_claims :: "('s inbound_world \<Rightarrow> bool) \<Rightarrow> ('s \<Rightarrow> bool) \<Rightarrow> bool" where
  "sees_claims I P \<longleftrightarrow>
     (\<forall>w w'. I w \<longrightarrow> (P (nw_srv w) \<longrightarrow> P (nw_srv w')) \<longrightarrow> claims_made (nw_trace w') = claims_made (nw_trace w) \<longrightarrow> I w')"

definition inbound_services_keep :: "('s \<Rightarrow> bool) \<Rightarrow> 's inbound_services \<Rightarrow> bool" where
  "inbound_services_keep P S \<longleftrightarrow>
     (\<forall>s. P s \<longrightarrow> P (snd (ns_now S s))) \<and> (\<forall>m. maintains P (ns_ack S m)) \<and> (\<forall>e. maintains P (ns_enqueue S e)) \<and>
     (\<forall>e r. maintains P (ns_dlq S e r)) \<and> (\<forall>d. maintains P (ns_blocked S d)) \<and> (\<forall>u. maintains P (ns_cached S u)) \<and>
     (\<forall>u d t. maintains P (ns_cache S u d t)) \<and> (\<forall>u. maintains P (ns_get S u)) \<and>
     (\<forall>f h a d l. ns_sync S = Some f \<longrightarrow> maintains P (f h a d l)) \<and> (\<forall>f a. ns_webid S = Some f \<longrightarrow> maintains P (f a)) \<and>
     (\<forall>i. maintains P (ns_policy S i)) \<and> (\<forall>f i d a. ns_spam S = Some f \<longrightarrow> maintains P (f i d a)) \<and>
     (\<forall>a e b. maintains P (ns_flag S a e b)) \<and> (\<forall>f ev. ns_provider S = Some f \<longrightarrow> maintains P (f ev)) \<and>
     (\<forall>f a i. ns_announce S = Some f \<longrightarrow> maintains P (f a i)) \<and> (\<forall>p. maintains P (ns_stream1 S p)) \<and> (\<forall>p. maintains P (ns_stream2 S p)) \<and>
     (\<forall>t. maintains P (ns_tombstone S t)) \<and> (\<forall>f a b. ns_project S = Some f \<longrightarrow> maintains P (f a b)) \<and>
     (\<forall>f c. ns_canonical S = Some f \<longrightarrow> maintains P (f c)) \<and> (\<forall>u s a j. maintains P (ns_webhook S u s a j)) \<and>
     (\<forall>f e a b. ns_bridge S = Some f \<longrightarrow> maintains P (f e a b)) \<and> (\<forall>q. maintains P (ns_post S q)) \<and>
     (\<forall>f a. ns_backfill S = Some f \<longrightarrow> maintains P (f a)) \<and> (\<forall>f a. ns_reconcile S = Some f \<longrightarrow> maintains P (f a)) \<and>
     (\<forall>f a i t p. ns_adapter S = Some f \<longrightarrow> maintains P (f a i t p))"

lemma sees_ncalled:
  assumes "sees_claims I P" and "maintains P m" and "\<And>r es. claims_made (ev r # es) = claims_made es"
  shows "maintains I (ncalled ev m)"
  unfolding maintains_def
proof (intro allI impI)
  fix w assume w: "I w"
  obtain r s where m: "m (nw_srv w) = (r, s)" by fastforce
  have "P (nw_srv w) \<longrightarrow> P s" using assms(2) m by (auto dest: maintainsD)
  moreover have "snd (ncalled ev m w) = w\<lparr>nw_srv := s, nw_trace := ev r # nw_trace w\<rparr>" by (simp add: ncalled_def m)
  ultimately show "I (snd (ncalled ev m w))" using assms(1,3) w unfolding sees_claims_def by fastforce
qed

lemma sees_nclock:
  assumes "sees_claims I P" and "\<And>s. P s \<Longrightarrow> P (snd (ns_now S s))"
  shows "maintains I (nclock S)"
  unfolding maintains_def
proof (intro allI impI)
  fix w assume w: "I w"
  have "snd (nclock S w) = w\<lparr>nw_srv := snd (ns_now S (nw_srv w)), nw_trace := NvTime (fst (ns_now S (nw_srv w))) # nw_trace w\<rparr>"
    by (simp add: nclock_def split: prod.split)
  with assms w show "I (snd (nclock S w))" unfolding sees_claims_def by fastforce
qed

lemma sees_nseen:
  assumes "sees_claims I P"
  shows "maintains I (nseen i)"
  unfolding maintains_def
proof (intro allI impI)
  fix w assume w: "I w"
  have "nw_srv (snd (nseen i w)) = nw_srv w" "claims_made (nw_trace (snd (nseen i w))) = claims_made (nw_trace w)"
    by (simp_all add: nseen_def split: option.split)
  with assms w show "I (snd (nseen i w))" unfolding sees_claims_def by metis
qed

lemma sees_nadd_active: "sees_claims I P \<Longrightarrow> maintains I (nadd_active d)"
  unfolding maintains_def nadd_active_def sees_claims_def by simp

lemma maintains_nsum: "maintains I (nsum x)"
  by (cases x) (simp_all add: nsum_def keep_rules)

lemma maintains_nquiet: "maintains I m \<Longrightarrow> maintains I (nquiet m)"
  unfolding nquiet_def by (intro keep_rules)

lemma maintains_unless_stopped: "maintains I m \<Longrightarrow> maintains I n \<Longrightarrow> maintains I (unless_stopped m n)"
  unfolding unless_stopped_def by (intro keep_rules)

lemma processEnvelope_maintains:
  assumes I: "sees_claims I P" and k: "inbound_services_keep P S"
    and claim: "\<And>i f. ns_claim S = Some f \<Longrightarrow> maintains I (ncalled (\<lambda>r. NvClaim i (reply r)) (f i))"
  shows "maintains I (processEnvelope S C m e)"
proof -
  have p: "P s \<Longrightarrow> P (snd (ns_now S s))" "maintains P (ns_ack S a)" "maintains P (ns_enqueue S e1)" "maintains P (ns_dlq S e1 r)"
    "maintains P (ns_blocked S d)" "maintains P (ns_cached S u)" "maintains P (ns_cache S u doc t)" "maintains P (ns_get S u)"
    "maintains P (ns_policy S si)" "maintains P (ns_flag S doc e1 a)" "maintains P (ns_stream1 S pb)" "maintains P (ns_stream2 S pb)"
    "maintains P (ns_tombstone S tb)" "maintains P (ns_webhook S u a d doc)" "maintains P (ns_post S q)"
    for s a e1 r d u doc t si pb tb q using k by (simp_all add: inbound_services_keep_def)
  have opt: "ns_sync S = Some f1 \<Longrightarrow> maintains P (f1 h a doc l)" "ns_webid S = Some f2 \<Longrightarrow> maintains P (f2 a)"
    "ns_spam S = Some f3 \<Longrightarrow> maintains P (f3 si doc act)" "ns_provider S = Some f4 \<Longrightarrow> maintains P (f4 pe)"
    "ns_announce S = Some f5 \<Longrightarrow> maintains P (f5 a h)" "ns_project S = Some f6 \<Longrightarrow> maintains P (f6 act a)"
    "ns_canonical S = Some f7 \<Longrightarrow> maintains P (f7 ce)" "ns_bridge S = Some f8 \<Longrightarrow> maintains P (f8 e1 act a)"
    "ns_backfill S = Some f9 \<Longrightarrow> maintains P (f9 act)" "ns_reconcile S = Some f9 \<Longrightarrow> maintains P (f9 act)"
    "ns_adapter S = Some f10 \<Longrightarrow> maintains P (f10 a i act b)"
    for f1 f2 f3 f4 f5 f6 f7 f8 f9 f10 h a doc l si act pe ce e1 i b using k by (simp_all add: inbound_services_keep_def)
  note call = sees_ncalled [OF I]
  have clock: "maintains I (nclock S)" by (rule sees_nclock [OF I p(1)])
  have ack: "maintains I (n_ack S a)" for a unfolding n_ack_def by (rule call [OF p(2)]) simp
  have enq: "maintains I (n_enqueue S e1)" for e1 unfolding n_enqueue_def by (rule call [OF p(3)]) simp
  have dismiss: "maintains I (n_dismiss S a e1 r)" for a e1 r unfolding n_dismiss_def by (intro keep_rules ack call [OF p(4)]) simp
  have stop: "maintains I (n_stop S a)" for a unfolding n_stop_def by (intro keep_rules ack)
  have fetched: "maintains I (fetched_document S C u)" for u
    unfolding fetched_document_def by (intro keep_rules maintains_nsum call [OF p(7)] call [OF p(8)]) simp_all
  have fetch: "maintains I (fetchActorDocument S C u)" for u
    unfolding fetchActorDocument_def Let_def by (intro keep_rules fetched call [OF p(6)]) simp
  have verify: "maintains I (verifySignature S C e)"
    unfolding verifySignature_def by (auto intro!: keep_rules fetch split: sum.split prod.split)
  have valid: "maintains I (validateVerifiedActorMatch S m e act a)" for act a
    unfolding validateVerifiedActorMatch_def by (auto intro!: keep_rules dismiss split: option.split)
  have resolve: "maintains I (resolveVerifiedActorUri S C m e act)" for act
    unfolding resolveVerifiedActorUri_def by (auto intro!: keep_rules dismiss valid verify split: option.split sum.split)
  have sync: "maintains I (n_sync S C e a)" for a
    unfolding n_sync_def by (auto intro!: keep_rules maintains_nquiet fetch call opt(1) split: option.split)
  have blocked: "maintains I (n_blocked S m a)" for a
    unfolding n_blocked_def by (auto intro!: keep_rules stop call p split: option.split)
  have webid: "maintains I (n_webid S a)" for a
    unfolding n_webid_def by (auto intro!: keep_rules call opt(2) split: option.split)
  have policy: "maintains I (n_policy S m e act a)" for act a
    unfolding n_policy_def Let_def by (auto intro!: keep_rules stop webid call p)
  have spam: "maintains I (n_spam S C m e act a)" for act a
    unfolding n_spam_def Let_def by (auto intro!: keep_rules stop fetch call opt(3) split: option.split)
  have provide: "maintains I (n_provider S C e act a)" for act a
    unfolding n_provider_def Let_def by (auto intro!: keep_rules call opt(4) split: option.split)
  have dup: "maintains I (n_duplicate S m act)" for act
    unfolding n_duplicate_def Let_def by (auto intro!: keep_rules stop claim sees_nseen [OF I] split: option.split)
  have announced: "maintains I (n_announced S m act a)" for act a
    unfolding n_announced_def by (auto intro!: keep_rules stop call opt(5) split: option.split if_splits)
  note leaf = sync blocked policy spam provide dup announced resolve dismiss ack enq clock
  have s1: "maintains I (publish_stream1 S e act a mt)" "maintains I (publish_stream2 S C e act a mt b)" for act a mt b
    unfolding publish_stream1_def publish_stream2_def Let_def by (intro keep_rules maintains_nquiet call p; simp)+
  have proj: "maintains I (invokeAtProjection S act a)" for act a
    unfolding invokeAtProjection_def by (auto intro!: keep_rules maintains_nquiet call opt(6) split: option.split)
  have canon: "maintains I (invokeCanonicalPublisher S ce)" for ce
    unfolding invokeCanonicalPublisher_def by (auto intro!: keep_rules maintains_nquiet call opt(7) split: option.split)
  have adapter: "maintains I (inbound_callAdapter S C act a)" for act a
    unfolding inbound_callAdapter_def by (auto intro!: keep_rules maintains_nquiet call opt(11) split: option.split)
  have tomb: "maintains I (publish_tombstone S act a)" for act a
    unfolding publish_tombstone_def Let_def by (intro keep_rules maintains_nquiet clock call p) simp
  have backg: "maintains I (n_background S act)" for act
  proof -
    have b: "maintains I (case ns_backfill S of None \<Rightarrow> io_return () | Some f \<Rightarrow> nquiet (ncalled (\<lambda>r. NvBackfill act (reply r \<noteq> None)) (f act)))"
      by (auto intro!: keep_rules maintains_nquiet call opt(9) split: option.split)
    have r: "maintains I (case ns_reconcile S of None \<Rightarrow> io_return () | Some f \<Rightarrow> nquiet (ncalled (\<lambda>r. NvReconcile act (reply r \<noteq> None)) (f act)))"
      by (auto intro!: keep_rules maintains_nquiet call opt(10) split: option.split)
    show ?thesis unfolding n_background_def by (intro keep_rules b r)
  qed
  have pods: "maintains I (forwardToActivityPods S C e act a)" for act a
    unfolding forwardToActivityPods_def Let_def by (intro keep_rules maintains_nsum call p) simp
  have fwd: "maintains I (n_forward S C m e act a)" for act a
    unfolding n_forward_def Let_def
    by (auto intro!: keep_rules dismiss pods ack clock enq call p opt(8) split: option.split forward_result.split)
  have mta: "maintains I (buildPublicSearchEventMeta S C act a)" for act a
    unfolding buildPublicSearchEventMeta_def Let_def by (auto intro!: keep_rules fetch split: option.split)
  have rt: "maintains I (route S C m e act a)" for act a
    unfolding route_def route_remote_def route_local_def route_sidecar_actor_def route_sidecar_inbox_def
    by (auto intro!: keep_rules maintains_nquiet s1 proj canon adapter tomb backg fwd mta ack call p split: option.split)
  have fresh: "maintains I (n_fresh S C m e act a)" for act a
    unfolding n_fresh_def by (intro maintains_unless_stopped leaf rt)
  have accepted: "maintains I (n_accepted S C m e act a)" for act a
    unfolding n_accepted_def by (auto intro!: keep_rules leaf fresh call p split: option.split bool.split)
  have verified: "maintains I (n_verified S C m e act a)" for act a
    unfolding n_verified_def by (intro keep_rules maintains_unless_stopped leaf accepted)
  have parsed: "maintains I (n_parsed S C m e)"
    unfolding n_parsed_def by (auto intro!: keep_rules leaf verified split: option.split)
  have bdy: "maintains I (n_body S C m e)"
    unfolding n_body_def n_not_due_def by (auto intro!: keep_rules leaf parsed split: option.split)
  show ?thesis unfolding processEnvelope_def by (intro keep_rules sees_nadd_active [OF I] bdy leaf)
qed


section \<open>The claims in Redis\<close>

text \<open>\<open>InboundIdempotencyGuard.claimIfNew\<close>, run on the first component of the state, with its default time to live.\<close>

definition redis_inbound :: "'r redis \<Rightarrow> (string \<Rightarrow> string) \<Rightarrow> ('r \<times> 'x) inbound_services \<Rightarrow> ('r \<times> 'x) inbound_services" where
  "redis_inbound R sha256 S = S\<lparr>ns_claim := Some (\<lambda>i. on_redis (inbound_claimIfNew R sha256 INBOUND_GUARD_TTL_SECONDS i))\<rparr>"

lemma redis_inbound_claim [simp]: "ns_claim (redis_inbound R sha S) \<noteq> None"
  by (simp add: redis_inbound_def)

lemma redis_inbound_keep: "inbound_services_keep P (redis_inbound R sha S) = inbound_services_keep P S"
  by (simp add: inbound_services_keep_def redis_inbound_def)

text \<open>The other services may do anything, on the same Redis too, as long as they do not take the claim away.\<close>

definition inbound_claim_kept :: "('r \<Rightarrow> keyspace) \<Rightarrow> string \<Rightarrow> ('r \<times> 'x) inbound_services \<Rightarrow> bool" where
  "inbound_claim_kept view K S \<longleftrightarrow> (\<forall>r. inbound_services_keep (\<lambda>s. key_lives r K (view (fst s))) S)"

datatype inbound_deployment = RunInbound inbound_config string InboundEnvelope "string list option" | Goes_by nat

fun goes_by :: "inbound_deployment \<Rightarrow> nat" where
  "goes_by (Goes_by d) = d"
| "goes_by (RunInbound _ _ _ _) = 0"

definition gone_by :: "inbound_deployment list \<Rightarrow> nat" where
  "gone_by xs = sum_list (map goes_by xs)"

fun deploy_inbound ::
  "'r redis \<Rightarrow> ('r \<times> 'x) inbound_services \<Rightarrow> inbound_deployment list \<Rightarrow> 'r \<times> 'x \<Rightarrow>
   (inbound_deployment \<times> inbound_event list) list \<times> ('r \<times> 'x)" where
  "deploy_inbound R S [] s = ([], s)"
| "deploy_inbound R S (Goes_by d # xs) s =
     (case deploy_inbound R S xs (r_tick R d (fst s), snd s) of (tr, s') \<Rightarrow> ((Goes_by d, []) # tr, s'))"
| "deploy_inbound R S (RunInbound C m e ids # xs) s =
     (case deploy_inbound R S xs (nw_srv (snd (inbound_run S C m e s ids))) of
        (tr, s') \<Rightarrow> ((RunInbound C m e ids, inbound_trace S C m e s ids) # tr, s'))"

lemma inbound_run_maintains:
  assumes "sees_claims I P" and "inbound_services_keep P S" and "I \<lparr>nw_srv = s, nw_trace = [], nw_active = 0, nw_seen = ids\<rparr>"
    and "\<And>i f. ns_claim S = Some f \<Longrightarrow> maintains I (ncalled (\<lambda>r. NvClaim i (reply r)) (f i))"
  shows "I (snd (inbound_run S C m e s ids))"
proof -
  have "maintains I (processEnvelope S C m e)" by (rule processEnvelope_maintains [OF assms(1,2)]) (rule assms(4))
  then show ?thesis unfolding inbound_run_def using assms(3) by (rule maintains_snd)
qed

context redis_server
begin

lemma inbound_claim_key:
  assumes "inbound_claimIfNew R sha t i s = (a, s')"
  shows "key_lives r K (view s) \<longrightarrow> key_lives r K (view s')"
    and "a = Inr True \<longrightarrow> \<not> key_lives 0 (inboundGuardKey sha i) (view s) \<and> (int r < 1000 * t \<longrightarrow> key_lives r (inboundGuardKey sha i) (view s'))"
  using assms key_lives_now [of r K "view s"]
  by (auto simp: inbound_claimIfNew_def set_nx_def redis_view key_lives_get key_lives_set split: if_splits)

lemma inbound_claim_call:
  fixes S :: "('s \<times> 'x) inbound_services"
  assumes "ns_claim (redis_inbound R sha S) = Some f" and "ncalled (\<lambda>r. NvClaim i (reply r)) (f i) w = (a, w')"
  shows "(key_lives r K (view (fst (nw_srv w))) \<longrightarrow> key_lives r K (view (fst (nw_srv w')))) \<and>
    (\<exists>x. nw_trace w' = NvClaim i x # nw_trace w \<and>
      (x = Some True \<longrightarrow> \<not> key_lives 0 (inboundGuardKey sha i) (view (fst (nw_srv w))) \<and>
        (int r < 1000 * INBOUND_GUARD_TTL_SECONDS \<longrightarrow> key_lives r (inboundGuardKey sha i) (view (fst (nw_srv w'))))))"
proof -
  obtain b s' where m: "inbound_claimIfNew R sha INBOUND_GUARD_TTL_SECONDS i (fst (nw_srv w)) = (b, s')" by fastforce
  have "f i = on_redis (inbound_claimIfNew R sha INBOUND_GUARD_TTL_SECONDS i)" using assms(1) by (auto simp: redis_inbound_def)
  with assms(2) m have "fst (nw_srv w') = s'" "nw_trace w' = NvClaim i (reply b) # nw_trace w"
    by (auto simp: ncalled_def on_redis_def)
  moreover have "reply b = Some True \<Longrightarrow> b = Inr True" by (cases b) simp_all
  ultimately show ?thesis using inbound_claim_key(1) [OF m, where r = r and K = K] inbound_claim_key(2) [OF m, where r = r] by auto
qed

lemma inbound_run_keeps_claim:
  fixes S :: "('s \<times> 'x) inbound_services"
  assumes "inbound_claim_kept view K S" and "key_lives r K (view (fst s))"
  shows "key_lives r K (view (fst (nw_srv (snd (inbound_run (redis_inbound R sha S) C m e s ids)))))"
proof (rule inbound_run_maintains [where I = "\<lambda>w. key_lives r K (view (fst (nw_srv w)))" and P = "\<lambda>s. key_lives r K (view (fst s))"])
  show "sees_claims (\<lambda>w. key_lives r K (view (fst (nw_srv w)))) (\<lambda>s. key_lives r K (view (fst s)))" by (simp add: sees_claims_def)
  show "inbound_services_keep (\<lambda>s. key_lives r K (view (fst s))) (redis_inbound R sha S)"
    using assms(1) by (simp add: inbound_claim_kept_def redis_inbound_keep)
  show "maintains (\<lambda>w. key_lives r K (view (fst (nw_srv w)))) (ncalled (\<lambda>r. NvClaim i (reply r)) (f i))"
    if "ns_claim (redis_inbound R sha S) = Some f" for i f
    unfolding maintains_def using inbound_claim_call [OF that surjective_pairing] by blast
qed (simp add: assms(2))

lemma inbound_run_leaves_claim:
  fixes S :: "('s \<times> 'x) inbound_services"
  assumes "inbound_claim_kept view (inboundGuardKey sha i) S" and "int r < 1000 * INBOUND_GUARD_TTL_SECONDS"
    and "NvClaim i (Some True) \<in> set (inbound_trace (redis_inbound R sha S) C m e s ids)"
  shows "key_lives r (inboundGuardKey sha i) (view (fst (nw_srv (snd (inbound_run (redis_inbound R sha S) C m e s ids)))))"
proof -
  let ?S = "redis_inbound R sha S" and ?K = "inboundGuardKey sha i"
  let ?I = "\<lambda>w. NvClaim i (Some True) \<in> set (nw_trace w) \<longrightarrow> key_lives r ?K (view (fst (nw_srv w)))"
  have "?I (snd (inbound_run ?S C m e s ids))"
  proof (rule inbound_run_maintains [where P = "\<lambda>s. key_lives r ?K (view (fst s))"])
    show "sees_claims ?I (\<lambda>s. key_lives r ?K (view (fst s)))" by (auto simp: sees_claims_def claims_made_set)
    show "inbound_services_keep (\<lambda>s. key_lives r ?K (view (fst s))) ?S" using assms(1) by (simp add: inbound_claim_kept_def redis_inbound_keep)
    show "maintains ?I (ncalled (\<lambda>r. NvClaim i' (reply r)) (f i'))" if f: "ns_claim ?S = Some f" for i' f
      unfolding maintains_def
    proof (intro allI, rule impI)
      fix w :: "('s \<times> 'x) inbound_world" assume w: "?I w"
      show "?I (snd (ncalled (\<lambda>r. NvClaim i' (reply r)) (f i') w))"
        using inbound_claim_call [OF f surjective_pairing, where r = r and K = ?K and i = i' and w = w] assms(2) w by auto
    qed
  qed simp
  with assms(3) show ?thesis by (simp add: inbound_trace_def)
qed

lemma claimed_run_claims_nothing:
  fixes S :: "('s \<times> 'x) inbound_services"
  assumes "inbound_claim_kept view (inboundGuardKey sha i) S" and "key_lives 0 (inboundGuardKey sha i) (view (fst s))"
  shows "NvClaim i (Some True) \<notin> set (inbound_trace (redis_inbound R sha S) C m e s ids)"
proof -
  let ?S = "redis_inbound R sha S" and ?K = "inboundGuardKey sha i"
  let ?I = "\<lambda>w. NvClaim i (Some True) \<notin> set (nw_trace w) \<and> key_lives 0 ?K (view (fst (nw_srv w)))"
  have "?I (snd (inbound_run ?S C m e s ids))"
  proof (rule inbound_run_maintains [where P = "\<lambda>s. key_lives 0 ?K (view (fst s))"])
    show "sees_claims ?I (\<lambda>s. key_lives 0 ?K (view (fst s)))" by (auto simp: sees_claims_def claims_made_set)
    show "inbound_services_keep (\<lambda>s. key_lives 0 ?K (view (fst s))) ?S" using assms(1) by (simp add: inbound_claim_kept_def redis_inbound_keep)
    show "maintains ?I (ncalled (\<lambda>r. NvClaim i' (reply r)) (f i'))" if f: "ns_claim ?S = Some f" for i' f
      unfolding maintains_def
    proof (intro allI impI)
      fix w :: "('s \<times> 'x) inbound_world" assume w: "?I w"
      show "?I (snd (ncalled (\<lambda>r. NvClaim i' (reply r)) (f i') w))"
        using inbound_claim_call [OF f surjective_pairing, where r = 0 and K = ?K and i = i' and w = w] w by auto
    qed
  qed (simp add: assms(2))
  then show ?thesis by (simp add: inbound_trace_def)
qed

text \<open>While the claim lives, no run of a deployment is granted it.\<close>

lemma deployed_runs_claim_no_activity:
  fixes S :: "('s \<times> 'x) inbound_services"
  assumes "inbound_claim_kept view (inboundGuardKey sha i) S"
    and "key_lives r (inboundGuardKey sha i) (view (fst s))" and "gone_by xs \<le> r"
    and "(RunInbound C m e ids, es) \<in> set (fst (deploy_inbound R (redis_inbound R sha S) xs s))"
  shows "NvClaim i (Some True) \<notin> set es \<and> (\<exists>x. es = inbound_trace (redis_inbound R sha S) C m e x ids)"
  using assms(2-4)
proof (induction xs arbitrary: r s)
  case (Cons x xs)
  have le: "goes_by x \<le> r" "gone_by xs \<le> r - goes_by x" using Cons.prems(2) by (auto simp: gone_by_def)
  show ?case
  proof (cases x)
    case (Goes_by d)
    have "key_lives (r - d) (inboundGuardKey sha i) (view (fst (r_tick R d (fst s), snd s)))"
      using Cons.prems(1) le Goes_by by (simp add: redis_view key_lives_tick)
    from Cons.IH [OF this] Cons.prems(3) le Goes_by show ?thesis by (auto split: prod.splits)
  next
    case (RunInbound C' m' e' ids')
    let ?S = "redis_inbound R sha S"
    have f: "key_lives r (inboundGuardKey sha i) (view (fst (nw_srv (snd (inbound_run ?S C' m' e' s ids')))))"
      by (rule inbound_run_keeps_claim [OF assms(1) Cons.prems(1)])
    from Cons.prems(3) RunInbound consider "e' = e" "C' = C" "m' = m" "es = inbound_trace ?S C' m' e' s ids'" "ids' = ids"
      | "(RunInbound C m e ids, es) \<in> set (fst (deploy_inbound R ?S xs (nw_srv (snd (inbound_run ?S C' m' e' s ids')))))"
      by (auto split: prod.splits)
    then show ?thesis
    proof cases
      case 1
      with claimed_run_claims_nothing [OF assms(1) key_lives_now [OF Cons.prems(1)]] show ?thesis by blast
    next
      case 2
      from Cons.IH [OF f _ 2] le RunInbound show ?thesis by simp
    qed
  qed
qed simp

end

end
