(* ===== verification/Inbound_Delivery.thy ===== *)
theory Inbound_Delivery
  imports Inbound_Deployment
begin

text \<open>
  Whether an inbound activity reaches ActivityPods: it does when nothing speaks against it, at most once over all runs, and never after a first failure.
\<close>

section \<open>One run\<close>

lemma delivering_once: "leads (inbound_protocol S C e) es s \<Longrightarrow> length (filter delivering es) \<le> 1"
proof (induction rule: leads.induct)
  case (event es s ev s')
  have "inbound_allows S C e es ev" using event leads_trace by fastforce
  then have "delivering ev \<Longrightarrow> \<not> list_ex delivering es" using effect_let_in [of S C e es ev] by (cases ev) auto
  then have "delivering ev \<Longrightarrow> filter delivering es = []" by (auto simp: list_ex_iff filter_empty_conv)
  with event.IH show ?case by auto
qed simp

lemma one_delivery:
  assumes "x \<in> set (inbound_trace S C m e s ids)" and "y \<in> set (inbound_trace S C m e s ids)" and "delivering x" and "delivering y"
  shows "x = y"
proof -
  have "length (filter delivering (inbound_trace S C m e s ids)) \<le> 1" by (rule delivering_once [OF conjunct1 [OF inbound_run_leads]])
  moreover have "x \<in> set (filter delivering (inbound_trace S C m e s ids))" "y \<in> set (filter delivering (inbound_trace S C m e s ids))"
    using assms by simp_all
  ultimately show ?thesis by (cases "filter delivering (inbound_trace S C m e s ids)") auto
qed

lemma delivery_was_claimed:
  assumes "ev \<in> set (inbound_trace S C m e s ids)" and "delivering ev" and "ns_claim S \<noteq> None"
    and "json_parse (ie_body e) = Some act" and "json_get ''id'' act = Some i" and "json_truthy i"
  shows "NvClaim (js_String i) (Some True) \<in> set (inbound_trace S C m e s ids)"
proof -
  obtain later earlier where t: "inbound_trace S C m e s ids = later @ ev # earlier" using assms(1) by (meson split_list)
  have "takes_effect ev" using assms(2) by (cases ev) auto
  from effect_let_in [OF inbound_split [OF t] this] assms(2) obtain act' actor where "inbound_fresh S C e earlier act' actor" by blast
  then have "act' = act" "claimed_new S earlier act'" using assms(4) by (simp_all add: inbound_fresh_def let_in_def verified_as_def well_formed_def)
  with assms(3,5,6) show ?thesis unfolding t by (auto simp: claimed_new_def)
qed

text \<open>A failed delivery is the only one.\<close>

lemma failed_not_delivered:
  assumes "forward_failed es p" and "\<forall>x \<in> set es. \<forall>y \<in> set es. delivering x \<longrightarrow> delivering y \<longrightarrow> x = y"
  shows "\<not> delivered_to_pods es act actor"
proof
  assume d: "delivered_to_pods es act actor"
  have one: "x \<in> set es \<Longrightarrow> y \<in> set es \<Longrightarrow> delivering x \<Longrightarrow> delivering y \<Longrightarrow> x = y" for x y using assms(2) by blast
  from assms(1) obtain q r where f: "NvPost q r \<in> set es" "\<forall>r'. r = Some r' \<longrightarrow> forward_answer r' \<noteq> Inr Forwarded"
    by (auto simp: forward_failed_def)
  from d show False
    unfolding delivered_to_pods_def
  proof
    assume "NvBridge act actor True \<in> set es"
    from one [OF f(1) this] show False by simp
  next
    assume "\<exists>q r. NvPost q (Some r) \<in> set es \<and> forward_answer r = Inr Forwarded"
    then obtain q' r' where g: "NvPost q' (Some r') \<in> set es" "forward_answer r' = Inr Forwarded" by blast
    from one [OF f(1) g(1)] f(2) g(2) show False by simp
  qed
qed

text \<open>Answers that speak against an activity.\<close>

fun unfavourable :: "inbound_event \<Rightarrow> bool" where
  "unfavourable (NvBlocked _ r) \<longleftrightarrow> r \<noteq> Some False"
| "unfavourable (NvPolicy _ r) \<longleftrightarrow> (case r of None \<Rightarrow> True | Some a \<Rightarrow> discards a)"
| "unfavourable (NvSpam _ _ _ r) \<longleftrightarrow> (case r of None \<Rightarrow> True | Some a \<Rightarrow> discards a)"
| "unfavourable (NvClaim _ r) \<longleftrightarrow> r \<noteq> Some True"
| "unfavourable (NvSeen _ b) = b"
| "unfavourable (NvAnnounce _ _ r) \<longleftrightarrow> r \<noteq> Some True"
| "unfavourable (NvBridge _ _ r) \<longleftrightarrow> \<not> r"
| "unfavourable (NvPost _ r) \<longleftrightarrow> (case r of None \<Rightarrow> True | Some a \<Rightarrow> forward_answer a \<noteq> Inr Forwarded)"
| "unfavourable ev = rejected ev"

lemma favourable_facts:
  assumes "list_all (\<lambda>ev. \<not> unfavourable ev) es"
  shows "\<not> list_ex rejected es" and "NvBlocked d (Some True) \<notin> set es" and "NvPolicy i (Some a) \<in> set es \<Longrightarrow> \<not> discards a"
    and "NvSpam i doc act (Some a) \<in> set es \<Longrightarrow> \<not> discards a" and "NvClaim k (Some False) \<notin> set es" and "NvSeen k True \<notin> set es"
    and "NvAnnounce k k' (Some False) \<notin> set es" and "NvBridge act k False \<notin> set es" and "\<not> forward_failed es p"
proof -
  have u: "ev \<in> set es \<Longrightarrow> \<not> unfavourable ev" for ev using assms by (auto simp: list_all_iff)
  have "rejected ev \<Longrightarrow> unfavourable ev" for ev by (cases ev) auto
  then show "\<not> list_ex rejected es" using u by (auto simp: list_ex_iff)
  show "NvBlocked d (Some True) \<notin> set es" "NvPolicy i (Some a) \<in> set es \<Longrightarrow> \<not> discards a"
    "NvSpam i doc act (Some a) \<in> set es \<Longrightarrow> \<not> discards a" "NvClaim k (Some False) \<notin> set es" "NvSeen k True \<notin> set es"
    "NvAnnounce k k' (Some False) \<notin> set es" "NvBridge act k False \<notin> set es" using u by force+
  show "\<not> forward_failed es p" unfolding forward_failed_def using u by force
qed

lemma accounted_and_favourable:
  assumes "inbound_accounted S C e es" and "list_all (\<lambda>ev. \<not> unfavourable ev) es" and "getTrustedVerification e = Some actor"
    and "well_formed e act" and "extractActivityActorUri act = Some actor" and "for_activity_pods S C e actor"
    and "\<not> gate_shut C" and "\<not> deferred_again e es" and "\<And>a r. NvFlag act a r \<notin> set es" and "\<And>ev r. NvProvider ev r \<notin> set es"
  shows "delivered_to_pods es act actor"
proof -
  note fav = favourable_facts [OF assms(2)]
  have who: "act' = act" "actor' = actor" if "verified_as S e es' act' actor'" for act' actor' es'
  proof -
    show "act' = act" using that assms(4) by (simp add: verified_as_def well_formed_def)
    then show "actor' = actor" using that assms(5) by (simp add: verified_as_def)
  qed
  have in': "act' = act \<and> actor' = actor" if "let_in S e es act' actor'" for act' actor'
    using who [of es act' actor'] that by (simp add: let_in_def)
  have fresh: "act' = act \<and> actor' = actor" if "inbound_fresh S C e es act' actor'" for act' actor'
    using in' [of act' actor'] that by (simp add: inbound_fresh_def)
  have ok: "\<not> unverified S e es act" using assms(3,5) by (simp add: unverified_def vouched_def)
  from assms(1) show ?thesis
  proof cases
    case put_back then show ?thesis using assms(8) by simp
  next
    case shut then show ?thesis using assms(7) by simp
  next
    case unreadable then show ?thesis using assms(4) by (simp add: well_formed_def)
  next
    case (incomplete act') then show ?thesis using assms(4) by (auto simp: well_formed_def)
  next
    case (refused act') then show ?thesis using assms(4) ok by (simp add: well_formed_def)
  next
    case blocked then show ?thesis using fav(2) by blast
  next
    case policy then show ?thesis using fav(3) by blast
  next
    case spam then show ?thesis using fav(4) by blast
  next
    case (report act' actor') then show ?thesis using in' assms(9) by blast
  next
    case provider then show ?thesis using assms(10) by blast
  next
    case duplicate then show ?thesis using fav(5) by blast
  next
    case seen then show ?thesis using fav(6) by blast
  next
    case boosted then show ?thesis using fav(7) by blast
  next
    case (kept_here act' actor') then show ?thesis using fresh assms(6) by blast
  next
    case (delivered act' actor') then show ?thesis using fresh by blast
  next
    case undelivered then show ?thesis using fav(8,9) by blast
  qed
qed

lemma delivered_grows_more: "delivered_to_pods es act actor \<Longrightarrow> set es \<subseteq> set es' \<Longrightarrow> delivered_to_pods es' act actor"
  by (auto simp: delivered_to_pods_def)

text \<open>C34: An activity that nothing speaks against is delivered.  Take an envelope the runtime verified, of an activity that has a type, is by the verified actor,
  is neither a report nor for the provider, and is for ActivityPods (its actor is neither this server's nor the worker's own, nor is its inbox).
  If the entry is due, the gate is open, the received time prints, and every call that was made was answered in its favour, then the run posted it to
  ActivityPods (or gave it to the bridge) with success, and acknowledged the entry.\<close>
theorem inbound_complete:
  assumes "getTrustedVerification e = Some actor" and "json_parse (ie_body e) = Some act" and "act \<noteq> JNull"
    and "\<not> falsy (json_get ''type'' act)" and "\<not> falsy (json_get ''actor'' act)" and "extractActivityActorUri act = Some actor"
    and "\<not> isFlagActivity act" and "\<not> isProviderDirectedActivity C act (ie_path e)"
    and "\<not> isSidecarActor S C actor" and "\<not> isLocalActor S C actor" and "\<not> isSidecarInbox C (ie_path e)"
    and "\<not> gate_shut C" and "ns_iso S (ie_receivedAt e) \<noteq> None" and "\<not> deferred_again e (inbound_trace S C m e x ids)"
    and "list_all (\<lambda>ev. \<not> unfavourable ev) (inbound_trace S C m e x ids)"
  shows "delivered_to_pods (inbound_trace S C m e x ids) act actor \<and> NvAck True \<in> set (inbound_trace S C m e x ids)"
proof -
  let ?es = "inbound_trace S C m e x ids"
  have wf: "well_formed e act" using assms(2-5) by (simp add: well_formed_def)
  have who: "act' = act" if "let_in S e es act' actor'" for es act' actor'
    using that assms(2) by (simp add: let_in_def verified_as_def well_formed_def)
  have nf: "NvFlag act a r \<notin> set ?es" for a r
  proof
    assume "NvFlag act a r \<in> set ?es"
    then obtain later earlier where "?es = later @ NvFlag act a r # earlier" by (meson split_list)
    from inbound_split [OF this] show False using assms(7) by cases auto
  qed
  have np: "NvProvider ev r \<notin> set ?es" for ev r
  proof
    assume "NvProvider ev r \<in> set ?es"
    then obtain later earlier where "?es = later @ NvProvider ev r # earlier" by (meson split_list)
    from inbound_split [OF this] show False using assms(8) who by cases auto
  qed
  have ack: "NvAck True \<in> set ?es"
  proof -
    have "NvAck False \<notin> set ?es" using assms(15) by (auto simp: list_all_iff)
    then show ?thesis
      using inbound_run_leads [of S C e m x ids] np by (auto simp: settled_def was_acked_def split: sum.splits)
  qed
  then obtain later earlier where t: "?es = later @ NvAck True # earlier" by (meson split_list)
  have sub: "set earlier \<subseteq> set ?es" by (auto simp: t)
  have fav: "list_all (\<lambda>ev. \<not> unfavourable ev) earlier" using assms(15) unfolding t by simp
  have "\<not> troubled S e earlier" using favourable_facts(1) [OF fav] assms(2,3,13) by (simp add: troubled_def)
  then have "inbound_accounted S C e earlier" using inbound_split [OF t] by (auto elim: allowed_ack)
  moreover have "\<not> deferred_again e earlier" using assms(14) sub by (auto simp: deferred_again_def)
  moreover have "NvFlag act a r \<notin> set earlier" "NvProvider ev b \<notin> set earlier" for a r ev b using nf np sub by blast+
  moreover have "for_activity_pods S C e actor" using assms(9-11) by (simp add: for_activity_pods_def)
  ultimately have "delivered_to_pods earlier act actor" using assms(12) by (intro accounted_and_favourable [OF _ fav assms(1) wf assms(6)])
  with ack sub show ?thesis using delivered_grows_more by blast
qed

theorem inbound_complete_witness:
  "delivered_to_pods (inbound_trace (inbound_sample_services 202 False) inbound_sample_config ''1-0'' inbound_sample () None)
     inbound_sample_activity ''https://b.example/u/1'' \<and>
   NvAck True \<in> set (inbound_trace (inbound_sample_services 202 False) inbound_sample_config ''1-0'' inbound_sample () None)"
  by (rule inbound_complete)
     (simp_all add: inbound_sample_simps inbound_sample_parse inbound_sample_runs inbound_sample_post_def inbound_sample_before_def falsy_def gate_shut_def
       deferred_again_def discards_def forward_answer_def isProviderDirectedActivity_def isSidecarActor_def isLocalActor_def isSidecarInbox_def,
      simp_all add: inbound_sample_config_def inbound_sample_services_def)


section \<open>Many runs\<close>

text \<open>C15: An activity goes to ActivityPods at most once in seven days, whoever sends it and however often: when a run was granted the claim of an identifier, then
  of all the runs that follow within the time to live of the claim (a redelivered entry, a retry, the same activity in another inbox or
  from another server, another worker), none posts or bridges an activity with that identifier; and the run itself does so at most once.\<close>
theorem inbound_forwarded_once:
  assumes "redis_server R view" and "inbound_claim_kept view (inboundGuardKey sha (js_String i)) S"
    and "NvClaim (js_String i) (Some True) \<in> set (inbound_trace (redis_inbound R sha S) C m e s ids)"
    and "nw_srv (snd (inbound_run (redis_inbound R sha S) C m e s ids)) = s'" and "int (gone_by xs) < 1000 * INBOUND_GUARD_TTL_SECONDS"
    and "(RunInbound C' m' e' ids', es) \<in> set (fst (deploy_inbound R (redis_inbound R sha S) xs s'))"
    and "json_parse (ie_body e') = Some act" and "json_get ''id'' act = Some i" and "json_truthy i"
  shows "list_all (\<lambda>ev. \<not> delivering ev) es \<and>
    length (filter delivering (inbound_trace (redis_inbound R sha S) C m e s ids)) \<le> 1"
proof
  note d = redis_server.deployed_runs_claim_no_activity [OF assms(1,2)
      redis_server.inbound_run_leaves_claim [OF assms(1,2,5,3), unfolded assms(4)] order_refl assms(6)]
  then obtain x where es: "es = inbound_trace (redis_inbound R sha S) C' m' e' x ids'" by blast
  have "\<not> delivering ev" if "ev \<in> set es" for ev
    using delivery_was_claimed [OF that [unfolded es] _ redis_inbound_claim assms(7-9)] conjunct1 [OF d] es by metis
  then show "list_all (\<lambda>ev. \<not> delivering ev) es" by (simp add: list_all_iff)
  show "length (filter delivering (inbound_trace (redis_inbound R sha S) C m e s ids)) \<le> 1"
    by (rule delivering_once [OF conjunct1 [OF inbound_run_leads]])
qed

lemma requeued_after_failure:
  assumes "NvEnqueue e' b \<in> set (inbound_trace S C m e s ids)" and "e' \<noteq> e" and "ns_claim S \<noteq> None"
    and "json_parse (ie_body e) = Some act" and "json_get ''id'' act = Some i" and "json_truthy i"
  shows "NvClaim (js_String i) (Some True) \<in> set (inbound_trace S C m e s ids) \<and> ie_body e' = ie_body e \<and>
    \<not> delivered_to_pods (inbound_trace S C m e s ids) act' actor'"
proof -
  let ?es = "inbound_trace S C m e s ids"
  obtain later earlier where t: "?es = later @ NvEnqueue e' b # earlier" using assms(1) by (meson split_list)
  from inbound_split [OF t] assms(2) obtain actb actor u where r: "e' = retry_envelope e u" "inbound_fresh S C e earlier actb actor" "forward_failed earlier False"
    by (auto elim: allowed_enqueue)
  have "actb = act" "claimed_new S earlier actb"
    using r(2) assms(4) by (simp_all add: inbound_fresh_def let_in_def verified_as_def well_formed_def)
  then have "NvClaim (js_String i) (Some True) \<in> set ?es" using assms(3,5,6) unfolding t by (auto simp: claimed_new_def)
  moreover have "forward_failed ?es False"
  proof -
    have "set earlier \<subseteq> set ?es" by (auto simp: t)
    with r(3) show ?thesis unfolding forward_failed_def by blast
  qed
  then have "\<not> delivered_to_pods ?es act' actor'" by (rule failed_not_delivered) (intro ballI impI, rule one_delivery)
  ultimately show ?thesis using r(1) by (simp add: retry_envelope_def)
qed

text \<open>C7: The retry of a delivery is dropped.  When a run could not deliver an activity with an identifier, because ActivityPods did not answer or answered with
  503, say, and put the envelope back for a later attempt, then no run delivers it any more, neither a run on that envelope nor one on any other with
  the same activity, within seven days: the first attempt has claimed the identifier, and the retry takes its own claim for a duplicate.  So
  a single failure of ActivityPods loses the activity, and of the eight attempts only the first is ever made.\<close>
theorem inbound_retry_is_dropped:
  assumes "redis_server R view" and "inbound_claim_kept view (inboundGuardKey sha (js_String i)) S"
    and "NvEnqueue e' b \<in> set (inbound_trace (redis_inbound R sha S) C m e s ids)" and "e' \<noteq> e"
    and "json_parse (ie_body e) = Some act" and "json_get ''id'' act = Some i" and "json_truthy i"
    and "nw_srv (snd (inbound_run (redis_inbound R sha S) C m e s ids)) = s'" and "int (gone_by xs) < 1000 * INBOUND_GUARD_TTL_SECONDS"
    and "(RunInbound C' m' f ids', es) \<in> set (fst (deploy_inbound R (redis_inbound R sha S) xs s'))" and "ie_body f = ie_body e'"
  shows "\<not> delivered_to_pods (inbound_trace (redis_inbound R sha S) C m e s ids) act' actor' \<and> \<not> delivered_to_pods es act' actor'"
proof -
  note q = requeued_after_failure [OF assms(3,4) redis_inbound_claim assms(5-7)]
  note d = redis_server.deployed_runs_claim_no_activity [OF assms(1,2)
      redis_server.inbound_run_leaves_claim [OF assms(1,2,9) conjunct1 [OF q], unfolded assms(8)] order_refl assms(10)]
  then obtain x where es: "es = inbound_trace (redis_inbound R sha S) C' m' f x ids'" by blast
  have p: "json_parse (ie_body f) = Some act" using q assms(5,11) by simp
  have "\<not> delivering ev" if "ev \<in> set es" for ev
    using delivery_was_claimed [OF that [unfolded es] _ redis_inbound_claim p assms(6,7)] conjunct1 [OF d] es by metis
  then have "\<not> delivered_to_pods es act' actor'" unfolding delivered_to_pods_def by (metis delivering.simps(1,2))
  with q show ?thesis by blast
qed

section \<open>Sample\<close>

text \<open>The sample services on Redis, where ActivityPods answers 503 to the first request and 202 to all others.\<close>

definition inbound_redis_sample :: "(keyspace \<times> nat) inbound_services" where
  "inbound_redis_sample = (inbound_sample_services 503 False)
     \<lparr>ns_post := \<lambda>q s. (Inr (if snd s = 0 then 503 else 202, Some []), (fst s, Suc (snd s)))\<rparr>"

lemma inbound_redis_sample_kept: "inbound_claim_kept (\<lambda>ks. ks) K inbound_redis_sample"
  by (simp add: inbound_claim_kept_def inbound_services_keep_def inbound_redis_sample_def inbound_sample_services_def maintains_def io_return_def io_throw_def)

lemma inbound_redis_run:
  assumes "inbound_claimIfNew ks_server (\<lambda>k. k) INBOUND_GUARD_TTL_SECONDS ''i1'' ks = (Inr True, ks')"
  shows "\<exists>later. inbound_trace (redis_inbound ks_server (\<lambda>k. k) inbound_redis_sample) inbound_sample_config m inbound_sample (ks, 0) None =
     NvEnqueue (retry_envelope inbound_sample 1000000) True # later \<and> NvClaim ''i1'' (Some True) \<in> set later"
proof -
  define S where "S = redis_inbound ks_server (\<lambda>k. k) inbound_redis_sample"
  have sv: "ns_now S = (\<lambda>s. (1000000, s))" "ns_ack S = (\<lambda>m. io_return ())" "ns_enqueue S = (\<lambda>e. io_return ())"
    "ns_blocked S = (\<lambda>d. io_return False)" "ns_sync S = None" "ns_webid S = None" "ns_policy S = (\<lambda>i. io_return None)" "ns_spam S = None"
    "ns_provider S = None" "ns_announce S = None" "ns_bridge S = None" 
    "ns_post S = (\<lambda>q s. (Inr (if snd s = 0 then 503 else 202, Some []), (fst s, Suc (snd s))))" "ns_parse S = mini_parse"
    by (simp_all add: S_def redis_inbound_def inbound_redis_sample_def inbound_sample_services_def)
  have cl: "ns_claim S = Some (\<lambda>i. on_redis (inbound_claimIfNew ks_server (\<lambda>k. k) INBOUND_GUARD_TTL_SECONDS i))"
    by (simp add: S_def redis_inbound_def)
  have cfg: "nc_capabilityGate inbound_sample_config = None" "nc_sidecarActorPaths inbound_sample_config = None" "nc_domain inbound_sample_config = None"
    by (simp_all add: inbound_sample_config_def)
  have route: "\<not> isSidecarActor S inbound_sample_config a" "\<not> isLocalActor S inbound_sample_config a" "\<not> isSidecarInbox inbound_sample_config p" for a p
    by (simp_all add: isSidecarActor_def isLocalActor_def isSidecarInbox_def cfg)
  have bg: "n_sync S C e a = io_return ()" for C e a by (simp add: n_sync_def sv split: option.split)
  note defs = processEnvelope_def io_then_def io_bind_def io_return_def io_throw_def io_catch_def io_finally_def nadd_active_def n_body_def n_not_due_def
    n_parsed_def falsy_def resolveVerifiedActorUri_def validateVerifiedActorMatch_def n_verified_def bg unless_stopped_def n_blocked_def
    ncalled_def n_stop_def n_ack_def n_enqueue_def n_policy_def n_webid_def discards_def n_spam_def n_accepted_def n_provider_def n_fresh_def n_duplicate_def nseen_def
    n_announced_def route_def route_remote_def n_forward_def forwardToActivityPods_def forward_answer_def nsum_def nclock_def Let_def MAX_INBOUND_ATTEMPTS_def
    on_redis_def
  show ?thesis
    unfolding inbound_trace_def inbound_run_def S_def [symmetric]
    by (simp add: defs sv cl cfg inbound_sample_parse inbound_sample_simps inbound_sample_domain route assms del: json_stringify.simps)
qed


lemma inbound_redis_first:
  "\<exists>later. inbound_trace (redis_inbound ks_server (\<lambda>k. k) inbound_redis_sample) inbound_sample_config m inbound_sample (empty_ks, 0) None =
     NvEnqueue (retry_envelope inbound_sample 1000000) True # later \<and> NvClaim ''i1'' (Some True) \<in> set later"
proof -
  obtain ks where "inbound_claimIfNew ks_server (\<lambda>k. k) INBOUND_GUARD_TTL_SECONDS ''i1'' empty_ks = (Inr True, ks)"
    by (simp add: inbound_claimIfNew_def set_nx_def ks_eval)
  then show ?thesis by (rule inbound_redis_run)
qed

definition inbound_redis_later :: "InboundEnvelope \<Rightarrow> inbound_deployment list" where
  "inbound_redis_later e = [Goes_by 86400000, RunInbound inbound_sample_config ''2-0'' e None]"

lemma inbound_redis_later_runs:
  "\<exists>es. fst (deploy_inbound R S (inbound_redis_later e) s) = [(Goes_by 86400000, []), (RunInbound inbound_sample_config ''2-0'' e None, es)]"
  by (simp add: inbound_redis_later_def)

theorem inbound_forwarded_once_witness:
  "\<exists>s' es. fst (deploy_inbound ks_server (redis_inbound ks_server (\<lambda>k. k) inbound_redis_sample) (inbound_redis_later inbound_sample) s') =
      [(Goes_by 86400000, []), (RunInbound inbound_sample_config ''2-0'' inbound_sample None, es)] \<and>
    s' = nw_srv (snd (inbound_run (redis_inbound ks_server (\<lambda>k. k) inbound_redis_sample) inbound_sample_config ''1-0'' inbound_sample (empty_ks, 0) None)) \<and>
    list_all (\<lambda>ev. \<not> delivering ev) es"
proof -
  let ?S = "redis_inbound ks_server (\<lambda>k. k) inbound_redis_sample"
  let ?s' = "nw_srv (snd (inbound_run ?S inbound_sample_config ''1-0'' inbound_sample (empty_ks, 0) None))"
  obtain es where es: "fst (deploy_inbound ks_server ?S (inbound_redis_later inbound_sample) ?s') =
      [(Goes_by 86400000, []), (RunInbound inbound_sample_config ''2-0'' inbound_sample None, es)]" using inbound_redis_later_runs by blast
  have c: "NvClaim (js_String (JStr ''i1'')) (Some True) \<in> set (inbound_trace ?S inbound_sample_config ''1-0'' inbound_sample (empty_ks, 0) None)"
    using inbound_redis_first [of "''1-0''"] by auto
  have g: "int (gone_by (inbound_redis_later inbound_sample)) < 1000 * INBOUND_GUARD_TTL_SECONDS"
    by (simp add: gone_by_def inbound_redis_later_def INBOUND_GUARD_TTL_SECONDS_def)
  have m: "(RunInbound inbound_sample_config ''2-0'' inbound_sample None, es) \<in> set (fst (deploy_inbound ks_server ?S (inbound_redis_later inbound_sample) ?s'))"
    unfolding es by simp
  have t: "json_truthy (JStr ''i1'')" by simp
  from inbound_forwarded_once [OF redis_server_ks_server inbound_redis_sample_kept c refl g m inbound_sample_parse inbound_sample_simps(7) t] es
  show ?thesis by blast
qed

theorem inbound_retry_is_dropped_witness:
  "\<exists>e' s' es. NvEnqueue e' True \<in> set (inbound_trace (redis_inbound ks_server (\<lambda>k. k) inbound_redis_sample) inbound_sample_config ''1-0''
      inbound_sample (empty_ks, 0) None) \<and> ie_attempt e' = Num 1 \<and>
    s' = nw_srv (snd (inbound_run (redis_inbound ks_server (\<lambda>k. k) inbound_redis_sample) inbound_sample_config ''1-0'' inbound_sample (empty_ks, 0) None)) \<and>
    fst (deploy_inbound ks_server (redis_inbound ks_server (\<lambda>k. k) inbound_redis_sample) (inbound_redis_later e') s') =
      [(Goes_by 86400000, []), (RunInbound inbound_sample_config ''2-0'' e' None, es)] \<and>
    \<not> delivered_to_pods es inbound_sample_activity ''https://b.example/u/1''"
proof -
  let ?S = "redis_inbound ks_server (\<lambda>k. k) inbound_redis_sample" and ?e = "retry_envelope inbound_sample 1000000"
  let ?s' = "nw_srv (snd (inbound_run ?S inbound_sample_config ''1-0'' inbound_sample (empty_ks, 0) None))"
  obtain es where es: "fst (deploy_inbound ks_server ?S (inbound_redis_later ?e) ?s') =
      [(Goes_by 86400000, []), (RunInbound inbound_sample_config ''2-0'' ?e None, es)]" using inbound_redis_later_runs by blast
  have q: "NvEnqueue ?e True \<in> set (inbound_trace ?S inbound_sample_config ''1-0'' inbound_sample (empty_ks, 0) None)"
    using inbound_redis_first [of "''1-0''"] by auto
  have a: "ie_attempt ?e = Num 1" by (simp add: retry_envelope_def inbound_sample_simps)
  then have n: "?e \<noteq> inbound_sample" by (metis inbound_sample_simps(3) jsnum.inject zero_neq_one)
  have g: "int (gone_by (inbound_redis_later ?e)) < 1000 * INBOUND_GUARD_TTL_SECONDS"
    by (simp add: gone_by_def inbound_redis_later_def INBOUND_GUARD_TTL_SECONDS_def)
  have m: "(RunInbound inbound_sample_config ''2-0'' ?e None, es) \<in> set (fst (deploy_inbound ks_server ?S (inbound_redis_later ?e) ?s'))"
    unfolding es by simp
  have t: "json_truthy (JStr ''i1'')" by simp
  from inbound_retry_is_dropped [OF redis_server_ks_server inbound_redis_sample_kept q n inbound_sample_parse inbound_sample_simps(7) t refl g m refl] es q a
  show ?thesis by blast
qed

end
