(* ===== verification/Followers_Digest.thy ===== *)
theory Followers_Digest
  imports Inbound_Activity Egress_Policy "HOL-Library.Word" "HOL-Library.Multiset"
begin

unbundle bit_operations_syntax

text \<open>
  FEP-8fcf in \<open>fedify-sidecar/src/federation/fep8fcf/\<close>: the digest of a set of followers (\<open>PartialFollowersDigest.ts\<close>) and the
  \<open>Collection-Synchronization\<close> header (\<open>CollectionSyncHeader.ts\<close>).  SHA-256 is a parameter that gives the bytes of a hash.
\<close>

section \<open>The digest\<close>

text \<open>\<open>h[i] ?? 0\<close>\<close>

definition byte_at :: "8 word list \<Rightarrow> nat \<Rightarrow> 8 word" where
  "byte_at h i = (if i < length h then h ! i else 0)"

definition xor_bytes :: "8 word list \<Rightarrow> 8 word list \<Rightarrow> 8 word list" where
  "xor_bytes acc h = map (\<lambda>i. byte_at acc i XOR byte_at h i) [0..<32]"

definition digest_bytes :: "(string \<Rightarrow> 8 word list) \<Rightarrow> string list \<Rightarrow> 8 word list" where
  "digest_bytes sha ids = foldl (\<lambda>acc i. xor_bytes acc (sha i)) (replicate 32 0) ids"

definition nibble_char :: "nat \<Rightarrow> char" where
  "nibble_char n = ''0123456789abcdef'' ! n"

definition hex_byte :: "8 word \<Rightarrow> string" where
  "hex_byte b = [nibble_char (unat b div 16), nibble_char (unat b mod 16)]"

definition computePartialFollowersDigest :: "(string \<Rightarrow> 8 word list) \<Rightarrow> string list \<Rightarrow> string" where
  "computePartialFollowersDigest sha ids = concat (map hex_byte (digest_bytes sha ids))"

definition extractOrigin :: "url_lib \<Rightarrow> string \<Rightarrow> string option" where
  "extractOrigin parse uri = map_option u_origin (parse uri)"

definition filterFollowersByOrigin :: "url_lib \<Rightarrow> string list \<Rightarrow> string \<Rightarrow> string list" where
  "filterFollowersByOrigin parse ids targetOrigin =
     (case parse targetOrigin of
        None \<Rightarrow> []
      | Some o' \<Rightarrow> filter (\<lambda>i. case parse i of None \<Rightarrow> False | Some u \<Rightarrow> u_origin u = u_origin o') ids)"

section \<open>The header\<close>

record sync_params =
  sp_collectionId :: string
  sp_url :: string
  sp_digest :: string

text \<open>The match of \<open>(\w+)="([^"]*)"\<close> at the start of a text, and what follows it.\<close>

definition quoted_param :: "string \<Rightarrow> ((string \<times> string) \<times> string) option" where
  "quoted_param t =
     (let key = takeWhile word_char t
      in case dropWhile word_char t of
           CHR ''='' # CHR ''\"'' # r \<Rightarrow>
             (case dropWhile (\<lambda>c. c \<noteq> CHR ''\"'') r of
                _ # rest \<Rightarrow> if key = [] then None else Some ((key, takeWhile (\<lambda>c. c \<noteq> CHR ''\"'') r), rest)
              | [] \<Rightarrow> None)
         | _ \<Rightarrow> None)"

lemma quoted_param_shorter:
  assumes "quoted_param t = Some (kv, rest)"
  shows "length rest < length t"
proof -
  from assms obtain r c where r: "dropWhile word_char t = CHR ''='' # CHR ''\"'' # r" "dropWhile (\<lambda>c. c \<noteq> CHR ''\"'') r = c # rest"
    by (auto simp: quoted_param_def Let_def split: list.splits char.splits bool.splits if_splits)
  have "length (dropWhile word_char t) \<le> length t" "length (dropWhile (\<lambda>c. c \<noteq> CHR ''\"'') r) \<le> length r"
    by (simp_all add: length_dropWhile_le)
  with r show ?thesis by simp
qed

function quoted_params :: "string \<Rightarrow> (string \<times> string) list" where
  "quoted_params [] = []"
| "quoted_params (c # cs) =
     (case quoted_param (c # cs) of
        Some (kv, rest) \<Rightarrow> kv # quoted_params rest
      | None \<Rightarrow> quoted_params cs)"
  by pat_completeness auto
termination by (relation "measure length") (auto dest: quoted_param_shorter)

definition parseCollectionSyncHeader :: "string \<Rightarrow> sync_params option" where
  "parseCollectionSyncHeader headerValue =
     (let params = map_of (rev (quoted_params headerValue))
      in case (params ''collectionId'', params ''url'', params ''digest'') of
           (Some c, Some u, Some d) \<Rightarrow>
             if c = [] \<or> u = [] \<or> d = [] then None else Some \<lparr>sp_collectionId = c, sp_url = u, sp_digest = d\<rparr>
         | _ \<Rightarrow> None)"

definition serializeCollectionSyncHeader :: "sync_params \<Rightarrow> string" where
  "serializeCollectionSyncHeader p =
     ''collectionId='' @ CHR ''\"'' # sp_collectionId p @ CHR ''\"'' # '', url='' @ CHR ''\"'' # sp_url p @ CHR ''\"'' #
     '', digest='' @ CHR ''\"'' # sp_digest p @ [CHR ''\"'']"

definition in_quotes :: "string \<Rightarrow> string" where
  "in_quotes s = CHR ''\"'' # s @ [CHR ''\"'']"

datatype sync_validation = Sync_valid | Sync_invalid string

definition validateCollectionSyncHeader :: "url_lib \<Rightarrow> sync_params \<Rightarrow> string \<Rightarrow> sync_validation" where
  "validateCollectionSyncHeader parse p senderFollowersUri =
     (if sp_collectionId p \<noteq> senderFollowersUri
      then Sync_invalid (''collectionId '' @ in_quotes (sp_collectionId p) @ '' does not match sender followers collection '' @ in_quotes senderFollowersUri)
      else case (parse (sp_collectionId p), parse (sp_url p)) of
        (Some c, Some u) \<Rightarrow>
          if u_origin c \<noteq> u_origin u
          then Sync_invalid (''url origin '' @ in_quotes (u_origin u) @ '' does not match collectionId origin '' @ in_quotes (u_origin c))
          else Sync_valid
      | _ \<Rightarrow> Sync_invalid ''collectionId or url is not a valid URL'')"

definition extractFollowersUri :: "json \<Rightarrow> string \<Rightarrow> string" where
  "extractFollowersUri actorDocument actor =
     (case nonempty_text (json_get ''followers'' actorDocument) of
        Some f \<Rightarrow> f
      | None \<Rightarrow> (case string_of (case json_get ''followers'' actorDocument of Some f \<Rightarrow> json_get ''id'' f | None \<Rightarrow> None) of
            Some i \<Rightarrow> i
          | None \<Rightarrow> actor @ ''/followers''))"

section \<open>What the digest says\<close>

lemma bit_xor_bytes: "length (xor_bytes acc h) = 32" "i < 32 \<Longrightarrow> byte_at (xor_bytes acc h) i = byte_at acc i XOR byte_at h i"
  by (simp_all add: xor_bytes_def byte_at_def)

lemma foldl_digest_bits:
  assumes "i < 32"
  shows "bit (byte_at (foldl (\<lambda>acc i. xor_bytes acc (sha i)) acc ids) i) j \<longleftrightarrow>
    bit (byte_at acc i) j \<noteq> odd (length (filter (\<lambda>x. bit (byte_at (sha x) i) j) ids))"
proof (induction ids arbitrary: acc)
  case (Cons x ids)
  show ?case using Cons.IH [of "xor_bytes acc (sha x)"] assms by (auto simp: bit_xor_bytes bit_xor_iff)
qed simp

lemma digest_length: "length (digest_bytes sha ids) = 32"
  by (cases ids rule: rev_cases) (simp_all add: digest_bytes_def bit_xor_bytes)

lemma digest_bits:
  "i < 32 \<Longrightarrow> bit (digest_bytes sha ids ! i) j \<longleftrightarrow> odd (length (filter (\<lambda>x. bit (byte_at (sha x) i) j) ids))"
  using foldl_digest_bits [of i sha "replicate 32 0" ids j] digest_length [of sha ids]
  by (simp add: digest_bytes_def byte_at_def)

lemma nibble_char_inj: "a < 16 \<Longrightarrow> b < 16 \<Longrightarrow> nibble_char a = nibble_char b \<Longrightarrow> a = b"
proof -
  have "distinct ''0123456789abcdef''" "length ''0123456789abcdef'' = 16" by simp_all
  then show "a < 16 \<Longrightarrow> b < 16 \<Longrightarrow> nibble_char a = nibble_char b \<Longrightarrow> a = b"
    unfolding nibble_char_def by (metis nth_eq_iff_index_eq)
qed

lemma hex_byte_inj: "hex_byte a = hex_byte b \<longleftrightarrow> a = b"
proof
  assume h: "hex_byte a = hex_byte b"
  have "unat a < 256" "unat b < 256" using unsigned_less [of a] unsigned_less [of b] by simp_all
  then have l: "unat a div 16 < 16" "unat b div 16 < 16" by auto
  have "unat a div 16 = unat b div 16" "unat a mod 16 = unat b mod 16"
    using h l by (auto simp: hex_byte_def intro: nibble_char_inj)
  then have "unat a = unat b" by (metis div_mult_mod_eq)
  then show "a = b" by (rule unsigned_word_eqI)
qed simp

lemma concat_hex_inj:
  "length xs = length ys \<Longrightarrow> concat (map hex_byte xs) = concat (map hex_byte ys) \<longleftrightarrow> xs = ys"
proof (induction xs ys rule: list_induct2)
  case (Cons x xs y ys)
  have "length (hex_byte x) = length (hex_byte y)" by (simp add: hex_byte_def)
  with Cons show ?case by (simp add: hex_byte_inj)
qed simp

lemma digest_eq: "computePartialFollowersDigest sha xs = computePartialFollowersDigest sha ys \<longleftrightarrow> digest_bytes sha xs = digest_bytes sha ys"
  by (simp add: computePartialFollowersDigest_def concat_hex_inj digest_length)

lemma filter_parity:
  assumes "\<And>x. even (count_list xs x) = even (count_list ys x)"
  shows "odd (length (filter P xs)) = odd (length (filter P ys))"
proof -
  let ?A = "set xs \<union> set ys"
  have len: "length (filter P zs) = (\<Sum>x\<in>?A. if P x then count_list zs x else 0)" if "set zs \<subseteq> ?A" for zs
    using that
  proof (induction zs)
    case (Cons z zs)
    then have z: "z \<in> ?A" and zs: "length (filter P zs) = (\<Sum>x\<in>?A. if P x then count_list zs x else 0)" by auto
    have "(\<Sum>x\<in>?A. if P x then count_list (z # zs) x else 0) =
        (\<Sum>x\<in>?A. (if P x then count_list zs x else 0) + (if x = z \<and> P x then 1 else 0))"
      by (intro sum.cong) auto
    also have "\<dots> = (\<Sum>x\<in>?A. if P x then count_list zs x else 0) + (\<Sum>x\<in>?A. if x = z \<and> P x then 1 else 0)" by (simp add: sum.distrib)
    also have "(\<Sum>x\<in>?A. if x = z \<and> P x then 1 else 0) = (if P z then 1 else 0 :: nat)"
      using z by (cases "P z") (simp_all add: sum.delta' cong: conj_cong)
    finally show ?case using zs by simp
  qed simp
  have "(\<Sum>x\<in>B. if P x then count_list xs x else 0) mod 2 = (\<Sum>x\<in>B. if P x then count_list ys x else 0) mod 2" if "finite B" for B
    using that
  proof (induction B)
    case (insert b B)
    have "count_list xs b mod 2 = count_list ys b mod 2" using assms [of b] by (metis even_iff_mod_2_eq_zero not_mod_2_eq_1_eq_0)
    with insert show ?case by (auto intro: mod_add_cong)
  qed simp
  then have "length (filter P xs) mod 2 = length (filter P ys) mod 2" using len [of xs] len [of ys] by simp
  then show ?thesis by (simp add: odd_iff_mod_2_eq_one)
qed

lemma digest_same:
  assumes "\<And>x. even (count_list us x) = even (count_list vs x)"
  shows "digest_bytes sha us = digest_bytes sha vs"
proof (rule nth_equalityI)
  show "length (digest_bytes sha us) = length (digest_bytes sha vs)" by (simp only: digest_length)
  fix i assume "i < length (digest_bytes sha us)"
  then have i: "i < 32" by (simp only: digest_length)
  show "digest_bytes sha us ! i = digest_bytes sha vs ! i"
    by (rule bit_word_eqI) (simp only: digest_bits [OF i] filter_parity [OF assms])
qed

text \<open>What the digest of a followers collection tells: lists in which every follower occurs the same number of times modulo two have the same digest,
  so neither order nor pairs of duplicates show; and one follower more or less shows unless its hash is zero.  Two equal entries hence cancel: a
  follower that is listed twice counts as none.\<close>
theorem followers_digest_parity:
  assumes "\<And>x. even (count_list xs x) = even (count_list ys x)"
  shows "computePartialFollowersDigest sha xs = computePartialFollowersDigest sha ys \<and>
    (computePartialFollowersDigest sha (f # xs) = computePartialFollowersDigest sha ys \<longleftrightarrow> (\<forall>i<32. byte_at (sha f) i = 0)) \<and>
    computePartialFollowersDigest sha (f # f # xs) = computePartialFollowersDigest sha ys"
proof -
  have one: "digest_bytes sha (f # xs) = digest_bytes sha xs \<longleftrightarrow> (\<forall>i<32. byte_at (sha f) i = 0)"
  proof
    assume eq: "digest_bytes sha (f # xs) = digest_bytes sha xs"
    have "\<not> bit (byte_at (sha f) i) j" if "i < 32" for i j
    proof -
      let ?P = "\<lambda>x. bit (byte_at (sha x) i) j"
      have "odd (length (filter ?P (f # xs))) = odd (length (filter ?P xs))" by (simp only: digest_bits [OF that, symmetric] eq)
      then show ?thesis by (cases "?P f") simp_all
    qed
    then show "\<forall>i<32. byte_at (sha f) i = 0" by (intro allI impI bit_word_eqI) simp
  next
    assume z: "\<forall>i<32. byte_at (sha f) i = 0"
    show "digest_bytes sha (f # xs) = digest_bytes sha xs"
    proof (rule nth_equalityI)
      show "length (digest_bytes sha (f # xs)) = length (digest_bytes sha xs)" by (simp only: digest_length)
      fix i assume "i < length (digest_bytes sha (f # xs))"
      then have i: "i < 32" by (simp only: digest_length)
      with z show "digest_bytes sha (f # xs) ! i = digest_bytes sha xs ! i" by (intro bit_word_eqI) (simp add: digest_bits [OF i])
    qed
  qed
  have "even (count_list (f # f # xs) x) = even (count_list ys x)" for x using assms [of x] by simp
  then have "digest_bytes sha (f # f # xs) = digest_bytes sha ys" by (rule digest_same)
  with one digest_same [OF assms] show ?thesis by (simp add: digest_eq)
qed


theorem followers_digest_parity_witness:
  "computePartialFollowersDigest (\<lambda>s. replicate 32 (of_nat (length s))) [''a'', ''bb''] =
     computePartialFollowersDigest (\<lambda>s. replicate 32 (of_nat (length s))) [''bb'', ''a''] \<and>
   computePartialFollowersDigest (\<lambda>s. replicate 32 (of_nat (length s))) [''ccc'', ''a'', ''bb''] \<noteq>
     computePartialFollowersDigest (\<lambda>s. replicate 32 (of_nat (length s))) [''bb'', ''a'']"
proof -
  let ?sha = "\<lambda>s :: string. replicate 32 (of_nat (length s)) :: 8 word list"
  have p: "even (count_list [''a'', ''bb''] x) = even (count_list [''bb'', ''a''] x)" for x by auto
  have "byte_at (?sha ''ccc'') 0 \<noteq> 0" by (simp add: byte_at_def)
  then have "\<not> (\<forall>i<32. byte_at (?sha ''ccc'') i = 0)" by (metis zero_less_numeral)
  with followers_digest_parity [OF p, of ?sha "''ccc''"] show ?thesis by blast
qed

lemma digest_of_permutation:
  assumes "distinct xs" and "distinct ys" and "set xs = set ys"
  shows "computePartialFollowersDigest sha xs = computePartialFollowersDigest sha ys"
proof -
  have "count_list xs x = count_list ys x" for x using assms by (metis count_list_0_iff distinct_count_atmost_1 count_mset mset_set_set)
  then have "digest_bytes sha xs = digest_bytes sha ys" by (intro digest_same) simp
  then show ?thesis by (simp add: digest_eq)
qed

section \<open>What the header says\<close>

lemma quoted_param_found:
  assumes "key \<noteq> []" and "list_all word_char key" and "CHR ''\"'' \<notin> set v"
  shows "quoted_param (key @ CHR ''='' # CHR ''\"'' # v @ CHR ''\"'' # r) = Some ((key, v), r)"
proof -
  have t: "list_all P xs \<Longrightarrow> \<not> P c \<Longrightarrow> takeWhile P (xs @ c # r) = xs \<and> dropWhile P (xs @ c # r) = c # r" for P :: "char \<Rightarrow> bool" and xs c r
    by (induction xs) auto
  have k: "takeWhile word_char (key @ CHR ''='' # CHR ''\"'' # v @ CHR ''\"'' # r) = key"
    "dropWhile word_char (key @ CHR ''='' # CHR ''\"'' # v @ CHR ''\"'' # r) = CHR ''='' # CHR ''\"'' # v @ CHR ''\"'' # r"
    using t [OF assms(2), of "CHR ''=''"] by (auto simp: word_char_def)
  have "list_all (\<lambda>c. c \<noteq> CHR ''\"'') v" using assms(3) by (auto simp: list_all_iff)
  from t [OF this, of "CHR ''\"''" r]
  have v: "takeWhile (\<lambda>c. c \<noteq> CHR ''\"'') (v @ CHR ''\"'' # r) = v" "dropWhile (\<lambda>c. c \<noteq> CHR ''\"'') (v @ CHR ''\"'' # r) = CHR ''\"'' # r"
    by auto
  show ?thesis using assms(1) k v by (simp add: quoted_param_def)
qed

lemma quoted_params_step: "quoted_param t = Some (kv, r) \<Longrightarrow> quoted_params t = kv # quoted_params r"
  by (cases t) (auto simp: quoted_param_def Let_def)

lemma quoted_params_skip: "quoted_params (CHR '','' # t) = quoted_params t" "quoted_params (CHR '' '' # t) = quoted_params t"
  by (simp_all add: quoted_param_def word_char_def)

declare quoted_params.simps(2) [simp del]

text \<open>A header that can be written: no field is empty or contains a quote.\<close>

definition writable :: "sync_params \<Rightarrow> bool" where
  "writable p \<longleftrightarrow> (\<forall>s \<in> {sp_collectionId p, sp_url p, sp_digest p}. s \<noteq> [] \<and> CHR ''\"'' \<notin> set s)"

lemma header_roundtrip:
  assumes "writable p"
  shows "parseCollectionSyncHeader (serializeCollectionSyncHeader p) = Some p"
proof -
  have q: "CHR ''\"'' \<notin> set (sp_collectionId p)" "CHR ''\"'' \<notin> set (sp_url p)" "CHR ''\"'' \<notin> set (sp_digest p)"
    "sp_collectionId p \<noteq> []" "sp_url p \<noteq> []" "sp_digest p \<noteq> []" using assms by (simp_all add: writable_def)
  have w: "list_all word_char ''collectionId''" "list_all word_char ''url''" "list_all word_char ''digest''"
    by (simp_all add: word_char_def)
  note step = quoted_params_step [OF quoted_param_found]
  have "quoted_params (serializeCollectionSyncHeader p) =
      [(''collectionId'', sp_collectionId p), (''url'', sp_url p), (''digest'', sp_digest p)]"
    using step [OF _ w(1) q(1)] step [OF _ w(2) q(2)] step [OF _ w(3) q(3), of "[]"]
    by (simp add: serializeCollectionSyncHeader_def quoted_params_skip)
  with q(4-6) show ?thesis by (simp add: parseCollectionSyncHeader_def)
qed

text \<open>The receiver reads a \<open>Collection-Synchronization\<close> header as the sender wrote it, and what the validation accepts is about the followers
  collection of the sender and at its origin: parsing inverts printing for fields that are not empty and contain no quote, and a header is
  valid exactly when its collection is the given one and both URLs parse and have one origin.\<close>
theorem sync_header_roundtrip:
  assumes "writable p"
  shows "parseCollectionSyncHeader (serializeCollectionSyncHeader p) = Some p \<and>
    (validateCollectionSyncHeader parse p f = Sync_valid \<longleftrightarrow>
       sp_collectionId p = f \<and> (\<exists>o'. extractOrigin parse f = Some o' \<and> extractOrigin parse (sp_url p) = Some o'))"
  using header_roundtrip [OF assms]
  by (auto simp: validateCollectionSyncHeader_def extractOrigin_def split: option.splits)

theorem sync_header_roundtrip_witness:
  "parseCollectionSyncHeader (serializeCollectionSyncHeader \<lparr>sp_collectionId = ''https://a.example/u/f'', sp_url = ''https://a.example/s'', sp_digest = ''00''\<rparr>) =
     Some \<lparr>sp_collectionId = ''https://a.example/u/f'', sp_url = ''https://a.example/s'', sp_digest = ''00''\<rparr>"
proof -
  have "writable \<lparr>sp_collectionId = ''https://a.example/u/f'', sp_url = ''https://a.example/s'', sp_digest = ''00''\<rparr>" by (simp add: writable_def)
  from sync_header_roundtrip [OF this] show ?thesis by blast
qed

end
