(* ===== verification/Followers_Sync.thy ===== *)
theory Followers_Sync
  imports Followers_Digest Outbound_Worker Origin_Worker
begin

text \<open>
  The followers synchronisation of FEP-8fcf: the client of the ActivityPods authority (\<open>FollowersSyncActivityPodsClient.ts\<close>) and both
  sides of the protocol (\<open>FollowersSyncService.ts\<close>) of \<open>fedify-sidecar/src/federation/fep8fcf/\<close>.  HTTP, signing, the cache and the
  clean-up of the host are services that may answer or fail in any way; the trace records the calls, newest first.  The clean-up callbacks are
  started in the order of the list; they do not depend on each other, and that several run at a time is not modelled.
\<close>

section \<open>Messages, services and configuration\<close>

record follower_record =
  fo_actorUri :: string
  fo_identifier :: string

text \<open>\<open>FollowersSyncAuthorityError\<close> with its code and status.\<close>

record authority_error =
  ae_code :: string
  ae_status :: "int option"

record fs_response =
  fp_status :: int
  fp_chunks :: "string list"
  fp_failure :: "string option"

record fs_request =
  fq_url :: string
  fq_headers :: "(string \<times> string) list"

record 's fs_services =
  fs_now :: "'s \<Rightarrow> int \<times> 's"
  fs_authority :: "fs_request \<Rightarrow> ('s, string, fs_response) eio"
  fs_unfollow :: "string \<Rightarrow> string \<Rightarrow> ('s, string, int) eio"
  fs_get :: "(string \<Rightarrow> ('s, string, string option) eio) option"
  fs_set :: "string \<Rightarrow> string \<Rightarrow> jsnum \<Rightarrow> ('s, string, unit) eio"
  fs_sign :: "string \<Rightarrow> string \<Rightarrow> ('s, string, (string \<times> string) option) eio"
  fs_fetch :: "fs_request \<Rightarrow> ('s, string, fs_response) eio"
  fs_stale :: "(string \<Rightarrow> string \<Rightarrow> ('s, string, unit) eio) option"
  fs_parse :: url_lib
  fs_print :: "url \<Rightarrow> string"
  fs_sha :: "string \<Rightarrow> 8 word list"
  fs_uri :: "string \<Rightarrow> string"
  fs_utf8 :: "string \<Rightarrow> string"
  fs_bytes :: "string \<Rightarrow> int"

text \<open>\<open>fs_get\<close> is \<open>None\<close> without a cache; \<open>fs_uri\<close> is \<open>encodeURIComponent\<close>, \<open>fs_utf8\<close> decodes a body, \<open>fs_bytes\<close> is \<open>Buffer.byteLength\<close>.\<close>

record fs_config =
  fc_domain :: string
  fc_baseUrl :: string
  fc_token :: string
  fc_userAgent :: string
  fc_digestCacheTtlSeconds :: jsnum
  fc_maxRemoteCollectionBytes :: int
  fc_maxRemoteCollectionItems :: int
  fc_maxRemoteFollowerUriBytes :: int
  fc_staleCleanupConcurrency :: int
  fc_maxResponseBytes :: int
  fc_maxCollectionItems :: int
  fc_maxUriBytes :: int
  fc_maxIdentifierBytes :: int

record fs_options =
  fx_domain :: string
  fx_activityPodsUrl :: string
  fx_activityPodsToken :: string
  fx_userAgent :: "string option"
  fx_digestCacheTtlSeconds :: "jsnum option"
  fx_maxRemoteCollectionBytes :: "jsnum option"
  fx_maxRemoteCollectionItems :: "jsnum option"
  fx_maxRemoteFollowerUriBytes :: "jsnum option"
  fx_staleCleanupConcurrency :: "jsnum option"

definition clampInteger :: "jsnum option \<Rightarrow> int \<Rightarrow> int \<Rightarrow> int \<Rightarrow> int" where
  "clampInteger v fallback lo hi = (case v of Some (Num n) \<Rightarrow> max lo (min hi n) | _ \<Rightarrow> fallback)"

definition web_url :: "url \<Rightarrow> bool" where
  "web_url u \<longleftrightarrow> (u_protocol u = ''http:'' \<or> u_protocol u = ''https:'') \<and> u_username u = [] \<and> u_password u = []"

definition parseAuthorityBaseUrl :: "url_lib \<Rightarrow> (url \<Rightarrow> string) \<Rightarrow> string \<Rightarrow> string + string" where
  "parseAuthorityBaseUrl parse print v =
     (case parse (js_trim v) of
        None \<Rightarrow> Inl ''Followers sync requires a valid ActivityPods URL''
      | Some u \<Rightarrow>
          if \<not> web_url u then Inl ''Followers sync ActivityPods URL must be credential-free HTTP(S)''
          else Inr (without_slash (print (u\<lparr>u_hash := [], u_search := []\<rparr>))))"

definition createFollowersSyncService :: "url_lib \<Rightarrow> (url \<Rightarrow> string) \<Rightarrow> fs_options \<Rightarrow> string + fs_config" where
  "createFollowersSyncService parse print x =
     (case parseAuthorityBaseUrl parse print (fx_activityPodsUrl x) of
        Inl err \<Rightarrow> Inl err
      | Inr base \<Rightarrow>
          if js_trim (fx_activityPodsToken x) = [] then Inl ''Followers sync requires a non-empty ActivityPods bearer token''
          else Inr
            \<lparr>fc_domain = fx_domain x, fc_baseUrl = base, fc_token = js_trim (fx_activityPodsToken x),
             fc_userAgent = or_else (fx_userAgent x) ''Fedify-Sidecar/5.0 (ActivityPods)'',
             fc_digestCacheTtlSeconds = or_else (fx_digestCacheTtlSeconds x) (Num 300),
             fc_maxRemoteCollectionBytes = clampInteger (fx_maxRemoteCollectionBytes x) (2 * 1024 * 1024) (64 * 1024) (32 * 1024 * 1024),
             fc_maxRemoteCollectionItems = clampInteger (fx_maxRemoteCollectionItems x) 10000 1 100000,
             fc_maxRemoteFollowerUriBytes = clampInteger (fx_maxRemoteFollowerUriBytes x) 4096 256 (16 * 1024),
             fc_staleCleanupConcurrency = clampInteger (fx_staleCleanupConcurrency x) 8 1 64,
             fc_maxResponseBytes = 2 * 1024 * 1024, fc_maxCollectionItems = 10000, fc_maxUriBytes = 4096, fc_maxIdentifierBytes = 512\<rparr>)"

section \<open>Calls\<close>

datatype fs_event =
    FvTime int
  | FvAuthority string "fs_response option"
  | FvUnfollow string string "int option"
  | FvGet string "string option option"
  | FvSet string string bool
  | FvSign string string "(string \<times> string) option option"
  | FvFetch string "fs_response option"
  | FvStale string string bool

record 's fs_world =
  fw_srv :: 's
  fw_trace :: "fs_event list"

definition fcalled :: "(string + 'a \<Rightarrow> fs_event) \<Rightarrow> ('s, string, 'a) eio \<Rightarrow> ('s fs_world, string, 'a) eio" where
  "fcalled ev m w = (case m (fw_srv w) of (r, s) \<Rightarrow> (r, \<lparr>fw_srv = s, fw_trace = ev r # fw_trace w\<rparr>))"

definition fclock :: "'s fs_services \<Rightarrow> ('s fs_world, string, int) eio" where
  "fclock S w = (case fs_now S (fw_srv w) of (t, s) \<Rightarrow> (Inr t, \<lparr>fw_srv = s, fw_trace = FvTime t # fw_trace w\<rparr>))"

definition f_sum :: "'e + 'a \<Rightarrow> ('w, 'e, 'a) eio" where
  "f_sum x = (case x of Inl e \<Rightarrow> io_throw e | Inr a \<Rightarrow> io_return a)"

definition authorityError :: "string \<Rightarrow> int option \<Rightarrow> authority_error" where
  "authorityError code status = \<lparr>ae_code = code, ae_status = status\<rparr>"

section \<open>The authority\<close>

definition readBoundedJsonObject :: "(string \<Rightarrow> string) \<Rightarrow> fs_response \<Rightarrow> int \<Rightarrow> authority_error + json" where
  "readBoundedJsonObject utf8 r byteLimit =
     (case read_body_chunks (nat byteLimit) (fp_chunks r) (fp_failure r) [] of
        Inl err \<Rightarrow> Inl (authorityError ''response_read_failed'' None)
      | Inr None \<Rightarrow> Inl (authorityError ''response_too_large'' None)
      | Inr (Some bytes) \<Rightarrow> (case json_parse (utf8 bytes) of
            None \<Rightarrow> Inl (authorityError ''invalid_json'' None)
          | Some doc \<Rightarrow> if isRecord doc then Inr doc else Inl (authorityError ''invalid_response'' None)))"

definition getAuthorityJson :: "'s fs_services \<Rightarrow> fs_config \<Rightarrow> string \<Rightarrow> ('s fs_world, authority_error, json) eio" where
  "getAuthorityJson S C url =
     (let q = \<lparr>fq_url = url, fq_headers = [(''authorization'', ''Bearer '' @ fc_token C), (''accept'', ''application/json'')]\<rparr>
      in io_bind
           (io_catch (fcalled (\<lambda>r. FvAuthority url (reply r)) (fs_authority S q)) (\<lambda>err. io_throw (authorityError ''request_failed'' None)))
           (\<lambda>resp.
             if fp_status resp < 200 \<or> fp_status resp \<ge> 300
             then io_throw (authorityError
               (if fp_status resp = 404 \<or> fp_status resp = 501 then ''authority_unavailable'' else ''authority_http_error'') (Some (fp_status resp)))
             else f_sum (readBoundedJsonObject (fs_utf8 S) resp (fc_maxResponseBytes C))))"

definition normalizeServerBaseUri :: "url_lib \<Rightarrow> string \<Rightarrow> string option" where
  "normalizeServerBaseUri parse v =
     (if v = [] then None
      else case parse v of None \<Rightarrow> None | Some u \<Rightarrow> if web_url u then Some (u_origin u @ ''/'') else None)"

definition normalizeHttpUri :: "'s fs_services \<Rightarrow> json option \<Rightarrow> int \<Rightarrow> string option" where
  "normalizeHttpUri S v byteLimit =
     (case string_of v of
        None \<Rightarrow> None
      | Some s \<Rightarrow>
          if s = [] \<or> fs_bytes S s > byteLimit then None
          else (case fs_parse S s of None \<Rightarrow> None | Some u \<Rightarrow> if web_url u then Some (fs_print S u) else None))"

definition normalizeIdentifier :: "'s fs_services \<Rightarrow> json option \<Rightarrow> int \<Rightarrow> string option" where
  "normalizeIdentifier S v byteLimit =
     (case trimmed_text v of None \<Rightarrow> None | Some t \<Rightarrow> if fs_bytes S t > byteLimit then None else Some t)"

text \<open>\<open>map\<close> with a function that throws.\<close>

fun all_or_none :: "('a \<Rightarrow> 'b option) \<Rightarrow> 'a list \<Rightarrow> 'b list option" where
  "all_or_none f [] = Some []"
| "all_or_none f (x # xs) =
     (case f x of None \<Rightarrow> None | Some y \<Rightarrow> (case all_or_none f xs of None \<Rightarrow> None | Some ys \<Rightarrow> Some (y # ys)))"

definition read_entries :: "json option \<Rightarrow> int \<Rightarrow> (json \<Rightarrow> 'b option) \<Rightarrow> authority_error + 'b list" where
  "read_entries v maxItems entry =
     (case v of
        Some (JArr xs) \<Rightarrow>
          if int (length xs) > maxItems then Inl (authorityError ''collection_too_large'' None)
          else (case all_or_none entry xs of None \<Rightarrow> Inl (authorityError ''invalid_response'' None) | Some ys \<Rightarrow> Inr ys)
      | _ \<Rightarrow> Inl (authorityError ''invalid_response'' None))"

definition getPartialFollowers ::
  "'s fs_services \<Rightarrow> fs_config \<Rightarrow> string \<Rightarrow> string \<Rightarrow> ('s fs_world, authority_error, string list) eio" where
  "getPartialFollowers S C identifier serverBaseUriValue =
     (case normalizeServerBaseUri (fs_parse S) serverBaseUriValue of
        None \<Rightarrow> io_throw (authorityError ''invalid_server_base_uri'' None)
      | Some base \<Rightarrow>
          io_bind (getAuthorityJson S C (fc_baseUrl C @ ''/api/internal/followers-sync-v2/partial-collection?actorIdentifier='' @
                     fs_uri S identifier @ ''&baseUri='' @ fs_uri S base)) (\<lambda>doc.
            f_sum (read_entries (json_get ''followers'' doc) (fc_maxCollectionItems C) (\<lambda>v. normalizeHttpUri S (Some v) (fc_maxUriBytes C)))))"

definition follower_entry :: "'s fs_services \<Rightarrow> fs_config \<Rightarrow> json \<Rightarrow> follower_record option" where
  "follower_entry S C v =
     (case (normalizeHttpUri S (json_get ''actorUri'' v) (fc_maxUriBytes C), normalizeIdentifier S (json_get ''identifier'' v) (fc_maxIdentifierBytes C)) of
        (Some a, Some i) \<Rightarrow> if a = [] then None else Some \<lparr>fo_actorUri = a, fo_identifier = i\<rparr>
      | _ \<Rightarrow> None)"

definition getLocalFollowersOfRemote ::
  "'s fs_services \<Rightarrow> fs_config \<Rightarrow> string \<Rightarrow> ('s fs_world, authority_error, follower_record list) eio" where
  "getLocalFollowersOfRemote S C remoteActorUri =
     io_bind (getAuthorityJson S C (fc_baseUrl C @ ''/api/internal/followers-sync/local-followers-of-remote?remoteActorUri='' @
                fs_uri S remoteActorUri)) (\<lambda>doc.
       f_sum (read_entries (json_get ''localActors'' doc) (fc_maxCollectionItems C) (follower_entry S C)))"

definition removeLocalFollow :: "'s fs_services \<Rightarrow> string \<Rightarrow> string \<Rightarrow> ('s fs_world, 'e, bool) eio" where
  "removeLocalFollow S identifier remoteActorUri =
     io_catch
       (io_bind (fcalled (\<lambda>r. FvUnfollow identifier remoteActorUri (reply r)) (fs_unfollow S identifier remoteActorUri))
         (\<lambda>status. io_return (status \<ge> 200 \<and> status < 300)))
       (\<lambda>err. io_return False)"

section \<open>The sender\<close>

definition digest_cache_key :: "'s fs_services \<Rightarrow> string \<Rightarrow> string \<Rightarrow> string" where
  "digest_cache_key S identifier targetOrigin = ''fep8fcf:digest:'' @ identifier @ '':'' @ fs_uri S targetOrigin"

text \<open>What the cache gives, if anything: \<open>Some d\<close> with the property \<open>digest\<close>, which may be missing.\<close>

definition cached_digest ::
  "'s fs_services \<Rightarrow> string \<Rightarrow> ('s fs_world, 'e, json option option) eio" where
  "cached_digest S key =
     (case fs_get S of
        None \<Rightarrow> io_return None
      | Some f \<Rightarrow>
          io_catch
            (io_bind (fcalled (\<lambda>r. FvGet key (reply r)) (f key)) (\<lambda>raw.
              case raw of
                None \<Rightarrow> io_return None
              | Some t \<Rightarrow>
                  if t = [] then io_return None
                  else (case json_parse t of
                    None \<Rightarrow> io_throw ''Unexpected token''
                  | Some entry \<Rightarrow>
                      if entry = JNull then io_throw ''Cannot read properties of null'' else io_return (Some (json_get ''digest'' entry)))))
            (\<lambda>err. io_return None))"

definition store_digest :: "'s fs_services \<Rightarrow> fs_config \<Rightarrow> string \<Rightarrow> string \<Rightarrow> ('s fs_world, 'e, unit) eio" where
  "store_digest S C key digest =
     (case fs_get S of
        None \<Rightarrow> io_return ()
      | Some _ \<Rightarrow>
          io_catch
            (io_bind (fclock S) (\<lambda>now.
              let v = json_stringify (JObj [(''digest'', JStr digest), (''computedAt'', JNum now)])
              in fcalled (\<lambda>r. FvSet key v (reply r \<noteq> None)) (fs_set S key v (fc_digestCacheTtlSeconds C))))
            (\<lambda>err. io_return ()))"

definition resolveDigest ::
  "'s fs_services \<Rightarrow> fs_config \<Rightarrow> string \<Rightarrow> string \<Rightarrow> ('s fs_world, authority_error, json option) eio" where
  "resolveDigest S C identifier targetOrigin =
     (let key = digest_cache_key S identifier targetOrigin
      in io_bind (cached_digest S key) (\<lambda>cached.
           case cached of
             Some d \<Rightarrow> io_return d
           | None \<Rightarrow>
               io_bind (getPartialFollowers S C identifier targetOrigin) (\<lambda>followers.
                 let digest = computePartialFollowersDigest (fs_sha S) followers
                 in io_then (store_digest S C key digest) (io_return (Some (JStr digest))))))"

text \<open>\<open>`${digest}`\<close>\<close>

definition digest_text :: "json option \<Rightarrow> string" where
  "digest_text d = (case d of None \<Rightarrow> ''undefined'' | Some v \<Rightarrow> js_String v)"

definition sync_url :: "'s fs_services \<Rightarrow> fs_config \<Rightarrow> string \<Rightarrow> string" where
  "sync_url S C identifier = ''https://'' @ fc_domain C @ ''/users/'' @ fs_uri S identifier @ ''/followers_synchronization''"

definition buildSenderHeader ::
  "'s fs_services \<Rightarrow> fs_config \<Rightarrow> string \<Rightarrow> string \<Rightarrow> string \<Rightarrow> ('s fs_world, string, string option) eio" where
  "buildSenderHeader S C identifier followersUri targetInboxUrl =
     io_catch
       (case extractOrigin (fs_parse S) targetInboxUrl of
          None \<Rightarrow> io_return None
        | Some targetOrigin \<Rightarrow>
            if targetOrigin = [] then io_return None
            else io_bind (resolveDigest S C identifier targetOrigin) (\<lambda>digest.
              if digest = Some JNull then io_return None
              else io_return (Some (serializeCollectionSyncHeader
                \<lparr>sp_collectionId = followersUri, sp_url = sync_url S C identifier, sp_digest = digest_text digest\<rparr>))))
       (\<lambda>err. io_return None)"

section \<open>The receiver\<close>

definition remote_entry :: "'s fs_services \<Rightarrow> int \<Rightarrow> json \<Rightarrow> string option" where
  "remote_entry S maxUriBytes item =
     (case (case string_of (Some item) of Some s \<Rightarrow> Some s | None \<Rightarrow> string_of (json_get ''id'' item)) of
        None \<Rightarrow> None
      | Some uri \<Rightarrow>
          if uri = [] \<or> fs_bytes S uri > maxUriBytes then None
          else (case fs_parse S uri of
            None \<Rightarrow> None
          | Some u \<Rightarrow> if u_protocol u \<noteq> ''http:'' \<and> u_protocol u \<noteq> ''https:'' then None else Some uri))"

definition parseCompleteRemoteFollowersCollection :: "'s fs_services \<Rightarrow> json \<Rightarrow> int \<Rightarrow> int \<Rightarrow> string list option" where
  "parseCompleteRemoteFollowersCollection S doc maxItems maxUriBytes =
     (case nullish_or (json_get ''orderedItems'' doc) (json_get ''items'' doc) of
        Some (JArr items) \<Rightarrow> if int (length items) > maxItems then None else all_or_none (remote_entry S maxUriBytes) items
      | _ \<Rightarrow> None)"

definition read_collection :: "'s fs_services \<Rightarrow> fs_config \<Rightarrow> fs_response \<Rightarrow> string list option" where
  "read_collection S C resp =
     (if fp_status resp < 200 \<or> fp_status resp \<ge> 300 then None
      else case read_body_chunks (nat (fc_maxRemoteCollectionBytes C)) (fp_chunks resp) (fp_failure resp) [] of
        Inr (Some bytes) \<Rightarrow> (case json_parse (fs_utf8 S bytes) of
            Some doc \<Rightarrow>
              if isRecord doc
              then parseCompleteRemoteFollowersCollection S doc (fc_maxRemoteCollectionItems C) (fc_maxRemoteFollowerUriBytes C)
              else None
          | None \<Rightarrow> None)
      | _ \<Rightarrow> None)"

definition fetchRemotePartialCollection ::
  "'s fs_services \<Rightarrow> fs_config \<Rightarrow> string \<Rightarrow> string \<Rightarrow> ('s fs_world, 'e, string list option) eio" where
  "fetchRemotePartialCollection S C url signerActorUri =
     io_catch
       (io_bind (fcalled (\<lambda>r. FvSign signerActorUri url (reply r)) (fs_sign S signerActorUri url)) (\<lambda>signed.
          case signed of
            None \<Rightarrow> io_return None
          | Some (date, signature) \<Rightarrow> (case fs_parse S url of
                None \<Rightarrow> io_throw ''Invalid URL''
              | Some u \<Rightarrow>
                  (let q = \<lparr>fq_url = url, fq_headers = [(''accept'', ''application/activity+json, application/ld+json''), (''date'', date),
                         (''signature'', signature), (''host'', u_host u), (''user-agent'', fc_userAgent C)]\<rparr>
                   in io_bind (fcalled (\<lambda>r. FvFetch url (reply r)) (fs_fetch S q)) (\<lambda>resp. io_return (read_collection S C resp))))))
       (\<lambda>err. io_return None)"

text \<open>The entries of a JavaScript \<open>Set\<close> or the keys of a \<open>Map\<close>, in the order in which they were first added.\<close>

definition in_order :: "'a list \<Rightarrow> 'a list" where
  "in_order xs = rev (remdups (rev xs))"

definition local_uris :: "'s fs_services \<Rightarrow> fs_config \<Rightarrow> string list \<Rightarrow> string list" where
  "local_uris S C uris = in_order (filter (\<lambda>u. extractOrigin (fs_parse S) u = Some (''https://'' @ fc_domain C)) uris)"

definition local_map :: "follower_record list \<Rightarrow> (string \<times> follower_record) list" where
  "local_map fs = map (\<lambda>u. (u, the (map_of (rev (map (\<lambda>f. (fo_actorUri f, f)) fs)) u))) (in_order (map fo_actorUri fs))"

fun remove_all :: "'s fs_services \<Rightarrow> string \<Rightarrow> (string \<times> follower_record) list \<Rightarrow> ('s fs_world, 'e, nat) eio" where
  "remove_all S sender [] = io_return 0"
| "remove_all S sender ((u, f) # rest) =
     io_bind (removeLocalFollow S (fo_identifier f) sender) (\<lambda>removed.
       io_bind (remove_all S sender rest) (\<lambda>n. io_return (if removed then Suc n else n)))"

fun clean_up :: "(string \<Rightarrow> string \<Rightarrow> ('s, string, unit) eio) \<Rightarrow> string \<Rightarrow> string list \<Rightarrow> ('s fs_world, 'e, unit) eio" where
  "clean_up stale sender [] = io_return ()"
| "clean_up stale sender (u # rest) =
     io_then (io_catch (fcalled (\<lambda>r. FvStale u sender (reply r \<noteq> None)) (stale u sender)) (\<lambda>err. io_return ())) (clean_up stale sender rest)"

definition reconcile_followers ::
  "'s fs_services \<Rightarrow> fs_config \<Rightarrow> string \<Rightarrow> follower_record list \<Rightarrow> string list \<Rightarrow> ('s fs_world, 'e, unit) eio" where
  "reconcile_followers S C sender localFollowers remotePartialFollowers =
     (let remoteLocalUris = local_uris S C remotePartialFollowers; known = local_map localFollowers;
          staleUris = filter (\<lambda>u. u \<notin> fst ` set known) remoteLocalUris
      in io_then (remove_all S sender (filter (\<lambda>(u, f). u \<notin> set remoteLocalUris) known))
           (case fs_stale S of None \<Rightarrow> io_return () | Some stale \<Rightarrow> clean_up stale sender staleUris))"

definition processInboundSyncHeader ::
  "'s fs_services \<Rightarrow> fs_config \<Rightarrow> string \<Rightarrow> string \<Rightarrow> json \<Rightarrow> string \<Rightarrow> ('s fs_world, string, unit) eio" where
  "processInboundSyncHeader S C headerValue sender senderDoc localActorUri =
     io_catch
       (case parseCollectionSyncHeader headerValue of
          None \<Rightarrow> io_return ()
        | Some p \<Rightarrow>
            if validateCollectionSyncHeader (fs_parse S) p (extractFollowersUri senderDoc sender) \<noteq> Sync_valid then io_return ()
            else io_bind (getLocalFollowersOfRemote S C sender) (\<lambda>localFollowers.
              if computePartialFollowersDigest (fs_sha S) (map fo_actorUri localFollowers) = sp_digest p then io_return ()
              else io_bind (fetchRemotePartialCollection S C (sp_url p) localActorUri) (\<lambda>remote.
                case remote of None \<Rightarrow> io_return () | Some rs \<Rightarrow> reconcile_followers S C sender localFollowers rs)))
       (\<lambda>err :: authority_error. io_return ())"

end
