(* ===== verification/Followers_Properties.thy ===== *)
theory Followers_Properties
  imports Followers_Sync Webhook_Properties
begin

text \<open>
  What the followers synchronisation does: which follows it removes and which entries it asks to clean up, on what evidence, and when
  sender and receiver agree.
\<close>

section \<open>Effects\<close>

fun fs_effect :: "fs_event \<Rightarrow> (string \<times> string + string \<times> string) option" where
  "fs_effect (FvUnfollow i sender _) = Some (Inl (i, sender))"
| "fs_effect (FvStale u sender _) = Some (Inr (u, sender))"
| "fs_effect _ = None"

text \<open>The removals and clean-ups of a trace, oldest first.\<close>

definition effects :: "fs_event list \<Rightarrow> (string \<times> string + string \<times> string) list" where
  "effects es = rev (List.map_filter fs_effect es)"

lemma effects_simps [simp]:
  "effects [] = []" "effects (ev # es) = effects es @ (case fs_effect ev of None \<Rightarrow> [] | Some x \<Rightarrow> [x])"
  "effects (es @ es') = effects es' @ effects es"
  by (simp_all add: effects_def map_filter_simps split: option.split) (simp add: List.map_filter_def)

text \<open>A method that resolves, and adds to the trace calls with the given effects.\<close>

definition does :: "('s fs_world, 'e, 'a) eio \<Rightarrow> (string \<times> string + string \<times> string) list \<Rightarrow> bool" where
  "does m xs \<longleftrightarrow> (\<forall>w. \<exists>a s es. m w = (Inr a, \<lparr>fw_srv = s, fw_trace = es @ fw_trace w\<rparr>) \<and> effects es = xs)"

lemma followers_reply [simp]: "reply (Inl err) = None" "reply (Inr a) = Some a"
  by (simp_all add: reply_def)

lemma fcalled_run: "fcalled ev m w = (fst (m (fw_srv w)), \<lparr>fw_srv = snd (m (fw_srv w)), fw_trace = ev (fst (m (fw_srv w))) # fw_trace w\<rparr>)"
  by (simp add: fcalled_def split: prod.split)

lemma does_return: "does (io_return a) []"
  unfolding does_def
proof
  fix w :: "'a fs_world"
  show "\<exists>b s es. io_return a w = (Inr b, \<lparr>fw_srv = s, fw_trace = es @ fw_trace w\<rparr>) \<and> effects es = []"
    by (rule exI [of _ a], rule exI [of _ "fw_srv w"], rule exI [of _ "[]"]) (simp add: io_return_def)
qed

lemma does_bind:
  assumes "does m xs" and "\<And>a. does (f a) ys"
  shows "does (io_bind m f) (xs @ ys)"
  unfolding does_def
proof
  fix w
  obtain a s es where m: "m w = (Inr a, \<lparr>fw_srv = s, fw_trace = es @ fw_trace w\<rparr>)" "effects es = xs"
    using assms(1) unfolding does_def by blast
  obtain b s' es' where f: "f a \<lparr>fw_srv = s, fw_trace = es @ fw_trace w\<rparr> = (Inr b, \<lparr>fw_srv = s', fw_trace = es' @ es @ fw_trace w\<rparr>)" "effects es' = ys"
    using assms(2) [of a] unfolding does_def by (metis fs_world.select_convs(2))
  show "\<exists>b s es. io_bind m f w = (Inr b, \<lparr>fw_srv = s, fw_trace = es @ fw_trace w\<rparr>) \<and> effects es = xs @ ys"
    by (rule exI [of _ b], rule exI [of _ s'], rule exI [of _ "es' @ es"]) (simp add: io_bind_def m f)
qed

lemma does_bind_eq: "does m xs \<Longrightarrow> (\<And>a. does (f a) ys) \<Longrightarrow> zs = xs @ ys \<Longrightarrow> does (io_bind m f) zs"
  using does_bind by blast

lemma does_then_eq: "does m xs \<Longrightarrow> does n ys \<Longrightarrow> zs = xs @ ys \<Longrightarrow> does (io_then m n) zs"
  unfolding io_then_def by (rule does_bind_eq)

lemma does_catch:
  fixes m :: "('s fs_world, 'e, 'a) eio"
  assumes "\<And>w. \<exists>r s es. m w = (r, \<lparr>fw_srv = s, fw_trace = es @ fw_trace w\<rparr>) \<and> effects es = xs" and "\<And>e. \<exists>b. h e = io_return b"
  shows "does (io_catch m h) xs"
  unfolding does_def
proof
  fix w
  obtain r s es where m: "m w = (r, \<lparr>fw_srv = s, fw_trace = es @ fw_trace w\<rparr>)" "effects es = xs" using assms(1) by blast
  show "\<exists>a s es. io_catch m h w = (Inr a, \<lparr>fw_srv = s, fw_trace = es @ fw_trace w\<rparr>) \<and> effects es = xs"
  proof (cases r)
    case (Inl e)
    obtain b where "h e = io_return b" using assms(2) by blast
    with m Inl show ?thesis by (intro exI [of _ b] exI [of _ s] exI [of _ es]) (simp add: io_catch_def io_return_def)
  next
    case (Inr a)
    with m show ?thesis by (intro exI [of _ a] exI [of _ s] exI [of _ es]) (simp add: io_catch_def)
  qed
qed

lemma one_call:
  assumes "\<And>r. fs_effect (ev r) = Some x"
  shows "\<exists>r s es. fcalled ev m w = (r, \<lparr>fw_srv = s, fw_trace = es @ fw_trace w\<rparr>) \<and> effects es = [x]"
  by (rule exI [of _ "fst (m (fw_srv w))"], rule exI [of _ "snd (m (fw_srv w))"], rule exI [of _ "[ev (fst (m (fw_srv w)))]"])
     (simp add: fcalled_run assms)

lemma one_call_then:
  assumes "\<And>r. fs_effect (ev r) = Some x"
  shows "\<exists>r s es. io_bind (fcalled ev m) (\<lambda>a. io_return (f a)) w = (r, \<lparr>fw_srv = s, fw_trace = es @ fw_trace w\<rparr>) \<and> effects es = [x]"
proof -
  obtain r s es where c: "fcalled ev m w = (r, \<lparr>fw_srv = s, fw_trace = es @ fw_trace w\<rparr>)" "effects es = [x]" using one_call [of ev x m w] assms by blast
  then show ?thesis
    by (intro exI [of _ "case r of Inl e \<Rightarrow> Inl e | Inr a \<Rightarrow> Inr (f a)"] exI [of _ s] exI [of _ es])
       (simp add: io_bind_def io_return_def split: sum.split)
qed

lemma removeLocalFollow_does: "does (removeLocalFollow S i sender) [Inl (i, sender)]"
  unfolding removeLocalFollow_def by (rule does_catch [OF one_call_then]) auto

lemma remove_all_does: "does (remove_all S sender xs) (map (\<lambda>(u, f). Inl (fo_identifier f, sender)) xs)"
proof (induction xs)
  case (Cons x xs)
  obtain u f where x: "x = (u, f)" by fastforce
  show ?case
    unfolding x remove_all.simps
    by (rule does_bind_eq [OF removeLocalFollow_does does_bind_eq [OF Cons.IH does_return refl]]) simp
qed (simp add: does_return)

lemma clean_up_does: "does (clean_up stale sender us) (map (\<lambda>u. Inr (u, sender)) us)"
proof (induction us)
  case (Cons u us)
  have "does (io_catch (fcalled (\<lambda>r. FvStale u sender (reply r \<noteq> None)) (stale u sender)) (\<lambda>err. io_return ())) [Inr (u, sender)]"
    by (rule does_catch [OF one_call]) auto
  then show ?case unfolding clean_up.simps by (rule does_then_eq [OF _ Cons.IH]) simp
qed (simp add: does_return)

text \<open>What a reconciliation has to do.\<close>

definition unlisted :: "'s fs_services \<Rightarrow> fs_config \<Rightarrow> follower_record list \<Rightarrow> string list \<Rightarrow> (string \<times> follower_record) list" where
  "unlisted S C local remote = filter (\<lambda>(u, f). u \<notin> set (local_uris S C remote)) (local_map local)"

definition unknown :: "'s fs_services \<Rightarrow> fs_config \<Rightarrow> follower_record list \<Rightarrow> string list \<Rightarrow> string list" where
  "unknown S C local remote = filter (\<lambda>u. u \<notin> fo_actorUri ` set local) (local_uris S C remote)"

definition plan_of :: "'s fs_services \<Rightarrow> fs_config \<Rightarrow> string \<Rightarrow> follower_record list \<Rightarrow> string list \<Rightarrow> (string \<times> string + string \<times> string) list" where
  "plan_of S C sender local remote =
     map (\<lambda>(u, f). Inl (fo_identifier f, sender)) (unlisted S C local remote) @
     (if fs_stale S = None then [] else map (\<lambda>u. Inr (u, sender)) (unknown S C local remote))"

lemma set_in_order [simp]: "set (in_order xs) = set xs"
  by (simp add: in_order_def)

lemma distinct_in_order [simp]: "distinct (in_order xs)"
  by (simp add: in_order_def)

lemma local_map_keys: "fst ` set (local_map local) = fo_actorUri ` set local"
  by (force simp: local_map_def)

lemma reconcile_does: "does (reconcile_followers S C sender local remote) (plan_of S C sender local remote)"
proof -
  have "does (case fs_stale S of None \<Rightarrow> io_return () | Some stale \<Rightarrow> clean_up stale sender (unknown S C local remote))
      (if fs_stale S = None then [] else map (\<lambda>u. Inr (u, sender)) (unknown S C local remote))"
    by (cases "fs_stale S") (auto intro: does_return clean_up_does)
  from does_then_eq [OF remove_all_does this refl] show ?thesis
    unfolding reconcile_followers_def plan_of_def Let_def unlisted_def unknown_def local_map_keys .
qed

section \<open>The evidence\<close>

text \<open>What an answer of the authority says of the local followers.\<close>

definition local_answer :: "'s fs_services \<Rightarrow> fs_config \<Rightarrow> fs_response option \<Rightarrow> follower_record list option" where
  "local_answer S C x =
     (case x of
        None \<Rightarrow> None
      | Some resp \<Rightarrow>
          if fp_status resp < 200 \<or> fp_status resp \<ge> 300 then None
          else (case readBoundedJsonObject (fs_utf8 S) resp (fc_maxResponseBytes C) of
            Inl e \<Rightarrow> None
          | Inr doc \<Rightarrow> (case read_entries (json_get ''localActors'' doc) (fc_maxCollectionItems C) (follower_entry S C) of
              Inl e \<Rightarrow> None | Inr local \<Rightarrow> Some local)))"

lemma f_sum_run: "f_sum x w = (x, w)"
  by (simp add: f_sum_def io_throw_def io_return_def split: sum.split)

lemma getAuthorityJson_run:
  "\<exists>x s r. getAuthorityJson S C url w = (r, \<lparr>fw_srv = s, fw_trace = FvAuthority url x # fw_trace w\<rparr>) \<and>
     (\<forall>doc. r = Inr doc \<longrightarrow> (\<exists>resp. x = Some resp \<and> 200 \<le> fp_status resp \<and> fp_status resp < 300 \<and>
        readBoundedJsonObject (fs_utf8 S) resp (fc_maxResponseBytes C) = Inr doc))"
proof -
  let ?q = "\<lparr>fq_url = url, fq_headers = [(''authorization'', ''Bearer '' @ fc_token C), (''accept'', ''application/json'')]\<rparr>"
  obtain a s where a: "fs_authority S ?q (fw_srv w) = (a, s)" by fastforce
  show ?thesis
  proof (cases a)
    case (Inl e)
    with a show ?thesis
      by (intro exI [of _ None] exI [of _ s]) (simp add: getAuthorityJson_def io_bind_def io_catch_def fcalled_def io_throw_def)
  next
    case (Inr resp)
    with a show ?thesis
      by (intro exI [of _ "Some resp"] exI [of _ s]) (auto simp: getAuthorityJson_def io_bind_def io_catch_def fcalled_def io_throw_def f_sum_run)
  qed
qed

lemma getLocalFollowers_run:
  "\<exists>x s r u. getLocalFollowersOfRemote S C sender w = (r, \<lparr>fw_srv = s, fw_trace = FvAuthority u x # fw_trace w\<rparr>) \<and>
     (\<forall>local. r = Inr local \<longrightarrow> local_answer S C x = Some local)"
proof -
  let ?u = "fc_baseUrl C @ ''/api/internal/followers-sync/local-followers-of-remote?remoteActorUri='' @ fs_uri S sender"
  obtain x s r where g: "getAuthorityJson S C ?u w = (r, \<lparr>fw_srv = s, fw_trace = FvAuthority ?u x # fw_trace w\<rparr>)"
    "\<forall>doc. r = Inr doc \<longrightarrow> (\<exists>resp. x = Some resp \<and> 200 \<le> fp_status resp \<and> fp_status resp < 300 \<and>
        readBoundedJsonObject (fs_utf8 S) resp (fc_maxResponseBytes C) = Inr doc)"
    using getAuthorityJson_run [of S C ?u w] by (elim exE conjE) (rule that)
  show ?thesis
  proof (cases r)
    case (Inl e)
    with g(1) show ?thesis
      by (intro exI [of _ x] exI [of _ s] exI [of _ "Inl e"] exI [of _ ?u]) (simp add: getLocalFollowersOfRemote_def io_bind_def)
  next
    case (Inr doc)
    from g(2) Inr obtain resp where "x = Some resp" "200 \<le> fp_status resp" "fp_status resp < 300"
      "readBoundedJsonObject (fs_utf8 S) resp (fc_maxResponseBytes C) = Inr doc" by blast
    then have "local_answer S C x = (case read_entries (json_get ''localActors'' doc) (fc_maxCollectionItems C) (follower_entry S C) of
        Inl e \<Rightarrow> None | Inr local \<Rightarrow> Some local)" by (simp add: local_answer_def)
    with g(1) Inr show ?thesis
      by (intro exI [of _ x] exI [of _ s] exI [of _ "read_entries (json_get ''localActors'' doc) (fc_maxCollectionItems C) (follower_entry S C)"] exI [of _ ?u])
         (auto simp: getLocalFollowersOfRemote_def io_bind_def f_sum_run)
  qed
qed

lemma fetchRemote_run:
  "\<exists>r s es. fetchRemotePartialCollection S C url signer w = (Inr r, \<lparr>fw_srv = s, fw_trace = es @ fw_trace w\<rparr>) \<and> effects es = [] \<and>
     (\<forall>remote. r = Some remote \<longrightarrow> (\<exists>resp sig. FvFetch url (Some resp) \<in> set es \<and> FvSign signer url (Some (Some sig)) \<in> set es \<and>
        read_collection S C resp = Some remote))"
proof -
  obtain g s where g: "fs_sign S signer url (fw_srv w) = (g, s)" by fastforce
  note defs = fetchRemotePartialCollection_def io_bind_def io_catch_def fcalled_def io_throw_def io_return_def
  consider (none) "g = Inr None \<or> (\<exists>e. g = Inl e) \<or> (\<exists>p. g = Inr (Some p) \<and> fs_parse S url = None)"
    | (signed) date signature u where "g = Inr (Some (date, signature))" "fs_parse S url = Some u"
    by (cases g; cases "fs_parse S url") (metis not_None_eq surj_pair)+
  then show ?thesis
  proof cases
    case none
    with g show ?thesis
      by (intro exI [of _ None] exI [of _ s] exI [of _ "[FvSign signer url (reply g)]"]) (auto simp: defs split: prod.split)
  next
    case signed
    let ?q = "\<lparr>fq_url = url, fq_headers = [(''accept'', ''application/activity+json, application/ld+json''), (''date'', date),
                         (''signature'', signature), (''host'', u_host u), (''user-agent'', fc_userAgent C)]\<rparr>"
    obtain a s' where a: "fs_fetch S ?q s = (a, s')" by fastforce
    show ?thesis
    proof (cases a)
      case (Inl e)
      with g a signed show ?thesis
        by (intro exI [of _ None] exI [of _ s'] exI [of _ "[FvFetch url None, FvSign signer url (reply g)]"]) (simp add: defs Let_def)
    next
      case (Inr resp)
      with g a signed show ?thesis
        by (intro exI [of _ "read_collection S C resp"] exI [of _ s'] exI [of _ "[FvFetch url (Some resp), FvSign signer url (reply g)]"])
           (simp add: defs Let_def)
    qed
  qed
qed


section \<open>The receiver\<close>

lemma local_read:
  obtains x s u r where "getLocalFollowersOfRemote S C sender w = (r, \<lparr>fw_srv = s, fw_trace = FvAuthority u x # fw_trace w\<rparr>)"
    "\<forall>local. r = Inr local \<longrightarrow> local_answer S C x = Some local"
  using getLocalFollowers_run [of S C sender w] by (elim exE conjE) (rule that)

lemma remote_read:
  obtains r s es where "fetchRemotePartialCollection S C url signer w = (Inr r, \<lparr>fw_srv = s, fw_trace = es @ fw_trace w\<rparr>)" "effects es = []"
    "\<forall>remote. r = Some remote \<longrightarrow> (\<exists>resp sig. FvFetch url (Some resp) \<in> set es \<and> FvSign signer url (Some (Some sig)) \<in> set es \<and>
        read_collection S C resp = Some remote)"
  using fetchRemote_run [of S C url signer w] by (elim exE conjE) (rule that)

definition sync_evidence ::
  "'s fs_services \<Rightarrow> fs_config \<Rightarrow> string \<Rightarrow> string \<Rightarrow> json \<Rightarrow> string \<Rightarrow> fs_event list \<Rightarrow> follower_record list \<Rightarrow> string list \<Rightarrow> bool" where
  "sync_evidence S C h sender doc signer es local remote \<longleftrightarrow>
     (\<exists>p x u resp sig. parseCollectionSyncHeader h = Some p \<and>
        validateCollectionSyncHeader (fs_parse S) p (extractFollowersUri doc sender) = Sync_valid \<and>
        FvAuthority u x \<in> set es \<and> local_answer S C x = Some local \<and>
        computePartialFollowersDigest (fs_sha S) (map fo_actorUri local) \<noteq> sp_digest p \<and>
        FvSign signer (sp_url p) (Some (Some sig)) \<in> set es \<and> FvFetch (sp_url p) (Some resp) \<in> set es \<and> read_collection S C resp = Some remote)"

lemma sync_run:
  fixes S :: "'s fs_services"
  shows "\<exists>s es. processInboundSyncHeader S C h sender doc signer w = (Inr (), \<lparr>fw_srv = s, fw_trace = es @ fw_trace w\<rparr>) \<and>
     (effects es = [] \<or> (\<exists>local remote. sync_evidence S C h sender doc signer es local remote \<and> effects es = plan_of S C sender local remote))"
proof (cases "\<exists>p. parseCollectionSyncHeader h = Some p \<and>
    validateCollectionSyncHeader (fs_parse S) p (extractFollowersUri doc sender) = Sync_valid")
  case False
  then show ?thesis
    by (intro exI [of _ "fw_srv w"] exI [of _ "[]"])
       (auto simp: processInboundSyncHeader_def io_catch_def io_return_def split: option.split)
next
  case True
  then obtain p where p: "parseCollectionSyncHeader h = Some p"
    "validateCollectionSyncHeader (fs_parse S) p (extractFollowersUri doc sender) = Sync_valid" by blast
  obtain x s u r where l: "getLocalFollowersOfRemote S C sender w = (r, \<lparr>fw_srv = s, fw_trace = FvAuthority u x # fw_trace w\<rparr>)"
    "\<forall>local. r = Inr local \<longrightarrow> local_answer S C x = Some local" by (rule local_read)
  let ?w = "\<lparr>fw_srv = s, fw_trace = FvAuthority u x # fw_trace w\<rparr>"
  show ?thesis
  proof (cases r)
    case (Inl e)
    with p l(1) show ?thesis
      by (intro exI [of _ s] exI [of _ "[FvAuthority u x]"]) (simp add: processInboundSyncHeader_def io_catch_def io_return_def io_bind_def)
  next
    case (Inr local)
    show ?thesis
    proof (cases "computePartialFollowersDigest (fs_sha S) (map fo_actorUri local) = sp_digest p")
      case True
      with p l(1) Inr show ?thesis
        by (intro exI [of _ s] exI [of _ "[FvAuthority u x]"]) (simp add: processInboundSyncHeader_def io_catch_def io_return_def io_bind_def)
    next
      case False
      obtain q s' es where q: "(fetchRemotePartialCollection S C (sp_url p) signer :: ('s fs_world, authority_error, string list option) eio) ?w = (Inr q, \<lparr>fw_srv = s', fw_trace = es @ fw_trace ?w\<rparr>)"
        "effects es = []" "\<forall>remote. q = Some remote \<longrightarrow> (\<exists>resp sig. FvFetch (sp_url p) (Some resp) \<in> set es \<and>
          FvSign signer (sp_url p) (Some (Some sig)) \<in> set es \<and> read_collection S C resp = Some remote)" by (rule remote_read)
      let ?w2 = "\<lparr>fw_srv = s', fw_trace = es @ fw_trace ?w\<rparr>"
      show ?thesis
      proof (cases q)
        case None
        with p l(1) Inr False q(1,2) show ?thesis
          by (intro exI [of _ s'] exI [of _ "es @ [FvAuthority u x]"]) (simp add: processInboundSyncHeader_def io_catch_def io_return_def io_bind_def)
      next
        case (Some remote)
        have "does (reconcile_followers S C sender local remote :: ('s fs_world, authority_error, unit) eio) (plan_of S C sender local remote)"
          by (rule reconcile_does)
        then obtain a s3 es3 where c: "(reconcile_followers S C sender local remote :: ('s fs_world, authority_error, unit) eio) ?w2 =
            (Inr a, \<lparr>fw_srv = s3, fw_trace = es3 @ fw_trace ?w2\<rparr>)" "effects es3 = plan_of S C sender local remote"
          unfolding does_def by blast
        have ev: "sync_evidence S C h sender doc signer (es3 @ es @ [FvAuthority u x]) local remote"
          using p l(2) Inr False q(3) Some unfolding sync_evidence_def by fastforce
        have "processInboundSyncHeader S C h sender doc signer w = (Inr (), \<lparr>fw_srv = s3, fw_trace = (es3 @ es @ [FvAuthority u x]) @ fw_trace w\<rparr>)"
          using p l(1) Inr False q(1) Some c(1) by (simp add: processInboundSyncHeader_def io_catch_def io_return_def io_bind_def)
        with ev c(2) q(2) show ?thesis by (intro exI [of _ s3] exI [of _ "es3 @ es @ [FvAuthority u x]"]) auto
      qed
    qed
  qed
qed

text \<open>C24: The receiver touches follows only on complete evidence, and then exactly as the protocol says.  Whatever the services answer,
  \<open>processInboundSyncHeader\<close> resolves; and either it removes and cleans up nothing, or the header was well formed and named the sender's own followers
  collection and a URL of the same origin, ActivityPods listed the local followers completely, their digest differs from the header's, the
  request to the header's URL was signed and answered with a complete collection within the limits; and then the removals are exactly the local
  followers that the collection does not list, and the clean-ups exactly the local addresses it lists that are not followers, each once.\<close>
theorem sync_acts_on_evidence:
  "fst (processInboundSyncHeader S C h sender doc signer \<lparr>fw_srv = s, fw_trace = []\<rparr>) = Inr () \<and>
   (let es = fw_trace (snd (processInboundSyncHeader S C h sender doc signer \<lparr>fw_srv = s, fw_trace = []\<rparr>))
    in effects es = [] \<or>
       (\<exists>p x u resp sig local remote. parseCollectionSyncHeader h = Some p \<and> sp_collectionId p = extractFollowersUri doc sender \<and>
          extractOrigin (fs_parse S) (sp_url p) = extractOrigin (fs_parse S) (sp_collectionId p) \<and>
          FvAuthority u x \<in> set es \<and> local_answer S C x = Some local \<and>
          computePartialFollowersDigest (fs_sha S) (map fo_actorUri local) \<noteq> sp_digest p \<and>
          FvSign signer (sp_url p) (Some (Some sig)) \<in> set es \<and> FvFetch (sp_url p) (Some resp) \<in> set es \<and>
          read_collection S C resp = Some remote \<and>
          effects es = map (\<lambda>(u, f). Inl (fo_identifier f, sender)) (filter (\<lambda>(u, f). u \<notin> set (local_uris S C remote)) (local_map local)) @
            (if fs_stale S = None then []
             else map (\<lambda>u. Inr (u, sender)) (filter (\<lambda>u. u \<notin> fo_actorUri ` set local) (local_uris S C remote)))))"
proof -
  obtain s' es where r: "processInboundSyncHeader S C h sender doc signer \<lparr>fw_srv = s, fw_trace = []\<rparr> = (Inr (), \<lparr>fw_srv = s', fw_trace = es\<rparr>)"
    "effects es = [] \<or> (\<exists>local remote. sync_evidence S C h sender doc signer es local remote \<and> effects es = plan_of S C sender local remote)"
    using sync_run [of S C h sender doc signer "\<lparr>fw_srv = s, fw_trace = []\<rparr>"] by auto
  have v: "sp_collectionId p = f \<and> extractOrigin (fs_parse S) (sp_url p) = extractOrigin (fs_parse S) (sp_collectionId p)"
    if "validateCollectionSyncHeader (fs_parse S) p f = Sync_valid" for p f
    using that by (auto simp: validateCollectionSyncHeader_def extractOrigin_def split: if_splits option.splits)
  show ?thesis
  proof (cases "effects es = []")
    case False
    with r(2) obtain local remote where "sync_evidence S C h sender doc signer es local remote" "effects es = plan_of S C sender local remote" by blast
    then show ?thesis
      unfolding sync_evidence_def plan_of_def unlisted_def unknown_def r(1) Let_def snd_conv fs_world.select_convs fst_conv
      using v by (intro conjI disjI2 refl) metis
  qed (simp add: r(1))
qed


section \<open>Afterwards\<close>

lemma local_map_plain:
  assumes "distinct (map fo_actorUri local)"
  shows "set (local_map local) = (\<lambda>f. (fo_actorUri f, f)) ` set local"
proof -
  have "map_of (rev (map (\<lambda>f. (fo_actorUri f, f)) local)) (fo_actorUri f) = Some f" if "f \<in> set local" for f
  proof (rule map_of_is_SomeI)
    show "distinct (map fst (rev (map (\<lambda>f. (fo_actorUri f, f)) local)))" using assms by (simp add: rev_map [symmetric] comp_def)
    show "(fo_actorUri f, f) \<in> set (rev (map (\<lambda>f. (fo_actorUri f, f)) local))" using that by simp
  qed
  then show ?thesis by (force simp: local_map_def image_iff)
qed

lemma removed_iff:
  assumes "distinct (map fo_actorUri local)" and "distinct (map fo_identifier local)" and "f \<in> set local"
  shows "Inl (fo_identifier f, sender) \<in> set (plan_of S C sender local remote) \<longleftrightarrow> fo_actorUri f \<notin> set (local_uris S C remote)"
proof -
  have "Inl (fo_identifier f, sender) \<in> set (plan_of S C sender local remote) \<longleftrightarrow>
      (\<exists>g \<in> set local. fo_identifier g = fo_identifier f \<and> fo_actorUri g \<notin> set (local_uris S C remote))"
    unfolding plan_of_def unlisted_def using local_map_plain [OF assms(1)] by (auto simp: image_iff)
  moreover have "g = f" if "g \<in> set local" "fo_identifier g = fo_identifier f" for g
    using assms(2,3) that by (metis distinct_map inj_onD)
  ultimately show ?thesis using assms(3) by blast
qed


text \<open>Only addresses of the sidecar's own origin count as listed.  A local follower whose URI, as ActivityPods gives it, is not at \<open>https://\<close> and the
  configured domain is removed by every reconciliation, also when the remote collection lists it: a deployment that serves the actors from
  another origin (or over http) loses all its follows of a sender at the first digest that differs.\<close>
theorem sync_removes_other_origins:
  assumes "distinct (map fo_actorUri local)" and "f \<in> set local"
    and "extractOrigin (fs_parse S) (fo_actorUri f) \<noteq> Some (''https://'' @ fc_domain C)"
  shows "\<exists>status. FvUnfollow (fo_identifier f) sender status \<in>
    set (fw_trace (snd (reconcile_followers S C sender local remote \<lparr>fw_srv = s, fw_trace = []\<rparr> :: (string + unit) \<times> 's fs_world)))"
proof -
  have "does (reconcile_followers S C sender local remote :: ('s fs_world, string, unit) eio) (plan_of S C sender local remote)"
    by (rule reconcile_does)
  then obtain a s' es where c: "(reconcile_followers S C sender local remote :: ('s fs_world, string, unit) eio) \<lparr>fw_srv = s, fw_trace = []\<rparr> =
      (Inr a, \<lparr>fw_srv = s', fw_trace = es\<rparr>)" "effects es = plan_of S C sender local remote"
    unfolding does_def by (metis append_Nil2 fs_world.select_convs(2))
  have "fo_actorUri f \<notin> set (local_uris S C remote)" using assms(3) by (simp add: local_uris_def)
  then have "Inl (fo_identifier f, sender) \<in> set (effects es)"
    unfolding c(2) plan_of_def unlisted_def using local_map_plain [OF assms(1)] assms(2) by (auto simp: image_iff)
  then obtain ev where "ev \<in> set es" "fs_effect ev = Some (Inl (fo_identifier f, sender))"
    by (auto simp: effects_def List.map_filter_def)
  moreover have "\<exists>status. ev = FvUnfollow (fo_identifier f) sender status" using \<open>fs_effect ev = _\<close> by (cases ev) auto
  ultimately have "\<exists>status. FvUnfollow (fo_identifier f) sender status \<in> set es" by blast
  then show ?thesis by (simp add: c(1))
qed

section \<open>The sender\<close>

definition partial_answer :: "'s fs_services \<Rightarrow> fs_config \<Rightarrow> fs_response option \<Rightarrow> string list option" where
  "partial_answer S C x =
     (case x of
        None \<Rightarrow> None
      | Some resp \<Rightarrow>
          if fp_status resp < 200 \<or> fp_status resp \<ge> 300 then None
          else (case readBoundedJsonObject (fs_utf8 S) resp (fc_maxResponseBytes C) of
            Inl e \<Rightarrow> None
          | Inr doc \<Rightarrow> (case read_entries (json_get ''followers'' doc) (fc_maxCollectionItems C) (\<lambda>v. normalizeHttpUri S (Some v) (fc_maxUriBytes C)) of
              Inl e \<Rightarrow> None | Inr followers \<Rightarrow> Some followers)))"

lemma partial_read:
  assumes "getPartialFollowers S C i v w = (Inr followers, w')"
  shows "\<exists>x u. fw_trace w' = FvAuthority u x # fw_trace w \<and> partial_answer S C x = Some followers"
proof -
  obtain base where b: "normalizeServerBaseUri (fs_parse S) v = Some base"
    using assms by (auto simp: getPartialFollowers_def io_throw_def split: option.splits)
  let ?u = "fc_baseUrl C @ ''/api/internal/followers-sync-v2/partial-collection?actorIdentifier='' @ fs_uri S i @ ''&baseUri='' @ fs_uri S base"
  obtain x s r where g: "getAuthorityJson S C ?u w = (r, \<lparr>fw_srv = s, fw_trace = FvAuthority ?u x # fw_trace w\<rparr>)"
    "\<forall>doc. r = Inr doc \<longrightarrow> (\<exists>resp. x = Some resp \<and> 200 \<le> fp_status resp \<and> fp_status resp < 300 \<and>
        readBoundedJsonObject (fs_utf8 S) resp (fc_maxResponseBytes C) = Inr doc)"
    using getAuthorityJson_run [of S C ?u w] by (elim exE conjE) (rule that)
  show ?thesis
  proof (cases r)
    case (Inl e)
    with assms b g(1) show ?thesis by (simp add: getPartialFollowers_def io_bind_def)
  next
    case (Inr doc)
    with g(2) obtain resp where "x = Some resp" "200 \<le> fp_status resp" "fp_status resp < 300"
      "readBoundedJsonObject (fs_utf8 S) resp (fc_maxResponseBytes C) = Inr doc" by blast
    with assms b g(1) Inr show ?thesis by (auto simp: getPartialFollowers_def io_bind_def f_sum_run partial_answer_def)
  qed
qed

lemma hex_byte_chars: "set (hex_byte b) \<subseteq> set ''0123456789abcdef''"
proof -
  have "unat b < 256" using unsigned_less [of b] by simp
  then have "unat b div 16 < length ''0123456789abcdef''" "unat b mod 16 < length ''0123456789abcdef''" by auto
  then show ?thesis unfolding hex_byte_def nibble_char_def using nth_mem by (metis empty_set insert_subset list.simps(15) empty_subsetI)
qed

lemma digest_text_ok: "computePartialFollowersDigest sha ids \<noteq> [] \<and> CHR ''\"'' \<notin> set (computePartialFollowersDigest sha ids)"
proof
  have "digest_bytes sha ids \<noteq> []" using digest_length [of sha ids] by auto
  then show "computePartialFollowersDigest sha ids \<noteq> []" by (cases "digest_bytes sha ids") (simp_all add: computePartialFollowersDigest_def hex_byte_def)
  have "set (computePartialFollowersDigest sha ids) \<subseteq> set ''0123456789abcdef''"
    unfolding computePartialFollowersDigest_def using hex_byte_chars by fastforce
  then show "CHR ''\"'' \<notin> set (computePartialFollowersDigest sha ids)" by auto
qed

text \<open>What the sender promises the receiver can check.  Without a cache, a header that \<open>buildSenderHeader\<close> gives is read by the receiver as the sender's
  followers collection, the synchronisation URL of the actor, and the digest of the followers that ActivityPods listed completely; it passes the
  validation against that collection exactly when the collection and the synchronisation URL have one origin.\<close>
theorem sender_header_checked_by_receiver:
  assumes "buildSenderHeader S C i f inbox w = (Inr (Some h), w')" and "fs_get S = None" and "f \<noteq> []" and "CHR ''\"'' \<notin> set f"
    and "CHR ''\"'' \<notin> set (sync_url S C i)"
  shows "\<exists>u x followers. fw_trace w' = FvAuthority u x # fw_trace w \<and> partial_answer S C x = Some followers \<and>
    parseCollectionSyncHeader h =
      Some \<lparr>sp_collectionId = f, sp_url = sync_url S C i, sp_digest = computePartialFollowersDigest (fs_sha S) followers\<rparr> \<and>
    (validateCollectionSyncHeader (fs_parse S) (the (parseCollectionSyncHeader h)) f = Sync_valid \<longleftrightarrow>
       (\<exists>o'. extractOrigin (fs_parse S) f = Some o' \<and> extractOrigin (fs_parse S) (sync_url S C i) = Some o'))"
proof -
  obtain t where t: "extractOrigin (fs_parse S) inbox = Some t" "t \<noteq> []"
    using assms(1) by (cases "extractOrigin (fs_parse S) inbox") (auto simp: buildSenderHeader_def io_catch_def io_return_def split: if_splits)
  obtain r w1 where g: "getPartialFollowers S C i t w = (r, w1)" by fastforce
  from assms(1,2) t g obtain followers where fo: "r = Inr followers" "w1 = w'"
    "h = serializeCollectionSyncHeader \<lparr>sp_collectionId = f, sp_url = sync_url S C i, sp_digest = computePartialFollowersDigest (fs_sha S) followers\<rparr>"
    by (cases r) (auto simp: buildSenderHeader_def io_catch_def io_return_def io_bind_def io_then_def resolveDigest_def cached_digest_def store_digest_def
        Let_def digest_text_def)
  let ?p = "\<lparr>sp_collectionId = f, sp_url = sync_url S C i, sp_digest = computePartialFollowersDigest (fs_sha S) followers\<rparr>"
  have "writable ?p" using assms(3-5) digest_text_ok by (auto simp: writable_def sync_url_def)
  then have p: "parseCollectionSyncHeader h = Some ?p" unfolding fo(3) by (rule header_roundtrip)
  have v: "validateCollectionSyncHeader (fs_parse S) ?p f = Sync_valid \<longleftrightarrow>
       (\<exists>o'. extractOrigin (fs_parse S) f = Some o' \<and> extractOrigin (fs_parse S) (sync_url S C i) = Some o')"
    by (auto simp: validateCollectionSyncHeader_def extractOrigin_def split: option.splits)
  from partial_read [OF g [unfolded fo(1,2)]] p v show ?thesis by auto
qed


section \<open>Sample\<close>

text \<open>ActivityPods lists one follower of a remote actor, \<open>a1\<close>, and one remote follower of a local actor.\<close>

definition follower_a :: follower_record where
  "follower_a = \<lparr>fo_actorUri = ''https://a.example/u/1'', fo_identifier = ''a1''\<rparr>"

definition follower_b :: follower_record where
  "follower_b = \<lparr>fo_actorUri = ''https://b.example/u/2'', fo_identifier = ''b2''\<rparr>"

definition fs_sample_listing :: json where
  "fs_sample_listing =
     JObj [(''localActors'', JArr [JObj [(''actorUri'', JStr ''https://a.example/u/1''), (''identifier'', JStr ''a1'')]]),
       (''followers'', JArr [JStr ''https://c.example/u/3''])]"

text \<open>\<open>mini_parse\<close> of \<open>Webhook_Properties\<close>, and one origin without a path.\<close>

definition fs_sample_parse :: url_lib where
  "fs_sample_parse t = mini_parse (if t = ''https://c.example'' then ''https://c.example/'' else t)"

definition fs_sample :: "unit fs_services" where
  "fs_sample =
     \<lparr>fs_now = (\<lambda>s. (0, s)), fs_authority = (\<lambda>q. io_return \<lparr>fp_status = 200, fp_chunks = [json_stringify fs_sample_listing], fp_failure = None\<rparr>),
      fs_unfollow = (\<lambda>i r. io_return 200), fs_get = None, fs_set = (\<lambda>k v t. io_return ()), fs_sign = (\<lambda>a u. io_return None),
      fs_fetch = (\<lambda>q. io_throw ''refused''), fs_stale = None, fs_parse = fs_sample_parse, fs_print = mini_print,
      fs_sha = (\<lambda>t. replicate 32 (of_nat (length t))), fs_uri = (\<lambda>t. t), fs_utf8 = (\<lambda>t. t), fs_bytes = (\<lambda>t. int (length t))\<rparr>"

definition fs_sample_config :: fs_config where
  "fs_sample_config =
     \<lparr>fc_domain = ''a.example'', fc_baseUrl = ''http://pods'', fc_token = ''t'', fc_userAgent = ''s'', fc_digestCacheTtlSeconds = Num 300,
      fc_maxRemoteCollectionBytes = 65536, fc_maxRemoteCollectionItems = 100, fc_maxRemoteFollowerUriBytes = 4096, fc_staleCleanupConcurrency = 8,
      fc_maxResponseBytes = int (length (json_stringify fs_sample_listing)),
      fc_maxCollectionItems = 100, fc_maxUriBytes = 4096, fc_maxIdentifierBytes = 512\<rparr>"

lemma fs_sample_urls:
  "extractOrigin fs_sample_parse ''https://a.example/u/1'' = Some ''https://a.example''"
  "extractOrigin fs_sample_parse ''https://b.example/u/2'' = Some ''https://b.example''"
  "extractOrigin fs_sample_parse ''https://c.example/u/3'' = Some ''https://c.example''"
  "map_option (\<lambda>u. (web_url u, mini_print u)) (fs_sample_parse ''https://a.example/u/1'') = Some (True, ''https://a.example/u/1'')"
  "map_option (\<lambda>u. (web_url u, mini_print u)) (fs_sample_parse ''https://c.example/u/3'') = Some (True, ''https://c.example/u/3'')"
  "map_option web_url (fs_sample_parse ''https://c.example'') = Some True"
  by code_simp+

lemma fs_sample_authority:
  "getAuthorityJson fs_sample fs_sample_config url w = (Inr fs_sample_listing, \<lparr>fw_srv = fw_srv w, fw_trace =
     FvAuthority url (Some \<lparr>fp_status = 200, fp_chunks = [json_stringify fs_sample_listing], fp_failure = None\<rparr>) # fw_trace w\<rparr>)"
proof -
  have "json_plain fs_sample_listing" by (simp add: fs_sample_listing_def)
  then have "json_parse (json_stringify fs_sample_listing) = Some fs_sample_listing" by (rule json_parse_stringify)
  moreover have "isRecord fs_sample_listing" by (simp add: fs_sample_listing_def)
  ultimately show ?thesis
    by (simp add: getAuthorityJson_def io_bind_def io_catch_def fcalled_def fs_sample_def fs_sample_config_def io_return_def f_sum_run readBoundedJsonObject_def
        del: json_stringify.simps)
qed

lemma fs_sample_local:
  "\<exists>w'. getLocalFollowersOfRemote fs_sample fs_sample_config sender w = (Inr [follower_a], w')"
proof -
  have e: "follower_entry fs_sample fs_sample_config (JObj [(''actorUri'', JStr ''https://a.example/u/1''), (''identifier'', JStr ''a1'')]) = Some follower_a"
    using fs_sample_urls(4)
    by (auto simp: follower_entry_def normalizeHttpUri_def normalizeIdentifier_def fs_sample_def fs_sample_config_def follower_a_def js_trim_def js_space_def)
  show ?thesis
    by (simp add: getLocalFollowersOfRemote_def io_bind_def fs_sample_authority f_sum_run read_entries_def fs_sample_listing_def e)
       (simp add: fs_sample_config_def)
qed


theorem sync_removes_other_origins_witness:
  "\<exists>status. FvUnfollow ''b2'' ''https://c.example/u/3'' status \<in>
    set (fw_trace (snd (reconcile_followers fs_sample fs_sample_config ''https://c.example/u/3'' [follower_b] [''https://b.example/u/2'']
      \<lparr>fw_srv = (), fw_trace = []\<rparr> :: (string + unit) \<times> unit fs_world)))"
proof -
  have o': "extractOrigin (fs_parse fs_sample) (fo_actorUri follower_b) \<noteq> Some (''https://'' @ fc_domain fs_sample_config)"
    using fs_sample_urls(2) by (simp add: fs_sample_def fs_sample_config_def follower_b_def)
  have i: "fo_identifier follower_b = ''b2''" by (simp add: follower_b_def)
  show ?thesis
    using sync_removes_other_origins [of "[follower_b]" follower_b fs_sample fs_sample_config] o' i by simp
qed

theorem sender_header_checked_by_receiver_witness:
  "\<exists>h w'. buildSenderHeader fs_sample fs_sample_config ''al'' ''https://a.example/u/1'' ''https://c.example/u/3'' \<lparr>fw_srv = (), fw_trace = []\<rparr> = (Inr (Some h), w') \<and>
     sp_collectionId (the (parseCollectionSyncHeader h)) = ''https://a.example/u/1''"
proof -
  let ?w = "\<lparr>fw_srv = (), fw_trace = []\<rparr>"
  have n: "normalizeHttpUri fs_sample (Some (JStr ''https://c.example/u/3'')) 4096 = Some ''https://c.example/u/3''"
    using fs_sample_urls(5) by (auto simp: normalizeHttpUri_def fs_sample_def)
  obtain b where b: "normalizeServerBaseUri fs_sample_parse ''https://c.example'' = Some b"
    using fs_sample_urls(6) by (auto simp: normalizeServerBaseUri_def)
  have sv: "fs_parse fs_sample = fs_sample_parse" "fs_get fs_sample = None" "fc_maxUriBytes fs_sample_config = 4096" "fc_maxCollectionItems fs_sample_config = 100"
    by (simp_all add: fs_sample_def fs_sample_config_def)
  obtain w' where g: "getPartialFollowers fs_sample fs_sample_config ''al'' ''https://c.example'' ?w = (Inr [''https://c.example/u/3''], w')"
    by (simp add: getPartialFollowers_def io_bind_def fs_sample_authority f_sum_run read_entries_def fs_sample_listing_def sv b n)
  obtain h where h: "buildSenderHeader fs_sample fs_sample_config ''al'' ''https://a.example/u/1'' ''https://c.example/u/3'' ?w = (Inr (Some h), w')"
    by (simp add: buildSenderHeader_def io_catch_def io_return_def io_bind_def io_then_def resolveDigest_def cached_digest_def store_digest_def
        Let_def sv fs_sample_urls(3) g)
  have q: "CHR ''\"'' \<notin> set ''https://a.example/u/1''" "CHR ''\"'' \<notin> set (sync_url fs_sample fs_sample_config ''al'')"
    by (simp_all add: sync_url_def fs_sample_def fs_sample_config_def)
  from sender_header_checked_by_receiver [OF h sv(2) _ q] h show ?thesis by auto
qed

end
