(* ===== verification/Spec2Isabelle.thy ===== *)
theory Spec2Isabelle
  imports Prelude Delivery_Claims Payload_Codec Json Delayed_Properties Egress_Properties
    Worker_Text Worker_Liveness Worker_Egress Deployment Policy_Properties
    Scheduler_Properties Intent_Guarantees Intent_Deployment Plan_Properties Origin_Deployment Inbound_Signatures Inbound_Delivery
    Followers_Properties
begin

text \<open>
  Verification of the durable work queue and the delivery workers of the ActivityPods federation sidecar
  (\<open>fedify-sidecar/src/\<close>; all paths below are relative to that directory).

  \<^bold>\<open>The program.\<close>  The sidecar sits between ActivityPods and the fediverse.  A committed local activity arrives as an \<^emph>\<open>outbox intent\<close>;
  the intent worker publishes it to the event streams and fans it out into \<^emph>\<open>outbound jobs\<close>, one per inbox; the outbound worker claims a job,
  posts it through the egress policy and records that it is delivered.  Requests from other servers arrive as \<^emph>\<open>inbound envelopes\<close>; the inbound
  worker verifies, filters, de-duplicates and publishes them and forwards them to ActivityPods.  \<^emph>\<open>Origin reconciliation jobs\<close> fetch a remote
  object again later; a change re-enters as an inbound envelope.  All four kinds of job live in Redis streams with consumer groups; jobs of
  the future live in sorted sets beside them until Lua scripts promote them.  A worker may stop anywhere, and an entry that was not
  acknowledged comes back, so that correctness rests on the order in which a worker claims, acts, records and acknowledges.

  \<^bold>\<open>How it is modelled.\<close>  An asynchronous method is a function from the world to an error or a value and the new world (\<open>Prelude\<close>,
  \<open>io_bind\<close>, \<open>io_catch\<close>, \<open>io_finally\<close> for \<open>await\<close>, \<open>try/catch\<close> and \<open>finally\<close>).  Whatever a worker calls is a field of a services record, an
  arbitrary function on an abstract state that may fail at every call; the worker's world also keeps the trace of those calls, newest
  first, and the count of active jobs.  A theorem on runs without hypotheses on the services therefore covers every failure, restart and
  interleaving at a call.  Redis is a record of commands (\<open>Redis\<close>), with the documented effect of each as the locale
  \<open>redis_server\<close>; \<open>ks_server\<close>, the key space used as its own server, satisfies it.  Scripts run atomically.

  \<^bold>\<open>The parts.\<close>

  \<^item> Time bounds: \<open>Replay_Horizon\<close> is \<open>delivery/apdm-replay-horizon.ts\<close>.

  \<^item> Claims: \<open>Delivery_Claims\<close> is \<open>delivery/outbound-delivery-claims.ts\<close>, its three scripts and the cutover from version 1.  The locale
  \<open>claim_store\<close> is the contract of claims; a \<open>sublocale\<close> shows that the scripts meet it on every server of \<open>redis_server\<close>.
  A claim excludes all others, and a completion is never forgotten within its lifetime.

  \<^item> Queue: \<open>Payload_Codec\<close> (\<open>queue/redis-stream-payload-codec.ts\<close>: envelope, limits, cache), \<open>Json\<close> (\<open>JSON.stringify\<close> and
  \<open>JSON.parse\<close>), \<open>Queue_Core\<close> (\<open>queue/sidecar-redis-queue-core.ts\<close>: serialisation, consumer rounds, dead letters, idempotency,
  rates, slots, intent state, fan-out), \<open>Delayed_Queue\<close> (\<open>queue/sidecar-redis-queue.ts\<close>) and \<open>Intent_Scheduler\<close>
  (\<open>delivery/outbox-intent-delay-scheduler.ts\<close>).  The two delayed stores share the locales \<open>delay_store\<close> and \<open>delay_scripts\<close>, each
  interpreted on both.  \<open>Queue_Properties\<close>, \<open>Delayed_Properties\<close> and \<open>Scheduler_Properties\<close>: jobs read back as written, a batch is wholly
  durable or reported, the better record wins, promotion loses and invents nothing, parking ends.

  \<^item> Egress: \<open>Egress_Policy\<close> is \<open>security/activitypub-egress-policy.ts\<close>.  \<open>Egress_Properties\<close>: the IPv4 test is membership in the
  reserved blocks of 32-bit words, and a request leaves only over TLS to a public address, pinned to the one checked.

  \<^item> Outbound worker: \<open>Outbound_Worker\<close> is \<open>processJob\<close> of \<open>delivery/outbound-worker.ts\<close> and all it calls.  \<open>Delivery_Protocol\<close>
  is the abstract state machine, an inductive step relation on the progress of a job; \<open>Worker_Properties\<close> shows that every run refines
  it and reads guarantees off it (one post and only with the claim, acknowledgement only behind a durable record); \<open>Worker_Liveness\<close> that a
  run delivers when the services cooperate; \<open>Worker_Invariants\<close> what no run changes; \<open>Worker_Egress\<close> that no run reaches a forbidden
  address; \<open>Worker_Text\<close> that logs carry no bearer token; \<open>Worker_Sample\<close> is a deployment for witnesses.
  \<open>Deployment\<close> runs many workers on the claim store, with time passing: what is delivered is never posted again.

  \<^item> Hand-off: \<open>Outbound_Webhook\<close> (\<open>delivery/outbound-webhook.ts\<close>), \<open>Delivery_Policy\<close> (\<open>utils/safe-json.ts\<close> and the two policy files
  of \<open>protocol-bridge/projectors/activitypub/\<close>), \<open>Delivery_Plan\<close> (\<open>delivery/ActivityPubDeliveryPlanContract.ts\<close>), with \<open>Webhook_Properties\<close>,
  \<open>Policy_Properties\<close> and \<open>Plan_Properties\<close>: normal forms, bound identities, sanitised values, sound plans that hide blind
  recipients, a canonical text that identifies its value.

  \<^item> Intent worker: \<open>Intent_Worker\<close> is \<open>processIntent\<close> of \<open>delivery/outbox-intent-worker.ts\<close>; \<open>Intent_Protocol\<close>, \<open>Intent_Properties\<close>,
  \<open>Intent_Delivery\<close> and \<open>Intent_Guarantees\<close> show that an intent is observed before it is fanned out, becomes exactly the jobs it stands for, and
  is acknowledged only when accounted for; \<open>Intent_Deployment\<close> that over all runs its jobs are enqueued once.

  \<^item> Origin worker: \<open>Origin_Worker\<close> is \<open>processJob\<close> of \<open>delivery/origin-reconciliation-worker.ts\<close>; \<open>Origin_Protocol\<close>,
  \<open>Origin_Properties\<close>, \<open>Origin_Guarantees\<close> (with \<open>Origin_Sample\<close>): the protocol, bounded fetching, an update only for a change,
  rounds that end; \<open>Origin_Deployment\<close>: over all runs a change is passed on at most once.

  \<^item> Inbound worker: \<open>Inbound_Activity\<close> (the pure functions) and \<open>Inbound_Worker\<close> (\<open>processEnvelope\<close>) are
  \<open>delivery/inbound-worker.ts\<close> with the guards \<open>delivery/InboundIdempotencyGuard.ts\<close> and \<open>delivery/ProviderAnnounceGuard.ts\<close>.
  \<open>Inbound_Protocol\<close> says what may follow what; its observer remembers the whole trace.  \<open>Inbound_Properties\<close> and \<open>Inbound_Follows\<close> prove
  that every run follows it; \<open>Inbound_Guarantees\<close>: nothing is done but on a verified word, and every acknowledgement has a stated
  reason; \<open>Inbound_Signatures\<close>: what a signature binds and what it leaves open; \<open>Inbound_Deployment\<close> and \<open>Inbound_Delivery\<close>:
  ActivityPods gets an activity at most once over all runs, and gets it when nothing speaks against it.

  \<^item> Followers synchronisation: \<open>Followers_Digest\<close> is the digest and the header of FEP-8fcf (\<open>PartialFollowersDigest.ts\<close> and
  \<open>CollectionSyncHeader.ts\<close> of \<open>federation/fep8fcf/\<close>), \<open>Followers_Sync\<close> the client of the ActivityPods authority and both sides of the protocol
  (\<open>FollowersSyncActivityPodsClient.ts\<close>, \<open>FollowersSyncService.ts\<close>).  \<open>Followers_Properties\<close>: the receiver acts only on complete evidence
  and then removes exactly the difference, after which the digests agree.

  \<^bold>\<open>Proof tools.\<close>  \<open>Prelude\<close> has a weakest-precondition calculus (\<open>wp_rules\<close>) for the scripts, \<open>Protocol_Runs\<close> the judgement \<open>runs\<close> that a
  method follows a protocol, with a rule per construct (\<open>run_rules\<close>), and the induction \<open>leads_invariant\<close> on traces from which the
  guarantees follow.  Each worker supplies a rule per call.  \<open>maintains\<close> (\<open>keep_rules\<close>) lifts an invariant of a single call to all runs.

  \<^bold>\<open>Bounds and fuel.\<close>  All functions are total.  \<open>json_parse\<close> has fuel twice the length of the text (every second level consumes a character),
  and it reads back whatever \<open>json_stringify\<close> prints.  The loop that waits until a delayed job is stored or due (\<open>park_loop\<close>) has fuel;
  \<open>Delayed_Properties\<close> shows that it does not run out if the clock moves with the sleeps and the dead-letter stream answers in the end.  The fetch of the origin worker recurses on the configured number of attempts.  Numbers are integers
  and the non-finite doubles; a fraction occurs only as \<open>Math.random()\<close>, a numerator over 2 to the 53.  Strings have 8-bit characters.

  \<^bold>\<open>Parameters.\<close>  The URL parser, Brotli, SHA-256, base64url, the signature check, \<open>cjson\<close>, DNS, the HTTP client, clocks and random numbers, the
  signing service, the structural part of the schema library, Redpanda, the capability gate and the MRF chain are arguments; what is relied
  on of a library is a named hypothesis (\<open>codec_library\<close>, \<open>url_library\<close>, \<open>lua_lib_ok\<close>, \<open>egress_net\<close>, \<open>delivery_services\<close>), with
  an instance that shows that it can hold.  Redis is assumed to keep what it acknowledged and to answer as documented.

  \<^bold>\<open>What it showed.\<close>  Stated as theorems: a delivery to ActivityPods that fails once is never repeated, because the retry is dropped as a duplicate
  (\<open>Inbound_Delivery\<close>); the inbound worker acknowledges after any unexpected error (\<open>Inbound_Guarantees\<close>); the owner that a
  fetched key document claims is taken as the actor, and a signature without a digest header vouches for any body
  (\<open>Inbound_Signatures\<close>); an origin update speaks for an actor that nothing ties to the fetched URL
  (\<open>Origin_Guarantees\<close>); a version 1 claim key can be a version 2 completion marker (\<open>Delivery_Claims\<close>); an empty address hides an omitted recipient
  from the check of a plan (\<open>Plan_Properties\<close>).

  \<^bold>\<open>Not modelled.\<close>  The endless loops of start and stop and their concurrency limits (the theories on deployments
  order whole runs of the handlers; the contract of claims orders single operations of any number of workers); logs, metrics and telemetry; opening
  of connections; \<open>captureFlagModerationCase\<close>, a service of the inbound worker; the administration, AT Protocol,
  feed, media, entryway and translation parts, which do not take part in delivery; the adapters to Fedify, to Kafka and to the signing
  service, which are glue around libraries; in \<open>federation/fep8fcf/\<close> the sharing of a digest computation between concurrent
  callers, the HTTP routes and the fetcher of key documents.  Closing a dispatcher and values that \<open>JSON.parse\<close> cannot give are outside the model.
\<close>

end
